(* ===== verification/Prelude.thy ===== *)
theory Prelude
  imports
    Complex_Main
    "HOL-Library.AList"
    "HOL-Library.Multiset"
    "HOL-Library.Word"
    "HOL-Library.Char_ord"
    "HOL-Library.List_Lexorder"
begin

text \<open>
  Shared vocabulary of the CarbonShift development: the model's number types, Rust's
  machine arithmetic and float casts, \<open>Iterator::min_by\<close> and \<open>max_by\<close>, ASCII string
  helpers, the hash-map interface (a locale) with its association-list provider, and
  the sums over a hash map that the error accounting is built from.

  Conventions used throughout:
  \<^item> an \<open>f64\<close> is a real: rounding is not modelled, and a value that the code tests with
    \<open>is_finite\<close> is finite by construction (JSON numbers are), so the test is kept in the
    shape of the code as \<open>f64_is_finite\<close>;
  \<^item> a slot (\<open>i32\<close>) is an integer; additions and subtractions whose operands come from
    configuration or from the network are written with \<open>i32_add\<close> and \<open>i32_sub\<close>,
    which wrap as the release build does (the debug build panics);
  \<^item> counters (\<open>u64\<close>, \<open>usize\<close>) are naturals;
  \<^item> a Rust panic is \<open>None\<close> of an option type.
\<close>

named_theorems map_simps \<open>lookup and update laws of hash maps\<close>
named_theorems model_defs \<open>small wrappers that every proof unfolds\<close>

type_synonym slot = int
type_synonym request_id = nat
type_synonym f64 = real

section \<open>Machine integers\<close>

definition in_i32 :: "int \<Rightarrow> bool" where
  "in_i32 x \<longleftrightarrow> -2147483648 \<le> x \<and> x \<le> 2147483647"

definition wrap32 :: "int \<Rightarrow> int" where
  "wrap32 x = (x + 2147483648) mod 4294967296 - 2147483648"

definition i32_add :: "int \<Rightarrow> int \<Rightarrow> int" where
  "i32_add a b = wrap32 (a + b)"

definition i32_sub :: "int \<Rightarrow> int \<Rightarrow> int" where
  "i32_sub a b = wrap32 (a - b)"

lemma wrap32_in_range: "in_i32 (wrap32 x)"
proof -
  have "0 \<le> (x + 2147483648) mod 4294967296" "(x + 2147483648) mod 4294967296 < 4294967296"
    by simp_all
  then show ?thesis by (simp add: in_i32_def wrap32_def)
qed

lemma wrap32_id: "in_i32 x \<Longrightarrow> wrap32 x = x"
  by (simp add: in_i32_def wrap32_def)

lemma i32_add_exact: "in_i32 (a + b) \<Longrightarrow> i32_add a b = a + b"
  by (simp add: i32_add_def wrap32_id)

lemma i32_sub_exact: "in_i32 (a - b) \<Longrightarrow> i32_sub a b = a - b"
  by (simp add: i32_sub_def wrap32_id)

lemma i32_sub_nonneg_exact:
  "0 \<le> a \<Longrightarrow> in_i32 a \<Longrightarrow> 0 \<le> b \<Longrightarrow> in_i32 b \<Longrightarrow> i32_sub a b = a - b"
  by (rule i32_sub_exact) (simp add: in_i32_def)

section \<open>Float casts and rounding\<close>

definition f64_is_finite :: "f64 \<Rightarrow> bool" where
  "f64_is_finite x \<longleftrightarrow> True"

definition f64_trunc :: "f64 \<Rightarrow> int" where
  "f64_trunc x = (if 0 \<le> x then \<lfloor>x\<rfloor> else \<lceil>x\<rceil>)"

text \<open>Rust's \<open>as\<close> casts from a float truncate towards zero and saturate.\<close>

definition f64_as_i32 :: "f64 \<Rightarrow> int" where
  "f64_as_i32 x = max (-2147483648) (min 2147483647 (f64_trunc x))"

definition f64_as_i64 :: "f64 \<Rightarrow> int" where
  "f64_as_i64 x = max (-9223372036854775808) (min 9223372036854775807 (f64_trunc x))"

definition f64_as_u64 :: "f64 \<Rightarrow> nat" where
  "f64_as_u64 x = nat (min 18446744073709551615 (f64_trunc x))"

text \<open>\<open>f64::round\<close> rounds half away from zero.\<close>

definition f64_round :: "f64 \<Rightarrow> int" where
  "f64_round x = (if 0 \<le> x then \<lfloor>x + 1 / 2\<rfloor> else \<lceil>x - 1 / 2\<rceil>)"

lemma f64_trunc_of_int [simp]: "f64_trunc (real_of_int z) = z"
  by (simp add: f64_trunc_def)

lemma f64_round_of_int [simp]: "f64_round (real_of_int z) = z"
proof -
  have "\<lfloor>real_of_int z + 1 / 2\<rfloor> = z" by linarith
  moreover have "\<lceil>real_of_int z - 1 / 2\<rceil> = z" by linarith
  ultimately show ?thesis by (simp add: f64_round_def)
qed

lemma f64_round_nonneg: "0 \<le> x \<Longrightarrow> 0 \<le> f64_round x"
  by (simp add: f64_round_def)

lemma f64_as_i32_range: "in_i32 (f64_as_i32 x)"
  by (simp add: f64_as_i32_def in_i32_def)

definition avg_or_zero :: "f64 \<Rightarrow> nat \<Rightarrow> f64" where
  "avg_or_zero s n = (if n > 0 then s / real n else 0)"

lemma avg_or_zero_le: "s \<le> real n * m \<Longrightarrow> 0 \<le> m \<Longrightarrow> avg_or_zero s n \<le> m"
  by (auto simp: avg_or_zero_def field_simps)

section \<open>Minimum and maximum of an iterator\<close>

text \<open>
  \<open>Iterator::min_by\<close> keeps the first of several minimal elements, \<open>max_by\<close> the last
  of several maximal ones. Both are \<open>None\<close> on an empty iterator.
\<close>

fun min_by_key :: "('a \<Rightarrow> 'k::linorder) \<Rightarrow> 'a list \<Rightarrow> 'a option" where
  "min_by_key f [] = None"
| "min_by_key f (x # xs) =
     (case min_by_key f xs of None \<Rightarrow> Some x | Some y \<Rightarrow> if f x \<le> f y then Some x else Some y)"

fun max_by_key :: "('a \<Rightarrow> 'k::linorder) \<Rightarrow> 'a list \<Rightarrow> 'a option" where
  "max_by_key f [] = None"
| "max_by_key f (x # xs) =
     (case max_by_key f xs of None \<Rightarrow> Some x | Some y \<Rightarrow> if f y < f x then Some x else Some y)"

lemma min_by_key_None [simp]: "min_by_key f xs = None \<longleftrightarrow> xs = []"
  by (cases xs) (auto split: option.splits if_splits)

lemma max_by_key_None [simp]: "max_by_key f xs = None \<longleftrightarrow> xs = []"
  by (cases xs) (auto split: option.splits if_splits)

lemma min_by_key_in: "min_by_key f xs = Some m \<Longrightarrow> m \<in> set xs"
  by (induction xs arbitrary: m) (auto split: option.splits if_splits)

lemma max_by_key_in: "max_by_key f xs = Some m \<Longrightarrow> m \<in> set xs"
  by (induction xs arbitrary: m) (auto split: option.splits if_splits)

lemma min_by_key_le: "min_by_key f xs = Some m \<Longrightarrow> x \<in> set xs \<Longrightarrow> f m \<le> f x"
  by (induction xs arbitrary: m) (fastforce split: option.splits if_splits)+

lemma max_by_key_ge: "max_by_key f xs = Some m \<Longrightarrow> x \<in> set xs \<Longrightarrow> f x \<le> f m"
  by (induction xs arbitrary: m) (fastforce split: option.splits if_splits)+

section \<open>ASCII strings\<close>

definition ascii_lower_char :: "char \<Rightarrow> char" where
  "ascii_lower_char c =
     (let n = (of_char c :: nat) in if 65 \<le> n \<and> n \<le> 90 then char_of (n + 32) else c)"

definition to_ascii_lowercase :: "string \<Rightarrow> string" where
  "to_ascii_lowercase s = map ascii_lower_char s"

definition is_ascii_whitespace :: "char \<Rightarrow> bool" where
  "is_ascii_whitespace c = (let n = (of_char c :: nat) in (9 \<le> n \<and> n \<le> 13) \<or> n = 32)"

text \<open>\<open>str::trim\<close>, restricted to the ASCII white space characters.\<close>

definition str_trim :: "string \<Rightarrow> string" where
  "str_trim s = rev (dropWhile is_ascii_whitespace (rev (dropWhile is_ascii_whitespace s)))"

section \<open>Hash maps\<close>

text \<open>
  A \<open>HashMap\<close> is read through its lookup, and iterated in an order the language leaves
  open. The interface promises the lookup after an insertion or a removal, and that an
  iteration yields every binding exactly once.
\<close>

locale hash_map =
  fixes lookup :: "'m \<Rightarrow> 'k \<Rightarrow> 'v option"
    and insert_kv :: "'k \<Rightarrow> 'v \<Rightarrow> 'm \<Rightarrow> 'm"
    and remove_k :: "'k \<Rightarrow> 'm \<Rightarrow> 'm"
    and bindings :: "'m \<Rightarrow> ('k \<times> 'v) list"
    and wf :: "'m \<Rightarrow> bool"
  assumes lookup_insert: "lookup (insert_kv k v m) = (lookup m)(k \<mapsto> v)"
    and lookup_remove: "lookup (remove_k k m) = (lookup m)(k := None)"
    and wf_insert: "wf m \<Longrightarrow> wf (insert_kv k v m)"
    and wf_remove: "wf m \<Longrightarrow> wf (remove_k k m)"
    and bindings_iff: "wf m \<Longrightarrow> (k, v) \<in> set (bindings m) \<longleftrightarrow> lookup m k = Some v"
    and bindings_distinct: "wf m \<Longrightarrow> distinct (map fst (bindings m))"
begin

lemma bindings_distinct_pairs: "wf m \<Longrightarrow> distinct (bindings m)"
  using bindings_distinct distinct_map by blast

lemma mset_bindings_insert_fresh:
  assumes "wf m" and "lookup m k = None"
  shows "mset (bindings (insert_kv k v m)) = add_mset (k, v) (mset (bindings m))"
proof -
  have "distinct (bindings (insert_kv k v m))" and "distinct ((k, v) # bindings m)"
    using assms by (auto simp: bindings_distinct_pairs wf_insert bindings_iff)
  moreover have "set (bindings (insert_kv k v m)) = set ((k, v) # bindings m)"
    using assms by (auto simp: bindings_iff wf_insert lookup_insert split: if_splits)
  ultimately have "mset (bindings (insert_kv k v m)) = mset ((k, v) # bindings m)"
    by (simp only: set_eq_iff_mset_eq_distinct)
  then show ?thesis by simp
qed

lemma mset_bindings_insert_replace:
  assumes "wf m" and "lookup m k = Some u"
  shows "add_mset (k, u) (mset (bindings (insert_kv k v m))) = add_mset (k, v) (mset (bindings m))"
proof -
  have in_m: "(k, u) \<in> set (bindings m)" using assms by (simp add: bindings_iff)
  define r where "r = remove1 (k, u) (bindings m)"
  have r: "mset (bindings m) = add_mset (k, u) (mset r)"
    using in_m by (simp add: r_def)
  have dm: "distinct (bindings m)" using assms(1) by (rule bindings_distinct_pairs)
  have set_r: "set r = set (bindings m) - {(k, u)}"
    using dm by (simp add: r_def set_remove1_eq)
  have "distinct (bindings (insert_kv k v m))"
    using assms(1) by (simp add: bindings_distinct_pairs wf_insert)
  moreover have "distinct ((k, v) # r)"
    using dm assms by (auto simp: r_def bindings_iff)
  moreover have "set (bindings (insert_kv k v m)) = set ((k, v) # r)"
    using assms by (auto simp: set_r bindings_iff wf_insert lookup_insert split: if_splits)
  ultimately have "mset (bindings (insert_kv k v m)) = mset ((k, v) # r)"
    by (simp only: set_eq_iff_mset_eq_distinct)
  with r show ?thesis by simp
qed

text \<open>Any sum over the bindings, in any iteration order, after an insertion.\<close>

lemma sum_insert_fresh:
  fixes g :: "'k \<times> 'v \<Rightarrow> 'n::comm_monoid_add"
  assumes "wf m" and "lookup m k = None"
  shows "sum_list (map g (bindings (insert_kv k v m))) = g (k, v) + sum_list (map g (bindings m))"
proof -
  have "sum_list (map g (bindings (insert_kv k v m)))
      = sum_mset (image_mset g (mset (bindings (insert_kv k v m))))"
    by (simp flip: sum_mset_sum_list)
  then show ?thesis
    by (simp add: mset_bindings_insert_fresh [OF assms] flip: sum_mset_sum_list)
qed

lemma sum_insert_replace:
  fixes g :: "'k \<times> 'v \<Rightarrow> 'n::comm_monoid_add"
  assumes "wf m" and "lookup m k = Some u"
  shows "g (k, u) + sum_list (map g (bindings (insert_kv k v m)))
       = g (k, v) + sum_list (map g (bindings m))"
proof -
  let ?s = "\<lambda>M. sum_mset (image_mset g M)"
  have "?s (add_mset (k, u) (mset (bindings (insert_kv k v m))))
      = ?s (add_mset (k, v) (mset (bindings m)))"
    by (simp only: mset_bindings_insert_replace [OF assms])
  then show ?thesis by (simp flip: sum_mset_sum_list)
qed

end

text \<open>
  The provider used by the model: an association list with distinct keys. Its order is
  the iteration order; theorems quantify over every such list, hence over every order.
\<close>

type_synonym ('k, 'v) hmap = "('k \<times> 'v) list"

definition hm_wf :: "('k, 'v) hmap \<Rightarrow> bool" where
  "hm_wf m \<longleftrightarrow> distinct (map fst m)"

definition hm_values :: "('k, 'v) hmap \<Rightarrow> 'v list" where
  "hm_values m = map snd m"

abbreviation hm_insert :: "'k \<Rightarrow> 'v \<Rightarrow> ('k, 'v) hmap \<Rightarrow> ('k, 'v) hmap" where
  "hm_insert \<equiv> AList.update"

abbreviation hm_remove :: "'k \<Rightarrow> ('k, 'v) hmap \<Rightarrow> ('k, 'v) hmap" where
  "hm_remove \<equiv> AList.delete"

text \<open>\<open>*m.entry(k).or_insert(d)\<close> updated in place by \<open>f\<close>.\<close>

definition hm_entry :: "'k \<Rightarrow> 'v \<Rightarrow> ('v \<Rightarrow> 'v) \<Rightarrow> ('k, 'v) hmap \<Rightarrow> ('k, 'v) hmap" where
  "hm_entry k d f m = hm_insert k (f (case map_of m k of None \<Rightarrow> d | Some v \<Rightarrow> v)) m"

lemma hm_wf_Nil [simp]: "hm_wf []"
  by (simp add: hm_wf_def)

lemma hm_lookup_insert [map_simps]: "map_of (hm_insert k v m) = (map_of m)(k \<mapsto> v)"
  by (rule update_conv')

lemma hm_lookup_remove [map_simps]: "map_of (hm_remove k m) = (map_of m)(k := None)"
  by (rule delete_conv')

lemma hm_wf_insert [simp, intro]: "hm_wf m \<Longrightarrow> hm_wf (hm_insert k v m)"
  unfolding hm_wf_def by (rule distinct_update)

lemma hm_wf_remove [simp, intro]: "hm_wf m \<Longrightarrow> hm_wf (hm_remove k m)"
  unfolding hm_wf_def by (rule distinct_delete)

lemma hm_wf_entry [simp, intro]: "hm_wf m \<Longrightarrow> hm_wf (hm_entry k d f m)"
  by (simp add: hm_entry_def)

lemma hm_lookup_entry [map_simps]:
  "map_of (hm_entry k d f m) = (map_of m)(k \<mapsto> f (case map_of m k of None \<Rightarrow> d | Some v \<Rightarrow> v))"
  by (simp add: hm_entry_def map_simps)

lemma hm_binding_iff: "hm_wf m \<Longrightarrow> (k, v) \<in> set m \<longleftrightarrow> map_of m k = Some v"
  by (simp add: hm_wf_def)

interpretation hm: hash_map map_of AList.update AList.delete "\<lambda>m. m" hm_wf
  by unfold_locales (auto simp: map_simps hm_binding_iff, simp add: hm_wf_def)

lemma length_insert_fresh:
  "hm_wf m \<Longrightarrow> map_of m k = None \<Longrightarrow> length (hm_insert k v m) = Suc (length m)"
  using hm.sum_insert_fresh [of m k "\<lambda>_. 1 :: nat" v] by (simp add: sum_list_triv)

lemma length_insert_replace:
  "hm_wf m \<Longrightarrow> map_of m k = Some u \<Longrightarrow> length (hm_insert k v m) = length m"
  using hm.sum_insert_replace [of m k u "\<lambda>_. 1 :: nat" v] by (simp add: sum_list_triv)

text \<open>A sum over the values of a map, in the form the accounting proofs use it.\<close>

definition hm_sum :: "('v \<Rightarrow> 'n::ab_group_add) \<Rightarrow> ('k, 'v) hmap \<Rightarrow> 'n" where
  "hm_sum f m = sum_list (map f (hm_values m))"

lemma hm_sum_Nil [simp]: "hm_sum f [] = 0"
  by (simp add: hm_sum_def hm_values_def)

lemma hm_sum_insert:
  assumes "hm_wf m"
  shows "hm_sum f (hm_insert k v m)
       = hm_sum f m + f v - (case map_of m k of None \<Rightarrow> 0 | Some u \<Rightarrow> f u)"
proof (cases "map_of m k")
  case None
  with hm.sum_insert_fresh [OF assms None, where g = "\<lambda>(_, x). f x" and v = v] show ?thesis
    by (simp add: hm_sum_def hm_values_def comp_def case_prod_unfold)
next
  case (Some u)
  with hm.sum_insert_replace [OF assms Some, where g = "\<lambda>(_, x). f x" and v = v] show ?thesis
    by (simp add: hm_sum_def hm_values_def comp_def case_prod_unfold algebra_simps)
qed

lemma hm_sum_insert_fresh:
  "hm_wf m \<Longrightarrow> map_of m k = None \<Longrightarrow> hm_sum f (hm_insert k v m) = hm_sum f m + f v"
  by (simp add: hm_sum_insert)

lemma hm_sum_insert_replace:
  "hm_wf m \<Longrightarrow> map_of m k = Some u \<Longrightarrow> hm_sum f (hm_insert k v m) = hm_sum f m + f v - f u"
  by (simp add: hm_sum_insert)

lemma hm_sum_indicator: "hm_sum (\<lambda>x. if P x then 1 else 0) m = int (length (filter P (hm_values m)))"
  by (induction m) (auto simp: hm_sum_def hm_values_def)

lemma hm_sum_filter: "hm_sum (\<lambda>x. if P x then f x else 0) m = sum_list (map f (filter P (hm_values m)))"
  by (induction m) (auto simp: hm_sum_def hm_values_def)

lemma hm_sum_one: "hm_sum (\<lambda>_. 1) m = int (length m)"
  by (induction m) (auto simp: hm_sum_def hm_values_def)

lemma hm_update_swap: "hm_insert k v (hm_insert k u m) = hm_insert k v m"
  by (induction m) auto

section \<open>Loops that may panic\<close>

text \<open>Evaluate a fallible body on every element in order; the first panic is the result.\<close>

fun collect_all :: "('a \<Rightarrow> 'b option) \<Rightarrow> 'a list \<Rightarrow> 'b list option" where
  "collect_all f [] = Some []"
| "collect_all f (x # xs) =
     (case f x of None \<Rightarrow> None
      | Some y \<Rightarrow> (case collect_all f xs of None \<Rightarrow> None | Some ys \<Rightarrow> Some (y # ys)))"

lemma collect_all_total:
  "(\<And>x. x \<in> set xs \<Longrightarrow> f x = Some (g x)) \<Longrightarrow> collect_all f xs = Some (map g xs)"
  by (induction xs) auto

lemma collect_all_mem:
  "collect_all f xs = Some ys \<Longrightarrow> y \<in> set ys \<longleftrightarrow> (\<exists>x\<in>set xs. f x = Some y)"
  by (induction xs arbitrary: ys) (auto split: option.splits)

fun fold_opt :: "('s \<Rightarrow> 'a \<Rightarrow> 's option) \<Rightarrow> 's \<Rightarrow> 'a list \<Rightarrow> 's option" where
  "fold_opt f s [] = Some s"
| "fold_opt f s (x # xs) = (case f s x of None \<Rightarrow> None | Some s' \<Rightarrow> fold_opt f s' xs)"

lemma fold_opt_Cons:
  assumes "fold_opt f s (x # xs) = Some s'"
  obtains s1 where "f s x = Some s1" and "fold_opt f s1 xs = Some s'"
  using assms by (auto split: option.splits)

lemma fold_opt_inv:
  assumes "fold_opt f s xs = Some s'" and "P s"
    and step: "\<And>s x s'. P s \<Longrightarrow> x \<in> set xs \<Longrightarrow> f s x = Some s' \<Longrightarrow> P s'"
  shows "P s'"
  using assms
proof (induction xs arbitrary: s)
  case (Cons x xs)
  obtain s1 where s1: "f s x = Some s1" "fold_opt f s1 xs = Some s'"
    using Cons.prems(1) by (rule fold_opt_Cons)
  have "P s1" by (rule Cons.prems(3) [OF Cons.prems(2) _ s1(1)]) simp
  with s1(2) show ?case by (rule Cons.IH) (rule Cons.prems(3), simp_all)
qed simp

lemma fold_opt_total:
  "P s \<Longrightarrow> (\<And>s x. P s \<Longrightarrow> x \<in> set xs \<Longrightarrow> \<exists>s'. f s x = Some s' \<and> P s') \<Longrightarrow>
   \<exists>s'. fold_opt f s xs = Some s' \<and> P s'"
proof (induction xs arbitrary: s)
  case (Cons x xs)
  then obtain s1 where "f s x = Some s1" "P s1" by (metis list.set_intros(1))
  with Cons show ?case by (auto intro: Cons.IH)
qed simp

section \<open>Lists\<close>

lemma length_filter_sum: "length (filter P xs) = sum_list (map (\<lambda>x. if P x then 1 else 0) xs)"
  by (induction xs) auto

lemma sum_list_filter_sum:
  fixes f :: "'a \<Rightarrow> 'n::comm_monoid_add"
  shows "sum_list (map f (filter P xs)) = sum_list (map (\<lambda>x. if P x then f x else 0) xs)"
  by (induction xs) auto

lemma sum_list_le_length_mult:
  fixes f :: "'a \<Rightarrow> real"
  assumes "\<And>x. x \<in> set xs \<Longrightarrow> f x \<le> m"
  shows "sum_list (map f xs) \<le> real (length xs) * m"
  using assms by (induction xs) (fastforce simp: algebra_simps)+

end
