(* ===== verification/Domain.thy ===== *)
theory Domain
  imports Prelude
begin

text \<open>
  The domain types of \<open>engine/types.rs\<close> and \<open>engine/qos.rs\<close>: requests, assignments,
  flavours, capacity tiers with their lookup, stable identifiers, and QoS profiles with
  their validation. The capacity-multiplier lookup exists several times in the source
  (\<open>types.rs\<close>, \<open>shared_state.rs\<close>, \<open>online_swarm.rs\<close>); the locale \<open>tier_lookup\<close>
  states what all of them promise, and each copy is shown to be an instance.
\<close>

section \<open>Flavours and capacity tiers\<close>

record flavour =
  fl_name :: string
  fl_error :: f64
  fl_duration :: f64

record capacity_tier =
  ct_max_requests :: "int option"
  ct_multiplier :: f64

fun tier_scan :: "capacity_tier list \<Rightarrow> int \<Rightarrow> f64 option" where
  "tier_scan [] pos = None"
| "tier_scan (tier # tiers) pos =
     (case ct_max_requests tier of
        None \<Rightarrow> Some (ct_multiplier tier)
      | Some mx \<Rightarrow> if pos \<le> mx then Some (ct_multiplier tier) else tier_scan tiers pos)"

definition get_capacity_multiplier :: "capacity_tier list \<Rightarrow> int \<Rightarrow> f64" where
  "get_capacity_multiplier tiers pos =
     (case tier_scan tiers pos of
        Some m \<Rightarrow> m
      | None \<Rightarrow> (if tiers = [] then 1 else ct_multiplier (last tiers)))"

text \<open>
  A well-formed ladder, as the administrative endpoint accepts it: finite bounds strictly
  increasing and positive, multipliers not decreasing and starting at 1, and exactly the
  last tier unbounded.
\<close>

fun ladder_from :: "int \<Rightarrow> f64 \<Rightarrow> capacity_tier list \<Rightarrow> bool" where
  "ladder_from prev m [] = False"
| "ladder_from prev m [t] = (ct_max_requests t = None \<and> m \<le> ct_multiplier t)"
| "ladder_from prev m (t # t' # ts) =
     (case ct_max_requests t of
        None \<Rightarrow> False
      | Some mx \<Rightarrow> prev < mx \<and> m \<le> ct_multiplier t \<and> ladder_from mx (ct_multiplier t) (t' # ts))"

definition valid_ladder :: "capacity_tier list \<Rightarrow> bool" where
  "valid_ladder ts \<longleftrightarrow> ladder_from 0 1 ts \<and> ct_multiplier (hd ts) = 1"

locale tier_lookup =
  fixes mult :: "capacity_tier list \<Rightarrow> int \<Rightarrow> f64"
  assumes mult_Nil: "mult [] c = 1"
    and mult_overflow: "ct_max_requests t = None \<Longrightarrow> mult (t # ts) c = ct_multiplier t"
    and mult_hit: "ct_max_requests t = Some mx \<Longrightarrow> c \<le> mx \<Longrightarrow> mult (t # ts) c = ct_multiplier t"
    and mult_miss: "ct_max_requests t = Some mx \<Longrightarrow> \<not> c \<le> mx \<Longrightarrow>
      mult (t # ts) c = (if ts = [] then ct_multiplier t else mult ts c)"
begin

lemma ladder_lower_bound: "ladder_from p m ts \<Longrightarrow> m \<le> mult ts c"
proof (induction p m ts rule: ladder_from.induct)
  case (1 prev m)
  then show ?case by simp
next
  case (2 prev m t)
  then show ?case by (simp add: mult_overflow)
next
  case (3 prev m t t' ts)
  then obtain mx where mx: "ct_max_requests t = Some mx" and le: "m \<le> ct_multiplier t"
    and rest: "ladder_from mx (ct_multiplier t) (t' # ts)"
    by (auto split: option.splits)
  have "ct_multiplier t \<le> mult (t' # ts) c" by (rule "3.IH" [OF mx rest])
  with mx le show ?case by (cases "c \<le> mx") (simp_all add: mult_hit mult_miss)
qed

lemma ladder_mono: "ladder_from p m ts \<Longrightarrow> c \<le> c' \<Longrightarrow> mult ts c \<le> mult ts c'"
proof (induction p m ts rule: ladder_from.induct)
  case (1 prev m)
  then show ?case by simp
next
  case (2 prev m t)
  then show ?case by (simp add: mult_overflow)
next
  case (3 prev m t t' ts)
  then obtain mx where mx: "ct_max_requests t = Some mx"
    and rest: "ladder_from mx (ct_multiplier t) (t' # ts)"
    by (auto split: option.splits)
  have low: "ct_multiplier t \<le> mult (t' # ts) c'" by (rule ladder_lower_bound [OF rest])
  have ih: "mult (t' # ts) c \<le> mult (t' # ts) c'" by (rule "3.IH" [OF mx rest "3.prems"(2)])
  from mx low ih "3.prems"(2) show ?case
    by (cases "c \<le> mx"; cases "c' \<le> mx") (simp_all add: mult_hit mult_miss)
qed

lemma valid_ladder_mono: "valid_ladder ts \<Longrightarrow> c \<le> c' \<Longrightarrow> mult ts c \<le> mult ts c'"
  unfolding valid_ladder_def using ladder_mono by blast

lemma valid_ladder_ge_1: "valid_ladder ts \<Longrightarrow> 1 \<le> mult ts c"
  unfolding valid_ladder_def using ladder_lower_bound by blast

text \<open>The laws determine the lookup: every provider computes the same function.\<close>

lemma unique:
  assumes "tier_lookup mult'"
  shows "mult ts c = mult' ts c"
proof (induction ts)
  case Nil
  show ?case by (simp add: mult_Nil tier_lookup.mult_Nil [OF assms])
next
  case (Cons t ts)
  show ?case
  proof (cases "ct_max_requests t")
    case None
    then show ?thesis by (simp add: mult_overflow tier_lookup.mult_overflow [OF assms])
  next
    case (Some mx)
    with Cons show ?thesis
      by (cases "c \<le> mx")
        (simp_all add: mult_hit mult_miss tier_lookup.mult_hit [OF assms]
          tier_lookup.mult_miss [OF assms])
  qed
qed

end

lemma tier_scan_None_iff: "tier_scan ts c = None \<longleftrightarrow> (\<forall>t\<in>set ts. \<exists>mx. ct_max_requests t = Some mx \<and> mx < c)"
  by (induction ts) (auto split: option.splits)

interpretation tiers: tier_lookup get_capacity_multiplier
  by unfold_locales
    (auto simp: get_capacity_multiplier_def split: option.splits)

section \<open>Stable identifiers\<close>

datatype qos_profile_id = QosProfileId (pid_str: string)
datatype task_kind_id = TaskKindId (tk_str: string)

datatype id_error = InvalidProfileId | InvalidTaskKind

text \<open>The derived order of the identifier is the bytewise order of its string.\<close>

instantiation qos_profile_id :: linorder
begin

definition less_eq_qos_profile_id :: "qos_profile_id \<Rightarrow> qos_profile_id \<Rightarrow> bool" where
  "less_eq_qos_profile_id a b \<longleftrightarrow> pid_str a \<le> pid_str b"

definition less_qos_profile_id :: "qos_profile_id \<Rightarrow> qos_profile_id \<Rightarrow> bool" where
  "less_qos_profile_id a b \<longleftrightarrow> pid_str a < pid_str b"

instance
  by standard
    (auto simp: less_eq_qos_profile_id_def less_qos_profile_id_def intro: qos_profile_id.expand)

end

definition is_ascii_lowercase :: "char \<Rightarrow> bool" where
  "is_ascii_lowercase c = (let n = (of_char c :: nat) in 97 \<le> n \<and> n \<le> 122)"

definition is_ascii_digit :: "char \<Rightarrow> bool" where
  "is_ascii_digit c = (let n = (of_char c :: nat) in 48 \<le> n \<and> n \<le> 57)"

definition is_valid_stable_identifier :: "string \<Rightarrow> bool" where
  "is_valid_stable_identifier value =
     (length value \<le> 64
      \<and> (case value of [] \<Rightarrow> False | byte # _ \<Rightarrow> is_ascii_lowercase byte \<or> is_ascii_digit byte)
      \<and> list_all (\<lambda>byte. is_ascii_lowercase byte \<or> is_ascii_digit byte
                    \<or> byte = CHR ''-'' \<or> byte = CHR ''_'' \<or> byte = CHR ''.'') value)"

definition profile_id_parse :: "string \<Rightarrow> id_error + qos_profile_id" where
  "profile_id_parse value =
     (if is_valid_stable_identifier value then Inr (QosProfileId value) else Inl InvalidProfileId)"

definition default_profile :: qos_profile_id where
  "default_profile = QosProfileId ''default-text-generation''"

definition task_kind_parse :: "string \<Rightarrow> id_error + task_kind_id" where
  "task_kind_parse value =
     (if is_valid_stable_identifier value then Inr (TaskKindId value) else Inl InvalidTaskKind)"

definition default_task_error_semantics :: "(string \<times> string) list" where
  "default_task_error_semantics =
     [(''text_generation'', ''relative-confidence-degradation-v1''),
      (''ner'', ''entity-set-f1-v1''),
      (''question_answering'', ''word-overlap-f1-v1'')]"

definition default_error_semantics :: "task_kind_id \<Rightarrow> string option" where
  "default_error_semantics tk = map_of default_task_error_semantics (tk_str tk)"

section \<open>QoS profiles\<close>

record error_window_policy =
  ew_past_slots :: int
  ew_future_slots :: int
  ew_past_decay_slots :: int

record cumulative_error_policy =
  ce_enabled :: bool
  ce_hard :: bool

record qos_profile =
  qp_profile_id :: qos_profile_id
  qp_task_kind :: task_kind_id
  qp_flavours :: "flavour list"
  qp_error_semantics :: string
  qp_max_error_threshold :: f64
  qp_error_window :: error_window_policy
  qp_cumulative_error :: cumulative_error_policy

datatype profile_error =
    FlavoursEmpty
  | FlavourNameEmpty
  | DuplicateFlavourName string
  | FlavourErrorOutOfRange string
  | FlavourDurationNotPositive string
  | ErrorSemanticsInvalid
  | ThresholdOutOfRange
  | WindowNegative

text \<open>The flavour loop of \<open>QosProfile::validate\<close>; \<open>seen\<close> is its hash set of names.\<close>

fun validate_flavours :: "string list \<Rightarrow> flavour list \<Rightarrow> profile_error option" where
  "validate_flavours seen [] = None"
| "validate_flavours seen (f # fs) =
     (if str_trim (fl_name f) = [] then Some FlavourNameEmpty
      else if to_ascii_lowercase (fl_name f) \<in> set seen
        then Some (DuplicateFlavourName (fl_name f))
      else if \<not> f64_is_finite (fl_error f) \<or> \<not> (0 \<le> fl_error f \<and> fl_error f \<le> 100)
        then Some (FlavourErrorOutOfRange (fl_name f))
      else if fl_duration f \<le> 0 then Some (FlavourDurationNotPositive (fl_name f))
      else validate_flavours (to_ascii_lowercase (fl_name f) # seen) fs)"

definition qos_profile_validate :: "qos_profile \<Rightarrow> profile_error + unit" where
  "qos_profile_validate p =
     (if qp_flavours p = [] then Inl FlavoursEmpty
      else case validate_flavours [] (qp_flavours p) of
        Some e \<Rightarrow> Inl e
      | None \<Rightarrow>
         (if \<not> is_valid_stable_identifier (qp_error_semantics p) then Inl ErrorSemanticsInvalid
          else if \<not> f64_is_finite (qp_max_error_threshold p)
               \<or> \<not> (0 \<le> qp_max_error_threshold p \<and> qp_max_error_threshold p \<le> 100)
            then Inl ThresholdOutOfRange
          else if ew_past_slots (qp_error_window p) < 0
               \<or> ew_future_slots (qp_error_window p) < 0
               \<or> ew_past_decay_slots (qp_error_window p) < 0
            then Inl WindowNegative
          else Inr ()))"

text \<open>What validation promises, stated without the loop.\<close>

definition flavour_wf :: "flavour \<Rightarrow> bool" where
  "flavour_wf f \<longleftrightarrow> str_trim (fl_name f) \<noteq> [] \<and> 0 \<le> fl_error f \<and> fl_error f \<le> 100
     \<and> 0 < fl_duration f"

definition profile_wf :: "qos_profile \<Rightarrow> bool" where
  "profile_wf p \<longleftrightarrow>
     qp_flavours p \<noteq> []
     \<and> distinct (map (\<lambda>f. to_ascii_lowercase (fl_name f)) (qp_flavours p))
     \<and> list_all flavour_wf (qp_flavours p)
     \<and> is_valid_stable_identifier (qp_error_semantics p)
     \<and> 0 \<le> qp_max_error_threshold p \<and> qp_max_error_threshold p \<le> 100
     \<and> 0 \<le> ew_past_slots (qp_error_window p)
     \<and> 0 \<le> ew_future_slots (qp_error_window p)
     \<and> 0 \<le> ew_past_decay_slots (qp_error_window p)"

lemma validate_flavours_None_iff:
  "validate_flavours seen fs = None \<longleftrightarrow>
     list_all flavour_wf fs
     \<and> distinct (map (\<lambda>f. to_ascii_lowercase (fl_name f)) fs)
     \<and> set (map (\<lambda>f. to_ascii_lowercase (fl_name f)) fs) \<inter> set seen = {}"
  by (induction seen fs rule: validate_flavours.induct)
    (auto simp: flavour_wf_def f64_is_finite_def not_le)

text \<open>
  \<open>QosProfile::validate\<close> accepts exactly the well-formed profiles: at least one
  flavour, names non-blank and distinct up to ASCII case, every flavour error within
  \<open>[0, 100]\<close> with a positive duration, a stable identifier as error semantics, a
  threshold within \<open>[0, 100]\<close>, and no negative window field.
\<close>

theorem qos_profile_validate_iff: "qos_profile_validate p = Inr () \<longleftrightarrow> profile_wf p"
  using validate_flavours_None_iff [of "[]" "qp_flavours p"]
  by (cases "validate_flavours [] (qp_flavours p)")
    (auto simp: qos_profile_validate_def profile_wf_def f64_is_finite_def not_less split: if_splits)

text \<open>
  Under an accepted capacity ladder the price multiplier never falls as a slot
  fills, and is at least the unmodified cost.
\<close>

theorem capacity_multiplier_mono:
  assumes "valid_ladder tiers" and "c \<le> c'"
  shows "1 \<le> get_capacity_multiplier tiers c
    \<and> get_capacity_multiplier tiers c \<le> get_capacity_multiplier tiers c'"
  using assms tiers.valid_ladder_mono tiers.valid_ladder_ge_1 by blast

lemma capacity_multiplier_mono_witness:
  "let tiers = [\<lparr>ct_max_requests = Some 2, ct_multiplier = 1\<rparr>, \<lparr>ct_max_requests = None, ct_multiplier = 3\<rparr>]
   in get_capacity_multiplier tiers 2 = 1 \<and> get_capacity_multiplier tiers 3 = 3
      \<and> get_capacity_multiplier tiers 2 \<le> get_capacity_multiplier tiers 3"
  using capacity_multiplier_mono [of "[\<lparr>ct_max_requests = Some 2, ct_multiplier = 1\<rparr>,
      \<lparr>ct_max_requests = None, ct_multiplier = 3\<rparr>]" 2 3]
  by (simp add: valid_ladder_def get_capacity_multiplier_def)

section \<open>Requests and assignments\<close>

record request =
  rq_id :: request_id
  rq_arrival_slot :: slot
  rq_deadline_slot :: slot
  rq_arrival_time :: f64
  rq_qos_profile :: "qos_profile option"
  rq_qos_profile_id :: qos_profile_id

text \<open>The wall clock \<open>unix_now()\<close> is the argument \<open>now\<close>.\<close>

definition request_new :: "f64 \<Rightarrow> request_id \<Rightarrow> slot \<Rightarrow> slot \<Rightarrow> request" where
  "request_new now i arrival deadline =
     \<lparr>rq_id = i, rq_arrival_slot = arrival, rq_deadline_slot = deadline,
      rq_arrival_time = now, rq_qos_profile = None, rq_qos_profile_id = default_profile\<rparr>"

definition request_new_for_qos_profile ::
    "f64 \<Rightarrow> request_id \<Rightarrow> slot \<Rightarrow> slot \<Rightarrow> qos_profile \<Rightarrow> request" where
  "request_new_for_qos_profile now i arrival deadline profile =
     \<lparr>rq_id = i, rq_arrival_slot = arrival, rq_deadline_slot = deadline,
      rq_arrival_time = now, rq_qos_profile = Some profile,
      rq_qos_profile_id = qp_profile_id profile\<rparr>"

record assignment =
  as_request_id :: request_id
  as_scheduled_slot :: slot
  as_flavour_name :: string
  as_carbon_cost :: f64
  as_error :: f64
  as_flavour_duration :: f64
  as_arrival_slot :: "slot option"
  as_deadline_slot :: "slot option"
  as_assignment_time :: f64
  as_qos_profile_id :: qos_profile_id

definition assignment_new_for_profile ::
    "f64 \<Rightarrow> request_id \<Rightarrow> slot \<Rightarrow> string \<Rightarrow> f64 \<Rightarrow> f64 \<Rightarrow> f64 \<Rightarrow> slot option \<Rightarrow> slot option
     \<Rightarrow> qos_profile_id \<Rightarrow> assignment" where
  "assignment_new_for_profile now i sl fl cost err dur arrival deadline pid =
     \<lparr>as_request_id = i, as_scheduled_slot = sl, as_flavour_name = fl, as_carbon_cost = cost,
      as_error = err, as_flavour_duration = dur, as_arrival_slot = arrival,
      as_deadline_slot = deadline, as_assignment_time = now, as_qos_profile_id = pid\<rparr>"

definition assignment_new ::
    "f64 \<Rightarrow> request_id \<Rightarrow> slot \<Rightarrow> string \<Rightarrow> f64 \<Rightarrow> f64 \<Rightarrow> f64 \<Rightarrow> slot option \<Rightarrow> slot option
     \<Rightarrow> assignment" where
  "assignment_new now i sl fl cost err dur arrival deadline =
     assignment_new_for_profile now i sl fl cost err dur arrival deadline default_profile"

record request_assignment =
  ra_request_id :: request_id
  ra_flavour_name :: string
  ra_slot :: slot
  ra_carbon_cost :: f64
  ra_error :: f64

end
