(* ===== verification/Config.thy ===== *)
theory Config
  imports Domain
begin

text \<open>
  The configuration of \<open>engine/config.rs\<close>: one record per concern with its defaults,
  the assignment policy projected from the configuration or from a QoS profile, and the
  scenario overrides. Paths and booleans are kept as they are declared.
\<close>

section \<open>Concern-specific records\<close>

record solver_config =
  sc_batch_size :: nat
  sc_solver_strategy :: string
  sc_dp_pruning_method :: string
  sc_dp_pruning_min_batch_size :: nat
  sc_dp_pruning_k :: nat
  sc_dp_timeout :: f64
  sc_dp_lock_future_assignments :: bool
  sc_rollback_max_consecutive :: nat
  sc_max_batch_solver_parallelism :: nat
  sc_queue_timeout :: f64
  sc_batch_timeout_secs :: f64

record simulation_config =
  sim_predicted_requests_per_slot :: f64
  sim_request_rate_std_factor :: f64
  sim_deadline_min_slack :: int
  sim_deadline_max_slack :: int
  sim_skip_empty_slots :: bool
  sim_slot_speed_scale :: f64
  sim_manual_clock :: bool
  sim_generator_realtime_chunk_size :: nat
  sim_total_requests :: nat

record infeasibility_config =
  inf_prehistory_use_virtual_past :: bool
  inf_prehistory_error_ratio_of_threshold :: f64
  inf_forecast_error_ratio_of_threshold :: f64
  inf_prehistory_stochastic_counts :: bool
  inf_prehistory_random_seed :: nat
  inf_prehistory_mock_influence :: f64
  inf_recovery_mode :: string
  inf_mock_influence :: f64
  inf_mock_error_per_request :: "f64 option"
  inf_mock_influence_decay_step :: f64

record swarm_config =
  sw_mode :: string
  sw_bandit_epsilon :: f64
  sw_bandit_initial_q :: f64
  sw_bandit_seed :: nat
  sw_aco_n_ants :: nat
  sw_aco_n_iterations :: nat
  sw_aco_alpha :: f64
  sw_aco_beta :: f64
  sw_aco_rho :: f64
  sw_aco_q :: f64
  sw_aco_tau0 :: f64
  sw_aco_seed :: nat

record logging_config =
  lg_verbose :: bool
  lg_enable_progress_display :: bool
  lg_enable_solver_logging :: bool
  lg_solver_runs_file :: string
  lg_solver_assignments_file :: string
  lg_solver_slot_metrics_file :: string
  lg_enable_infeasibility_debug_logging :: bool
  lg_solver_infeasible_debug_file :: string

record config =
  cfg_solver :: solver_config
  cfg_simulation :: simulation_config
  cfg_infeasibility :: infeasibility_config
  cfg_swarm :: swarm_config
  cfg_logging :: logging_config
  cfg_slot_duration_seconds :: f64
  cfg_total_slots :: int
  cfg_slot_epoch_offset :: int
  cfg_flavours :: "flavour list"
  cfg_carbon_cost_duration_scale :: f64
  cfg_max_error_threshold :: f64
  cfg_error_window_past :: int
  cfg_error_window_future :: int
  cfg_error_window_past_decay_slots :: int
  cfg_assignment_max_future_slots :: int
  cfg_global_error_constraint_enabled :: bool
  cfg_global_error_constraint_hard :: bool
  cfg_capacity_tiers :: "capacity_tier list"

text \<open>The borrowed view that the solvers receive.\<close>

record assignment_policy =
  pol_flavours :: "flavour list"
  pol_capacity_tiers :: "capacity_tier list"
  pol_total_slots :: int
  pol_carbon_cost_duration_scale :: f64
  pol_max_error_threshold :: f64
  pol_error_window_past :: int
  pol_error_window_future :: int
  pol_error_window_past_decay_slots :: int
  pol_assignment_max_future_slots :: int
  pol_global_error_constraint_enabled :: bool
  pol_global_error_constraint_hard :: bool

section \<open>Defaults\<close>

definition solver_config_default :: solver_config where
  "solver_config_default =
     \<lparr>sc_batch_size = 4, sc_solver_strategy = ''dp'', sc_dp_pruning_method = ''beam'',
      sc_dp_pruning_min_batch_size = 8, sc_dp_pruning_k = 1200, sc_dp_timeout = 30,
      sc_dp_lock_future_assignments = True, sc_rollback_max_consecutive = 0,
      sc_max_batch_solver_parallelism = 12, sc_queue_timeout = 1, sc_batch_timeout_secs = 0\<rparr>"

definition simulation_config_default :: simulation_config where
  "simulation_config_default =
     \<lparr>sim_predicted_requests_per_slot = 60, sim_request_rate_std_factor = 1 / 2,
      sim_deadline_min_slack = 0, sim_deadline_max_slack = 14, sim_skip_empty_slots = True,
      sim_slot_speed_scale = 1, sim_manual_clock = False,
      sim_generator_realtime_chunk_size = 10, sim_total_requests = 0\<rparr>"

definition infeasibility_config_default :: infeasibility_config where
  "infeasibility_config_default =
     \<lparr>inf_prehistory_use_virtual_past = False, inf_prehistory_error_ratio_of_threshold = 1,
      inf_forecast_error_ratio_of_threshold = 1, inf_prehistory_stochastic_counts = True,
      inf_prehistory_random_seed = 4242, inf_prehistory_mock_influence = 4 / 10,
      inf_recovery_mode = ''carryover'', inf_mock_influence = 8 / 10,
      inf_mock_error_per_request = None, inf_mock_influence_decay_step = 15 / 100\<rparr>"

definition swarm_config_default :: swarm_config where
  "swarm_config_default =
     \<lparr>sw_mode = ''serialized'', sw_bandit_epsilon = 15 / 100, sw_bandit_initial_q = 10,
      sw_bandit_seed = 42, sw_aco_n_ants = 10, sw_aco_n_iterations = 3, sw_aco_alpha = 1,
      sw_aco_beta = 2, sw_aco_rho = 3 / 10, sw_aco_q = 1, sw_aco_tau0 = 1, sw_aco_seed = 42\<rparr>"

definition logging_config_default :: logging_config where
  "logging_config_default =
     \<lparr>lg_verbose = True, lg_enable_progress_display = True, lg_enable_solver_logging = True,
      lg_solver_runs_file = ''/tmp/online2_solver_runs.csv'',
      lg_solver_assignments_file = ''/tmp/online2_solver_assignments.csv'',
      lg_solver_slot_metrics_file = ''/tmp/online2_solver_slot_metrics.csv'',
      lg_enable_infeasibility_debug_logging = True,
      lg_solver_infeasible_debug_file = ''/tmp/online2_solver_infeasible_debug.csv''\<rparr>"

definition config_default :: config where
  "config_default =
     \<lparr>cfg_solver = solver_config_default, cfg_simulation = simulation_config_default,
      cfg_infeasibility = infeasibility_config_default, cfg_swarm = swarm_config_default,
      cfg_logging = logging_config_default, cfg_slot_duration_seconds = 10,
      cfg_total_slots = 24, cfg_slot_epoch_offset = 0,
      cfg_flavours =
        [\<lparr>fl_name = ''Accurate'', fl_error = 0, fl_duration = 60\<rparr>,
         \<lparr>fl_name = ''Balanced'', fl_error = 25 / 10, fl_duration = 30\<rparr>,
         \<lparr>fl_name = ''Fast'', fl_error = 5, fl_duration = 10\<rparr>],
      cfg_carbon_cost_duration_scale = 1 / 3600, cfg_max_error_threshold = 4,
      cfg_error_window_past = 12, cfg_error_window_future = 14,
      cfg_error_window_past_decay_slots = 12, cfg_assignment_max_future_slots = 14,
      cfg_global_error_constraint_enabled = True, cfg_global_error_constraint_hard = True,
      cfg_capacity_tiers =
        [\<lparr>ct_max_requests = Some 30, ct_multiplier = 1\<rparr>,
         \<lparr>ct_max_requests = Some 50, ct_multiplier = 15 / 10\<rparr>,
         \<lparr>ct_max_requests = Some 80, ct_multiplier = 2\<rparr>,
         \<lparr>ct_max_requests = None, ct_multiplier = 5\<rparr>]\<rparr>"

section \<open>Projections\<close>

definition assignment_policy_for_profile :: "config \<Rightarrow> qos_profile \<Rightarrow> assignment_policy" where
  "assignment_policy_for_profile cfg profile =
     \<lparr>pol_flavours = qp_flavours profile,
      pol_capacity_tiers = cfg_capacity_tiers cfg,
      pol_total_slots = cfg_total_slots cfg,
      pol_carbon_cost_duration_scale = cfg_carbon_cost_duration_scale cfg,
      pol_max_error_threshold = qp_max_error_threshold profile,
      pol_error_window_past = ew_past_slots (qp_error_window profile),
      pol_error_window_future = ew_future_slots (qp_error_window profile),
      pol_error_window_past_decay_slots = ew_past_decay_slots (qp_error_window profile),
      pol_assignment_max_future_slots = cfg_assignment_max_future_slots cfg,
      pol_global_error_constraint_enabled = ce_enabled (qp_cumulative_error profile),
      pol_global_error_constraint_hard = ce_hard (qp_cumulative_error profile)\<rparr>"

definition assignment_policy_of :: "config \<Rightarrow> assignment_policy" where
  "assignment_policy_of cfg =
     \<lparr>pol_flavours = cfg_flavours cfg,
      pol_capacity_tiers = cfg_capacity_tiers cfg,
      pol_total_slots = cfg_total_slots cfg,
      pol_carbon_cost_duration_scale = cfg_carbon_cost_duration_scale cfg,
      pol_max_error_threshold = cfg_max_error_threshold cfg,
      pol_error_window_past = cfg_error_window_past cfg,
      pol_error_window_future = cfg_error_window_future cfg,
      pol_error_window_past_decay_slots = cfg_error_window_past_decay_slots cfg,
      pol_assignment_max_future_slots = cfg_assignment_max_future_slots cfg,
      pol_global_error_constraint_enabled = cfg_global_error_constraint_enabled cfg,
      pol_global_error_constraint_hard = cfg_global_error_constraint_hard cfg\<rparr>"

definition error_window_size :: "config \<Rightarrow> int" where
  "error_window_size cfg = i32_add (i32_add (cfg_error_window_past cfg) 1) (cfg_error_window_future cfg)"

definition requests_per_slot :: "config \<Rightarrow> f64" where
  "requests_per_slot cfg = sim_predicted_requests_per_slot (cfg_simulation cfg)"

definition effective_slot_duration_secs :: "config \<Rightarrow> f64" where
  "effective_slot_duration_secs cfg =
     max (cfg_slot_duration_seconds cfg * sim_slot_speed_scale (cfg_simulation cfg)) (1 / 1000)"

section \<open>Scenario metadata\<close>

record scenario_metadata =
  sm_total_slots :: int
  sm_slot_duration_seconds :: f64
  sm_requests_per_slot :: f64
  sm_request_rate_std_factor :: f64
  sm_deadline_min_slack :: int
  sm_deadline_max_slack :: int
  sm_max_error_threshold :: f64
  sm_error_window_past :: int
  sm_error_window_future :: int
  sm_error_window_past_decay_slots :: int
  sm_prehistory_enabled :: bool
  sm_prehistory_error_ratio :: f64
  sm_prehistory_mock_influence :: f64
  sm_carbon_intensity_cycle_slots :: int
  sm_carbon_random_noise_amplitude :: f64
  sm_seed :: nat
  sm_capacity_tiers :: "capacity_tier list option"

definition apply_scenario_metadata :: "scenario_metadata \<Rightarrow> config \<Rightarrow> config" where
  "apply_scenario_metadata meta cfg =
     cfg\<lparr>cfg_total_slots := sm_total_slots meta,
         cfg_slot_duration_seconds := sm_slot_duration_seconds meta,
         cfg_simulation := (cfg_simulation cfg)
           \<lparr>sim_predicted_requests_per_slot := sm_requests_per_slot meta,
            sim_request_rate_std_factor := sm_request_rate_std_factor meta,
            sim_deadline_min_slack := sm_deadline_min_slack meta,
            sim_deadline_max_slack := sm_deadline_max_slack meta\<rparr>,
         cfg_max_error_threshold := sm_max_error_threshold meta,
         cfg_error_window_past := sm_error_window_past meta,
         cfg_error_window_future := sm_error_window_future meta,
         cfg_error_window_past_decay_slots := sm_error_window_past_decay_slots meta,
         cfg_infeasibility := (cfg_infeasibility cfg)
           \<lparr>inf_prehistory_use_virtual_past := sm_prehistory_enabled meta,
            inf_prehistory_error_ratio_of_threshold := sm_prehistory_error_ratio meta,
            inf_forecast_error_ratio_of_threshold := sm_prehistory_error_ratio meta,
            inf_prehistory_mock_influence := sm_prehistory_mock_influence meta,
            inf_prehistory_random_seed := sm_seed meta\<rparr>,
         cfg_capacity_tiers := (case sm_capacity_tiers meta of
             Some tiers \<Rightarrow> tiers | None \<Rightarrow> cfg_capacity_tiers cfg)\<rparr>"

section \<open>Facts about the defaults\<close>

lemma default_tiers_valid: "valid_ladder (cfg_capacity_tiers config_default)"
  by (simp add: config_default_def valid_ladder_def)

lemma default_flavours_wf: "list_all flavour_wf (cfg_flavours config_default)"
  by (simp add: config_default_def flavour_wf_def str_trim_def is_ascii_whitespace_def Let_def)

lemma effective_slot_duration_pos: "0 < effective_slot_duration_secs cfg"
  by (simp add: effective_slot_duration_secs_def)

end
