(* ===== verification/Shared_State.thy ===== *)
theory Shared_State
  imports Config
begin

text \<open>
  The scheduler's shared state (\<open>engine/shared_state.rs\<close>): the lock-guarded \<open>Inner\<close> with
  the pending queue, the assignment map and the error totals, the solver snapshot, and
  the public handle with its atomics. A method that only works under the mutex is a
  function on \<open>inner\<close>; since it runs in one critical section it is one atomic step,
  and \<open>with_inner\<close> lifts it to the handle. The lemmas establish the accounting
  invariant \<open>inner_inv\<close> for every operation, account for the error sums along every
  history (\<open>ledger_ok\<close>: the live errors, and what each re-plan changed), and show what the
  optimistic commit check promises about capacity tiers.
\<close>

section \<open>Result structures\<close>

record window_error_stats =
  ws_error_sum :: f64
  ws_count :: nat
  ws_average :: f64

record global_error_stats =
  gs_error_sum :: f64
  gs_count :: nat
  gs_avg :: f64

record slot_error_stats =
  sl_count :: nat
  sl_average :: f64

record statistics =
  st_total_received :: nat
  st_total_scheduled :: nat
  st_pending :: nat
  st_current_slot :: slot

record rollback_stats =
  rb_total_rollbacks :: nat
  rb_max_consecutive_rollbacks :: nat
  rb_requests_assigned_with_rollback :: nat

datatype commit_outcome = Committed | RolledBack

text \<open>Committed state as the online swarm solvers see it (\<open>online_swarm.rs\<close>).\<close>

record swarm_context =
  swc_slot_count :: "(slot, int) hmap"
  swc_slot_errors :: "(slot, f64 list) hmap"
  swc_global_error_sum :: f64
  swc_global_count :: nat

definition global_error_stats_default :: global_error_stats where
  "global_error_stats_default = \<lparr>gs_error_sum = 0, gs_count = 0, gs_avg = 0\<rparr>"

section \<open>The capacity lookup of this file\<close>

fun count_scan :: "int \<Rightarrow> capacity_tier list \<Rightarrow> f64 option" where
  "count_scan count' [] = None"
| "count_scan count' (tier # tiers) =
     (case ct_max_requests tier of
        None \<Rightarrow> Some (ct_multiplier tier)
      | Some mx \<Rightarrow> if count' \<le> mx then Some (ct_multiplier tier) else count_scan count' tiers)"

definition capacity_multiplier_for_count :: "int \<Rightarrow> capacity_tier list \<Rightarrow> f64" where
  "capacity_multiplier_for_count count' tiers =
     (case count_scan count' tiers of
        Some m \<Rightarrow> m
      | None \<Rightarrow> (if tiers = [] then 1 else ct_multiplier (last tiers)))"

interpretation count_tiers: tier_lookup "\<lambda>tiers c. capacity_multiplier_for_count c tiers"
  by unfold_locales (auto simp: capacity_multiplier_for_count_def split: option.splits)

section \<open>The solver snapshot\<close>

record solver_snapshot =
  sn_assignments :: "(request_id, assignment) hmap"
  sn_global_error_sum :: f64
  sn_global_assignment_count :: nat
  sn_profile_error_stats :: "(qos_profile_id, global_error_stats) hmap"

definition window_stats_of :: "(assignment \<Rightarrow> bool) \<Rightarrow> assignment list \<Rightarrow> window_error_stats" where
  "window_stats_of P as =
     (let sel = filter P as; s = sum_list (map as_error sel); n = length sel
      in \<lparr>ws_error_sum = s, ws_count = n, ws_average = avg_or_zero s n\<rparr>)"

definition in_window :: "slot \<Rightarrow> int \<Rightarrow> int \<Rightarrow> slot \<Rightarrow> bool" where
  "in_window center past future t \<longleftrightarrow> i32_sub center past \<le> t \<and> t \<le> i32_add center future"

definition snap_get_future_assignments :: "solver_snapshot \<Rightarrow> slot \<Rightarrow> assignment list" where
  "snap_get_future_assignments sn current =
     filter (\<lambda>a. current \<le> as_scheduled_slot a) (hm_values (sn_assignments sn))"

definition snap_get_window_error_stats ::
    "solver_snapshot \<Rightarrow> slot \<Rightarrow> int \<Rightarrow> int \<Rightarrow> request_id set \<Rightarrow> window_error_stats" where
  "snap_get_window_error_stats sn center past future exclude =
     window_stats_of
       (\<lambda>a. as_request_id a \<notin> exclude \<and> in_window center past future (as_scheduled_slot a))
       (hm_values (sn_assignments sn))"

definition snap_get_requests_in_slot :: "solver_snapshot \<Rightarrow> slot \<Rightarrow> assignment list" where
  "snap_get_requests_in_slot sn s =
     filter (\<lambda>a. as_scheduled_slot a = s) (hm_values (sn_assignments sn))"

definition snap_get_global_error_stats :: "solver_snapshot \<Rightarrow> global_error_stats" where
  "snap_get_global_error_stats sn =
     \<lparr>gs_error_sum = sn_global_error_sum sn, gs_count = sn_global_assignment_count sn,
      gs_avg = avg_or_zero (sn_global_error_sum sn) (sn_global_assignment_count sn)\<rparr>"

definition snap_get_profile_error_stats ::
    "solver_snapshot \<Rightarrow> qos_profile_id \<Rightarrow> global_error_stats" where
  "snap_get_profile_error_stats sn pid =
     (case map_of (sn_profile_error_stats sn) pid of
        Some st \<Rightarrow> st | None \<Rightarrow> \<lparr>gs_error_sum = 0, gs_count = 0, gs_avg = 0\<rparr>)"

definition snap_get_profile_window_error_stats ::
    "solver_snapshot \<Rightarrow> qos_profile_id \<Rightarrow> slot \<Rightarrow> int \<Rightarrow> int \<Rightarrow> request_id set
     \<Rightarrow> window_error_stats" where
  "snap_get_profile_window_error_stats sn pid center past future exclude =
     window_stats_of
       (\<lambda>a. as_qos_profile_id a = pid \<and> as_request_id a \<notin> exclude
            \<and> in_window center past future (as_scheduled_slot a))
       (hm_values (sn_assignments sn))"

definition snap_get_profile_requests_in_slot ::
    "solver_snapshot \<Rightarrow> qos_profile_id \<Rightarrow> slot \<Rightarrow> assignment list" where
  "snap_get_profile_requests_in_slot sn pid s =
     filter (\<lambda>a. as_qos_profile_id a = pid \<and> as_scheduled_slot a = s)
       (hm_values (sn_assignments sn))"

section \<open>The lock-guarded state\<close>

record inner =
  in_pending :: "request list"
  in_assignments :: "(request_id, assignment) hmap"
  in_current_slot :: slot
  in_total_received :: nat
  in_total_scheduled :: nat
  in_global_error_sum :: f64
  in_global_assignment_count :: nat
  in_profile_error_stats :: "(qos_profile_id, global_error_stats) hmap"
  in_total_rollbacks :: nat
  in_max_consecutive_rollbacks_seen :: nat
  in_rolled_back_request_ids :: "request_id set"

definition inner_new :: inner where
  "inner_new =
     \<lparr>in_pending = [], in_assignments = [], in_current_slot = 0, in_total_received = 0,
      in_total_scheduled = 0, in_global_error_sum = 0, in_global_assignment_count = 0,
      in_profile_error_stats = [], in_total_rollbacks = 0,
      in_max_consecutive_rollbacks_seen = 0, in_rolled_back_request_ids = {}\<rparr>"

definition stats_add :: "f64 \<Rightarrow> global_error_stats \<Rightarrow> global_error_stats" where
  "stats_add err st = st\<lparr>gs_error_sum := gs_error_sum st + err, gs_count := gs_count st + 1\<rparr>"

definition stats_refresh_avg :: "global_error_stats \<Rightarrow> global_error_stats" where
  "stats_refresh_avg st = st\<lparr>gs_avg := avg_or_zero (gs_error_sum st) (gs_count st)\<rparr>"

text \<open>
  \<open>Inner::record_assignment\<close>. \<open>None\<close> is the panic of its \<open>expect\<close>; \<open>record_assignment_total\<close>
  shows that it cannot be reached.
\<close>

definition record_new :: "inner \<Rightarrow> assignment \<Rightarrow> inner" where
  "record_new st a =
     st\<lparr>in_total_scheduled := in_total_scheduled st + 1,
        in_global_error_sum := in_global_error_sum st + as_error a,
        in_global_assignment_count := in_global_assignment_count st + 1,
        in_profile_error_stats :=
          hm_entry (as_qos_profile_id a) global_error_stats_default (stats_add (as_error a))
            (in_profile_error_stats st)\<rparr>"

definition record_assignment :: "inner \<Rightarrow> assignment \<Rightarrow> inner option" where
  "record_assignment st a =
     (let (st', a') = (case map_of (in_assignments st) (as_request_id a) of
            Some previous \<Rightarrow> (st, a\<lparr>as_qos_profile_id := as_qos_profile_id previous\<rparr>)
          | None \<Rightarrow> (record_new st a, a))
      in case map_of (in_profile_error_stats st') (as_qos_profile_id a') of
        None \<Rightarrow> None
      | Some stats \<Rightarrow>
          Some (st'\<lparr>in_profile_error_stats :=
                      hm_insert (as_qos_profile_id a') (stats_refresh_avg stats)
                        (in_profile_error_stats st'),
                    in_assignments :=
                      hm_insert (as_request_id a') a' (in_assignments st')\<rparr>))"

fun record_all :: "inner \<Rightarrow> assignment list \<Rightarrow> inner option" where
  "record_all st [] = Some st"
| "record_all st (a # as) =
     (case record_assignment st a of None \<Rightarrow> None | Some st' \<Rightarrow> record_all st' as)"

section \<open>The public handle\<close>

record shared_state =
  ss_inner :: inner
  ss_capacity_tiers :: "capacity_tier list option"
  ss_capacity_tier_revision :: nat
  ss_virtual_elapsed_ms :: nat
  ss_generator_processed_slot :: slot
  ss_flush_requested_slot :: slot

definition shared_state_new :: shared_state where
  "shared_state_new =
     \<lparr>ss_inner = inner_new, ss_capacity_tiers = None, ss_capacity_tier_revision = 0,
      ss_virtual_elapsed_ms = 0, ss_generator_processed_slot = -1,
      ss_flush_requested_slot = -1\<rparr>"

definition with_inner :: "(inner \<Rightarrow> inner) \<Rightarrow> shared_state \<Rightarrow> shared_state" where
  "with_inner f s = s\<lparr>ss_inner := f (ss_inner s)\<rparr>"

definition initialize_capacity_tiers :: "capacity_tier list \<Rightarrow> shared_state \<Rightarrow> shared_state" where
  "initialize_capacity_tiers tiers s =
     (if ss_capacity_tiers s = None then s\<lparr>ss_capacity_tiers := Some tiers\<rparr> else s)"

definition replace_capacity_tiers :: "capacity_tier list \<Rightarrow> shared_state \<Rightarrow> shared_state" where
  "replace_capacity_tiers tiers s =
     s\<lparr>ss_capacity_tiers := Some tiers,
       ss_capacity_tier_revision := ss_capacity_tier_revision s + 1\<rparr>"

definition capacity_tiers_snapshot :: "shared_state \<Rightarrow> capacity_tier list" where
  "capacity_tiers_snapshot s = (case ss_capacity_tiers s of Some ts \<Rightarrow> ts | None \<Rightarrow> [])"

definition capacity_tier_revision :: "shared_state \<Rightarrow> nat" where
  "capacity_tier_revision s = ss_capacity_tier_revision s"

definition set_virtual_elapsed_ms :: "nat \<Rightarrow> shared_state \<Rightarrow> shared_state" where
  "set_virtual_elapsed_ms ms s = s\<lparr>ss_virtual_elapsed_ms := ms\<rparr>"

definition virtual_elapsed_secs :: "shared_state \<Rightarrow> f64" where
  "virtual_elapsed_secs s = real (ss_virtual_elapsed_ms s) / 1000"

definition set_generator_processed_slot :: "slot \<Rightarrow> shared_state \<Rightarrow> shared_state" where
  "set_generator_processed_slot sl s = s\<lparr>ss_generator_processed_slot := sl\<rparr>"

definition generator_processed_slot :: "shared_state \<Rightarrow> slot" where
  "generator_processed_slot s = ss_generator_processed_slot s"

definition request_pending_flush :: "slot \<Rightarrow> shared_state \<Rightarrow> shared_state" where
  "request_pending_flush sl s = s\<lparr>ss_flush_requested_slot := sl\<rparr>"

definition pending_flush_requested :: "slot \<Rightarrow> shared_state \<Rightarrow> bool" where
  "pending_flush_requested sl s \<longleftrightarrow> ss_flush_requested_slot s = sl"

definition clear_pending_flush :: "slot \<Rightarrow> shared_state \<Rightarrow> shared_state" where
  "clear_pending_flush sl s =
     (if ss_flush_requested_slot s = sl then s\<lparr>ss_flush_requested_slot := -1\<rparr> else s)"

section \<open>The request queue\<close>

definition add_request :: "request \<Rightarrow> inner \<Rightarrow> inner" where
  "add_request r st =
     st\<lparr>in_pending := in_pending st @ [r], in_total_received := in_total_received st + 1\<rparr>"

definition add_requests :: "request list \<Rightarrow> inner \<Rightarrow> inner" where
  "add_requests rs st =
     st\<lparr>in_total_received := in_total_received st + length rs, in_pending := in_pending st @ rs\<rparr>"

definition claim_pending_requests :: "nat \<Rightarrow> inner \<Rightarrow> request list \<times> inner" where
  "claim_pending_requests n st =
     (let m = min n (length (in_pending st))
      in (take m (in_pending st), st\<lparr>in_pending := drop m (in_pending st)\<rparr>))"

fun count_profiles :: "request list \<Rightarrow> (qos_profile_id, nat) hmap \<Rightarrow> (qos_profile_id, nat) hmap" where
  "count_profiles [] counts = counts"
| "count_profiles (r # rs) counts =
     count_profiles rs (hm_entry (rq_qos_profile_id r) 0 (\<lambda>n. n + 1) counts)"

definition pending_profile_counts :: "inner \<Rightarrow> (qos_profile_id \<times> nat) list" where
  "pending_profile_counts st = sort_key fst (count_profiles (in_pending st) [])"

text \<open>The loop over the drained queue; \<open>claimed\<close> and \<open>remaining\<close> are its two vectors.\<close>

fun claim_loop ::
    "qos_profile_id \<Rightarrow> nat \<Rightarrow> request list \<Rightarrow> request list \<Rightarrow> request list
     \<Rightarrow> request list \<times> request list" where
  "claim_loop pid n claimed remaining [] = (claimed, remaining)"
| "claim_loop pid n claimed remaining (r # rs) =
     (if rq_qos_profile_id r = pid \<and> length claimed < n
      then claim_loop pid n (claimed @ [r]) remaining rs
      else claim_loop pid n claimed (remaining @ [r]) rs)"

definition claim_pending_requests_for_profile ::
    "qos_profile_id \<Rightarrow> nat \<Rightarrow> inner \<Rightarrow> request list \<times> inner" where
  "claim_pending_requests_for_profile pid n st =
     (let (claimed, remaining) = claim_loop pid n [] [] (in_pending st)
      in (claimed, st\<lparr>in_pending := remaining\<rparr>))"

definition requeue_pending_requests_front :: "request list \<Rightarrow> inner \<Rightarrow> inner" where
  "requeue_pending_requests_front rs st =
     (if rs = [] then st else st\<lparr>in_pending := rs @ in_pending st\<rparr>)"

definition get_pending_count :: "inner \<Rightarrow> nat" where
  "get_pending_count st = length (in_pending st)"

definition get_oldest_pending_age_ms :: "nat \<Rightarrow> inner \<Rightarrow> nat option" where
  "get_oldest_pending_age_ms virtual_ms st =
     (case in_pending st of
        [] \<Rightarrow> None
      | r # _ \<Rightarrow> Some (virtual_ms - f64_as_u64 (rq_arrival_time r * 1000)))"

definition drain_pending_requests :: "inner \<Rightarrow> request list \<times> inner" where
  "drain_pending_requests st = (in_pending st, st\<lparr>in_pending := []\<rparr>)"

section \<open>Assignments and snapshots\<close>

definition add_assignments :: "assignment list \<Rightarrow> inner \<Rightarrow> inner option" where
  "add_assignments as st = record_all st as"

definition get_current_assignments :: "inner \<Rightarrow> (request_id, assignment) hmap" where
  "get_current_assignments st = in_assignments st"

definition snapshot_for_solver :: "inner \<Rightarrow> solver_snapshot" where
  "snapshot_for_solver st =
     \<lparr>sn_assignments = in_assignments st, sn_global_error_sum = in_global_error_sum st,
      sn_global_assignment_count = in_global_assignment_count st,
      sn_profile_error_stats = in_profile_error_stats st\<rparr>"

fun swarm_scan ::
    "qos_profile_id option \<Rightarrow> assignment list \<Rightarrow> (slot, int) hmap \<Rightarrow> (slot, f64 list) hmap
     \<Rightarrow> (slot, int) hmap \<times> (slot, f64 list) hmap" where
  "swarm_scan pid [] cnt errs = (cnt, errs)"
| "swarm_scan pid (a # as) cnt errs =
     swarm_scan pid as
       (hm_entry (as_scheduled_slot a) 0 (\<lambda>n. n + 1) cnt)
       (if (case pid of None \<Rightarrow> True | Some p \<Rightarrow> as_qos_profile_id a = p)
        then hm_entry (as_scheduled_slot a) [] (\<lambda>es. es @ [as_error a]) errs else errs)"

definition swarm_context_snapshot_for_profile :: "qos_profile_id option \<Rightarrow> inner \<Rightarrow> swarm_context" where
  "swarm_context_snapshot_for_profile pid st =
     (let (cnt, errs) = swarm_scan pid (hm_values (in_assignments st)) [] [];
          (gsum, gcount) = (case pid of
              Some p \<Rightarrow> (case map_of (in_profile_error_stats st) p of
                  Some stats \<Rightarrow> (gs_error_sum stats, gs_count stats) | None \<Rightarrow> (0, 0))
            | None \<Rightarrow> (in_global_error_sum st, in_global_assignment_count st))
      in \<lparr>swc_slot_count = cnt, swc_slot_errors = errs, swc_global_error_sum = gsum,
          swc_global_count = gcount\<rparr>)"

definition swarm_context_snapshot :: "inner \<Rightarrow> swarm_context" where
  "swarm_context_snapshot st = swarm_context_snapshot_for_profile None st"

definition get_future_assignments :: "slot \<Rightarrow> inner \<Rightarrow> assignment list" where
  "get_future_assignments current st =
     filter (\<lambda>a. current \<le> as_scheduled_slot a) (hm_values (in_assignments st))"

section \<open>Error statistics\<close>

definition get_window_error_stats ::
    "slot \<Rightarrow> int \<Rightarrow> int \<Rightarrow> request_id set \<Rightarrow> inner \<Rightarrow> window_error_stats" where
  "get_window_error_stats center past future exclude st =
     window_stats_of
       (\<lambda>a. as_request_id a \<notin> exclude \<and> in_window center past future (as_scheduled_slot a))
       (hm_values (in_assignments st))"

definition get_profile_window_error_stats ::
    "qos_profile_id \<Rightarrow> slot \<Rightarrow> int \<Rightarrow> int \<Rightarrow> request_id set \<Rightarrow> inner \<Rightarrow> window_error_stats" where
  "get_profile_window_error_stats pid center past future exclude st =
     snap_get_profile_window_error_stats (snapshot_for_solver st) pid center past future exclude"

definition slot_stats_of :: "(assignment \<Rightarrow> bool) \<Rightarrow> inner \<Rightarrow> slot_error_stats" where
  "slot_stats_of P st =
     (let sel = filter P (hm_values (in_assignments st))
      in \<lparr>sl_count = length sel,
          sl_average = avg_or_zero (sum_list (map as_error sel)) (length sel)\<rparr>)"

definition get_profile_slot_error_stats :: "qos_profile_id \<Rightarrow> slot \<Rightarrow> inner \<Rightarrow> slot_error_stats" where
  "get_profile_slot_error_stats pid s st =
     slot_stats_of (\<lambda>a. as_qos_profile_id a = pid \<and> as_scheduled_slot a = s) st"

definition get_slot_error_stats :: "slot \<Rightarrow> inner \<Rightarrow> slot_error_stats" where
  "get_slot_error_stats s st = slot_stats_of (\<lambda>a. as_scheduled_slot a = s) st"

definition get_global_error_stats :: "inner \<Rightarrow> global_error_stats" where
  "get_global_error_stats st =
     \<lparr>gs_error_sum = in_global_error_sum st, gs_count = in_global_assignment_count st,
      gs_avg = avg_or_zero (in_global_error_sum st) (in_global_assignment_count st)\<rparr>"

definition get_profile_error_stats :: "qos_profile_id \<Rightarrow> inner \<Rightarrow> global_error_stats" where
  "get_profile_error_stats pid st =
     (case map_of (in_profile_error_stats st) pid of
        Some stats \<Rightarrow> stats | None \<Rightarrow> \<lparr>gs_error_sum = 0, gs_count = 0, gs_avg = 0\<rparr>)"

definition correct_assignment_error :: "request_id \<Rightarrow> f64 \<Rightarrow> inner \<Rightarrow> inner" where
  "correct_assignment_error i actual st =
     (case map_of (in_assignments st) i of
        None \<Rightarrow> st
      | Some a \<Rightarrow>
         (let delta = actual - as_error a;
              st' = st\<lparr>in_assignments := hm_insert i (a\<lparr>as_error := actual\<rparr>) (in_assignments st),
                       in_global_error_sum := in_global_error_sum st + delta\<rparr>
          in case map_of (in_profile_error_stats st') (as_qos_profile_id a) of
            None \<Rightarrow> st'
          | Some stats \<Rightarrow>
              st'\<lparr>in_profile_error_stats :=
                    hm_insert (as_qos_profile_id a)
                      (stats_refresh_avg (stats\<lparr>gs_error_sum := gs_error_sum stats + delta\<rparr>))
                      (in_profile_error_stats st')\<rparr>))"

definition get_error_for_assignment :: "request_id \<Rightarrow> inner \<Rightarrow> f64 option" where
  "get_error_for_assignment i st = map_option as_error (map_of (in_assignments st) i)"

definition correct_assignment_carbon_cost :: "request_id \<Rightarrow> f64 \<Rightarrow> inner \<Rightarrow> f64 option \<times> inner" where
  "correct_assignment_carbon_cost i actual st =
     (case map_of (in_assignments st) i of
        None \<Rightarrow> (None, st)
      | Some a \<Rightarrow>
          (Some actual,
           st\<lparr>in_assignments := hm_insert i (a\<lparr>as_carbon_cost := actual\<rparr>) (in_assignments st)\<rparr>))"

section \<open>Slots, statistics, rollback\<close>

definition set_current_slot :: "slot \<Rightarrow> inner \<Rightarrow> inner" where
  "set_current_slot s st = st\<lparr>in_current_slot := s\<rparr>"

definition get_current_slot :: "inner \<Rightarrow> slot" where
  "get_current_slot st = in_current_slot st"

definition get_statistics :: "inner \<Rightarrow> statistics" where
  "get_statistics st =
     \<lparr>st_total_received = in_total_received st, st_total_scheduled = in_total_scheduled st,
      st_pending = length (in_pending st), st_current_slot = in_current_slot st\<rparr>"

definition get_requests_in_slot :: "slot \<Rightarrow> inner \<Rightarrow> assignment list" where
  "get_requests_in_slot s st =
     filter (\<lambda>a. as_scheduled_slot a = s) (hm_values (in_assignments st))"

definition count_in_slot :: "slot \<Rightarrow> assignment list \<Rightarrow> int" where
  "count_in_slot s as = int (length (filter (\<lambda>a. as_scheduled_slot a = s) as))"

text \<open>Whether the commit would land slot \<open>s\<close> in a dearer tier than the solver expected.\<close>

definition slot_breaches ::
    "inner \<Rightarrow> assignment list \<Rightarrow> capacity_tier list \<Rightarrow> slot \<times> int \<Rightarrow> bool" where
  "slot_breaches st as tiers = (\<lambda>(s, expected).
     (let actual_after = count_in_slot s (hm_values (in_assignments st)) + count_in_slot s as
      in expected < actual_after
         \<and> capacity_multiplier_for_count expected tiers
           < capacity_multiplier_for_count actual_after tiers))"

definition note_rollback :: "nat \<Rightarrow> inner \<Rightarrow> inner" where
  "note_rollback consecutive_before st =
     st\<lparr>in_total_rollbacks := in_total_rollbacks st + 1,
        in_max_consecutive_rollbacks_seen :=
          (let consec = consecutive_before + 1
           in if in_max_consecutive_rollbacks_seen st < consec then consec
              else in_max_consecutive_rollbacks_seen st)\<rparr>"

text \<open>The loop over \<open>expected_per_slot\<close> returns at the first slot that breaches.\<close>

fun breach_loop ::
    "inner \<Rightarrow> assignment list \<Rightarrow> capacity_tier list \<Rightarrow> (slot \<times> int) list \<Rightarrow> bool" where
  "breach_loop st as tiers [] = False"
| "breach_loop st as tiers (e # es) =
     (if slot_breaches st as tiers e then True else breach_loop st as tiers es)"

definition try_add_assignments_checked ::
    "assignment list \<Rightarrow> (slot, int) hmap \<Rightarrow> capacity_tier list \<Rightarrow> bool \<Rightarrow> nat \<Rightarrow> inner
     \<Rightarrow> (commit_outcome \<times> inner) option" where
  "try_add_assignments_checked as expected_per_slot tiers force_commit consecutive_before st =
     (if \<not> force_commit \<and> breach_loop st as tiers expected_per_slot
      then Some (RolledBack, note_rollback consecutive_before st)
      else map_option (\<lambda>st'. (Committed, st')) (record_all st as))"

definition mark_requests_rolled_back :: "request_id list \<Rightarrow> inner \<Rightarrow> inner" where
  "mark_requests_rolled_back is st =
     (if is = [] then st
      else st\<lparr>in_rolled_back_request_ids := in_rolled_back_request_ids st \<union> set is\<rparr>)"

definition get_rollback_stats :: "inner \<Rightarrow> rollback_stats" where
  "get_rollback_stats st =
     \<lparr>rb_total_rollbacks = in_total_rollbacks st,
      rb_max_consecutive_rollbacks = in_max_consecutive_rollbacks_seen st,
      rb_requests_assigned_with_rollback = card (in_rolled_back_request_ids st)\<rparr>"

definition get_rolled_back_request_ids :: "inner \<Rightarrow> request_id set" where
  "get_rolled_back_request_ids st = in_rolled_back_request_ids st"

section \<open>The accounting invariant\<close>

definition profile_count :: "inner \<Rightarrow> qos_profile_id \<Rightarrow> int" where
  "profile_count st pid =
     hm_sum (\<lambda>a. if as_qos_profile_id a = pid then 1 else 0) (in_assignments st)"

definition live_profile_error :: "inner \<Rightarrow> qos_profile_id \<Rightarrow> f64" where
  "live_profile_error st pid =
     hm_sum (\<lambda>a. if as_qos_profile_id a = pid then as_error a else 0) (in_assignments st)"

definition stats_ok :: "inner \<Rightarrow> bool" where
  "stats_ok st \<longleftrightarrow> (\<forall>pid. case map_of (in_profile_error_stats st) pid of
      None \<Rightarrow> profile_count st pid = 0
    | Some g \<Rightarrow> int (gs_count g) = profile_count st pid
        \<and> gs_avg g = avg_or_zero (gs_error_sum g) (gs_count g))"

definition inner_inv :: "inner \<Rightarrow> bool" where
  "inner_inv st \<longleftrightarrow>
     hm_wf (in_assignments st) \<and> hm_wf (in_profile_error_stats st)
     \<and> (\<forall>i a. map_of (in_assignments st) i = Some a \<longrightarrow> as_request_id a = i)
     \<and> in_total_scheduled st = length (in_assignments st)
     \<and> in_global_assignment_count st = length (in_assignments st)
     \<and> in_global_error_sum st = hm_sum gs_error_sum (in_profile_error_stats st)
     \<and> stats_ok st"

text \<open>The totals equal the errors of the live assignments, globally and per profile.\<close>

definition errors_exact :: "inner \<Rightarrow> bool" where
  "errors_exact st \<longleftrightarrow>
     in_global_error_sum st = hm_sum as_error (in_assignments st)
     \<and> (\<forall>pid. gs_error_sum (get_profile_error_stats pid st) = live_profile_error st pid)"

lemma inner_inv_new [simp]: "inner_inv inner_new"
  by (simp add: inner_inv_def inner_new_def stats_ok_def profile_count_def)

lemma errors_exact_new [simp]: "errors_exact inner_new"
  by (simp add: errors_exact_def inner_new_def live_profile_error_def get_profile_error_stats_def)

lemma profile_count_nonneg: "0 \<le> profile_count st pid"
  by (simp add: profile_count_def hm_sum_indicator)

lemma profile_count_pos:
  assumes "map_of (in_assignments st) i = Some a"
  shows "0 < profile_count st (as_qos_profile_id a)"
proof -
  have "a \<in> set (hm_values (in_assignments st))"
    using map_of_SomeD [OF assms] by (force simp: hm_values_def)
  then have "filter (\<lambda>b. as_qos_profile_id b = as_qos_profile_id a) (hm_values (in_assignments st)) \<noteq> []"
    by (auto simp: filter_empty_conv)
  then show ?thesis by (simp add: profile_count_def hm_sum_indicator)
qed

text \<open>\<open>record_assignment\<close> on its two branches, without the lookup that could panic.\<close>

definition profile_stats_or_default :: "inner \<Rightarrow> qos_profile_id \<Rightarrow> global_error_stats" where
  "profile_stats_or_default st pid =
     (case map_of (in_profile_error_stats st) pid of
        None \<Rightarrow> global_error_stats_default | Some g \<Rightarrow> g)"

lemma record_assignment_fresh:
  assumes "map_of (in_assignments st) (as_request_id a) = None"
  shows "record_assignment st a =
    Some (st\<lparr>in_total_scheduled := in_total_scheduled st + 1,
             in_global_error_sum := in_global_error_sum st + as_error a,
             in_global_assignment_count := in_global_assignment_count st + 1,
             in_profile_error_stats :=
               hm_insert (as_qos_profile_id a)
                 (stats_refresh_avg (stats_add (as_error a)
                    (profile_stats_or_default st (as_qos_profile_id a))))
                 (in_profile_error_stats st),
             in_assignments := hm_insert (as_request_id a) a (in_assignments st)\<rparr>)"
  using assms
  by (simp add: record_assignment_def record_new_def hm_entry_def map_simps hm_update_swap
      profile_stats_or_default_def)

lemma record_assignment_replan:
  assumes "map_of (in_assignments st) (as_request_id a) = Some previous"
    and "map_of (in_profile_error_stats st) (as_qos_profile_id previous) = Some g"
  shows "record_assignment st a =
    Some (st\<lparr>in_profile_error_stats :=
               hm_insert (as_qos_profile_id previous) (stats_refresh_avg g)
                 (in_profile_error_stats st),
             in_assignments := hm_insert (as_request_id a)
               (a\<lparr>as_qos_profile_id := as_qos_profile_id previous\<rparr>) (in_assignments st)\<rparr>)"
  using assms by (simp add: record_assignment_def)

lemma stats_okD_None:
  "stats_ok st \<Longrightarrow> map_of (in_profile_error_stats st) pid = None \<Longrightarrow> profile_count st pid = 0"
  unfolding stats_ok_def by (drule spec [of _ pid]) simp

lemma stats_okD_Some:
  "stats_ok st \<Longrightarrow> map_of (in_profile_error_stats st) pid = Some g \<Longrightarrow>
     int (gs_count g) = profile_count st pid \<and> gs_avg g = avg_or_zero (gs_error_sum g) (gs_count g)"
  unfolding stats_ok_def by (drule spec [of _ pid]) simp

lemma profile_stats_exist:
  assumes "inner_inv st" and "map_of (in_assignments st) i = Some a"
  obtains g where "map_of (in_profile_error_stats st) (as_qos_profile_id a) = Some g"
proof (cases "map_of (in_profile_error_stats st) (as_qos_profile_id a)")
  case None
  then have "profile_count st (as_qos_profile_id a) = 0"
    using assms(1) stats_okD_None by (simp add: inner_inv_def)
  with profile_count_pos [OF assms(2)] show ?thesis by simp
qed (use that in blast)

lemma stats_refresh_avg_sel [simp]:
  "gs_error_sum (stats_refresh_avg g) = gs_error_sum g"
  "gs_count (stats_refresh_avg g) = gs_count g"
  "gs_avg (stats_refresh_avg g) = avg_or_zero (gs_error_sum g) (gs_count g)"
  by (simp_all add: stats_refresh_avg_def)

lemma stats_add_sel [simp]:
  "gs_error_sum (stats_add e g) = gs_error_sum g + e"
  "gs_count (stats_add e g) = gs_count g + 1"
  by (simp_all add: stats_add_def)

lemma stats_default_sel [simp]:
  "gs_error_sum global_error_stats_default = 0" "gs_count global_error_stats_default = 0"
  "gs_avg global_error_stats_default = 0"
  by (simp_all add: global_error_stats_default_def)

lemma record_assignment_step:
  assumes "inner_inv st"
  obtains st' where "record_assignment st a = Some st'" and "inner_inv st'"
proof (cases "map_of (in_assignments st) (as_request_id a)")
  case None
  let ?p = "as_qos_profile_id a"
  define st' where "st' = st\<lparr>in_total_scheduled := in_total_scheduled st + 1,
             in_global_error_sum := in_global_error_sum st + as_error a,
             in_global_assignment_count := in_global_assignment_count st + 1,
             in_profile_error_stats :=
               hm_insert ?p (stats_refresh_avg (stats_add (as_error a) (profile_stats_or_default st ?p)))
                 (in_profile_error_stats st),
             in_assignments := hm_insert (as_request_id a) a (in_assignments st)\<rparr>"
  have rec: "record_assignment st a = Some st'"
    unfolding st'_def by (rule record_assignment_fresh [OF None])
  have inv: "hm_wf (in_assignments st)" "hm_wf (in_profile_error_stats st)" "stats_ok st"
    using assms by (simp_all add: inner_inv_def)
  have cnt: "profile_count st' q = profile_count st q + (if q = ?p then 1 else 0)" for q
    using inv None by (auto simp: profile_count_def st'_def hm_sum_insert_fresh)
  have "stats_ok st'"
    unfolding stats_ok_def
  proof
    fix q
    show "case map_of (in_profile_error_stats st') q of None \<Rightarrow> profile_count st' q = 0
      | Some g \<Rightarrow> int (gs_count g) = profile_count st' q \<and> gs_avg g = avg_or_zero (gs_error_sum g) (gs_count g)"
      using stats_okD_None [OF inv(3), of q] stats_okD_Some [OF inv(3), of q]
      by (auto simp: cnt map_simps st'_def [THEN arg_cong, of in_profile_error_stats]
          profile_stats_or_default_def split: option.splits)
  qed
  moreover have "in_global_error_sum st' = hm_sum gs_error_sum (in_profile_error_stats st')"
    using assms inv
    by (auto simp: st'_def inner_inv_def hm_sum_insert profile_stats_or_default_def split: option.splits)
  ultimately have "inner_inv st'"
    using assms None by (auto simp: inner_inv_def st'_def map_simps length_insert_fresh)
  with rec that show ?thesis by blast
next
  case (Some prev)
  obtain g where g: "map_of (in_profile_error_stats st) (as_qos_profile_id prev) = Some g"
    using profile_stats_exist [OF assms Some] .
  define st' where "st' = st\<lparr>in_profile_error_stats :=
               hm_insert (as_qos_profile_id prev) (stats_refresh_avg g) (in_profile_error_stats st),
             in_assignments := hm_insert (as_request_id a)
               (a\<lparr>as_qos_profile_id := as_qos_profile_id prev\<rparr>) (in_assignments st)\<rparr>"
  have rec: "record_assignment st a = Some st'"
    unfolding st'_def by (rule record_assignment_replan [OF Some g])
  have inv: "hm_wf (in_assignments st)" "hm_wf (in_profile_error_stats st)" "stats_ok st"
    using assms by (simp_all add: inner_inv_def)
  have cnt: "profile_count st' q = profile_count st q" for q
    using inv Some by (simp add: profile_count_def st'_def hm_sum_insert_replace)
  have "stats_ok st'"
    unfolding stats_ok_def
  proof
    fix q
    show "case map_of (in_profile_error_stats st') q of None \<Rightarrow> profile_count st' q = 0
      | Some g \<Rightarrow> int (gs_count g) = profile_count st' q \<and> gs_avg g = avg_or_zero (gs_error_sum g) (gs_count g)"
      using stats_okD_None [OF inv(3), of q] stats_okD_Some [OF inv(3), of q] stats_okD_Some [OF inv(3) g]
      by (auto simp: cnt map_simps st'_def [THEN arg_cong, of in_profile_error_stats] split: option.splits)
  qed
  moreover have "in_global_error_sum st' = hm_sum gs_error_sum (in_profile_error_stats st')"
    using assms inv g by (simp add: st'_def inner_inv_def hm_sum_insert_replace)
  ultimately have "inner_inv st'"
    using assms Some by (auto simp: inner_inv_def st'_def map_simps length_insert_replace)
  with rec that show ?thesis by blast
qed

lemma record_all_step:
  assumes "inner_inv st"
  obtains st' where "record_all st as = Some st'" and "inner_inv st'"
  using assms
proof (induction as arbitrary: st thesis)
  case Nil
  then show ?case by simp
next
  case (Cons a as)
  obtain st1 where "record_assignment st a = Some st1" "inner_inv st1"
    using record_assignment_step [OF Cons.prems(2)] .
  with Cons.IH [of st1] Cons.prems(1) show ?case by auto
qed

lemma record_all_inv: "inner_inv st \<Longrightarrow> record_all st as = Some st' \<Longrightarrow> inner_inv st'"
  using record_all_step [of st as] by fastforce

section \<open>The invariant under the remaining operations\<close>

lemma stats_ok_cong:
  assumes "in_profile_error_stats st' = in_profile_error_stats st"
    and "\<And>q. profile_count st' q = profile_count st q"
  shows "stats_ok st' \<longleftrightarrow> stats_ok st"
  using assms by (simp add: stats_ok_def cong: option.case_cong)

lemma inner_inv_cong:
  assumes "in_assignments st' = in_assignments st"
    and "in_profile_error_stats st' = in_profile_error_stats st"
    and "in_total_scheduled st' = in_total_scheduled st"
    and "in_global_error_sum st' = in_global_error_sum st"
    and "in_global_assignment_count st' = in_global_assignment_count st"
  shows "inner_inv st' \<longleftrightarrow> inner_inv st"
proof -
  have "stats_ok st' \<longleftrightarrow> stats_ok st"
    using assms by (intro stats_ok_cong) (simp_all add: profile_count_def)
  with assms show ?thesis by (simp add: inner_inv_def)
qed

lemma errors_exact_cong:
  assumes "in_assignments st' = in_assignments st"
    and "in_profile_error_stats st' = in_profile_error_stats st"
    and "in_global_error_sum st' = in_global_error_sum st"
  shows "errors_exact st' \<longleftrightarrow> errors_exact st"
  using assms by (simp add: errors_exact_def live_profile_error_def get_profile_error_stats_def)

lemma inner_inv_queue_ops [simp]:
  "inner_inv (add_request r st) = inner_inv st"
  "inner_inv (add_requests rs st) = inner_inv st"
  "inner_inv (snd (claim_pending_requests n st)) = inner_inv st"
  "inner_inv (snd (claim_pending_requests_for_profile pid n st)) = inner_inv st"
  "inner_inv (requeue_pending_requests_front rs st) = inner_inv st"
  "inner_inv (snd (drain_pending_requests st)) = inner_inv st"
  "inner_inv (set_current_slot s st) = inner_inv st"
  "inner_inv (note_rollback n st) = inner_inv st"
  "inner_inv (mark_requests_rolled_back is st) = inner_inv st"
  by (rule inner_inv_cong;
      simp add: add_request_def add_requests_def claim_pending_requests_def Let_def
        claim_pending_requests_for_profile_def requeue_pending_requests_front_def
        drain_pending_requests_def set_current_slot_def note_rollback_def
        mark_requests_rolled_back_def split: prod.split)+

lemma correct_assignment_error_inv:
  assumes inv: "inner_inv st"
  shows "inner_inv (correct_assignment_error i actual st)"
proof (cases "map_of (in_assignments st) i")
  case None
  with inv show ?thesis by (simp add: correct_assignment_error_def)
next
  case (Some a)
  obtain g where g: "map_of (in_profile_error_stats st) (as_qos_profile_id a) = Some g"
    using profile_stats_exist [OF inv Some] .
  let ?d = "actual - as_error a"
  let ?g = "stats_refresh_avg (g\<lparr>gs_error_sum := gs_error_sum g + ?d\<rparr>)"
  define st' where "st' = st\<lparr>in_assignments := hm_insert i (a\<lparr>as_error := actual\<rparr>) (in_assignments st),
      in_global_error_sum := in_global_error_sum st + ?d,
      in_profile_error_stats := hm_insert (as_qos_profile_id a) ?g (in_profile_error_stats st)\<rparr>"
  have eq: "correct_assignment_error i actual st = st'"
    using Some g by (simp add: correct_assignment_error_def Let_def st'_def)
  have wf: "hm_wf (in_assignments st)" "hm_wf (in_profile_error_stats st)" "stats_ok st"
    using inv by (simp_all add: inner_inv_def)
  have cnt: "profile_count st' q = profile_count st q" for q
    using wf Some by (simp add: profile_count_def st'_def hm_sum_insert_replace)
  have "stats_ok st'"
    unfolding stats_ok_def
  proof
    fix q
    show "case map_of (in_profile_error_stats st') q of None \<Rightarrow> profile_count st' q = 0
      | Some g \<Rightarrow> int (gs_count g) = profile_count st' q \<and> gs_avg g = avg_or_zero (gs_error_sum g) (gs_count g)"
      using stats_okD_None [OF wf(3), of q] stats_okD_Some [OF wf(3), of q] stats_okD_Some [OF wf(3) g]
      by (auto simp: cnt map_simps st'_def [THEN arg_cong, of in_profile_error_stats] split: option.splits)
  qed
  moreover have "in_global_error_sum st' = hm_sum gs_error_sum (in_profile_error_stats st')"
    using inv wf g by (simp add: st'_def inner_inv_def hm_sum_insert_replace)
  ultimately show ?thesis
    using inv Some by (auto simp: eq inner_inv_def st'_def map_simps length_insert_replace)
qed

lemma correct_assignment_carbon_cost_inv:
  assumes "inner_inv st"
  shows "inner_inv (snd (correct_assignment_carbon_cost i c st))"
proof (cases "map_of (in_assignments st) i")
  case None
  with assms show ?thesis by (simp add: correct_assignment_carbon_cost_def)
next
  case (Some a)
  have wf: "hm_wf (in_assignments st)" using assms by (simp add: inner_inv_def)
  have "stats_ok (st\<lparr>in_assignments := hm_insert i (a\<lparr>as_carbon_cost := c\<rparr>) (in_assignments st)\<rparr>)
      \<longleftrightarrow> stats_ok st"
    using Some wf by (intro stats_ok_cong) (simp_all add: profile_count_def hm_sum_insert_replace)
  with assms Some show ?thesis
    by (auto simp: correct_assignment_carbon_cost_def inner_inv_def map_simps
        length_insert_replace)
qed

text \<open>
  The totals are accounted for along the history of the run. A ledger lists every
  re-plan of the run in order, with the assignment it replaced and the one it
  recorded: \<open>record_assignment\<close> leaves the error sums alone there, so a ledger entry is
  exactly a difference that the sums carry from then on.
\<close>

type_synonym ledger = "(assignment \<times> assignment) list"

fun replans_of :: "inner \<Rightarrow> assignment list \<Rightarrow> ledger" where
  "replans_of st [] = []"
| "replans_of st (a # as) =
     (case map_of (in_assignments st) (as_request_id a) of None \<Rightarrow> [] | Some previous \<Rightarrow> [(previous, a)])
     @ (case record_assignment st a of None \<Rightarrow> [] | Some st' \<Rightarrow> replans_of st' as)"

definition ledger_gap :: "(assignment \<Rightarrow> bool) \<Rightarrow> ledger \<Rightarrow> f64" where
  "ledger_gap P h = sum_list (map (\<lambda>(previous, a). as_error previous - as_error a)
     (filter (\<lambda>(previous, a). P previous) h))"

text \<open>The sums that the ledger explains.\<close>

definition ledger_ok :: "inner \<Rightarrow> ledger \<Rightarrow> bool" where
  "ledger_ok st h \<longleftrightarrow>
     in_global_error_sum st = hm_sum as_error (in_assignments st) + ledger_gap (\<lambda>_. True) h
     \<and> (\<forall>pid. gs_error_sum (get_profile_error_stats pid st)
          = live_profile_error st pid + ledger_gap (\<lambda>a. as_qos_profile_id a = pid) h)"

lemma ledger_gap_append [simp]: "ledger_gap P (h @ h') = ledger_gap P h + ledger_gap P h'"
  by (simp add: ledger_gap_def)

lemma ledger_gap_simps [simp]:
  "ledger_gap P [] = 0"
  "ledger_gap P [(p, a)] = (if P p then as_error p - as_error a else 0)"
  by (simp_all add: ledger_gap_def)

lemma ledger_ok_cong:
  assumes "in_assignments st' = in_assignments st"
    and "in_profile_error_stats st' = in_profile_error_stats st"
    and "in_global_error_sum st' = in_global_error_sum st"
  shows "ledger_ok st' h \<longleftrightarrow> ledger_ok st h"
  using assms by (simp add: ledger_ok_def live_profile_error_def get_profile_error_stats_def)

lemma correct_assignment_error_ledger:
  assumes inv: "inner_inv st" and ok: "ledger_ok st h"
  shows "ledger_ok (correct_assignment_error i actual st) h"
proof (cases "map_of (in_assignments st) i")
  case None
  with ok show ?thesis by (simp add: correct_assignment_error_def)
next
  case (Some a)
  obtain g where g: "map_of (in_profile_error_stats st) (as_qos_profile_id a) = Some g"
    using profile_stats_exist [OF inv Some] .
  have wf: "hm_wf (in_assignments st)" using inv by (simp add: inner_inv_def)
  define st' where "st' = correct_assignment_error i actual st"
  have "gs_error_sum (get_profile_error_stats q st')
      = gs_error_sum (get_profile_error_stats q st)
        + (if as_qos_profile_id a = q then actual - as_error a else 0)" for q
    using Some g by (auto simp: st'_def correct_assignment_error_def Let_def
        get_profile_error_stats_def map_simps split: option.splits)
  moreover have "live_profile_error st' q
      = live_profile_error st q + (if as_qos_profile_id a = q then actual - as_error a else 0)" for q
    using Some g wf by (auto simp: st'_def correct_assignment_error_def Let_def live_profile_error_def
        hm_sum_insert_replace)
  moreover have "in_global_error_sum st' - hm_sum as_error (in_assignments st')
      = in_global_error_sum st - hm_sum as_error (in_assignments st)"
    using Some g wf by (auto simp: st'_def correct_assignment_error_def Let_def
        hm_sum_insert_replace)
  ultimately show ?thesis
    using ok by (simp add: ledger_ok_def flip: st'_def)
qed

lemma correct_assignment_carbon_cost_ledger:
  assumes "inner_inv st" and "ledger_ok st h"
  shows "ledger_ok (snd (correct_assignment_carbon_cost i c st)) h"
proof (cases "map_of (in_assignments st) i")
  case None
  with assms show ?thesis by (simp add: correct_assignment_carbon_cost_def)
next
  case (Some a)
  have "hm_wf (in_assignments st)" using assms(1) by (simp add: inner_inv_def)
  with assms Some show ?thesis
    by (auto simp: correct_assignment_carbon_cost_def ledger_ok_def live_profile_error_def
        get_profile_error_stats_def hm_sum_insert_replace)
qed

lemma record_assignment_ledger:
  assumes inv: "inner_inv st" and ok: "ledger_ok st h" and rec: "record_assignment st a = Some st'"
  shows "ledger_ok st' (h @ replans_of st [a])"
proof (cases "map_of (in_assignments st) (as_request_id a)")
  case None
  have wf: "hm_wf (in_assignments st)" using inv by (simp add: inner_inv_def)
  have "gs_error_sum (get_profile_error_stats q st')
      = gs_error_sum (get_profile_error_stats q st) + (if as_qos_profile_id a = q then as_error a else 0)" for q
    using rec by (auto simp: record_assignment_fresh [OF None] get_profile_error_stats_def
        profile_stats_or_default_def map_simps split: option.splits)
  moreover have "live_profile_error st' q
      = live_profile_error st q + (if as_qos_profile_id a = q then as_error a else 0)" for q
    using rec wf None by (auto simp: record_assignment_fresh [OF None] live_profile_error_def
        hm_sum_insert_fresh)
  ultimately show ?thesis
    using ok wf rec None
    by (auto simp: record_assignment_fresh [OF None] ledger_ok_def hm_sum_insert_fresh)
next
  case (Some prev)
  obtain g where g: "map_of (in_profile_error_stats st) (as_qos_profile_id prev) = Some g"
    using profile_stats_exist [OF inv Some] .
  have wf: "hm_wf (in_assignments st)" using inv by (simp add: inner_inv_def)
  have "gs_error_sum (get_profile_error_stats q st') = gs_error_sum (get_profile_error_stats q st)" for q
    using rec g by (auto simp: record_assignment_replan [OF Some g] get_profile_error_stats_def
        map_simps)
  moreover have "live_profile_error st' q = live_profile_error st q
      + (if as_qos_profile_id prev = q then as_error a - as_error prev else 0)" for q
    using rec wf Some
    by (auto simp: record_assignment_replan [OF Some g] live_profile_error_def hm_sum_insert_replace)
  ultimately show ?thesis
    using ok wf rec Some
    by (auto simp: record_assignment_replan [OF Some g] ledger_ok_def hm_sum_insert_replace)
qed

lemma record_all_ledger:
  "inner_inv st \<Longrightarrow> ledger_ok st h \<Longrightarrow> record_all st as = Some st' \<Longrightarrow>
     ledger_ok st' (h @ replans_of st as)"
proof (induction as arbitrary: st h)
  case (Cons a as)
  obtain st1 where st1: "record_assignment st a = Some st1" "record_all st1 as = Some st'"
    using Cons.prems(3) by (auto split: option.splits)
  have "inner_inv st1" using record_assignment_step [OF Cons.prems(1), of a] st1(1) by auto
  from Cons.IH [OF this record_assignment_ledger [OF Cons.prems(1,2) st1(1)] st1(2)] st1(1)
  show ?case by (simp add: append_assoc split: option.splits)
qed simp

text \<open>With an empty ledger the sums are exact.\<close>

lemma errors_exact_ledger: "errors_exact st \<longleftrightarrow> ledger_ok st []"
  by (simp add: errors_exact_def ledger_ok_def)

lemma correct_assignment_error_exact:
  "inner_inv st \<Longrightarrow> errors_exact st \<Longrightarrow> errors_exact (correct_assignment_error i actual st)"
  by (simp add: errors_exact_ledger correct_assignment_error_ledger)

lemma correct_assignment_carbon_cost_exact:
  "inner_inv st \<Longrightarrow> errors_exact st \<Longrightarrow>
     errors_exact (snd (correct_assignment_carbon_cost i c st))"
  by (simp add: errors_exact_ledger correct_assignment_carbon_cost_ledger)

lemma record_assignment_exact:
  assumes inv: "inner_inv st" and ex: "errors_exact st"
    and rec: "record_assignment st a = Some st'"
    and same: "\<And>p. map_of (in_assignments st) (as_request_id a) = Some p \<Longrightarrow> as_error p = as_error a"
  shows "errors_exact st'"
proof -
  have "ledger_ok st' (replans_of st [a])"
    using record_assignment_ledger [OF inv _ rec, of "[]"] ex by (simp add: errors_exact_ledger)
  moreover have "ledger_gap P (replans_of st [a]) = 0" for P
    using rec same by (cases "map_of (in_assignments st) (as_request_id a)") auto
  ultimately show ?thesis by (simp add: errors_exact_def ledger_ok_def)
qed

text \<open>
  An assignment keeps the totals exact when its request is new; a re-plan leaves them
  off by exactly the change of the predicted error.
\<close>

definition error_drift :: "inner \<Rightarrow> f64" where
  "error_drift st = in_global_error_sum st - hm_sum as_error (in_assignments st)"

lemma record_assignment_drift:
  assumes inv: "inner_inv st" and rec: "record_assignment st a = Some st'"
  shows "error_drift st' = error_drift st
    + (case map_of (in_assignments st) (as_request_id a) of
         None \<Rightarrow> 0 | Some prev \<Rightarrow> as_error prev - as_error a)"
proof (cases "map_of (in_assignments st) (as_request_id a)")
  case None
  with inv rec show ?thesis
    by (auto simp: record_assignment_fresh [OF None] error_drift_def inner_inv_def
        hm_sum_insert_fresh)
next
  case (Some prev)
  obtain g where "map_of (in_profile_error_stats st) (as_qos_profile_id prev) = Some g"
    using profile_stats_exist [OF inv Some] .
  with inv rec Some show ?thesis
    by (auto simp: record_assignment_replan [OF Some] error_drift_def inner_inv_def
        hm_sum_insert_replace)
qed

section \<open>The optimistic commit\<close>

lemma breach_loop_iff: "breach_loop st as tiers es \<longleftrightarrow> (\<exists>e\<in>set es. slot_breaches st as tiers e)"
  by (induction es) auto

lemma count_in_slot_hm:
  "count_in_slot s (hm_values m) = hm_sum (\<lambda>a. if as_scheduled_slot a = s then 1 else 0) m"
  by (simp add: count_in_slot_def hm_sum_indicator)

lemma count_in_slot_nonneg [simp]: "0 \<le> count_in_slot s as"
  by (simp add: count_in_slot_def)

lemma record_assignment_assignments:
  assumes "record_assignment st a = Some st'"
  obtains p where "in_assignments st' =
    hm_insert (as_request_id a) (a\<lparr>as_qos_profile_id := p\<rparr>) (in_assignments st)"
proof (cases "map_of (in_assignments st) (as_request_id a)")
  case None
  then have "in_assignments st' = hm_insert (as_request_id a) a (in_assignments st)"
    using assms by (auto simp: record_assignment_fresh [OF None])
  then show ?thesis using that [of "as_qos_profile_id a"] by simp
next
  case (Some prev)
  with assms that show ?thesis
    by (auto simp: record_assignment_def Let_def split: option.splits)
qed

lemma count_in_slot_single: "count_in_slot s [a] = (if as_scheduled_slot a = s then 1 else 0)"
  by (simp add: count_in_slot_def)

lemma record_assignment_occupancy:
  assumes "hm_wf (in_assignments st)" and "record_assignment st a = Some st'"
  shows "hm_wf (in_assignments st')"
    and "count_in_slot s (hm_values (in_assignments st'))
       \<le> count_in_slot s (hm_values (in_assignments st)) + count_in_slot s [a]"
proof -
  obtain p where eq: "in_assignments st' =
      hm_insert (as_request_id a) (a\<lparr>as_qos_profile_id := p\<rparr>) (in_assignments st)"
    using record_assignment_assignments [OF assms(2)] .
  show "hm_wf (in_assignments st')" using assms(1) by (simp add: eq)
  show "count_in_slot s (hm_values (in_assignments st'))
       \<le> count_in_slot s (hm_values (in_assignments st)) + count_in_slot s [a]"
    using assms(1) by (auto simp: eq count_in_slot_hm count_in_slot_single hm_sum_insert split: option.splits)
qed

lemma count_in_slot_Cons: "count_in_slot s (a # as) = count_in_slot s [a] + count_in_slot s as"
  by (simp add: count_in_slot_def)

lemma record_all_occupancy:
  "hm_wf (in_assignments st) \<Longrightarrow> record_all st as = Some st' \<Longrightarrow>
   count_in_slot s (hm_values (in_assignments st'))
     \<le> count_in_slot s (hm_values (in_assignments st)) + count_in_slot s as"
proof (induction as arbitrary: st)
  case Nil
  then show ?case by simp
next
  case (Cons a as)
  then obtain st1 where st1: "record_assignment st a = Some st1" "record_all st1 as = Some st'"
    by (auto split: option.splits)
  note occ = record_assignment_occupancy [OF Cons.prems(1) st1(1)]
  show ?case
    using Cons.IH [OF occ(1) st1(2)] occ(2) [of s] count_in_slot_Cons [of s a as] by linarith
qed

lemma record_all_pending: "record_all st as = Some st' \<Longrightarrow> in_pending st' = in_pending st"
proof (induction as arbitrary: st)
  case (Cons a as)
  then obtain st1 where "record_assignment st a = Some st1" "record_all st1 as = Some st'"
    by (auto split: option.splits)
  moreover have "in_pending st1 = in_pending st"
    using calculation(1)
    by (auto simp: record_assignment_def record_new_def Let_def split: option.splits prod.splits)
  ultimately show ?case using Cons.IH by simp
qed simp

lemma record_all_keys:
  assumes "record_all st as = Some st'"
  shows "dom (map_of (in_assignments st')) = dom (map_of (in_assignments st)) \<union> set (map as_request_id as)"
  using assms
proof (induction as arbitrary: st)
  case (Cons a as)
  then obtain st1 where st1: "record_assignment st a = Some st1" "record_all st1 as = Some st'"
    by (auto split: option.splits)
  obtain p where "in_assignments st1 =
      hm_insert (as_request_id a) (a\<lparr>as_qos_profile_id := p\<rparr>) (in_assignments st)"
    using record_assignment_assignments [OF st1(1)] .
  then have "dom (map_of (in_assignments st1)) = insert (as_request_id a) (dom (map_of (in_assignments st)))"
    by (simp add: map_simps)
  with Cons.IH [OF st1(2)] show ?case by auto
qed simp

text \<open>A recorded batch leaves its own assignments live, the profile of a re-plan apart.\<close>

lemma record_all_source:
  "record_all st as = Some st' \<Longrightarrow> i \<in> set (map as_request_id as) \<Longrightarrow>
   \<exists>a\<in>set as. \<exists>p. as_request_id a = i
      \<and> map_of (in_assignments st') i = Some (a\<lparr>as_qos_profile_id := p\<rparr>)"
proof (induction as arbitrary: st)
  case (Cons a as)
  obtain st1 where st1: "record_assignment st a = Some st1" "record_all st1 as = Some st'"
    using Cons.prems(1) by (auto split: option.splits)
  show ?case
  proof (cases "i \<in> set (map as_request_id as)")
    case True
    with Cons.IH [OF st1(2)] show ?thesis by auto
  next
    case False
    then have i: "i = as_request_id a" using Cons.prems(2) by auto
    obtain p where "in_assignments st1 =
        hm_insert (as_request_id a) (a\<lparr>as_qos_profile_id := p\<rparr>) (in_assignments st)"
      using record_assignment_assignments [OF st1(1)] .
    then have "map_of (in_assignments st1) i = Some (a\<lparr>as_qos_profile_id := p\<rparr>)"
      by (simp add: i map_simps)
    moreover have "map_of (in_assignments st') i = map_of (in_assignments st1) i"
      using st1(2) False
    proof (induction as arbitrary: st1)
      case (Cons b bs)
      obtain st2 where st2: "record_assignment st1 b = Some st2" "record_all st2 bs = Some st'"
        using Cons.prems(1) by (auto split: option.splits)
      obtain q where "in_assignments st2 =
          hm_insert (as_request_id b) (b\<lparr>as_qos_profile_id := q\<rparr>) (in_assignments st1)"
        using record_assignment_assignments [OF st2(1)] .
      then have "map_of (in_assignments st2) i = map_of (in_assignments st1) i"
        using Cons.prems(2) by (auto simp: map_simps)
      with Cons.IH [OF st2(2)] Cons.prems(2) show ?case by simp
    qed simp
    ultimately show ?thesis using i by auto
  qed
qed simp

text \<open>
  C6: An unforced commit never raises the capacity price of a slot above what the
  solver paid for it. If \<open>try_add_assignments_checked\<close> commits without force under a
  valid tier ladder, then after the commit the multiplier of every slot's real occupancy
  is at most the multiplier of the occupancy the solver expected, whatever other
  workers have committed since the solver's snapshot.
\<close>

theorem commit_no_tier_breach:
  assumes "inner_inv st" and "valid_ladder tiers"
    and "try_add_assignments_checked as expected tiers False n st = Some (Committed, st')"
    and "(s, e) \<in> set expected"
  shows "capacity_multiplier_for_count (count_in_slot s (hm_values (in_assignments st'))) tiers
       \<le> capacity_multiplier_for_count e tiers"
proof -
  let ?mult = "\<lambda>c. capacity_multiplier_for_count c tiers"
  let ?planned = "count_in_slot s (hm_values (in_assignments st)) + count_in_slot s as"
  have commit: "record_all st as = Some st'" and "\<not> slot_breaches st as tiers (s, e)"
    using assms(3,4) by (auto simp: try_add_assignments_checked_def breach_loop_iff split: if_splits)
  then have "?mult ?planned \<le> ?mult e"
    using count_tiers.valid_ladder_mono [OF assms(2), of ?planned e]
    by (auto simp: slot_breaches_def Let_def)
  moreover have "count_in_slot s (hm_values (in_assignments st')) \<le> ?planned"
    using assms(1) commit by (intro record_all_occupancy) (simp_all add: inner_inv_def)
  ultimately show ?thesis
    using count_tiers.valid_ladder_mono [OF assms(2)] by (meson order_trans)
qed

text \<open>
  The commit is atomic and never panics. From a state with the accounting
  invariant it always answers. It rolls back exactly when it is not forced and some
  expected slot would breach its tier; then only the rollback counters change. Otherwise
  every assignment of the batch is in the map and the invariant holds again. In both
  cases the pending queue is untouched.
\<close>

theorem commit_atomic:
  assumes "inner_inv st"
  shows "case try_add_assignments_checked as expected tiers force n st of
      None \<Rightarrow> False
    | Some (RolledBack, st') \<Rightarrow>
        force = False \<and> (\<exists>e\<in>set expected. slot_breaches st as tiers e)
        \<and> st' = st\<lparr>in_total_rollbacks := in_total_rollbacks st + 1,
                    in_max_consecutive_rollbacks_seen :=
                      max (in_max_consecutive_rollbacks_seen st) (n + 1)\<rparr>
    | Some (Committed, st') \<Rightarrow>
        (force \<or> (\<forall>e\<in>set expected. slot_breaches st as tiers e = False))
        \<and> inner_inv st' \<and> in_pending st' = in_pending st
        \<and> dom (map_of (in_assignments st'))
          = dom (map_of (in_assignments st)) \<union> set (map as_request_id as)
        \<and> in_total_rollbacks st' = in_total_rollbacks st"
proof -
  obtain st' where st': "record_all st as = Some st'" "inner_inv st'"
    using record_all_step [OF assms] .
  have roll: "in_total_rollbacks st' = in_total_rollbacks st"
    if "record_all st as = Some st'" for st as
    using that
  proof (induction as arbitrary: st)
    case (Cons a as)
    then obtain st1 where "record_assignment st a = Some st1" "record_all st1 as = Some st'"
      by (auto split: option.splits)
    moreover have "in_total_rollbacks st1 = in_total_rollbacks st"
      using calculation(1)
      by (auto simp: record_assignment_def record_new_def Let_def split: option.splits prod.splits)
    ultimately show ?case using Cons.IH by simp
  qed simp
  show ?thesis
    using st' record_all_pending [OF st'(1)] record_all_keys [OF st'(1)] roll [OF st'(1)]
    by (auto simp: try_add_assignments_checked_def breach_loop_iff note_rollback_def Let_def max_def)
qed

lemma commit_no_tier_breach_witness:
  "let tiers = cfg_capacity_tiers config_default;
       a = assignment_new 0 7 3 ''Fast'' 1 5 10 None None;
       st' = the (record_all inner_new [a])
   in try_add_assignments_checked [a] [(3, 1)] tiers False 0 inner_new = Some (Committed, st')
    \<and> capacity_multiplier_for_count (count_in_slot 3 (hm_values (in_assignments st'))) tiers
      \<le> capacity_multiplier_for_count 1 tiers"
proof -
  let ?a = "assignment_new 0 7 3 ''Fast'' 1 5 10 None None"
  let ?tiers = "cfg_capacity_tiers config_default"
  obtain st' where st': "record_all inner_new [?a] = Some st'"
    using record_all_step [OF inner_inv_new] .
  have ok: "try_add_assignments_checked [?a] [(3, 1)] ?tiers False 0 inner_new = Some (Committed, st')"
    using st'
    by (simp add: try_add_assignments_checked_def slot_breaches_def count_in_slot_def inner_new_def
        hm_values_def assignment_new_def assignment_new_for_profile_def)
  show ?thesis
    using ok st' commit_no_tier_breach [OF inner_inv_new default_tiers_valid ok, of 3 1]
    by (simp add: Let_def)
qed

lemma commit_atomic_witness:
  "\<exists>st'. try_add_assignments_checked [assignment_new 0 7 3 ''Fast'' 1 5 10 None None]
      [(3, 1)] (cfg_capacity_tiers config_default) True 0 inner_new = Some (Committed, st')
    \<and> inner_inv st' \<and> dom (map_of (in_assignments st')) = {7}"
proof -
  let ?a = "assignment_new 0 7 3 ''Fast'' 1 5 10 None None"
  obtain st' where "record_all inner_new [?a] = Some st'"
    using record_all_step [OF inner_inv_new] .
  then show ?thesis
    using commit_atomic [OF inner_inv_new, where as = "[?a]" and expected = "[(3, 1)]"
        and tiers = "cfg_capacity_tiers config_default" and force = True and n = 0]
    by (simp add: try_add_assignments_checked_def inner_new_def assignment_new_def
        assignment_new_for_profile_def)
qed

section \<open>The queue\<close>

lemma claim_loop_eq:
  "claim_loop pid n claimed remaining rs =
     (let mine = filter (\<lambda>r. rq_qos_profile_id r = pid) rs; k = n - length claimed
      in (claimed @ take k mine, snd (claim_loop pid n claimed remaining rs)))"
proof (induction pid n claimed remaining rs rule: claim_loop.induct)
  case (2 pid n claimed remaining r rs)
  show ?case
  proof (cases "rq_qos_profile_id r = pid \<and> length claimed < n")
    case True
    then have "n - length claimed = Suc (n - length (claimed @ [r]))" by (simp, arith)
    with True 2 show ?thesis by (simp add: Let_def)
  next
    case False
    with 2 show ?thesis by (cases "rq_qos_profile_id r = pid") (simp_all add: Let_def)
  qed
qed simp

lemma claim_loop_others:
  "filter (\<lambda>r. rq_qos_profile_id r \<noteq> pid) (snd (claim_loop pid n claimed remaining rs))
     = filter (\<lambda>r. rq_qos_profile_id r \<noteq> pid) (remaining @ rs)"
  by (induction pid n claimed remaining rs rule: claim_loop.induct) auto

lemma claim_loop_mine:
  "filter (\<lambda>r. rq_qos_profile_id r = pid) (snd (claim_loop pid n claimed remaining rs))
     = filter (\<lambda>r. rq_qos_profile_id r = pid) remaining
       @ drop (n - length claimed) (filter (\<lambda>r. rq_qos_profile_id r = pid) rs)"
proof (induction pid n claimed remaining rs rule: claim_loop.induct)
  case (2 pid n claimed remaining r rs)
  show ?case
  proof (cases "rq_qos_profile_id r = pid \<and> length claimed < n")
    case True
    then have "n - length claimed = Suc (n - length (claimed @ [r]))" by (simp, arith)
    with True 2 show ?thesis by simp
  next
    case False
    with 2 show ?thesis by (cases "rq_qos_profile_id r = pid") simp_all
  qed
qed simp

lemma claim_loop_mset:
  "mset (fst (claim_loop pid n claimed remaining rs)) + mset (snd (claim_loop pid n claimed remaining rs))
     = mset claimed + mset remaining + mset rs"
  by (induction pid n claimed remaining rs rule: claim_loop.induct) (auto simp: Let_def)

lemma requeue_pending [simp]: "in_pending (requeue_pending_requests_front rs st) = rs @ in_pending st"
  by (simp add: requeue_pending_requests_front_def)

text \<open>A claim takes the first requests of its profile and loses none.\<close>

lemma claim_profile_spec:
  assumes "claim_pending_requests_for_profile pid n st = (claimed, st')"
  shows "claimed = take n (filter (\<lambda>r. rq_qos_profile_id r = pid) (in_pending st))"
    and "filter (\<lambda>r. rq_qos_profile_id r \<noteq> pid) (in_pending st')
      = filter (\<lambda>r. rq_qos_profile_id r \<noteq> pid) (in_pending st)"
    and "filter (\<lambda>r. rq_qos_profile_id r = pid) (in_pending st')
      = drop n (filter (\<lambda>r. rq_qos_profile_id r = pid) (in_pending st))"
    and "mset claimed + mset (in_pending st') = mset (in_pending st)"
    and "st' = st\<lparr>in_pending := in_pending st'\<rparr>"
proof -
  obtain c r where cr: "claim_loop pid n [] [] (in_pending st) = (c, r)" by fastforce
  with assms have eq: "claimed = c" "st' = st\<lparr>in_pending := r\<rparr>"
    by (simp_all add: claim_pending_requests_for_profile_def)
  show "claimed = take n (filter (\<lambda>r. rq_qos_profile_id r = pid) (in_pending st))"
    using claim_loop_eq [of pid n "[]" "[]" "in_pending st"] by (simp add: cr eq Let_def)
  show "filter (\<lambda>r. rq_qos_profile_id r \<noteq> pid) (in_pending st')
      = filter (\<lambda>r. rq_qos_profile_id r \<noteq> pid) (in_pending st)"
    using claim_loop_others [of pid n "[]" "[]" "in_pending st"] by (simp add: cr eq)
  show "filter (\<lambda>r. rq_qos_profile_id r = pid) (in_pending st')
      = drop n (filter (\<lambda>r. rq_qos_profile_id r = pid) (in_pending st))"
    using claim_loop_mine [of pid n "[]" "[]" "in_pending st"] by (simp add: cr eq)
  show "mset claimed + mset (in_pending st') = mset (in_pending st)"
    using claim_loop_mset [of pid n "[]" "[]" "in_pending st"] by (simp add: cr eq)
  show "st' = st\<lparr>in_pending := in_pending st'\<rparr>" by (simp add: eq)
qed

lemma claim_profile_homogeneous:
  assumes "claim_pending_requests_for_profile pid n st = (claimed, st')" and "r \<in> set claimed"
  shows "rq_qos_profile_id r = pid" and "r \<in> set (in_pending st)"
  using assms(2) unfolding claim_profile_spec(1) [OF assms(1)] by (auto dest: in_set_takeD)

text \<open>
  Claiming for a profile is exact. The claimed batch is the first \<open>n\<close> pending
  requests of that profile in queue order; requests of other profiles stay queued in
  their order; the profile's later requests stay in theirs; no request is lost or
  duplicated, and returning the batch to the front restores the same multiset of
  pending requests.
\<close>

theorem claim_for_profile_exact:
  "case claim_pending_requests_for_profile pid n st of (claimed, st') \<Rightarrow>
     claimed = take n (filter (\<lambda>r. rq_qos_profile_id r = pid) (in_pending st))
     \<and> filter (\<lambda>r. rq_qos_profile_id r \<noteq> pid) (in_pending st')
        = filter (\<lambda>r. rq_qos_profile_id r \<noteq> pid) (in_pending st)
     \<and> filter (\<lambda>r. rq_qos_profile_id r = pid) (in_pending st')
        = drop n (filter (\<lambda>r. rq_qos_profile_id r = pid) (in_pending st))
     \<and> mset claimed + mset (in_pending st') = mset (in_pending st)
     \<and> mset (in_pending (requeue_pending_requests_front claimed st')) = mset (in_pending st)
     \<and> filter (\<lambda>r. rq_qos_profile_id r = pid)
          (in_pending (requeue_pending_requests_front claimed st'))
        = filter (\<lambda>r. rq_qos_profile_id r = pid) (in_pending st)"
proof -
  obtain c st' where claim: "claim_pending_requests_for_profile pid n st = (c, st')" by fastforce
  have "filter (\<lambda>r. rq_qos_profile_id r = pid) c = c"
    using claim_profile_homogeneous(1) [OF claim] by (simp add: filter_id_conv)
  then show ?thesis
    using claim_profile_spec(1-4) [OF claim] by (simp add: claim)
qed

lemma count_profiles_lookup:
  "map_of (count_profiles rs m) pid =
     (let k = length (filter (\<lambda>r. rq_qos_profile_id r = pid) rs)
      in if k = 0 then map_of m pid
         else Some ((case map_of m pid of None \<Rightarrow> 0 | Some j \<Rightarrow> j) + k))"
  by (induction rs arbitrary: m) (auto simp: Let_def map_simps split: option.splits)

lemma count_profiles_wf: "hm_wf m \<Longrightarrow> hm_wf (count_profiles rs m)"
  by (induction rs arbitrary: m) auto

lemma pending_counts_spec:
  "sorted_wrt (<) (map fst (pending_profile_counts st))"
  "(pid, k) \<in> set (pending_profile_counts st) \<longleftrightarrow>
     0 < k \<and> k = length (filter (\<lambda>r. rq_qos_profile_id r = pid) (in_pending st))"
proof -
  let ?m = "count_profiles (in_pending st) []"
  have wf: "hm_wf ?m" by (simp add: count_profiles_wf)
  have "distinct (map fst (sort_key fst ?m))"
  proof -
    have "mset (map fst (sort_key fst ?m)) = mset (map fst ?m)" by simp
    then show ?thesis using wf unfolding hm_wf_def by (metis mset_eq_imp_distinct_iff)
  qed
  then show "sorted_wrt (<) (map fst (pending_profile_counts st))"
    by (simp add: pending_profile_counts_def strict_sorted_iff sorted_sort_key)
  have "(pid, k) \<in> set (pending_profile_counts st) \<longleftrightarrow> map_of ?m pid = Some k"
    using hm_binding_iff [OF wf] by (simp add: pending_profile_counts_def)
  then show "(pid, k) \<in> set (pending_profile_counts st) \<longleftrightarrow>
     0 < k \<and> k = length (filter (\<lambda>r. rq_qos_profile_id r = pid) (in_pending st))"
    by (auto simp: count_profiles_lookup Let_def)
qed

text \<open>
  The fair-dispatch view of the queue is canonical: its profile identifiers are
  strictly increasing, whatever order the hash map was iterated in, and a profile is
  listed with count \<open>k\<close> exactly when \<open>k > 0\<close> of the pending requests carry it.
\<close>

theorem pending_profile_counts_correct:
  "sorted_wrt (<) (map fst (pending_profile_counts st))
   \<and> (\<forall>pid k. (pid, k) \<in> set (pending_profile_counts st) \<longleftrightarrow>
        (0 < k \<and> k = length (filter (\<lambda>r. rq_qos_profile_id r = pid) (in_pending st))))"
  using pending_counts_spec by blast

section \<open>Reachable states\<close>

text \<open>One critical section of the mutex, by any thread, as a step.\<close>

inductive inner_step :: "inner \<Rightarrow> inner \<Rightarrow> bool" where
  Add_request: "inner_step st (add_request r st)"
| Add_requests: "inner_step st (add_requests rs st)"
| Claim: "inner_step st (snd (claim_pending_requests n st))"
| Claim_profile: "inner_step st (snd (claim_pending_requests_for_profile pid n st))"
| Requeue: "inner_step st (requeue_pending_requests_front rs st)"
| Drain: "inner_step st (snd (drain_pending_requests st))"
| Add_assignments: "add_assignments as st = Some st' \<Longrightarrow> inner_step st st'"
| Checked_commit:
    "try_add_assignments_checked as expected tiers force n st = Some (out, st') \<Longrightarrow> inner_step st st'"
| Correct_error: "inner_step st (correct_assignment_error i e st)"
| Correct_carbon: "inner_step st (snd (correct_assignment_carbon_cost i c st))"
| Set_slot: "inner_step st (set_current_slot s st)"
| Mark: "inner_step st (mark_requests_rolled_back is st)"

abbreviation inner_reachable :: "inner \<Rightarrow> bool" where
  "inner_reachable st \<equiv> inner_step\<^sup>*\<^sup>* inner_new st"

lemma inner_step_inv: "inner_step st st' \<Longrightarrow> inner_inv st \<Longrightarrow> inner_inv st'"
proof (induction rule: inner_step.induct)
  case (Checked_commit as expected tiers force n st out st')
  then show ?case
    using record_all_inv [of st as]
    by (auto simp: try_add_assignments_checked_def split: if_splits)
qed (simp_all add: correct_assignment_error_inv correct_assignment_carbon_cost_inv
      add_assignments_def record_all_inv)

lemma inner_reachable_inv: "inner_reachable st \<Longrightarrow> inner_inv st"
  by (induction rule: rtranclp_induct) (auto intro: inner_step_inv)

text \<open>The critical sections that record no assignment.\<close>

inductive quiet_step :: "inner \<Rightarrow> inner \<Rightarrow> bool" where
  Quiet_add_request: "quiet_step st (add_request r st)"
| Quiet_add_requests: "quiet_step st (add_requests rs st)"
| Quiet_claim: "quiet_step st (snd (claim_pending_requests n st))"
| Quiet_claim_profile: "quiet_step st (snd (claim_pending_requests_for_profile pid n st))"
| Quiet_requeue: "quiet_step st (requeue_pending_requests_front rs st)"
| Quiet_drain: "quiet_step st (snd (drain_pending_requests st))"
| Quiet_rollback: "quiet_step st (note_rollback n st)"
| Quiet_error: "quiet_step st (correct_assignment_error i e st)"
| Quiet_carbon: "quiet_step st (snd (correct_assignment_carbon_cost i c st))"
| Quiet_slot: "quiet_step st (set_current_slot s st)"
| Quiet_mark: "quiet_step st (mark_requests_rolled_back is st)"

inductive inner_history :: "inner \<Rightarrow> ledger \<Rightarrow> bool" where
  History_new: "inner_history inner_new []"
| History_quiet: "inner_history st h \<Longrightarrow> quiet_step st st' \<Longrightarrow> inner_history st' h"
| History_record:
    "inner_history st h \<Longrightarrow> record_all st as = Some st' \<Longrightarrow> inner_history st' (h @ replans_of st as)"

lemma inner_step_cases:
  "inner_step st st' \<Longrightarrow> quiet_step st st' \<or> (\<exists>as. record_all st as = Some st')"
proof (induction rule: inner_step.induct)
  case (Checked_commit as expected tiers force n st out st')
  then show ?case
    by (auto simp: try_add_assignments_checked_def split: if_splits intro: quiet_step.intros)
qed (auto simp: add_assignments_def intro: quiet_step.intros)

lemma inner_history_step:
  "inner_step st st' \<Longrightarrow> inner_history st h \<Longrightarrow> \<exists>h'. inner_history st' h'"
  using inner_step_cases [of st st'] by (blast intro: History_quiet History_record)

lemma inner_reachable_history: "inner_reachable st \<Longrightarrow> \<exists>h. inner_history st h"
  by (induction rule: rtranclp_induct) (auto intro: History_new dest: inner_history_step)

lemma quiet_step_inv: "quiet_step st st' \<Longrightarrow> inner_inv st \<Longrightarrow> inner_inv st'"
  by (induction rule: quiet_step.induct)
    (simp_all add: correct_assignment_error_inv correct_assignment_carbon_cost_inv)

lemma quiet_step_frame:
  "quiet_step st st' \<Longrightarrow>
     (in_assignments st' = in_assignments st \<and> in_profile_error_stats st' = in_profile_error_stats st
        \<and> in_global_error_sum st' = in_global_error_sum st)
     \<or> (\<exists>i e. st' = correct_assignment_error i e st)
     \<or> (\<exists>i c. st' = snd (correct_assignment_carbon_cost i c st))"
proof (induction rule: quiet_step.induct)
  case (Quiet_error st i e)
  then show ?case by blast
next
  case (Quiet_carbon st i c)
  then show ?case by blast
qed (simp_all add: add_request_def add_requests_def claim_pending_requests_def Let_def
    claim_pending_requests_for_profile_def requeue_pending_requests_front_def
    drain_pending_requests_def set_current_slot_def note_rollback_def
    mark_requests_rolled_back_def split: prod.split)

lemma quiet_step_ledger:
  assumes "quiet_step st st'" and "inner_inv st" and "ledger_ok st h"
  shows "ledger_ok st' h"
  using quiet_step_frame [OF assms(1)] assms(2,3)
  by (auto simp: correct_assignment_error_ledger correct_assignment_carbon_cost_ledger
      cong: ledger_ok_cong)

lemma inner_history_ledger: "inner_history st h \<Longrightarrow> inner_inv st \<and> ledger_ok st h"
proof (induction rule: inner_history.induct)
  case History_new
  have "ledger_ok inner_new []" using errors_exact_new by (simp only: errors_exact_ledger)
  then show ?case by simp
qed (auto intro: quiet_step_ledger quiet_step_inv record_all_ledger record_all_inv)

lemma profile_count_filter:
  "profile_count st pid
     = int (length (filter (\<lambda>a. as_qos_profile_id a = pid) (hm_values (in_assignments st))))"
  by (simp add: profile_count_def hm_sum_indicator)

lemma live_error_sums:
  "hm_sum as_error (in_assignments st) = (\<Sum>a \<leftarrow> hm_values (in_assignments st). as_error a)"
  "live_profile_error st pid
     = (\<Sum>a \<leftarrow> filter (\<lambda>a. as_qos_profile_id a = pid) (hm_values (in_assignments st)). as_error a)"
  by (simp_all add: live_profile_error_def hm_sum_def hm_values_def sum_list_map_filter' comp_def)

lemma inner_inv_profile_stats:
  assumes "inner_inv st"
  shows "gs_count (get_profile_error_stats pid st)
           = length (filter (\<lambda>a. as_qos_profile_id a = pid) (hm_values (in_assignments st)))"
    and "gs_avg (get_profile_error_stats pid st)
           = avg_or_zero (gs_error_sum (get_profile_error_stats pid st))
               (gs_count (get_profile_error_stats pid st))"
  using assms stats_okD_None [of st pid] stats_okD_Some [of st pid]
  by (auto simp: inner_inv_def get_profile_error_stats_def profile_count_filter avg_or_zero_def
      split: option.splits)



text \<open>
  Measured-quality feedback keeps the budget exact. If the totals equal the errors
  of the live assignments, they still do after an executor reports the actual error of
  any request, after its carbon cost is corrected, and after a commit of requests that
  had no assignment or keep their predicted error.
\<close>

theorem error_totals_exact:
  assumes "inner_inv st" and "errors_exact st"
  shows "errors_exact (correct_assignment_error i actual st)
    \<and> errors_exact (snd (correct_assignment_carbon_cost i cost st))
    \<and> ((\<forall>p. map_of (in_assignments st) (as_request_id a) = Some p \<longrightarrow> as_error p = as_error a)
        \<longrightarrow> (case record_assignment st a of None \<Rightarrow> False | Some st' \<Rightarrow> errors_exact st'))"
proof (intro conjI impI)
  assume same: "\<forall>p. map_of (in_assignments st) (as_request_id a) = Some p \<longrightarrow> as_error p = as_error a"
  obtain st' where "record_assignment st a = Some st'"
    using record_assignment_step [OF assms(1)] .
  then show "case record_assignment st a of None \<Rightarrow> False | Some st' \<Rightarrow> errors_exact st'"
    using record_assignment_exact [OF assms] same by simp
qed (use assms in \<open>simp_all add: correct_assignment_error_exact correct_assignment_carbon_cost_exact\<close>)

lemma error_totals_exact_witness:
  "case record_assignment inner_new (assignment_new 0 7 3 ''Fast'' 1 5 10 None None) of
     None \<Rightarrow> False | Some st' \<Rightarrow> errors_exact st'"
proof -
  have "map_of (in_assignments inner_new) i = None" for i by (simp add: inner_new_def)
  then show ?thesis
    using error_totals_exact [OF inner_inv_new errors_exact_new,
        where a = "assignment_new 0 7 3 ''Fast'' 1 5 10 None None"] by simp
qed

text \<open>
  Re-planning drifts. Recording an assignment moves the gap between the
  fleet-wide error total and the errors of the live assignments by zero for a new
  request, and for a re-planned one by the old predicted error minus the new one: the
  total keeps the first prediction.
\<close>

theorem replan_drift:
  assumes "inner_inv st" and "record_assignment st a = Some st'"
  shows "in_global_error_sum st' - hm_sum as_error (in_assignments st')
    = in_global_error_sum st - hm_sum as_error (in_assignments st)
      + (case map_of (in_assignments st) (as_request_id a) of
           None \<Rightarrow> 0 | Some prev \<Rightarrow> as_error prev - as_error a)"
  using record_assignment_drift [OF assms] by (simp add: error_drift_def)

lemma replan_drift_witness:
  "let a = assignment_new 0 7 3 ''Accurate'' 1 0 60 None None;
       b = assignment_new 0 7 4 ''Fast'' 1 5 10 None None;
       st1 = the (record_assignment inner_new a);
       st2 = the (record_assignment st1 b)
   in in_global_error_sum st2 - hm_sum as_error (in_assignments st2) = - 5"
proof -
  let ?a = "assignment_new 0 7 3 ''Accurate'' 1 0 60 None None"
  let ?b = "assignment_new 0 7 4 ''Fast'' 1 5 10 None None"
  obtain st1 where st1: "record_assignment inner_new ?a = Some st1" "inner_inv st1"
    using record_assignment_step [OF inner_inv_new] .
  obtain st2 where st2: "record_assignment st1 ?b = Some st2"
    using record_assignment_step [OF st1(2)] by blast
  have "map_of (in_assignments st1) 7 = Some ?a" and "in_global_error_sum st1 = 0"
    and "hm_sum as_error (in_assignments st1) = 0"
    using st1(1) by (auto simp: record_assignment_fresh inner_new_def assignment_new_def
        assignment_new_for_profile_def hm_sum_def hm_values_def)
  with replan_drift [OF st1(2) st2] st1(1) st2 show ?thesis
    by (simp add: assignment_new_def assignment_new_for_profile_def)
qed

section \<open>Snapshots\<close>

lemma swarm_scan_counts:
  "map_of (fst (swarm_scan pid as cnt errs)) s =
     (if count_in_slot s as = 0 then map_of cnt s
      else Some ((case map_of cnt s of None \<Rightarrow> 0 | Some n \<Rightarrow> n) + count_in_slot s as))"
proof (induction as arbitrary: cnt errs)
  case Nil
  then show ?case by (simp add: count_in_slot_def)
next
  case (Cons a as)
  have "0 \<le> count_in_slot s as" by simp
  then have "1 + count_in_slot s as \<noteq> 0" by linarith
  then show ?case
    by (auto simp: Cons.IH count_in_slot_Cons [of s a as] count_in_slot_single map_simps
        split: option.splits)
qed

definition profile_matches :: "qos_profile_id option \<Rightarrow> assignment \<Rightarrow> bool" where
  "profile_matches pid a \<longleftrightarrow> (case pid of None \<Rightarrow> True | Some p \<Rightarrow> as_qos_profile_id a = p)"

lemma swarm_scan_errors:
  "map_of (snd (swarm_scan pid as cnt errs)) s =
     (let es = map as_error (filter (\<lambda>a. profile_matches pid a \<and> as_scheduled_slot a = s) as)
      in if es = [] then map_of errs s
         else Some ((case map_of errs s of None \<Rightarrow> [] | Some xs \<Rightarrow> xs) @ es))"
  by (induction as arbitrary: cnt errs)
    (auto simp: Let_def map_simps profile_matches_def filter_empty_conv split: option.splits)

text \<open>
  The swarm snapshot keeps capacity global and error private. Its slot counts are
  the numbers of live assignments per slot over all profiles; its error lists are those
  of the requested profile only; its cumulative totals are that profile's totals.
\<close>

theorem swarm_snapshot_correct:
  "let ctx = swarm_context_snapshot_for_profile (Some pid) st;
       live = hm_values (in_assignments st)
   in (case map_of (swc_slot_count ctx) s of None \<Rightarrow> 0 | Some n \<Rightarrow> n) = count_in_slot s live
    \<and> (case map_of (swc_slot_errors ctx) s of None \<Rightarrow> [] | Some es \<Rightarrow> es)
        = map as_error (filter (\<lambda>a. as_qos_profile_id a = pid \<and> as_scheduled_slot a = s) live)
    \<and> swc_global_error_sum ctx = gs_error_sum (get_profile_error_stats pid st)
    \<and> swc_global_count ctx = gs_count (get_profile_error_stats pid st)"
proof -
  let ?live = "hm_values (in_assignments st)"
  have "(case map_of (fst (swarm_scan (Some pid) ?live [] [])) s of None \<Rightarrow> 0 | Some n \<Rightarrow> n)
      = count_in_slot s ?live"
    by (simp add: swarm_scan_counts)
  moreover have "(case map_of (snd (swarm_scan (Some pid) ?live [] [])) s of None \<Rightarrow> [] | Some es \<Rightarrow> es)
      = map as_error (filter (\<lambda>a. as_qos_profile_id a = pid \<and> as_scheduled_slot a = s) ?live)"
    by (simp add: swarm_scan_errors Let_def profile_matches_def)
  ultimately show ?thesis
    by (cases "map_of (in_profile_error_stats st) pid")
      (simp_all add: swarm_context_snapshot_for_profile_def get_profile_error_stats_def
        case_prod_unfold Let_def)
qed

text \<open>
  The commit check prices occupancy exactly as the solvers do: the two separately
  written tier lookups compute the same multiplier for every ladder and count.
\<close>

theorem capacity_lookups_agree:
  "capacity_multiplier_for_count c tiers = get_capacity_multiplier tiers c"
  by (rule count_tiers.unique) (rule tiers.tier_lookup_axioms)

lemma window_average_le:
  assumes "\<And>a. a \<in> set as \<Longrightarrow> P a \<Longrightarrow> as_error a \<le> m" and "0 \<le> m"
  shows "ws_average (window_stats_of P as) \<le> m"
proof -
  have "sum_list (map as_error (filter P as)) \<le> real (length (filter P as)) * m"
    using assms(1) by (intro sum_list_le_length_mult) auto
  with assms(2) show ?thesis by (simp add: window_stats_of_def Let_def avg_or_zero_le)
qed

end
