(* ===== verification/Dp_Solver.thy ===== *)
theory Dp_Solver
  imports Shared_State "HOL-Library.Product_Lexorder"
begin

text \<open>
  The rolling-window dynamic program (\<open>engine/dp_solver.rs\<close>): state keys, the marginal
  carbon cost, the sequential warm start, the layered search with its pruning and
  timeout, and the greedy fallback. A table of states is a hash map; the order in which
  the code iterates it is \<open>ord n\<close>, any permutation, and the clock test at the end of
  layer \<open>n\<close> is \<open>timed_out n\<close>, so the theorems hold for every iteration order and every
  timing. \<open>None\<close> is a panic: an index out of bounds, an empty flavour list, a negative
  vector length.
\<close>

section \<open>State keys\<close>

record dp_key =
  k_error_sum_bp :: int
  k_error_count_milli :: int
  k_mock_remaining :: int
  k_inc_counts :: "int list"

definition dp_key_new :: "int \<Rightarrow> f64 \<Rightarrow> int \<Rightarrow> int list \<Rightarrow> dp_key" where
  "dp_key_new error_sum_bp error_count mock_remaining inc_counts =
     \<lparr>k_error_sum_bp = error_sum_bp,
      k_error_count_milli = f64_as_i64 (real_of_int (f64_round (error_count * 1000))),
      k_mock_remaining = mock_remaining, k_inc_counts = inc_counts\<rparr>"

definition k_error_count :: "dp_key \<Rightarrow> f64" where
  "k_error_count k = real_of_int (k_error_count_milli k) / 1000"

text \<open>Errors in basis points: \<open>(e * 100.0).round() as i64\<close>.\<close>

definition to_bp :: "f64 \<Rightarrow> int" where
  "to_bp e = f64_as_i64 (real_of_int (f64_round (e * 100)))"

section \<open>Inputs\<close>

record solve_request =
  sr_request_id :: request_id
  sr_earliest_slot :: slot
  sr_deadline_slot :: slot

record error_window_baseline =
  eb_error_sum :: f64
  eb_request_count :: f64

record mock_pool =
  mp_initial_count :: int
  mp_error_per_request :: f64

type_synonym flavour_overrides = "(request_id, flavour list) hmap"

record solve_batch_input =
  si_requests :: "solve_request list"
  si_current_slot :: slot
  si_capacity_multiplier :: f64
  si_capacity_tiers :: "capacity_tier list"
  si_baseline_slot_counts :: "(slot, int) hmap"
  si_error_window_baseline :: error_window_baseline
  si_max_error_threshold :: "f64 option"
  si_error_window_past :: int
  si_error_window_future :: int
  si_assignment_max_slot :: "slot option"
  si_dynamic_mock_pool :: mock_pool
  si_request_flavours :: flavour_overrides

record dp_solver =
  dp_flavours :: "flavour list"
  dp_carbon_forecast :: "f64 list"
  dp_window_size :: int
  dp_pruning :: string
  dp_pruning_k :: nat
  dp_timeout :: f64
  dp_carbon_cost_scale :: f64

definition dp_solver_new :: "solver_config \<Rightarrow> assignment_policy \<Rightarrow> dp_solver option" where
  "dp_solver_new solver assignment =
     (if pol_total_slots assignment < 0 then None
      else Some \<lparr>dp_flavours = pol_flavours assignment,
                 dp_carbon_forecast = replicate (nat (pol_total_slots assignment)) 0,
                 dp_window_size = pol_total_slots assignment,
                 dp_pruning = sc_dp_pruning_method solver,
                 dp_pruning_k = sc_dp_pruning_k solver,
                 dp_timeout = sc_dp_timeout solver,
                 dp_carbon_cost_scale = pol_carbon_cost_duration_scale assignment\<rparr>)"

definition flavours_for :: "dp_solver \<Rightarrow> request_id \<Rightarrow> flavour_overrides \<Rightarrow> flavour list" where
  "flavours_for dp i overrides =
     (case map_of overrides i of Some fs \<Rightarrow> fs | None \<Rightarrow> dp_flavours dp)"

definition with_carbon_forecast :: "f64 list \<Rightarrow> dp_solver \<Rightarrow> dp_solver option" where
  "with_carbon_forecast forecast dp =
     (if int (length forecast) = dp_window_size dp
      then Some (dp\<lparr>dp_carbon_forecast := forecast\<rparr>) else None)"

section \<open>Marginal carbon cost\<close>

definition incremental_carbon_cost ::
    "dp_solver \<Rightarrow> slot \<Rightarrow> f64 \<Rightarrow> int list \<Rightarrow> int list \<Rightarrow> capacity_tier list \<Rightarrow> f64 option" where
  "incremental_carbon_cost dp slot add_duration base_counts inc_counts tiers =
     (let s = nat slot in
      if 0 \<le> slot \<and> s < length base_counts \<and> s < length inc_counts
         \<and> s < length (dp_carbon_forecast dp)
      then let position = base_counts ! s + inc_counts ! s + 1;
               mult = get_capacity_multiplier tiers position;
               carbon = dp_carbon_forecast dp ! s
           in Some (carbon * mult * add_duration * dp_carbon_cost_scale dp)
      else None)"

section \<open>One solve: the values computed before the search\<close>

record solve_env =
  en_tiers :: "capacity_tier list"
  en_window_start :: slot
  en_window_end :: slot
  en_base_counts :: "int list"
  en_mock_error_bp :: int
  en_current_slot :: slot
  en_threshold :: "f64 option"
  en_request_flavours :: flavour_overrides

definition resolve_tiers :: "solve_batch_input \<Rightarrow> capacity_tier list" where
  "resolve_tiers inp =
     (if si_capacity_tiers inp = []
      then [\<lparr>ct_max_requests = None, ct_multiplier = si_capacity_multiplier inp\<rparr>]
      else si_capacity_tiers inp)"

definition assignment_cap :: "dp_solver \<Rightarrow> solve_batch_input \<Rightarrow> slot" where
  "assignment_cap dp inp =
     max (min (case si_assignment_max_slot inp of
                 Some m \<Rightarrow> m | None \<Rightarrow> i32_sub (dp_window_size dp) 1)
              (i32_sub (dp_window_size dp) 1))
         (si_current_slot inp)"

definition solve_deadlines :: "dp_solver \<Rightarrow> solve_batch_input \<Rightarrow> slot list" where
  "solve_deadlines dp inp =
     map (\<lambda>r. min (min (max (sr_deadline_slot r) (si_current_slot inp)) (assignment_cap dp inp))
               (i32_sub (dp_window_size dp) 1)) (si_requests inp)"

definition earliest_of :: "slot \<Rightarrow> solve_request \<Rightarrow> slot" where
  "earliest_of current r = max (sr_earliest_slot r) current"

text \<open>The loop that copies the fixed occupancy into an indexed vector.\<close>

fun fill_base_counts :: "nat \<Rightarrow> (slot \<times> int) list \<Rightarrow> int list \<Rightarrow> int list" where
  "fill_base_counts t [] acc = acc"
| "fill_base_counts t ((slot, cnt) # bs) acc =
     fill_base_counts t bs (if 0 \<le> slot \<and> nat slot < t then acc[nat slot := cnt] else acc)"

definition solve_env_of :: "dp_solver \<Rightarrow> solve_batch_input \<Rightarrow> solve_env" where
  "solve_env_of dp inp =
     \<lparr>en_tiers = resolve_tiers inp,
      en_window_start = max (i32_sub (si_current_slot inp) (si_error_window_past inp)) 0,
      en_window_end = min (i32_add (si_current_slot inp) (si_error_window_future inp))
                          (i32_sub (dp_window_size dp) 1),
      en_base_counts = fill_base_counts (nat (dp_window_size dp)) (si_baseline_slot_counts inp)
                         (replicate (nat (dp_window_size dp)) 0),
      en_mock_error_bp = to_bp (mp_error_per_request (si_dynamic_mock_pool inp)),
      en_current_slot = si_current_slot inp,
      en_threshold = si_max_error_threshold inp,
      en_request_flavours = si_request_flavours inp\<rparr>"

definition initial_key :: "dp_solver \<Rightarrow> solve_batch_input \<Rightarrow> dp_key" where
  "initial_key dp inp =
     dp_key_new (to_bp (eb_error_sum (si_error_window_baseline inp)))
       (eb_request_count (si_error_window_baseline inp))
       (max (mp_initial_count (si_dynamic_mock_pool inp)) 0)
       (replicate (nat (dp_window_size dp)) 0)"

section \<open>Transitions\<close>

text \<open>
  The error accounting of placing a flavour in a slot: placements outside the window
  leave it unchanged; inside it, one synthetic request is consumed when there is one.
\<close>

definition dp_account :: "solve_env \<Rightarrow> dp_key \<Rightarrow> flavour \<Rightarrow> slot \<Rightarrow> int \<times> f64 \<times> int" where
  "dp_account env k f slot =
     (if en_window_start env \<le> slot \<and> slot \<le> en_window_end env
      then (if 0 < k_mock_remaining k \<and> 0 < en_mock_error_bp env
            then (k_error_sum_bp k + to_bp (fl_error f) - en_mock_error_bp env,
                  max (k_error_count k + 1 - 1) 0,
                  k_mock_remaining k - 1)
            else (k_error_sum_bp k + to_bp (fl_error f), k_error_count k + 1, k_mock_remaining k))
      else (k_error_sum_bp k, k_error_count k, k_mock_remaining k))"

definition dp_step_key :: "solve_env \<Rightarrow> dp_key \<Rightarrow> flavour \<Rightarrow> slot \<Rightarrow> dp_key" where
  "dp_step_key env k f slot =
     (let (es, ec, mr) = dp_account env k f slot
      in dp_key_new es ec mr
           ((k_inc_counts k)[nat slot := k_inc_counts k ! nat slot + 1]))"

definition within_threshold :: "f64 option \<Rightarrow> dp_key \<Rightarrow> bool" where
  "within_threshold threshold k =
     (case threshold of
        None \<Rightarrow> True
      | Some t \<Rightarrow> (let ec = k_error_count k
                 in ec = 0 \<or> real_of_int (k_error_sum_bp k) / 100 / ec \<le> t))"

type_synonym choice = "flavour \<times> slot"
type_synonym dp_entry = "f64 \<times> request_assignment list"
type_synonym dp_table = "(dp_key, dp_entry) hmap"

definition placed :: "solve_request \<Rightarrow> choice \<Rightarrow> f64 \<Rightarrow> request_assignment" where
  "placed r ch cost =
     \<lparr>ra_request_id = sr_request_id r, ra_flavour_name = fl_name (fst ch), ra_slot = snd ch,
      ra_carbon_cost = cost, ra_error = fl_error (fst ch)\<rparr>"

text \<open>The flavour loop around the slot loop.\<close>

definition choices :: "dp_solver \<Rightarrow> solve_env \<Rightarrow> solve_request \<Rightarrow> slot \<Rightarrow> choice list" where
  "choices dp env r deadline =
     concat (map (\<lambda>f. map (\<lambda>s. (f, s)) [earliest_of (en_current_slot env) r .. deadline])
       (flavours_for dp (sr_request_id r) (en_request_flavours env)))"

definition expand :: "dp_solver \<Rightarrow> solve_env \<Rightarrow> solve_request \<Rightarrow> dp_key \<times> dp_entry \<Rightarrow> choice
    \<Rightarrow> (dp_key \<times> dp_entry) option" where
  "expand dp env r = (\<lambda>(k, cost, path) (f, slot).
     (case incremental_carbon_cost dp slot (fl_duration f) (en_base_counts env) (k_inc_counts k)
             (en_tiers env) of
        None \<Rightarrow> None
      | Some delta \<Rightarrow>
          Some (dp_step_key env k f slot, cost + delta, path @ [placed r (f, slot) delta])))"

text \<open>Keep the cheaper of two paths that reach the same accounting state.\<close>

definition relax :: "dp_table \<Rightarrow> dp_key \<times> dp_entry \<Rightarrow> dp_table" where
  "relax tbl = (\<lambda>(k, cost, path).
     (case map_of tbl k of
        None \<Rightarrow> hm_insert k (cost, path) tbl
      | Some (c, _) \<Rightarrow> if cost < c then hm_insert k (cost, path) tbl else tbl))"

definition dp_layer :: "dp_solver \<Rightarrow> solve_env \<Rightarrow> solve_request \<Rightarrow> slot \<Rightarrow> dp_table \<Rightarrow> dp_table option" where
  "dp_layer dp env r deadline tbl =
     map_option (foldl relax [])
       (collect_all (\<lambda>(st, ch). expand dp env r st ch)
          (concat (map (\<lambda>st. map (\<lambda>ch. (st, ch)) (choices dp env r deadline)) tbl)))"

section \<open>The sequential warm start\<close>

text \<open>
  A scan over the candidates of one request. \<open>ss_best\<close> is the cheapest candidate that
  keeps the window average within the threshold, \<open>ss_fallback\<close> the cheapest slot of the
  most accurate flavour. The code recognises that flavour by its address, which is its
  index here.
\<close>

record seq_scan =
  ss_best :: "(f64 \<times> flavour \<times> slot) option"
  ss_fallback :: "(f64 \<times> slot) option"

definition min_error_index :: "flavour list \<Rightarrow> nat option" where
  "min_error_index fs = min_by_key (\<lambda>i. fl_error (fs ! i)) [0..<length fs]"

definition projection_exceeds :: "solve_env \<Rightarrow> dp_key \<Rightarrow> flavour \<Rightarrow> slot \<Rightarrow> bool" where
  "projection_exceeds env k f slot =
     (case en_threshold env of
        None \<Rightarrow> False
      | Some t \<Rightarrow>
         en_window_start env \<le> slot \<and> slot \<le> en_window_end env
         \<and> (let (es, ec, _) = dp_account env k f slot
            in 0 < ec \<and> t < real_of_int es / 100 / ec))"

definition cheaper :: "f64 \<Rightarrow> ('a \<Rightarrow> f64) \<Rightarrow> 'a option \<Rightarrow> bool" where
  "cheaper cost key best = (case best of None \<Rightarrow> True | Some b \<Rightarrow> cost < key b)"

definition seq_candidate ::
    "dp_solver \<Rightarrow> solve_env \<Rightarrow> dp_key \<Rightarrow> nat \<Rightarrow> seq_scan \<Rightarrow> nat \<times> choice \<Rightarrow> seq_scan option" where
  "seq_candidate dp env k min_idx sc = (\<lambda>(i, f, slot).
     (case incremental_carbon_cost dp slot (fl_duration f) (en_base_counts env) (k_inc_counts k)
             (en_tiers env) of
        None \<Rightarrow> None
      | Some cost \<Rightarrow>
         (let sc1 = (if i = min_idx \<and> cheaper cost fst (ss_fallback sc)
                     then sc\<lparr>ss_fallback := Some (cost, slot)\<rparr> else sc)
          in Some (if projection_exceeds env k f slot then sc1
                   else if cheaper cost fst (ss_best sc1)
                   then sc1\<lparr>ss_best := Some (cost, f, slot)\<rparr> else sc1))))"

definition indexed_choices ::
    "dp_solver \<Rightarrow> solve_env \<Rightarrow> solve_request \<Rightarrow> slot \<Rightarrow> (nat \<times> choice) list" where
  "indexed_choices dp env r deadline =
     (let fs = flavours_for dp (sr_request_id r) (en_request_flavours env)
      in concat (map (\<lambda>i. map (\<lambda>s. (i, fs ! i, s)) [earliest_of (en_current_slot env) r .. deadline])
           [0..<length fs]))"

definition seq_choose ::
    "dp_solver \<Rightarrow> solve_env \<Rightarrow> dp_key \<Rightarrow> solve_request \<Rightarrow> slot
     \<Rightarrow> (f64 \<times> flavour \<times> slot) option option" where
  "seq_choose dp env k r deadline =
     (let fs = flavours_for dp (sr_request_id r) (en_request_flavours env)
      in case min_error_index fs of
        None \<Rightarrow> None
      | Some mi \<Rightarrow>
         (case fold_opt (seq_candidate dp env k mi) \<lparr>ss_best = None, ss_fallback = None\<rparr>
                 (indexed_choices dp env r deadline) of
            None \<Rightarrow> None
          | Some sc \<Rightarrow> Some (case ss_best sc of
                Some b \<Rightarrow> Some b
              | None \<Rightarrow> map_option (\<lambda>(cost, slot). (cost, fs ! mi, slot)) (ss_fallback sc))))"

text \<open>
  The assignments and the keys before the first and after each request; a request
  without any candidate slot ends the loop with no assignments.
\<close>

fun seq_loop ::
    "dp_solver \<Rightarrow> solve_env \<Rightarrow> (solve_request \<times> slot) list \<Rightarrow> dp_key \<Rightarrow> dp_key list
     \<Rightarrow> request_assignment list \<Rightarrow> (request_assignment list \<times> dp_key list) option" where
  "seq_loop dp env [] k keys acc = Some (acc, keys)"
| "seq_loop dp env ((r, d) # rs) k keys acc =
     (case seq_choose dp env k r d of
        None \<Rightarrow> None
      | Some None \<Rightarrow> Some ([], keys)
      | Some (Some (cost, f, slot)) \<Rightarrow>
          (let k' = dp_step_key env k f slot
           in seq_loop dp env rs k' (keys @ [k']) (acc @ [placed r (f, slot) cost])))"

definition compute_sequential_solution ::
    "dp_solver \<Rightarrow> solve_env \<Rightarrow> (solve_request \<times> slot) list \<Rightarrow> dp_key
     \<Rightarrow> (request_assignment list \<times> dp_key list) option" where
  "compute_sequential_solution dp env rs k0 = seq_loop dp env rs k0 [k0] []"

section \<open>Pruning\<close>

definition avg_error_of :: "dp_key \<Rightarrow> f64" where
  "avg_error_of k =
     (if 0 < k_error_count k then real_of_int (k_error_sum_bp k) / k_error_count k else 0)"

text \<open>\<open>sort_unstable_by\<close> after an arbitrary iteration order: any order that is sorted.\<close>

definition sort_items :: "string \<Rightarrow> dp_table \<Rightarrow> dp_table" where
  "sort_items pruning items =
     (if pruning = ''beam'' then sort_key (\<lambda>(k, cost, path). cost) items
      else sort_key (\<lambda>(k, cost, path). (cost, avg_error_of k)) items)"

fun position :: "('a \<Rightarrow> bool) \<Rightarrow> 'a list \<Rightarrow> nat option" where
  "position P [] = None"
| "position P (x # xs) = (if P x then Some 0 else map_option Suc (position P xs))"

definition trim :: "nat \<Rightarrow> dp_key \<Rightarrow> dp_table \<Rightarrow> dp_table" where
  "trim pruning_k warm_key items =
     (let warm_idx = position (\<lambda>(k, _). k = warm_key) items;
          take_n = (case warm_idx of
              Some i \<Rightarrow> if pruning_k \<le> i then pruning_k - 1 else pruning_k
            | None \<Rightarrow> pruning_k);
          trimmed = take (min take_n (length items)) items;
          rest = drop (min take_n (length items)) items
      in case warm_idx of
        None \<Rightarrow> trimmed
      | Some wi \<Rightarrow>
         (if pruning_k \<le> wi \<and> wi < take_n + length rest
          then (case rest ! (wi - take_n) of (k, v) \<Rightarrow> hm_insert k v trimmed)
          else trimmed))"

definition prune_layer ::
    "dp_solver \<Rightarrow> dp_key list \<Rightarrow> nat \<Rightarrow> dp_table \<Rightarrow> dp_table \<Rightarrow> dp_table option" where
  "prune_layer dp warm_keys req_idx cur iterated =
     (if (dp_pruning dp = ''beam'' \<or> dp_pruning dp = ''kbest'') \<and> dp_pruning_k dp < length cur
      then (if req_idx + 1 < length warm_keys
            then Some (trim (dp_pruning_k dp) (warm_keys ! (req_idx + 1))
                        (sort_items (dp_pruning dp) iterated))
            else None)
      else Some cur)"

section \<open>The layered search\<close>

type_synonym iteration_order = "nat \<Rightarrow> dp_table \<Rightarrow> dp_table"

text \<open>\<open>Inl\<close> is an early return of the answer, \<open>Inr\<close> the table after the last layer.\<close>

fun dp_loop ::
    "dp_solver \<Rightarrow> solve_env \<Rightarrow> iteration_order \<Rightarrow> (nat \<Rightarrow> bool) \<Rightarrow> request_assignment list
     \<Rightarrow> dp_key list \<Rightarrow> nat \<Rightarrow> (solve_request \<times> slot) list \<Rightarrow> dp_table
     \<Rightarrow> (request_assignment list + dp_table) option" where
  "dp_loop dp env ord timed_out warm_answer warm_keys n [] tbl = Some (Inr tbl)"
| "dp_loop dp env ord timed_out warm_answer warm_keys n ((r, d) # rs) tbl =
     (case dp_layer dp env r d tbl of
        None \<Rightarrow> None
      | Some cur \<Rightarrow>
         (if cur = [] then Some (Inl warm_answer)
          else case prune_layer dp warm_keys n cur (ord (2 * n) cur) of
            None \<Rightarrow> None
          | Some kept \<Rightarrow>
             (if timed_out n then Some (Inl warm_answer)
              else dp_loop dp env ord timed_out warm_answer warm_keys (n + 1) rs
                     (ord (2 * n + 1) kept))))"

definition final_answer :: "f64 option \<Rightarrow> request_assignment list \<Rightarrow> dp_table \<Rightarrow> request_assignment list" where
  "final_answer threshold warm_answer tbl =
     (let kept = filter (\<lambda>(k, _). within_threshold threshold k) tbl
      in if threshold \<noteq> None \<and> kept = [] then []
         else case min_by_key (\<lambda>(k, cost, path). cost) kept of
           Some (_, _, path) \<Rightarrow> path
         | None \<Rightarrow> warm_answer)"

definition warm_is_feasible :: "f64 option \<Rightarrow> dp_key list \<Rightarrow> bool" where
  "warm_is_feasible threshold warm_keys =
     (case threshold of None \<Rightarrow> True
      | Some t \<Rightarrow> warm_keys = [] \<or> within_threshold threshold (last warm_keys))"

definition solve_batch ::
    "dp_solver \<Rightarrow> iteration_order \<Rightarrow> (nat \<Rightarrow> bool) \<Rightarrow> solve_batch_input
     \<Rightarrow> request_assignment list option" where
  "solve_batch dp ord timed_out inp =
     (if si_requests inp = [] then Some []
      else if dp_window_size dp \<le> si_current_slot inp then Some []
      else let rs = zip (si_requests inp) (solve_deadlines dp inp)
      in if \<exists>(r, d) \<in> set rs. d < earliest_of (si_current_slot inp) r then Some []
      else if dp_window_size dp < 0 then None
      else let env = solve_env_of dp inp; k0 = initial_key dp inp;
               threshold = si_max_error_threshold inp
      in case compute_sequential_solution dp env rs k0 of
        None \<Rightarrow> None
      | Some (warm_assignments, warm_keys) \<Rightarrow>
         (let warm_answer =
                (if warm_is_feasible threshold warm_keys then warm_assignments else [])
          in case dp_loop dp env ord timed_out warm_answer warm_keys 0 rs [(k0, 0, [])] of
            None \<Rightarrow> None
          | Some (Inl answer) \<Rightarrow> Some answer
          | Some (Inr tbl) \<Rightarrow> Some (final_answer threshold warm_answer tbl)))"

section \<open>Greedy fallback\<close>

text \<open>The slot loop for one request: the cheapest slot, the first of several.\<close>

fun fallback_scan ::
    "dp_solver \<Rightarrow> f64 \<Rightarrow> int list \<Rightarrow> int list \<Rightarrow> capacity_tier list \<Rightarrow> slot list
     \<Rightarrow> (f64 \<times> slot) option \<Rightarrow> (f64 \<times> slot) option option" where
  "fallback_scan dp dur base inc tiers [] best = Some best"
| "fallback_scan dp dur base inc tiers (s # ss) best =
     (case incremental_carbon_cost dp s dur base inc tiers of
        None \<Rightarrow> None
      | Some cost \<Rightarrow>
          fallback_scan dp dur base inc tiers ss
            (if cheaper cost fst best then Some (cost, s) else best))"

fun fallback_loop ::
    "dp_solver \<Rightarrow> slot \<Rightarrow> capacity_tier list \<Rightarrow> flavour_overrides \<Rightarrow> solve_request list
     \<Rightarrow> int list \<Rightarrow> request_assignment list \<Rightarrow> request_assignment list option" where
  "fallback_loop dp current tiers overrides [] inc acc = Some acc"
| "fallback_loop dp current tiers overrides (r # rs) inc acc =
     (let deadline = min (max (sr_deadline_slot r) current) (i32_sub (dp_window_size dp) 1)
      in case max_by_key fl_duration (flavours_for dp (sr_request_id r) overrides) of
        None \<Rightarrow> None
      | Some f \<Rightarrow>
         (if dp_window_size dp < 0 then None
          else case fallback_scan dp (fl_duration f) (replicate (nat (dp_window_size dp)) 0) inc tiers
                      [earliest_of current r .. deadline] None of
            None \<Rightarrow> None
          | Some None \<Rightarrow> fallback_loop dp current tiers overrides rs inc acc
          | Some (Some (cost, s)) \<Rightarrow>
              fallback_loop dp current tiers overrides rs (inc[nat s := inc ! nat s + 1])
                (acc @ [placed r (f, s) cost])))"

definition greedy_fallback ::
    "dp_solver \<Rightarrow> solve_request list \<Rightarrow> slot \<Rightarrow> capacity_tier list \<Rightarrow> int list \<Rightarrow> flavour_overrides
     \<Rightarrow> request_assignment list option" where
  "greedy_fallback dp requests current tiers base_counts overrides =
     fallback_loop dp current tiers overrides requests base_counts []"

section \<open>Plans: the reference semantics\<close>

text \<open>
  A plan chooses a flavour and a slot for every request. Running it performs the
  transitions of the search in order; \<open>plans\<close> enumerates all legal ones. The theorems
  compare what the search returns with these.
\<close>

fun run_plan ::
    "dp_solver \<Rightarrow> solve_env \<Rightarrow> (solve_request \<times> slot) list \<Rightarrow> choice list \<Rightarrow> dp_key \<times> dp_entry
     \<Rightarrow> (dp_key \<times> dp_entry) option" where
  "run_plan dp env [] [] st = Some st"
| "run_plan dp env ((r, d) # rs) (ch # chs) st =
     (case expand dp env r st ch of None \<Rightarrow> None | Some st' \<Rightarrow> run_plan dp env rs chs st')"
| "run_plan dp env _ _ st = None"

definition plans :: "dp_solver \<Rightarrow> solve_env \<Rightarrow> (solve_request \<times> slot) list \<Rightarrow> choice list list" where
  "plans dp env rs = product_lists (map (\<lambda>(r, d). choices dp env r d) rs)"

definition outcomes ::
    "dp_solver \<Rightarrow> solve_env \<Rightarrow> (solve_request \<times> slot) list \<Rightarrow> dp_key \<Rightarrow> (dp_key \<times> dp_entry) set" where
  "outcomes dp env rs k0 =
     {st. \<exists>plan\<in>set (plans dp env rs). run_plan dp env rs plan (k0, 0, []) = Some st}"

definition total_cost :: "request_assignment list \<Rightarrow> f64" where
  "total_cost as = sum_list (map ra_carbon_cost as)"

lemma run_plan_append:
  "length rs = length plan \<Longrightarrow>
   run_plan dp env (rs @ rs') (plan @ plan') st =
     (case run_plan dp env rs plan st of None \<Rightarrow> None | Some st' \<Rightarrow> run_plan dp env rs' plan' st')"
  by (induction rs plan arbitrary: st rule: list_induct2) (auto split: option.splits)

lemma run_plan_length: "run_plan dp env rs plan st = Some st' \<Longrightarrow> length plan = length rs"
  by (induction dp env rs plan st rule: run_plan.induct) (auto split: option.splits)

lemma plans_length: "plan \<in> set (plans dp env rs) \<Longrightarrow> length plan = length rs"
  by (auto simp: plans_def dest: in_set_product_lists_length)

lemma plans_Nil [simp]: "plans dp env [] = [[]]"
  by (simp add: plans_def)

lemma plans_iff:
  "plan \<in> set (plans dp env rs) \<longleftrightarrow> list_all2 (\<lambda>ch (r, d). ch \<in> set (choices dp env r d)) plan rs"
  unfolding plans_def product_lists_set
  by (auto simp: list_all2_map2 list_all2_conv_all_nth case_prod_unfold)

lemma plans_snoc:
  "plan \<in> set (plans dp env (rs @ [(r, d)])) \<longleftrightarrow>
     (\<exists>p ch. plan = p @ [ch] \<and> p \<in> set (plans dp env rs) \<and> ch \<in> set (choices dp env r d))"
proof (cases plan rule: rev_cases)
  case Nil
  then show ?thesis by (auto simp: plans_iff dest: list_all2_lengthD)
next
  case (snoc p ch)
  have "list_all2 P (p @ [ch]) (rs @ [(r, d)]) \<longleftrightarrow> list_all2 P p rs \<and> P ch (r, d)" for P
    unfolding list_all2_conv_all_nth by (auto simp: nth_append less_Suc_eq)
  then show ?thesis by (simp add: snoc plans_iff)
qed

lemma outcomes_snoc:
  "outcomes dp env (rs @ [(r, d)]) k0 =
     {st'. \<exists>st\<in>outcomes dp env rs k0. \<exists>ch\<in>set (choices dp env r d). expand dp env r st ch = Some st'}"
proof (rule set_eqI)
  fix st'
  have run: "run_plan dp env (rs @ [(r, d)]) (p @ [ch]) st0 = Some st' \<longleftrightarrow>
      (\<exists>st. run_plan dp env rs p st0 = Some st \<and> expand dp env r st ch = Some st')"
    if "p \<in> set (plans dp env rs)" for p ch st0
    using plans_length [OF that] by (auto simp: run_plan_append split: option.splits)
  have "st' \<in> outcomes dp env (rs @ [(r, d)]) k0 \<longleftrightarrow>
      (\<exists>p\<in>set (plans dp env rs). \<exists>ch\<in>set (choices dp env r d).
         run_plan dp env (rs @ [(r, d)]) (p @ [ch]) (k0, 0, []) = Some st')"
    by (fastforce simp: outcomes_def plans_snoc)
  also have "\<dots> \<longleftrightarrow> (\<exists>p\<in>set (plans dp env rs). \<exists>ch\<in>set (choices dp env r d).
         \<exists>st. run_plan dp env rs p (k0, 0, []) = Some st \<and> expand dp env r st ch = Some st')"
    by (intro bex_cong refl) (rule run)
  also have "\<dots> \<longleftrightarrow> st' \<in> {st'. \<exists>st\<in>outcomes dp env rs k0. \<exists>ch\<in>set (choices dp env r d).
         expand dp env r st ch = Some st'}"
    unfolding outcomes_def by blast
  finally show "st' \<in> outcomes dp env (rs @ [(r, d)]) k0 \<longleftrightarrow> \<dots>" .
qed

lemma outcomes_Nil [simp]: "outcomes dp env [] k0 = {(k0, 0, [])}"
  by (auto simp: outcomes_def)

text \<open>What a transition adds depends only on the key it starts from.\<close>

lemma expand_shift:
  assumes "expand dp env r (k, c, p) ch = Some (k', c', p')"
  shows "expand dp env r (k, d, q) ch = Some (k', d + (c' - c), q @ drop (length p) p')"
  using assms by (cases ch) (auto simp: expand_def split: option.splits)

lemma expand_cost:
  "expand dp env r (k, c, p) ch = Some (k', c', p') \<Longrightarrow> c = total_cost p \<Longrightarrow> c' = total_cost p'"
  by (cases ch) (auto simp: expand_def total_cost_def placed_def split: option.splits)

lemma outcomes_cost: "(k, c, p) \<in> outcomes dp env rs k0 \<Longrightarrow> c = total_cost p"
proof (induction rs arbitrary: k c p rule: rev_induct)
  case Nil
  then show ?case by (simp add: total_cost_def)
next
  case (snoc rd rs)
  obtain r d where rd: "rd = (r, d)" by (cases rd) auto
  obtain k1 c1 p1 ch where "(k1, c1, p1) \<in> outcomes dp env rs k0"
    and "expand dp env r (k1, c1, p1) ch = Some (k, c, p)"
    using snoc.prems unfolding rd outcomes_snoc by auto
  with snoc.IH expand_cost show ?case by blast
qed

section \<open>Tables\<close>

lemma relax_wf: "hm_wf tbl \<Longrightarrow> hm_wf (relax tbl cand)"
  by (cases cand) (auto simp: relax_def split: option.splits)

lemma relax_lookup:
  "map_of (relax tbl (k, c, p)) = (map_of tbl)(k \<mapsto>
     (case map_of tbl k of None \<Rightarrow> (c, p) | Some (c', p') \<Rightarrow> if c < c' then (c, p) else (c', p')))"
  by (auto simp: relax_def map_simps fun_eq_iff split: option.splits)

lemma relax_fold_wf: "hm_wf tbl \<Longrightarrow> hm_wf (foldl relax tbl cands)"
  by (induction cands arbitrary: tbl) (auto simp: relax_wf)

lemma relax_fold_sound:
  "map_of (foldl relax tbl cands) k = Some e \<Longrightarrow> map_of tbl k = Some e \<or> (k, e) \<in> set cands"
proof (induction cands arbitrary: tbl)
  case (Cons cand cands)
  obtain k' c p where cand: "cand = (k', c, p)" by (cases cand) auto
  from Cons.IH [of "relax tbl cand"] Cons.prems show ?case
    by (auto simp: cand relax_lookup split: if_splits option.splits)
qed simp

lemma relax_fold_keeps:
  "map_of tbl k = Some (c, p) \<Longrightarrow> \<exists>c' p'. map_of (foldl relax tbl cands) k = Some (c', p') \<and> c' \<le> c"
proof (induction cands arbitrary: tbl c p)
  case (Cons cand cands)
  obtain k' c1 p1 where cand: "cand = (k', c1, p1)" by (cases cand) auto
  have "\<exists>c2 p2. map_of (relax tbl cand) k = Some (c2, p2) \<and> c2 \<le> c"
    using Cons.prems by (auto simp: cand relax_lookup)
  then obtain c2 p2 where "map_of (relax tbl cand) k = Some (c2, p2)" "c2 \<le> c" by blast
  with Cons.IH [of "relax tbl cand" c2 p2] show ?case by fastforce
qed auto

lemma relax_fold_complete:
  "(k, c, p) \<in> set cands \<Longrightarrow> \<exists>c' p'. map_of (foldl relax tbl cands) k = Some (c', p') \<and> c' \<le> c"
proof (induction cands arbitrary: tbl)
  case (Cons cand cands)
  show ?case
  proof (cases "cand = (k, c, p)")
    case True
    have "\<exists>c2 p2. map_of (relax tbl cand) k = Some (c2, p2) \<and> c2 \<le> c"
      by (auto simp: True relax_lookup split: option.splits)
    then obtain c2 p2 where "map_of (relax tbl cand) k = Some (c2, p2)" "c2 \<le> c" by blast
    with relax_fold_keeps [of "relax tbl cand" k c2 p2 cands] show ?thesis by fastforce
  next
    case False
    with Cons show ?thesis by simp
  qed
qed simp

text \<open>A table covers an outcome when it holds the same state at most as dear.\<close>

definition covers :: "dp_table \<Rightarrow> dp_key \<times> dp_entry \<Rightarrow> bool" where
  "covers tbl st \<longleftrightarrow> (\<exists>c p. (fst st, c, p) \<in> set tbl \<and> c \<le> fst (snd st))"

lemma dp_layer_spec:
  assumes "dp_layer dp env r d tbl = Some cur"
  shows "hm_wf cur"
    and "st' \<in> set cur \<Longrightarrow> \<exists>st\<in>set tbl. \<exists>ch\<in>set (choices dp env r d). expand dp env r st ch = Some st'"
    and "st \<in> set tbl \<Longrightarrow> ch \<in> set (choices dp env r d) \<Longrightarrow> expand dp env r st ch = Some st'
      \<Longrightarrow> covers cur st'"
proof -
  let ?pairs = "concat (map (\<lambda>st. map (\<lambda>ch. (st, ch)) (choices dp env r d)) tbl)"
  obtain cands where cands: "collect_all (\<lambda>(st, ch). expand dp env r st ch) ?pairs = Some cands"
    and cur: "cur = foldl relax [] cands"
    using assms by (auto simp: dp_layer_def)
  have mem: "y \<in> set cands \<longleftrightarrow>
      (\<exists>st\<in>set tbl. \<exists>ch\<in>set (choices dp env r d). expand dp env r st ch = Some y)" for y
    using collect_all_mem [OF cands, of y] by auto
  show wf: "hm_wf cur" unfolding cur by (rule relax_fold_wf) simp
  show "\<exists>st\<in>set tbl. \<exists>ch\<in>set (choices dp env r d). expand dp env r st ch = Some st'"
    if "st' \<in> set cur"
  proof -
    obtain k e where st': "st' = (k, e)" by (cases st') auto
    have "map_of cur k = Some e" using that wf by (simp add: st' hm_binding_iff)
    then have "st' \<in> set cands" using relax_fold_sound [of "[]" cands k e] by (simp add: cur st')
    then show ?thesis by (simp add: mem)
  qed
  show "covers cur st'"
    if "st \<in> set tbl" "ch \<in> set (choices dp env r d)" "expand dp env r st ch = Some st'"
  proof -
    obtain k c p where st': "st' = (k, c, p)" by (cases st') auto
    have "(k, c, p) \<in> set cands" using that mem st' by blast
    then obtain c' p' where "map_of cur k = Some (c', p')" "c' \<le> c"
      using relax_fold_complete [of k c p cands "[]"] by (auto simp: cur)
    then show ?thesis using wf by (auto simp: covers_def st' dest: map_of_SomeD)
  qed
qed

section \<open>Transitions never panic on well-formed inputs\<close>

definition key_fits :: "solve_env \<Rightarrow> dp_key \<Rightarrow> bool" where
  "key_fits env k \<longleftrightarrow> length (k_inc_counts k) = length (en_base_counts env)"

definition request_fits :: "dp_solver \<Rightarrow> solve_env \<Rightarrow> solve_request \<times> slot \<Rightarrow> bool" where
  "request_fits dp env = (\<lambda>(r, d).
     flavours_for dp (sr_request_id r) (en_request_flavours env) \<noteq> []
     \<and> 0 \<le> earliest_of (en_current_slot env) r \<and> earliest_of (en_current_slot env) r \<le> d
     \<and> nat d < length (en_base_counts env))"

definition env_fits :: "dp_solver \<Rightarrow> solve_env \<Rightarrow> bool" where
  "env_fits dp env \<longleftrightarrow> length (en_base_counts env) \<le> length (dp_carbon_forecast dp)"

lemma key_fits_step [simp]: "key_fits env (dp_step_key env k f s) = key_fits env k"
  by (simp add: key_fits_def dp_step_key_def dp_key_new_def dp_account_def)

lemma choices_mem:
  "(f, s) \<in> set (choices dp env r d) \<longleftrightarrow>
     f \<in> set (flavours_for dp (sr_request_id r) (en_request_flavours env))
     \<and> earliest_of (en_current_slot env) r \<le> s \<and> s \<le> d"
  by (auto simp: choices_def image_iff)

lemma choices_nonempty: "request_fits dp env (r, d) \<Longrightarrow> choices dp env r d \<noteq> []"
proof -
  assume fits: "request_fits dp env (r, d)"
  then obtain f where "f \<in> set (flavours_for dp (sr_request_id r) (en_request_flavours env))"
    by (cases "flavours_for dp (sr_request_id r) (en_request_flavours env)")
      (auto simp: request_fits_def)
  with fits have "(f, d) \<in> set (choices dp env r d)" by (simp add: choices_mem request_fits_def)
  then show ?thesis by auto
qed

lemma marginal_total:
  assumes "env_fits dp env" and "request_fits dp env (r, d)" and "key_fits env k"
    and "earliest_of (en_current_slot env) r \<le> s" and "s \<le> d"
  obtains c where "incremental_carbon_cost dp s dur (en_base_counts env) (k_inc_counts k) (en_tiers env) = Some c"
proof -
  have "0 \<le> s" "nat s < length (en_base_counts env)"
    using assms by (auto simp: request_fits_def)
  with assms that show ?thesis
    by (auto simp: incremental_carbon_cost_def Let_def env_fits_def key_fits_def)
qed

lemma expand_total:
  assumes "env_fits dp env" and "request_fits dp env (r, d)" and "key_fits env (fst st)"
    and "ch \<in> set (choices dp env r d)"
  obtains st' where "expand dp env r st ch = Some st'" and "key_fits env (fst st')"
proof -
  obtain k c p f s where st: "st = (k, c, p)" "ch = (f, s)" by (cases st; cases ch) auto
  have "earliest_of (en_current_slot env) r \<le> s" "s \<le> d" using assms(4) by (simp_all add: st choices_mem)
  then obtain x where "incremental_carbon_cost dp s (fl_duration f) (en_base_counts env)
      (k_inc_counts k) (en_tiers env) = Some x"
    using marginal_total [OF assms(1,2), where k = k and s = s and dur = "fl_duration f"] assms(3)
    by (auto simp: st)
  with assms(3) that show ?thesis by (simp add: expand_def st)
qed

lemma expand_fits:
  "expand dp env r st ch = Some st' \<Longrightarrow> key_fits env (fst st') = key_fits env (fst st)"
  by (cases st; cases ch) (auto simp: expand_def split: option.splits)

lemma dp_layer_total:
  assumes "env_fits dp env" and "request_fits dp env (r, d)"
    and "\<And>st. st \<in> set tbl \<Longrightarrow> key_fits env (fst st)"
  obtains cur where "dp_layer dp env r d tbl = Some cur"
proof -
  let ?pairs = "concat (map (\<lambda>st. map (\<lambda>ch. (st, ch)) (choices dp env r d)) tbl)"
  have "collect_all (\<lambda>(st, ch). expand dp env r st ch) ?pairs
      = Some (map (\<lambda>(st, ch). the (expand dp env r st ch)) ?pairs)"
  proof (rule collect_all_total)
    fix x assume "x \<in> set ?pairs"
    then obtain st ch where x: "x = (st, ch)" "st \<in> set tbl" "ch \<in> set (choices dp env r d)" by auto
    obtain st' where "expand dp env r st ch = Some st'"
      using expand_total [OF assms(1,2) assms(3) [OF x(2)] x(3)] .
    then show "(\<lambda>(st, ch). expand dp env r st ch) x
        = Some ((\<lambda>(st, ch). the (expand dp env r st ch)) x)" by (simp add: x(1))
  qed
  with that show ?thesis by (simp add: dp_layer_def)
qed

lemma dp_layer_covers:
  assumes "dp_layer dp env r d tbl = Some cur" and "covers tbl st"
    and "ch \<in> set (choices dp env r d)" and "expand dp env r st ch = Some st'"
  shows "covers cur st'"
proof -
  obtain k c p k' c' p' where st: "st = (k, c, p)" "st' = (k', c', p')" by (cases st; cases st') auto
  obtain c2 p2 where e: "(k, c2, p2) \<in> set tbl" "c2 \<le> c"
    using assms(2) by (auto simp: covers_def st)
  have "expand dp env r (k, c2, p2) ch = Some (k', c2 + (c' - c), p2 @ drop (length p) p')"
    using assms(4) unfolding st by (rule expand_shift)
  then have "covers cur (k', c2 + (c' - c), p2 @ drop (length p) p')"
    using dp_layer_spec(3) [OF assms(1) e(1) assms(3)] by blast
  with e(2) show ?thesis by (fastforce simp: covers_def st)
qed

section \<open>Pruning keeps the incumbent\<close>

lemma position_Some:
  "position P xs = Some i \<Longrightarrow> i < length xs \<and> P (xs ! i)"
  by (induction xs arbitrary: i) (auto split: if_splits)

lemma position_exists: "x \<in> set xs \<Longrightarrow> P x \<Longrightarrow> \<exists>i. position P xs = Some i"
  by (induction xs) auto

lemma trim_cases:
  "trim n wk items = take (min m (length items)) items \<or>
   (\<exists>k v. (k, v) \<in> set (drop (min m (length items)) items)
      \<and> trim n wk items = hm_insert k v (take (min m (length items)) items))"
  if "m = (case position (\<lambda>(k, _). k = wk) items of
        Some i \<Rightarrow> if n \<le> i then n - 1 else n | None \<Rightarrow> n)"
proof (cases "position (\<lambda>(k, _). k = wk) items")
  case None
  then show ?thesis using that by (simp add: trim_def Let_def)
next
  case (Some wi)
  let ?rest = "drop (min m (length items)) items"
  show ?thesis
  proof (cases "n \<le> wi \<and> wi < m + length ?rest")
    case True
    obtain k v where kv: "?rest ! (wi - m) = (k, v)" by (cases "?rest ! (wi - m)") auto
    have "wi < length items" using position_Some [OF Some] by simp
    moreover have "m \<le> wi" using True that Some by auto
    ultimately have "wi - m < length ?rest" using True by simp
    then have "(k, v) \<in> set ?rest" using kv by (metis nth_mem)
    moreover have "trim n wk items = hm_insert k v (take (min m (length items)) items)"
    proof -
      have mm: "m = n - 1" and le: "n \<le> wi" using True Some that by simp_all
      have lt: "wi < n - 1 + length (drop (min (n - 1) (length items)) items)"
        using True by (simp add: mm)
      have "drop (min (n - 1) (length items)) items ! (wi - (n - 1)) = (k, v)"
        using kv by (simp add: mm)
      then show ?thesis by (simp add: trim_def Let_def Some mm le lt del: length_drop nth_drop One_nat_def)
    qed
    ultimately show ?thesis by blast
  next
    case False
    then show ?thesis using Some that by (simp add: trim_def Let_def)
  qed
qed

lemma hm_insert_mem: "(k, v) \<in> set (hm_insert k v m)"
  by (induction m) auto

lemma insert_fresh_set:
  "k \<notin> fst ` set m \<Longrightarrow> set (hm_insert k v m) = insert (k, v) (set m)"
  by (induction m) auto

lemma take_drop_fresh:
  assumes "hm_wf items" and "(k, v) \<in> set (drop m items)"
  shows "k \<notin> fst ` set (take m items)"
proof -
  have "distinct (map fst (take m items) @ map fst (drop m items))"
    using assms(1) unfolding hm_wf_def by (simp flip: map_append)
  then show ?thesis using assms(2) by force
qed

lemma trim_subset:
  assumes "hm_wf items"
  shows "set (trim n wk items) \<subseteq> set items" and "hm_wf (trim n wk items)"
proof -
  define m where "m = (case position (\<lambda>(k, _). k = wk) items of
        Some i \<Rightarrow> if n \<le> i then n - 1 else n | None \<Rightarrow> n)"
  let ?m = "min m (length items)"
  have wf: "hm_wf (take ?m items)"
    using assms unfolding hm_wf_def take_map [symmetric] by (rule distinct_take)
  show "hm_wf (trim n wk items)" using trim_cases [OF m_def] wf by auto
  show "set (trim n wk items) \<subseteq> set items"
    using trim_cases [OF m_def]
  proof (elim disjE exE conjE)
    fix k v assume kv: "(k, v) \<in> set (drop ?m items)"
      and eq: "trim n wk items = hm_insert k v (take ?m items)"
    show ?thesis
      using kv unfolding eq insert_fresh_set [OF take_drop_fresh [OF assms kv]]
      by (auto dest: in_set_takeD in_set_dropD)
  qed (auto dest: in_set_takeD)
qed

lemma trim_keeps:
  assumes wf: "hm_wf items" and mem: "(wk, e) \<in> set items"
  shows "(wk, e) \<in> set (trim n wk items)"
proof -
  obtain i where i: "position (\<lambda>(k, _). k = wk) items = Some i"
    using position_exists [OF mem, of "\<lambda>(k, _). k = wk"] by auto
  note len = position_Some [OF i]
  have nth: "items ! i = (wk, e)"
  proof -
    obtain e' where e': "items ! i = (wk, e')" using len by (cases "items ! i") auto
    then have "(wk, e') \<in> set items" using len by (metis nth_mem)
    then show ?thesis using e' mem wf by (simp add: hm_binding_iff)
  qed
  show ?thesis
  proof (cases "n \<le> i")
    case False
    then have "trim n wk items = take (min n (length items)) items"
      using i by (simp add: trim_def Let_def)
    moreover have "take (min n (length items)) items ! i = (wk, e)" and "i < min n (length items)"
      using False len nth by simp_all
    ultimately show ?thesis by (metis length_take min.cobounded2 min.absorb2 nth_mem)
  next
    case True
    let ?m = "min (n - 1) (length items)"
    have le: "n - 1 \<le> i" and m: "?m = n - 1" using True len by linarith+
    have rest: "drop ?m items ! (i - (n - 1)) = (wk, e)"
      using nth le len by (simp add: m)
    have cond: "i < n - 1 + length (drop ?m items)" using len le by (simp add: m)
    have "trim n wk items = hm_insert wk e (take ?m items)"
      using True i rest cond by (simp add: trim_def Let_def)
    then show ?thesis by (simp add: hm_insert_mem)
  qed
qed

section \<open>The warm start is a plan\<close>

text \<open>A chain of states, each reached from the one before by a legal choice.\<close>

fun chain :: "dp_solver \<Rightarrow> solve_env \<Rightarrow> (solve_request \<times> slot) list \<Rightarrow> (dp_key \<times> dp_entry) list \<Rightarrow> bool" where
  "chain dp env [] [w] = True"
| "chain dp env ((r, d) # rs) (w # w' # ws) =
     ((\<exists>ch\<in>set (choices dp env r d). expand dp env r w ch = Some w') \<and> chain dp env rs (w' # ws))"
| "chain dp env _ _ = False"

lemma indexed_choices_mem:
  "(i, f, s) \<in> set (indexed_choices dp env r d) \<longleftrightarrow>
     (let fs = flavours_for dp (sr_request_id r) (en_request_flavours env)
      in i < length fs \<and> f = fs ! i \<and> earliest_of (en_current_slot env) r \<le> s \<and> s \<le> d)"
  by (auto simp: indexed_choices_def Let_def image_iff)

lemma indexed_choice_legal:
  "(i, ch) \<in> set (indexed_choices dp env r d) \<Longrightarrow> ch \<in> set (choices dp env r d)"
  by (cases ch) (auto simp: indexed_choices_mem choices_mem Let_def)

text \<open>Every candidate kept by the scan is legal and priced by the marginal cost.\<close>

definition seq_sound :: "dp_solver \<Rightarrow> solve_env \<Rightarrow> solve_request \<Rightarrow> slot \<Rightarrow> dp_key \<Rightarrow> nat \<Rightarrow> seq_scan \<Rightarrow> bool" where
  "seq_sound dp env r d k mi sc \<longleftrightarrow>
     (let price = (\<lambda>f s. incremental_carbon_cost dp s (fl_duration f) (en_base_counts env)
                            (k_inc_counts k) (en_tiers env));
          fs = flavours_for dp (sr_request_id r) (en_request_flavours env)
      in (\<forall>c f s. ss_best sc = Some (c, f, s) \<longrightarrow> (f, s) \<in> set (choices dp env r d) \<and> price f s = Some c)
         \<and> (\<forall>c s. ss_fallback sc = Some (c, s) \<longrightarrow>
              (fs ! mi, s) \<in> set (choices dp env r d) \<and> price (fs ! mi) s = Some c))"

lemma seq_candidate_sound:
  assumes "seq_sound dp env r d k mi sc" and "x \<in> set (indexed_choices dp env r d)"
    and "seq_candidate dp env k mi sc x = Some sc'"
  shows "seq_sound dp env r d k mi sc'"
proof -
  obtain i f s where x: "x = (i, f, s)" by (cases x) auto
  have legal: "(f, s) \<in> set (choices dp env r d)" using assms(2) indexed_choice_legal x by blast
  have f: "f = flavours_for dp (sr_request_id r) (en_request_flavours env) ! i"
    using assms(2) by (simp add: x indexed_choices_mem Let_def)
  obtain c where c: "incremental_carbon_cost dp s (fl_duration f) (en_base_counts env)
      (k_inc_counts k) (en_tiers env) = Some c"
    using assms(3) by (auto simp: x seq_candidate_def split: option.splits)
  from assms(1,3) c legal f show ?thesis
    by (auto simp: x seq_candidate_def seq_sound_def Let_def split: if_splits)
qed

lemma seq_candidate_total:
  assumes "env_fits dp env" and "request_fits dp env (r, d)" and "key_fits env k"
    and "x \<in> set (indexed_choices dp env r d)"
  shows "\<exists>sc'. seq_candidate dp env k mi sc x = Some sc'
    \<and> (ss_fallback sc \<noteq> None \<or> fst x = mi \<longrightarrow> ss_fallback sc' \<noteq> None)"
proof -
  obtain i f s where x: "x = (i, f, s)" by (cases x) auto
  have s: "earliest_of (en_current_slot env) r \<le> s" "s \<le> d"
    using assms(4) by (simp_all add: x indexed_choices_mem Let_def)
  obtain c where c: "incremental_carbon_cost dp s (fl_duration f) (en_base_counts env)
      (k_inc_counts k) (en_tiers env) = Some c"
    using marginal_total [OF assms(1-3) s] .
  then show ?thesis
    by (auto simp: x seq_candidate_def Let_def cheaper_def split: option.splits)
qed

lemma seq_fold_total:
  assumes "env_fits dp env" and "request_fits dp env (r, d)" and "key_fits env k"
  shows "set xs \<subseteq> set (indexed_choices dp env r d) \<Longrightarrow>
    \<exists>sc'. fold_opt (seq_candidate dp env k mi) sc xs = Some sc'
      \<and> (ss_fallback sc \<noteq> None \<or> mi \<in> fst ` set xs \<longrightarrow> ss_fallback sc' \<noteq> None)"
proof (induction xs arbitrary: sc)
  case (Cons x xs)
  obtain sc1 where sc1: "seq_candidate dp env k mi sc x = Some sc1"
    and fb: "ss_fallback sc \<noteq> None \<or> fst x = mi \<longrightarrow> ss_fallback sc1 \<noteq> None"
    using seq_candidate_total [OF assms, of x mi sc] Cons.prems by auto
  obtain sc' where sc': "fold_opt (seq_candidate dp env k mi) sc1 xs = Some sc'"
    and fb': "ss_fallback sc1 \<noteq> None \<or> mi \<in> fst ` set xs \<longrightarrow> ss_fallback sc' \<noteq> None"
    using Cons.IH [of sc1] Cons.prems by auto
  have "ss_fallback sc \<noteq> None \<or> mi \<in> fst ` set (x # xs) \<longrightarrow> ss_fallback sc' \<noteq> None"
    using fb fb' by auto
  with sc1 sc' show ?case by simp
qed simp

lemma min_error_index_Some:
  assumes "fs \<noteq> []"
  obtains mi where "min_error_index fs = Some mi" and "mi < length fs"
    and "\<And>i. i < length fs \<Longrightarrow> fl_error (fs ! mi) \<le> fl_error (fs ! i)"
proof -
  have "min_error_index fs \<noteq> None" using assms by (simp add: min_error_index_def)
  then obtain mi where mi: "min_error_index fs = Some mi" by blast
  then have "mi \<in> set [0..<length fs]" unfolding min_error_index_def by (rule min_by_key_in)
  moreover have "fl_error (fs ! mi) \<le> fl_error (fs ! i)" if "i < length fs" for i
    using min_by_key_le [OF mi [unfolded min_error_index_def], of i] that by simp
  ultimately show ?thesis using that mi by simp
qed

lemma seq_choose_legal:
  assumes "env_fits dp env" and fits: "request_fits dp env (r, d)" and "key_fits env k"
  obtains c f s where "seq_choose dp env k r d = Some (Some (c, f, s))"
    and "(f, s) \<in> set (choices dp env r d)"
    and "incremental_carbon_cost dp s (fl_duration f) (en_base_counts env) (k_inc_counts k)
           (en_tiers env) = Some c"
proof -
  let ?fs = "flavours_for dp (sr_request_id r) (en_request_flavours env)"
  let ?xs = "indexed_choices dp env r d"
  let ?sc0 = "\<lparr>ss_best = None, ss_fallback = None\<rparr>"
  have "?fs \<noteq> []" using fits by (simp add: request_fits_def)
  then obtain mi where mi: "min_error_index ?fs = Some mi" "mi < length ?fs"
    using min_error_index_Some by blast
  have "(mi, ?fs ! mi, d) \<in> set ?xs"
    using mi fits by (simp add: indexed_choices_mem Let_def request_fits_def)
  then have "mi \<in> fst ` set ?xs" by force
  then obtain sc where sc: "fold_opt (seq_candidate dp env k mi) ?sc0 ?xs = Some sc"
    and fb: "ss_fallback sc \<noteq> None"
    using seq_fold_total [OF assms, of ?xs mi ?sc0] by auto
  have sound: "seq_sound dp env r d k mi sc"
  proof (rule fold_opt_inv [OF sc])
    show "seq_sound dp env r d k mi ?sc0" by (simp add: seq_sound_def Let_def)
  qed (rule seq_candidate_sound)
  show ?thesis
  proof (cases "ss_best sc")
    case (Some b)
    obtain c f s where b: "b = (c, f, s)" by (cases b) auto
    have "seq_choose dp env k r d = Some (Some (c, f, s))"
      using Some by (simp add: seq_choose_def Let_def mi sc b)
    with Some sound that [of c f s] show ?thesis
      by (simp add: seq_sound_def Let_def b)
  next
    case None
    obtain c s where cs: "ss_fallback sc = Some (c, s)" using fb by auto
    then have "seq_choose dp env k r d = Some (Some (c, ?fs ! mi, s))"
      by (simp add: seq_choose_def Let_def mi sc None)
    with cs sound that [of c "?fs ! mi" s] show ?thesis by (simp add: seq_sound_def Let_def)
  qed
qed

lemma seq_loop_chain:
  assumes "env_fits dp env"
  shows "list_all (request_fits dp env) rs \<Longrightarrow> key_fits env k \<Longrightarrow>
    \<exists>ws. seq_loop dp env rs k keys acc = Some (snd (snd (last ws)), keys @ map fst (tl ws))
       \<and> hd ws = (k, total_cost acc, acc) \<and> chain dp env rs ws"
proof (induction rs arbitrary: k keys acc)
  case Nil
  then show ?case by (intro exI [of _ "[(k, total_cost acc, acc)]"]) simp
next
  case (Cons rd rs)
  obtain r d where rd: "rd = (r, d)" by (cases rd) auto
  have fits: "request_fits dp env (r, d)" using Cons.prems(1) by (simp add: rd)
  obtain c f s where choose: "seq_choose dp env k r d = Some (Some (c, f, s))"
    and legal: "(f, s) \<in> set (choices dp env r d)"
    and price: "incremental_carbon_cost dp s (fl_duration f) (en_base_counts env) (k_inc_counts k)
           (en_tiers env) = Some c"
    using seq_choose_legal [OF assms fits Cons.prems(2)] .
  let ?k = "dp_step_key env k f s" and ?acc = "acc @ [placed r (f, s) c]"
  have "list_all (request_fits dp env) rs" "key_fits env ?k" using Cons.prems by simp_all
  from Cons.IH [OF this, of "keys @ [?k]" ?acc] obtain ws where
    ws: "seq_loop dp env rs ?k (keys @ [?k]) ?acc
           = Some (snd (snd (last ws)), (keys @ [?k]) @ map fst (tl ws))"
    and hd: "hd ws = (?k, total_cost ?acc, ?acc)" and ch: "chain dp env rs ws" by blast
  have ne: "ws \<noteq> []" using ch by auto
  then obtain ws' where ws': "ws = (?k, total_cost ?acc, ?acc) # ws'" using hd by (cases ws) auto
  have "expand dp env r (k, total_cost acc, acc) (f, s) = Some (?k, total_cost ?acc, ?acc)"
    using price by (simp add: expand_def total_cost_def placed_def)
  then have "chain dp env (rd # rs) ((k, total_cost acc, acc) # ws)"
    using legal ch by (auto simp: rd ws')
  moreover have "seq_loop dp env (rd # rs) k keys acc
      = Some (snd (snd (last ((k, total_cost acc, acc) # ws))), keys @ map fst (tl ((k, total_cost acc, acc) # ws)))"
    using ws choose by (simp add: rd ws' Let_def)
  ultimately show ?case by (intro exI [of _ "(k, total_cost acc, acc) # ws"]) simp
qed

lemma chain_length: "chain dp env rs ws \<Longrightarrow> length ws = Suc (length rs)"
  by (induction dp env rs ws rule: chain.induct) auto

lemma chain_outcomes:
  "chain dp env rs ws \<Longrightarrow> hd ws \<in> outcomes dp env ps k0 \<Longrightarrow> last ws \<in> outcomes dp env (ps @ rs) k0"
proof (induction dp env rs ws arbitrary: ps rule: chain.induct)
  case (2 dp env r d rs w w' ws)
  have "w' \<in> outcomes dp env (ps @ [(r, d)]) k0"
    using "2.prems" by (auto simp: outcomes_snoc)
  with "2.IH" [of "ps @ [(r, d)]"] "2.prems"(1) show ?case by simp
qed auto

lemma compute_sequential_chain:
  assumes "env_fits dp env" and "list_all (request_fits dp env) rs" and "key_fits env k0"
  obtains ws where "compute_sequential_solution dp env rs k0 = Some (snd (snd (last ws)), map fst ws)"
    and "hd ws = (k0, 0, [])" and "chain dp env rs ws"
proof -
  obtain ws where ws: "seq_loop dp env rs k0 [k0] [] = Some (snd (snd (last ws)), [k0] @ map fst (tl ws))"
    "hd ws = (k0, total_cost [], [])" "chain dp env rs ws"
    using seq_loop_chain [OF assms, of "[k0]" "[]"] by blast
  then have "[k0] @ map fst (tl ws) = map fst ws" by (cases ws) auto
  with ws that show ?thesis by (simp add: compute_sequential_solution_def total_cost_def)
qed

section \<open>The search\<close>

text \<open>An iteration order lists every binding exactly once.\<close>

definition valid_order :: "iteration_order \<Rightarrow> bool" where
  "valid_order ord \<longleftrightarrow> (\<forall>n t. mset (ord n t) = mset t)"

lemma valid_order_set: "valid_order ord \<Longrightarrow> set (ord n t) = set t"
  by (metis valid_order_def mset_eq_setD)

lemma hm_wf_mset: "mset t = mset t' \<Longrightarrow> hm_wf t = hm_wf t'"
  unfolding hm_wf_def by (rule mset_eq_imp_distinct_iff) simp

lemma valid_order_wf: "valid_order ord \<Longrightarrow> hm_wf (ord n t) = hm_wf t"
  by (rule hm_wf_mset) (simp add: valid_order_def)

lemma covers_set: "set t = set t' \<Longrightarrow> covers t st = covers t' st"
  by (simp add: covers_def)

lemma sort_items_mset: "mset (sort_items pr t) = mset t"
  by (simp add: sort_items_def)

lemma sort_items_set: "set (sort_items pr t) = set t"
  by (simp add: sort_items_def)

text \<open>The invariant of the layer loop; \<open>w\<close> is the warm-start state of the layer.\<close>

definition table_inv ::
    "dp_solver \<Rightarrow> solve_env \<Rightarrow> (solve_request \<times> slot) list \<Rightarrow> dp_key \<Rightarrow> dp_key \<times> dp_entry
     \<Rightarrow> dp_table \<Rightarrow> bool" where
  "table_inv dp env ps k0 w tbl \<longleftrightarrow>
     hm_wf tbl \<and> set tbl \<subseteq> outcomes dp env ps k0 \<and> covers tbl w"

lemma table_inv_order:
  "valid_order ord \<Longrightarrow> table_inv dp env ps k0 w (ord n t) = table_inv dp env ps k0 w t"
  by (simp add: table_inv_def valid_order_wf valid_order_set covers_set [OF valid_order_set])

lemma prune_layer_inv:
  assumes inv: "table_inv dp env ps k0 w cur" and ord: "mset it = mset cur"
    and len: "n + 1 < length warm_keys" and wk: "warm_keys ! (n + 1) = fst w"
  obtains kept where "prune_layer dp warm_keys n cur it = Some kept"
    and "table_inv dp env ps k0 w kept" and "set kept \<subseteq> set cur"
    and "\<not> (dp_pruning dp = ''beam'' \<or> dp_pruning dp = ''kbest'') \<Longrightarrow> kept = cur"
proof (cases "(dp_pruning dp = ''beam'' \<or> dp_pruning dp = ''kbest'') \<and> dp_pruning_k dp < length cur")
  case False
  then have "prune_layer dp warm_keys n cur it = Some cur"
    unfolding prune_layer_def by (simp only: if_False)
  with that [of cur] inv show ?thesis by blast
next
  case True
  let ?items = "sort_items (dp_pruning dp) it"
  let ?kept = "trim (dp_pruning_k dp) (fst w) ?items"
  have ms: "mset ?items = mset cur" using ord by (simp add: sort_items_mset)
  have wf: "hm_wf ?items" using inv hm_wf_mset [OF ms] by (simp add: table_inv_def)
  have st: "set ?items = set cur" using ms by (rule mset_eq_setD)
  obtain c p where "(fst w, c, p) \<in> set ?items" "c \<le> fst (snd w)"
    using inv by (auto simp: table_inv_def covers_def st)
  then have "covers ?kept w"
    unfolding covers_def using trim_keeps [OF wf, of "fst w" "(c, p)"] by blast
  moreover have "set ?kept \<subseteq> set cur" using trim_subset(1) [OF wf] st by blast
  ultimately have "table_inv dp env ps k0 w ?kept"
    using inv trim_subset(2) [OF wf] by (auto simp: table_inv_def)
  with True \<open>set ?kept \<subseteq> set cur\<close> len wk that [of ?kept] show ?thesis
    by (simp add: prune_layer_def)
qed

lemma outcomes_fit:
  "st \<in> outcomes dp env rs k0 \<Longrightarrow> key_fits env k0 \<Longrightarrow> key_fits env (fst st)"
proof (induction rs arbitrary: st rule: rev_induct)
  case (snoc rd rs)
  obtain r d where rd: "rd = (r, d)" by (cases rd) auto
  obtain st1 ch where "st1 \<in> outcomes dp env rs k0" "expand dp env r st1 ch = Some st"
    using snoc.prems(1) unfolding rd outcomes_snoc by auto
  with snoc.IH snoc.prems(2) expand_fits show ?case by blast
qed simp

lemma dp_layer_inv:
  assumes "env_fits dp env" and "request_fits dp env (r, d)" and "key_fits env k0"
    and inv: "table_inv dp env ps k0 w tbl"
    and "ch \<in> set (choices dp env r d)" and "expand dp env r w ch = Some w'"
  obtains cur where "dp_layer dp env r d tbl = Some cur" and "cur \<noteq> []"
    and "table_inv dp env (ps @ [(r, d)]) k0 w' cur"
proof -
  have fit: "key_fits env (fst st)" if "st \<in> set tbl" for st
    using inv that outcomes_fit [OF _ assms(3)] unfolding table_inv_def by blast
  obtain cur where cur: "dp_layer dp env r d tbl = Some cur"
    using dp_layer_total [OF assms(1,2) fit] .
  have cov: "covers cur w'"
    using dp_layer_covers [OF cur _ assms(5,6)] inv by (simp add: table_inv_def)
  have "set cur \<subseteq> outcomes dp env (ps @ [(r, d)]) k0"
    using dp_layer_spec(2) [OF cur] inv by (fastforce simp: outcomes_snoc table_inv_def)
  then have "table_inv dp env (ps @ [(r, d)]) k0 w' cur"
    using cov dp_layer_spec(1) [OF cur] by (simp add: table_inv_def)
  moreover have "cur \<noteq> []" using cov by (auto simp: covers_def)
  ultimately show ?thesis using cur that by blast
qed

lemma dp_loop_result:
  assumes env: "env_fits dp env" and k0: "key_fits env k0" and ord: "valid_order ord"
  shows "list_all (request_fits dp env) rs \<Longrightarrow> chain dp env rs (w # ws) \<Longrightarrow>
    drop n warm_keys = map fst (w # ws) \<Longrightarrow> table_inv dp env ps k0 w tbl \<Longrightarrow>
    (dp_loop dp env ord timed_out answer warm_keys n rs tbl = Some (Inl answer) \<and> (\<exists>i. timed_out i))
    \<or> (\<exists>t. dp_loop dp env ord timed_out answer warm_keys n rs tbl = Some (Inr t)
         \<and> table_inv dp env (ps @ rs) k0 (last (w # ws)) t)"
proof (induction rs arbitrary: w ws n ps tbl)
  case Nil
  then have "ws = []" using chain_length by fastforce
  with Nil show ?case by simp
next
  case (Cons rd rs)
  obtain r d where rd: "rd = (r, d)" by (cases rd) auto
  obtain w' ws' where ws: "ws = w' # ws'" using Cons.prems(2) by (cases ws) (auto simp: rd)
  obtain ch where ch: "ch \<in> set (choices dp env r d)" "expand dp env r w ch = Some w'"
    and rest: "chain dp env rs (w' # ws')"
    using Cons.prems(2) by (auto simp: rd ws)
  have fits: "request_fits dp env (r, d)" and fits': "list_all (request_fits dp env) rs"
    using Cons.prems(1) by (simp_all add: rd)
  obtain cur where cur: "dp_layer dp env r d tbl = Some cur" "cur \<noteq> []"
    and inv: "table_inv dp env (ps @ [(r, d)]) k0 w' cur"
    using dp_layer_inv [OF env fits k0 Cons.prems(4) ch] .
  have keys: "drop (n + 1) warm_keys = map fst (w' # ws')"
    using Cons.prems(3) by (simp add: ws drop_Suc flip: tl_drop)
  have len: "n + 1 < length warm_keys"
    using keys by (metis drop_all list.distinct(1) list.simps(9) not_le)
  have wk: "warm_keys ! (n + 1) = fst w'"
    using keys by (simp add: nth_via_drop)
  have ms: "mset (ord (2 * n) cur) = mset cur" using ord by (simp add: valid_order_def)
  obtain kept where kept: "prune_layer dp warm_keys n cur (ord (2 * n) cur) = Some kept"
    and inv': "table_inv dp env (ps @ [(r, d)]) k0 w' kept"
    using prune_layer_inv [OF inv ms len wk] by blast
  show ?case
  proof (cases "timed_out n")
    case True
    then show ?thesis using cur kept by (auto simp: rd)
  next
    case False
    have "table_inv dp env (ps @ [(r, d)]) k0 w' (ord (2 * n + 1) kept)"
      using inv' by (simp only: table_inv_order [OF ord])
    from Cons.IH [OF fits' rest keys this] show ?thesis
      using cur kept False by (simp add: rd ws)
  qed
qed

text \<open>Without pruning and timeouts nothing is lost: every outcome stays covered.\<close>

lemma dp_loop_complete:
  assumes env: "env_fits dp env" and k0: "key_fits env k0" and ord: "valid_order ord"
    and nopr: "\<not> (dp_pruning dp = ''beam'' \<or> dp_pruning dp = ''kbest'')"
  shows "dp_loop dp env ord timed_out answer warm_keys n rs tbl = Some (Inr t) \<Longrightarrow>
    (\<forall>st\<in>outcomes dp env ps k0. covers tbl st) \<Longrightarrow> (\<forall>st\<in>outcomes dp env (ps @ rs) k0. covers t st)"
proof (induction rs arbitrary: n ps tbl)
  case (Cons rd rs)
  obtain r d where rd: "rd = (r, d)" by (cases rd) auto
  obtain cur where cur: "dp_layer dp env r d tbl = Some cur"
    and loop: "dp_loop dp env ord timed_out answer warm_keys (n + 1) rs (ord (2 * n + 1) cur) = Some (Inr t)"
    using Cons.prems(1) nopr by (auto simp: rd prune_layer_def split: option.splits if_splits)
  have "covers cur st'" if "st' \<in> outcomes dp env (ps @ [(r, d)]) k0" for st'
    using that Cons.prems(2) dp_layer_covers [OF cur] unfolding outcomes_snoc by blast
  then have "\<forall>st\<in>outcomes dp env (ps @ [(r, d)]) k0. covers (ord (2 * n + 1) cur) st"
    by (simp add: covers_set [OF valid_order_set [OF ord]])
  from Cons.IH [OF loop this] show ?case by (simp add: rd)
qed simp

section \<open>Guarantees of a solve\<close>

text \<open>
  What the callers establish: the current slot is not negative, the forecast covers the
  horizon (the constructor asserts it) and every request has at least one flavour.
\<close>

definition solve_ok :: "dp_solver \<Rightarrow> solve_batch_input \<Rightarrow> bool" where
  "solve_ok dp inp \<longleftrightarrow>
     in_i32 (dp_window_size dp) \<and> 0 \<le> si_current_slot inp
     \<and> int (length (dp_carbon_forecast dp)) = dp_window_size dp
     \<and> list_all (\<lambda>r. flavours_for dp (sr_request_id r) (si_request_flavours inp) \<noteq> []) (si_requests inp)"

definition bounded_requests :: "dp_solver \<Rightarrow> solve_batch_input \<Rightarrow> (solve_request \<times> slot) list" where
  "bounded_requests dp inp = zip (si_requests inp) (solve_deadlines dp inp)"

definition schedulable :: "dp_solver \<Rightarrow> solve_batch_input \<Rightarrow> bool" where
  "schedulable dp inp \<longleftrightarrow>
     si_requests inp \<noteq> [] \<and> si_current_slot inp < dp_window_size dp
     \<and> list_all (\<lambda>(r, d). earliest_of (si_current_slot inp) r \<le> d) (bounded_requests dp inp)"

abbreviation solve_outcomes :: "dp_solver \<Rightarrow> solve_batch_input \<Rightarrow> (dp_key \<times> dp_entry) set" where
  "solve_outcomes dp inp \<equiv>
     outcomes dp (solve_env_of dp inp) (bounded_requests dp inp) (initial_key dp inp)"

lemma fill_base_counts_length [simp]: "length (fill_base_counts t bs acc) = length acc"
  by (induction t bs acc rule: fill_base_counts.induct) auto

lemma window_last_slot:
  "solve_ok dp inp \<Longrightarrow> si_current_slot inp < dp_window_size dp \<Longrightarrow>
   i32_sub (dp_window_size dp) 1 = dp_window_size dp - 1"
  by (rule i32_sub_nonneg_exact) (auto simp: solve_ok_def in_i32_def)

lemma solve_env_fits:
  assumes "solve_ok dp inp" and "schedulable dp inp"
  shows "env_fits dp (solve_env_of dp inp)"
    and "key_fits (solve_env_of dp inp) (initial_key dp inp)"
    and "list_all (request_fits dp (solve_env_of dp inp)) (bounded_requests dp inp)"
proof -
  let ?t = "nat (dp_window_size dp)"
  have t: "length (en_base_counts (solve_env_of dp inp)) = ?t"
    by (simp add: solve_env_of_def)
  show "env_fits dp (solve_env_of dp inp)"
    using assms by (auto simp: env_fits_def t solve_ok_def)
  show "key_fits (solve_env_of dp inp) (initial_key dp inp)"
    by (simp add: key_fits_def t initial_key_def dp_key_new_def)
  have cur: "0 \<le> si_current_slot inp" "si_current_slot inp < dp_window_size dp"
    using assms by (auto simp: solve_ok_def schedulable_def)
  show "list_all (request_fits dp (solve_env_of dp inp)) (bounded_requests dp inp)"
    unfolding list_all_iff
  proof
    fix rd assume rd: "rd \<in> set (bounded_requests dp inp)"
    obtain r d where eq: "rd = (r, d)" by (cases rd) auto
    have r: "r \<in> set (si_requests inp)" and d: "d \<in> set (solve_deadlines dp inp)"
      using rd by (auto simp: eq bounded_requests_def dest: set_zip_leftD set_zip_rightD)
    have "d \<le> dp_window_size dp - 1"
      using d window_last_slot [OF assms(1) cur(2)] by (auto simp: solve_deadlines_def)
    moreover have le: "earliest_of (si_current_slot inp) r \<le> d"
      using assms(2) rd by (auto simp: schedulable_def list_all_iff eq)
    moreover have "0 \<le> earliest_of (si_current_slot inp) r"
      using cur by (simp add: earliest_of_def)
    moreover have "flavours_for dp (sr_request_id r) (si_request_flavours inp) \<noteq> []"
      using assms(1) r by (simp add: solve_ok_def list_all_iff)
    moreover have "nat d < ?t" using calculation by linarith
    ultimately show "request_fits dp (solve_env_of dp inp) rd"
      by (simp add: request_fits_def eq solve_env_of_def)
  qed
qed

lemma solve_batch_unschedulable:
  assumes "\<not> schedulable dp inp"
  shows "solve_batch dp ord timed_out inp = Some []"
proof -
  have "\<exists>(r, d)\<in>set (zip (si_requests inp) (solve_deadlines dp inp)).
          d < earliest_of (si_current_slot inp) r"
    if "si_requests inp \<noteq> []" "si_current_slot inp < dp_window_size dp"
    using assms that by (force simp: schedulable_def bounded_requests_def list_all_iff)
  then show ?thesis by (auto simp: solve_batch_def Let_def not_le)
qed

text \<open>The answer is the warm start after a timeout, and the best entry of a table otherwise.\<close>

definition solve_shape ::
    "dp_solver \<Rightarrow> iteration_order \<Rightarrow> (nat \<Rightarrow> bool) \<Rightarrow> solve_batch_input \<Rightarrow> dp_key \<times> dp_entry
     \<Rightarrow> request_assignment list \<Rightarrow> bool" where
  "solve_shape dp ord timed_out inp w answer \<longleftrightarrow>
     w \<in> solve_outcomes dp inp
     \<and> answer = (if within_threshold (si_max_error_threshold inp) (fst w) then snd (snd w) else [])
     \<and> ((solve_batch dp ord timed_out inp = Some answer \<and> (\<exists>i. timed_out i))
        \<or> (\<exists>t. solve_batch dp ord timed_out inp
                = Some (final_answer (si_max_error_threshold inp) answer t)
            \<and> table_inv dp (solve_env_of dp inp) (bounded_requests dp inp) (initial_key dp inp) w t
            \<and> (dp_pruning dp \<noteq> ''beam'' \<longrightarrow> dp_pruning dp \<noteq> ''kbest'' \<longrightarrow>
                 (\<forall>st\<in>solve_outcomes dp inp. covers t st))))"

lemma solve_batch_cases:
  assumes ok: "solve_ok dp inp" and sched: "schedulable dp inp" and ord: "valid_order ord"
  obtains w wkeys answer where
    "compute_sequential_solution dp (solve_env_of dp inp) (bounded_requests dp inp)
       (initial_key dp inp) = Some (snd (snd w), wkeys)"
    and "warm_is_feasible (si_max_error_threshold inp) wkeys
           = within_threshold (si_max_error_threshold inp) (fst w)"
    and "solve_shape dp ord timed_out inp w answer"
proof -
  let ?env = "solve_env_of dp inp" and ?rs = "bounded_requests dp inp"
    and ?k0 = "initial_key dp inp" and ?th = "si_max_error_threshold inp"
  note fits = solve_env_fits [OF ok sched]
  obtain ws where seq: "compute_sequential_solution dp ?env ?rs ?k0
      = Some (snd (snd (last ws)), map fst ws)"
    and hd: "hd ws = (?k0, 0, [])" and ch: "chain dp ?env ?rs ws"
    using compute_sequential_chain [OF fits(1,3,2)] .
  obtain ws' where ws: "ws = (?k0, 0, []) # ws'" using ch hd by (cases ws) auto
  let ?w = "last ws"
  define answer where "answer = (if warm_is_feasible ?th (map fst ws) then snd (snd ?w) else [])"
  have w: "?w \<in> solve_outcomes dp inp"
    using chain_outcomes [OF ch, of "[]" ?k0] hd by simp
  have feas: "warm_is_feasible ?th (map fst ws) = within_threshold ?th (fst ?w)"
    by (simp add: warm_is_feasible_def within_threshold_def ws last_map split: option.splits)
  have inv0: "table_inv dp ?env [] ?k0 (?k0, 0, []) [(?k0, 0, [])]"
    by (simp add: table_inv_def hm_wf_def covers_def)
  have "\<not> (\<exists>(r, d)\<in>set ?rs. d < earliest_of (si_current_slot inp) r)"
    using sched by (fastforce simp: schedulable_def list_all_iff)
  moreover have "0 \<le> dp_window_size dp" using ok sched by (simp add: solve_ok_def schedulable_def)
  ultimately have batch: "solve_batch dp ord timed_out inp =
      (case dp_loop dp ?env ord timed_out answer (map fst ws) 0 ?rs [(?k0, 0, [])] of
         None \<Rightarrow> None | Some (Inl a) \<Rightarrow> Some a
       | Some (Inr t) \<Rightarrow> Some (final_answer ?th answer t))"
    using sched seq
    unfolding solve_batch_def bounded_requests_def [symmetric] answer_def Let_def
    by (simp add: schedulable_def)
  have loop: "(dp_loop dp ?env ord timed_out answer (map fst ws) 0 ?rs [(?k0, 0, [])] = Some (Inl answer)
        \<and> (\<exists>i. timed_out i))
    \<or> (\<exists>t. dp_loop dp ?env ord timed_out answer (map fst ws) 0 ?rs [(?k0, 0, [])] = Some (Inr t)
         \<and> table_inv dp ?env ?rs ?k0 ?w t)"
    using dp_loop_result [OF fits(1,2) ord fits(3), of "(?k0, 0, [])" ws' 0 "map fst ws" "[]"
        "[(?k0, 0, [])]" timed_out answer] ch inv0 by (simp add: ws)
  have complete: "\<forall>st\<in>solve_outcomes dp inp. covers t st"
    if "dp_loop dp ?env ord timed_out answer (map fst ws) 0 ?rs [(?k0, 0, [])] = Some (Inr t)"
      and "dp_pruning dp \<noteq> ''beam''" "dp_pruning dp \<noteq> ''kbest''" for t
    using dp_loop_complete [OF fits(1,2) ord _ that(1), of "[]"] that(2,3) by (simp add: covers_def)
  have "(solve_batch dp ord timed_out inp = Some answer \<and> (\<exists>i. timed_out i))
       \<or> (\<exists>t. solve_batch dp ord timed_out inp = Some (final_answer ?th answer t)
            \<and> table_inv dp ?env ?rs ?k0 ?w t
            \<and> (dp_pruning dp \<noteq> ''beam'' \<longrightarrow> dp_pruning dp \<noteq> ''kbest'' \<longrightarrow>
                 (\<forall>st\<in>solve_outcomes dp inp. covers t st)))"
    using loop complete by (auto simp: batch)
  then have "solve_shape dp ord timed_out inp ?w answer"
    using w by (simp add: solve_shape_def answer_def feas)
  then show ?thesis by (rule that [OF seq feas])
qed

text \<open>The final filter and minimum.\<close>

lemma final_answer_spec:
  assumes "t \<noteq> []"
  shows "(\<exists>k c p. (k, c, p) \<in> set t \<and> within_threshold th k \<and> final_answer th ans t = p
            \<and> (\<forall>k' c' p'. (k', c', p') \<in> set t \<longrightarrow> within_threshold th k' \<longrightarrow> c \<le> c'))
       \<or> (final_answer th ans t = [] \<and> (\<forall>(k, e)\<in>set t. \<not> within_threshold th k))"
proof -
  let ?kept = "filter (\<lambda>(k, _). within_threshold th k) t"
  show ?thesis
  proof (cases "?kept = []")
    case True
    then have none: "\<forall>(k, e)\<in>set t. \<not> within_threshold th k" by (auto simp: filter_empty_conv)
    then have "th \<noteq> None" using assms by (cases th; cases t) (auto simp: within_threshold_def)
    with True none show ?thesis by (simp add: final_answer_def)
  next
    case False
    then obtain m where m: "min_by_key (\<lambda>(k, cost, path). cost) ?kept = Some m"
      by (metis min_by_key_None not_Some_eq)
    obtain k c p where kcp: "m = (k, c, p)" by (cases m) auto
    have mem: "(k, c, p) \<in> set ?kept" using min_by_key_in [OF m] by (simp add: kcp)
    have "final_answer th ans t = p" using False m by (simp add: final_answer_def kcp)
    moreover have "c \<le> c'" if "(k', c', p') \<in> set t" "within_threshold th k'" for k' c' p'
      using min_by_key_le [OF m, of "(k', c', p')"] that by (simp add: kcp)
    moreover have "(k, c, p) \<in> set t" "within_threshold th k" using mem by simp_all
    ultimately show ?thesis by blast
  qed
qed

lemma solve_outcome_cost: "(k, c, p) \<in> solve_outcomes dp inp \<Longrightarrow> c = total_cost p"
  by (rule outcomes_cost)

text \<open>What any outcome looks like to the caller.\<close>

definition legal_assignment :: "dp_solver \<Rightarrow> solve_env \<Rightarrow> solve_request \<times> slot \<Rightarrow> request_assignment \<Rightarrow> bool" where
  "legal_assignment dp env = (\<lambda>(r, d) a.
     ra_request_id a = sr_request_id r
     \<and> earliest_of (en_current_slot env) r \<le> ra_slot a \<and> ra_slot a \<le> d
     \<and> (\<exists>f\<in>set (flavours_for dp (sr_request_id r) (en_request_flavours env)).
          ra_flavour_name a = fl_name f \<and> ra_error a = fl_error f))"

lemma outcomes_legal:
  "(k, c, p) \<in> outcomes dp env rs k0 \<Longrightarrow> list_all2 (legal_assignment dp env) rs p"
proof (induction rs arbitrary: k c p rule: rev_induct)
  case (snoc rd rs)
  obtain r d where rd: "rd = (r, d)" by (cases rd) auto
  obtain k1 c1 p1 f s where st: "(k1, c1, p1) \<in> outcomes dp env rs k0"
    and ch: "(f, s) \<in> set (choices dp env r d)"
    and ex: "expand dp env r (k1, c1, p1) (f, s) = Some (k, c, p)"
    using snoc.prems unfolding rd outcomes_snoc by auto
  obtain x where "p = p1 @ [placed r (f, s) x]"
    using ex by (auto simp: expand_def split: option.splits)
  moreover have "legal_assignment dp env (r, d) (placed r (f, s) x)"
    using ch by (auto simp: legal_assignment_def placed_def choices_mem)
  ultimately show ?case
    using snoc.IH [OF st] by (simp add: rd list_all2_appendI)
qed simp

text \<open>The shape of every answer; the guarantees below and the batch strategies rest on it.\<close>

lemma solve_batch_legal:
  assumes "solve_ok dp inp" and "valid_order ord"
  shows "case solve_batch dp ord timed_out inp of
      None \<Rightarrow> False
    | Some as \<Rightarrow> as = [] \<or>
        (list_all2 (legal_assignment dp (solve_env_of dp inp)) (bounded_requests dp inp) as
         \<and> (\<exists>k. (k, total_cost as, as) \<in> solve_outcomes dp inp
              \<and> within_threshold (si_max_error_threshold inp) k))"
proof (cases "schedulable dp inp")
  case False
  then show ?thesis by (simp add: solve_batch_unschedulable)
next
  case True
  let ?th = "si_max_error_threshold inp"
  let ?good = "\<lambda>as. as = [] \<or> (\<exists>k. (k, total_cost as, as) \<in> solve_outcomes dp inp \<and> within_threshold ?th k)"
  obtain w wkeys answer where shape: "solve_shape dp ord timed_out inp w answer"
    using solve_batch_cases [OF assms(1) True assms(2)] .
  obtain wk wc wp where wst: "w = (wk, wc, wp)" by (cases w) auto
  have "(wk, wc, wp) \<in> solve_outcomes dp inp" using shape by (simp add: solve_shape_def wst)
  then have "(wk, total_cost wp, wp) \<in> solve_outcomes dp inp" using solve_outcome_cost by blast
  then have answer: "?good answer" using shape by (auto simp: solve_shape_def wst)
  have final: "?good (final_answer ?th answer t)"
    if "table_inv dp (solve_env_of dp inp) (bounded_requests dp inp) (initial_key dp inp) w t" for t
  proof -
    have "t \<noteq> []" and sub: "set t \<subseteq> solve_outcomes dp inp"
      using that by (auto simp: table_inv_def covers_def)
    then show ?thesis
      using final_answer_spec [of t ?th answer] solve_outcome_cost by blast
  qed
  obtain as where as: "solve_batch dp ord timed_out inp = Some as" "?good as"
    using shape answer final unfolding solve_shape_def by blast
  then show ?thesis using outcomes_legal by auto
qed

text \<open>
  C14: Soundness under any pruning and any timing. A solve with a well-formed input
  never panics, whatever the iteration order of its tables and wherever the timeout
  strikes. A non-empty answer is the outcome of a legal plan: one assignment per
  request, in order, each in a slot between the request's earliest slot and its bounded
  deadline with one of the request's own flavours, and the final accounting state
  respects the error threshold.
\<close>

theorem solve_batch_sound:
  assumes "solve_ok dp inp" and "valid_order ord"
  shows "case solve_batch dp ord timed_out inp of
      None \<Rightarrow> False
    | Some as \<Rightarrow> as = [] \<or>
        (list_all2 (legal_assignment dp (solve_env_of dp inp)) (bounded_requests dp inp) as
         \<and> (\<exists>k. (k, total_cost as, as) \<in> solve_outcomes dp inp
              \<and> within_threshold (si_max_error_threshold inp) k))"
  using solve_batch_legal [OF assms] .

text \<open>
  C1: Optimality. Without pruning and without a timeout the layered search is
  equivalent to exhaustive enumeration: if some plan keeps the average error within the
  threshold, the answer is a plan that does, at the least total carbon cost of all of
  them; if none does, the answer is empty.
\<close>

theorem solve_batch_optimal:
  assumes "solve_ok dp inp" and "schedulable dp inp" and "valid_order ord"
    and "dp_pruning dp \<noteq> ''beam''" and "dp_pruning dp \<noteq> ''kbest''" and "\<And>n. \<not> timed_out n"
  shows "case solve_batch dp ord timed_out inp of
      None \<Rightarrow> False
    | Some as \<Rightarrow>
        (if \<exists>(k, e)\<in>solve_outcomes dp inp. within_threshold (si_max_error_threshold inp) k
         then (\<exists>k. (k, total_cost as, as) \<in> solve_outcomes dp inp
                 \<and> within_threshold (si_max_error_threshold inp) k)
            \<and> (\<forall>(k, c, p)\<in>solve_outcomes dp inp.
                 within_threshold (si_max_error_threshold inp) k \<longrightarrow> total_cost as \<le> c)
         else as = [])"
proof -
  let ?th = "si_max_error_threshold inp"
  obtain w answer t where batch: "solve_batch dp ord timed_out inp = Some (final_answer ?th answer t)"
    and inv: "table_inv dp (solve_env_of dp inp) (bounded_requests dp inp) (initial_key dp inp) w t"
    and cov: "\<forall>st\<in>solve_outcomes dp inp. covers t st"
  proof -
    obtain w wkeys answer where "solve_shape dp ord timed_out inp w answer"
      using solve_batch_cases [OF assms(1-3)] .
    with assms(4-6) that show ?thesis unfolding solve_shape_def by blast
  qed
  have t: "t \<noteq> []" "set t \<subseteq> solve_outcomes dp inp"
    using inv by (auto simp: table_inv_def covers_def)
  have covD: "\<exists>c' p'. (k, c', p') \<in> set t \<and> c' \<le> c" if "(k, c, p) \<in> solve_outcomes dp inp" for k c p
    using cov that by (fastforce simp: covers_def)
  from final_answer_spec [OF t(1), of ?th answer] show ?thesis
  proof (elim disjE exE conjE)
    fix k c p
    assume best: "(k, c, p) \<in> set t" "within_threshold ?th k" "final_answer ?th answer t = p"
      and least: "\<forall>k' c' p'. (k', c', p') \<in> set t \<longrightarrow> within_threshold ?th k' \<longrightarrow> c \<le> c'"
    have out: "(k, total_cost p, p) \<in> solve_outcomes dp inp" and c: "c = total_cost p"
      using best(1) t(2) solve_outcome_cost by blast+
    have "total_cost p \<le> c'" if "(k', c', p') \<in> solve_outcomes dp inp" "within_threshold ?th k'" for k' c' p'
      using covD [OF that(1)] least that(2) c by fastforce
    with out best(2,3) show ?thesis by (auto simp: batch)
  next
    assume none: "final_answer ?th answer t = []" "\<forall>(k, e)\<in>set t. \<not> within_threshold ?th k"
    have "\<not> within_threshold ?th k" if "(k, c, p) \<in> solve_outcomes dp inp" for k c p
      using covD [OF that] none(2) by blast
    with none(1) show ?thesis by (auto simp: batch)
  qed
qed

text \<open>
  C18: The warm start is an incumbent that pruning cannot lose. If the sequential
  solution respects the threshold, a solve always returns a solution, at most as
  dear as the sequential one, for every pruning method and width, every iteration order
  and every timeout.
\<close>

theorem solve_batch_incumbent:
  assumes "solve_ok dp inp" and "schedulable dp inp" and "valid_order ord"
    and "compute_sequential_solution dp (solve_env_of dp inp) (bounded_requests dp inp)
           (initial_key dp inp) = Some (was, wkeys)"
    and "warm_is_feasible (si_max_error_threshold inp) wkeys"
  shows "\<exists>as. solve_batch dp ord timed_out inp = Some as \<and> as \<noteq> [] \<and> total_cost as \<le> total_cost was"
proof -
  let ?th = "si_max_error_threshold inp"
  obtain w wk' answer where seq: "compute_sequential_solution dp (solve_env_of dp inp)
      (bounded_requests dp inp) (initial_key dp inp) = Some (snd (snd w), wk')"
    and feas: "warm_is_feasible ?th wk' = within_threshold ?th (fst w)"
    and shape: "solve_shape dp ord timed_out inp w answer"
    using solve_batch_cases [OF assms(1-3)] .
  have w: "w \<in> solve_outcomes dp inp" "was = snd (snd w)" "within_threshold ?th (fst w)" "answer = was"
    using seq feas shape assms(4,5) by (auto simp: solve_shape_def)
  have res: "solve_batch dp ord timed_out inp = Some answer
       \<or> (\<exists>t. solve_batch dp ord timed_out inp = Some (final_answer ?th answer t)
            \<and> table_inv dp (solve_env_of dp inp) (bounded_requests dp inp) (initial_key dp inp) w t)"
    using shape unfolding solve_shape_def by blast
  have len: "length p = length (bounded_requests dp inp)" if "(k, c, p) \<in> solve_outcomes dp inp" for k c p
    using outcomes_legal [OF that] by (simp add: list_all2_lengthD)
  have ne: "bounded_requests dp inp \<noteq> []"
    using assms(2) by (auto simp: schedulable_def bounded_requests_def solve_deadlines_def zip_eq_Nil_iff)
  obtain wk wc wp where wst: "w = (wk, wc, wp)" by (cases w) auto
  have warm: "(wk, wc, was) \<in> solve_outcomes dp inp" "wc = total_cost was"
    using w solve_outcome_cost by (auto simp: wst)
  from res show ?thesis
  proof (elim disjE exE conjE)
    assume "solve_batch dp ord timed_out inp = Some answer"
    with w(4) len [OF warm(1)] ne show ?thesis by auto
  next
    fix t assume batch: "solve_batch dp ord timed_out inp = Some (final_answer ?th answer t)"
      and inv: "table_inv dp (solve_env_of dp inp) (bounded_requests dp inp) (initial_key dp inp) w t"
    have t: "t \<noteq> []" "set t \<subseteq> solve_outcomes dp inp"
      using inv by (auto simp: table_inv_def covers_def)
    obtain c' p' where c': "(wk, c', p') \<in> set t" "c' \<le> total_cost was"
      using inv warm(2) by (auto simp: table_inv_def covers_def wst)
    have th: "within_threshold ?th wk" using w(3) by (simp add: wst)
    obtain k c p where best: "(k, c, p) \<in> set t" "final_answer ?th answer t = p"
      and least: "c \<le> c'"
      using final_answer_spec [OF t(1), of ?th answer] c'(1) th by blast
    have "c = total_cost p" and "length p = length (bounded_requests dp inp)"
      using best(1) t(2) solve_outcome_cost len by blast+
    with best(2) least c'(2) ne show ?thesis by (auto simp: batch)
  qed
qed

section \<open>The greedy fallback\<close>

definition fallback_ok ::
    "dp_solver \<Rightarrow> slot \<Rightarrow> int list \<Rightarrow> flavour_overrides \<Rightarrow> solve_request list \<Rightarrow> bool" where
  "fallback_ok dp current base overrides rs \<longleftrightarrow>
     in_i32 (dp_window_size dp) \<and> 0 \<le> current
     \<and> int (length (dp_carbon_forecast dp)) = dp_window_size dp
     \<and> int (length base) = dp_window_size dp
     \<and> list_all (\<lambda>r. flavours_for dp (sr_request_id r) overrides \<noteq> []) rs"

definition fallback_deadline :: "dp_solver \<Rightarrow> slot \<Rightarrow> solve_request \<Rightarrow> slot" where
  "fallback_deadline dp current r = min (max (sr_deadline_slot r) current) (dp_window_size dp - 1)"

definition fallback_placement :: "dp_solver \<Rightarrow> slot \<Rightarrow> flavour_overrides \<Rightarrow> solve_request \<Rightarrow> request_assignment \<Rightarrow> bool" where
  "fallback_placement dp current overrides r a \<longleftrightarrow>
     ra_request_id a = sr_request_id r
     \<and> earliest_of current r \<le> ra_slot a \<and> ra_slot a \<le> fallback_deadline dp current r
     \<and> (\<exists>f\<in>set (flavours_for dp (sr_request_id r) overrides).
          ra_flavour_name a = fl_name f \<and> ra_error a = fl_error f
          \<and> (\<forall>g\<in>set (flavours_for dp (sr_request_id r) overrides). fl_duration g \<le> fl_duration f))"

lemma fallback_scan_total:
  assumes "\<And>s. s \<in> set ss \<Longrightarrow> \<exists>c. incremental_carbon_cost dp s dur base inc tiers = Some c"
  shows "\<exists>best'. fallback_scan dp dur base inc tiers ss best = Some best'
    \<and> (best' = None \<longleftrightarrow> ss = [] \<and> best = None)
    \<and> (\<forall>c s. best' = Some (c, s) \<longrightarrow> best = Some (c, s)
          \<or> (s \<in> set ss \<and> incremental_carbon_cost dp s dur base inc tiers = Some c))"
  using assms
proof (induction ss arbitrary: best)
  case (Cons x xs)
  obtain c where c: "incremental_carbon_cost dp x dur base inc tiers = Some c"
    using Cons.prems [of x] by auto
  let ?best = "if cheaper c fst best then Some (c, x) else best"
  obtain b' where b': "fallback_scan dp dur base inc tiers xs ?best = Some b'"
    "b' = None \<longleftrightarrow> xs = [] \<and> ?best = None"
    "\<forall>c s. b' = Some (c, s) \<longrightarrow> ?best = Some (c, s)
          \<or> (s \<in> set xs \<and> incremental_carbon_cost dp s dur base inc tiers = Some c)"
    using Cons.IH [of ?best] Cons.prems by auto
  have "?best \<noteq> None" by (simp add: cheaper_def split: option.splits)
  with b' c show ?case by (auto split: if_splits)
qed simp

lemma fallback_loop_spec:
  assumes "in_i32 (dp_window_size dp)" and "0 \<le> current"
    and "int (length (dp_carbon_forecast dp)) = dp_window_size dp"
  shows "int (length inc) = dp_window_size dp \<Longrightarrow>
    list_all (\<lambda>r. flavours_for dp (sr_request_id r) overrides \<noteq> []) rs \<Longrightarrow>
    \<exists>as. fallback_loop dp current tiers overrides rs inc acc = Some (acc @ as)
      \<and> list_all2 (fallback_placement dp current overrides)
          (filter (\<lambda>r. earliest_of current r \<le> fallback_deadline dp current r) rs) as"
proof (induction rs arbitrary: inc acc)
  case (Cons r rs)
  let ?T = "dp_window_size dp" and ?d = "fallback_deadline dp current r"
    and ?fs = "flavours_for dp (sr_request_id r) overrides"
  have T: "0 \<le> ?T" using assms(3) by linarith
  have sub: "i32_sub ?T 1 = ?T - 1"
    using assms(1) T by (intro i32_sub_nonneg_exact) (auto simp: in_i32_def)
  have "max_by_key fl_duration ?fs \<noteq> None" using Cons.prems(2) by simp
  then obtain f where f: "max_by_key fl_duration ?fs = Some f" by blast
  note f_in = max_by_key_in [OF f] and f_max = max_by_key_ge [OF f]
  let ?price = "\<lambda>s. incremental_carbon_cost dp s (fl_duration f) (replicate (nat ?T) 0) inc tiers"
  have priced: "\<exists>c. ?price s = Some c" if "s \<in> set [earliest_of current r..?d]" for s
  proof -
    have "0 \<le> s" "s < ?T"
      using that assms(2) by (auto simp: earliest_of_def fallback_deadline_def)
    then show ?thesis
      using assms(3) Cons.prems(1) by (auto simp: incremental_carbon_cost_def Let_def nat_less_iff)
  qed
  obtain best where scan: "fallback_scan dp (fl_duration f) (replicate (nat ?T) 0) inc tiers
        [earliest_of current r..?d] None = Some best"
    and none: "best = None \<longleftrightarrow> [earliest_of current r..?d] = []"
    and some: "\<And>c s. best = Some (c, s) \<Longrightarrow> s \<in> set [earliest_of current r..?d]"
    using fallback_scan_total [of "[earliest_of current r..?d]", OF priced, where best = None] by auto
  have unfold: "fallback_loop dp current tiers overrides (r # rs) inc acc =
      (case best of None \<Rightarrow> fallback_loop dp current tiers overrides rs inc acc
       | Some (cost, s) \<Rightarrow> fallback_loop dp current tiers overrides rs (inc[nat s := inc ! nat s + 1])
                (acc @ [placed r (f, s) cost]))"
    using f scan T by (simp add: sub fallback_deadline_def split: option.splits)
  have fl: "list_all (\<lambda>r. flavours_for dp (sr_request_id r) overrides \<noteq> []) rs"
    using Cons.prems(2) by simp
  show ?case
  proof (cases best)
    case None
    then have "\<not> earliest_of current r \<le> ?d" using none by (metis upto_Nil2 not_le upto_empty)
    with Cons.IH [OF Cons.prems(1) fl, of acc] None show ?thesis
      by (simp add: unfold del: fallback_loop.simps)
  next
    case (Some b)
    obtain cost s where b: "b = (cost, s)" by (cases b) auto
    have s: "earliest_of current r \<le> s" "s \<le> ?d" using some Some b by auto
    let ?a = "placed r (f, s) cost" and ?inc = "inc[nat s := inc ! nat s + 1]"
    have "int (length ?inc) = ?T" using Cons.prems(1) by simp
    from Cons.IH [OF this fl, of "acc @ [?a]"] obtain as where
      as: "fallback_loop dp current tiers overrides rs ?inc (acc @ [?a]) = Some ((acc @ [?a]) @ as)"
      and all: "list_all2 (fallback_placement dp current overrides)
          (filter (\<lambda>r. earliest_of current r \<le> fallback_deadline dp current r) rs) as" by blast
    have "fallback_placement dp current overrides r ?a"
      using s f_in f_max by (auto simp: fallback_placement_def placed_def)
    with as all s show ?thesis
      by (intro exI [of _ "?a # as"]) (simp add: unfold Some b del: fallback_loop.simps)
  qed
qed simp

text \<open>
  The fallback covers every request that has a legal slot. It never panics; the
  requests it leaves out are exactly those whose earliest slot lies past their deadline
  or the horizon; every other one gets, in order, its longest flavour in a slot between
  its earliest slot and its deadline.
\<close>

theorem greedy_fallback_covers:
  assumes "fallback_ok dp current base overrides rs"
  shows "case greedy_fallback dp rs current tiers base overrides of
      None \<Rightarrow> False
    | Some as \<Rightarrow> list_all2 (fallback_placement dp current overrides)
          (filter (\<lambda>r. earliest_of current r \<le> fallback_deadline dp current r) rs) as"
proof -
  have "in_i32 (dp_window_size dp)" "0 \<le> current"
    "int (length (dp_carbon_forecast dp)) = dp_window_size dp" "int (length base) = dp_window_size dp"
    "list_all (\<lambda>r. flavours_for dp (sr_request_id r) overrides \<noteq> []) rs"
    using assms by (simp_all add: fallback_ok_def)
  from fallback_loop_spec [OF this(1-3) this(4,5), of tiers "[]"] show ?thesis
    by (auto simp: greedy_fallback_def)
qed

section \<open>An instance\<close>

text \<open>Two slots, the second one greener, one request with two flavours.\<close>

definition sample_solver :: dp_solver where
  "sample_solver =
     \<lparr>dp_flavours = [\<lparr>fl_name = ''Accurate'', fl_error = 0, fl_duration = 60\<rparr>,
                     \<lparr>fl_name = ''Fast'', fl_error = 5, fl_duration = 10\<rparr>],
      dp_carbon_forecast = [100, 50], dp_window_size = 2, dp_pruning = ''none'',
      dp_pruning_k = 10, dp_timeout = 1, dp_carbon_cost_scale = 1\<rparr>"

definition sample_input :: solve_batch_input where
  "sample_input =
     \<lparr>si_requests = [\<lparr>sr_request_id = 7, sr_earliest_slot = 0, sr_deadline_slot = 1\<rparr>],
      si_current_slot = 0, si_capacity_multiplier = 1, si_capacity_tiers = [],
      si_baseline_slot_counts = [],
      si_error_window_baseline = \<lparr>eb_error_sum = 0, eb_request_count = 0\<rparr>,
      si_max_error_threshold = None, si_error_window_past = 1, si_error_window_future = 1,
      si_assignment_max_slot = None,
      si_dynamic_mock_pool = \<lparr>mp_initial_count = 0, mp_error_per_request = 0\<rparr>,
      si_request_flavours = []\<rparr>"

lemma sample_ok: "solve_ok sample_solver sample_input"
  by (simp add: solve_ok_def sample_solver_def sample_input_def in_i32_def flavours_for_def)

lemma sample_schedulable: "schedulable sample_solver sample_input"
  by (simp add: schedulable_def sample_solver_def sample_input_def bounded_requests_def
      solve_deadlines_def assignment_cap_def earliest_of_def i32_sub_def wrap32_def)

lemma identity_order: "valid_order (\<lambda>n t. t)"
  by (simp add: valid_order_def)

lemma solve_batch_sound_witness:
  "\<exists>as. solve_batch sample_solver (\<lambda>n t. t) (\<lambda>n. n = 3) sample_input = Some as
    \<and> (as = [] \<or> list_all2 (legal_assignment sample_solver (solve_env_of sample_solver sample_input))
          (bounded_requests sample_solver sample_input) as)"
  using solve_batch_sound [OF sample_ok identity_order, of "\<lambda>n. n = 3"]
  by (auto split: option.splits)

lemma solve_batch_optimal_witness:
  "\<exists>as. solve_batch sample_solver (\<lambda>n t. t) (\<lambda>_. False) sample_input = Some as
    \<and> (\<forall>(k, c, p)\<in>solve_outcomes sample_solver sample_input. total_cost as \<le> c)"
proof -
  have th: "within_threshold (si_max_error_threshold sample_input) k" for k
    by (simp add: within_threshold_def sample_input_def)
  obtain w wkeys answer where "solve_shape sample_solver (\<lambda>n t. t) (\<lambda>_. False) sample_input w answer"
    using solve_batch_cases [OF sample_ok sample_schedulable identity_order] .
  then have "w \<in> solve_outcomes sample_solver sample_input" by (simp add: solve_shape_def)
  then have "\<exists>(k, e)\<in>solve_outcomes sample_solver sample_input. True" by (cases w) auto
  with solve_batch_optimal [OF sample_ok sample_schedulable identity_order, of "\<lambda>_. False"]
  show ?thesis by (auto simp: th sample_solver_def split: option.splits if_splits)
qed

lemma solve_batch_incumbent_witness:
  "\<exists>as. solve_batch (sample_solver\<lparr>dp_pruning := ''beam'', dp_pruning_k := 0\<rparr>) (\<lambda>n t. t) (\<lambda>n. n = 3)
      sample_input = Some as \<and> as \<noteq> []"
proof -
  let ?dp = "sample_solver\<lparr>dp_pruning := ''beam'', dp_pruning_k := 0\<rparr>"
  have ok: "solve_ok ?dp sample_input"
    by (simp add: solve_ok_def sample_solver_def sample_input_def in_i32_def flavours_for_def)
  have sched: "schedulable ?dp sample_input"
    by (simp add: schedulable_def sample_solver_def sample_input_def bounded_requests_def
        solve_deadlines_def assignment_cap_def earliest_of_def i32_sub_def wrap32_def)
  note fits = solve_env_fits [OF ok sched]
  obtain ws where seq: "compute_sequential_solution ?dp (solve_env_of ?dp sample_input)
      (bounded_requests ?dp sample_input) (initial_key ?dp sample_input)
      = Some (snd (snd (last ws)), map fst ws)"
    and "hd ws = (initial_key ?dp sample_input, 0, [])"
    and "chain ?dp (solve_env_of ?dp sample_input) (bounded_requests ?dp sample_input) ws"
    using compute_sequential_chain [OF fits(1,3,2)] .
  have "warm_is_feasible (si_max_error_threshold sample_input) (map fst ws)"
    by (simp add: warm_is_feasible_def sample_input_def)
  from solve_batch_incumbent [OF ok sched identity_order seq this] show ?thesis by blast
qed

lemma greedy_fallback_covers_witness:
  "\<exists>as. greedy_fallback sample_solver (si_requests sample_input) 0 [] [0, 0] [] = Some as
    \<and> length as = 1"
proof -
  have "fallback_ok sample_solver 0 [0, 0] [] (si_requests sample_input)"
    by (simp add: fallback_ok_def sample_solver_def sample_input_def in_i32_def flavours_for_def)
  from greedy_fallback_covers [OF this, of "[]"] show ?thesis
    by (auto simp: sample_solver_def sample_input_def earliest_of_def fallback_deadline_def
        dest: list_all2_lengthD split: option.splits)
qed

end
