(* ===== verification/Recovery.thy ===== *)
theory Recovery
  imports Dp_Solver
begin

text \<open>
  Error-budget recovery (\<open>engine/scheduler/recovery.rs\<close>): the weighted baseline, its
  augmentation with decayed and virtual history, and the per-profile synthetic pool that
  retries of a slot share. The normal distribution of the random-number crates is the
  parameter \<open>sample rate sigma seed\<close>; the code draws one value per seeded generator.
  The lemmas show that profiles are isolated, that retries see the same inputs and that
  the pool and the influence stay within their bounds.
\<close>

section \<open>State\<close>

record persistent_mock_pool =
  mk_slot :: "slot option"
  mk_mode :: "string option"
  mk_remaining :: int
  mk_error :: f64

record mock_influence_state =
  mi_base :: f64
  mi_effective :: f64
  mi_above_threshold_streak :: int
  mi_last_eval_slot :: "slot option"

record recovery_data =
  rd_mock_pool :: persistent_mock_pool
  rd_mock_influence :: mock_influence_state

type_synonym recovery_state = "(qos_profile_id, recovery_data) hmap"

definition mock_pool_default :: persistent_mock_pool where
  "mock_pool_default = \<lparr>mk_slot = None, mk_mode = None, mk_remaining = 0, mk_error = 0\<rparr>"

definition recovery_data_new :: "f64 \<Rightarrow> recovery_data" where
  "recovery_data_new base_influence =
     \<lparr>rd_mock_pool = mock_pool_default,
      rd_mock_influence = \<lparr>mi_base = base_influence, mi_effective = base_influence,
        mi_above_threshold_streak = 0, mi_last_eval_slot = None\<rparr>\<rparr>"

definition recovery_state_new :: recovery_state where
  "recovery_state_new = []"

text \<open>\<open>RecoveryState::profile_state\<close>: the entry, inserted on first use.\<close>

definition profile_state :: "qos_profile_id \<Rightarrow> f64 \<Rightarrow> recovery_state \<Rightarrow> recovery_data" where
  "profile_state pid base rs =
     (case map_of rs pid of Some d \<Rightarrow> d | None \<Rightarrow> recovery_data_new base)"

record error_baseline =
  bl_error_sum :: f64
  bl_request_count :: f64
  bl_average_error :: f64

definition error_baseline_new :: "f64 \<Rightarrow> f64 \<Rightarrow> error_baseline" where
  "error_baseline_new error_sum request_count =
     \<lparr>bl_error_sum = error_sum, bl_request_count = request_count,
      bl_average_error = (if 0 < request_count then error_sum / request_count else 0)\<rparr>"

definition clamp01 :: "f64 \<Rightarrow> f64" where
  "clamp01 x = max 0 (min 1 x)"

definition u64_wrap :: "int \<Rightarrow> nat" where
  "u64_wrap x = nat (x mod 18446744073709551616)"

section \<open>Baseline augmentation\<close>

text \<open>The loop over the decayed slots; the accumulator is the weighted count and sum.\<close>

fun decayed_past_loop ::
    "slot \<Rightarrow> int \<Rightarrow> nat \<Rightarrow> qos_profile_id \<Rightarrow> solver_snapshot \<Rightarrow> request_id set \<Rightarrow> nat list
     \<Rightarrow> f64 \<times> f64 \<Rightarrow> f64 \<times> f64" where
  "decayed_past_loop current past decay pid sn exclude [] acc = acc"
| "decayed_past_loop current past decay pid sn exclude (idx # is) (wc, ws) =
     (let slot = i32_sub (i32_sub current past) (int idx);
          found = filter (\<lambda>a. as_request_id a \<notin> exclude) (snap_get_profile_requests_in_slot sn pid slot);
          n = length found
      in if n = 0 then decayed_past_loop current past decay pid sn exclude is (wc, ws)
         else let avg = sum_list (map as_error found) / real n;
                  weight = real (decay - idx + 1) / real (decay + 1)
              in decayed_past_loop current past decay pid sn exclude is
                   (wc + real n * weight, ws + avg * real n * weight))"

definition augment_with_decayed_past ::
    "slot \<Rightarrow> error_baseline \<Rightarrow> qos_profile_id \<Rightarrow> assignment_policy \<Rightarrow> solver_snapshot
     \<Rightarrow> request_id set \<Rightarrow> error_baseline" where
  "augment_with_decayed_past current baseline pid pol sn exclude =
     (let decay = nat (max (pol_error_window_past_decay_slots pol) 0)
      in if decay = 0 then baseline
         else let (wc, ws) = decayed_past_loop current (pol_error_window_past pol) decay pid sn exclude
                               [1..<decay + 1] (0, 0)
              in if wc \<le> 0 then baseline
                 else error_baseline_new (bl_error_sum baseline + ws) (bl_request_count baseline + wc))"

type_synonym sampler = "f64 \<Rightarrow> f64 \<Rightarrow> nat \<Rightarrow> f64"

fun virtual_count_loop ::
    "sampler \<Rightarrow> simulation_config \<Rightarrow> infeasibility_config \<Rightarrow> slot \<Rightarrow> int \<Rightarrow> int list \<Rightarrow> int \<Rightarrow> int" where
  "virtual_count_loop sample sim rec current missing [] acc = acc"
| "virtual_count_loop sample sim rec current missing (offset # os) acc =
     (let rate = sim_predicted_requests_per_slot sim;
          sigma = max (rate * sim_request_rate_std_factor sim) 1;
          seed = u64_wrap (int (inf_prehistory_random_seed rec)
                   + int (u64_wrap (int (u64_wrap current) - (missing + offset))));
          count' = (if inf_prehistory_stochastic_counts rec
                    then max (f64_as_i32 (sample rate sigma seed)) 1
                    else f64_as_i32 (max (real_of_int (f64_round rate)) 1))
      in virtual_count_loop sample sim rec current missing os (i32_add acc count'))"

definition augment_with_virtual_prehistory ::
    "sampler \<Rightarrow> slot \<Rightarrow> error_baseline \<Rightarrow> assignment_policy \<Rightarrow> simulation_config
     \<Rightarrow> infeasibility_config \<Rightarrow> error_baseline" where
  "augment_with_virtual_prehistory sample current baseline pol sim rec =
     (if \<not> inf_prehistory_use_virtual_past rec then baseline
      else let missing = max (i32_sub (pol_error_window_past pol) current) 0
      in if missing = 0 then baseline
      else let avg = pol_max_error_threshold pol * inf_prehistory_error_ratio_of_threshold rec;
               requests = virtual_count_loop sample sim rec current missing [0..missing - 1] 0
      in if requests \<le> 0 then baseline
      else error_baseline_new (bl_error_sum baseline + real_of_int requests * avg)
             (bl_request_count baseline + real_of_int requests))"

section \<open>The synthetic pool\<close>

definition resolve_mock_error :: "f64 \<Rightarrow> infeasibility_config \<Rightarrow> f64" where
  "resolve_mock_error fallback rec =
     (case inf_mock_error_per_request rec of Some v \<Rightarrow> max v 0 | None \<Rightarrow> max fallback 0)"

definition mock_source ::
    "sampler \<Rightarrow> slot \<Rightarrow> qos_profile_id \<Rightarrow> string \<Rightarrow> assignment_policy \<Rightarrow> simulation_config
     \<Rightarrow> infeasibility_config \<Rightarrow> solver_snapshot \<Rightarrow> (int \<times> f64) option" where
  "mock_source sample slot pid mode pol sim rec sn =
     (if mode = ''carryover'' then
        (let window_start = max (i32_sub slot (pol_error_window_past pol)) 0;
             dropped_slot = window_start - 1
         in if dropped_slot < 0 then None
            else let dropped = snap_get_profile_requests_in_slot sn pid dropped_slot;
                     n = length dropped
                 in if n = 0 then None
                    else Some (int n, resolve_mock_error
                                        (sum_list (map as_error dropped) / real n) rec))
      else if mode = ''forecast'' then
        (let rate = sim_predicted_requests_per_slot sim;
             sigma = max (rate * sim_request_rate_std_factor sim) 1;
             seed = u64_wrap (int (inf_prehistory_random_seed rec) + int (u64_wrap slot));
             n = max (f64_as_i32 (sample rate sigma seed)) 0;
             default_err = pol_max_error_threshold pol * inf_forecast_error_ratio_of_threshold rec
         in Some (n, resolve_mock_error default_err rec))
      else None)"

definition compute_mock_seed ::
    "sampler \<Rightarrow> slot \<Rightarrow> qos_profile_id \<Rightarrow> string \<Rightarrow> assignment_policy \<Rightarrow> simulation_config
     \<Rightarrow> infeasibility_config \<Rightarrow> f64 \<Rightarrow> solver_snapshot \<Rightarrow> int \<times> f64" where
  "compute_mock_seed sample slot pid mode pol sim rec influence sn =
     (case mock_source sample slot pid mode pol sim rec sn of
        None \<Rightarrow> (0, 0)
      | Some (count0, error) \<Rightarrow>
         (let count' = (if 0 < count0
                        then f64_as_i32 (real_of_int (f64_round (real_of_int count0 * influence)))
                        else count0)
          in (max count' 0, max error 0)))"

definition update_mock_influence ::
    "slot \<Rightarrow> f64 \<Rightarrow> f64 \<Rightarrow> qos_profile_id \<Rightarrow> infeasibility_config \<Rightarrow> recovery_state \<Rightarrow> recovery_state" where
  "update_mock_influence slot baseline_avg threshold pid rec rs =
     (let base = clamp01 (inf_mock_influence rec);
          d = profile_state pid base rs;
          mi = rd_mock_influence d
      in if mi_last_eval_slot mi = Some slot then hm_insert pid d rs
         else let decay = max (inf_mock_influence_decay_step rec) 0;
                  mi' = (if threshold < baseline_avg
                         then let streak = mi_above_threshold_streak mi + 1
                              in mi\<lparr>mi_base := base, mi_above_threshold_streak := streak,
                                    mi_effective := max (base - real_of_int streak * decay) 0\<rparr>
                         else mi\<lparr>mi_base := base, mi_above_threshold_streak := 0,
                                 mi_effective := base\<rparr>)
              in hm_insert pid (d\<lparr>rd_mock_influence := mi'\<lparr>mi_last_eval_slot := Some slot\<rparr>\<rparr>) rs)"

definition get_or_seed_mock_pool ::
    "sampler \<Rightarrow> slot \<Rightarrow> qos_profile_id \<Rightarrow> string \<Rightarrow> assignment_policy \<Rightarrow> simulation_config
     \<Rightarrow> infeasibility_config \<Rightarrow> solver_snapshot \<Rightarrow> recovery_state \<Rightarrow> (int \<times> f64) \<times> recovery_state" where
  "get_or_seed_mock_pool sample slot pid mode pol sim rec sn rs =
     (let d = profile_state pid (clamp01 (inf_mock_influence rec)) rs;
          pool = rd_mock_pool d
      in if mk_slot pool = Some slot \<and> mk_mode pool = Some mode
         then ((mk_remaining pool, mk_error pool), hm_insert pid d rs)
         else let (n, e) = compute_mock_seed sample slot pid mode pol sim rec
                             (mi_effective (rd_mock_influence d)) sn;
                  pool' = \<lparr>mk_slot = Some slot, mk_mode = Some mode, mk_remaining = max n 0,
                           mk_error = max e 0\<rparr>
              in ((mk_remaining pool', mk_error pool'), hm_insert pid (d\<lparr>rd_mock_pool := pool'\<rparr>) rs))"

definition reset_mock_pool :: "qos_profile_id \<Rightarrow> recovery_state \<Rightarrow> recovery_state" where
  "reset_mock_pool pid rs =
     (case map_of rs pid of
        None \<Rightarrow> rs
      | Some d \<Rightarrow> hm_insert pid (d\<lparr>rd_mock_pool := mock_pool_default\<rparr>) rs)"

definition normal_mode :: "string \<Rightarrow> string" where
  "normal_mode m = to_ascii_lowercase (str_trim m)"

definition apply_infeasibility_recovery ::
    "sampler \<Rightarrow> slot \<Rightarrow> error_baseline \<Rightarrow> qos_profile_id \<Rightarrow> assignment_policy \<Rightarrow> simulation_config
     \<Rightarrow> infeasibility_config \<Rightarrow> solver_snapshot \<Rightarrow> recovery_state
     \<Rightarrow> (error_baseline \<times> mock_pool) \<times> recovery_state" where
  "apply_infeasibility_recovery sample current baseline pid pol sim rec sn rs =
     (let mode = normal_mode (inf_recovery_mode rec);
          no_pool = \<lparr>mp_initial_count = 0, mp_error_per_request = 0\<rparr>;
          rs1 = update_mock_influence current (bl_average_error baseline)
                  (pol_max_error_threshold pol) pid rec rs
      in if mode = ''min_error_greedy'' then ((baseline, no_pool), reset_mock_pool pid rs1)
         else let ((n, e), rs2) = get_or_seed_mock_pool sample current pid mode pol sim rec sn rs1
              in if n \<le> 0 \<or> e \<le> 0 then ((baseline, no_pool), rs2)
                 else ((error_baseline_new (bl_error_sum baseline + real_of_int n * e)
                          (bl_request_count baseline + real_of_int n),
                        \<lparr>mp_initial_count = n, mp_error_per_request = e\<rparr>), rs2))"

definition consume_mock_pool ::
    "slot \<Rightarrow> string \<Rightarrow> int \<Rightarrow> qos_profile_id \<Rightarrow> string \<Rightarrow> recovery_state \<Rightarrow> recovery_state" where
  "consume_mock_pool slot mode consumed pid recovery_mode rs =
     (if normal_mode recovery_mode = ''min_error_greedy'' then rs
      else case map_of rs pid of
        None \<Rightarrow> rs
      | Some d \<Rightarrow>
         (let pool = rd_mock_pool d
          in if mk_slot pool = Some slot \<and> mk_mode pool = Some mode
             then hm_insert pid
                    (d\<lparr>rd_mock_pool := pool\<lparr>mk_remaining := max (mk_remaining pool - max consumed 0) 0\<rparr>\<rparr>) rs
             else rs))"

section \<open>Isolation, bounds, and retries\<close>

text \<open>The pool and the influence of every profile stay within their bounds.\<close>

definition recovery_data_ok :: "recovery_data \<Rightarrow> bool" where
  "recovery_data_ok d \<longleftrightarrow>
     0 \<le> mk_remaining (rd_mock_pool d) \<and> 0 \<le> mk_error (rd_mock_pool d)
     \<and> 0 \<le> mi_effective (rd_mock_influence d)
     \<and> mi_effective (rd_mock_influence d) \<le> mi_base (rd_mock_influence d)
     \<and> mi_base (rd_mock_influence d) \<le> 1
     \<and> 0 \<le> mi_above_threshold_streak (rd_mock_influence d)"

definition recovery_ok :: "recovery_state \<Rightarrow> bool" where
  "recovery_ok rs \<longleftrightarrow> (\<forall>pid d. map_of rs pid = Some d \<longrightarrow> recovery_data_ok d)"

lemma clamp01_bounds [simp]: "0 \<le> clamp01 x" "clamp01 x \<le> 1"
  by (simp_all add: clamp01_def)

lemma recovery_data_new_ok: "recovery_data_ok (recovery_data_new (clamp01 x))"
  by (simp add: recovery_data_ok_def recovery_data_new_def mock_pool_default_def)

lemma profile_state_ok: "recovery_ok rs \<Longrightarrow> recovery_data_ok (profile_state pid (clamp01 x) rs)"
  by (auto simp: profile_state_def recovery_ok_def recovery_data_new_ok split: option.splits)

lemma recovery_ok_insert: "recovery_ok rs \<Longrightarrow> recovery_data_ok d \<Longrightarrow> recovery_ok (hm_insert pid d rs)"
  by (auto simp: recovery_ok_def map_simps)

lemma update_mock_influence_ok:
  assumes "recovery_ok rs"
  shows "recovery_ok (update_mock_influence slot avg th pid rec rs)"
proof -
  let ?d = "profile_state pid (clamp01 (inf_mock_influence rec)) rs"
  have d: "recovery_data_ok ?d" using assms by (rule profile_state_ok)
  have "0 \<le> real_of_int (mi_above_threshold_streak (rd_mock_influence ?d) + 1)
      * max (inf_mock_influence_decay_step rec) 0"
    using d by (simp add: recovery_data_ok_def)
  with d assms show ?thesis
    unfolding update_mock_influence_def Let_def
    by (auto intro!: recovery_ok_insert simp: recovery_data_ok_def)
qed

lemma get_or_seed_ok:
  assumes "recovery_ok rs"
  shows "recovery_ok (snd (get_or_seed_mock_pool sample slot pid mode pol sim rec sn rs))"
proof -
  have "recovery_data_ok (profile_state pid (clamp01 (inf_mock_influence rec)) rs)"
    using assms by (rule profile_state_ok)
  with assms show ?thesis
    by (auto simp: get_or_seed_mock_pool_def Let_def case_prod_unfold recovery_data_ok_def
        intro!: recovery_ok_insert)
qed

lemma reset_mock_pool_ok: "recovery_ok rs \<Longrightarrow> recovery_ok (reset_mock_pool pid rs)"
  by (auto simp: reset_mock_pool_def mock_pool_default_def recovery_data_ok_def recovery_ok_def
      map_simps split: option.splits if_splits)

lemma apply_recovery_state:
  "snd (apply_infeasibility_recovery sample current baseline pid pol sim rec sn rs) =
     (let rs1 = update_mock_influence current (bl_average_error baseline)
                  (pol_max_error_threshold pol) pid rec rs
      in if normal_mode (inf_recovery_mode rec) = ''min_error_greedy'' then reset_mock_pool pid rs1
         else snd (get_or_seed_mock_pool sample current pid (normal_mode (inf_recovery_mode rec))
                     pol sim rec sn rs1))"
  by (simp add: apply_infeasibility_recovery_def Let_def case_prod_unfold)

lemma mode_cases:
  obtains "normal_mode m = ''min_error_greedy''" | "normal_mode m \<noteq> ''min_error_greedy''"
  by blast

text \<open>
  Recovery stays within bounds. Starting from a state in bounds, one application
  returns a non-negative pool and leaves every profile with a non-negative pool and an
  influence between 0 and its configured base, itself at most 1; consuming any
  amount keeps the bounds.
\<close>

theorem recovery_bounds:
  assumes "recovery_ok rs"
  shows "case apply_infeasibility_recovery sample current baseline pid pol sim rec sn rs of
      ((bl, pool), rs') \<Rightarrow> 0 \<le> mp_initial_count pool \<and> 0 \<le> mp_error_per_request pool
        \<and> recovery_ok rs' \<and> recovery_ok (consume_mock_pool slot m k pid rm rs')"
proof -
  let ?res = "apply_infeasibility_recovery sample current baseline pid pol sim rec sn rs"
  have ok: "recovery_ok (snd ?res)"
    using assms by (simp add: apply_recovery_state Let_def update_mock_influence_ok
        reset_mock_pool_ok get_or_seed_ok)
  have "recovery_ok (consume_mock_pool slot m k pid rm (snd ?res))"
    using ok by (auto simp: consume_mock_pool_def Let_def recovery_ok_def recovery_data_ok_def
        map_simps split: option.splits if_splits)
  moreover have "0 \<le> mp_initial_count (snd (fst ?res)) \<and> 0 \<le> mp_error_per_request (snd (fst ?res))"
    by (auto simp: apply_infeasibility_recovery_def Let_def case_prod_unfold)
  ultimately show ?thesis using ok by (simp add: case_prod_unfold)
qed

lemma recovery_bounds_witness:
  "recovery_ok (snd (apply_infeasibility_recovery (\<lambda>r s n. r) 20 (error_baseline_new 10 2)
     default_profile (assignment_policy_of config_default) simulation_config_default
     infeasibility_config_default \<lparr>sn_assignments = [], sn_global_error_sum = 0,
       sn_global_assignment_count = 0, sn_profile_error_stats = []\<rparr> recovery_state_new))"
proof -
  have "recovery_ok recovery_state_new" by (simp add: recovery_ok_def recovery_state_new_def)
  from recovery_bounds [OF this] show ?thesis by (auto simp: case_prod_unfold)
qed

lemma update_mock_influence_other:
  "q \<noteq> pid \<Longrightarrow> map_of (update_mock_influence slot avg th pid rec rs) q = map_of rs q"
  by (simp add: update_mock_influence_def Let_def map_simps)

lemma get_or_seed_other:
  "q \<noteq> pid \<Longrightarrow>
   map_of (snd (get_or_seed_mock_pool sample slot pid mode pol sim rec sn rs)) q = map_of rs q"
  by (auto simp: get_or_seed_mock_pool_def Let_def case_prod_unfold map_simps)

lemma reset_mock_pool_other: "q \<noteq> pid \<Longrightarrow> map_of (reset_mock_pool pid rs) q = map_of rs q"
  by (auto simp: reset_mock_pool_def map_simps split: option.splits)

text \<open>
  Profiles are isolated. Applying recovery for one profile, or consuming its pool,
  leaves the recovery state of every other profile unchanged.
\<close>

theorem recovery_isolated:
  assumes "q \<noteq> pid"
  shows "map_of (snd (apply_infeasibility_recovery sample current baseline pid pol sim rec sn rs)) q
           = map_of rs q
    \<and> map_of (consume_mock_pool slot m k pid rm rs) q = map_of rs q"
proof
  show "map_of (snd (apply_infeasibility_recovery sample current baseline pid pol sim rec sn rs)) q
      = map_of rs q"
    using assms by (simp add: apply_recovery_state Let_def update_mock_influence_other
        reset_mock_pool_other get_or_seed_other)
  show "map_of (consume_mock_pool slot m k pid rm rs) q = map_of rs q"
    using assms by (auto simp: consume_mock_pool_def Let_def map_simps split: option.splits)
qed

lemma recovery_isolated_witness:
  "map_of (consume_mock_pool 3 ''carryover'' 1 default_profile ''carryover''
     [(QosProfileId ''qa'', recovery_data_new 1), (default_profile, recovery_data_new 1)])
     (QosProfileId ''qa'') = Some (recovery_data_new 1)"
  using recovery_isolated [of "QosProfileId ''qa''" default_profile]
  by (simp add: default_profile_def)

text \<open>A second evaluation of the influence within a slot changes nothing.\<close>

lemma update_mock_influence_lookup:
  obtains d where "map_of (update_mock_influence slot avg th pid rec rs) pid = Some d"
    and "mi_last_eval_slot (rd_mock_influence d) = Some slot"
    and "rd_mock_pool d = rd_mock_pool (profile_state pid (clamp01 (inf_mock_influence rec)) rs)"
  by (rule that [of "the (map_of (update_mock_influence slot avg th pid rec rs) pid)"])
    (simp_all add: update_mock_influence_def Let_def map_simps)

lemma update_mock_influence_again:
  assumes "map_of rs pid = Some d" and "mi_last_eval_slot (rd_mock_influence d) = Some slot"
  shows "update_mock_influence slot avg th pid rec rs = rs"
  using assms by (simp add: update_mock_influence_def profile_state_def Let_def update_triv)

lemma get_or_seed_again:
  assumes "map_of rs pid = Some d" and "mk_slot (rd_mock_pool d) = Some slot"
    and "mk_mode (rd_mock_pool d) = Some mode"
  shows "get_or_seed_mock_pool sample slot pid mode pol sim rec sn rs
    = ((mk_remaining (rd_mock_pool d), mk_error (rd_mock_pool d)), rs)"
  using assms by (simp add: get_or_seed_mock_pool_def profile_state_def Let_def update_triv)

lemma get_or_seed_lookup:
  assumes "get_or_seed_mock_pool sample slot pid mode pol sim rec sn rs = ((n, e), rs')"
    and "map_of rs pid = Some d0"
  obtains d where "map_of rs' pid = Some d"
    and "rd_mock_pool d = \<lparr>mk_slot = Some slot, mk_mode = Some mode, mk_remaining = n, mk_error = e\<rparr>"
    and "rd_mock_influence d = rd_mock_influence d0"
proof (cases "mk_slot (rd_mock_pool d0) = Some slot \<and> mk_mode (rd_mock_pool d0) = Some mode")
  case True
  with assms have "n = mk_remaining (rd_mock_pool d0)" "e = mk_error (rd_mock_pool d0)" "rs' = rs"
    by (simp_all add: get_or_seed_again)
  with True assms(2) that [of d0] show ?thesis by simp
next
  case False
  let ?d = "d0\<lparr>rd_mock_pool := \<lparr>mk_slot = Some slot, mk_mode = Some mode, mk_remaining = n, mk_error = e\<rparr>\<rparr>"
  have "rs' = hm_insert pid ?d rs"
    using False assms
    by (auto simp: get_or_seed_mock_pool_def profile_state_def Let_def case_prod_unfold)
  with that [of ?d] show ?thesis by (simp add: map_simps)
qed

lemma apply_recovery_lookup:
  assumes mode: "normal_mode (inf_recovery_mode rec) \<noteq> ''min_error_greedy''"
    and res: "apply_infeasibility_recovery sample current baseline pid pol sim rec sn rs = ((bl, pool), rs')"
  obtains d n e where "map_of rs' pid = Some d"
    and "rd_mock_pool d = \<lparr>mk_slot = Some current, mk_mode = Some (normal_mode (inf_recovery_mode rec)),
           mk_remaining = n, mk_error = e\<rparr>"
    and "mi_last_eval_slot (rd_mock_influence d) = Some current"
    and "(bl, pool) = (if n \<le> 0 \<or> e \<le> 0
           then (baseline, \<lparr>mp_initial_count = 0, mp_error_per_request = 0\<rparr>)
           else (error_baseline_new (bl_error_sum baseline + real_of_int n * e)
                   (bl_request_count baseline + real_of_int n),
                 \<lparr>mp_initial_count = n, mp_error_per_request = e\<rparr>))"
proof -
  let ?m = "normal_mode (inf_recovery_mode rec)"
  let ?rs1 = "update_mock_influence current (bl_average_error baseline) (pol_max_error_threshold pol) pid rec rs"
  obtain d0 where d0: "map_of ?rs1 pid = Some d0" "mi_last_eval_slot (rd_mock_influence d0) = Some current"
    using update_mock_influence_lookup by blast
  obtain n e rs2 where seed: "get_or_seed_mock_pool sample current pid ?m pol sim rec sn ?rs1 = ((n, e), rs2)"
    by (metis prod.collapse)
  obtain d where d: "map_of rs2 pid = Some d"
    "rd_mock_pool d = \<lparr>mk_slot = Some current, mk_mode = Some ?m, mk_remaining = n, mk_error = e\<rparr>"
    "rd_mock_influence d = rd_mock_influence d0"
    using get_or_seed_lookup [OF seed d0(1)] .
  have "rs' = rs2" and "(bl, pool) = (if n \<le> 0 \<or> e \<le> 0
           then (baseline, \<lparr>mp_initial_count = 0, mp_error_per_request = 0\<rparr>)
           else (error_baseline_new (bl_error_sum baseline + real_of_int n * e)
                   (bl_request_count baseline + real_of_int n),
                 \<lparr>mp_initial_count = n, mp_error_per_request = e\<rparr>))"
    using res mode seed by (auto simp: apply_infeasibility_recovery_def Let_def split: if_splits)
  with d d0(2) that show ?thesis by simp
qed

lemma apply_recovery_from:
  assumes mode: "normal_mode (inf_recovery_mode rec) \<noteq> ''min_error_greedy''"
    and d: "map_of rs pid = Some d"
    and "rd_mock_pool d = \<lparr>mk_slot = Some current, mk_mode = Some (normal_mode (inf_recovery_mode rec)),
           mk_remaining = n, mk_error = e\<rparr>"
    and "mi_last_eval_slot (rd_mock_influence d) = Some current"
  shows "apply_infeasibility_recovery sample current baseline pid pol sim rec sn rs =
    ((if n \<le> 0 \<or> e \<le> 0
      then (baseline, \<lparr>mp_initial_count = 0, mp_error_per_request = 0\<rparr>)
      else (error_baseline_new (bl_error_sum baseline + real_of_int n * e)
              (bl_request_count baseline + real_of_int n),
            \<lparr>mp_initial_count = n, mp_error_per_request = e\<rparr>)), rs)"
  using assms
  by (simp add: apply_infeasibility_recovery_def Let_def update_mock_influence_again [OF d]
      get_or_seed_again [OF d])

text \<open>
  Retries of a slot see the same synthetic history. Applying recovery again in the
  same slot with the same baseline gives the same baseline and the same pool and does
  not change the state, in every mode that injects mocks; the influence decays at most
  once per slot.
\<close>

theorem recovery_retry_stable:
  assumes "normal_mode (inf_recovery_mode rec) \<noteq> ''min_error_greedy''"
    and "apply_infeasibility_recovery sample current baseline pid pol sim rec sn rs = (out, rs')"
  shows "apply_infeasibility_recovery sample' current baseline pid pol' sim' rec sn' rs' = (out, rs')"
proof -
  obtain bl pool where out: "out = (bl, pool)" by (cases out) auto
  obtain d n e where "map_of rs' pid = Some d"
    "rd_mock_pool d = \<lparr>mk_slot = Some current, mk_mode = Some (normal_mode (inf_recovery_mode rec)),
           mk_remaining = n, mk_error = e\<rparr>"
    "mi_last_eval_slot (rd_mock_influence d) = Some current"
    "(bl, pool) = (if n \<le> 0 \<or> e \<le> 0
           then (baseline, \<lparr>mp_initial_count = 0, mp_error_per_request = 0\<rparr>)
           else (error_baseline_new (bl_error_sum baseline + real_of_int n * e)
                   (bl_request_count baseline + real_of_int n),
                 \<lparr>mp_initial_count = n, mp_error_per_request = e\<rparr>))"
    using apply_recovery_lookup [OF assms(1) assms(2) [unfolded out]] .
  with apply_recovery_from [OF assms(1)] show ?thesis by (simp add: out)
qed

text \<open>
  Consumption is remembered. If a solve was given a pool of \<open>n > 0\<close> requests and
  \<open>k\<close> of them are consumed under the recovery mode's own label, the next application in
  that slot offers \<open>max (n - max k 0) 0\<close> requests at the same error; consuming under any
  other label leaves the pool as it was.
\<close>

theorem recovery_consumes:
  assumes "normal_mode (inf_recovery_mode rec) \<noteq> ''min_error_greedy''"
    and "apply_infeasibility_recovery sample current baseline pid pol sim rec sn rs = ((bl, pool), rs')"
    and "0 < mp_initial_count pool"
  shows "snd (fst (apply_infeasibility_recovery sample current baseline pid pol sim rec sn
            (consume_mock_pool current m k pid (inf_recovery_mode rec) rs')))
    = (if m = normal_mode (inf_recovery_mode rec)
       then (if mp_initial_count pool \<le> max k 0
             then \<lparr>mp_initial_count = 0, mp_error_per_request = 0\<rparr>
             else pool\<lparr>mp_initial_count := mp_initial_count pool - max k 0\<rparr>)
       else pool)"
proof -
  let ?m = "normal_mode (inf_recovery_mode rec)"
  obtain d n e where d: "map_of rs' pid = Some d"
    "rd_mock_pool d = \<lparr>mk_slot = Some current, mk_mode = Some ?m, mk_remaining = n, mk_error = e\<rparr>"
    "mi_last_eval_slot (rd_mock_influence d) = Some current"
    and out: "(bl, pool) = (if n \<le> 0 \<or> e \<le> 0
           then (baseline, \<lparr>mp_initial_count = 0, mp_error_per_request = 0\<rparr>)
           else (error_baseline_new (bl_error_sum baseline + real_of_int n * e)
                   (bl_request_count baseline + real_of_int n),
                 \<lparr>mp_initial_count = n, mp_error_per_request = e\<rparr>))"
    using apply_recovery_lookup [OF assms(1,2)] .
  have pool: "0 < n" "0 < e" "pool = \<lparr>mp_initial_count = n, mp_error_per_request = e\<rparr>"
    using out assms(3) by (auto split: if_splits)
  show ?thesis
  proof (cases "m = ?m")
    case False
    then have "consume_mock_pool current m k pid (inf_recovery_mode rec) rs' = rs'"
      using d assms(1) by (simp add: consume_mock_pool_def Let_def)
    with False pool apply_recovery_from [OF assms(1) d] show ?thesis by simp
  next
    case True
    let ?d = "d\<lparr>rd_mock_pool := (rd_mock_pool d)\<lparr>mk_remaining := max (n - max k 0) 0\<rparr>\<rparr>"
    have cons: "consume_mock_pool current m k pid (inf_recovery_mode rec) rs' = hm_insert pid ?d rs'"
      using d assms(1) True by (simp add: consume_mock_pool_def Let_def)
    have "apply_infeasibility_recovery sample current baseline pid pol sim rec sn (hm_insert pid ?d rs')
      = ((if max (n - max k 0) 0 \<le> 0 \<or> e \<le> 0
          then (baseline, \<lparr>mp_initial_count = 0, mp_error_per_request = 0\<rparr>)
          else (error_baseline_new (bl_error_sum baseline + real_of_int (max (n - max k 0) 0) * e)
                  (bl_request_count baseline + real_of_int (max (n - max k 0) 0)),
                \<lparr>mp_initial_count = max (n - max k 0) 0, mp_error_per_request = e\<rparr>)), hm_insert pid ?d rs')"
      by (rule apply_recovery_from [OF assms(1), where d = ?d]) (simp_all add: map_simps d)
    then show ?thesis unfolding cons using pool True by (auto simp: max_def)
  qed
qed

text \<open>A forecast pool of 60 requests, of which one is consumed.\<close>

definition sample_recovery :: infeasibility_config where
  "sample_recovery = infeasibility_config_default
     \<lparr>inf_recovery_mode := ''forecast'', inf_mock_influence := 1,
      inf_mock_error_per_request := Some 1\<rparr>"

definition sample_snapshot :: solver_snapshot where
  "sample_snapshot = \<lparr>sn_assignments = [], sn_global_error_sum = 0,
     sn_global_assignment_count = 0, sn_profile_error_stats = []\<rparr>"

abbreviation sample_apply :: "recovery_state \<Rightarrow> (error_baseline \<times> mock_pool) \<times> recovery_state" where
  "sample_apply \<equiv> apply_infeasibility_recovery (\<lambda>r s n. r) 0 (error_baseline_new 0 1) default_profile
     (assignment_policy_of config_default) simulation_config_default sample_recovery sample_snapshot"

lemma forecast_mode: "normal_mode ''forecast'' = ''forecast''"
  by (simp add: normal_mode_def str_trim_def is_ascii_whitespace_def to_ascii_lowercase_def
      ascii_lower_char_def Let_def)

lemma sample_mode: "normal_mode (inf_recovery_mode sample_recovery) = ''forecast''"
  by (simp add: sample_recovery_def forecast_mode)

lemma sample_apply_pool:
  "snd (fst (sample_apply recovery_state_new)) = \<lparr>mp_initial_count = 60, mp_error_per_request = 1\<rparr>"
proof -
  have "f64_as_i32 60 = 60" by (simp add: f64_as_i32_def f64_trunc_def)
  moreover have "f64_round 60 = 60" using f64_round_of_int [of 60] by simp
  moreover have "f64_as_i32 (real_of_int 60) = 60" by (simp add: f64_as_i32_def f64_trunc_def)
  ultimately show ?thesis
    by (simp add: apply_infeasibility_recovery_def sample_mode Let_def update_mock_influence_def
        profile_state_def recovery_state_new_def recovery_data_new_def mock_pool_default_def
        get_or_seed_mock_pool_def compute_mock_seed_def mock_source_def case_prod_unfold
        simulation_config_default_def resolve_mock_error_def clamp01_def error_baseline_new_def
        assignment_policy_of_def config_default_def)
      (simp add: sample_recovery_def infeasibility_config_default_def)
qed

lemma recovery_retry_stable_witness:
  "sample_apply (snd (sample_apply recovery_state_new)) = sample_apply recovery_state_new"
proof -
  have mode: "normal_mode (inf_recovery_mode sample_recovery) \<noteq> ''min_error_greedy''"
    by (simp add: sample_mode)
  have "sample_apply recovery_state_new
      = (fst (sample_apply recovery_state_new), snd (sample_apply recovery_state_new))" by simp
  from recovery_retry_stable [OF mode this] show ?thesis by simp
qed

lemma recovery_consumes_witness:
  "snd (fst (sample_apply (consume_mock_pool 0 ''forecast'' 1 default_profile ''forecast''
     (snd (sample_apply recovery_state_new))))) = \<lparr>mp_initial_count = 59, mp_error_per_request = 1\<rparr>"
proof -
  obtain bl pool rs' where res: "sample_apply recovery_state_new = ((bl, pool), rs')"
    by (metis prod.collapse)
  have pool: "pool = \<lparr>mp_initial_count = 60, mp_error_per_request = 1\<rparr>"
    using sample_apply_pool by (simp add: res)
  have "inf_recovery_mode sample_recovery = ''forecast''" by (simp add: sample_recovery_def)
  with recovery_consumes [OF _ res, of "''forecast''" 1] sample_mode pool show ?thesis
    by (simp add: res)
qed

end
