(* ===== verification/Solve.thy ===== *)
theory Solve
  imports Recovery
begin

text \<open>
  Batch preparation and the two batch solvers (\<open>engine/scheduler/solve.rs\<close>). The trait
  \<open>BatchSolverStrategy\<close> is the locale \<open>batch_solver\<close>; the dynamic program and the greedy
  singleton scan are its interpretations, and what the worker relies on is proved inside
  the locale. Besides the batch context, a solve depends on the random numbers
  (\<open>sample\<close>), the iteration order of hash maps (\<open>ord\<close>), the clock at the end of each
  layer (\<open>timed_out\<close>) and the time stamp of the assignments (\<open>now\<close>), bundled in
  \<open>oracles\<close>. Printing is not modelled.
\<close>

section \<open>Contexts and results\<close>

record solve_context =
  ctx_status :: string
  ctx_mode :: string
  ctx_new_assignments :: nat
  ctx_total_assignments :: nat
  ctx_global_error_before :: f64
  ctx_global_error_count_before :: nat
  ctx_profile_error_before :: f64
  ctx_profile_error_count_before :: nat
  ctx_profile_error_constraint_active :: bool
  ctx_modeled_window_avg_after :: f64
  ctx_window_start_slot :: slot
  ctx_window_end_slot :: slot
  ctx_mock_recovery_consumed :: int
  ctx_recovery_mode :: string
  ctx_solver_elapsed_ms :: f64

definition solve_context_default :: solve_context where
  "solve_context_default =
     \<lparr>ctx_status = '''', ctx_mode = '''', ctx_new_assignments = 0, ctx_total_assignments = 0,
      ctx_global_error_before = 0, ctx_global_error_count_before = 0,
      ctx_profile_error_before = 0, ctx_profile_error_count_before = 0,
      ctx_profile_error_constraint_active = False, ctx_modeled_window_avg_after = 0,
      ctx_window_start_slot = 0, ctx_window_end_slot = 0, ctx_mock_recovery_consumed = 0,
      ctx_recovery_mode = '''', ctx_solver_elapsed_ms = 0\<rparr>"

record batch_solve_context =
  bc_current_slot :: slot
  bc_pending :: "request list"
  bc_shared_state :: inner
  bc_assignment :: assignment_policy
  bc_solver_config :: solver_config
  bc_simulation_config :: simulation_config
  bc_recovery_config :: infeasibility_config
  bc_recovery_state :: recovery_state
  bc_carbon_forecast :: "f64 list"
  bc_flavour_duration_by_name :: "(string, f64) hmap"

record batch_solve_result =
  br_assignments :: "assignment list"
  br_context :: solve_context
  br_baseline_slot_counts :: "(slot, int) hmap"

record oracles =
  or_sample :: sampler
  or_order :: iteration_order
  or_timed_out :: "nat \<Rightarrow> bool"
  or_now :: f64

record prepared_solve =
  ps_profile_id :: qos_profile_id
  ps_pending_ids :: "request_id set"
  ps_window_start :: slot
  ps_window_end :: slot
  ps_assignment_cap :: slot
  ps_solve_requests :: "solve_request list"
  ps_assignment_metadata :: "(request_id, slot \<times> slot) hmap"
  ps_baseline_slot_counts :: "(slot, int) hmap"
  ps_error_baseline :: error_baseline
  ps_mock_pool_input :: mock_pool
  ps_global_error_stats :: global_error_stats
  ps_profile_error_stats :: global_error_stats
  ps_profile_constraint_active :: bool
  ps_solver_flavours :: "flavour list"
  ps_request_flavours :: flavour_overrides
  ps_effective_error_threshold :: f64
  ps_effective_capacity_tiers :: "capacity_tier list"

section \<open>Preparation\<close>

definition cap_deadline :: "assignment_policy \<Rightarrow> slot \<Rightarrow> slot \<Rightarrow> slot \<Rightarrow> slot" where
  "cap_deadline pol current cap d =
     min (min (max d current) cap) (i32_sub (pol_total_slots pol) 1)"

definition policy_window_end :: "assignment_policy \<Rightarrow> slot \<Rightarrow> slot" where
  "policy_window_end pol current =
     min (i32_add current (pol_error_window_future pol)) (i32_sub (pol_total_slots pol) 1)"

definition batch_profile :: "request list \<Rightarrow> qos_profile_id" where
  "batch_profile pending = (case pending of [] \<Rightarrow> default_profile | r # _ \<Rightarrow> rq_qos_profile_id r)"

definition pending_solve_request :: "assignment_policy \<Rightarrow> slot \<Rightarrow> slot \<Rightarrow> request \<Rightarrow> solve_request" where
  "pending_solve_request pol current cap r =
     \<lparr>sr_request_id = rq_id r, sr_earliest_slot = max (rq_arrival_slot r) current,
      sr_deadline_slot = cap_deadline pol current cap (rq_deadline_slot r)\<rparr>"

definition movable_deadline :: "assignment_policy \<Rightarrow> slot \<Rightarrow> slot \<Rightarrow> assignment \<Rightarrow> slot" where
  "movable_deadline pol current cap a =
     cap_deadline pol current cap
       (case as_deadline_slot a of Some d \<Rightarrow> d | None \<Rightarrow> max (as_scheduled_slot a) current)"

definition movable_solve_request :: "assignment_policy \<Rightarrow> slot \<Rightarrow> slot \<Rightarrow> assignment \<Rightarrow> solve_request" where
  "movable_solve_request pol current cap a =
     \<lparr>sr_request_id = as_request_id a,
      sr_earliest_slot = max (case as_arrival_slot a of Some s \<Rightarrow> s | None \<Rightarrow> current) current,
      sr_deadline_slot = movable_deadline pol current cap a\<rparr>"

fun insert_all :: "('k \<times> 'v) list \<Rightarrow> ('k, 'v) hmap \<Rightarrow> ('k, 'v) hmap" where
  "insert_all [] m = m"
| "insert_all ((k, v) # kvs) m = insert_all kvs (hm_insert k v m)"

fun count_slots :: "assignment list \<Rightarrow> (slot, int) hmap \<Rightarrow> (slot, int) hmap" where
  "count_slots [] m = m"
| "count_slots (a # as) m = count_slots as (hm_entry (as_scheduled_slot a) 0 (\<lambda>n. n + 1) m)"

text \<open>The cumulative rule: whether it applies, and the flavours it leaves.\<close>

definition cumulative_active :: "assignment_policy \<Rightarrow> global_error_stats \<Rightarrow> bool" where
  "cumulative_active pol st \<longleftrightarrow>
     pol_global_error_constraint_enabled pol \<and> 0 < gs_count st
     \<and> pol_max_error_threshold pol < gs_avg st"

definition restrict_flavours :: "assignment_policy \<Rightarrow> bool \<Rightarrow> flavour list \<Rightarrow> flavour list" where
  "restrict_flavours pol active fs =
     (if active \<and> pol_global_error_constraint_hard pol
      then let kept = filter (\<lambda>f. fl_error f \<le> pol_max_error_threshold pol) fs
           in if kept = [] then fs else kept
      else fs)"

definition profile_flavours :: "request list \<Rightarrow> (request_id \<times> flavour list) list" where
  "profile_flavours pending =
     concat (map (\<lambda>r. case rq_qos_profile r of None \<Rightarrow> [] | Some p \<Rightarrow> [(rq_id r, qp_flavours p)]) pending)"

definition prepare_solve :: "oracles \<Rightarrow> batch_solve_context \<Rightarrow> prepared_solve \<times> recovery_state" where
  "prepare_solve orc ctx =
     (let current = bc_current_slot ctx; pending = bc_pending ctx; pol = bc_assignment ctx;
          pid = batch_profile pending;
          window_start = max (i32_sub current (pol_error_window_past pol)) 0;
          window_end = policy_window_end pol current;
          cap = window_end;
          sn = snapshot_for_solver (bc_shared_state ctx);
          future = snap_get_future_assignments sn current;
          same = filter (\<lambda>a. as_qos_profile_id a = pid) future;
          other = filter (\<lambda>a. as_qos_profile_id a \<noteq> pid) future;
          locked = sc_dp_lock_future_assignments (bc_solver_config ctx);
          movable = (if locked then [] else same);
          fixed = (if locked then other @ same else other);
          solve_requests = map (pending_solve_request pol current cap) pending
                           @ map (movable_solve_request pol current cap) movable;
          metadata = insert_all
              (map (\<lambda>r. (rq_id r, (rq_arrival_slot r, rq_deadline_slot r))) pending
               @ map (\<lambda>a. (as_request_id a,
                      (case as_arrival_slot a of Some s \<Rightarrow> s | None \<Rightarrow> 0,
                       movable_deadline pol current cap a))) movable) [];
          movable_ids = set (map as_request_id movable);
          ws = snap_get_profile_window_error_stats sn pid current (pol_error_window_past pol)
                 (pol_error_window_future pol) movable_ids;
          b0 = error_baseline_new (ws_error_sum ws) (real (ws_count ws));
          b1 = augment_with_decayed_past current b0 pid pol sn movable_ids;
          b2 = augment_with_virtual_prehistory (or_sample orc) current b1 pol
                 (bc_simulation_config ctx) (bc_recovery_config ctx);
          ((b3, pool), rs) = apply_infeasibility_recovery (or_sample orc) current b2 pid pol
                 (bc_simulation_config ctx) (bc_recovery_config ctx) sn (bc_recovery_state ctx);
          profile_stats = snap_get_profile_error_stats sn pid;
          active = cumulative_active pol profile_stats
      in (\<lparr>ps_profile_id = pid, ps_pending_ids = set (map rq_id pending),
           ps_window_start = window_start, ps_window_end = window_end, ps_assignment_cap = cap,
           ps_solve_requests = solve_requests, ps_assignment_metadata = metadata,
           ps_baseline_slot_counts = count_slots fixed [], ps_error_baseline = b3,
           ps_mock_pool_input = pool, ps_global_error_stats = snap_get_global_error_stats sn,
           ps_profile_error_stats = profile_stats, ps_profile_constraint_active = active,
           ps_solver_flavours = restrict_flavours pol active (pol_flavours pol),
           ps_request_flavours =
             map (\<lambda>(i, fs). (i, restrict_flavours pol active fs))
               (insert_all (profile_flavours pending) []),
           ps_effective_error_threshold = pol_max_error_threshold pol,
           ps_effective_capacity_tiers = pol_capacity_tiers pol\<rparr>, rs))"

section \<open>Helpers of both solvers\<close>

definition get_effective_pruning_mode :: "nat \<Rightarrow> solver_config \<Rightarrow> string" where
  "get_effective_pruning_mode batch_size solver =
     (let threshold = sc_dp_pruning_min_batch_size solver
      in if threshold = 0 \<or> batch_size < threshold then ''none''
         else to_ascii_lowercase (str_trim (sc_dp_pruning_method solver)))"

definition build_solver ::
    "flavour list \<Rightarrow> f64 list \<Rightarrow> assignment_policy \<Rightarrow> solver_config \<Rightarrow> string \<Rightarrow> dp_solver option" where
  "build_solver flavours forecast pol solver pruning =
     (case dp_solver_new solver pol of
        None \<Rightarrow> None
      | Some dp \<Rightarrow>
         map_option (\<lambda>dp'. dp'\<lparr>dp_flavours := flavours, dp_pruning := pruning\<rparr>)
           (with_carbon_forecast forecast dp))"

definition attach_metadata ::
    "f64 \<Rightarrow> prepared_solve \<Rightarrow> (string, f64) hmap \<Rightarrow> request_assignment \<Rightarrow> assignment" where
  "attach_metadata now prep fdb ra =
     (let (arrival, deadline) = (case map_of (ps_assignment_metadata prep) (ra_request_id ra) of
            Some ad \<Rightarrow> ad | None \<Rightarrow> (0, 0));
          named = (case map_of (ps_request_flavours prep) (ra_request_id ra) of
            None \<Rightarrow> None | Some fs \<Rightarrow> find (\<lambda>f. fl_name f = ra_flavour_name ra) fs);
          dur = (case named of Some f \<Rightarrow> fl_duration f
            | None \<Rightarrow> (case map_of fdb (ra_flavour_name ra) of Some d \<Rightarrow> d | None \<Rightarrow> 0))
      in assignment_new_for_profile now (ra_request_id ra) (ra_slot ra) (ra_flavour_name ra)
           (ra_carbon_cost ra) (ra_error ra) dur (Some arrival) (Some deadline) (ps_profile_id prep))"

text \<open>The diagnostic re-computation of the window average; the state is sum, count, mocks left.\<close>

fun model_window ::
    "slot \<Rightarrow> slot \<Rightarrow> f64 \<Rightarrow> assignment list \<Rightarrow> f64 \<times> f64 \<times> int \<Rightarrow> f64 \<times> f64 \<times> int" where
  "model_window ws we mock_err [] acc = acc"
| "model_window ws we mock_err (a # as) (s, c, m) =
     model_window ws we mock_err as
       (if ws \<le> as_scheduled_slot a \<and> as_scheduled_slot a \<le> we
        then (if 0 < m \<and> 0 < mock_err
              then (s + as_error a - mock_err, max (c + 1 - 1) 0, m - 1)
              else (s + as_error a, c + 1, m))
        else (s, c, m))"

text \<open>The common tail: diagnostics, consumption of the pool, and the result.\<close>

definition finish_solve ::
    "batch_solve_context \<Rightarrow> prepared_solve \<Rightarrow> recovery_state \<Rightarrow> assignment list \<Rightarrow> string \<Rightarrow> string
     \<Rightarrow> batch_solve_result \<times> recovery_state" where
  "finish_solve ctx prep rs assignments status mode =
     (let pool = ps_mock_pool_input prep;
          (s, c, m) = model_window (ps_window_start prep) (ps_window_end prep)
                        (mp_error_per_request pool) assignments
                        (bl_error_sum (ps_error_baseline prep),
                         bl_request_count (ps_error_baseline prep), mp_initial_count pool);
          consumed = max (mp_initial_count pool - m) 0;
          rs' = consume_mock_pool (bc_current_slot ctx) mode consumed (ps_profile_id prep)
                  (inf_recovery_mode (bc_recovery_config ctx)) rs
      in (\<lparr>br_assignments = assignments,
           br_context =
             \<lparr>ctx_status = status, ctx_mode = mode,
              ctx_new_assignments = card (ps_pending_ids prep),
              ctx_total_assignments = length assignments,
              ctx_global_error_before = gs_avg (ps_global_error_stats prep),
              ctx_global_error_count_before = gs_count (ps_global_error_stats prep),
              ctx_profile_error_before = gs_avg (ps_profile_error_stats prep),
              ctx_profile_error_count_before = gs_count (ps_profile_error_stats prep),
              ctx_profile_error_constraint_active = ps_profile_constraint_active prep,
              ctx_modeled_window_avg_after = (if 0 < c then s / c else 0),
              ctx_window_start_slot = ps_window_start prep,
              ctx_window_end_slot = ps_window_end prep,
              ctx_mock_recovery_consumed = consumed,
              ctx_recovery_mode = inf_recovery_mode (bc_recovery_config ctx),
              ctx_solver_elapsed_ms = 0\<rparr>,
           br_baseline_slot_counts = ps_baseline_slot_counts prep\<rparr>, rs'))"

definition infeasible_result :: batch_solve_result where
  "infeasible_result =
     \<lparr>br_assignments = [],
      br_context = solve_context_default\<lparr>ctx_status := ''infeasible'', ctx_mode := ''greedy_singleton''\<rparr>,
      br_baseline_slot_counts = []\<rparr>"

section \<open>The dynamic-programming strategy\<close>

definition base_counts_arr :: "assignment_policy \<Rightarrow> (slot, int) hmap \<Rightarrow> int list" where
  "base_counts_arr pol counts =
     map (\<lambda>s. case map_of counts s of Some n \<Rightarrow> n | None \<Rightarrow> 0) [0..pol_total_slots pol - 1]"

text \<open>Occupancy added by the assignments of this batch; an index out of range panics.\<close>

definition add_placed :: "request_id set \<Rightarrow> int list \<Rightarrow> request_assignment \<Rightarrow> int list option" where
  "add_placed ids counts a =
     (if ra_request_id a \<in> ids
      then (if 0 \<le> ra_slot a \<and> nat (ra_slot a) < length counts
            then Some (counts[nat (ra_slot a) := counts ! nat (ra_slot a) + 1]) else None)
      else Some counts)"

definition dp_input :: "batch_solve_context \<Rightarrow> prepared_solve \<Rightarrow> solve_batch_input" where
  "dp_input ctx prep =
     \<lparr>si_requests = ps_solve_requests prep, si_current_slot = bc_current_slot ctx,
      si_capacity_multiplier = 1, si_capacity_tiers = ps_effective_capacity_tiers prep,
      si_baseline_slot_counts = ps_baseline_slot_counts prep,
      si_error_window_baseline =
        \<lparr>eb_error_sum = bl_error_sum (ps_error_baseline prep),
         eb_request_count = bl_request_count (ps_error_baseline prep)\<rparr>,
      si_max_error_threshold = Some (ps_effective_error_threshold prep),
      si_error_window_past = pol_error_window_past (bc_assignment ctx),
      si_error_window_future = pol_error_window_future (bc_assignment ctx),
      si_assignment_max_slot = Some (ps_assignment_cap prep),
      si_dynamic_mock_pool = ps_mock_pool_input prep,
      si_request_flavours = ps_request_flavours prep\<rparr>"

text \<open>The fallback for the requests the search left out; its result extends the answer.\<close>

definition dp_fallback ::
    "batch_solve_context \<Rightarrow> prepared_solve \<Rightarrow> request_assignment list \<Rightarrow> request_id set
     \<Rightarrow> request_assignment list option" where
  "dp_fallback ctx prep dp_result scheduled =
     (let pol = bc_assignment ctx; current = bc_current_slot ctx;
          unscheduled = map (pending_solve_request pol current (ps_assignment_cap prep))
            (filter (\<lambda>r. rq_id r \<notin> scheduled) (bc_pending ctx))
      in case fold_opt (add_placed (ps_pending_ids prep))
               (base_counts_arr pol (ps_baseline_slot_counts prep)) dp_result of
        None \<Rightarrow> None
      | Some fallback_base \<Rightarrow>
         (case build_solver (pol_flavours pol) (bc_carbon_forecast ctx) pol (bc_solver_config ctx) ''none'' of
            None \<Rightarrow> None
          | Some greedy_solver \<Rightarrow>
              map_option (\<lambda>greedy. dp_result @ greedy)
                (greedy_fallback greedy_solver unscheduled current (pol_capacity_tiers pol)
                   fallback_base (ps_request_flavours prep))))"

definition solve_dp :: "oracles \<Rightarrow> batch_solve_context \<Rightarrow> (batch_solve_result \<times> recovery_state) option" where
  "solve_dp orc ctx =
     (let (prep, rs) = prepare_solve orc ctx;
          pruning = get_effective_pruning_mode (length (bc_pending ctx)) (bc_solver_config ctx);
          pending_ids = ps_pending_ids prep
      in case build_solver (ps_solver_flavours prep) (bc_carbon_forecast ctx) (bc_assignment ctx)
                (bc_solver_config ctx) pruning of
        None \<Rightarrow> None
      | Some solver \<Rightarrow>
         (case solve_batch solver (or_order orc) (or_timed_out orc) (dp_input ctx prep) of
            None \<Rightarrow> None
          | Some dp_result \<Rightarrow>
             (let scheduled = set (map ra_request_id (filter (\<lambda>a. ra_request_id a \<in> pending_ids) dp_result));
                  complete = (card scheduled = card pending_ids)
              in case (if complete then Some dp_result else dp_fallback ctx prep dp_result scheduled) of
                None \<Rightarrow> None
              | Some all_assignments \<Rightarrow>
                 (if length (filter (\<lambda>a. ra_request_id a \<in> pending_ids) all_assignments) \<noteq> card pending_ids
                  then Some (infeasible_result, rs)
                  else Some (finish_solve ctx prep rs
                        (map (attach_metadata (or_now orc) prep (bc_flavour_duration_by_name ctx)) all_assignments)
                        (if complete then ''ok'' else ''ok_greedy_after_infeasible'')
                        (if complete then ''dp_'' @ pruning else ''greedy_after_infeasible''))))))"

section \<open>The greedy singleton strategy\<close>

definition forecast_or_one :: "f64 list \<Rightarrow> slot \<Rightarrow> f64" where
  "forecast_or_one forecast s =
     (if 0 \<le> s \<and> nat s < length forecast then forecast ! nat s else 1)"

definition singleton_cost ::
    "batch_solve_context \<Rightarrow> (slot, int) hmap \<Rightarrow> slot \<Rightarrow> flavour \<Rightarrow> f64" where
  "singleton_cost ctx slot_count s f =
     (let pol = bc_assignment ctx;
          position = (case map_of slot_count s of Some n \<Rightarrow> n | None \<Rightarrow> 0) + 1
      in forecast_or_one (bc_carbon_forecast ctx) s
           * get_capacity_multiplier (pol_capacity_tiers pol) position
           * fl_duration f * pol_carbon_cost_duration_scale pol)"

text \<open>The local error window is anchored to the arrival of the request.\<close>

definition singleton_feasible ::
    "batch_solve_context \<Rightarrow> prepared_solve \<Rightarrow> bool \<Rightarrow> request_assignment list \<Rightarrow> slot \<Rightarrow> flavour \<Rightarrow> bool" where
  "singleton_feasible ctx prep constrained solved arrival f =
     (let pol = bc_assignment ctx;
          win_start = max (i32_sub arrival (pol_error_window_past pol)) 0;
          win_end = min (i32_add arrival (pol_error_window_future pol)) (i32_sub (pol_total_slots pol) 1);
          inside = filter (\<lambda>a. win_start \<le> ra_slot a \<and> ra_slot a \<le> win_end) solved;
          win_sum = bl_error_sum (ps_error_baseline prep) + fl_error f + sum_list (map ra_error inside);
          win_cnt = bl_request_count (ps_error_baseline prep) + 1 + real (length inside)
      in \<not> (constrained \<and> pol_max_error_threshold pol < fl_error f)
         \<and> \<not> (0 < win_cnt \<and> pol_max_error_threshold pol < win_sum / win_cnt))"

fun singleton_scan ::
    "(slot \<Rightarrow> flavour \<Rightarrow> f64) \<Rightarrow> (flavour \<Rightarrow> bool) \<Rightarrow> (slot \<times> flavour) list
     \<Rightarrow> (f64 \<times> slot \<times> flavour) option \<Rightarrow> (f64 \<times> slot \<times> flavour) option" where
  "singleton_scan cost ok [] best = best"
| "singleton_scan cost ok ((s, f) # sfs) best =
     singleton_scan cost ok sfs
       (if ok f \<and> cheaper (cost s f) fst best then Some (cost s f, s, f) else best)"

text \<open>The request loop; \<open>None\<close> is the early return of an infeasible result.\<close>

fun singleton_loop ::
    "batch_solve_context \<Rightarrow> prepared_solve \<Rightarrow> bool \<Rightarrow> flavour list \<Rightarrow> flavour \<Rightarrow> solve_request list
     \<Rightarrow> (slot, int) hmap \<Rightarrow> request_assignment list \<Rightarrow> request_assignment list option" where
  "singleton_loop ctx prep constrained by_duration fallback [] slot_count solved = Some solved"
| "singleton_loop ctx prep constrained by_duration fallback (r # rs) slot_count solved =
     (let current = bc_current_slot ctx;
          deadline = sr_deadline_slot r;
          arrival = (case map_of (ps_assignment_metadata prep) (sr_request_id r) of
              Some (a, _) \<Rightarrow> a | None \<Rightarrow> current);
          start_slot = max (sr_earliest_slot r) current
      in if deadline < start_slot then None
         else let pairs = concat (map (\<lambda>s. map (\<lambda>f. (s, f)) by_duration) [start_slot..deadline]);
                  best = singleton_scan (singleton_cost ctx slot_count)
                           (singleton_feasible ctx prep constrained solved arrival) pairs None;
                  (cost, s, f) = (case best of
                      Some b \<Rightarrow> b
                    | None \<Rightarrow> (singleton_cost ctx slot_count start_slot fallback, start_slot, fallback))
              in singleton_loop ctx prep constrained by_duration fallback rs
                   (hm_entry s 0 (\<lambda>n. n + 1) slot_count) (solved @ [placed r (f, s) cost]))"

definition solve_greedy_singleton ::
    "oracles \<Rightarrow> batch_solve_context \<Rightarrow> (batch_solve_result \<times> recovery_state) option" where
  "solve_greedy_singleton orc ctx =
     (let (prep, rs) = prepare_solve orc ctx; pol = bc_assignment ctx;
          by_duration = sort_key fl_duration (ps_solver_flavours prep)
      in case min_by_key fl_error (ps_solver_flavours prep) of
        None \<Rightarrow> None
      | Some fallback \<Rightarrow>
         (let st = ps_profile_error_stats prep;
              profile_avg = (if 0 < gs_count st then gs_avg st else 0);
              constrained = (ps_profile_constraint_active prep
                \<and> pol_global_error_constraint_hard pol
                \<and> pol_max_error_threshold pol < profile_avg)
          in case singleton_loop ctx prep constrained by_duration fallback (ps_solve_requests prep)
                    (ps_baseline_slot_counts prep) [] of
            None \<Rightarrow> Some (infeasible_result, rs)
          | Some solved \<Rightarrow>
              Some (finish_solve ctx prep rs
                (map (attach_metadata (or_now orc) prep (bc_flavour_duration_by_name ctx)) solved)
                ''ok'' ''greedy_singleton'')))"

section \<open>Strategy selection\<close>

datatype batch_strategy = DpBatchSolver | GreedySingletonBatchSolver

definition batch_solver_registry :: "(string \<times> batch_strategy) list" where
  "batch_solver_registry = [(''dp'', DpBatchSolver), (''greedy_singleton'', GreedySingletonBatchSolver)]"

definition select_batch_solver :: "string \<Rightarrow> batch_strategy" where
  "select_batch_solver name =
     (case find (\<lambda>(registered, _). to_ascii_lowercase (str_trim name) = to_ascii_lowercase registered)
             batch_solver_registry of
        Some (_, strategy) \<Rightarrow> strategy | None \<Rightarrow> DpBatchSolver)"

fun run_strategy ::
    "batch_strategy \<Rightarrow> oracles \<Rightarrow> batch_solve_context \<Rightarrow> (batch_solve_result \<times> recovery_state) option" where
  "run_strategy DpBatchSolver orc ctx = solve_dp orc ctx"
| "run_strategy GreedySingletonBatchSolver orc ctx = solve_greedy_singleton orc ctx"

section \<open>What a strategy promises\<close>

text \<open>
  A context as the worker builds it: the forecast covers the horizon, the clock is not
  negative, there are flavours to choose from, and the claimed requests have distinct
  identifiers that no live assignment uses.
\<close>

definition context_ok :: "batch_solve_context \<Rightarrow> bool" where
  "context_ok ctx \<longleftrightarrow>
     in_i32 (pol_total_slots (bc_assignment ctx))
     \<and> int (length (bc_carbon_forecast ctx)) = pol_total_slots (bc_assignment ctx)
     \<and> 0 \<le> bc_current_slot ctx
     \<and> pol_flavours (bc_assignment ctx) \<noteq> []
     \<and> list_all (\<lambda>r. case rq_qos_profile r of None \<Rightarrow> True | Some p \<Rightarrow> qp_flavours p \<noteq> []) (bc_pending ctx)
     \<and> distinct (map rq_id (bc_pending ctx))
     \<and> set (map rq_id (bc_pending ctx)) \<inter> dom (map_of (in_assignments (bc_shared_state ctx))) = {}
     \<and> inner_inv (bc_shared_state ctx)"

definition covers_pending :: "batch_solve_context \<Rightarrow> assignment list \<Rightarrow> bool" where
  "covers_pending ctx as \<longleftrightarrow> set (map rq_id (bc_pending ctx)) \<subseteq> set (map as_request_id as)"

definition within_bounds :: "batch_solve_context \<Rightarrow> request_id \<Rightarrow> slot \<Rightarrow> bool" where
  "within_bounds ctx i s \<longleftrightarrow>
     bc_current_slot ctx \<le> s
     \<and> list_all (\<lambda>r. rq_id r = i \<longrightarrow>
          rq_arrival_slot r \<le> s \<and> s \<le> max (rq_deadline_slot r) (bc_current_slot ctx)) (bc_pending ctx)"

text \<open>A request of the batch, or one that is already live.\<close>

definition known_id :: "batch_solve_context \<Rightarrow> request_id \<Rightarrow> bool" where
  "known_id ctx i \<longleftrightarrow>
     i \<in> set (map rq_id (bc_pending ctx)) \<or> map_of (in_assignments (bc_shared_state ctx)) i \<noteq> None"

locale batch_solver =
  fixes solve :: "batch_solve_context \<Rightarrow> (batch_solve_result \<times> recovery_state) option"
    and ok :: "batch_solve_context \<Rightarrow> bool"
  assumes solve_total: "ok ctx \<Longrightarrow> \<exists>res rs. solve ctx = Some (res, rs)"
    and solve_covers: "ok ctx \<Longrightarrow> solve ctx = Some (res, rs) \<Longrightarrow> br_assignments res \<noteq> [] \<Longrightarrow>
      covers_pending ctx (br_assignments res)"
    and solve_bounds: "ok ctx \<Longrightarrow> solve ctx = Some (res, rs) \<Longrightarrow> a \<in> set (br_assignments res) \<Longrightarrow>
      within_bounds ctx (as_request_id a) (as_scheduled_slot a)"
    and solve_profile: "ok ctx \<Longrightarrow> solve ctx = Some (res, rs) \<Longrightarrow> a \<in> set (br_assignments res) \<Longrightarrow>
      as_qos_profile_id a = batch_profile (bc_pending ctx)"
    and solve_ids: "ok ctx \<Longrightarrow> solve ctx = Some (res, rs) \<Longrightarrow> a \<in> set (br_assignments res) \<Longrightarrow>
      known_id ctx (as_request_id a)"
begin

text \<open>What the worker relies on: a committed batch schedules every claimed request in its bounds.\<close>

lemma committed_batch:
  assumes "ok ctx" and "solve ctx = Some (res, rs)" and "br_assignments res \<noteq> []"
    and "record_all st (br_assignments res) = Some st'" and "r \<in> set (bc_pending ctx)"
  shows "\<exists>a. map_of (in_assignments st') (rq_id r) = Some a
    \<and> within_bounds ctx (rq_id r) (as_scheduled_slot a)"
proof -
  have "rq_id r \<in> set (map as_request_id (br_assignments res))"
    using solve_covers [OF assms(1-3)] assms(5) by (auto simp: covers_pending_def)
  from record_all_source [OF assms(4) this] obtain a p where
    a: "a \<in> set (br_assignments res)" "as_request_id a = rq_id r"
      "map_of (in_assignments st') (rq_id r) = Some (a\<lparr>as_qos_profile_id := p\<rparr>)" by blast
  with solve_bounds [OF assms(1,2) a(1)] show ?thesis by simp
qed

end

section \<open>Facts about a prepared solve\<close>

definition movable_assignments :: "batch_solve_context \<Rightarrow> assignment list" where
  "movable_assignments ctx =
     (if sc_dp_lock_future_assignments (bc_solver_config ctx) then []
      else filter (\<lambda>a. as_qos_profile_id a = batch_profile (bc_pending ctx))
        (get_future_assignments (bc_current_slot ctx) (bc_shared_state ctx)))"

lemma prepare_fields:
  assumes "prepare_solve orc ctx = (prep, rs)"
  shows "ps_profile_id prep = batch_profile (bc_pending ctx)"
    and "ps_pending_ids prep = set (map rq_id (bc_pending ctx))"
    and "ps_assignment_cap prep = policy_window_end (bc_assignment ctx) (bc_current_slot ctx)"
    and "ps_solve_requests prep =
      map (pending_solve_request (bc_assignment ctx) (bc_current_slot ctx) (ps_assignment_cap prep)) (bc_pending ctx)
      @ map (movable_solve_request (bc_assignment ctx) (bc_current_slot ctx) (ps_assignment_cap prep))
          (movable_assignments ctx)"
    and "ps_solver_flavours prep =
      restrict_flavours (bc_assignment ctx) (ps_profile_constraint_active prep) (pol_flavours (bc_assignment ctx))"
    and "ps_request_flavours prep =
      map (\<lambda>(i, fs). (i, restrict_flavours (bc_assignment ctx) (ps_profile_constraint_active prep) fs))
        (insert_all (profile_flavours (bc_pending ctx)) [])"
    and "ps_effective_error_threshold prep = pol_max_error_threshold (bc_assignment ctx)"
    and "ps_profile_constraint_active prep = cumulative_active (bc_assignment ctx)
      (get_profile_error_stats (batch_profile (bc_pending ctx)) (bc_shared_state ctx))"
proof -
  have prep: "prep = fst (prepare_solve orc ctx)" using assms by simp
  show "ps_profile_id prep = batch_profile (bc_pending ctx)"
    and "ps_pending_ids prep = set (map rq_id (bc_pending ctx))"
    and "ps_assignment_cap prep = policy_window_end (bc_assignment ctx) (bc_current_slot ctx)"
    and "ps_effective_error_threshold prep = pol_max_error_threshold (bc_assignment ctx)"
    and "ps_solver_flavours prep =
      restrict_flavours (bc_assignment ctx) (ps_profile_constraint_active prep) (pol_flavours (bc_assignment ctx))"
    and "ps_request_flavours prep =
      map (\<lambda>(i, fs). (i, restrict_flavours (bc_assignment ctx) (ps_profile_constraint_active prep) fs))
        (insert_all (profile_flavours (bc_pending ctx)) [])"
    unfolding prep by (simp_all add: prepare_solve_def Let_def case_prod_unfold)
  show "ps_profile_constraint_active prep = cumulative_active (bc_assignment ctx)
      (get_profile_error_stats (batch_profile (bc_pending ctx)) (bc_shared_state ctx))"
    unfolding prep by (simp add: prepare_solve_def Let_def case_prod_unfold
        get_profile_error_stats_def snap_get_profile_error_stats_def snapshot_for_solver_def)
  show "ps_solve_requests prep =
      map (pending_solve_request (bc_assignment ctx) (bc_current_slot ctx) (ps_assignment_cap prep)) (bc_pending ctx)
      @ map (movable_solve_request (bc_assignment ctx) (bc_current_slot ctx) (ps_assignment_cap prep))
          (movable_assignments ctx)"
    unfolding prep by (simp add: prepare_solve_def Let_def case_prod_unfold movable_assignments_def
        get_future_assignments_def snap_get_future_assignments_def snapshot_for_solver_def)
qed

lemma restrict_flavours_nonempty [simp]: "restrict_flavours pol act fs = [] \<longleftrightarrow> fs = []"
  by (auto simp: restrict_flavours_def Let_def)

lemma insert_all_source:
  "map_of (insert_all kvs m) k = Some v \<Longrightarrow> (k, v) \<in> set kvs \<or> map_of m k = Some v"
  by (induction kvs m rule: insert_all.induct) (auto simp: map_simps split: if_splits)

lemma profile_flavours_mem:
  "(i, fs) \<in> set (profile_flavours pending) \<longleftrightarrow>
     (\<exists>r\<in>set pending. \<exists>p. rq_qos_profile r = Some p \<and> i = rq_id r \<and> fs = qp_flavours p)"
  by (simp add: profile_flavours_def) (metis (no_types))

lemma request_flavours_nonempty:
  assumes "context_ok ctx" and "prepare_solve orc ctx = (prep, rs)"
    and "map_of (ps_request_flavours prep) i = Some fs"
  shows "fs \<noteq> []"
proof -
  obtain fs0 where fs0: "map_of (insert_all (profile_flavours (bc_pending ctx)) []) i = Some fs0"
    and fs: "fs = restrict_flavours (bc_assignment ctx) (ps_profile_constraint_active prep) fs0"
    using assms(3) unfolding prepare_fields(6) [OF assms(2)] by (auto simp: map_of_map)
  have "(i, fs0) \<in> set (profile_flavours (bc_pending ctx))"
    using insert_all_source [OF fs0] by simp
  then obtain r p where r: "r \<in> set (bc_pending ctx)" "rq_qos_profile r = Some p" "fs0 = qp_flavours p"
    by (auto simp: profile_flavours_mem)
  have "list_all (\<lambda>r. case rq_qos_profile r of None \<Rightarrow> True | Some p \<Rightarrow> qp_flavours p \<noteq> []) (bc_pending ctx)"
    using assms(1) by (simp add: context_ok_def)
  then have "fs0 \<noteq> []" using r by (simp add: list_all_iff) (drule bspec, assumption, simp)
  then show ?thesis by (simp add: fs)
qed

lemma movable_ids:
  assumes "context_ok ctx" and "a \<in> set (movable_assignments ctx)"
  shows "map_of (in_assignments (bc_shared_state ctx)) (as_request_id a) = Some a"
    and "as_request_id a \<notin> set (map rq_id (bc_pending ctx))"
proof -
  have "a \<in> set (hm_values (in_assignments (bc_shared_state ctx)))"
    using assms(2) by (auto simp: movable_assignments_def get_future_assignments_def split: if_splits)
  then obtain i where i: "(i, a) \<in> set (in_assignments (bc_shared_state ctx))"
    by (auto simp: hm_values_def)
  have inv: "inner_inv (bc_shared_state ctx)" using assms(1) by (simp add: context_ok_def)
  then have "map_of (in_assignments (bc_shared_state ctx)) i = Some a"
    using i by (simp add: inner_inv_def hm_binding_iff)
  moreover from this have "as_request_id a = i" using inv by (simp add: inner_inv_def)
  ultimately show live: "map_of (in_assignments (bc_shared_state ctx)) (as_request_id a) = Some a" by simp
  from live have "as_request_id a \<in> dom (map_of (in_assignments (bc_shared_state ctx)))" by auto
  with assms(1) show "as_request_id a \<notin> set (map rq_id (bc_pending ctx))" by (auto simp: context_ok_def)
qed

text \<open>A placement of one of the batch's solve requests inside its own range.\<close>

definition good_placement :: "batch_solve_context \<Rightarrow> prepared_solve \<Rightarrow> request_assignment \<Rightarrow> bool" where
  "good_placement ctx prep ra \<longleftrightarrow>
     (\<exists>sr\<in>set (ps_solve_requests prep). ra_request_id ra = sr_request_id sr
        \<and> max (sr_earliest_slot sr) (bc_current_slot ctx) \<le> ra_slot ra
        \<and> ra_slot ra \<le> max (sr_deadline_slot sr) (bc_current_slot ctx))"

lemma good_placement_bounds:
  assumes ok: "context_ok ctx" and prep: "prepare_solve orc ctx = (prep, rs)"
    and good: "good_placement ctx prep ra"
  shows "within_bounds ctx (ra_request_id ra) (ra_slot ra)"
proof -
  let ?pol = "bc_assignment ctx" and ?cur = "bc_current_slot ctx" and ?cap = "ps_assignment_cap prep"
  obtain sr where sr: "sr \<in> set (ps_solve_requests prep)" "ra_request_id ra = sr_request_id sr"
    and range: "max (sr_earliest_slot sr) ?cur \<le> ra_slot ra" "ra_slot ra \<le> max (sr_deadline_slot sr) ?cur"
    using good by (auto simp: good_placement_def)
  have "rq_arrival_slot r \<le> ra_slot ra \<and> ra_slot ra \<le> max (rq_deadline_slot r) ?cur"
    if r: "r \<in> set (bc_pending ctx)" "rq_id r = ra_request_id ra" for r
  proof -
    from sr(1) prepare_fields(4) [OF prep] consider
      q where "q \<in> set (bc_pending ctx)" "sr = pending_solve_request ?pol ?cur ?cap q"
      | a where "a \<in> set (movable_assignments ctx)" "sr = movable_solve_request ?pol ?cur ?cap a"
      by auto
    then show ?thesis
    proof cases
      case 1
      have "inj_on rq_id (set (bc_pending ctx))" using ok by (simp add: context_ok_def distinct_map)
      moreover have "rq_id q = rq_id r" using 1 r(2) sr(2) by (simp add: pending_solve_request_def)
      ultimately have "q = r" using 1(1) r(1) by (auto dest: inj_onD)
      with 1(2) range show ?thesis
        by (auto simp: pending_solve_request_def cap_deadline_def)
    next
      case 2
      then have "as_request_id a = rq_id r" using r(2) sr(2) by (simp add: movable_solve_request_def)
      with movable_ids(2) [OF ok 2(1)] r(1) show ?thesis by auto
    qed
  qed
  with range show ?thesis by (auto simp: within_bounds_def list_all_iff)
qed

lemma good_placement_known:
  assumes ok: "context_ok ctx" and prep: "prepare_solve orc ctx = (prep, rs)"
    and good: "good_placement ctx prep ra"
  shows "known_id ctx (ra_request_id ra)"
proof -
  obtain sr where sr: "sr \<in> set (ps_solve_requests prep)" "ra_request_id ra = sr_request_id sr"
    using good by (auto simp: good_placement_def)
  from sr(1) have "sr_request_id sr \<in> set (map rq_id (bc_pending ctx))
      \<or> sr_request_id sr \<in> as_request_id ` set (movable_assignments ctx)"
    unfolding prepare_fields(4) [OF prep]
    by (auto simp: pending_solve_request_def movable_solve_request_def)
  then show ?thesis using movable_ids(1) [OF ok] by (auto simp: known_id_def sr(2))
qed

lemma attach_metadata_sel [simp]:
  "as_request_id (attach_metadata now prep fdb ra) = ra_request_id ra"
  "as_scheduled_slot (attach_metadata now prep fdb ra) = ra_slot ra"
  "as_qos_profile_id (attach_metadata now prep fdb ra) = ps_profile_id prep"
  "as_carbon_cost (attach_metadata now prep fdb ra) = ra_carbon_cost ra"
  "as_error (attach_metadata now prep fdb ra) = ra_error ra"
  by (simp_all add: attach_metadata_def assignment_new_for_profile_def case_prod_unfold Let_def)

lemma finish_solve_assignments [simp]:
  "br_assignments (fst (finish_solve ctx prep rs as status mode)) = as"
  by (simp add: finish_solve_def Let_def case_prod_unfold)

section \<open>Both strategies keep the promise\<close>

definition strategy_answer ::
    "oracles \<Rightarrow> batch_solve_context \<Rightarrow> (batch_solve_result \<times> recovery_state) option \<Rightarrow> bool" where
  "strategy_answer orc ctx out \<longleftrightarrow>
     (let (prep, rs) = prepare_solve orc ctx
      in out = Some (infeasible_result, rs)
       \<or> (\<exists>ras status mode.
            out = Some (finish_solve ctx prep rs
                    (map (attach_metadata (or_now orc) prep (bc_flavour_duration_by_name ctx)) ras) status mode)
          \<and> list_all (good_placement ctx prep) ras
          \<and> set (map rq_id (bc_pending ctx)) \<subseteq> set (map ra_request_id ras)))"

lemma strategy_answer_laws:
  assumes ok: "context_ok ctx" and ans: "strategy_answer orc ctx out"
  shows "\<exists>res rs. out = Some (res, rs)"
    and "out = Some (res, rs) \<Longrightarrow> br_assignments res \<noteq> [] \<Longrightarrow> covers_pending ctx (br_assignments res)"
    and "out = Some (res, rs) \<Longrightarrow> a \<in> set (br_assignments res) \<Longrightarrow>
      within_bounds ctx (as_request_id a) (as_scheduled_slot a)"
    and "out = Some (res, rs) \<Longrightarrow> a \<in> set (br_assignments res) \<Longrightarrow>
      as_qos_profile_id a = batch_profile (bc_pending ctx)"
    and "out = Some (res, rs) \<Longrightarrow> a \<in> set (br_assignments res) \<Longrightarrow> known_id ctx (as_request_id a)"
proof -
  obtain prep rs0 where prep: "prepare_solve orc ctx = (prep, rs0)" by (metis prod.collapse)
  from ans have cases: "out = Some (infeasible_result, rs0)
       \<or> (\<exists>ras status mode.
            out = Some (finish_solve ctx prep rs0
                    (map (attach_metadata (or_now orc) prep (bc_flavour_duration_by_name ctx)) ras) status mode)
          \<and> list_all (good_placement ctx prep) ras
          \<and> set (map rq_id (bc_pending ctx)) \<subseteq> set (map ra_request_id ras))"
    by (simp add: strategy_answer_def prep)
  have answer: "(br_assignments res = []
       \<or> (\<exists>ras. br_assignments res
              = map (attach_metadata (or_now orc) prep (bc_flavour_duration_by_name ctx)) ras
          \<and> list_all (good_placement ctx prep) ras
          \<and> set (map rq_id (bc_pending ctx)) \<subseteq> set (map ra_request_id ras)))"
    if o: "out = Some (res, rs)" for res rs
    using cases
  proof (elim disjE exE conjE)
    assume "out = Some (infeasible_result, rs0)"
    with o show ?thesis by (auto simp: infeasible_result_def)
  next
    fix ras status mode
    let ?as = "map (attach_metadata (or_now orc) prep (bc_flavour_duration_by_name ctx)) ras"
    assume "out = Some (finish_solve ctx prep rs0 ?as status mode)"
    with o have "res = fst (finish_solve ctx prep rs0 ?as status mode)" by (metis fst_conv option.inject)
    then have "br_assignments res = ?as" by simp
    moreover assume "list_all (good_placement ctx prep) ras"
      and "set (map rq_id (bc_pending ctx)) \<subseteq> set (map ra_request_id ras)"
    ultimately show ?thesis by blast
  qed
  show "\<exists>res rs. out = Some (res, rs)" using cases by (metis prod.collapse)
  show "covers_pending ctx (br_assignments res)" if "out = Some (res, rs)" "br_assignments res \<noteq> []"
    using answer [OF that(1)] that(2) by (auto simp: covers_pending_def image_image)
  show "within_bounds ctx (as_request_id a) (as_scheduled_slot a)"
    if "out = Some (res, rs)" "a \<in> set (br_assignments res)"
    using answer [OF that(1)] that(2) good_placement_bounds [OF ok prep]
    by (auto simp: list_all_iff)
  show "as_qos_profile_id a = batch_profile (bc_pending ctx)"
    if "out = Some (res, rs)" "a \<in> set (br_assignments res)"
    using answer [OF that(1)] that(2) prepare_fields(1) [OF prep] by auto
  show "known_id ctx (as_request_id a)"
    if "out = Some (res, rs)" "a \<in> set (br_assignments res)"
    using answer [OF that(1)] that(2) good_placement_known [OF ok prep]
    by (auto simp: list_all_iff)
qed

lemma build_solver_total:
  assumes "context_ok ctx"
  obtains dp where "build_solver fs (bc_carbon_forecast ctx) (bc_assignment ctx) sc pr = Some dp"
    and "dp_flavours dp = fs" and "dp_window_size dp = pol_total_slots (bc_assignment ctx)"
    and "dp_carbon_forecast dp = bc_carbon_forecast ctx" and "dp_pruning dp = pr"
proof -
  have "0 \<le> pol_total_slots (bc_assignment ctx)" using assms by (simp add: context_ok_def)
  with assms that show ?thesis
    by (auto simp: build_solver_def dp_solver_new_def with_carbon_forecast_def context_ok_def)
qed

lemma flavours_for_nonempty:
  assumes "context_ok ctx" and "prepare_solve orc ctx = (prep, rs)" and "dp_flavours dp \<noteq> []"
  shows "flavours_for dp i (ps_request_flavours prep) \<noteq> []"
  using request_flavours_nonempty [OF assms(1,2)] assms(3)
  by (auto simp: flavours_for_def split: option.splits)

lemma dp_search_answer:
  assumes ok: "context_ok ctx" and prep: "prepare_solve orc ctx = (prep, rs)"
    and ord: "valid_order (or_order orc)"
    and dp: "build_solver (ps_solver_flavours prep) (bc_carbon_forecast ctx) (bc_assignment ctx) sc pr = Some dp"
  obtains ras where "solve_batch dp (or_order orc) (or_timed_out orc) (dp_input ctx prep) = Some ras"
    and "ras = [] \<or> map ra_request_id ras = map sr_request_id (ps_solve_requests prep)"
    and "list_all (good_placement ctx prep) ras"
proof -
  let ?inp = "dp_input ctx prep"
  obtain dp' where "build_solver (ps_solver_flavours prep) (bc_carbon_forecast ctx) (bc_assignment ctx) sc pr
      = Some dp'" "dp_flavours dp' = ps_solver_flavours prep"
    "dp_window_size dp' = pol_total_slots (bc_assignment ctx)"
    "dp_carbon_forecast dp' = bc_carbon_forecast ctx" "dp_pruning dp' = pr"
    using build_solver_total [OF ok] .
  with dp have fields: "dp_flavours dp = ps_solver_flavours prep"
    "dp_window_size dp = pol_total_slots (bc_assignment ctx)"
    "dp_carbon_forecast dp = bc_carbon_forecast ctx" by auto
  have "dp_flavours dp \<noteq> []" using ok by (simp add: fields prepare_fields(5) [OF prep] context_ok_def)
  then have "solve_ok dp ?inp"
    using ok flavours_for_nonempty [OF ok prep]
    by (simp add: solve_ok_def fields dp_input_def context_ok_def list_all_iff)
  from solve_batch_legal [OF this ord, of "or_timed_out orc"] obtain ras where
    ras: "solve_batch dp (or_order orc) (or_timed_out orc) ?inp = Some ras"
    and legal: "ras = [] \<or> list_all2 (legal_assignment dp (solve_env_of dp ?inp)) (bounded_requests dp ?inp) ras"
    by (auto split: option.splits)
  have "map ra_request_id ras = map sr_request_id (ps_solve_requests prep) \<and> list_all (good_placement ctx prep) ras"
    if l2: "list_all2 (legal_assignment dp (solve_env_of dp ?inp)) (bounded_requests dp ?inp) ras"
  proof
    have len: "length ras = length (ps_solve_requests prep)"
      using list_all2_lengthD [OF l2]
      by (simp add: bounded_requests_def solve_deadlines_def dp_input_def)
    have at: "ra_request_id (ras ! i) = sr_request_id (ps_solve_requests prep ! i)
        \<and> max (sr_earliest_slot (ps_solve_requests prep ! i)) (bc_current_slot ctx) \<le> ra_slot (ras ! i)
        \<and> ra_slot (ras ! i) \<le> max (sr_deadline_slot (ps_solve_requests prep ! i)) (bc_current_slot ctx)"
      if i: "i < length ras" for i
      using list_all2_nthD2 [OF l2 i] i len
      by (auto simp: legal_assignment_def bounded_requests_def solve_deadlines_def dp_input_def
          solve_env_of_def earliest_of_def)
    show "map ra_request_id ras = map sr_request_id (ps_solve_requests prep)"
      using at len by (auto intro!: nth_equalityI)
    show "list_all (good_placement ctx prep) ras"
      using at len by (auto simp: list_all_length good_placement_def intro!: bexI [OF _ nth_mem])
  qed
  with legal ras that show ?thesis by auto
qed

lemma pending_in_solve_requests:
  assumes "prepare_solve orc ctx = (prep, rs)" and "r \<in> set (bc_pending ctx)"
  shows "pending_solve_request (bc_assignment ctx) (bc_current_slot ctx) (ps_assignment_cap prep) r
    \<in> set (ps_solve_requests prep)"
  using assms prepare_fields(4) [OF assms(1)] by simp

lemma dp_fallback_answer:
  assumes ok: "context_ok ctx" and prep: "prepare_solve orc ctx = (prep, rs)"
  obtains ras where "dp_fallback ctx prep [] {} = Some ras"
    and "list_all (good_placement ctx prep) ras"
    and "set (map ra_request_id ras) \<subseteq> set (map rq_id (bc_pending ctx))"
    and "length ras = length (bc_pending ctx) \<Longrightarrow>
      set (map rq_id (bc_pending ctx)) \<subseteq> set (map ra_request_id ras)"
proof -
  let ?pol = "bc_assignment ctx" and ?cur = "bc_current_slot ctx" and ?cap = "ps_assignment_cap prep"
  let ?reqs = "map (pending_solve_request ?pol ?cur ?cap) (bc_pending ctx)"
  let ?base = "base_counts_arr ?pol (ps_baseline_slot_counts prep)"
  obtain dp where dp: "build_solver (pol_flavours ?pol) (bc_carbon_forecast ctx) ?pol
      (bc_solver_config ctx) ''none'' = Some dp" "dp_flavours dp = pol_flavours ?pol"
    "dp_window_size dp = pol_total_slots ?pol" "dp_carbon_forecast dp = bc_carbon_forecast ctx"
    "dp_pruning dp = ''none''"
    using build_solver_total [OF ok] .
  have T: "0 \<le> pol_total_slots ?pol" "in_i32 (pol_total_slots ?pol)"
    "int (length (bc_carbon_forecast ctx)) = pol_total_slots ?pol" "0 \<le> ?cur"
    using ok by (simp_all add: context_ok_def)
  have "list_all (\<lambda>r. flavours_for dp (sr_request_id r) (ps_request_flavours prep) \<noteq> []) ?reqs"
    using flavours_for_nonempty [OF ok prep] ok dp(2) by (simp add: list_all_iff context_ok_def)
  then obtain ras where ras: "fallback_loop dp ?cur (pol_capacity_tiers ?pol) (ps_request_flavours prep)
        ?reqs ?base [] = Some ([] @ ras)"
    and l2: "list_all2 (fallback_placement dp ?cur (ps_request_flavours prep))
          (filter (\<lambda>r. earliest_of ?cur r \<le> fallback_deadline dp ?cur r) ?reqs) ras"
    using fallback_loop_spec [of dp ?cur ?base "ps_request_flavours prep" ?reqs "pol_capacity_tiers ?pol" "[]"]
      T dp by (auto simp: base_counts_arr_def)
  let ?kept = "filter (\<lambda>r. earliest_of ?cur r \<le> fallback_deadline dp ?cur r) ?reqs"
  have len: "length ras = length ?kept" using list_all2_lengthD [OF l2] by simp
  have ids: "map ra_request_id ras = map sr_request_id ?kept"
    using list_all2_nthD2 [OF l2] len by (auto intro!: nth_equalityI simp: fallback_placement_def)
  have "good_placement ctx prep ra" if ra: "ra \<in> set ras" for ra
  proof -
    obtain i where i: "i < length ras" "ra = ras ! i" using ra by (metis in_set_conv_nth)
    have "?kept ! i \<in> set ?kept" using i len by (metis nth_mem)
    then obtain r where r: "r \<in> set (bc_pending ctx)" "?kept ! i = pending_solve_request ?pol ?cur ?cap r"
      by auto
    have "fallback_placement dp ?cur (ps_request_flavours prep) (?kept ! i) ra"
      using list_all2_nthD2 [OF l2 i(1)] by (simp add: i(2))
    with pending_in_solve_requests [OF prep r(1)] show ?thesis
      unfolding good_placement_def r(2)
      by (intro bexI) (auto simp: fallback_placement_def earliest_of_def fallback_deadline_def)
  qed
  then have good: "list_all (good_placement ctx prep) ras" by (simp add: list_all_iff)
  have sub: "set (map ra_request_id ras) \<subseteq> set (map rq_id (bc_pending ctx))"
    unfolding ids by (auto simp: pending_solve_request_def)
  have full: "set (map rq_id (bc_pending ctx)) \<subseteq> set (map ra_request_id ras)"
    if "length ras = length (bc_pending ctx)"
  proof -
    have "length ?kept = length ?reqs" using that len by simp
    then have "?kept = ?reqs" by (metis filter_True length_filter_less less_irrefl)
    then show ?thesis unfolding ids by (auto simp: pending_solve_request_def)
  qed
  have "dp_fallback ctx prep [] {} = Some ras"
    using ras dp(1) by (simp add: dp_fallback_def Let_def greedy_fallback_def)
  with good sub full that show ?thesis by blast
qed

lemma solve_dp_answer:
  assumes ok: "context_ok ctx" and ord: "valid_order (or_order orc)"
  shows "strategy_answer orc ctx (solve_dp orc ctx)"
proof -
  obtain prep rs where prep: "prepare_solve orc ctx = (prep, rs)" by (metis prod.collapse)
  let ?pids = "set (map rq_id (bc_pending ctx))"
  let ?pr = "get_effective_pruning_mode (length (bc_pending ctx)) (bc_solver_config ctx)"
  have pids: "ps_pending_ids prep = ?pids" using prepare_fields(2) [OF prep] .
  have card: "card ?pids = length (bc_pending ctx)"
    using ok distinct_card [of "map rq_id (bc_pending ctx)"] by (simp add: context_ok_def)
  obtain dp where dp: "build_solver (ps_solver_flavours prep) (bc_carbon_forecast ctx) (bc_assignment ctx)
      (bc_solver_config ctx) ?pr = Some dp"
    using build_solver_total [OF ok] by metis
  obtain ras where ras: "solve_batch dp (or_order orc) (or_timed_out orc) (dp_input ctx prep) = Some ras"
    and ids: "ras = [] \<or> map ra_request_id ras = map sr_request_id (ps_solve_requests prep)"
    and good: "list_all (good_placement ctx prep) ras"
    using dp_search_answer [OF ok prep ord dp] .
  let ?sched = "set (map ra_request_id (filter (\<lambda>a. ra_request_id a \<in> ?pids) ras))"
  have out: "solve_dp orc ctx =
     (case (if card ?sched = card ?pids then Some ras else dp_fallback ctx prep ras ?sched) of
                None \<Rightarrow> None
              | Some all_assignments \<Rightarrow>
                 (if length (filter (\<lambda>a. ra_request_id a \<in> ?pids) all_assignments) \<noteq> card ?pids
                  then Some (infeasible_result, rs)
                  else Some (finish_solve ctx prep rs
                        (map (attach_metadata (or_now orc) prep (bc_flavour_duration_by_name ctx)) all_assignments)
                        (if card ?sched = card ?pids then ''ok'' else ''ok_greedy_after_infeasible'')
                        (if card ?sched = card ?pids then ''dp_'' @ ?pr else ''greedy_after_infeasible''))))"
    unfolding solve_dp_def prep Let_def prod.case pids dp ras option.case by (rule refl)
  show ?thesis
  proof (cases "ras = [] \<and> bc_pending ctx \<noteq> []")
    case False
    have sub: "?pids \<subseteq> set (map ra_request_id ras)"
    proof (cases "ras = []")
      case True
      with False show ?thesis by simp
    next
      case False
      then have "set (map ra_request_id ras) = sr_request_id ` set (ps_solve_requests prep)"
        using ids by (metis list.set_map)
      then show ?thesis
        unfolding prepare_fields(4) [OF prep]
        by (simp add: image_Un image_image pending_solve_request_def)
    qed
    have "?sched = ?pids"
    proof
      show "?pids \<subseteq> ?sched"
      proof
        fix i assume i: "i \<in> ?pids"
        then have "i \<in> set (map ra_request_id ras)" using sub by blast
        then obtain a where "a \<in> set ras" "i = ra_request_id a" by auto
        with i show "i \<in> ?sched" by auto
      qed
    qed auto
    then have out': "solve_dp orc ctx =
        (if length (filter (\<lambda>a. ra_request_id a \<in> ?pids) ras) \<noteq> card ?pids
         then Some (infeasible_result, rs)
         else Some (finish_solve ctx prep rs
            (map (attach_metadata (or_now orc) prep (bc_flavour_duration_by_name ctx)) ras) ''ok'' (''dp_'' @ ?pr)))"
      by (simp add: out)
    show ?thesis unfolding strategy_answer_def prep Let_def prod.case out'
      using sub good by (split if_split) blast
  next
    case True
    then have "card {} \<noteq> card ?pids" by (simp add: card)
    moreover obtain gs where gs: "dp_fallback ctx prep [] {} = Some gs"
      "list_all (good_placement ctx prep) gs" "set (map ra_request_id gs) \<subseteq> ?pids"
      "length gs = length (bc_pending ctx) \<Longrightarrow> ?pids \<subseteq> set (map ra_request_id gs)"
      using dp_fallback_answer [OF ok prep] by blast
    moreover have "filter (\<lambda>a. ra_request_id a \<in> ?pids) gs = gs" using gs(3) by (intro filter_True ballI) auto
    ultimately have out': "solve_dp orc ctx =
        (if length gs \<noteq> length (bc_pending ctx) then Some (infeasible_result, rs)
         else Some (finish_solve ctx prep rs
            (map (attach_metadata (or_now orc) prep (bc_flavour_duration_by_name ctx)) gs)
            ''ok_greedy_after_infeasible'' ''greedy_after_infeasible''))"
      using True by (simp add: out card [simplified])
    show ?thesis unfolding strategy_answer_def prep Let_def prod.case out'
      using gs(2,4) by (split if_split) blast
  qed
qed

lemma singleton_scan_result:
  "singleton_scan cost ok pairs best = Some (c, s, f) \<Longrightarrow>
   best = Some (c, s, f) \<or> ((s, f) \<in> set pairs \<and> ok f \<and> c = cost s f)"
  by (induction cost ok pairs best rule: singleton_scan.induct) (auto split: if_splits)

lemma singleton_scan_le:
  "singleton_scan cost ok pairs best = b \<Longrightarrow>
   (\<forall>c x. best = Some (c, x) \<longrightarrow> (\<exists>c' x'. b = Some (c', x') \<and> c' \<le> c))
   \<and> (\<forall>(s, f)\<in>set pairs. ok f \<longrightarrow> (\<exists>c' x'. b = Some (c', x') \<and> c' \<le> cost s f))"
proof (induction cost ok pairs best rule: singleton_scan.induct)
  case (2 cost ok s f sfs best)
  let ?best = "if ok f \<and> cheaper (cost s f) fst best then Some (cost s f, s, f) else best"
  have "singleton_scan cost ok sfs ?best = b" using "2.prems" by simp
  from "2.IH" [OF this]
  have ih: "\<forall>c x. ?best = Some (c, x) \<longrightarrow> (\<exists>c' x'. b = Some (c', x') \<and> c' \<le> c)"
    and rest: "\<forall>(s, f)\<in>set sfs. ok f \<longrightarrow> (\<exists>c' x'. b = Some (c', x') \<and> c' \<le> cost s f)" by blast+
  have "\<exists>c' x'. b = Some (c', x') \<and> c' \<le> c" if "best = Some (c, x)" for c x
    using ih that by (cases "ok f \<and> cheaper (cost s f) fst best") (auto simp: cheaper_def)
  moreover have "\<exists>c' x'. b = Some (c', x') \<and> c' \<le> cost s f" if "ok f"
    using ih that by (cases best) (auto simp: cheaper_def split: if_splits)
  ultimately show ?case using rest by auto
qed auto

lemma singleton_loop_placed:
  "singleton_loop ctx prep constrained by_dur fb rs counts solved = Some out \<Longrightarrow>
   \<exists>news. out = solved @ news
     \<and> list_all2 (\<lambda>r ra. ra_request_id ra = sr_request_id r
          \<and> max (sr_earliest_slot r) (bc_current_slot ctx) \<le> ra_slot ra
          \<and> ra_slot ra \<le> sr_deadline_slot r) rs news"
proof (induction rs arbitrary: counts solved)
  case (Cons r rs)
  let ?start = "max (sr_earliest_slot r) (bc_current_slot ctx)"
  let ?arrival = "case map_of (ps_assignment_metadata prep) (sr_request_id r) of
      Some (a, _) \<Rightarrow> a | None \<Rightarrow> bc_current_slot ctx"
  let ?pairs = "concat (map (\<lambda>s. map (\<lambda>f. (s, f)) by_dur) [?start..sr_deadline_slot r])"
  define best where "best = singleton_scan (singleton_cost ctx counts)
      (singleton_feasible ctx prep constrained solved ?arrival) ?pairs None"
  obtain c s f where csf: "(case best of Some b \<Rightarrow> b
      | None \<Rightarrow> (singleton_cost ctx counts ?start fb, ?start, fb)) = (c, s, f)"
    by (metis prod.collapse)
  have le: "?start \<le> sr_deadline_slot r"
  proof (rule ccontr)
    assume "\<not> ?start \<le> sr_deadline_slot r"
    then have "sr_deadline_slot r < ?start" by (simp only: not_le)
    with Cons.prems show False by (simp add: Let_def)
  qed
  have s: "?start \<le> s \<and> s \<le> sr_deadline_slot r"
  proof (cases best)
    case None
    then show ?thesis using csf le by auto
  next
    case (Some b)
    then have "best = Some (c, s, f)" using csf by simp
    then have "(s, f) \<in> set ?pairs" unfolding best_def using singleton_scan_result by fastforce
    then show ?thesis by auto
  qed
  have "singleton_loop ctx prep constrained by_dur fb rs (hm_entry s 0 (\<lambda>n. n + 1) counts)
      (solved @ [placed r (f, s) c]) = Some out"
    using Cons.prems le csf unfolding best_def [symmetric] singleton_loop.simps Let_def
    by (simp flip: best_def)
  from Cons.IH [OF this] s show ?case by (force simp: placed_def)
qed simp

lemma solve_greedy_singleton_answer:
  assumes ok: "context_ok ctx"
  shows "strategy_answer orc ctx (solve_greedy_singleton orc ctx)"
proof -
  obtain prep rs where prep: "prepare_solve orc ctx = (prep, rs)" by (metis prod.collapse)
  let ?fs = "ps_solver_flavours prep"
  have "min_by_key fl_error ?fs \<noteq> None"
    using ok by (simp add: prepare_fields(5) [OF prep] context_ok_def)
  then obtain fb where fb: "min_by_key fl_error ?fs = Some fb" by blast
  let ?st = "ps_profile_error_stats prep"
  let ?con = "ps_profile_constraint_active prep \<and> pol_global_error_constraint_hard (bc_assignment ctx)
      \<and> pol_max_error_threshold (bc_assignment ctx) < (if 0 < gs_count ?st then gs_avg ?st else 0)"
  let ?loop = "singleton_loop ctx prep ?con (sort_key fl_duration ?fs) fb (ps_solve_requests prep)
      (ps_baseline_slot_counts prep) []"
  have out: "solve_greedy_singleton orc ctx = (case ?loop of None \<Rightarrow> Some (infeasible_result, rs)
      | Some solved \<Rightarrow> Some (finish_solve ctx prep rs
          (map (attach_metadata (or_now orc) prep (bc_flavour_duration_by_name ctx)) solved)
          ''ok'' ''greedy_singleton''))"
    unfolding solve_greedy_singleton_def prep Let_def prod.case fb option.case by (rule refl)
  show ?thesis
  proof (cases ?loop)
    case None
    then show ?thesis by (simp add: strategy_answer_def prep out)
  next
    case (Some ras)
    then have l2: "list_all2 (\<lambda>r ra. ra_request_id ra = sr_request_id r
          \<and> max (sr_earliest_slot r) (bc_current_slot ctx) \<le> ra_slot ra
          \<and> ra_slot ra \<le> sr_deadline_slot r) (ps_solve_requests prep) ras"
      using singleton_loop_placed [OF Some] by auto
    have "map ra_request_id ras = map sr_request_id (ps_solve_requests prep)"
      using l2 by (induction rule: list_all2_induct) auto
    then have "set (map ra_request_id ras) = sr_request_id ` set (ps_solve_requests prep)"
      by (metis list.set_map)
    then have sub: "set (map rq_id (bc_pending ctx)) \<subseteq> set (map ra_request_id ras)"
      unfolding prepare_fields(4) [OF prep]
      by (simp add: image_Un image_image pending_solve_request_def)
    have "good_placement ctx prep ra" if ra: "ra \<in> set ras" for ra
    proof -
      obtain i where i: "i < length ras" "ra = ras ! i" using ra by (metis in_set_conv_nth)
      then have "ps_solve_requests prep ! i \<in> set (ps_solve_requests prep)"
        using list_all2_lengthD [OF l2] by simp
      then show ?thesis
        using list_all2_nthD2 [OF l2 i(1)] unfolding good_placement_def i(2) by fastforce
    qed
    then have "list_all (good_placement ctx prep) ras" by (simp add: list_all_iff)
    with sub show ?thesis
      unfolding strategy_answer_def prep Let_def prod.case out Some option.case by blast
  qed
qed

text \<open>The trait's two implementations; an oracle must iterate hash maps faithfully.\<close>

definition dp_context_ok :: "oracles \<Rightarrow> batch_solve_context \<Rightarrow> bool" where
  "dp_context_ok orc ctx \<longleftrightarrow> context_ok ctx \<and> valid_order (or_order orc)"

interpretation dp: batch_solver "solve_dp orc" "dp_context_ok orc"
proof unfold_locales
  fix ctx res rs a
  assume "dp_context_ok orc ctx"
  then have ok: "context_ok ctx" and ans: "strategy_answer orc ctx (solve_dp orc ctx)"
    by (simp_all add: dp_context_ok_def solve_dp_answer)
  note laws = strategy_answer_laws [OF ok ans]
  show "\<exists>res rs. solve_dp orc ctx = Some (res, rs)" by (rule laws(1))
  assume out: "solve_dp orc ctx = Some (res, rs)"
  show "br_assignments res \<noteq> [] \<Longrightarrow> covers_pending ctx (br_assignments res)" by (rule laws(2) [OF out])
  assume "a \<in> set (br_assignments res)"
  then show "within_bounds ctx (as_request_id a) (as_scheduled_slot a)"
    and "as_qos_profile_id a = batch_profile (bc_pending ctx)"
    and "known_id ctx (as_request_id a)" by (rule laws(3,4,5) [OF out])+
qed

interpretation singleton: batch_solver "solve_greedy_singleton orc" context_ok
proof unfold_locales
  fix ctx res rs a
  assume ok: "context_ok ctx"
  note laws = strategy_answer_laws [OF ok solve_greedy_singleton_answer [OF ok]]
  show "\<exists>res rs. solve_greedy_singleton orc ctx = Some (res, rs)" by (rule laws(1))
  assume out: "solve_greedy_singleton orc ctx = Some (res, rs)"
  show "br_assignments res \<noteq> [] \<Longrightarrow> covers_pending ctx (br_assignments res)" by (rule laws(2) [OF out])
  assume "a \<in> set (br_assignments res)"
  then show "within_bounds ctx (as_request_id a) (as_scheduled_slot a)"
    and "as_qos_profile_id a = batch_profile (bc_pending ctx)"
    and "known_id ctx (as_request_id a)" by (rule laws(3,4,5) [OF out])+
qed

text \<open>The registry resolves to one of them.\<close>

interpretation strategy: batch_solver "run_strategy strat orc" "dp_context_ok orc"
proof -
  show "batch_solver (run_strategy strat orc) (dp_context_ok orc)"
  proof (cases strat)
    case DpBatchSolver
    then have "run_strategy strat orc = solve_dp orc" by (simp add: fun_eq_iff)
    then show ?thesis using dp.batch_solver_axioms by simp
  next
    case GreedySingletonBatchSolver
    then have "run_strategy strat orc = solve_greedy_singleton orc" by (simp add: fun_eq_iff)
    then show ?thesis
      using singleton.solve_total singleton.solve_covers singleton.solve_bounds singleton.solve_profile
        singleton.solve_ids
      by (auto simp: batch_solver_def dp_context_ok_def)
  qed
qed

section \<open>Properties of the strategies\<close>

text \<open>
  C10: A committed batch is scheduled inside its bounds. Whichever of the two batch
  solvers of the registry is selected (\<open>dp\<close> or \<open>greedy_singleton\<close>), if a solve
  returns assignments and they are recorded, every claimed request has a live
  assignment, not before its arrival nor the current slot. It is not after the deadline
  when the deadline is still ahead, and exactly in the current slot when the deadline has
  passed. The swarms, which are not batch solvers of the registry, are not covered: they
  may place a late request before the current slot.
\<close>

theorem batch_commits_in_bounds:
  assumes "dp_context_ok orc ctx" and "run_strategy strat orc ctx = Some (res, rs)"
    and "br_assignments res \<noteq> []" and "record_all st (br_assignments res) = Some st'"
    and "r \<in> set (bc_pending ctx)"
  shows "\<exists>a. map_of (in_assignments st') (rq_id r) = Some a
    \<and> max (rq_arrival_slot r) (bc_current_slot ctx) \<le> as_scheduled_slot a
    \<and> as_scheduled_slot a \<le> max (rq_deadline_slot r) (bc_current_slot ctx)
    \<and> (bc_current_slot ctx \<le> rq_deadline_slot r \<longrightarrow> as_scheduled_slot a \<le> rq_deadline_slot r)
    \<and> (rq_deadline_slot r < bc_current_slot ctx \<longrightarrow> as_scheduled_slot a = bc_current_slot ctx)"
  using strategy.committed_batch [OF assms] assms(5)
  by (fastforce simp: within_bounds_def list_all_iff)

text \<open>
  A solve never panics, and it is all or nothing. Under a well-formed context the
  selected strategy returns; its answer is empty or covers every claimed request, and all
  its assignments carry the profile of the batch.
\<close>

theorem batch_all_or_nothing:
  assumes "dp_context_ok orc ctx"
  shows "\<exists>res rs. run_strategy strat orc ctx = Some (res, rs)
    \<and> (br_assignments res = [] \<or> covers_pending ctx (br_assignments res))
    \<and> list_all (\<lambda>a. as_qos_profile_id a = batch_profile (bc_pending ctx)) (br_assignments res)"
proof -
  obtain res rs where out: "run_strategy strat orc ctx = Some (res, rs)"
    using strategy.solve_total [OF assms] by blast
  then show ?thesis
    using strategy.solve_covers [OF assms out] strategy.solve_profile [OF assms out]
    by (auto simp: list_all_iff)
qed

lemma singleton_loop_complete:
  "(singleton_loop ctx prep constrained by_dur fb rs counts solved = None) \<longleftrightarrow>
   (\<exists>sr\<in>set rs. sr_deadline_slot sr < max (sr_earliest_slot sr) (bc_current_slot ctx))"
proof (induction rs arbitrary: counts solved)
  case (Cons r rs)
  show ?case
  proof (cases "sr_deadline_slot r < max (sr_earliest_slot r) (bc_current_slot ctx)")
    case False
    have "\<exists>counts' solved'. singleton_loop ctx prep constrained by_dur fb (r # rs) counts solved
      = singleton_loop ctx prep constrained by_dur fb rs counts' solved'"
      unfolding singleton_loop.simps Let_def if_not_P [OF False] case_prod_unfold by (intro exI) (rule refl)
    then obtain counts' solved' where "singleton_loop ctx prep constrained by_dur fb (r # rs) counts solved
      = singleton_loop ctx prep constrained by_dur fb rs counts' solved'" by (elim exE)
    with Cons.IH [of counts' solved'] False show ?thesis by (simp only: set_simps bex_simps) blast
  qed (simp add: Let_def)
qed simp

lemma solve_greedy_singleton_unfold:
  assumes prep: "prepare_solve orc ctx = (prep, rs)" and "ps_solver_flavours prep \<noteq> []"
  obtains fb con where "min_by_key fl_error (ps_solver_flavours prep) = Some fb"
    and "solve_greedy_singleton orc ctx =
      (case singleton_loop ctx prep con (sort_key fl_duration (ps_solver_flavours prep)) fb
             (ps_solve_requests prep) (ps_baseline_slot_counts prep) [] of
         None \<Rightarrow> Some (infeasible_result, rs)
       | Some solved \<Rightarrow> Some (finish_solve ctx prep rs
           (map (attach_metadata (or_now orc) prep (bc_flavour_duration_by_name ctx)) solved)
           ''ok'' ''greedy_singleton''))"
    and "con \<longleftrightarrow> ps_profile_constraint_active prep \<and> pol_global_error_constraint_hard (bc_assignment ctx)
      \<and> pol_max_error_threshold (bc_assignment ctx)
          < (if 0 < gs_count (ps_profile_error_stats prep) then gs_avg (ps_profile_error_stats prep) else 0)"
proof -
  obtain fb where fb: "min_by_key fl_error (ps_solver_flavours prep) = Some fb"
    using assms(2) by (metis min_by_key_None not_Some_eq)
  show ?thesis
    by (rule that [OF fb _ refl])
      (unfold solve_greedy_singleton_def prep Let_def prod.case fb option.case, rule refl)
qed

text \<open>
  When the singleton strategy gives up. It reports infeasibility exactly when some
  request to be planned, claimed or movable, has no slot left between its earliest slot and
  its capped deadline; the error limits never make it give up.
\<close>

theorem singleton_infeasible_iff:
  assumes "context_ok ctx" and "prepare_solve orc ctx = (prep, rs)"
  shows "solve_greedy_singleton orc ctx = Some (infeasible_result, rs) \<longleftrightarrow>
    (\<exists>sr\<in>set (ps_solve_requests prep).
       sr_deadline_slot sr < max (sr_earliest_slot sr) (bc_current_slot ctx))"
proof -
  have ne: "ps_solver_flavours prep \<noteq> []"
    using assms(1) by (simp add: prepare_fields(5) [OF assms(2)] context_ok_def)
  obtain fb con where "min_by_key fl_error (ps_solver_flavours prep) = Some fb"
    and out: "solve_greedy_singleton orc ctx =
      (case singleton_loop ctx prep con (sort_key fl_duration (ps_solver_flavours prep)) fb
             (ps_solve_requests prep) (ps_baseline_slot_counts prep) [] of
         None \<Rightarrow> Some (infeasible_result, rs)
       | Some solved \<Rightarrow> Some (finish_solve ctx prep rs
           (map (attach_metadata (or_now orc) prep (bc_flavour_duration_by_name ctx)) solved)
           ''ok'' ''greedy_singleton''))"
    by (rule solve_greedy_singleton_unfold [OF assms(2) ne]) (rule that)
  have "finish_solve ctx prep rs as ''ok'' m \<noteq> (infeasible_result, rs)" for as m
  proof
    assume "finish_solve ctx prep rs as ''ok'' m = (infeasible_result, rs)"
    then have "ctx_status (br_context (fst (finish_solve ctx prep rs as ''ok'' m)))
      = ctx_status (br_context infeasible_result)" by simp
    then show False
      by (simp add: finish_solve_def infeasible_result_def Let_def case_prod_unfold)
  qed
  then have "solve_greedy_singleton orc ctx = Some (infeasible_result, rs) \<longleftrightarrow>
      singleton_loop ctx prep con (sort_key fl_duration (ps_solver_flavours prep)) fb
        (ps_solve_requests prep) (ps_baseline_slot_counts prep) [] = None"
    unfolding out by (auto split: option.split)
  then show ?thesis unfolding singleton_loop_complete .
qed

lemma singleton_step_choice:
  assumes "singleton_loop ctx prep constrained by_dur fb (r # rs) counts solved = Some out"
    and "arrival = (case map_of (ps_assignment_metadata prep) (sr_request_id r) of
           Some (a, _) \<Rightarrow> a | None \<Rightarrow> bc_current_slot ctx)"
    and "start = max (sr_earliest_slot r) (bc_current_slot ctx)"
  shows "\<exists>s f.
    (if \<exists>g\<in>set by_dur. singleton_feasible ctx prep constrained solved arrival g
     then start \<le> s \<and> s \<le> sr_deadline_slot r \<and> f \<in> set by_dur
       \<and> singleton_feasible ctx prep constrained solved arrival f
       \<and> list_all (\<lambda>t. list_all (\<lambda>g. \<not> singleton_feasible ctx prep constrained solved arrival g
             \<or> singleton_cost ctx counts s f \<le> singleton_cost ctx counts t g) by_dur)
           [start..sr_deadline_slot r]
     else s = start \<and> f = fb)
    \<and> singleton_loop ctx prep constrained by_dur fb rs (hm_entry s 0 (\<lambda>n. n + 1) counts)
        (solved @ [placed r (f, s) (singleton_cost ctx counts s f)]) = Some out"
proof -
  let ?ok = "singleton_feasible ctx prep constrained solved arrival"
  let ?pairs = "concat (map (\<lambda>s. map (\<lambda>f. (s, f)) by_dur) [start..sr_deadline_slot r])"
  define best where "best = singleton_scan (singleton_cost ctx counts) ?ok ?pairs None"
  obtain c s f where csf: "(case best of Some b \<Rightarrow> b
      | None \<Rightarrow> (singleton_cost ctx counts start fb, start, fb)) = (c, s, f)"
    by (metis prod.collapse)
  have le: "start \<le> sr_deadline_slot r"
  proof (rule ccontr)
    assume "\<not> start \<le> sr_deadline_slot r"
    then have "sr_deadline_slot r < max (sr_earliest_slot r) (bc_current_slot ctx)"
      unfolding assms(3) by (simp only: not_le)
    with assms(1) show False by (simp add: Let_def)
  qed
  have step: "singleton_loop ctx prep constrained by_dur fb rs (hm_entry s 0 (\<lambda>n. n + 1) counts)
      (solved @ [placed r (f, s) c]) = Some out"
    using assms(1) le csf
    unfolding best_def [unfolded assms(2,3), symmetric] singleton_loop.simps Let_def assms(2,3)
    by (simp flip: best_def [unfolded assms(2,3)])
  note least = singleton_scan_le [OF best_def [symmetric]]
  show ?thesis
  proof (cases best)
    case None
    then have "\<not> (\<exists>g\<in>set by_dur. ?ok g)" using least le by force
    moreover have "c = singleton_cost ctx counts s f" "s = start" "f = fb" using None csf by auto
    ultimately show ?thesis using step by (intro exI [of _ s] exI [of _ f]) simp
  next
    case (Some b)
    then have best: "best = Some (c, s, f)" using csf by simp
    then have in_range: "(s, f) \<in> set ?pairs" "?ok f" "c = singleton_cost ctx counts s f"
      using singleton_scan_result [of "singleton_cost ctx counts" ?ok ?pairs None c s f]
      by (simp_all add: best_def)
    have "c \<le> singleton_cost ctx counts t g"
      if "g \<in> set by_dur" "?ok g" "start \<le> t" "t \<le> sr_deadline_slot r" for t g
      using least that best by force
    then show ?thesis using step in_range
      by (intro exI [of _ s] exI [of _ f]) (auto simp: list_all_iff)
  qed
qed

text \<open>
  The singleton strategy is greedy and optimal per request. For the request at the head
  of the queue it places the cheapest feasible slot and flavour between its earliest slot and
  its deadline, at the price of the slot's next occupant; if none keeps the error limits it
  takes the most accurate flavour in the earliest slot. Then it goes on with that slot
  one busier.
\<close>

theorem singleton_step_cheapest:
  assumes "singleton_loop ctx prep constrained by_dur fb (r # rs) counts solved = Some out"
    and "arrival = (case map_of (ps_assignment_metadata prep) (sr_request_id r) of
           Some (a, _) \<Rightarrow> a | None \<Rightarrow> bc_current_slot ctx)"
    and "start = max (sr_earliest_slot r) (bc_current_slot ctx)"
  shows "\<exists>s f.
    (if \<exists>g\<in>set by_dur. singleton_feasible ctx prep constrained solved arrival g
     then start \<le> s \<and> s \<le> sr_deadline_slot r \<and> f \<in> set by_dur
       \<and> singleton_feasible ctx prep constrained solved arrival f
       \<and> list_all (\<lambda>t. list_all (\<lambda>g. \<not> singleton_feasible ctx prep constrained solved arrival g
             \<or> singleton_cost ctx counts s f \<le> singleton_cost ctx counts t g) by_dur)
           [start..sr_deadline_slot r]
     else s = start \<and> f = fb)
    \<and> singleton_loop ctx prep constrained by_dur fb rs (hm_entry s 0 (\<lambda>n. n + 1) counts)
        (solved @ [placed r (f, s) (singleton_cost ctx counts s f)]) = Some out"
  using assms by (rule singleton_step_choice)

lemma singleton_loop_flavours:
  "singleton_loop ctx prep constrained by_dur fb rs counts solved = Some out \<Longrightarrow> a \<in> set out \<Longrightarrow>
   a \<in> set solved \<or> (\<exists>f\<in>set (fb # by_dur). ra_error a = fl_error f)"
proof (induction rs arbitrary: counts solved)
  case (Cons r rs)
  from singleton_step_choice [OF Cons.prems(1) refl refl] obtain s f where
    f: "f \<in> set (fb # by_dur)"
    and rest: "singleton_loop ctx prep constrained by_dur fb rs (hm_entry s 0 (\<lambda>n. n + 1) counts)
        (solved @ [placed r (f, s) (singleton_cost ctx counts s f)]) = Some out"
    by (elim exE conjE) (auto split: if_splits)
  from Cons.IH [OF rest Cons.prems(2)] f show ?case by (auto simp: placed_def)
qed simp

text \<open>
  The hard cumulative rule binds the singleton strategy. While the profile's average
  error is over its threshold and the rule is hard, every assignment has an error at
  most the threshold, if the profile has such a flavour at all.
\<close>

theorem singleton_hard_constraint:
  assumes "context_ok ctx" and "prepare_solve orc ctx = (prep, rs0)"
    and "cumulative_active (bc_assignment ctx)
      (get_profile_error_stats (batch_profile (bc_pending ctx)) (bc_shared_state ctx))"
    and "pol_global_error_constraint_hard (bc_assignment ctx)"
    and "f \<in> set (pol_flavours (bc_assignment ctx))"
    and "fl_error f \<le> pol_max_error_threshold (bc_assignment ctx)"
    and "solve_greedy_singleton orc ctx = Some (res, rs)" and "a \<in> set (br_assignments res)"
  shows "as_error a \<le> pol_max_error_threshold (bc_assignment ctx)"
proof -
  let ?pol = "bc_assignment ctx" and ?fs = "ps_solver_flavours prep"
  let ?kept = "filter (\<lambda>f. fl_error f \<le> pol_max_error_threshold ?pol) (pol_flavours ?pol)"
  have "?kept \<noteq> []" using assms(5,6) by (auto simp: filter_empty_conv)
  then have fs: "?fs = ?kept"
    using assms(3,4)
    by (simp add: prepare_fields(5,8) [OF assms(2)] restrict_flavours_def Let_def)
  have ne: "?fs \<noteq> []" unfolding fs using \<open>?kept \<noteq> []\<close> .
  obtain fb con where fb: "min_by_key fl_error ?fs = Some fb"
    and out: "solve_greedy_singleton orc ctx =
      (case singleton_loop ctx prep con (sort_key fl_duration ?fs) fb
             (ps_solve_requests prep) (ps_baseline_slot_counts prep) [] of
         None \<Rightarrow> Some (infeasible_result, rs0)
       | Some solved \<Rightarrow> Some (finish_solve ctx prep rs0
           (map (attach_metadata (or_now orc) prep (bc_flavour_duration_by_name ctx)) solved)
           ''ok'' ''greedy_singleton''))"
    by (rule solve_greedy_singleton_unfold [OF assms(2) ne]) (rule that)
  obtain solved where
    loop: "singleton_loop ctx prep con (sort_key fl_duration ?fs) fb
      (ps_solve_requests prep) (ps_baseline_slot_counts prep) [] = Some solved"
    and as: "br_assignments res
      = map (attach_metadata (or_now orc) prep (bc_flavour_duration_by_name ctx)) solved"
    using assms(7,8) unfolding out
    by (auto simp: infeasible_result_def split: option.splits dest!: arg_cong [of _ _ fst])
  obtain ra where ra: "ra \<in> set solved" "as_error a = ra_error ra" using assms(8) as by auto
  from singleton_loop_flavours [OF loop ra(1)] obtain g
    where "g \<in> set (fb # ?fs)" "ra_error ra = fl_error g" by auto
  then show ?thesis using min_by_key_in [OF fb] ra(2) unfolding fs by auto
qed

text \<open>
  No strategy consumes synthetic requests. The pool is stored under the name of the
  recovery mode, but the strategies consume it under the name of the solver mode, so for
  each documented recovery mode a solve leaves the recovery state as its preparation left
  it, and a retry in the same slot is offered the same pool again.
\<close>

theorem solve_leaves_pool:
  assumes "normal_mode (inf_recovery_mode (bc_recovery_config ctx))
      \<in> {''carryover'', ''forecast'', ''min_error_greedy''}"
    and "run_strategy strat orc ctx = Some (res, rs)"
  shows "rs = snd (prepare_solve orc ctx)"
proof -
  let ?rm = "inf_recovery_mode (bc_recovery_config ctx)"
  obtain prep rs0 where prep: "prepare_solve orc ctx = (prep, rs0)" by (metis prod.collapse)
  have consume: "consume_mock_pool (bc_current_slot ctx) m k (ps_profile_id prep) ?rm rs0 = rs0"
    if m: "m \<noteq> normal_mode ?rm" for m k
  proof (cases "normal_mode ?rm = ''min_error_greedy''")
    case False
    obtain b bl pool where
      rec: "apply_infeasibility_recovery (or_sample orc) (bc_current_slot ctx) b
        (batch_profile (bc_pending ctx)) (bc_assignment ctx) (bc_simulation_config ctx)
        (bc_recovery_config ctx) (snapshot_for_solver (bc_shared_state ctx)) (bc_recovery_state ctx)
        = ((bl, pool), rs0)"
      using prep by (auto simp: prepare_solve_def Let_def split: prod.splits)
    obtain d n e where d: "map_of rs0 (batch_profile (bc_pending ctx)) = Some d"
      "rd_mock_pool d = \<lparr>mk_slot = Some (bc_current_slot ctx), mk_mode = Some (normal_mode ?rm),
         mk_remaining = n, mk_error = e\<rparr>"
      by (rule apply_recovery_lookup [OF False rec])
    with m show ?thesis
      by (simp add: consume_mock_pool_def Let_def prepare_fields(1) [OF prep])
  qed (simp add: consume_mock_pool_def)
  have fin: "snd (finish_solve ctx prep rs0 as st m) = rs0" if "m \<noteq> normal_mode ?rm" for as st m
    using consume [OF that] by (simp add: finish_solve_def Let_def case_prod_unfold)
  have modes: "''dp_'' @ p \<noteq> normal_mode ?rm" "''greedy_after_infeasible'' \<noteq> normal_mode ?rm"
    "''greedy_singleton'' \<noteq> normal_mode ?rm" for p
    using assms(1) by auto
  note kept = fin [OF modes(1)] fin [OF modes(2)] fin [OF modes(3)]
  have "rs = rs0"
  proof (cases strat)
    case DpBatchSolver
    with assms(2) have "solve_dp orc ctx = Some (res, rs)" by simp
    with kept show ?thesis
      unfolding solve_dp_def prep Let_def prod.case
      by (auto split: option.splits if_splits dest!: arg_cong [of _ _ snd])
  next
    case GreedySingletonBatchSolver
    with assms(2) have "solve_greedy_singleton orc ctx = Some (res, rs)" by simp
    with kept show ?thesis
      unfolding solve_greedy_singleton_def prep Let_def prod.case
      by (auto split: option.splits if_splits dest!: arg_cong [of _ _ snd])
  qed
  then show ?thesis by (simp add: prep)
qed

section \<open>A concrete batch\<close>

text \<open>One request of the default profile, arriving at slot 0 with deadline 5.\<close>

definition sample_oracles :: oracles where
  "sample_oracles = \<lparr>or_sample = (\<lambda>r s n. r), or_order = (\<lambda>_ t. t), or_timed_out = (\<lambda>_. False), or_now = 0\<rparr>"

definition sample_batch_on :: "inner \<Rightarrow> batch_solve_context" where
  "sample_batch_on st =
     \<lparr>bc_current_slot = 0, bc_pending = [request_new 0 7 0 5], bc_shared_state = st,
      bc_assignment = assignment_policy_of config_default, bc_solver_config = solver_config_default,
      bc_simulation_config = simulation_config_default,
      bc_recovery_config = infeasibility_config_default, bc_recovery_state = recovery_state_new,
      bc_carbon_forecast = replicate 24 1, bc_flavour_duration_by_name = []\<rparr>"

abbreviation sample_batch :: batch_solve_context where
  "sample_batch \<equiv> sample_batch_on inner_new"

lemma sample_batch_on_ok:
  "inner_inv st \<Longrightarrow> map_of (in_assignments st) 7 = None \<Longrightarrow> dp_context_ok sample_oracles (sample_batch_on st)"
  by (simp add: dp_context_ok_def context_ok_def sample_batch_on_def sample_oracles_def valid_order_def
      assignment_policy_of_def config_default_def request_new_def in_i32_def domIff)

lemma sample_batch_ok: "dp_context_ok sample_oracles sample_batch"
  by (rule sample_batch_on_ok) (simp_all add: inner_new_def [THEN arg_cong [of _ _ in_assignments]])

lemma sample_requests:
  assumes "prepare_solve orc (sample_batch_on st) = (prep, rs)"
  shows "ps_solve_requests prep = [\<lparr>sr_request_id = 7, sr_earliest_slot = 0, sr_deadline_slot = 5\<rparr>]"
  unfolding prepare_fields(4) [OF assms] prepare_fields(3) [OF assms]
  by (simp add: sample_batch_on_def pending_solve_request_def request_new_def cap_deadline_def
      policy_window_end_def assignment_policy_of_def config_default_def movable_assignments_def
      solver_config_default_def i32_add_def i32_sub_def wrap32_def)

lemma sample_answer:
  assumes ok: "dp_context_ok sample_oracles (sample_batch_on st)"
  obtains res rs where "run_strategy GreedySingletonBatchSolver sample_oracles (sample_batch_on st) = Some (res, rs)"
    and "br_assignments res \<noteq> []"
proof -
  obtain prep rs where prep: "prepare_solve sample_oracles (sample_batch_on st) = (prep, rs)" by (metis prod.collapse)
  have ne: "ps_solver_flavours prep \<noteq> []"
    using ok by (simp add: prepare_fields(5) [OF prep] dp_context_ok_def context_ok_def)
  obtain fb con where fb: "min_by_key fl_error (ps_solver_flavours prep) = Some fb"
    and out: "solve_greedy_singleton sample_oracles (sample_batch_on st) =
      (case singleton_loop (sample_batch_on st) prep con (sort_key fl_duration (ps_solver_flavours prep)) fb
             (ps_solve_requests prep) (ps_baseline_slot_counts prep) [] of
         None \<Rightarrow> Some (infeasible_result, rs)
       | Some solved \<Rightarrow> Some (finish_solve (sample_batch_on st) prep rs
           (map (attach_metadata (or_now sample_oracles) prep (bc_flavour_duration_by_name (sample_batch_on st))) solved)
           ''ok'' ''greedy_singleton''))"
    by (rule solve_greedy_singleton_unfold [OF prep ne]) (rule that)
  obtain solved where solved: "singleton_loop (sample_batch_on st) prep con (sort_key fl_duration (ps_solver_flavours prep)) fb
      (ps_solve_requests prep) (ps_baseline_slot_counts prep) [] = Some solved"
    using singleton_loop_complete [of "sample_batch_on st" prep con _ fb "ps_solve_requests prep"]
    by (fastforce simp: sample_requests [OF prep] sample_batch_on_def)
  have "solved \<noteq> []"
    using singleton_loop_placed [OF solved] by (auto simp: sample_requests [OF prep])
  then show ?thesis
    using that [of "fst (finish_solve (sample_batch_on st) prep rs
        (map (attach_metadata (or_now sample_oracles) prep (bc_flavour_duration_by_name (sample_batch_on st))) solved)
        ''ok'' ''greedy_singleton'')" "snd (finish_solve (sample_batch_on st) prep rs
        (map (attach_metadata (or_now sample_oracles) prep (bc_flavour_duration_by_name (sample_batch_on st))) solved)
        ''ok'' ''greedy_singleton'')"]
    by (simp add: out solved)
qed

lemma batch_commits_in_bounds_witness:
  "\<exists>res rs st' a. run_strategy GreedySingletonBatchSolver sample_oracles sample_batch = Some (res, rs)
     \<and> record_all inner_new (br_assignments res) = Some st'
     \<and> map_of (in_assignments st') 7 = Some a \<and> 0 \<le> as_scheduled_slot a \<and> as_scheduled_slot a \<le> 5"
proof -
  obtain res rs where out: "run_strategy GreedySingletonBatchSolver sample_oracles sample_batch = Some (res, rs)"
    and ne: "br_assignments res \<noteq> []" by (rule sample_answer [OF sample_batch_ok])
  obtain st' where st': "record_all inner_new (br_assignments res) = Some st'"
    using record_all_step [OF inner_inv_new] by blast
  have r: "request_new 0 7 0 5 \<in> set (bc_pending sample_batch)" by (simp add: sample_batch_on_def)
  show ?thesis
    using batch_commits_in_bounds [OF sample_batch_ok out ne st' r] out st'
    by (auto simp: request_new_def sample_batch_on_def)
qed

lemma batch_all_or_nothing_witness:
  "\<exists>res rs. run_strategy DpBatchSolver sample_oracles sample_batch = Some (res, rs)"
  using batch_all_or_nothing [OF sample_batch_ok, of DpBatchSolver] by blast

lemma singleton_infeasible_iff_witness:
  "\<exists>rs. solve_greedy_singleton sample_oracles sample_batch \<noteq> Some (infeasible_result, rs)"
proof -
  obtain prep rs where prep: "prepare_solve sample_oracles sample_batch = (prep, rs)" by (metis prod.collapse)
  have "context_ok sample_batch" using sample_batch_ok by (simp add: dp_context_ok_def)
  from singleton_infeasible_iff [OF this prep] show ?thesis
    by (auto simp: sample_requests [OF prep] sample_batch_on_def)
qed

lemma singleton_step_cheapest_witness:
  "\<exists>s out. singleton_loop (sample_batch) (fst (prepare_solve sample_oracles sample_batch)) False
     [\<lparr>fl_name = ''Accurate'', fl_error = 0, fl_duration = 60\<rparr>]
     \<lparr>fl_name = ''Accurate'', fl_error = 0, fl_duration = 60\<rparr> []
     (hm_entry s 0 (\<lambda>n. n + 1) [])
     [placed \<lparr>sr_request_id = 7, sr_earliest_slot = 0, sr_deadline_slot = 5\<rparr>
        (\<lparr>fl_name = ''Accurate'', fl_error = 0, fl_duration = 60\<rparr>, s)
        (singleton_cost sample_batch [] s \<lparr>fl_name = ''Accurate'', fl_error = 0, fl_duration = 60\<rparr>)] = Some out"
proof -
  let ?f = "\<lparr>fl_name = ''Accurate'', fl_error = 0, fl_duration = 60\<rparr> :: flavour"
  let ?r = "\<lparr>sr_request_id = 7, sr_earliest_slot = 0, sr_deadline_slot = 5\<rparr> :: solve_request"
  let ?prep = "fst (prepare_solve sample_oracles sample_batch)"
  obtain out where "singleton_loop sample_batch ?prep False [?f] ?f [?r] [] [] = Some out"
    using singleton_loop_complete [of sample_batch ?prep False "[?f]" ?f "[?r]" "[]" "[]"]
    by (auto simp: sample_batch_on_def)
  from singleton_step_cheapest [OF this refl refl] show ?thesis by (auto split: if_splits)
qed

lemma solve_leaves_pool_witness:
  "\<exists>res rs. run_strategy GreedySingletonBatchSolver sample_oracles sample_batch = Some (res, rs)
     \<and> rs = snd (prepare_solve sample_oracles sample_batch)"
proof -
  obtain res rs where out: "run_strategy GreedySingletonBatchSolver sample_oracles sample_batch = Some (res, rs)"
    by (rule sample_answer [OF sample_batch_ok])
  have "normal_mode ''carryover'' = ''carryover''"
    by (simp add: normal_mode_def str_trim_def is_ascii_whitespace_def to_ascii_lowercase_def
        ascii_lower_char_def Let_def)
  then have "normal_mode (inf_recovery_mode (bc_recovery_config sample_batch))
      \<in> {''carryover'', ''forecast'', ''min_error_greedy''}"
    by (simp add: sample_batch_on_def infeasibility_config_default_def)
  from solve_leaves_pool [OF this out] out show ?thesis by blast
qed

text \<open>A state in which the profile's only assignment has error 5, over the threshold 4.\<close>

definition strained :: inner where
  "strained = the (record_assignment inner_new (assignment_new 0 1 0 ''Fast'' 1 5 10 None None))"

lemma strained_ok: "dp_context_ok sample_oracles (sample_batch_on strained)"
proof -
  obtain st where st: "record_assignment inner_new (assignment_new 0 1 0 ''Fast'' 1 5 10 None None) = Some st"
    "inner_inv st"
    using record_assignment_step [OF inner_inv_new] .
  then have eq: "strained = st" by (simp add: strained_def)
  obtain p where "in_assignments st = hm_insert (as_request_id (assignment_new 0 1 0 ''Fast'' 1 5 10 None None))
      (assignment_new 0 1 0 ''Fast'' 1 5 10 None None\<lparr>as_qos_profile_id := p\<rparr>) (in_assignments inner_new)"
    using record_assignment_assignments [OF st(1)] .
  then have "map_of (in_assignments st) 7 = None"
    by (simp add: map_simps inner_new_def assignment_new_def assignment_new_for_profile_def)
  with st(2) show ?thesis unfolding eq by (rule sample_batch_on_ok)
qed

lemma strained_active:
  "cumulative_active (bc_assignment (sample_batch_on strained))
     (get_profile_error_stats (batch_profile (bc_pending (sample_batch_on strained)))
       (bc_shared_state (sample_batch_on strained)))"
  by (simp add: cumulative_active_def sample_batch_on_def batch_profile_def request_new_def
      assignment_policy_of_def config_default_def strained_def record_assignment_def record_new_def
      inner_new_def assignment_new_def assignment_new_for_profile_def get_profile_error_stats_def
      stats_add_def stats_refresh_avg_def avg_or_zero_def hm_entry_def Let_def
      global_error_stats_default_def)

lemma singleton_hard_constraint_witness:
  "\<exists>res rs. solve_greedy_singleton sample_oracles (sample_batch_on strained) = Some (res, rs)
     \<and> (\<exists>a\<in>set (br_assignments res). as_error a \<le> 4)"
proof -
  obtain prep rs0 where prep: "prepare_solve sample_oracles (sample_batch_on strained) = (prep, rs0)"
    by (metis prod.collapse)
  obtain res rs where
    out: "run_strategy GreedySingletonBatchSolver sample_oracles (sample_batch_on strained) = Some (res, rs)"
    and ne: "br_assignments res \<noteq> []" by (rule sample_answer [OF strained_ok])
  have ok: "context_ok (sample_batch_on strained)" using strained_ok by (simp add: dp_context_ok_def)
  have pol: "bc_assignment (sample_batch_on strained) = assignment_policy_of config_default"
    by (simp add: sample_batch_on_def)
  obtain a where a: "a \<in> set (br_assignments res)" using ne by (metis list.set_sel(1))
  have "as_error a \<le> pol_max_error_threshold (bc_assignment (sample_batch_on strained))"
    by (rule singleton_hard_constraint [OF ok prep strained_active, where
          f = "\<lparr>fl_name = ''Accurate'', fl_error = 0, fl_duration = 60\<rparr>" and a = a])
      (use out a in \<open>simp_all add: pol assignment_policy_of_def config_default_def\<close>)
  then have "as_error a \<le> 4" by (simp add: pol assignment_policy_of_def config_default_def)
  with a out show ?thesis by auto
qed

end
