(* ===== verification/Swarm.thy ===== *)
theory Swarm
  imports Shared_State
begin

text \<open>
  The serialized online swarm strategies (\<open>engine/online_swarm.rs\<close>): an epsilon-greedy
  bandit and an ant colony whose state persists from batch to batch. The random generator
  is a parameter, the record \<open>rng\<close> of its draws with the generator's state as a type variable;
  \<open>rng_ok\<close> is the documented range of the draws. \<open>None\<close> is a panic. An infinite cost is
  \<open>None\<close> in the ant loops, since every cost that is compared with it is finite.
  \<open>f64::powf\<close> is \<open>powr\<close>; its arguments are positive here.
\<close>

section \<open>Random draws\<close>

record 'r rng =
  rng_unit :: "'r \<Rightarrow> f64 \<times> 'r"
  rng_below :: "nat \<Rightarrow> 'r \<Rightarrow> nat \<times> 'r"
  rng_seed :: "nat \<Rightarrow> 'r"

text \<open>\<open>gen::<f64>()\<close> is in the unit interval, \<open>gen_range(0..n)\<close> is below \<open>n\<close>.\<close>

definition rng_ok :: "'r rng \<Rightarrow> bool" where
  "rng_ok g \<longleftrightarrow> (\<forall>r. 0 \<le> fst (rng_unit g r) \<and> fst (rng_unit g r) < 1)
     \<and> (\<forall>n r. 0 < n \<longrightarrow> fst (rng_below g n r) < n)"

section \<open>Shared helpers\<close>

text \<open>\<open>xs.get(s as usize)\<close>: a negative index is far out of range.\<close>

definition get_at :: "'a list \<Rightarrow> slot \<Rightarrow> 'a option" where
  "get_at xs s = (if 0 \<le> s \<and> nat s < length xs then Some (xs ! nat s) else None)"

fun capacity_mult_scan :: "capacity_tier list \<Rightarrow> int \<Rightarrow> f64 option" where
  "capacity_mult_scan [] cnt = None"
| "capacity_mult_scan (tier # tiers) cnt =
     (case ct_max_requests tier of
        None \<Rightarrow> Some (ct_multiplier tier)
      | Some mx \<Rightarrow> if cnt \<le> mx then Some (ct_multiplier tier) else capacity_mult_scan tiers cnt)"

definition capacity_mult :: "capacity_tier list \<Rightarrow> int \<Rightarrow> f64" where
  "capacity_mult tiers cnt =
     (case capacity_mult_scan tiers cnt of
        Some m \<Rightarrow> m
      | None \<Rightarrow> (if tiers = [] then 1 else ct_multiplier (last tiers)))"

definition last_valid_slot :: "slot \<Rightarrow> slot \<Rightarrow> int \<Rightarrow> int \<Rightarrow> slot" where
  "last_valid_slot arrival deadline max_future slots =
     max (min (min deadline (i32_add arrival max_future)) (i32_sub slots 1)) arrival"

definition valid_slots :: "slot \<Rightarrow> slot \<Rightarrow> int \<Rightarrow> int \<Rightarrow> slot list" where
  "valid_slots arrival deadline max_future slots =
     [arrival..last_valid_slot arrival deadline max_future slots]"

text \<open>The working copy of the committed state that a batch updates as it goes.\<close>

definition window_errors :: "(slot, f64 list) hmap \<Rightarrow> slot \<Rightarrow> slot \<Rightarrow> f64 list" where
  "window_errors slot_errors lo hi =
     concat (map (\<lambda>ws. case map_of slot_errors ws of Some errs \<Rightarrow> errs | None \<Rightarrow> []) [lo..hi])"

definition flavour_feasible :: "assignment_policy \<Rightarrow> swarm_context \<Rightarrow> slot \<Rightarrow> flavour \<Rightarrow> bool" where
  "flavour_feasible pol w s f =
     (let max_err = pol_max_error_threshold pol;
          new_avg = (swc_global_error_sum w + fl_error f) / (real (swc_global_count w) + 1);
          errs = window_errors (swc_slot_errors w) (i32_sub s (pol_error_window_past pol))
                   (i32_add s (pol_error_window_future pol));
          win_sum = fl_error f + sum_list errs;
          win_cnt = 1 + length errs
      in \<not> (pol_global_error_constraint_enabled pol \<and> max_err < new_avg)
         \<and> \<not> (max_err < win_sum / real win_cnt))"

definition slot_cost :: "assignment_policy \<Rightarrow> f64 list \<Rightarrow> swarm_context \<Rightarrow> slot \<Rightarrow> flavour \<Rightarrow> f64" where
  "slot_cost pol forecast w s f =
     (let ci = (case get_at forecast s of Some c \<Rightarrow> c | None \<Rightarrow> 1);
          position = (case map_of (swc_slot_count w) s of Some n \<Rightarrow> n | None \<Rightarrow> 0) + 1;
          mult = capacity_mult (pol_capacity_tiers pol) position
      in ci * mult * fl_duration f * pol_carbon_cost_duration_scale pol)"

definition pick_feasible_flavour ::
    "assignment_policy \<Rightarrow> f64 list \<Rightarrow> swarm_context \<Rightarrow> flavour list \<Rightarrow> slot \<Rightarrow> (flavour \<times> f64) option" where
  "pick_feasible_flavour pol forecast w sorted_flavours s =
     map_option (\<lambda>f. (f, slot_cost pol forecast w s f))
       (find (flavour_feasible pol w s) sorted_flavours)"

definition make_assignment :: "f64 \<Rightarrow> request \<Rightarrow> slot \<Rightarrow> flavour \<Rightarrow> f64 \<Rightarrow> assignment" where
  "make_assignment now r s f cost =
     assignment_new now (rq_id r) s (fl_name f) cost (fl_error f) (fl_duration f)
       (Some (rq_arrival_slot r)) (Some (rq_deadline_slot r))"

definition sorted_flavours_and_fallback :: "flavour list \<Rightarrow> (flavour list \<times> flavour) option" where
  "sorted_flavours_and_fallback fs =
     map_option (\<lambda>fb. (sort_key fl_duration fs, fb)) (min_by_key fl_error fs)"

text \<open>The flavour and cost for a chosen slot, with the most accurate flavour as fallback.\<close>

definition place_in_slot ::
    "assignment_policy \<Rightarrow> f64 list \<Rightarrow> flavour list \<Rightarrow> flavour \<Rightarrow> swarm_context \<Rightarrow> slot \<Rightarrow> flavour \<times> f64" where
  "place_in_slot pol forecast sorted_flavours fallback w s =
     (case pick_feasible_flavour pol forecast w sorted_flavours s of
        Some fc \<Rightarrow> fc
      | None \<Rightarrow> (fallback, slot_cost pol forecast w s fallback))"

definition account_placed :: "slot \<Rightarrow> flavour \<Rightarrow> swarm_context \<Rightarrow> swarm_context" where
  "account_placed s f w =
     \<lparr>swc_slot_count = hm_entry s 0 (\<lambda>n. n + 1) (swc_slot_count w),
      swc_slot_errors = hm_entry s [] (\<lambda>es. es @ [fl_error f]) (swc_slot_errors w),
      swc_global_error_sum = swc_global_error_sum w + fl_error f,
      swc_global_count = swc_global_count w + 1\<rparr>"

section \<open>The bandit\<close>

record 'r bandit_state =
  ob_q :: "f64 list"
  ob_n :: "nat list"
  ob_rng :: 'r
  ob_epsilon :: f64

definition bandit_new :: "'r rng \<Rightarrow> nat \<Rightarrow> f64 \<Rightarrow> f64 \<Rightarrow> nat \<Rightarrow> 'r bandit_state" where
  "bandit_new g total_slots initial_q epsilon seed =
     \<lparr>ob_q = replicate total_slots initial_q, ob_n = replicate total_slots 0,
      ob_rng = rng_seed g seed, ob_epsilon = epsilon\<rparr>"

definition f64_max :: f64 where
  "f64_max = (2 - 1 / 2 ^ 52) * 2 ^ 1023"

definition greedy_slot :: "f64 list \<Rightarrow> slot list \<Rightarrow> slot option" where
  "greedy_slot q candidates =
     min_by_key (\<lambda>s. case get_at q s of Some v \<Rightarrow> v | None \<Rightarrow> f64_max) candidates"

definition bandit_slot ::
    "'r rng \<Rightarrow> f64 \<Rightarrow> f64 list \<Rightarrow> slot list \<Rightarrow> 'r \<Rightarrow> slot option \<times> 'r" where
  "bandit_slot g epsilon q candidates r0 =
     (let (u, r1) = rng_unit g r0
      in if u < epsilon
         then (let (k, r2) = rng_below g (length candidates) r1
               in (if k < length candidates then Some (candidates ! k) else None, r2))
         else (greedy_slot q candidates, r1))"

text \<open>The running mean; \<open>None\<close> is the out-of-range access to \<open>q\<close> when it is shorter than \<open>n\<close>.\<close>

definition update_mean :: "slot \<Rightarrow> f64 \<Rightarrow> f64 list \<times> nat list \<Rightarrow> (f64 list \<times> nat list) option" where
  "update_mean s cost qn =
     (let (q, n) = qn
      in case get_at n s of
        None \<Rightarrow> Some (q, n)
      | Some k \<Rightarrow>
         (case get_at q s of
            None \<Rightarrow> None
          | Some v \<Rightarrow> Some (q[nat s := v + (cost - v) / real (k + 1)], n[nat s := k + 1])))"

fun bandit_loop ::
    "'r rng \<Rightarrow> f64 \<Rightarrow> assignment_policy \<Rightarrow> f64 list \<Rightarrow> flavour list \<Rightarrow> flavour \<Rightarrow> f64 \<Rightarrow> request list
     \<Rightarrow> swarm_context \<Rightarrow> (f64 list \<times> nat list) \<times> 'r
     \<Rightarrow> (assignment list \<times> (f64 list \<times> nat list) \<times> 'r) option" where
  "bandit_loop g now pol forecast fs fb epsilon [] w (qn, r) = Some ([], qn, r)"
| "bandit_loop g now pol forecast fs fb epsilon (req # reqs) w (qn, r) =
     (let candidates = valid_slots (rq_arrival_slot req) (rq_deadline_slot req)
                         (pol_assignment_max_future_slots pol) (pol_total_slots pol)
      in if candidates = [] then bandit_loop g now pol forecast fs fb epsilon reqs w (qn, r)
         else (case bandit_slot g epsilon (fst qn) candidates r of
            (None, _) \<Rightarrow> None
          | (Some s, r1) \<Rightarrow>
             (let (f, cost) = place_in_slot pol forecast fs fb w s
              in case update_mean s cost qn of
                None \<Rightarrow> None
              | Some qn1 \<Rightarrow>
                 map_option (\<lambda>(as, rest). (make_assignment now req s f cost # as, rest))
                   (bandit_loop g now pol forecast fs fb epsilon reqs (account_placed s f w) (qn1, r1)))))"

definition bandit_solve_batch ::
    "'r rng \<Rightarrow> f64 \<Rightarrow> request list \<Rightarrow> f64 list \<Rightarrow> swarm_context \<Rightarrow> assignment_policy \<Rightarrow> 'r bandit_state
     \<Rightarrow> (assignment list \<times> 'r bandit_state) option" where
  "bandit_solve_batch g now pending forecast ctx pol b =
     (case sorted_flavours_and_fallback (pol_flavours pol) of
        None \<Rightarrow> None
      | Some (fs, fb) \<Rightarrow>
         map_option (\<lambda>(as, (q, n), r). (as, b\<lparr>ob_q := q, ob_n := n, ob_rng := r\<rparr>))
           (bandit_loop g now pol forecast fs fb (ob_epsilon b) pending ctx ((ob_q b, ob_n b), ob_rng b)))"

section \<open>The ant colony\<close>

record 'r aco_state =
  oa_tau :: "f64 list"
  oa_eta :: "f64 list"
  oa_rng :: 'r
  oa_n_ants :: nat
  oa_n_iterations :: nat
  oa_alpha :: f64
  oa_beta :: f64
  oa_rho :: f64
  oa_q_deposit :: f64

definition tau_floor :: f64 where
  "tau_floor = 1 / 10 ^ 12"

definition aco_new ::
    "'r rng \<Rightarrow> nat \<Rightarrow> f64 list \<Rightarrow> flavour list \<Rightarrow> f64 \<Rightarrow> nat \<Rightarrow> nat \<Rightarrow> f64 \<Rightarrow> f64 \<Rightarrow> f64 \<Rightarrow> f64 \<Rightarrow> f64
     \<Rightarrow> nat \<Rightarrow> 'r aco_state option" where
  "aco_new g total_slots forecast flavours scale n_ants n_iterations alpha beta rho q_deposit tau0 seed =
     (case min_by_key fl_duration flavours of
        None \<Rightarrow> None
      | Some cheapest \<Rightarrow> Some
          \<lparr>oa_tau = replicate total_slots tau0,
           oa_eta = map (\<lambda>s. let ci = (if s < length forecast then forecast ! s else 1);
                                base = ci * fl_duration cheapest * scale
                            in if 0 < base then 1 / base else 10 ^ 9) [0..<total_slots],
           oa_rng = rng_seed g seed, oa_n_ants = n_ants, oa_n_iterations = n_iterations,
           oa_alpha = alpha, oa_beta = beta, oa_rho = rho, oa_q_deposit = q_deposit\<rparr>)"

definition slot_weight :: "'r aco_state \<Rightarrow> f64 list \<Rightarrow> slot \<Rightarrow> f64" where
  "slot_weight a tau s =
     (let t = max (case get_at tau s of Some v \<Rightarrow> v | None \<Rightarrow> tau_floor) tau_floor;
          e = (case get_at (oa_eta a) s of Some v \<Rightarrow> v | None \<Rightarrow> tau_floor)
      in t powr oa_alpha a * e powr oa_beta a)"

text \<open>The roulette wheel: the first candidate at which the remainder is used up, else the last.\<close>

fun roulette :: "(slot \<times> f64) list \<Rightarrow> f64 \<Rightarrow> slot \<Rightarrow> slot" where
  "roulette [] r chosen = chosen"
| "roulette ((s, w) # sws) r chosen = (if r - w \<le> 0 then s else roulette sws (r - w) chosen)"

definition aco_slot ::
    "'r rng \<Rightarrow> 'r aco_state \<Rightarrow> f64 list \<Rightarrow> slot list \<Rightarrow> 'r \<Rightarrow> slot option \<times> 'r" where
  "aco_slot g a tau candidates r0 =
     (let weights = map (slot_weight a tau) candidates;
          total_weight = sum_list weights
      in if total_weight \<le> 0
         then (let (k, r1) = rng_below g (length candidates) r0
               in (if k < length candidates then Some (candidates ! k) else None, r1))
         else (let (u, r1) = rng_unit g r0
               in (Some (roulette (zip candidates weights) (u * total_weight) (last candidates)), r1)))"

text \<open>One ant: a solution of the whole batch, its cost, and the generator afterwards.\<close>

fun ant_loop ::
    "'r rng \<Rightarrow> f64 \<Rightarrow> assignment_policy \<Rightarrow> f64 list \<Rightarrow> flavour list \<Rightarrow> flavour \<Rightarrow> 'r aco_state \<Rightarrow> f64 list
     \<Rightarrow> request list \<Rightarrow> swarm_context \<Rightarrow> 'r \<Rightarrow> (assignment list \<times> f64 \<times> 'r) option" where
  "ant_loop g now pol forecast fs fb a tau [] w r = Some ([], 0, r)"
| "ant_loop g now pol forecast fs fb a tau (req # reqs) w r =
     (let candidates = valid_slots (rq_arrival_slot req) (rq_deadline_slot req)
                         (pol_assignment_max_future_slots pol) (pol_total_slots pol)
      in if candidates = [] then ant_loop g now pol forecast fs fb a tau reqs w r
         else (case aco_slot g a tau candidates r of
            (None, _) \<Rightarrow> None
          | (Some s, r1) \<Rightarrow>
             (let (f, cost) = place_in_slot pol forecast fs fb w s
              in map_option (\<lambda>(as, c, r2). (make_assignment now req s f cost # as, cost + c, r2))
                   (ant_loop g now pol forecast fs fb a tau reqs (account_placed s f w) r1))))"

type_synonym solution = "f64 \<times> assignment list"

definition better :: "solution \<Rightarrow> solution option \<Rightarrow> solution option" where
  "better new best =
     (case best of None \<Rightarrow> Some new | Some old \<Rightarrow> if fst new < fst old then Some new else Some old)"

fun ants_loop ::
    "('r \<Rightarrow> (assignment list \<times> f64 \<times> 'r) option) \<Rightarrow> nat \<Rightarrow> solution option \<Rightarrow> 'r
     \<Rightarrow> (solution option \<times> 'r) option" where
  "ants_loop ant 0 best r = Some (best, r)"
| "ants_loop ant (Suc k) best r =
     (case ant r of
        None \<Rightarrow> None
      | Some (sol, cost, r1) \<Rightarrow> ants_loop ant k (better (cost, sol) best) r1)"

definition evaporate :: "f64 \<Rightarrow> f64 list \<Rightarrow> f64 list" where
  "evaporate rho tau = map (\<lambda>t. max (t * (1 - rho)) tau_floor) tau"

fun deposit_on :: "f64 \<Rightarrow> assignment list \<Rightarrow> f64 list \<Rightarrow> f64 list" where
  "deposit_on d [] tau = tau"
| "deposit_on d (a # as) tau =
     deposit_on d as
       (case get_at tau (as_scheduled_slot a) of
          Some t \<Rightarrow> tau[nat (as_scheduled_slot a) := t + d] | None \<Rightarrow> tau)"

definition deposit_best :: "f64 \<Rightarrow> solution option \<Rightarrow> f64 list \<Rightarrow> f64 list" where
  "deposit_best q_deposit best tau =
     (case best of
        None \<Rightarrow> tau
      | Some (c, sol) \<Rightarrow> if 0 < c then deposit_on (q_deposit / c) sol tau else tau)"

fun aco_loop ::
    "'r rng \<Rightarrow> f64 \<Rightarrow> assignment_policy \<Rightarrow> f64 list \<Rightarrow> flavour list \<Rightarrow> flavour \<Rightarrow> 'r aco_state
     \<Rightarrow> request list \<Rightarrow> swarm_context \<Rightarrow> nat \<Rightarrow> solution option \<Rightarrow> f64 list \<Rightarrow> 'r
     \<Rightarrow> (solution option \<times> f64 list \<times> 'r) option" where
  "aco_loop g now pol forecast fs fb a reqs ctx 0 best tau r = Some (best, tau, r)"
| "aco_loop g now pol forecast fs fb a reqs ctx (Suc k) best tau r =
     (case ants_loop (ant_loop g now pol forecast fs fb a tau reqs ctx) (oa_n_ants a) None r of
        None \<Rightarrow> None
      | Some (iter_best, r1) \<Rightarrow>
          aco_loop g now pol forecast fs fb a reqs ctx k
            (case iter_best of None \<Rightarrow> best | Some sol \<Rightarrow> better sol best)
            (deposit_best (oa_q_deposit a) iter_best (evaporate (oa_rho a) tau)) r1)"

definition aco_solve_batch ::
    "'r rng \<Rightarrow> f64 \<Rightarrow> request list \<Rightarrow> f64 list \<Rightarrow> swarm_context \<Rightarrow> assignment_policy \<Rightarrow> 'r aco_state
     \<Rightarrow> (assignment list \<times> 'r aco_state) option" where
  "aco_solve_batch g now pending forecast ctx pol a =
     (case sorted_flavours_and_fallback (pol_flavours pol) of
        None \<Rightarrow> None
      | Some (fs, fb) \<Rightarrow>
         map_option (\<lambda>(best, tau, r).
             (case best of Some (_, sol) \<Rightarrow> sol | None \<Rightarrow> [], a\<lparr>oa_tau := tau, oa_rng := r\<rparr>))
           (aco_loop g now pol forecast fs fb a pending ctx (oa_n_iterations a) None (oa_tau a) (oa_rng a)))"

section \<open>The configured state\<close>

datatype 'r swarm_state = SwarmNone | SwarmBandit "'r bandit_state" | SwarmAco "'r aco_state"

text \<open>\<open>total_slots as usize\<close> of a negative number is too large to allocate: a panic.\<close>

definition swarm_from_config ::
    "'r rng \<Rightarrow> solver_config \<Rightarrow> swarm_config \<Rightarrow> assignment_policy \<Rightarrow> f64 list \<Rightarrow> 'r swarm_state option" where
  "swarm_from_config g solver swarm pol forecast =
     (if sc_solver_strategy solver = ''bandit'' then
        (if pol_total_slots pol < 0 then None
         else Some (SwarmBandit (bandit_new g (nat (pol_total_slots pol)) (sw_bandit_initial_q swarm)
                (sw_bandit_epsilon swarm) (sw_bandit_seed swarm))))
      else if sc_solver_strategy solver = ''ant_colony'' then
        (if pol_total_slots pol < 0 then None
         else map_option SwarmAco
           (aco_new g (nat (pol_total_slots pol)) forecast (pol_flavours pol)
              (pol_carbon_cost_duration_scale pol) (sw_aco_n_ants swarm) (sw_aco_n_iterations swarm)
              (sw_aco_alpha swarm) (sw_aco_beta swarm) (sw_aco_rho swarm) (sw_aco_q swarm)
              (sw_aco_tau0 swarm) (sw_aco_seed swarm)))
      else Some SwarmNone)"

fun swarm_is_active :: "'r swarm_state \<Rightarrow> bool" where
  "swarm_is_active SwarmNone = False"
| "swarm_is_active _ = True"

fun swarm_name :: "'r swarm_state \<Rightarrow> string" where
  "swarm_name SwarmNone = ''dp''"
| "swarm_name (SwarmBandit b) = ''bandit''"
| "swarm_name (SwarmAco a) = ''ant_colony''"

fun swarm_solve_batch ::
    "'r rng \<Rightarrow> f64 \<Rightarrow> request list \<Rightarrow> slot \<Rightarrow> f64 list \<Rightarrow> swarm_context \<Rightarrow> assignment_policy
     \<Rightarrow> 'r swarm_state \<Rightarrow> (assignment list \<times> 'r swarm_state) option" where
  "swarm_solve_batch g now pending slot forecast ctx pol SwarmNone = Some ([], SwarmNone)"
| "swarm_solve_batch g now pending slot forecast ctx pol (SwarmBandit b) =
     map_option (\<lambda>(as, b'). (as, SwarmBandit b')) (bandit_solve_batch g now pending forecast ctx pol b)"
| "swarm_solve_batch g now pending slot forecast ctx pol (SwarmAco a) =
     map_option (\<lambda>(as, a'). (as, SwarmAco a')) (aco_solve_batch g now pending forecast ctx pol a)"

section \<open>Where requests are placed\<close>

lemma capacity_mult_eq [simp]: "capacity_mult = get_capacity_multiplier"
proof -
  have "capacity_mult_scan tiers c = tier_scan tiers c" for tiers c
    by (induction tiers c rule: tier_scan.induct) (simp_all split: option.split)
  then show ?thesis by (simp add: fun_eq_iff capacity_mult_def get_capacity_multiplier_def)
qed

lemma valid_slots_mem [simp]:
  "s \<in> set (valid_slots arrival deadline mf slots) \<longleftrightarrow>
     arrival \<le> s \<and> s \<le> last_valid_slot arrival deadline mf slots"
  by (auto simp: valid_slots_def)

lemma valid_slots_nonempty [simp]: "valid_slots arrival deadline mf slots \<noteq> []"
  by (simp add: valid_slots_def last_valid_slot_def)

lemma get_at_Some: "get_at xs s = Some v \<longleftrightarrow> 0 \<le> s \<and> nat s < length xs \<and> v = xs ! nat s"
  by (auto simp: get_at_def)

text \<open>The placement a swarm strategy may choose for a request.\<close>

definition swarm_placed :: "assignment_policy \<Rightarrow> request \<Rightarrow> assignment \<Rightarrow> bool" where
  "swarm_placed pol r a \<longleftrightarrow>
     as_request_id a = rq_id r
     \<and> rq_arrival_slot r \<le> as_scheduled_slot a
     \<and> as_scheduled_slot a \<le> last_valid_slot (rq_arrival_slot r) (rq_deadline_slot r)
         (pol_assignment_max_future_slots pol) (pol_total_slots pol)
     \<and> list_ex (\<lambda>f. as_flavour_name a = fl_name f \<and> as_error a = fl_error f
         \<and> as_flavour_duration a = fl_duration f) (pol_flavours pol)"

lemma flavours_and_fallback:
  assumes "pol_flavours pol \<noteq> []"
  obtains fs fb where "sorted_flavours_and_fallback (pol_flavours pol) = Some (fs, fb)"
    and "set (fb # fs) = set (pol_flavours pol)"
    and "sorted (map fl_duration fs)" and "set fs = set (pol_flavours pol)"
    and "f \<in> set (pol_flavours pol) \<Longrightarrow> fl_error fb \<le> fl_error f"
proof -
  obtain fb where fb: "min_by_key fl_error (pol_flavours pol) = Some fb"
    using assms by (metis min_by_key_None not_Some_eq)
  show ?thesis
    by (rule that [of "sort_key fl_duration (pol_flavours pol)" fb])
      (use fb min_by_key_in [OF fb] min_by_key_le [OF fb] in
        \<open>auto simp: sorted_flavours_and_fallback_def insert_absorb\<close>)
qed

lemma place_in_slot_flavour:
  "place_in_slot pol forecast fs fb w s = (f, cost) \<Longrightarrow>
     f \<in> set (fb # fs) \<and> cost = slot_cost pol forecast w s f"
  by (auto simp: place_in_slot_def pick_feasible_flavour_def find_Some_iff split: option.splits)

lemma make_assignment_placed:
  assumes "s \<in> set (valid_slots (rq_arrival_slot r) (rq_deadline_slot r)
      (pol_assignment_max_future_slots pol) (pol_total_slots pol))"
    and "f \<in> set (pol_flavours pol)"
  shows "swarm_placed pol r (make_assignment now r s f cost)"
  using assms by (auto simp: swarm_placed_def make_assignment_def assignment_new_def
      assignment_new_for_profile_def list_ex_iff)

lemma rng_belowD: "rng_ok g \<Longrightarrow> 0 < n \<Longrightarrow> fst (rng_below g n r) < n"
  by (simp add: rng_ok_def)

lemma bandit_slot_in:
  assumes "rng_ok g" and "candidates \<noteq> []"
  obtains s r' where "bandit_slot g epsilon q candidates r = (Some s, r')" and "s \<in> set candidates"
proof -
  obtain u r1 where u: "rng_unit g r = (u, r1)" by (metis prod.collapse)
  obtain k r2 where k: "rng_below g (length candidates) r1 = (k, r2)" by (metis prod.collapse)
  have "k < length candidates" using rng_belowD [OF assms(1), of "length candidates" r1] assms(2) k by simp
  moreover obtain s where s: "greedy_slot q candidates = Some s"
    unfolding greedy_slot_def using assms(2) by (metis min_by_key_None not_Some_eq)
  moreover from s have "s \<in> set candidates" unfolding greedy_slot_def by (rule min_by_key_in)
  ultimately show ?thesis using that u k by (cases "u < epsilon") (auto simp: bandit_slot_def)
qed

lemma roulette_in: "roulette sws r c \<in> insert c (fst ` set sws)"
  by (induction sws r c rule: roulette.induct) auto

lemma aco_slot_in:
  assumes "rng_ok g" and "candidates \<noteq> []"
  obtains s r' where "aco_slot g a tau candidates r = (Some s, r')" and "s \<in> set candidates"
proof -
  let ?ws = "map (slot_weight a tau) candidates"
  obtain u r1 where u: "rng_unit g r = (u, r1)" by (metis prod.collapse)
  obtain k r2 where k: "rng_below g (length candidates) r = (k, r2)" by (metis prod.collapse)
  have "k < length candidates" using rng_belowD [OF assms(1), of "length candidates" r] assms(2) k by simp
  moreover have "roulette (zip candidates ?ws) x (last candidates) \<in> set candidates" for x
    using roulette_in [of "zip candidates ?ws" x "last candidates"] assms(2)
    by (auto dest: set_zip_leftD)
  ultimately show ?thesis using that u k
    by (cases "sum_list ?ws \<le> 0") (auto simp: aco_slot_def Let_def)
qed

lemma update_mean_step:
  assumes "length q = length n"
  obtains q' n' where "update_mean s cost (q, n) = Some (q', n')"
    and "length q' = length q" and "length n' = length n"
    and "\<And>i. i < length n \<Longrightarrow> n' ! i = n ! i + (if s = int i then 1 else 0)
       \<and> real (n' ! i) * q' ! i = real (n ! i) * q ! i + (if s = int i then cost else 0)"
proof (cases "0 \<le> s \<and> nat s < length n")
  case False
  then have none: "get_at n s = None" by (auto simp: get_at_def)
  show ?thesis by (rule that [of q n]) (use False none in \<open>auto simp: update_mean_def\<close>)
next
  case True
  let ?k = "n ! nat s" and ?v = "q ! nat s"
  let ?q = "q[nat s := ?v + (cost - ?v) / real (?k + 1)]" and ?n = "n[nat s := ?k + 1]"
  have upd: "update_mean s cost (q, n) = Some (?q, ?n)"
    using True assms by (simp add: update_mean_def get_at_def)
  have mean: "real (k + 1) * (v + (cost - v) / real (k + 1)) = real k * v + cost" for k v
  proof -
    have "real (k + 1) * ((cost - v) / real (k + 1)) = cost - v" by simp
    then show ?thesis by (simp add: distrib_left) (simp add: algebra_simps)
  qed
  have at: "?n ! i = n ! i + (if s = int i then 1 else 0)
       \<and> real (?n ! i) * ?q ! i = real (n ! i) * q ! i + (if s = int i then cost else 0)"
    if i: "i < length n" for i
  proof (cases "nat s = i")
    case t: True
    have "int (nat s) = s" using True by simp
    then have "s = int i" by (simp only: t)
    with t i assms mean [of "n ! i" "q ! i"] show ?thesis by simp
  next
    case False
    then have "s \<noteq> int i" using True by auto
    with False show ?thesis by simp
  qed
  show ?thesis by (rule that [OF upd _ _ at]) simp_all
qed

section \<open>The bandit's batches\<close>

definition slot_costs :: "slot \<Rightarrow> assignment list \<Rightarrow> f64" where
  "slot_costs s as = sum_list (map as_carbon_cost (filter (\<lambda>a. as_scheduled_slot a = s) as))"

lemma slot_costs_simps [simp]:
  "slot_costs s [] = 0"
  "slot_costs s (a # as) = (if as_scheduled_slot a = s then as_carbon_cost a else 0) + slot_costs s as"
  by (simp_all add: slot_costs_def)

lemma make_assignment_sel [simp]:
  "as_scheduled_slot (make_assignment now r s f cost) = s"
  "as_carbon_cost (make_assignment now r s f cost) = cost"
  "as_request_id (make_assignment now r s f cost) = rq_id r"
  "as_error (make_assignment now r s f cost) = fl_error f"
  by (simp_all add: make_assignment_def assignment_new_def assignment_new_for_profile_def)

definition means_account :: "f64 list \<Rightarrow> nat list \<Rightarrow> assignment list \<Rightarrow> f64 list \<Rightarrow> nat list \<Rightarrow> bool" where
  "means_account q n as q' n' \<longleftrightarrow>
     length q' = length q \<and> length n' = length n
     \<and> list_all (\<lambda>i. n' ! i = n ! i + length (filter (\<lambda>a. as_scheduled_slot a = int i) as)
          \<and> real (n' ! i) * q' ! i = real (n ! i) * q ! i + slot_costs (int i) as) [0..<length n]"

lemma means_account_Cons:
  assumes step: "length q1 = length q" "length n1 = length n"
      "\<And>i. i < length n \<Longrightarrow> n1 ! i = n ! i + (if as_scheduled_slot a = int i then 1 else 0)
         \<and> real (n1 ! i) * q1 ! i = real (n ! i) * q ! i + (if as_scheduled_slot a = int i then as_carbon_cost a else 0)"
    and rest: "means_account q1 n1 as q' n'"
  shows "means_account q n (a # as) q' n'"
proof -
  have at: "n' ! i = n ! i + length (filter (\<lambda>b. as_scheduled_slot b = int i) (a # as))
      \<and> real (n' ! i) * q' ! i = real (n ! i) * q ! i + slot_costs (int i) (a # as)"
    if i: "i < length n" for i
  proof
    have n: "n' ! i = n1 ! i + length (filter (\<lambda>b. as_scheduled_slot b = int i) as)"
      and q: "real (n' ! i) * q' ! i = real (n1 ! i) * q1 ! i + slot_costs (int i) as"
      using rest i step(2) unfolding means_account_def list_all_iff by fastforce+
    show "n' ! i = n ! i + length (filter (\<lambda>b. as_scheduled_slot b = int i) (a # as))"
      using n step(3) [OF i] by simp
    show "real (n' ! i) * q' ! i = real (n ! i) * q ! i + slot_costs (int i) (a # as)"
      using q conjunct2 [OF step(3) [OF i]] by simp
  qed
  have "list_all (\<lambda>i. n' ! i = n ! i + length (filter (\<lambda>b. as_scheduled_slot b = int i) (a # as))
      \<and> real (n' ! i) * q' ! i = real (n ! i) * q ! i + slot_costs (int i) (a # as)) [0..<length n]"
    unfolding list_all_iff by (intro ballI at) simp
  then show ?thesis using rest step(1,2) unfolding means_account_def by argo
qed

lemma bandit_loop_spec:
  assumes g: "rng_ok g" and fs: "set (fb # fs) = set (pol_flavours pol)" and len: "length q = length n"
  obtains as q' n' r' where
    "bandit_loop g now pol forecast fs fb epsilon reqs w ((q, n), r) = Some (as, (q', n'), r')"
    and "list_all2 (swarm_placed pol) reqs as" and "means_account q n as q' n'"
  using len
proof (induction reqs arbitrary: w q n r thesis)
  case Nil
  then show ?case by (simp add: means_account_def list_all_iff)
next
  case (Cons req reqs)
  let ?cs = "valid_slots (rq_arrival_slot req) (rq_deadline_slot req)
      (pol_assignment_max_future_slots pol) (pol_total_slots pol)"
  have "?cs \<noteq> []" by simp
  then obtain s r1 where s: "bandit_slot g epsilon q ?cs r = (Some s, r1)" "s \<in> set ?cs"
    by (rule bandit_slot_in [OF g])
  obtain f cost where f: "place_in_slot pol forecast fs fb w s = (f, cost)" by (metis prod.collapse)
  obtain q1 n1 where up: "update_mean s cost (q, n) = Some (q1, n1)"
    and step: "length q1 = length q" "length n1 = length n"
      "\<And>i. i < length n \<Longrightarrow> n1 ! i = n ! i + (if s = int i then 1 else 0)
         \<and> real (n1 ! i) * q1 ! i = real (n ! i) * q ! i + (if s = int i then cost else 0)"
    using update_mean_step [OF Cons.prems(2), of s cost] by metis
  obtain as q' n' r' where
    rest: "bandit_loop g now pol forecast fs fb epsilon reqs (account_placed s f w) ((q1, n1), r1)
       = Some (as, (q', n'), r')"
      "list_all2 (swarm_placed pol) reqs as" "means_account q1 n1 as q' n'"
    using Cons.IH [where q = q1 and n = n1 and w = "account_placed s f w" and r = r1]
      step(1,2) Cons.prems(2) by metis
  have f_in: "f \<in> set (pol_flavours pol)" using place_in_slot_flavour [OF f] fs by blast
  show ?case
  proof (rule Cons.prems(1))
    show "bandit_loop g now pol forecast fs fb epsilon (req # reqs) w ((q, n), r)
      = Some (make_assignment now req s f cost # as, (q', n'), r')"
      using s(1) f up rest(1) by (simp add: Let_def)
    show "list_all2 (swarm_placed pol) (req # reqs) (make_assignment now req s f cost # as)"
      using make_assignment_placed [OF s(2) f_in] rest(2) by simp
    show "means_account q n (make_assignment now req s f cost # as) q' n'"
      by (rule means_account_Cons [OF step(1,2) _ rest(3)]) (unfold make_assignment_sel, rule step(3))
  qed
qed

lemma bandit_batch_spec:
  assumes "rng_ok g" and ne: "pol_flavours pol \<noteq> []" and "length (ob_q b) = length (ob_n b)"
  obtains as b' where "bandit_solve_batch g now pending forecast ctx pol b = Some (as, b')"
    and "list_all2 (swarm_placed pol) pending as"
    and "means_account (ob_q b) (ob_n b) as (ob_q b') (ob_n b')"
    and "ob_epsilon b' = ob_epsilon b"
proof -
  obtain fs fb where fs: "sorted_flavours_and_fallback (pol_flavours pol) = Some (fs, fb)"
    "set (fb # fs) = set (pol_flavours pol)"
    using flavours_and_fallback [OF ne] by metis
  obtain as q' n' r' where
    "bandit_loop g now pol forecast fs fb (ob_epsilon b) pending ctx ((ob_q b, ob_n b), ob_rng b)
      = Some (as, (q', n'), r')"
    "list_all2 (swarm_placed pol) pending as" "means_account (ob_q b) (ob_n b) as q' n'"
    using bandit_loop_spec [OF assms(1) fs(2) assms(3)] .
  with fs(1) show ?thesis
    by (intro that [of as "b\<lparr>ob_q := q', ob_n := n', ob_rng := r'\<rparr>"])
      (simp_all add: bandit_solve_batch_def)
qed

section \<open>The colony's batches\<close>

lemma ant_loop_spec:
  assumes g: "rng_ok g" and fs: "set (fb # fs) = set (pol_flavours pol)"
  obtains as c r' where "ant_loop g now pol forecast fs fb a tau reqs w r = Some (as, c, r')"
    and "list_all2 (swarm_placed pol) reqs as" and "c = sum_list (map as_carbon_cost as)"
proof (induction reqs arbitrary: w r thesis)
  case Nil
  then show ?case by simp
next
  case (Cons req reqs)
  let ?cs = "valid_slots (rq_arrival_slot req) (rq_deadline_slot req)
      (pol_assignment_max_future_slots pol) (pol_total_slots pol)"
  have "?cs \<noteq> []" by simp
  then obtain s r1 where s: "aco_slot g a tau ?cs r = (Some s, r1)" "s \<in> set ?cs"
    by (rule aco_slot_in [OF g])
  obtain f cost where f: "place_in_slot pol forecast fs fb w s = (f, cost)" by (metis prod.collapse)
  obtain as c r' where rest: "ant_loop g now pol forecast fs fb a tau reqs (account_placed s f w) r1
      = Some (as, c, r')" "list_all2 (swarm_placed pol) reqs as" "c = sum_list (map as_carbon_cost as)"
    using Cons.IH .
  have f_in: "f \<in> set (pol_flavours pol)" using place_in_slot_flavour [OF f] fs by blast
  show ?case
    by (rule Cons.prems [of "make_assignment now req s f cost # as" "cost + c" r'])
      (use s(1) f rest make_assignment_placed [OF s(2) f_in] in \<open>simp_all add: Let_def\<close>)
qed

text \<open>All the solutions the ants of one iteration find, in order: the reference for their choice.\<close>

fun ant_solutions :: "('r \<Rightarrow> (assignment list \<times> f64 \<times> 'r) option) \<Rightarrow> nat \<Rightarrow> 'r \<Rightarrow> solution list" where
  "ant_solutions ant 0 r = []"
| "ant_solutions ant (Suc k) r =
     (case ant r of None \<Rightarrow> [] | Some (sol, cost, r1) \<Rightarrow> (cost, sol) # ant_solutions ant k r1)"

definition cheapest_of :: "solution list \<Rightarrow> solution option \<Rightarrow> bool" where
  "cheapest_of sols best \<longleftrightarrow>
     (case best of None \<Rightarrow> sols = []
      | Some b \<Rightarrow> b \<in> set sols \<and> list_all (\<lambda>x. fst b \<le> fst x) sols)"

lemma better_cheapest:
  assumes "cheapest_of sols best"
  shows "cheapest_of (sols @ [new]) (better new best)"
  using assms by (cases best) (auto simp: cheapest_of_def better_def list_all_iff)

lemma ants_loop_spec:
  assumes total: "\<And>r. \<exists>sol c r'. ant r = Some (sol, c, r')" and "cheapest_of sols best"
  shows "\<exists>best' r'. ants_loop ant k best r = Some (best', r')
    \<and> cheapest_of (sols @ ant_solutions ant k r) best'"
  using assms(2)
proof (induction k arbitrary: sols best r)
  case (Suc k)
  obtain sol c r1 where r1: "ant r = Some (sol, c, r1)" using total by metis
  from Suc.IH [OF better_cheapest [OF Suc.prems, of "(c, sol)"], of r1] show ?case
    by (simp add: r1)
qed simp

lemma ant_solutions_placed:
  assumes "rng_ok g" and "set (fb # fs) = set (pol_flavours pol)"
    and "(c, sol) \<in> set (ant_solutions (ant_loop g now pol forecast fs fb a tau reqs w) k r)"
  shows "list_all2 (swarm_placed pol) reqs sol \<and> c = sum_list (map as_carbon_cost sol)"
  using assms(3)
proof (induction k arbitrary: r)
  case (Suc k)
  obtain as d r1 where r1: "ant_loop g now pol forecast fs fb a tau reqs w r = Some (as, d, r1)"
    "list_all2 (swarm_placed pol) reqs as" "d = sum_list (map as_carbon_cost as)"
    using ant_loop_spec [OF assms(1,2)] .
  with Suc show ?case by auto
qed simp

text \<open>One iteration: the ants' solutions, and the cheapest of them.\<close>

lemma aco_iteration:
  assumes "rng_ok g" and "set (fb # fs) = set (pol_flavours pol)"
  obtains best r' where
    "ants_loop (ant_loop g now pol forecast fs fb a tau reqs ctx) k None r = Some (best, r')"
    and "cheapest_of (ant_solutions (ant_loop g now pol forecast fs fb a tau reqs ctx) k r) best"
proof -
  let ?ant = "ant_loop g now pol forecast fs fb a tau reqs ctx"
  have "\<exists>sol c r'. ?ant r = Some (sol, c, r')" for r
    using ant_loop_spec [OF assms, of now forecast a tau reqs ctx r] by metis
  from ants_loop_spec [where ant = ?ant, OF this, where sols = "[]" and best = None and k = k and r = r] that
  show ?thesis by (auto simp: cheapest_of_def)
qed

definition good_solution :: "assignment_policy \<Rightarrow> request list \<Rightarrow> solution option \<Rightarrow> bool" where
  "good_solution pol reqs best \<longleftrightarrow>
     (case best of None \<Rightarrow> True
      | Some (c, sol) \<Rightarrow> list_all2 (swarm_placed pol) reqs sol \<and> c = sum_list (map as_carbon_cost sol))"

lemma good_better:
  "good_solution pol reqs (Some new) \<Longrightarrow> good_solution pol reqs best \<Longrightarrow>
   good_solution pol reqs (better new best)"
  by (auto simp: good_solution_def better_def split: option.splits)

lemma cheapest_good:
  assumes "rng_ok g" and "set (fb # fs) = set (pol_flavours pol)"
    and "cheapest_of (ant_solutions (ant_loop g now pol forecast fs fb a tau reqs ctx) k r) best"
  shows "good_solution pol reqs best"
  using ant_solutions_placed [OF assms(1,2)] assms(3)
  by (fastforce simp: cheapest_of_def good_solution_def split: option.splits)

lemma deposit_on_length [simp]: "length (deposit_on d as tau) = length tau"
  by (induction d as tau rule: deposit_on.induct) (auto split: option.split)

lemma deposit_best_length [simp]: "length (deposit_best q best tau) = length tau"
  by (auto simp: deposit_best_def split: option.split)

lemma evaporate_length [simp]: "length (evaporate rho tau) = length tau"
  by (simp add: evaporate_def)

lemma deposit_on_at:
  "i < length tau \<Longrightarrow> deposit_on d as tau ! i
     = tau ! i + d * real (length (filter (\<lambda>a. as_scheduled_slot a = int i) as))"
proof (induction d as tau rule: deposit_on.induct)
  case (2 d a as tau)
  show ?case
  proof (cases "get_at tau (as_scheduled_slot a)")
    case None
    then have "as_scheduled_slot a \<noteq> int i" using 2(2) by (auto simp: get_at_def split: if_splits)
    with None 2 show ?thesis by simp
  next
    case (Some t)
    then have t: "0 \<le> as_scheduled_slot a" "t = tau ! nat (as_scheduled_slot a)"
      by (auto simp: get_at_Some)
    have "nat (as_scheduled_slot a) = i \<longleftrightarrow> as_scheduled_slot a = int i" using t(1) by linarith
    with Some t 2 show ?thesis by (auto simp: nth_list_update algebra_simps)
  qed
qed simp

lemma deposit_best_floor:
  assumes "0 \<le> q" and "list_all (\<lambda>t. tau_floor \<le> t) tau"
  shows "list_all (\<lambda>t. tau_floor \<le> t) (deposit_best q best tau)"
proof -
  have "list_all (\<lambda>t. tau_floor \<le> t) (deposit_on d as tau)" if "0 \<le> d" for d as
    using assms(2) that by (auto simp: list_all_length deposit_on_at intro!: add_increasing2)
  with assms show ?thesis by (auto simp: deposit_best_def split: option.split)
qed

lemma aco_loop_spec:
  assumes "rng_ok g" and "set (fb # fs) = set (pol_flavours pol)" and "good_solution pol reqs best"
  shows "\<exists>best' tau' r'. aco_loop g now pol forecast fs fb a reqs ctx k best tau r = Some (best', tau', r')
    \<and> good_solution pol reqs best' \<and> length tau' = length tau
    \<and> (0 \<le> oa_q_deposit a \<longrightarrow> list_all (\<lambda>t. tau_floor \<le> t) tau \<or> 0 < k \<longrightarrow>
         list_all (\<lambda>t. tau_floor \<le> t) tau')
    \<and> (best \<noteq> None \<or> 0 < k \<and> 0 < oa_n_ants a \<longrightarrow> best' \<noteq> None)"
  using assms(3)
proof (induction k arbitrary: best tau r)
  case (Suc k)
  let ?ant = "ant_loop g now pol forecast fs fb a tau reqs ctx"
  obtain ib r1 where ib: "ants_loop ?ant (oa_n_ants a) None r = Some (ib, r1)"
    "cheapest_of (ant_solutions ?ant (oa_n_ants a) r) ib"
    by (rule aco_iteration [OF assms(1,2)])
  have total: "\<exists>sol c r'. ?ant r = Some (sol, c, r')" for r
    using ant_loop_spec [OF assms(1,2), of now forecast a tau reqs ctx r] by metis
  have some: "ib \<noteq> None" if "0 < oa_n_ants a"
    using ib(2) that total [of r]
    by (cases "oa_n_ants a") (auto simp: cheapest_of_def split: option.splits)
  let ?best = "case ib of None \<Rightarrow> best | Some sol \<Rightarrow> better sol best"
  let ?tau = "deposit_best (oa_q_deposit a) ib (evaporate (oa_rho a) tau)"
  have good: "good_solution pol reqs ?best"
    using cheapest_good [OF assms(1,2) ib(2)] Suc.prems
    by (cases ib) (auto intro: good_better)
  have "list_all (\<lambda>t. tau_floor \<le> t) (evaporate (oa_rho a) tau)"
    by (auto simp: evaporate_def list_all_iff)
  then have floor: "0 \<le> oa_q_deposit a \<Longrightarrow> list_all (\<lambda>t. tau_floor \<le> t) ?tau"
    by (rule deposit_best_floor [rotated])
  have kept: "best \<noteq> None \<or> ib \<noteq> None \<Longrightarrow> ?best \<noteq> None"
    by (cases ib) (auto simp: better_def split: option.split)
  obtain best' tau' r' where ih: "aco_loop g now pol forecast fs fb a reqs ctx k ?best ?tau r1
      = Some (best', tau', r')" "good_solution pol reqs best'" "length tau' = length ?tau"
    "0 \<le> oa_q_deposit a \<Longrightarrow> list_all (\<lambda>t. tau_floor \<le> t) ?tau \<Longrightarrow> list_all (\<lambda>t. tau_floor \<le> t) tau'"
    "?best \<noteq> None \<Longrightarrow> best' \<noteq> None"
    using Suc.IH [OF good, of ?tau r1] by blast
  have "aco_loop g now pol forecast fs fb a reqs ctx (Suc k) best tau r = Some (best', tau', r')"
    by (simp only: aco_loop.simps ib(1) option.case prod.case ih(1))
  moreover have "best \<noteq> None \<or> 0 < Suc k \<and> 0 < oa_n_ants a \<longrightarrow> best' \<noteq> None"
    using ih(5) kept some by blast
  ultimately show ?case using ih(2,3) ih(4) [OF _ floor] by (metis deposit_best_length evaporate_length)
qed simp

lemma aco_batch_spec:
  assumes "rng_ok g" and ne: "pol_flavours pol \<noteq> []"
  shows "\<exists>as a'. aco_solve_batch g now pending forecast ctx pol a = Some (as, a')
    \<and> (as = [] \<or> list_all2 (swarm_placed pol) pending as)
    \<and> (0 < oa_n_ants a \<and> 0 < oa_n_iterations a \<longrightarrow> list_all2 (swarm_placed pol) pending as)
    \<and> length (oa_tau a') = length (oa_tau a)
    \<and> (0 \<le> oa_q_deposit a \<longrightarrow> list_all (\<lambda>t. tau_floor \<le> t) (oa_tau a) \<or> 0 < oa_n_iterations a \<longrightarrow>
         list_all (\<lambda>t. tau_floor \<le> t) (oa_tau a'))"
proof -
  obtain fs fb where fs: "sorted_flavours_and_fallback (pol_flavours pol) = Some (fs, fb)"
    "set (fb # fs) = set (pol_flavours pol)"
    using flavours_and_fallback [OF ne] by metis
  have none: "good_solution pol pending None" by (simp add: good_solution_def)
  obtain best tau r where run: "aco_loop g now pol forecast fs fb a pending ctx (oa_n_iterations a) None
      (oa_tau a) (oa_rng a) = Some (best, tau, r)" and good: "good_solution pol pending best"
    and rest: "length tau = length (oa_tau a)"
      "0 \<le> oa_q_deposit a \<longrightarrow> list_all (\<lambda>t. tau_floor \<le> t) (oa_tau a) \<or> 0 < oa_n_iterations a \<longrightarrow>
         list_all (\<lambda>t. tau_floor \<le> t) tau"
      "0 < oa_n_iterations a \<and> 0 < oa_n_ants a \<longrightarrow> best \<noteq> None"
    using aco_loop_spec [OF assms(1) fs(2) none, of now forecast a ctx "oa_n_iterations a" "oa_tau a" "oa_rng a"]
    by (simp only: simp_thms) (elim exE conjE, rule that, assumption+)
  have "aco_solve_batch g now pending forecast ctx pol a
    = Some (case best of Some (_, sol) \<Rightarrow> sol | None \<Rightarrow> [], a\<lparr>oa_tau := tau, oa_rng := r\<rparr>)"
    by (simp add: aco_solve_batch_def fs(1) run)
  with good rest show ?thesis
    by (cases best) (auto simp: good_solution_def case_prod_unfold)
qed

section \<open>What a swarm solver promises\<close>

definition bandit_wf :: "'r bandit_state \<Rightarrow> bool" where
  "bandit_wf b \<longleftrightarrow> length (ob_q b) = length (ob_n b)"

fun swarm_wf :: "'r swarm_state \<Rightarrow> bool" where
  "swarm_wf SwarmNone = True"
| "swarm_wf (SwarmBandit b) = bandit_wf b"
| "swarm_wf (SwarmAco a) = (0 \<le> oa_q_deposit a)"

text \<open>Once recorded, a placed batch is live between the arrival and the deadline of each request.\<close>

lemma placed_ids: "list_all2 (swarm_placed pol) pending as \<Longrightarrow> map as_request_id as = map rq_id pending"
  by (induction rule: list_all2_induct) (auto simp: swarm_placed_def)

lemma placed_recorded:
  assumes l2: "list_all2 (swarm_placed pol) pending as" and rec: "record_all inn as = Some inn'"
    and "r \<in> set pending" and "distinct (map rq_id pending)"
  shows "\<exists>a. map_of (in_assignments inn') (rq_id r) = Some a
    \<and> rq_arrival_slot r \<le> as_scheduled_slot a
    \<and> as_scheduled_slot a \<le> max (rq_deadline_slot r) (rq_arrival_slot r)"
proof -
  have "rq_id r \<in> set (map as_request_id as)" using placed_ids [OF l2] assms(3) by simp
  from record_all_source [OF rec this] obtain a p where
    a: "a \<in> set as" "as_request_id a = rq_id r"
    "map_of (in_assignments inn') (rq_id r) = Some (a\<lparr>as_qos_profile_id := p\<rparr>)" by blast
  obtain i where i: "i < length as" "a = as ! i" using a(1) by (metis in_set_conv_nth)
  have len: "length as = length pending" using list_all2_lengthD [OF l2] by simp
  have placed: "swarm_placed pol (pending ! i) a" using list_all2_nthD2 [OF l2 i(1)] i(2) by simp
  have "rq_id (pending ! i) = rq_id r" using placed a(2) by (simp add: swarm_placed_def)
  then have "pending ! i = r"
    using assms(3,4) i(1) len by (metis distinct_map inj_on_def nth_mem)
  with placed a(3) show ?thesis
    by (auto simp: swarm_placed_def last_valid_slot_def)
qed

locale swarm_solver =
  fixes solve :: "'s \<Rightarrow> request list \<Rightarrow> (assignment list \<times> 't) option"
    and ok :: "'s \<Rightarrow> bool"
    and pol :: assignment_policy
  assumes solve_places: "ok st \<Longrightarrow> \<exists>as t. solve st pending = Some (as, t)
      \<and> (as = [] \<or> list_all2 (swarm_placed pol) pending as)"
begin

lemma answer:
  assumes "ok st" and "solve st pending = Some (as, t)" and "as \<noteq> []"
  shows "list_all2 (swarm_placed pol) pending as"
  using solve_places [OF assms(1), of pending] assms(2,3) by auto

lemma answer_ids:
  assumes "ok st" and "solve st pending = Some (as, t)" and "as \<noteq> []"
  shows "map as_request_id as = map rq_id pending"
  by (rule placed_ids [OF answer [OF assms]])

text \<open>A committed answer schedules every request, possibly before the slot of the solve.\<close>

lemma committed_swarm:
  assumes "ok st" and "solve st pending = Some (as, t)" and "as \<noteq> []"
    and "record_all inn as = Some inn'" and "r \<in> set pending" and "distinct (map rq_id pending)"
  shows "\<exists>a. map_of (in_assignments inn') (rq_id r) = Some a
    \<and> rq_arrival_slot r \<le> as_scheduled_slot a
    \<and> as_scheduled_slot a \<le> max (rq_deadline_slot r) (rq_arrival_slot r)"
  by (rule placed_recorded [OF answer [OF assms(1-3)] assms(4-6)])

end

definition swarm_ok :: "'r rng \<Rightarrow> assignment_policy \<Rightarrow> 'r swarm_state \<Rightarrow> bool" where
  "swarm_ok g pol st \<longleftrightarrow> rng_ok g \<and> pol_flavours pol \<noteq> [] \<and> swarm_wf st"

lemma swarm_solve_batch_spec:
  assumes "swarm_ok g pol st"
  shows "\<exists>as st'. swarm_solve_batch g now pending slot forecast ctx pol st = Some (as, st')
    \<and> (as = [] \<or> list_all2 (swarm_placed pol) pending as) \<and> swarm_ok g pol st'"
proof (cases st)
  case SwarmNone
  with assms show ?thesis by simp
next
  case (SwarmBandit b)
  then have b: "rng_ok g" "pol_flavours pol \<noteq> []" "length (ob_q b) = length (ob_n b)"
    using assms by (simp_all add: swarm_ok_def bandit_wf_def)
  obtain as b' where "bandit_solve_batch g now pending forecast ctx pol b = Some (as, b')"
    "list_all2 (swarm_placed pol) pending as" "means_account (ob_q b) (ob_n b) as (ob_q b') (ob_n b')"
    using bandit_batch_spec [OF b] by metis
  with b show ?thesis
    by (simp add: SwarmBandit swarm_ok_def bandit_wf_def means_account_def)
next
  case (SwarmAco a)
  then have a: "rng_ok g" "pol_flavours pol \<noteq> []" "0 \<le> oa_q_deposit a"
    using assms by (simp_all add: swarm_ok_def)
  obtain as a' where "aco_solve_batch g now pending forecast ctx pol a = Some (as, a')"
    "as = [] \<or> list_all2 (swarm_placed pol) pending as"
    using aco_batch_spec [OF a(1,2)] by metis
  moreover from this have "oa_q_deposit a' = oa_q_deposit a"
    by (auto simp: aco_solve_batch_def split: option.splits)
  ultimately show ?thesis using a by (simp add: SwarmAco swarm_ok_def)
qed

interpretation serialized: swarm_solver
  "\<lambda>st pending. swarm_solve_batch g now pending slot forecast ctx pol st" "swarm_ok g pol" pol
  by unfold_locales (drule swarm_solve_batch_spec, blast)

section \<open>Properties of the serialized strategies\<close>

text \<open>
  C26: A swarm batch never panics and is all or nothing, and its well-formedness is kept:
  under a generator that keeps its documented ranges the answer is empty or places every
  request of the batch in order, in one of the policy's flavours, between its arrival and the
  last valid slot.
\<close>

theorem swarm_all_or_nothing:
  assumes "rng_ok g" and "pol_flavours pol \<noteq> []" and "swarm_wf st"
  shows "\<exists>as st'. swarm_solve_batch g now pending slot forecast ctx pol st = Some (as, st')
    \<and> (as = [] \<or> list_all2 (swarm_placed pol) pending as) \<and> swarm_wf st'"
  using swarm_solve_batch_spec [of g pol st now pending slot forecast ctx] assms
  by (auto simp: swarm_ok_def)

text \<open>
  Swarm strategies may schedule in the past. They never look at the slot of the solve:
  once the batch is recorded, every request whose arrival and deadline have passed is live in a
  slot before the current one.
\<close>

theorem swarm_schedules_late_requests_in_past:
  assumes "rng_ok g" and "pol_flavours pol \<noteq> []" and "swarm_wf st"
    and "swarm_solve_batch g now pending slot forecast ctx pol st = Some (as, st')" and "as \<noteq> []"
    and "distinct (map rq_id pending)" and "record_all inn as = Some inn'"
    and "r \<in> set pending" and "rq_arrival_slot r < slot" and "rq_deadline_slot r < slot"
  shows "\<exists>a. map_of (in_assignments inn') (rq_id r) = Some a \<and> as_scheduled_slot a < slot"
proof -
  have "swarm_ok g pol st" using assms(1-3) by (simp add: swarm_ok_def)
  from serialized.committed_swarm [OF this assms(4,5,7,8,6)] show ?thesis using assms(9,10) by auto
qed

text \<open>
  The bandit's values are running means. A batch adds to the count of each slot the number
  of its assignments there, and to the product of count and value the sum of their costs.
\<close>

theorem bandit_running_means:
  assumes "rng_ok g" and "pol_flavours pol \<noteq> []" and "length (ob_q b) = length (ob_n b)"
    and "bandit_solve_batch g now pending forecast ctx pol b = Some (as, b')" and "i < length (ob_n b)"
  shows "ob_n b' ! i = ob_n b ! i + length (filter (\<lambda>a. as_scheduled_slot a = int i) as)
    \<and> real (ob_n b' ! i) * ob_q b' ! i
        = real (ob_n b ! i) * ob_q b ! i
          + sum_list (map as_carbon_cost (filter (\<lambda>a. as_scheduled_slot a = int i) as))"
proof -
  have "means_account (ob_q b) (ob_n b) as (ob_q b') (ob_n b')"
    using bandit_batch_spec [OF assms(1-3), of now pending forecast ctx] assms(4) by auto
  then show ?thesis using assms(5) unfolding means_account_def list_all_iff slot_costs_def by fastforce
qed

text \<open>
  An iteration of the colony keeps its cheapest ant, and the pheromone stays above its floor:
  the best solution is one of those the ants found and no ant's is cheaper, and after a batch of at
  least one iteration with a non-negative deposit every level is at least \<open>1e-12\<close>.
\<close>

theorem colony_best_and_floor:
  assumes "rng_ok g" and "pol_flavours pol \<noteq> []"
    and "sorted_flavours_and_fallback (pol_flavours pol) = Some (fs, fb)"
  shows "(\<exists>best r'. ants_loop (ant_loop g now pol forecast fs fb a tau pending ctx) k None r = Some (best, r')
      \<and> cheapest_of (ant_solutions (ant_loop g now pol forecast fs fb a tau pending ctx) k r) best)
    \<and> (0 \<le> oa_q_deposit a \<longrightarrow> 0 < oa_n_iterations a \<longrightarrow>
        (\<exists>as a'. aco_solve_batch g now pending forecast ctx pol a = Some (as, a')
          \<and> list_all (\<lambda>t. tau_floor \<le> t) (oa_tau a')))"
proof -
  have "set (fb # fs) = set (pol_flavours pol)"
    using flavours_and_fallback [OF assms(2)] assms(3) by (metis option.inject prod.inject)
  from aco_iteration [OF assms(1) this] aco_batch_spec [OF assms(1,2), of now pending forecast ctx a]
  show ?thesis by metis
qed

text \<open>
  The flavour of a placement. In the chosen slot a swarm strategy takes the shortest flavour
  that keeps the cumulative and the windowed error limits; if none does, the most accurate one.
\<close>

theorem swarm_flavour_choice:
  assumes "sorted_flavours_and_fallback (pol_flavours pol) = Some (fs, fb)"
    and "place_in_slot pol forecast fs fb w s = (f, cost)"
  shows "if list_ex (flavour_feasible pol w s) (pol_flavours pol)
    then flavour_feasible pol w s f \<and> f \<in> set (pol_flavours pol)
      \<and> list_all (\<lambda>g. \<not> flavour_feasible pol w s g \<or> fl_duration f \<le> fl_duration g) (pol_flavours pol)
    else f \<in> set (pol_flavours pol) \<and> list_all (\<lambda>g. fl_error f \<le> fl_error g) (pol_flavours pol)"
proof -
  have ne: "pol_flavours pol \<noteq> []" using assms(1) by (auto simp: sorted_flavours_and_fallback_def)
  have fs: "set fs = set (pol_flavours pol)" "sorted (map fl_duration fs)"
    and fb: "min_by_key fl_error (pol_flavours pol) = Some fb"
    using assms(1) by (auto simp: sorted_flavours_and_fallback_def)
  show ?thesis
  proof (cases "find (flavour_feasible pol w s) fs")
    case None
    then have "\<not> list_ex (flavour_feasible pol w s) (pol_flavours pol)"
      using fs(1) by (auto simp: find_None_iff list_ex_iff)
    moreover have "f = fb"
      using assms(2) None by (simp add: place_in_slot_def pick_feasible_flavour_def)
    ultimately show ?thesis using min_by_key_in [OF fb] min_by_key_le [OF fb] by (simp add: list_all_iff)
  next
    case (Some h)
    then have f: "f = h" using assms(2) by (simp add: place_in_slot_def pick_feasible_flavour_def)
    obtain i where i: "i < length fs" "flavour_feasible pol w s (fs ! i)" "h = fs ! i"
      "\<forall>j<i. \<not> flavour_feasible pol w s (fs ! j)"
      using Some by (auto simp: find_Some_iff)
    have "fl_duration h \<le> fl_duration g" if g: "g \<in> set fs" "flavour_feasible pol w s g" for g
    proof -
      obtain j where j: "j < length fs" "g = fs ! j" using g(1) by (metis in_set_conv_nth)
      then have "i \<le> j" using i(4) g(2) not_less by blast
      then show ?thesis using sorted_nth_mono [OF fs(2), of i j] j i by simp
    qed
    moreover have "h \<in> set fs" using i by simp
    ultimately show ?thesis using i f fs(1) by (auto simp: list_ex_iff list_all_iff)
  qed
qed

section \<open>A concrete batch\<close>

definition still_rng :: "unit rng" where
  "still_rng = \<lparr>rng_unit = (\<lambda>r. (1 / 2, r)), rng_below = (\<lambda>n r. (0, r)), rng_seed = (\<lambda>_. ())\<rparr>"

definition empty_context :: swarm_context where
  "empty_context = \<lparr>swc_slot_count = [], swc_slot_errors = [], swc_global_error_sum = 0, swc_global_count = 0\<rparr>"

abbreviation sample_policy :: assignment_policy where
  "sample_policy \<equiv> assignment_policy_of config_default"

abbreviation sample_bandit :: "unit bandit_state" where
  "sample_bandit \<equiv> bandit_new still_rng 24 10 (15 / 100) 42"

lemma still_rng_ok: "rng_ok still_rng"
  by (simp add: rng_ok_def still_rng_def)

lemma sample_policy_flavours: "pol_flavours sample_policy \<noteq> []"
  by (simp add: assignment_policy_of_def config_default_def)

lemma sample_bandit_wf: "length (ob_q sample_bandit) = length (ob_n sample_bandit)"
  by (simp add: bandit_new_def)

lemma sample_bandit_batch:
  obtains as b' where "bandit_solve_batch still_rng 0 [request_new 0 7 0 5] [] empty_context sample_policy sample_bandit
      = Some (as, b')" and "as \<noteq> []"
proof -
  obtain as b' where
    "bandit_solve_batch still_rng 0 [request_new 0 7 0 5] [] empty_context sample_policy sample_bandit = Some (as, b')"
    "list_all2 (swarm_placed sample_policy) [request_new 0 7 0 5] as"
    using bandit_batch_spec [OF still_rng_ok sample_policy_flavours sample_bandit_wf] by metis
  with that show ?thesis by auto
qed

lemma swarm_all_or_nothing_witness:
  "\<exists>as st'. swarm_solve_batch still_rng 0 [request_new 0 7 0 5] 9 [] empty_context sample_policy
     (SwarmBandit sample_bandit) = Some (as, st')"
proof -
  have "swarm_wf (SwarmBandit sample_bandit)" using sample_bandit_wf by (simp add: bandit_wf_def)
  from swarm_all_or_nothing [OF still_rng_ok sample_policy_flavours this] show ?thesis by metis
qed

lemma swarm_schedules_late_requests_in_past_witness:
  "\<exists>as st' inn' a. swarm_solve_batch still_rng 0 [request_new 0 7 0 5] 9 [] empty_context sample_policy
       (SwarmBandit sample_bandit) = Some (as, st')
     \<and> record_all inner_new as = Some inn'
     \<and> map_of (in_assignments inn') 7 = Some a \<and> as_scheduled_slot a < 9"
proof -
  have wf: "swarm_wf (SwarmBandit sample_bandit)" using sample_bandit_wf by (simp add: bandit_wf_def)
  obtain as b' where b: "bandit_solve_batch still_rng 0 [request_new 0 7 0 5] [] empty_context sample_policy
      sample_bandit = Some (as, b')" and ne: "as \<noteq> []" by (rule sample_bandit_batch)
  then have run: "swarm_solve_batch still_rng 0 [request_new 0 7 0 5] 9 [] empty_context sample_policy
      (SwarmBandit sample_bandit) = Some (as, SwarmBandit b')" by simp
  obtain inn' where inn: "record_all inner_new as = Some inn'"
    using record_all_step [OF inner_inv_new] by blast
  have "\<exists>a. map_of (in_assignments inn') (rq_id (request_new 0 7 0 5)) = Some a \<and> as_scheduled_slot a < 9"
    by (rule swarm_schedules_late_requests_in_past
        [OF still_rng_ok sample_policy_flavours wf run ne _ inn, of "request_new 0 7 0 5"])
      (simp_all add: request_new_def)
  then have "\<exists>a. map_of (in_assignments inn') 7 = Some a \<and> as_scheduled_slot a < 9"
    by (simp add: request_new_def)
  with run inn show ?thesis by blast
qed

lemma bandit_running_means_witness:
  "\<exists>as b'. bandit_solve_batch still_rng 0 [request_new 0 7 0 5] [] empty_context sample_policy sample_bandit
       = Some (as, b')
     \<and> ob_n b' ! 0 = length (filter (\<lambda>a. as_scheduled_slot a = 0) as)"
proof -
  obtain as b' where b: "bandit_solve_batch still_rng 0 [request_new 0 7 0 5] [] empty_context sample_policy
      sample_bandit = Some (as, b')" by (rule sample_bandit_batch)
  have i: "0 < length (ob_n sample_bandit)" by (simp add: bandit_new_def)
  from bandit_running_means [OF still_rng_ok sample_policy_flavours sample_bandit_wf b i] b
  show ?thesis by (auto simp: bandit_new_def)
qed

definition sample_colony :: "unit aco_state" where
  "sample_colony = \<lparr>oa_tau = replicate 24 1, oa_eta = replicate 24 1, oa_rng = (), oa_n_ants = 10,
     oa_n_iterations = 3, oa_alpha = 1, oa_beta = 2, oa_rho = 3 / 10, oa_q_deposit = 1\<rparr>"

lemma colony_best_and_floor_witness:
  "\<exists>as a'. aco_solve_batch still_rng 0 [request_new 0 7 0 5] [] empty_context sample_policy sample_colony
       = Some (as, a') \<and> list_all (\<lambda>t. tau_floor \<le> t) (oa_tau a')"
proof -
  obtain fs fb where fs: "sorted_flavours_and_fallback (pol_flavours sample_policy) = Some (fs, fb)"
    using flavours_and_fallback [OF sample_policy_flavours] by metis
  from colony_best_and_floor [OF still_rng_ok sample_policy_flavours fs, of 0 "[]" sample_colony "[]"
      "[request_new 0 7 0 5]" empty_context 1 "()"]
  show ?thesis by (simp add: sample_colony_def)
qed

lemma swarm_flavour_choice_witness:
  "\<exists>fs fb f cost. sorted_flavours_and_fallback (pol_flavours sample_policy) = Some (fs, fb)
     \<and> place_in_slot sample_policy [] fs fb empty_context 0 = (f, cost)
     \<and> f \<in> set (pol_flavours sample_policy)"
proof -
  obtain fs fb where fs: "sorted_flavours_and_fallback (pol_flavours sample_policy) = Some (fs, fb)"
    using flavours_and_fallback [OF sample_policy_flavours] by metis
  obtain f cost where f: "place_in_slot sample_policy [] fs fb empty_context 0 = (f, cost)"
    by (metis prod.collapse)
  from swarm_flavour_choice [OF fs f] fs f show ?thesis by (auto split: if_splits)
qed

end
