(* ===== verification/Swarm_Merge.thy ===== *)
theory Swarm_Merge
  imports Swarm "HOL-Library.Multiset"
begin

text \<open>
  The additive-merge swarm strategies (\<open>engine/online_swarmerge.rs\<close>). The file repeats the
  helpers and the state of \<open>online_swarm.rs\<close> word for word, so the model shares those of the
  theory \<open>Swarm\<close>; what is new is that a batch is solved against a snapshot and returns a
  delta, which is merged into the state of the moment. \<open>None\<close> is a panic.
\<close>

section \<open>The bandit's deltas\<close>

record 'r bandit_delta =
  bd_n_delta :: "nat list"
  bd_cost_sum_delta :: "f64 list"
  bd_rng_after :: 'r

definition bandit_delta_of ::
    "'r bandit_state \<Rightarrow> f64 list \<Rightarrow> nat list \<Rightarrow> 'r \<Rightarrow> 'r bandit_delta" where
  "bandit_delta_of b q n r =
     \<lparr>bd_n_delta = map (\<lambda>i. n ! i - ob_n b ! i) [0..<length n],
      bd_cost_sum_delta =
        map (\<lambda>i. if i < length n \<and> 0 < n ! i - ob_n b ! i
                 then q ! i * real (n ! i) - ob_q b ! i * real (ob_n b ! i) else 0) [0..<length q],
      bd_rng_after = r\<rparr>"

definition merge_bandit_solve_batch ::
    "'r rng \<Rightarrow> f64 \<Rightarrow> request list \<Rightarrow> f64 list \<Rightarrow> swarm_context \<Rightarrow> assignment_policy \<Rightarrow> 'r bandit_state
     \<Rightarrow> (assignment list \<times> 'r bandit_delta) option" where
  "merge_bandit_solve_batch g now pending forecast ctx pol b =
     (case sorted_flavours_and_fallback (pol_flavours pol) of
        None \<Rightarrow> None
      | Some (fs, fb) \<Rightarrow>
         map_option (\<lambda>(as, (q, n), r). (as, bandit_delta_of b q n r))
           (bandit_loop g now pol forecast fs fb (ob_epsilon b) pending ctx ((ob_q b, ob_n b), ob_rng b)))"

text \<open>One index of the merge loop; an index out of range panics.\<close>

definition merge_mean ::
    "'r bandit_delta \<Rightarrow> f64 list \<times> nat list \<Rightarrow> nat \<Rightarrow> (f64 list \<times> nat list) option" where
  "merge_mean d qn i =
     (let (q, n) = qn
      in if length (bd_n_delta d) \<le> i then None
         else (let dn = bd_n_delta d ! i
               in if dn = 0 then Some (q, n)
                  else if length n \<le> i \<or> length (bd_cost_sum_delta d) \<le> i then None
                  else (let new_n = n ! i + dn;
                            new_cost_sum = q ! i * real (n ! i) + bd_cost_sum_delta d ! i
                        in Some (q[i := new_cost_sum / real new_n], n[i := new_n]))))"

definition bandit_merge_delta :: "'r bandit_delta \<Rightarrow> 'r bandit_state \<Rightarrow> 'r bandit_state option" where
  "bandit_merge_delta d b =
     map_option (\<lambda>(q, n). b\<lparr>ob_q := q, ob_n := n, ob_rng := bd_rng_after d\<rparr>)
       (fold_opt (merge_mean d) (ob_q b, ob_n b) [0..<length (ob_q b)])"

section \<open>The colony's deltas\<close>

record 'r aco_delta =
  ad_evap_factor :: f64
  ad_deposit :: "f64 list"
  ad_rng_after :: 'r

fun merge_aco_loop ::
    "'r rng \<Rightarrow> f64 \<Rightarrow> assignment_policy \<Rightarrow> f64 list \<Rightarrow> flavour list \<Rightarrow> flavour \<Rightarrow> 'r aco_state
     \<Rightarrow> request list \<Rightarrow> swarm_context \<Rightarrow> nat \<Rightarrow> solution option \<Rightarrow> f64 list \<Rightarrow> f64 list \<Rightarrow> f64 \<Rightarrow> 'r
     \<Rightarrow> (solution option \<times> f64 list \<times> f64 \<times> 'r) option" where
  "merge_aco_loop g now pol forecast fs fb a reqs ctx 0 best tau acc evap r = Some (best, acc, evap, r)"
| "merge_aco_loop g now pol forecast fs fb a reqs ctx (Suc k) best tau acc evap r =
     (case ants_loop (ant_loop g now pol forecast fs fb a tau reqs ctx) (oa_n_ants a) None r of
        None \<Rightarrow> None
      | Some (iter_best, r1) \<Rightarrow>
          merge_aco_loop g now pol forecast fs fb a reqs ctx k
            (case iter_best of None \<Rightarrow> best | Some sol \<Rightarrow> better sol best)
            (deposit_best (oa_q_deposit a) iter_best (evaporate (oa_rho a) tau))
            (deposit_best (oa_q_deposit a) iter_best (map (\<lambda>d. d * (1 - oa_rho a)) acc))
            (evap * (1 - oa_rho a)) r1)"

definition merge_aco_solve_batch ::
    "'r rng \<Rightarrow> f64 \<Rightarrow> request list \<Rightarrow> f64 list \<Rightarrow> swarm_context \<Rightarrow> assignment_policy \<Rightarrow> 'r aco_state
     \<Rightarrow> (assignment list \<times> 'r aco_delta) option" where
  "merge_aco_solve_batch g now pending forecast ctx pol a =
     (case sorted_flavours_and_fallback (pol_flavours pol) of
        None \<Rightarrow> None
      | Some (fs, fb) \<Rightarrow>
         map_option (\<lambda>(best, acc, evap, r).
             (case best of Some (_, sol) \<Rightarrow> sol | None \<Rightarrow> [],
              \<lparr>ad_evap_factor = evap, ad_deposit = acc, ad_rng_after = r\<rparr>))
           (merge_aco_loop g now pol forecast fs fb a pending ctx (oa_n_iterations a) None (oa_tau a)
              (replicate (length (oa_tau a)) 0) 1 (oa_rng a)))"

definition aco_merge_delta :: "'r aco_delta \<Rightarrow> 'r aco_state \<Rightarrow> 'r aco_state option" where
  "aco_merge_delta d a =
     (if length (ad_deposit d) < length (oa_tau a) then None
      else Some (a\<lparr>oa_tau := map (\<lambda>i. max (oa_tau a ! i * ad_evap_factor d + ad_deposit d ! i) tau_floor)
                              [0..<length (oa_tau a)],
                   oa_rng := ad_rng_after d\<rparr>))"

section \<open>The configured state\<close>

datatype 'r swarm_delta = DeltaNone | DeltaBandit "'r bandit_delta" | DeltaAco "'r aco_delta"

fun merge_swarm_solve_batch ::
    "'r rng \<Rightarrow> f64 \<Rightarrow> request list \<Rightarrow> slot \<Rightarrow> f64 list \<Rightarrow> swarm_context \<Rightarrow> assignment_policy
     \<Rightarrow> 'r swarm_state \<Rightarrow> (assignment list \<times> 'r swarm_delta) option" where
  "merge_swarm_solve_batch g now pending slot forecast ctx pol SwarmNone = Some ([], DeltaNone)"
| "merge_swarm_solve_batch g now pending slot forecast ctx pol (SwarmBandit b) =
     map_option (\<lambda>(as, d). (as, DeltaBandit d)) (merge_bandit_solve_batch g now pending forecast ctx pol b)"
| "merge_swarm_solve_batch g now pending slot forecast ctx pol (SwarmAco a) =
     map_option (\<lambda>(as, d). (as, DeltaAco d)) (merge_aco_solve_batch g now pending forecast ctx pol a)"

text \<open>A delta of another kind is ignored.\<close>

fun swarm_merge_delta :: "'r swarm_delta \<Rightarrow> 'r swarm_state \<Rightarrow> 'r swarm_state option" where
  "swarm_merge_delta (DeltaBandit d) (SwarmBandit b) = map_option SwarmBandit (bandit_merge_delta d b)"
| "swarm_merge_delta (DeltaAco d) (SwarmAco a) = map_option SwarmAco (aco_merge_delta d a)"
| "swarm_merge_delta _ st = Some st"

section \<open>Merging the bandit\<close>

lemma fold_opt_append: "fold_opt f s (xs @ ys) = Option.bind (fold_opt f s xs) (\<lambda>s'. fold_opt f s' ys)"
  by (induction f s xs rule: fold_opt.induct) (auto split: option.split)

definition merged_q :: "'r bandit_delta \<Rightarrow> f64 list \<Rightarrow> nat list \<Rightarrow> nat \<Rightarrow> f64" where
  "merged_q d q n i =
     (if bd_n_delta d ! i = 0 then q ! i
      else (q ! i * real (n ! i) + bd_cost_sum_delta d ! i) / real (n ! i + bd_n_delta d ! i))"

lemma merge_mean_fold:
  assumes "length n = length q" and "length (bd_n_delta d) = length q"
    and "length (bd_cost_sum_delta d) = length q" and "k \<le> length q"
  shows "\<exists>q' n'. fold_opt (merge_mean d) (q, n) [0..<k] = Some (q', n')
    \<and> length q' = length q \<and> length n' = length q
    \<and> (\<forall>i<length q. q' ! i = (if i < k then merged_q d q n i else q ! i)
         \<and> n' ! i = (if i < k then n ! i + bd_n_delta d ! i else n ! i))"
  using assms(4)
proof (induction k)
  case 0
  then show ?case using assms(1) by simp
next
  case (Suc k)
  then obtain q' n' where ih: "fold_opt (merge_mean d) (q, n) [0..<k] = Some (q', n')"
    "length q' = length q" "length n' = length q"
    "\<And>i. i < length q \<Longrightarrow> q' ! i = (if i < k then merged_q d q n i else q ! i)
       \<and> n' ! i = (if i < k then n ! i + bd_n_delta d ! i else n ! i)" by auto
  have at: "q' ! k = q ! k" "n' ! k = n ! k" using ih(4) [of k] Suc.prems by auto
  have "\<exists>q'' n''. merge_mean d (q', n') k = Some (q'', n'')
      \<and> length q'' = length q \<and> length n'' = length q
      \<and> (\<forall>i<length q. q'' ! i = (if i = k then merged_q d q n i else q' ! i)
           \<and> n'' ! i = (if i = k then n ! i + bd_n_delta d ! i else n' ! i))"
    using assms(2,3) Suc.prems ih(2,3) at
    by (cases "bd_n_delta d ! k = 0") (auto simp: merge_mean_def merged_q_def Let_def nth_list_update)
  then obtain q'' n'' where step: "merge_mean d (q', n') k = Some (q'', n'')"
      "length q'' = length q" "length n'' = length q"
      "\<And>i. i < length q \<Longrightarrow> q'' ! i = (if i = k then merged_q d q n i else q' ! i)
         \<and> n'' ! i = (if i = k then n ! i + bd_n_delta d ! i else n' ! i)" by blast
  have "q'' ! i = (if i < Suc k then merged_q d q n i else q ! i)
      \<and> n'' ! i = (if i < Suc k then n ! i + bd_n_delta d ! i else n ! i)" if "i < length q" for i
    using step(4) [OF that] ih(4) [OF that] by auto
  with step(1-3) ih(1) show ?case by (simp add: fold_opt_append)
qed

definition delta_fits :: "'r bandit_delta \<Rightarrow> 'r bandit_state \<Rightarrow> bool" where
  "delta_fits d b \<longleftrightarrow> length (ob_n b) = length (ob_q b) \<and> length (bd_n_delta d) = length (ob_q b)
     \<and> length (bd_cost_sum_delta d) = length (ob_q b)"

lemma bandit_merge_delta_spec:
  assumes "delta_fits d b"
  obtains b' where "bandit_merge_delta d b = Some b'"
    and "length (ob_q b') = length (ob_q b)" and "length (ob_n b') = length (ob_q b)"
    and "\<And>i. i < length (ob_q b) \<Longrightarrow> ob_q b' ! i = merged_q d (ob_q b) (ob_n b) i"
    and "\<And>i. i < length (ob_q b) \<Longrightarrow> ob_n b' ! i = ob_n b ! i + bd_n_delta d ! i"
    and "ob_rng b' = bd_rng_after d" and "ob_epsilon b' = ob_epsilon b"
proof -
  have fits: "length (ob_n b) = length (ob_q b)" "length (bd_n_delta d) = length (ob_q b)"
    "length (bd_cost_sum_delta d) = length (ob_q b)"
    using assms by (simp_all add: delta_fits_def)
  from merge_mean_fold [OF fits, of "length (ob_q b)"] obtain q' n' where
    fold: "fold_opt (merge_mean d) (ob_q b, ob_n b) [0..<length (ob_q b)] = Some (q', n')"
    "length q' = length (ob_q b)" "length n' = length (ob_q b)"
    "\<And>i. i < length (ob_q b) \<Longrightarrow> q' ! i = merged_q d (ob_q b) (ob_n b) i
       \<and> n' ! i = ob_n b ! i + bd_n_delta d ! i" by auto
  then show ?thesis
    by (intro that [of "b\<lparr>ob_q := q', ob_n := n', ob_rng := bd_rng_after d\<rparr>"])
      (simp_all add: bandit_merge_delta_def)
qed

lemma update_mean_other:
  "update_mean s cost (q, n) = Some (q', n') \<Longrightarrow> s \<noteq> int i \<Longrightarrow> q' ! i = q ! i"
  by (auto simp: update_mean_def get_at_Some split: option.splits)

lemma bandit_loop_untouched:
  assumes "bandit_loop g now pol forecast fs fb epsilon reqs w ((q, n), r) = Some (as, (q', n'), r')"
    and "filter (\<lambda>a. as_scheduled_slot a = int i) as = []"
  shows "q' ! i = q ! i"
  using assms
proof (induction reqs arbitrary: w q n r as)
  case (Cons req reqs)
  let ?cs = "valid_slots (rq_arrival_slot req) (rq_deadline_slot req)
      (pol_assignment_max_future_slots pol) (pol_total_slots pol)"
  obtain s r1 f cost q1 n1 as' where
    step: "bandit_slot g epsilon q ?cs r = (Some s, r1)" "update_mean s cost (q, n) = Some (q1, n1)"
    and rest: "bandit_loop g now pol forecast fs fb epsilon reqs (account_placed s f w) ((q1, n1), r1)
      = Some (as', (q', n'), r')" and as: "as = make_assignment now req s f cost # as'"
    using Cons.prems(1) by (auto simp: Let_def split: prod.splits option.splits)
  have "s \<noteq> int i" "filter (\<lambda>a. as_scheduled_slot a = int i) as' = []"
    using Cons.prems(2) by (auto simp: as split: if_splits)
  with Cons.IH [OF rest] update_mean_other [OF step(2)] show ?case by simp
qed simp

text \<open>The delta of a batch records its counts and costs, whatever the snapshot.\<close>

lemma bandit_delta_spec:
  assumes "rng_ok g" and "pol_flavours pol \<noteq> []" and wf: "length (ob_q b) = length (ob_n b)"
  obtains as b' d where "bandit_solve_batch g now pending forecast ctx pol b = Some (as, b')"
    and "merge_bandit_solve_batch g now pending forecast ctx pol b = Some (as, d)"
    and "length (bd_n_delta d) = length (ob_q b)" and "length (bd_cost_sum_delta d) = length (ob_q b)"
    and "means_account (ob_q b) (ob_n b) as (ob_q b') (ob_n b')"
    and "\<And>i. i < length (ob_q b) \<Longrightarrow>
      bd_n_delta d ! i = length (filter (\<lambda>a. as_scheduled_slot a = int i) as)
      \<and> bd_cost_sum_delta d ! i = slot_costs (int i) as"
    and "\<And>i. i < length (ob_q b) \<Longrightarrow> bd_n_delta d ! i = 0 \<Longrightarrow> ob_q b' ! i = ob_q b ! i"
    and "bd_rng_after d = ob_rng b'" and "list_all2 (swarm_placed pol) pending as"
    and "b' = b\<lparr>ob_q := ob_q b', ob_n := ob_n b', ob_rng := ob_rng b'\<rparr>"
proof -
  obtain fs fb where fs: "sorted_flavours_and_fallback (pol_flavours pol) = Some (fs, fb)"
    "set (fb # fs) = set (pol_flavours pol)"
    using flavours_and_fallback [OF assms(2)] by metis
  obtain as q' n' r' where
    loop: "bandit_loop g now pol forecast fs fb (ob_epsilon b) pending ctx ((ob_q b, ob_n b), ob_rng b)
      = Some (as, (q', n'), r')"
    and placed: "list_all2 (swarm_placed pol) pending as" and acc: "means_account (ob_q b) (ob_n b) as q' n'"
    using bandit_loop_spec [OF assms(1) fs(2) wf] .
  let ?d = "bandit_delta_of b q' n' r'" and ?b = "b\<lparr>ob_q := q', ob_n := n', ob_rng := r'\<rparr>"
  have len: "length q' = length (ob_q b)" "length n' = length (ob_n b)"
    using acc by (simp_all add: means_account_def)
  have at: "n' ! i = ob_n b ! i + length (filter (\<lambda>a. as_scheduled_slot a = int i) as)"
      "real (n' ! i) * q' ! i = real (ob_n b ! i) * ob_q b ! i + slot_costs (int i) as"
    if "i < length (ob_q b)" for i
    using acc that wf unfolding means_account_def list_all_iff by fastforce+
  have delta: "bd_n_delta ?d ! i = length (filter (\<lambda>a. as_scheduled_slot a = int i) as)
      \<and> bd_cost_sum_delta ?d ! i = slot_costs (int i) as" if i: "i < length (ob_q b)" for i
  proof
    show n: "bd_n_delta ?d ! i = length (filter (\<lambda>a. as_scheduled_slot a = int i) as)"
      using at(1) [OF i] i len wf by (simp add: bandit_delta_of_def)
    have "slot_costs (int i) as = 0" if "length (filter (\<lambda>a. as_scheduled_slot a = int i) as) = 0"
      using that by (simp add: slot_costs_def)
    moreover have "q' ! i * real (n' ! i) - ob_q b ! i * real (ob_n b ! i) = slot_costs (int i) as"
      using at(2) [OF i] by (simp add: mult.commute)
    ultimately show "bd_cost_sum_delta ?d ! i = slot_costs (int i) as"
      using at(1) [OF i] i len wf by (cases "n' ! i - ob_n b ! i = 0") (simp_all add: bandit_delta_of_def)
  qed
  show ?thesis
  proof (rule that [of as ?b ?d])
    show "ob_q ?b ! i = ob_q b ! i" if i: "i < length (ob_q b)" "bd_n_delta ?d ! i = 0" for i
      using bandit_loop_untouched [OF loop, of i] delta [OF i(1)] i(2) by simp
  qed (use loop placed acc delta len wf in
      \<open>simp_all add: bandit_solve_batch_def merge_bandit_solve_batch_def fs(1) bandit_delta_of_def\<close>)
qed

lemma sum_list_mset:
  fixes f :: "'a \<Rightarrow> 'b::comm_monoid_add"
  assumes "mset xs = mset ys"
  shows "sum_list (map f xs) = sum_list (map f ys)"
proof -
  have "mset (map f xs) = mset (map f ys)" using assms by simp
  then show ?thesis by (metis sum_mset_sum_list)
qed

text \<open>Deltas that some batch produced against some snapshot of the same size.\<close>

definition produced ::
    "'r rng \<Rightarrow> assignment_policy \<Rightarrow> nat \<Rightarrow> assignment list \<times> 'r bandit_delta \<Rightarrow> bool" where
  "produced g pol slots batch \<longleftrightarrow>
     (\<exists>b now pending forecast ctx. length (ob_q b) = slots \<and> length (ob_n b) = slots
        \<and> merge_bandit_solve_batch g now pending forecast ctx pol b = Some batch)"

definition merge_all :: "'r bandit_delta list \<Rightarrow> 'r bandit_state \<Rightarrow> 'r bandit_state option" where
  "merge_all ds b = fold_opt (\<lambda>b d. bandit_merge_delta d b) b ds"

definition batch_count :: "(assignment list \<times> 'r bandit_delta) list \<Rightarrow> slot \<Rightarrow> nat" where
  "batch_count batches s = sum_list (map (\<lambda>(as, d). length (filter (\<lambda>a. as_scheduled_slot a = s) as)) batches)"

definition batch_costs :: "(assignment list \<times> 'r bandit_delta) list \<Rightarrow> slot \<Rightarrow> f64" where
  "batch_costs batches s = sum_list (map (\<lambda>(as, d). slot_costs s as) batches)"

lemma produced_delta:
  assumes "rng_ok g" and "pol_flavours pol \<noteq> []" and "produced g pol slots (as, d)"
  shows "length (bd_n_delta d) = slots" and "length (bd_cost_sum_delta d) = slots"
    and "i < slots \<Longrightarrow> bd_n_delta d ! i = length (filter (\<lambda>a. as_scheduled_slot a = int i) as)"
    and "i < slots \<Longrightarrow> bd_cost_sum_delta d ! i = slot_costs (int i) as"
proof -
  obtain b now pending forecast ctx where b: "length (ob_q b) = slots" "length (ob_n b) = slots"
    and solve: "merge_bandit_solve_batch g now pending forecast ctx pol b = Some (as, d)"
    using assms(3) by (auto simp: produced_def)
  have "length (ob_q b) = length (ob_n b)" using b by simp
  from bandit_delta_spec [OF assms(1,2) this, of now pending forecast ctx] solve b
  show "length (bd_n_delta d) = slots" "length (bd_cost_sum_delta d) = slots"
    "i < slots \<Longrightarrow> bd_n_delta d ! i = length (filter (\<lambda>a. as_scheduled_slot a = int i) as)"
    "i < slots \<Longrightarrow> bd_cost_sum_delta d ! i = slot_costs (int i) as"
    by (metis option.inject prod.inject)+
qed

lemma merge_all_account:
  assumes "rng_ok g" and "pol_flavours pol \<noteq> []"
    and "length (ob_q b) = slots" and "length (ob_n b) = slots" and "list_all (produced g pol slots) batches"
  shows "\<exists>b'. merge_all (map snd batches) b = Some b' \<and> length (ob_q b') = slots \<and> length (ob_n b') = slots
    \<and> (\<forall>i < slots. ob_n b' ! i = ob_n b ! i + batch_count batches (int i)
         \<and> real (ob_n b' ! i) * ob_q b' ! i = real (ob_n b ! i) * ob_q b ! i + batch_costs batches (int i)
         \<and> (batch_count batches (int i) = 0 \<longrightarrow> ob_q b' ! i = ob_q b ! i))"
  using assms(3-5)
proof (induction batches arbitrary: b)
  case Nil
  then show ?case by (simp add: merge_all_def batch_count_def batch_costs_def)
next
  case (Cons batch batches)
  obtain as d where batch: "batch = (as, d)" by (cases batch)
  have prod: "produced g pol slots (as, d)" using Cons.prems(3) by (simp add: batch)
  note d = produced_delta [OF assms(1,2) prod]
  have "delta_fits d b" using d(1,2) Cons.prems by (simp add: delta_fits_def)
  then obtain b1 where b1: "bandit_merge_delta d b = Some b1"
    "length (ob_q b1) = slots" "length (ob_n b1) = slots"
    "\<And>i. i < slots \<Longrightarrow> ob_q b1 ! i = merged_q d (ob_q b) (ob_n b) i"
    "\<And>i. i < slots \<Longrightarrow> ob_n b1 ! i = ob_n b ! i + bd_n_delta d ! i"
    using bandit_merge_delta_spec Cons.prems(1) by metis
  obtain b' where b': "merge_all (map snd batches) b1 = Some b'" "length (ob_q b') = slots" "length (ob_n b') = slots"
    "\<And>i. i < slots \<Longrightarrow> ob_n b' ! i = ob_n b1 ! i + batch_count batches (int i)
         \<and> real (ob_n b' ! i) * ob_q b' ! i = real (ob_n b1 ! i) * ob_q b1 ! i + batch_costs batches (int i)
         \<and> (batch_count batches (int i) = 0 \<longrightarrow> ob_q b' ! i = ob_q b1 ! i)"
    using Cons.IH [OF b1(2,3)] Cons.prems(3) by auto
  have "ob_n b' ! i = ob_n b ! i + batch_count (batch # batches) (int i)
      \<and> real (ob_n b' ! i) * ob_q b' ! i = real (ob_n b ! i) * ob_q b ! i + batch_costs (batch # batches) (int i)
      \<and> (batch_count (batch # batches) (int i) = 0 \<longrightarrow> ob_q b' ! i = ob_q b ! i)" if i: "i < slots" for i
  proof -
    let ?dn = "bd_n_delta d ! i"
    have q1: "real (ob_n b1 ! i) * ob_q b1 ! i = real (ob_n b ! i) * ob_q b ! i + slot_costs (int i) as"
    proof (cases "?dn = 0")
      case True
      then have "slot_costs (int i) as = 0" using d(3) [OF i] by (simp add: slot_costs_def)
      with True show ?thesis using b1(4,5) [OF i] by (simp add: merged_q_def)
    next
      case False
      have "real (ob_n b ! i + ?dn) * (x / real (ob_n b ! i + ?dn)) = x" for x using False by simp
      then show ?thesis
        unfolding b1(4) [OF i] b1(5) [OF i] merged_q_def if_not_P [OF False]
        by (simp only: d(4) [OF i] mult.commute)
    qed
    have c: "batch_count (batch # batches) (int i) = ?dn + batch_count batches (int i)"
      "batch_costs (batch # batches) (int i) = slot_costs (int i) as + batch_costs batches (int i)"
      by (simp_all add: batch_count_def batch_costs_def batch d(3) [OF i])
    have "?dn = 0 \<Longrightarrow> ob_q b1 ! i = ob_q b ! i" using b1(4) [OF i] by (simp add: merged_q_def)
    moreover have "ob_n b' ! i = ob_n b ! i + (?dn + batch_count batches (int i))"
      using b'(4) [OF i] b1(5) [OF i] by simp
    moreover have "real (ob_n b' ! i) * ob_q b' ! i
        = real (ob_n b ! i) * ob_q b ! i + (slot_costs (int i) as + batch_costs batches (int i))"
      using b'(4) [OF i] q1 by argo
    ultimately show ?thesis unfolding c using b'(4) [OF i] by (metis add_is_0)
  qed
  moreover have "merge_all (map snd (batch # batches)) b = Some b'"
    using b1(1) b'(1) by (simp add: merge_all_def batch)
  ultimately show ?case using b'(2,3) by blast
qed


section \<open>Properties of the merging bandit\<close>

text \<open>
  C13: Solving against a snapshot and merging the delta back is the serialized step. If nothing
  else happened in between, the merged state is the one that the serialized bandit reaches,
  random generator included, and both return the same assignments.
\<close>

theorem merge_refines_serialized:
  assumes "rng_ok g" and "pol_flavours pol \<noteq> []" and "length (ob_q b) = length (ob_n b)"
  shows "\<exists>as d b'. merge_bandit_solve_batch g now pending forecast ctx pol b = Some (as, d)
    \<and> bandit_solve_batch g now pending forecast ctx pol b = Some (as, b')
    \<and> bandit_merge_delta d b = Some b'"
proof -
  obtain as b' d where solve: "bandit_solve_batch g now pending forecast ctx pol b = Some (as, b')"
    "merge_bandit_solve_batch g now pending forecast ctx pol b = Some (as, d)"
    and fits: "length (bd_n_delta d) = length (ob_q b)" "length (bd_cost_sum_delta d) = length (ob_q b)"
    and acc: "means_account (ob_q b) (ob_n b) as (ob_q b') (ob_n b')"
    and d: "\<And>i. i < length (ob_q b) \<Longrightarrow>
      bd_n_delta d ! i = length (filter (\<lambda>a. as_scheduled_slot a = int i) as)
      \<and> bd_cost_sum_delta d ! i = slot_costs (int i) as"
    and kept: "\<And>i. i < length (ob_q b) \<Longrightarrow> bd_n_delta d ! i = 0 \<Longrightarrow> ob_q b' ! i = ob_q b ! i"
    and rng: "bd_rng_after d = ob_rng b'"
    and eps: "b' = b\<lparr>ob_q := ob_q b', ob_n := ob_n b', ob_rng := ob_rng b'\<rparr>"
    using bandit_delta_spec [OF assms] by metis
  have "delta_fits d b" using fits assms(3) by (simp add: delta_fits_def)
  then obtain m where m: "bandit_merge_delta d b = Some m"
    "length (ob_q m) = length (ob_q b)" "length (ob_n m) = length (ob_q b)"
    "\<And>i. i < length (ob_q b) \<Longrightarrow> ob_q m ! i = merged_q d (ob_q b) (ob_n b) i"
    "\<And>i. i < length (ob_q b) \<Longrightarrow> ob_n m ! i = ob_n b ! i + bd_n_delta d ! i"
    "ob_rng m = bd_rng_after d" "ob_epsilon m = ob_epsilon b"
    using bandit_merge_delta_spec by metis
  have len: "length (ob_q b') = length (ob_q b)" "length (ob_n b') = length (ob_q b)"
    using acc assms(3) by (simp_all add: means_account_def)
  have n: "ob_n m ! i = ob_n b' ! i"
    and mean: "real (ob_n b' ! i) * ob_q b' ! i = real (ob_n b ! i) * ob_q b ! i + slot_costs (int i) as"
    if "i < length (ob_q b)" for i
    using acc that d [OF that] m(5) [OF that] assms(3)
    unfolding means_account_def list_all_iff by fastforce+
  have q: "ob_q m ! i = ob_q b' ! i" if i: "i < length (ob_q b)" for i
  proof (cases "bd_n_delta d ! i = 0")
    case True
    then show ?thesis using kept [OF i] m(4) [OF i] by (simp add: merged_q_def)
  next
    case False
    have count: "ob_n b' ! i = ob_n b ! i + bd_n_delta d ! i" using n [OF i] m(5) [OF i] by simp
    have "ob_q m ! i = (ob_q b ! i * real (ob_n b ! i) + slot_costs (int i) as) / real (ob_n b' ! i)"
      unfolding m(4) [OF i] merged_q_def if_not_P [OF False] conjunct2 [OF d [OF i]] count ..
    also have "\<dots> = (ob_q b' ! i * real (ob_n b' ! i)) / real (ob_n b' ! i)"
      using mean [OF i] by (simp only: mult.commute)
    finally show ?thesis using False count by simp
  qed
  have "ob_q m = ob_q b'" "ob_n m = ob_n b'"
    using q n len m(2,3) by (auto intro!: nth_equalityI)
  moreover have "ob_epsilon b' = ob_epsilon b" by (subst eps) simp
  ultimately have "m = b'" using rng m(6,7) by (intro bandit_state.equality) simp_all
  with solve m(1) show ?thesis by blast
qed

text \<open>
  C12: No worker's contribution is lost. However many batches were solved against whatever
  snapshots of the state, merging their deltas never panics, and afterwards each slot's count has
  grown by all their assignments there and count times value by all their costs.
\<close>

theorem merge_loses_nothing:
  assumes "rng_ok g" and "pol_flavours pol \<noteq> []"
    and "length (ob_q b) = slots" and "length (ob_n b) = slots"
    and "list_all (produced g pol slots) batches" and "i < slots"
  shows "\<exists>b'. merge_all (map snd batches) b = Some b'
    \<and> ob_n b' ! i = ob_n b ! i + batch_count batches (int i)
    \<and> real (ob_n b' ! i) * ob_q b' ! i = real (ob_n b ! i) * ob_q b ! i + batch_costs batches (int i)"
  using merge_all_account [OF assms(1-5)] assms(6) by blast

text \<open>
  The order of the merges does not matter. Two workers' deltas can be merged in either
  order; counts and values come out the same.
\<close>

theorem merge_order_irrelevant:
  assumes "rng_ok g" and "pol_flavours pol \<noteq> []"
    and "length (ob_q b) = slots" and "length (ob_n b) = slots"
    and "list_all (produced g pol slots) batches" and "mset batches' = mset batches"
    and "merge_all (map snd batches) b = Some b1" and "merge_all (map snd batches') b = Some b2"
  shows "ob_n b1 = ob_n b2 \<and> ob_q b1 = ob_q b2"
proof -
  have all': "list_all (produced g pol slots) batches'"
    using assms(5,6) by (metis list_all_iff mset_eq_setD)
  have same: "batch_count batches' s = batch_count batches s" "batch_costs batches' s = batch_costs batches s" for s
    unfolding batch_count_def batch_costs_def by (rule sum_list_mset [OF assms(6)])+
  have l: "length (ob_q b1) = slots" "length (ob_n b1) = slots"
    and r: "length (ob_q b2) = slots" "length (ob_n b2) = slots"
    using merge_all_account [OF assms(1-5)] merge_all_account [OF assms(1-4) all'] assms(7,8) by auto
  have at: "ob_n b1 ! i = ob_n b2 ! i \<and> ob_q b1 ! i = ob_q b2 ! i" if i: "i < slots" for i
  proof -
    have 1: "ob_n b1 ! i = ob_n b ! i + batch_count batches (int i)"
      "real (ob_n b1 ! i) * ob_q b1 ! i = real (ob_n b ! i) * ob_q b ! i + batch_costs batches (int i)"
      "batch_count batches (int i) = 0 \<longrightarrow> ob_q b1 ! i = ob_q b ! i"
      using merge_all_account [OF assms(1-5)] assms(7) i by auto
    have 2: "ob_n b2 ! i = ob_n b ! i + batch_count batches (int i)"
      "real (ob_n b2 ! i) * ob_q b2 ! i = real (ob_n b ! i) * ob_q b ! i + batch_costs batches (int i)"
      "batch_count batches (int i) = 0 \<longrightarrow> ob_q b2 ! i = ob_q b ! i"
      using merge_all_account [OF assms(1-4) all'] assms(8) i by (auto simp: same)
    have n: "ob_n b1 ! i = ob_n b2 ! i" using 1(1) 2(1) by simp
    show ?thesis
    proof (cases "batch_count batches (int i) = 0")
      case True
      with n 1(3) 2(3) show ?thesis by simp
    next
      case False
      then have "real (ob_n b1 ! i) \<noteq> 0" using 1(1) by simp
      moreover have "real (ob_n b1 ! i) * ob_q b1 ! i = real (ob_n b1 ! i) * ob_q b2 ! i"
        using 1(2) 2(2) n by simp
      ultimately show ?thesis using n by (metis mult_left_cancel)
    qed
  qed
  then show ?thesis using l r by (auto intro!: nth_equalityI)
qed

section \<open>Merging the colony\<close>

lemma merge_aco_loop_total:
  assumes "aco_loop g now pol forecast fs fb a reqs ctx k best tau r = Some (best', tau', r')"
  shows "\<exists>acc' evap'. merge_aco_loop g now pol forecast fs fb a reqs ctx k best tau acc evap r
      = Some (best', acc', evap', r') \<and> length acc' = length acc \<and> evap' = evap * (1 - oa_rho a) ^ k"
  using assms
proof (induction k arbitrary: best tau r acc evap)
  case (Suc k)
  let ?ant = "ant_loop g now pol forecast fs fb a tau reqs ctx"
  obtain ib r1 where ib: "ants_loop ?ant (oa_n_ants a) None r = Some (ib, r1)"
    using Suc.prems by (auto split: option.splits)
  then have rest: "aco_loop g now pol forecast fs fb a reqs ctx k
      (case ib of None \<Rightarrow> best | Some sol \<Rightarrow> better sol best)
      (deposit_best (oa_q_deposit a) ib (evaporate (oa_rho a) tau)) r1 = Some (best', tau', r')"
    using Suc.prems by simp
  obtain acc' evap' where
    "merge_aco_loop g now pol forecast fs fb a reqs ctx k
      (case ib of None \<Rightarrow> best | Some sol \<Rightarrow> better sol best)
      (deposit_best (oa_q_deposit a) ib (evaporate (oa_rho a) tau))
      (deposit_best (oa_q_deposit a) ib (map (\<lambda>d. d * (1 - oa_rho a)) acc))
      (evap * (1 - oa_rho a)) r1 = Some (best', acc', evap', r')"
    "length acc' = length acc" "evap' = evap * (1 - oa_rho a) * (1 - oa_rho a) ^ k"
    using Suc.IH [OF rest] by (metis deposit_best_length length_map)
  then show ?case by (simp add: ib mult.assoc)
qed simp

lemma deposit_best_at:
  assumes "i < length tau" and "i < length tau'"
  shows "deposit_best q best tau' ! i - tau' ! i = deposit_best q best tau ! i - tau ! i"
  using assms by (cases best) (auto simp: deposit_best_def deposit_on_at)

text \<open>Above the floor the pheromone is the affine image of the start that the delta records.\<close>

lemma merge_aco_affine:
  assumes "aco_loop g now pol forecast fs fb a reqs ctx k best tau r = Some (best', tau', r')"
    and "merge_aco_loop g now pol forecast fs fb a reqs ctx k best tau acc evap r = Some (best', acc', evap', r')"
    and "length acc = length tau" and "i < length tau"
    and "0 \<le> oa_q_deposit a" and "0 \<le> oa_rho a" and "oa_rho a \<le> 1"
    and "tau_floor \<le> tau ! i * (1 - oa_rho a) ^ k"
  shows "tau' ! i = (tau ! i - acc ! i) * (1 - oa_rho a) ^ k + acc' ! i"
  using assms
proof (induction k arbitrary: best tau r acc evap)
  case (Suc k)
  let ?rho = "oa_rho a" and ?q = "oa_q_deposit a"
  let ?ant = "ant_loop g now pol forecast fs fb a tau reqs ctx"
  obtain ib r1 where ib: "ants_loop ?ant (oa_n_ants a) None r = Some (ib, r1)"
    using Suc.prems(1) by (auto split: option.splits)
  let ?tau = "deposit_best ?q ib (evaporate ?rho tau)"
  let ?acc = "deposit_best ?q ib (map (\<lambda>d. d * (1 - ?rho)) acc)"
  let ?best = "case ib of None \<Rightarrow> best | Some sol \<Rightarrow> better sol best"
  have rest: "aco_loop g now pol forecast fs fb a reqs ctx k ?best ?tau r1 = Some (best', tau', r')"
    "merge_aco_loop g now pol forecast fs fb a reqs ctx k ?best ?tau ?acc (evap * (1 - ?rho)) r1
      = Some (best', acc', evap', r')"
    using Suc.prems(1,2) by (simp_all add: ib)
  have pos: "0 \<le> (1 - ?rho) ^ k" "(1 - ?rho) ^ k \<le> 1"
    using Suc.prems(6,7) by (simp_all add: power_le_one)
  have big: "tau_floor \<le> tau ! i * (1 - ?rho) * (1 - ?rho) ^ k"
    using Suc.prems(8) by (simp add: mult.assoc)
  have "0 < tau_floor" by (simp add: tau_floor_def)
  then have "0 < tau ! i * (1 - ?rho)"
    using big pos(1) by (smt (verit) mult_nonpos_nonneg)
  then have "tau ! i * (1 - ?rho) * (1 - ?rho) ^ k \<le> tau ! i * (1 - ?rho)"
    using pos(2) by (simp add: mult_left_le)
  then have "tau_floor \<le> tau ! i * (1 - ?rho)" using big by linarith
  then have ev: "evaporate ?rho tau ! i = tau ! i * (1 - ?rho)"
    using Suc.prems(4) by (simp add: evaporate_def)
  have dep: "0 \<le> ?tau ! i - evaporate ?rho tau ! i"
    using Suc.prems(4,5) by (cases ib) (auto simp: deposit_best_def deposit_on_at)
  then have "tau ! i * (1 - ?rho) * (1 - ?rho) ^ k \<le> ?tau ! i * (1 - ?rho) ^ k"
    using ev pos(1) by (simp add: mult_right_mono)
  then have big': "tau_floor \<le> ?tau ! i * (1 - ?rho) ^ k" using big by linarith
  have same: "?tau ! i - evaporate ?rho tau ! i = ?acc ! i - acc ! i * (1 - ?rho)"
    using deposit_best_at [of i "evaporate ?rho tau" "map (\<lambda>d. d * (1 - ?rho)) acc" ?q ib] Suc.prems(3,4)
    by simp
  have "tau' ! i = (?tau ! i - ?acc ! i) * (1 - ?rho) ^ k + acc' ! i"
    using Suc.IH [OF rest] Suc.prems(3-7) big' by simp
  also have "?tau ! i - ?acc ! i = (tau ! i - acc ! i) * (1 - ?rho)"
    using same ev by (simp add: algebra_simps)
  finally show ?case by (simp add: mult.assoc)
qed simp

lemma merge_aco_acc_nonneg:
  assumes "merge_aco_loop g now pol forecast fs fb a reqs ctx k best tau acc evap r = Some (best', acc', evap', r')"
    and "list_all (\<lambda>d. 0 \<le> d) acc" and "0 \<le> oa_q_deposit a" and "oa_rho a \<le> 1"
  shows "list_all (\<lambda>d. 0 \<le> d) acc'"
  using assms
proof (induction k arbitrary: best tau acc evap r)
  case (Suc k)
  let ?acc = "map (\<lambda>d. d * (1 - oa_rho a)) acc"
  have "list_all (\<lambda>d. 0 \<le> d) ?acc" using Suc.prems(2,4) by (auto simp: list_all_iff)
  then have "list_all (\<lambda>d. 0 \<le> d) (deposit_on d as ?acc)" if "0 \<le> d" for d as
    using that by (auto simp: list_all_length deposit_on_at)
  then have "list_all (\<lambda>d. 0 \<le> d) (deposit_best (oa_q_deposit a) ib ?acc)" for ib
    using \<open>list_all (\<lambda>d. 0 \<le> d) ?acc\<close> Suc.prems(3)
    by (auto simp: deposit_best_def split: option.split)
  with Suc show ?case by (auto split: option.splits prod.splits)
qed simp

text \<open>
  The colony's delta replays a batch above the pheromone floor. Solving against a snapshot
  and merging the delta back gives the serialized colony's assignments and generator, and at
  every slot whose level stays above the floor under the batch's evaporation the same level;
  elsewhere the two may differ, since only the serialized colony applies the floor each
  iteration.
\<close>

theorem colony_merge_refines_serialized:
  assumes "rng_ok g" and "pol_flavours pol \<noteq> []"
    and "0 \<le> oa_q_deposit a" and "0 \<le> oa_rho a" and "oa_rho a \<le> 1"
  shows "\<exists>as d a' m. merge_aco_solve_batch g now pending forecast ctx pol a = Some (as, d)
    \<and> aco_solve_batch g now pending forecast ctx pol a = Some (as, a')
    \<and> aco_merge_delta d a = Some m \<and> oa_rng m = oa_rng a' \<and> length (oa_tau m) = length (oa_tau a')
    \<and> list_all (\<lambda>i. oa_tau a ! i * (1 - oa_rho a) ^ oa_n_iterations a < tau_floor
          \<or> oa_tau m ! i = oa_tau a' ! i) [0..<length (oa_tau a)]"
proof -
  obtain fs fb where fs: "sorted_flavours_and_fallback (pol_flavours pol) = Some (fs, fb)"
    "set (fb # fs) = set (pol_flavours pol)"
    using flavours_and_fallback [OF assms(2)] by metis
  let ?k = "oa_n_iterations a" and ?z = "replicate (length (oa_tau a)) (0::f64)"
  have none: "good_solution pol pending None" by (simp add: good_solution_def)
  obtain best tau r where run: "aco_loop g now pol forecast fs fb a pending ctx ?k None (oa_tau a) (oa_rng a)
      = Some (best, tau, r)" and len: "length tau = length (oa_tau a)"
    using aco_loop_spec [OF assms(1) fs(2) none, of now forecast a ctx ?k "oa_tau a" "oa_rng a"] by metis
  obtain acc where acc: "merge_aco_loop g now pol forecast fs fb a pending ctx ?k None (oa_tau a) ?z 1 (oa_rng a)
      = Some (best, acc, (1 - oa_rho a) ^ ?k, r)" "length acc = length (oa_tau a)"
    using merge_aco_loop_total [OF run, of ?z 1] by auto
  let ?as = "case best of Some (_, sol) \<Rightarrow> sol | None \<Rightarrow> []"
  let ?d = "\<lparr>ad_evap_factor = (1 - oa_rho a) ^ ?k, ad_deposit = acc, ad_rng_after = r\<rparr>"
  let ?m = "a\<lparr>oa_tau := map (\<lambda>i. max (oa_tau a ! i * (1 - oa_rho a) ^ ?k + acc ! i) tau_floor)
      [0..<length (oa_tau a)], oa_rng := r\<rparr>"
  have acc_nonneg: "0 \<le> acc ! i" if "i < length (oa_tau a)" for i
    using merge_aco_acc_nonneg [OF acc(1)] assms(3,5) acc(2) that by (simp add: list_all_length)
  have at: "oa_tau ?m ! i = tau ! i"
    if i: "i < length (oa_tau a)" "\<not> oa_tau a ! i * (1 - oa_rho a) ^ ?k < tau_floor" for i
  proof -
    have "tau ! i = oa_tau a ! i * (1 - oa_rho a) ^ ?k + acc ! i"
      using merge_aco_affine [OF run acc(1)] i assms(3-5) by simp
    with acc_nonneg [OF i(1)] i show ?thesis by simp
  qed
  have "list_all (\<lambda>i. oa_tau a ! i * (1 - oa_rho a) ^ ?k < tau_floor
      \<or> oa_tau ?m ! i = tau ! i) [0..<length (oa_tau a)]"
    unfolding list_all_iff set_upt
  proof
    fix i assume "i \<in> {0..<length (oa_tau a)}"
    then have "i < length (oa_tau a)" by simp
    with at [of i] show "oa_tau a ! i * (1 - oa_rho a) ^ ?k < tau_floor \<or> oa_tau ?m ! i = tau ! i" by blast
  qed
  then show ?thesis
    by (intro exI [of _ ?as] exI [of _ ?d] exI [of _ "a\<lparr>oa_tau := tau, oa_rng := r\<rparr>"] exI [of _ ?m])
      (simp add: merge_aco_solve_batch_def aco_solve_batch_def aco_merge_delta_def fs(1) run acc len)
qed

section \<open>The merging strategies as swarm solvers\<close>

lemma merge_swarm_solve_batch_spec:
  assumes "swarm_ok g pol st"
  shows "\<exists>as d. merge_swarm_solve_batch g now pending slot forecast ctx pol st = Some (as, d)
    \<and> (as = [] \<or> list_all2 (swarm_placed pol) pending as)"
proof (cases st)
  case SwarmNone
  then show ?thesis by simp
next
  case (SwarmBandit b)
  then have b: "rng_ok g" "pol_flavours pol \<noteq> []" "length (ob_q b) = length (ob_n b)"
    using assms by (simp_all add: swarm_ok_def bandit_wf_def)
  obtain as d where "merge_bandit_solve_batch g now pending forecast ctx pol b = Some (as, d)"
    "list_all2 (swarm_placed pol) pending as"
    using bandit_delta_spec [OF b, of now pending forecast ctx] by metis
  then show ?thesis by (simp add: SwarmBandit)
next
  case (SwarmAco a)
  then have a: "rng_ok g" "pol_flavours pol \<noteq> []"
    using assms by (simp_all add: swarm_ok_def)
  obtain fs fb where fs: "sorted_flavours_and_fallback (pol_flavours pol) = Some (fs, fb)"
    "set (fb # fs) = set (pol_flavours pol)"
    using flavours_and_fallback [OF a(2)] by metis
  have none: "good_solution pol pending None" by (simp add: good_solution_def)
  obtain best tau r where run: "aco_loop g now pol forecast fs fb a pending ctx (oa_n_iterations a) None
      (oa_tau a) (oa_rng a) = Some (best, tau, r)" and good: "good_solution pol pending best"
    using aco_loop_spec [OF a(1) fs(2) none, of now forecast a ctx "oa_n_iterations a" "oa_tau a" "oa_rng a"]
    by metis
  obtain acc evap where "merge_aco_loop g now pol forecast fs fb a pending ctx (oa_n_iterations a) None
      (oa_tau a) (replicate (length (oa_tau a)) 0) 1 (oa_rng a) = Some (best, acc, evap, r)"
    using merge_aco_loop_total [OF run] by metis
  with good show ?thesis
    by (cases best) (auto simp: SwarmAco merge_aco_solve_batch_def fs(1) good_solution_def)
qed

interpretation merging: swarm_solver
  "\<lambda>st pending. merge_swarm_solve_batch g now pending slot forecast ctx pol st" "swarm_ok g pol" pol
  by unfold_locales (drule merge_swarm_solve_batch_spec, blast)

section \<open>Concrete merges\<close>

lemma merge_refines_serialized_witness:
  "\<exists>as d b'. merge_bandit_solve_batch still_rng 0 [request_new 0 7 0 5] [] empty_context sample_policy
       sample_bandit = Some (as, d)
     \<and> bandit_merge_delta d sample_bandit = Some b'"
  using merge_refines_serialized [OF still_rng_ok sample_policy_flavours sample_bandit_wf] by metis

lemma sample_produced:
  obtains as d where "produced still_rng sample_policy 24 (as, d)"
    and "merge_bandit_solve_batch still_rng 0 [request_new 0 i s 5] [] empty_context sample_policy
      sample_bandit = Some (as, d)"
proof -
  obtain as d where d: "merge_bandit_solve_batch still_rng 0 [request_new 0 i s 5] [] empty_context sample_policy
      sample_bandit = Some (as, d)"
    using bandit_delta_spec [OF still_rng_ok sample_policy_flavours sample_bandit_wf] by metis
  moreover have "length (ob_q sample_bandit) = 24" "length (ob_n sample_bandit) = 24"
    by (simp_all add: bandit_new_def)
  ultimately have "produced still_rng sample_policy 24 (as, d)" unfolding produced_def by blast
  then show ?thesis using d by (rule that)
qed

lemma sample_bandit_size: "length (ob_q sample_bandit) = 24" "length (ob_n sample_bandit) = 24"
  by (simp_all add: bandit_new_def)

lemma merge_loses_nothing_witness:
  "\<exists>(as :: assignment list) d b'. merge_all [d, d] sample_bandit = Some b'
     \<and> ob_n b' ! 0 = 2 * length (filter (\<lambda>a. as_scheduled_slot a = 0) as)"
proof -
  obtain as d where p: "produced still_rng sample_policy 24 (as, d)" by (rule sample_produced)
  have "list_all (produced still_rng sample_policy 24) [(as, d), (as, d)]" using p by simp
  from merge_loses_nothing [OF still_rng_ok sample_policy_flavours sample_bandit_size this, of 0]
  obtain b' where "merge_all [d, d] sample_bandit = Some b'"
    "ob_n b' ! 0 = 2 * length (filter (\<lambda>a. as_scheduled_slot a = 0) as)"
    by (auto simp: batch_count_def bandit_new_def)
  then show ?thesis by blast
qed

lemma merge_order_irrelevant_witness:
  "\<exists>as1 as2 d1 d2 b1 b2.
     merge_bandit_solve_batch still_rng 0 [request_new 0 7 0 5] [] empty_context sample_policy sample_bandit
       = Some (as1, d1)
     \<and> merge_bandit_solve_batch still_rng 0 [request_new 0 8 3 5] [] empty_context sample_policy sample_bandit
       = Some (as2, d2)
     \<and> merge_all [d1, d2] sample_bandit = Some b1 \<and> merge_all [d2, d1] sample_bandit = Some b2
     \<and> ob_q b1 = ob_q b2"
proof -
  obtain as1 d1 where 1: "produced still_rng sample_policy 24 (as1, d1)"
    "merge_bandit_solve_batch still_rng 0 [request_new 0 7 0 5] [] empty_context sample_policy sample_bandit
       = Some (as1, d1)" by (rule sample_produced)
  obtain as2 d2 where 2: "produced still_rng sample_policy 24 (as2, d2)"
    "merge_bandit_solve_batch still_rng 0 [request_new 0 8 3 5] [] empty_context sample_policy sample_bandit
       = Some (as2, d2)" by (rule sample_produced)
  let ?xs = "[(as1, d1), (as2, d2)]" and ?ys = "[(as2, d2), (as1, d1)]"
  have all: "list_all (produced still_rng sample_policy 24) ?xs" "list_all (produced still_rng sample_policy 24) ?ys"
    using 1(1) 2(1) by simp_all
  note account = merge_all_account [OF still_rng_ok sample_policy_flavours sample_bandit_size]
  obtain b1 where b1: "merge_all (map snd ?xs) sample_bandit = Some b1" using account [OF all(1)] by blast
  obtain b2 where b2: "merge_all (map snd ?ys) sample_bandit = Some b2" using account [OF all(2)] by blast
  have "mset ?ys = mset ?xs" by simp
  from merge_order_irrelevant [OF still_rng_ok sample_policy_flavours sample_bandit_size all(1) this b1 b2]
  show ?thesis using 1(2) 2(2) b1 b2 by auto
qed

lemma colony_merge_refines_serialized_witness:
  "\<exists>as d m. merge_aco_solve_batch still_rng 0 [request_new 0 7 0 5] [] empty_context sample_policy sample_colony
       = Some (as, d) \<and> aco_merge_delta d sample_colony = Some m"
proof -
  have "0 \<le> oa_q_deposit sample_colony" "0 \<le> oa_rho sample_colony" "oa_rho sample_colony \<le> 1"
    by (simp_all add: sample_colony_def)
  from colony_merge_refines_serialized [OF still_rng_ok sample_policy_flavours this] show ?thesis by metis
qed

end
