(* ===== verification/Dispatch.thy ===== *)
theory Dispatch
  imports Solve Swarm_Merge
begin

text \<open>
  The scheduler's mutable state and the dispatch of batches (\<open>engine/scheduler.rs\<close>):
  \<open>SchedulerMutableState\<close>, the round-robin choice of the next profile, the claim under the
  scheduler mutex, the release of a worker, and a whole dispatch pass. One claim is one atomic
  step; it takes the queue counts as an argument, because the code reads them in a lock
  acquisition of their own. The field \<open>running\<close> (shutdown) and printing are not modelled.
\<close>

section \<open>The mutable state\<close>

record scheduler_stats =
  sst_batches_processed :: nat
  sst_total_scheduled :: nat
  sst_solver_runs :: nat
  sst_solver_total_time_ms :: f64
  sst_solver_total_requests :: nat
  sst_last_solver_elapsed_ms :: f64
  sst_peak_concurrent_workers :: nat
  sst_sum_active_workers_at_dispatch :: nat

definition scheduler_stats_default :: scheduler_stats where
  "scheduler_stats_default =
     \<lparr>sst_batches_processed = 0, sst_total_scheduled = 0, sst_solver_runs = 0,
      sst_solver_total_time_ms = 0, sst_solver_total_requests = 0, sst_last_solver_elapsed_ms = 0,
      sst_peak_concurrent_workers = 0, sst_sum_active_workers_at_dispatch = 0\<rparr>"

datatype 'r swarm_backend = Serialized "'r swarm_state" | Merging "'r swarm_state"

definition backend_from_config ::
    "'r rng \<Rightarrow> solver_config \<Rightarrow> swarm_config \<Rightarrow> assignment_policy \<Rightarrow> f64 list \<Rightarrow> 'r swarm_backend option" where
  "backend_from_config g solver swarm pol forecast =
     map_option (if sw_mode swarm = ''merge'' then Merging else Serialized)
       (swarm_from_config g solver swarm pol forecast)"

record 'r scheduler_state =
  sd_active_workers :: nat
  sd_capacity_tier_revision :: nat
  sd_active_profiles :: "qos_profile_id set"
  sd_last_infeasible :: "(qos_profile_id, slot \<times> nat) hmap"
  sd_last_dispatched_profile :: "qos_profile_id option"
  sd_stats :: scheduler_stats
  sd_recovery :: recovery_state
  sd_swarm_states :: "(qos_profile_id, 'r swarm_backend) hmap"

definition scheduler_state_new :: "nat \<Rightarrow> 'r scheduler_state" where
  "scheduler_state_new revision =
     \<lparr>sd_active_workers = 0, sd_capacity_tier_revision = revision, sd_active_profiles = {},
      sd_last_infeasible = [], sd_last_dispatched_profile = None,
      sd_stats = scheduler_stats_default, sd_recovery = recovery_state_new, sd_swarm_states = []\<rparr>"

record scheduler_statistics =
  ssn_batches_processed :: nat
  ssn_total_scheduled :: nat
  ssn_solver_runs :: nat
  ssn_last_solver_elapsed_ms :: f64
  ssn_avg_solver_ms_per_batch :: f64
  ssn_avg_solver_ms_per_request :: f64
  ssn_active_batch_workers :: nat
  ssn_max_batch_parallelism :: nat
  ssn_peak_concurrent_workers :: nat
  ssn_avg_concurrent_workers :: f64

definition scheduler_get_statistics :: "config \<Rightarrow> 'r scheduler_state \<Rightarrow> scheduler_statistics" where
  "scheduler_get_statistics cfg sd =
     (let st = sd_stats sd; runs = sst_solver_runs st; reqs = sst_solver_total_requests st;
          time_ms = sst_solver_total_time_ms st
      in \<lparr>ssn_batches_processed = sst_batches_processed st,
          ssn_total_scheduled = sst_total_scheduled st,
          ssn_solver_runs = runs, ssn_last_solver_elapsed_ms = sst_last_solver_elapsed_ms st,
          ssn_avg_solver_ms_per_batch = avg_or_zero time_ms runs,
          ssn_avg_solver_ms_per_request = avg_or_zero time_ms reqs,
          ssn_active_batch_workers = sd_active_workers sd,
          ssn_max_batch_parallelism = sc_max_batch_solver_parallelism (cfg_solver cfg),
          ssn_peak_concurrent_workers = sst_peak_concurrent_workers st,
          ssn_avg_concurrent_workers =
            avg_or_zero (real (sst_sum_active_workers_at_dispatch st)) runs\<rparr>)"

section \<open>Choosing a profile\<close>

definition profile_eligible ::
    "qos_profile_id set \<Rightarrow> (qos_profile_id, slot \<times> nat) hmap \<Rightarrow> slot \<Rightarrow> nat \<Rightarrow> qos_profile_id \<times> nat \<Rightarrow> bool" where
  "profile_eligible active infeasible slot min_pending pc =
     (min_pending \<le> snd pc \<and> fst pc \<notin> active
      \<and> map_of infeasible (fst pc) \<noteq> Some (slot, snd pc))"

definition next_profile_to_dispatch ::
    "(qos_profile_id \<times> nat) list \<Rightarrow> qos_profile_id option \<Rightarrow> qos_profile_id set
     \<Rightarrow> (qos_profile_id, slot \<times> nat) hmap \<Rightarrow> slot \<Rightarrow> nat \<Rightarrow> (qos_profile_id \<times> nat) option" where
  "next_profile_to_dispatch counts last_dispatched active infeasible slot min_pending =
     (let eligible = sort_key fst (filter (profile_eligible active infeasible slot min_pending) counts)
      in if eligible = [] then None
         else Some (case last_dispatched of
             None \<Rightarrow> hd eligible
           | Some cursor \<Rightarrow>
               (case find (\<lambda>pc. cursor < fst pc) eligible of Some pc \<Rightarrow> pc | None \<Rightarrow> hd eligible)))"

definition has_retryable_profile_pending ::
    "(qos_profile_id \<times> nat) list \<Rightarrow> 'r scheduler_state \<Rightarrow> slot \<Rightarrow> bool" where
  "has_retryable_profile_pending counts sd slot =
     list_ex (\<lambda>(p, c). 0 < c \<and> map_of (sd_last_infeasible sd) p \<noteq> Some (slot, c)) counts"

definition is_online_swarm_strategy :: "string \<Rightarrow> bool" where
  "is_online_swarm_strategy strategy \<longleftrightarrow>
     to_ascii_lowercase (str_trim strategy) \<in> {''bandit'', ''ant_colony''}"

section \<open>Claim and release\<close>

definition max_workers :: "config \<Rightarrow> nat" where
  "max_workers cfg =
     (if is_online_swarm_strategy (sc_solver_strategy (cfg_solver cfg)) \<and> sw_mode (cfg_swarm cfg) \<noteq> ''merge''
      then 1 else sc_max_batch_solver_parallelism (cfg_solver cfg))"

definition min_pending_of :: "config \<Rightarrow> bool \<Rightarrow> nat" where
  "min_pending_of cfg flush = (if flush then 1 else sc_batch_size (cfg_solver cfg))"

definition reserve_worker :: "qos_profile_id \<Rightarrow> 'r scheduler_state \<Rightarrow> 'r scheduler_state" where
  "reserve_worker pid sd =
     (let new_count = sd_active_workers sd + 1; stats = sd_stats sd
      in sd\<lparr>sd_last_dispatched_profile := Some pid,
            sd_active_profiles := insert pid (sd_active_profiles sd),
            sd_active_workers := new_count,
            sd_stats := stats
              \<lparr>sst_peak_concurrent_workers := max (sst_peak_concurrent_workers stats) new_count,
               sst_sum_active_workers_at_dispatch :=
                 sst_sum_active_workers_at_dispatch stats + new_count\<rparr>\<rparr>)"

text \<open>A claimed batch: its profile, the pending count it was chosen for, and its requests.\<close>

type_synonym claim = "qos_profile_id \<times> nat \<times> request list"

definition dispatch_claim ::
    "config \<Rightarrow> slot \<Rightarrow> bool \<Rightarrow> (qos_profile_id \<times> nat) list \<Rightarrow> inner \<Rightarrow> 'r scheduler_state
     \<Rightarrow> claim option \<times> inner \<times> 'r scheduler_state" where
  "dispatch_claim cfg slot flush counts st sd =
     (if max_workers cfg \<le> sd_active_workers sd then (None, st, sd)
      else case next_profile_to_dispatch counts (sd_last_dispatched_profile sd) (sd_active_profiles sd)
                  (sd_last_infeasible sd) slot (min_pending_of cfg flush) of
        None \<Rightarrow> (None, st, sd)
      | Some (pid, n) \<Rightarrow>
         (let (pending, st') = claim_pending_requests_for_profile pid
                                 (min n (sc_batch_size (cfg_solver cfg))) st
          in if pending = [] then (None, st', sd)
             else if length pending < min_pending_of cfg flush
             then (None, requeue_pending_requests_front pending st', sd)
             else (Some (pid, n, pending), st', reserve_worker pid sd)))"

definition release_worker ::
    "qos_profile_id \<Rightarrow> slot \<Rightarrow> nat \<Rightarrow> bool \<Rightarrow> 'r scheduler_state \<Rightarrow> 'r scheduler_state" where
  "release_worker pid slot profile_pending_count scheduled sd =
     sd\<lparr>sd_active_workers := sd_active_workers sd - 1,
        sd_active_profiles := sd_active_profiles sd - {pid},
        sd_last_infeasible :=
          (if scheduled then hm_remove pid (sd_last_infeasible sd)
           else hm_insert pid (slot, profile_pending_count) (sd_last_infeasible sd))\<rparr>"

text \<open>A pass of \<open>dispatch_batch_workers\<close> during which nobody else touches the queue.\<close>

function dispatch_pass ::
    "config \<Rightarrow> slot \<Rightarrow> bool \<Rightarrow> inner \<Rightarrow> 'r scheduler_state \<Rightarrow> claim list
     \<Rightarrow> claim list \<times> inner \<times> 'r scheduler_state" where
  "dispatch_pass cfg slot flush st sd claims =
     (case dispatch_claim cfg slot flush (pending_profile_counts st) st sd of
        (None, st', sd') \<Rightarrow> (claims, st', sd')
      | (Some claim, st', sd') \<Rightarrow> dispatch_pass cfg slot flush st' sd' (claims @ [claim]))"
  by pat_completeness auto

lemma dispatch_claim_active:
  "dispatch_claim cfg slot flush counts st sd = (Some claim, st', sd') \<Longrightarrow>
   sd_active_workers sd < max_workers cfg \<and> sd_active_workers sd' = sd_active_workers sd + 1"
  by (auto simp: dispatch_claim_def reserve_worker_def Let_def
      split: if_splits option.splits prod.splits)

termination dispatch_pass
  by (relation "measure (\<lambda>(cfg, slot, flush, st, sd, claims). max_workers cfg - sd_active_workers sd)")
    (auto dest!: sym [of _ "dispatch_claim _ _ _ _ _ _"] dispatch_claim_active)

declare dispatch_pass.simps [simp del]

section \<open>Round robin\<close>

text \<open>\<open>q\<close> lies before \<open>p\<close> on the cycle of profiles that starts after the cursor.\<close>

definition comes_before :: "qos_profile_id option \<Rightarrow> qos_profile_id \<Rightarrow> qos_profile_id \<Rightarrow> bool" where
  "comes_before cursor q p =
     (case cursor of
        None \<Rightarrow> q < p
      | Some c \<Rightarrow> if c < p then c < q \<and> q < p else c < q \<or> q < p)"

lemma comes_before_irrefl: "\<not> comes_before cursor p p"
  by (simp add: comes_before_def split: option.split)

lemma comes_before_total: "q = p \<or> comes_before cursor q p \<or> comes_before cursor p q"
  by (auto simp: comes_before_def split: option.split)

lemma comes_before_advance:
  "comes_before cursor q p \<Longrightarrow> comes_before (Some q) r p \<Longrightarrow> comes_before cursor r p"
  by (auto simp: comes_before_def split: option.splits if_splits)

lemma comes_before_passed: "\<not> comes_before (Some q) q p"
  by (simp add: comes_before_def)

lemma find_sorted_least:
  assumes "sorted (map f xs)" and "find P xs = Some x" and "y \<in> set xs" and "P y"
  shows "(f x :: 'k::linorder) \<le> f y"
proof -
  obtain i where i: "i < length xs" "x = xs ! i" "\<forall>j<i. \<not> P (xs ! j)"
    using assms(2) by (auto simp: find_Some_iff)
  obtain j where j: "j < length xs" "y = xs ! j" using assms(3) by (metis in_set_conv_nth)
  then have "i \<le> j" using i(3) assms(4) not_less by blast
  then show ?thesis using sorted_nth_mono [OF assms(1), of i j] i j by simp
qed

lemma hd_sorted_least: "sorted (map f xs) \<Longrightarrow> y \<in> set xs \<Longrightarrow> (f (hd xs) :: 'k::linorder) \<le> f y"
  by (cases xs) auto

lemma next_profile_None_iff:
  "next_profile_to_dispatch counts cursor active marks slot mn = None \<longleftrightarrow>
     \<not> list_ex (profile_eligible active marks slot mn) counts"
proof -
  have "sort_key fst (filter (profile_eligible active marks slot mn) counts) = []
      \<longleftrightarrow> filter (profile_eligible active marks slot mn) counts = []"
    by (metis length_0_conv length_sort)
  then show ?thesis by (auto simp: next_profile_to_dispatch_def Let_def filter_empty_conv list_ex_iff)
qed

lemma next_profile_SomeD:
  assumes "next_profile_to_dispatch counts cursor active marks slot mn = Some pc"
  shows "pc \<in> set counts" and "profile_eligible active marks slot mn pc"
    and "qc \<in> set counts \<Longrightarrow> profile_eligible active marks slot mn qc \<Longrightarrow>
      \<not> comes_before cursor (fst qc) (fst pc)"
proof -
  let ?E = "filter (profile_eligible active marks slot mn) counts"
  define es where "es = sort_key fst ?E"
  have es: "set es = set ?E" "sorted (map fst es)" by (simp_all add: es_def)
  have ne: "es \<noteq> []"
    and pc: "pc = (case cursor of None \<Rightarrow> hd es
       | Some c \<Rightarrow> (case find (\<lambda>pc. c < fst pc) es of Some pc \<Rightarrow> pc | None \<Rightarrow> hd es))"
    using assms by (auto simp: next_profile_to_dispatch_def Let_def es_def [symmetric] split: if_splits)
  have hd: "hd es \<in> set es" using ne by simp
  have mem: "pc \<in> set es"
    using hd by (auto simp: pc find_Some_iff split: option.splits)
  then show "pc \<in> set counts" and "profile_eligible active marks slot mn pc" by (simp_all add: es)
  assume "qc \<in> set counts" and "profile_eligible active marks slot mn qc"
  then have q: "qc \<in> set es" by (simp add: es)
  note least = hd_sorted_least [OF es(2) q]
  show "\<not> comes_before cursor (fst qc) (fst pc)"
  proof (cases cursor)
    case None
    with least show ?thesis by (simp add: pc comes_before_def not_less)
  next
    case (Some c)
    show ?thesis
    proof (cases "find (\<lambda>pc. c < fst pc) es")
      case None
      then have "\<not> c < fst qc" and "\<not> c < fst (hd es)" using q hd unfolding find_None_iff by blast+
      with Some None least show ?thesis by (simp add: pc comes_before_def not_less)
    next
      case found: (Some x)
      then have "c < fst x" by (auto simp: find_Some_iff)
      moreover have "c < fst qc \<Longrightarrow> fst x \<le> fst qc" using find_sorted_least [OF es(2) found q] .
      ultimately show ?thesis using Some found by (auto simp: pc comes_before_def)
    qed
  qed
qed

text \<open>
  The choice of the next profile is round robin. It is \<open>None\<close> exactly when no queued
  profile is eligible; otherwise it is an eligible entry of the queue, and no other eligible
  profile lies between the cursor and it on the cycle of profile identifiers.
\<close>

theorem next_profile_round_robin:
  "case next_profile_to_dispatch counts cursor active marks slot mn of
     None \<Rightarrow> \<not> list_ex (profile_eligible active marks slot mn) counts
   | Some (p, n) \<Rightarrow>
       (p, n) \<in> set counts \<and> profile_eligible active marks slot mn (p, n)
       \<and> \<not> list_ex (\<lambda>qc. profile_eligible active marks slot mn qc \<and> comes_before cursor (fst qc) p) counts"
proof (cases "next_profile_to_dispatch counts cursor active marks slot mn")
  case None
  with next_profile_None_iff [THEN iffD1, OF None] show ?thesis by simp
next
  case (Some pc)
  moreover obtain p n where "pc = (p, n)" by (cases pc)
  ultimately have eq: "next_profile_to_dispatch counts cursor active marks slot mn = Some (p, n)" by simp
  from next_profile_SomeD [OF eq] show ?thesis by (simp add: eq list_ex_iff)
qed

text \<open>The profiles that successive claims choose, the cursor following each choice.\<close>

fun round_robin_choices ::
    "((qos_profile_id \<times> nat) list \<times> qos_profile_id set \<times> (qos_profile_id, slot \<times> nat) hmap \<times> slot \<times> nat) list
     \<Rightarrow> qos_profile_id option \<Rightarrow> qos_profile_id list" where
  "round_robin_choices [] cursor = []"
| "round_robin_choices ((counts, active, marks, slot, mn) # inputs) cursor =
     (case next_profile_to_dispatch counts cursor active marks slot mn of
        None \<Rightarrow> round_robin_choices inputs cursor
      | Some (p, n) \<Rightarrow> p # round_robin_choices inputs (Some p))"

lemma round_robin_reaches:
  assumes "finite U"
    and "list_all (\<lambda>(counts, active, marks, slot, mn).
        list_ex (\<lambda>pc. fst pc = p \<and> profile_eligible active marks slot mn pc) counts
        \<and> fst ` set counts \<subseteq> U) inputs"
    and "card {q \<in> U. comes_before cursor q p} < length inputs"
  shows "p \<in> set (round_robin_choices inputs cursor)"
  using assms(2,3)
proof (induction inputs arbitrary: cursor)
  case Nil
  then show ?case by simp
next
  case (Cons input inputs)
  obtain counts active marks slot mn where input: "input = (counts, active, marks, slot, mn)"
    by (cases input)
  obtain pc where pc: "pc \<in> set counts" "fst pc = p" "profile_eligible active marks slot mn pc"
    and sub: "fst ` set counts \<subseteq> U" using Cons.prems(1) by (auto simp: input list_ex_iff)
  then have "next_profile_to_dispatch counts cursor active marks slot mn \<noteq> None"
    unfolding next_profile_None_iff by (auto simp: list_ex_iff)
  then obtain q n where q: "next_profile_to_dispatch counts cursor active marks slot mn = Some (q, n)"
    by auto
  show ?case
  proof (cases "q = p")
    case False
    have qU: "q \<in> U" using next_profile_SomeD(1) [OF q] sub by force
    have "comes_before cursor q p"
      using next_profile_SomeD(3) [OF q pc(1,3)] comes_before_total [of q p cursor] False pc(2) by auto
    then have "{r \<in> U. comes_before (Some q) r p} \<subset> {r \<in> U. comes_before cursor r p}"
      using comes_before_advance comes_before_passed qU by blast
    then have "card {r \<in> U. comes_before (Some q) r p} < card {r \<in> U. comes_before cursor r p}"
      using assms(1) by (intro psubset_card_mono) simp_all
    with Cons show ?thesis by (simp add: input q)
  qed (simp add: input q)
qed

text \<open>
  C31: No profile starves. A profile that stays eligible is chosen within as many claims as
  there are profiles, whatever the counts, the active workers and the infeasibility marks of
  the other profiles do in between.
\<close>

theorem round_robin_no_starvation:
  assumes "finite U" and "p \<in> U" and "card U \<le> length inputs"
    and "list_all (\<lambda>(counts, active, marks, slot, mn).
        list_ex (\<lambda>pc. fst pc = p \<and> profile_eligible active marks slot mn pc) counts
        \<and> fst ` set counts \<subseteq> U) inputs"
  shows "p \<in> set (round_robin_choices inputs cursor)"
proof (rule round_robin_reaches [OF assms(1,4)])
  have "{q \<in> U. comes_before cursor q p} \<subset> U" using assms(2) comes_before_irrefl by blast
  then have "card {q \<in> U. comes_before cursor q p} < card U" using assms(1) by (rule psubset_card_mono [rotated])
  with assms(3) show "card {q \<in> U. comes_before cursor q p} < length inputs" by simp
qed

section \<open>One claim\<close>

lemma next_profile_eligible:
  assumes "next_profile_to_dispatch counts cursor active marks slot mn = Some (pid, n)"
  shows "(pid, n) \<in> set counts" and "mn \<le> n" and "pid \<notin> active"
  using next_profile_SomeD(1,2) [OF assms] by (simp_all add: profile_eligible_def)

text \<open>
  Whatever the counts were when they were read: a claimed batch is a non-empty prefix of one
  idle profile's queue, of the size the pass asks for, and its worker slot was free.
\<close>

lemma dispatch_claim_Some:
  assumes "dispatch_claim cfg slot flush counts st sd = (Some (pid, n, reqs), st', sd')"
  shows "sd_active_workers sd < max_workers cfg"
    and "pid \<notin> sd_active_profiles sd"
    and "(pid, n) \<in> set counts" and "min_pending_of cfg flush \<le> n"
    and "claim_pending_requests_for_profile pid (min n (sc_batch_size (cfg_solver cfg))) st = (reqs, st')"
    and "reqs \<noteq> []" and "min_pending_of cfg flush \<le> length reqs"
    and "sd' = reserve_worker pid sd"
  using assms next_profile_eligible
  by (auto simp: dispatch_claim_def Let_def not_less split: if_splits option.splits prod.splits)

lemma dispatch_claim_batch:
  assumes "dispatch_claim cfg slot flush counts st sd = (Some (pid, n, reqs), st', sd')"
  shows "length reqs \<le> sc_batch_size (cfg_solver cfg)"
    and "\<not> flush \<Longrightarrow> length reqs = sc_batch_size (cfg_solver cfg)"
    and "r \<in> set reqs \<Longrightarrow> rq_qos_profile_id r = pid"
    and "mset reqs + mset (in_pending st') = mset (in_pending st)"
    and "st' = st\<lparr>in_pending := in_pending st'\<rparr>"
proof -
  note d = dispatch_claim_Some [OF assms]
  note c = claim_profile_spec [OF d(5)]
  show len: "length reqs \<le> sc_batch_size (cfg_solver cfg)" using c(1) by simp
  show "\<not> flush \<Longrightarrow> length reqs = sc_batch_size (cfg_solver cfg)"
    using d(7) len by (simp add: min_pending_of_def)
  show "r \<in> set reqs \<Longrightarrow> rq_qos_profile_id r = pid" by (rule claim_profile_homogeneous(1) [OF d(5)])
  show "mset reqs + mset (in_pending st') = mset (in_pending st)" by (rule c(4))
  show "st' = st\<lparr>in_pending := in_pending st'\<rparr>" by (rule c(5))
qed

lemma filter_other_key:
  "k \<noteq> j \<Longrightarrow> filter (\<lambda>x. f x = k) (filter (\<lambda>x. f x \<noteq> j) xs) = filter (\<lambda>x. f x = k) xs"
  by (induction xs) auto

text \<open>A claim that fails puts back what it took.\<close>

lemma dispatch_claim_None:
  assumes "dispatch_claim cfg slot flush counts st sd = (None, st', sd')"
  shows "sd' = sd" and "mset (in_pending st') = mset (in_pending st)"
    and "st' = st\<lparr>in_pending := in_pending st'\<rparr>"
    and "filter (\<lambda>r. rq_qos_profile_id r = pid) (in_pending st')
      = filter (\<lambda>r. rq_qos_profile_id r = pid) (in_pending st)"
proof -
  consider "st' = st" "sd' = sd"
    | pid n c st1 where "claim_pending_requests_for_profile pid n st = (c, st1)" "sd' = sd"
        "st' = requeue_pending_requests_front c st1"
    using assms
    by (auto simp: dispatch_claim_def Let_def requeue_pending_requests_front_def
        split: if_splits option.splits prod.splits)
  then have "sd' = sd \<and> mset (in_pending st') = mset (in_pending st)
      \<and> st' = st\<lparr>in_pending := in_pending st'\<rparr>
      \<and> filter (\<lambda>r. rq_qos_profile_id r = pid) (in_pending st')
        = filter (\<lambda>r. rq_qos_profile_id r = pid) (in_pending st)"
  proof cases
    case 1
    then show ?thesis by simp
  next
    case (2 p n c st1)
    note c = claim_profile_spec [OF 2(1)]
    obtain q where "st1 = st\<lparr>in_pending := q\<rparr>" using c(5) by blast
    then have st': "st' = st\<lparr>in_pending := in_pending st'\<rparr>"
      unfolding 2(3) by (simp add: requeue_pending_requests_front_def)
    have "filter (\<lambda>r. rq_qos_profile_id r = pid) c @ filter (\<lambda>r. rq_qos_profile_id r = pid) (in_pending st1)
        = filter (\<lambda>r. rq_qos_profile_id r = pid) (in_pending st)"
    proof (cases "pid = p")
      case True
      then have "filter (\<lambda>r. rq_qos_profile_id r = pid) c = c"
        using claim_profile_homogeneous(1) [OF 2(1)] by (simp add: filter_id_conv)
      with c(1,3) True show ?thesis by simp
    next
      case False
      then have none: "filter (\<lambda>r. rq_qos_profile_id r = pid) c = []"
        using claim_profile_homogeneous(1) [OF 2(1)] by (simp add: filter_empty_conv)
      show ?thesis
        using c(2) filter_other_key [OF False, of rq_qos_profile_id] by (metis none append_Nil)
    qed
    with c(4) st' 2(2,3) show ?thesis by simp
  qed
  then show "sd' = sd" and "mset (in_pending st') = mset (in_pending st)"
    and "st' = st\<lparr>in_pending := in_pending st'\<rparr>"
    and "filter (\<lambda>r. rq_qos_profile_id r = pid) (in_pending st')
      = filter (\<lambda>r. rq_qos_profile_id r = pid) (in_pending st)" by simp_all
qed

section \<open>A whole pass\<close>

lemma min_pending_le: "0 < sc_batch_size (cfg_solver cfg) \<Longrightarrow> min_pending_of cfg flush \<le> sc_batch_size (cfg_solver cfg)"
  by (simp add: min_pending_of_def)

text \<open>With counts that match the queue a claim fails only for want of a worker or a profile.\<close>

lemma dispatch_claim_fails:
  assumes "dispatch_claim cfg slot flush (pending_profile_counts st) st sd = (None, st', sd')"
    and "0 < sc_batch_size (cfg_solver cfg)"
  shows "st' = st" and "sd' = sd"
    and "max_workers cfg \<le> sd_active_workers sd
      \<or> \<not> list_ex (profile_eligible (sd_active_profiles sd) (sd_last_infeasible sd) slot (min_pending_of cfg flush))
            (pending_profile_counts st)"
proof -
  let ?next = "next_profile_to_dispatch (pending_profile_counts st) (sd_last_dispatched_profile sd)
      (sd_active_profiles sd) (sd_last_infeasible sd) slot (min_pending_of cfg flush)"
  have "max_workers cfg \<le> sd_active_workers sd \<or> ?next = None"
  proof (rule ccontr)
    assume "\<not> ?thesis"
    then obtain pid n where w: "\<not> max_workers cfg \<le> sd_active_workers sd" and nx: "?next = Some (pid, n)"
      by auto
    note e = next_profile_eligible [OF nx]
    let ?m = "min n (sc_batch_size (cfg_solver cfg))"
    obtain reqs st1 where cl: "claim_pending_requests_for_profile pid ?m st = (reqs, st1)" by fastforce
    have n: "0 < n" "n = length (filter (\<lambda>r. rq_qos_profile_id r = pid) (in_pending st))"
      using e(1) unfolding pending_counts_spec(2) by blast+
    have "length reqs = ?m" using claim_profile_spec(1) [OF cl] n(2) by simp
    then have "reqs \<noteq> []" "\<not> length reqs < min_pending_of cfg flush"
      using assms(2) n(1) e(2) min_pending_le [OF assms(2), of flush] by auto
    with assms(1) w nx cl show False by (simp add: dispatch_claim_def Let_def)
  qed
  then show "max_workers cfg \<le> sd_active_workers sd
      \<or> \<not> list_ex (profile_eligible (sd_active_profiles sd) (sd_last_infeasible sd) slot (min_pending_of cfg flush))
            (pending_profile_counts st)" unfolding next_profile_None_iff .
  from \<open>max_workers cfg \<le> sd_active_workers sd \<or> ?next = None\<close> assms(1)
  show "st' = st" and "sd' = sd"
    by (auto simp: dispatch_claim_def split: if_splits)
qed

definition claim_ok :: "config \<Rightarrow> bool \<Rightarrow> claim \<Rightarrow> bool" where
  "claim_ok cfg flush = (\<lambda>(pid, n, reqs).
     reqs \<noteq> [] \<and> length reqs \<le> sc_batch_size (cfg_solver cfg)
     \<and> (flush \<or> length reqs = sc_batch_size (cfg_solver cfg))
     \<and> list_all (\<lambda>r. rq_qos_profile_id r = pid) reqs)"

definition claimed_requests :: "claim list \<Rightarrow> request list" where
  "claimed_requests claims = concat (map (snd \<circ> snd) claims)"

lemma claimed_requests_simps [simp]:
  "claimed_requests [] = []"
  "claimed_requests (c # cs) = snd (snd c) @ claimed_requests cs"
  "claimed_requests (cs @ ds) = claimed_requests cs @ claimed_requests ds"
  by (simp_all add: claimed_requests_def)

text \<open>What a pass leaves, relative to the state it started from.\<close>

definition pass_result ::
    "config \<Rightarrow> slot \<Rightarrow> bool \<Rightarrow> inner \<Rightarrow> 'r scheduler_state \<Rightarrow> claim list \<Rightarrow> inner \<Rightarrow> 'r scheduler_state \<Rightarrow> bool" where
  "pass_result cfg slot flush st sd new st' sd' \<longleftrightarrow>
     sd_active_workers sd' = sd_active_workers sd + length new
     \<and> (new = [] \<or> sd_active_workers sd' \<le> max_workers cfg)
     \<and> distinct (map fst new) \<and> set (map fst new) \<inter> sd_active_profiles sd = {}
     \<and> sd_active_profiles sd' = sd_active_profiles sd \<union> set (map fst new)
     \<and> sd_last_infeasible sd' = sd_last_infeasible sd
     \<and> list_all (claim_ok cfg flush) new
     \<and> mset (claimed_requests new) + mset (in_pending st') = mset (in_pending st)
     \<and> st' = st\<lparr>in_pending := in_pending st'\<rparr>
     \<and> (max_workers cfg \<le> sd_active_workers sd'
        \<or> \<not> list_ex (profile_eligible (sd_active_profiles sd') (sd_last_infeasible sd') slot (min_pending_of cfg flush))
              (pending_profile_counts st'))"

lemma reserve_worker_sel [simp]:
  "sd_active_workers (reserve_worker pid sd) = sd_active_workers sd + 1"
  "sd_active_profiles (reserve_worker pid sd) = insert pid (sd_active_profiles sd)"
  "sd_last_infeasible (reserve_worker pid sd) = sd_last_infeasible sd"
  "sd_last_dispatched_profile (reserve_worker pid sd) = Some pid"
  "sd_recovery (reserve_worker pid sd) = sd_recovery sd"
  "sd_swarm_states (reserve_worker pid sd) = sd_swarm_states sd"
  "sd_capacity_tier_revision (reserve_worker pid sd) = sd_capacity_tier_revision sd"
  by (simp_all add: reserve_worker_def Let_def)

lemma pass_result_step:
  assumes "dispatch_claim cfg slot flush counts st sd = (Some (pid, n, reqs), st1, sd1)"
    and "pass_result cfg slot flush st1 sd1 new st' sd'"
  shows "pass_result cfg slot flush st sd ((pid, n, reqs) # new) st' sd'"
proof -
  note d = dispatch_claim_Some [OF assms(1)] and b = dispatch_claim_batch [OF assms(1)]
  obtain q where q: "st1 = st\<lparr>in_pending := q\<rparr>" using b(5) by blast
  have pr: "st' = st1\<lparr>in_pending := in_pending st'\<rparr>" using assms(2) by (simp add: pass_result_def)
  have st': "st' = st\<lparr>in_pending := in_pending st'\<rparr>" using pr unfolding q by simp
  have ok: "claim_ok cfg flush (pid, n, reqs)"
    using d(6) b(1-3) by (auto simp: claim_ok_def list_all_iff)
  have m: "mset (claimed_requests ((pid, n, reqs) # new)) + mset (in_pending st') = mset (in_pending st)"
    using assms(2) b(4) by (simp add: pass_result_def add.assoc)
  show ?thesis
    using assms(2) st' ok m d(1,2) unfolding pass_result_def d(8)
    by (auto simp: list_all_iff)
qed

lemma dispatch_pass_result:
  assumes "0 < sc_batch_size (cfg_solver cfg)"
    and "dispatch_pass cfg slot flush st sd claims = (out, st', sd')"
  shows "\<exists>new. out = claims @ new \<and> pass_result cfg slot flush st sd new st' sd'"
  using assms
proof (induction cfg slot flush st sd claims rule: dispatch_pass.induct [case_names pass])
  case (pass cfg slot flush st sd claims)
  obtain c st1 sd1 where claim: "dispatch_claim cfg slot flush (pending_profile_counts st) st sd = (c, st1, sd1)"
    by (metis prod_cases3)
  show ?case
  proof (cases c)
    case None
    note f = dispatch_claim_fails [OF claim [unfolded None] pass.prems(1)]
    have "out = claims" "st' = st" "sd' = sd"
      using pass.prems(2) claim None f(1,2) by (simp_all add: dispatch_pass.simps [of cfg slot flush st sd claims])
    then show ?thesis using f(3) by (simp add: pass_result_def)
  next
    case (Some cl)
    obtain pid n reqs where cl: "cl = (pid, n, reqs)" by (metis prod_cases3)
    have "dispatch_pass cfg slot flush st1 sd1 (claims @ [cl]) = (out, st', sd')"
      using pass.prems(2) claim Some by (simp add: dispatch_pass.simps [of cfg slot flush st sd claims])
    then obtain new where "out = (claims @ [cl]) @ new" "pass_result cfg slot flush st1 sd1 new st' sd'"
      using pass.IH [OF claim [symmetric] Some refl pass.prems(1)] by blast
    then show ?thesis
      using pass_result_step [OF claim [unfolded Some cl]] by (intro exI [of _ "cl # new"]) (simp add: cl)
  qed
qed


section \<open>Concrete dispatches\<close>

lemma round_robin_no_starvation_witness:
  "let counts = [(QosProfileId ''batch'', 9), (QosProfileId ''free'', 1), (QosProfileId ''gold'', 5)]
   in QosProfileId ''free'' \<in> set (round_robin_choices
        [(counts, {}, [], 3, 1), (counts, {QosProfileId ''gold''}, [], 3, 1),
         (counts, {}, [(QosProfileId ''batch'', (3, 9))], 3, 1)] (Some (QosProfileId ''free'')))"
proof -
  let ?counts = "[(QosProfileId ''batch'', 9), (QosProfileId ''free'', 1), (QosProfileId ''gold'', 5)]"
  let ?U = "{QosProfileId ''batch'', QosProfileId ''free'', QosProfileId ''gold''}"
  let ?in = "[(?counts, {}, [], 3, 1), (?counts, {QosProfileId ''gold''}, [], 3, 1),
         (?counts, {}, [(QosProfileId ''batch'', (3, 9))], 3, 1)]"
  have "QosProfileId ''free'' \<in> set (round_robin_choices ?in (Some (QosProfileId ''free'')))"
    by (rule round_robin_no_starvation [of ?U]) (simp_all add: profile_eligible_def)
  then show ?thesis by (simp only: Let_def)
qed


end
