(* ===== verification/Worker.thy ===== *)
theory Worker
  imports Dispatch
begin

text \<open>
  One worker of the scheduler (\<open>batch_worker_entry\<close> and its swarm variants in
  \<open>engine/scheduler.rs\<close>): the policy it builds, the solve/commit loop with its rollbacks, the
  bookkeeping after a commit and the three ways a batch ends. What the other threads do between
  two critical sections of the worker is an argument, one function per program point, so that every
  theorem holds under arbitrary interference within the stated limits. Logging and the wall-clock
  timestamps of the metrics rows are not modelled.
\<close>

section \<open>Jobs and their surroundings\<close>

record worker_job =
  wj_cfg :: config
  wj_slot :: slot
  wj_pending :: "request list"
  wj_policy :: assignment_policy
  wj_forecast :: "f64 list"
  wj_fdb :: "(string, f64) hmap"

type_synonym 'r world = "inner \<times> 'r scheduler_state"

text \<open>
  Per attempt \<open>k\<close> of the worker: the oracles of its solve, the time it took, and what the other
  threads do to the shared state at each point \<open>p\<close> between its critical sections.
\<close>

record 'r surroundings =
  su_oracles :: "nat \<Rightarrow> oracles"
  su_elapsed_ms :: "nat \<Rightarrow> f64"
  su_others :: "nat \<Rightarrow> nat \<Rightarrow> 'r world \<Rightarrow> 'r world"

definition capacity_tiers_or :: "capacity_tier list \<Rightarrow> shared_state \<Rightarrow> capacity_tier list" where
  "capacity_tiers_or configured ss =
     (case ss_capacity_tiers ss of Some tiers \<Rightarrow> tiers | None \<Rightarrow> configured)"

definition refresh_capacity_revision :: "nat \<Rightarrow> 'r scheduler_state \<Rightarrow> 'r scheduler_state" where
  "refresh_capacity_revision revision sd =
     (if sd_capacity_tier_revision sd \<noteq> revision
      then sd\<lparr>sd_swarm_states := [], sd_capacity_tier_revision := revision\<rparr> else sd)"

definition worker_policy :: "config \<Rightarrow> capacity_tier list \<Rightarrow> request list \<Rightarrow> assignment_policy" where
  "worker_policy cfg tiers pending =
     (case (case pending of [] \<Rightarrow> None | r # _ \<Rightarrow> rq_qos_profile r) of
        Some profile \<Rightarrow> assignment_policy_for_profile cfg profile
      | None \<Rightarrow> assignment_policy_of cfg)\<lparr>pol_capacity_tiers := tiers\<rparr>"

definition batch_context :: "worker_job \<Rightarrow> inner \<Rightarrow> recovery_state \<Rightarrow> batch_solve_context" where
  "batch_context job st recovery =
     \<lparr>bc_current_slot = wj_slot job, bc_pending = wj_pending job, bc_shared_state = st,
      bc_assignment = wj_policy job, bc_solver_config = cfg_solver (wj_cfg job),
      bc_simulation_config = cfg_simulation (wj_cfg job),
      bc_recovery_config = cfg_infeasibility (wj_cfg job), bc_recovery_state = recovery,
      bc_carbon_forecast = wj_forecast job, bc_flavour_duration_by_name = wj_fdb job\<rparr>"

text \<open>The occupancy the solver priced: its baseline and the batch, in the slots the batch uses.\<close>

definition expected_occupancy :: "assignment list \<Rightarrow> (slot, int) hmap \<Rightarrow> (slot, int) hmap" where
  "expected_occupancy as baseline =
     filter (\<lambda>(s, _). list_ex (\<lambda>a. as_scheduled_slot a = s) as) (count_slots as baseline)"

definition force_commit :: "config \<Rightarrow> nat \<Rightarrow> bool" where
  "force_commit cfg consecutive_rollbacks \<longleftrightarrow>
     sc_rollback_max_consecutive (cfg_solver cfg) = 0
     \<or> sc_rollback_max_consecutive (cfg_solver cfg) \<le> consecutive_rollbacks"

definition note_commit :: "nat \<Rightarrow> f64 \<Rightarrow> 'r scheduler_state \<Rightarrow> 'r scheduler_state" where
  "note_commit new_count elapsed_ms sd =
     (let stats = sd_stats sd
      in sd\<lparr>sd_stats := stats
        \<lparr>sst_solver_runs := sst_solver_runs stats + 1,
         sst_batches_processed := sst_batches_processed stats + 1,
         sst_total_scheduled := sst_total_scheduled stats + new_count,
         sst_solver_total_time_ms := sst_solver_total_time_ms stats + elapsed_ms,
         sst_solver_total_requests := sst_solver_total_requests stats + new_count,
         sst_last_solver_elapsed_ms := elapsed_ms\<rparr>\<rparr>)"

definition requeue_job :: "worker_job \<Rightarrow> 'r world \<Rightarrow> 'r world" where
  "requeue_job job = map_prod (requeue_pending_requests_front (wj_pending job)) id"

section \<open>The stateless strategies\<close>

text \<open>
  The loop of \<open>batch_worker_entry\<close>; \<open>k\<close> is \<open>consecutive_rollbacks\<close>. The answer is whether the
  batch was scheduled, the rollbacks it took, and the state it leaves.
\<close>

function batch_worker_loop ::
    "'r surroundings \<Rightarrow> worker_job \<Rightarrow> nat \<Rightarrow> 'r world \<Rightarrow> (bool \<times> nat \<times> 'r world) option" where
  "batch_worker_loop su job k (st, sd) =
     (case run_strategy (select_batch_solver (sc_solver_strategy (cfg_solver (wj_cfg job))))
             (su_oracles su k) (batch_context job st (sd_recovery sd)) of
        None \<Rightarrow> None
      | Some (res, recovery) \<Rightarrow>
         (let (st1, sd1) = su_others su k 0 (st, sd\<lparr>sd_recovery := recovery\<rparr>);
              as = br_assignments res
          in if as = [] then Some (False, k, requeue_job job (st1, sd1))
             else case try_add_assignments_checked as
                     (expected_occupancy as (br_baseline_slot_counts res))
                     (pol_capacity_tiers (wj_policy job)) (force_commit (wj_cfg job) k) k st1 of
               None \<Rightarrow> None
             | Some (RolledBack, st2) \<Rightarrow> batch_worker_loop su job (k + 1) (su_others su k 1 (st2, sd1))
             | Some (Committed, st2) \<Rightarrow>
                (let (st3, sd3) = su_others su k 2 (st2, sd1);
                     st4 = (if 0 < k then mark_requests_rolled_back (map rq_id (wj_pending job)) st3 else st3);
                     (st5, sd5) = su_others su k 3 (st4, sd3)
                 in Some (True, k, st5,
                      note_commit (length (wj_pending job)) (su_elapsed_ms su k) sd5))))"
  by pat_completeness auto

lemma rolled_back_not_forced:
  "try_add_assignments_checked as expected tiers force k st = Some (RolledBack, st') \<Longrightarrow>
   \<not> force \<and> breach_loop st as tiers expected \<and> st' = note_rollback k st"
  by (auto simp: try_add_assignments_checked_def split: if_splits)

lemma rolled_back_budget:
  "try_add_assignments_checked as expected tiers (force_commit cfg k) k st = Some (RolledBack, st') \<Longrightarrow>
   k < sc_rollback_max_consecutive (cfg_solver cfg)"
  by (drule rolled_back_not_forced) (simp add: force_commit_def)

termination batch_worker_loop
  by (relation "measure (\<lambda>(su, job, k, w). sc_rollback_max_consecutive (cfg_solver (wj_cfg job)) - k)")
    (auto dest: rolled_back_budget)

declare batch_worker_loop.simps [simp del]

section \<open>The swarm strategies\<close>

text \<open>The entry of a profile in the map of learned states, created on first use.\<close>

definition swarm_entry ::
    "'r rng \<Rightarrow> worker_job \<Rightarrow> qos_profile_id \<Rightarrow> 'r scheduler_state
     \<Rightarrow> ('r swarm_backend \<times> 'r scheduler_state) option" where
  "swarm_entry g job pid sd =
     (case map_of (sd_swarm_states sd) pid of
        Some backend \<Rightarrow> Some (backend, sd)
      | None \<Rightarrow>
          map_option (\<lambda>backend. (backend, sd\<lparr>sd_swarm_states := hm_insert pid backend (sd_swarm_states sd)\<rparr>))
            (backend_from_config g (cfg_solver (wj_cfg job)) (cfg_swarm (wj_cfg job)) (wj_policy job)
               (wj_forecast job)))"

definition retag :: "qos_profile_id \<Rightarrow> assignment list \<Rightarrow> assignment list" where
  "retag pid as = map (\<lambda>a. a\<lparr>as_qos_profile_id := pid\<rparr>) as"

definition try_commit_swarm_batch ::
    "assignment list \<Rightarrow> (slot, int) hmap \<Rightarrow> capacity_tier list \<Rightarrow> bool \<Rightarrow> nat \<Rightarrow> inner
     \<Rightarrow> (commit_outcome \<times> inner) option" where
  "try_commit_swarm_batch as baseline tiers force consecutive_rollbacks st =
     try_add_assignments_checked as (expected_occupancy as baseline) tiers force consecutive_rollbacks st"

definition finish_swarm_batch :: "nat \<Rightarrow> f64 \<Rightarrow> 'r world \<Rightarrow> 'r world" where
  "finish_swarm_batch new_count elapsed_ms = map_prod id (note_commit new_count elapsed_ms)"

text \<open>The serialized backend solves in place under the scheduler mutex.\<close>

definition batch_worker_swarm_serialized ::
    "'r rng \<Rightarrow> 'r surroundings \<Rightarrow> worker_job \<Rightarrow> qos_profile_id \<Rightarrow> 'r world
     \<Rightarrow> (bool \<times> nat \<times> 'r world) option" where
  "batch_worker_swarm_serialized g su job pid w =
     (let ctx = swarm_context_snapshot_for_profile (Some pid) (fst w);
          (st1, sd1) = su_others su 0 0 w
      in case swarm_entry g job pid sd1 of
        Some (Serialized swarm, sd2) \<Rightarrow>
         (case swarm_solve_batch g (or_now (su_oracles su 0)) (wj_pending job) (wj_slot job)
                 (wj_forecast job) ctx (wj_policy job) swarm of
            None \<Rightarrow> None
          | Some (as0, swarm') \<Rightarrow>
             (let sd3 = sd2\<lparr>sd_swarm_states := hm_insert pid (Serialized swarm') (sd_swarm_states sd2)\<rparr>;
                  as = retag pid as0;
                  (st4, sd4) = su_others su 0 1 (st1, sd3)
              in if as = [] then Some (False, 0, requeue_job job (st4, sd4))
                 else case try_commit_swarm_batch as (swc_slot_count ctx) (pol_capacity_tiers (wj_policy job))
                         (sc_rollback_max_consecutive (cfg_solver (wj_cfg job)) = 0) 0 st4 of
                   None \<Rightarrow> None
                 | Some (RolledBack, st5) \<Rightarrow>
                     Some (False, 1, requeue_job job (su_others su 0 2 (st5, sd4)))
                 | Some (Committed, st5) \<Rightarrow>
                     Some (True, 0, finish_swarm_batch (length as) (su_elapsed_ms su 0)
                        (su_others su 0 2 (st5, sd4)))))
      | _ \<Rightarrow> None)"

text \<open>The delta of a committed batch, merged if the profile's state is still there.\<close>

definition merge_committed ::
    "qos_profile_id \<Rightarrow> 'r swarm_delta \<Rightarrow> 'r scheduler_state \<Rightarrow> 'r scheduler_state option" where
  "merge_committed pid delta sd =
     (case map_of (sd_swarm_states sd) pid of
        Some (Merging swarm) \<Rightarrow>
          map_option (\<lambda>swarm'. sd\<lparr>sd_swarm_states := hm_insert pid (Merging swarm') (sd_swarm_states sd)\<rparr>)
            (swarm_merge_delta delta swarm)
      | _ \<Rightarrow> Some sd)"

text \<open>The merging backend snapshots under both locks, solves without a lock and retries.\<close>

function batch_worker_swarm_merge ::
    "'r rng \<Rightarrow> 'r surroundings \<Rightarrow> worker_job \<Rightarrow> qos_profile_id \<Rightarrow> nat \<Rightarrow> 'r world
     \<Rightarrow> (bool \<times> nat \<times> 'r world) option" where
  "batch_worker_swarm_merge g su job pid k (st, sd) =
     (case swarm_entry g job pid sd of
        Some (Merging swarm, sd1) \<Rightarrow>
         (let ctx = swarm_context_snapshot_for_profile (Some pid) st
          in case merge_swarm_solve_batch g (or_now (su_oracles su k)) (wj_pending job) (wj_slot job)
                   (wj_forecast job) ctx (wj_policy job) swarm of
            None \<Rightarrow> None
          | Some (as0, delta) \<Rightarrow>
             (let (st2, sd2) = su_others su k 0 (st, sd1); as = retag pid as0
              in if as = [] then Some (False, k, requeue_job job (st2, sd2))
                 else case try_commit_swarm_batch as (swc_slot_count ctx) (pol_capacity_tiers (wj_policy job))
                         (force_commit (wj_cfg job) k) k st2 of
                   None \<Rightarrow> None
                 | Some (RolledBack, st3) \<Rightarrow>
                     batch_worker_swarm_merge g su job pid (k + 1) (su_others su k 1 (st3, sd2))
                 | Some (Committed, st3) \<Rightarrow>
                    (let (st4, sd4) = su_others su k 2 (st3, sd2)
                     in case merge_committed pid delta sd4 of
                       None \<Rightarrow> None
                     | Some sd5 \<Rightarrow>
                         Some (True, k, finish_swarm_batch (length as) (su_elapsed_ms su k)
                           (su_others su k 3 (st4, sd5))))))
      | _ \<Rightarrow> None)"
  by pat_completeness auto

termination batch_worker_swarm_merge
  by (relation "measure (\<lambda>(g, su, job, pid, k, w). sc_rollback_max_consecutive (cfg_solver (wj_cfg job)) - k)")
    (auto simp: try_commit_swarm_batch_def dest: rolled_back_budget)

declare batch_worker_swarm_merge.simps [simp del]

definition batch_worker_entry_swarm ::
    "'r rng \<Rightarrow> 'r surroundings \<Rightarrow> worker_job \<Rightarrow> qos_profile_id \<Rightarrow> 'r world
     \<Rightarrow> (bool \<times> nat \<times> 'r world) option" where
  "batch_worker_entry_swarm g su job pid w =
     (if sw_mode (cfg_swarm (wj_cfg job)) = ''merge''
      then batch_worker_swarm_merge g su job pid 0 w
      else batch_worker_swarm_serialized g su job pid w)"

section \<open>The worker\<close>

text \<open>
  The read guard on the tiers is held throughout, so the tiers and their revision are those of the
  state \<open>ss\<close> at the start; the mutable part of it is the world. The closure around the worker
  releases the reservation (\<open>run_worker\<close>).
\<close>

definition worker_job_of ::
    "config \<Rightarrow> slot \<Rightarrow> f64 list \<Rightarrow> (string, f64) hmap \<Rightarrow> shared_state \<Rightarrow> request list \<Rightarrow> worker_job" where
  "worker_job_of cfg slot forecast fdb ss pending =
     \<lparr>wj_cfg = cfg, wj_slot = slot, wj_pending = pending,
      wj_policy = worker_policy cfg (capacity_tiers_or (cfg_capacity_tiers cfg) ss) pending,
      wj_forecast = forecast, wj_fdb = fdb\<rparr>"

definition batch_worker_entry ::
    "'r rng \<Rightarrow> 'r surroundings \<Rightarrow> shared_state \<Rightarrow> worker_job \<Rightarrow> 'r world \<Rightarrow> (bool \<times> nat \<times> 'r world) option" where
  "batch_worker_entry g su ss job w =
     (let w' = map_prod id (refresh_capacity_revision (capacity_tier_revision ss)) w
      in if is_online_swarm_strategy (sc_solver_strategy (cfg_solver (wj_cfg job)))
         then batch_worker_entry_swarm g su job (batch_profile (wj_pending job)) w'
         else batch_worker_loop su job 0 w')"

definition run_worker ::
    "'r rng \<Rightarrow> 'r surroundings \<Rightarrow> shared_state \<Rightarrow> worker_job \<Rightarrow> qos_profile_id \<Rightarrow> nat \<Rightarrow> 'r world \<Rightarrow> 'r world option" where
  "run_worker g su ss job pid profile_pending_count w =
     map_option (\<lambda>(scheduled, _, st, sd).
         (st, release_worker pid (wj_slot job) profile_pending_count scheduled sd))
       (batch_worker_entry g su ss job w)"

section \<open>What the worker needs of the others\<close>

definition job_ok :: "worker_job \<Rightarrow> bool" where
  "job_ok job \<longleftrightarrow>
     in_i32 (pol_total_slots (wj_policy job))
     \<and> int (length (wj_forecast job)) = pol_total_slots (wj_policy job)
     \<and> 0 \<le> wj_slot job \<and> pol_flavours (wj_policy job) \<noteq> []
     \<and> list_all (\<lambda>r. case rq_qos_profile r of None \<Rightarrow> True | Some p \<Rightarrow> qp_flavours p \<noteq> []) (wj_pending job)
     \<and> distinct (map rq_id (wj_pending job))"

text \<open>Before the commit: the accounting invariant, and no claimed request is live.\<close>

definition unclaimed :: "worker_job \<Rightarrow> inner \<Rightarrow> bool" where
  "unclaimed job st \<longleftrightarrow>
     inner_inv st \<and> set (map rq_id (wj_pending job)) \<inter> dom (map_of (in_assignments st)) = {}"

text \<open>After it: the invariant, and every claimed request is live inside its bounds.\<close>

definition landed :: "worker_job \<Rightarrow> inner \<Rightarrow> bool" where
  "landed job st \<longleftrightarrow>
     inner_inv st \<and> list_all (\<lambda>r. case map_of (in_assignments st) (rq_id r) of
         None \<Rightarrow> False
       | Some a \<Rightarrow> max (rq_arrival_slot r) (wj_slot job) \<le> as_scheduled_slot a
           \<and> as_scheduled_slot a \<le> max (rq_deadline_slot r) (wj_slot job)) (wj_pending job)"

text \<open>The other threads keep the one before the commit and the other after it.\<close>

definition others_ok :: "worker_job \<Rightarrow> 'r surroundings \<Rightarrow> bool" where
  "others_ok job su \<longleftrightarrow>
     (\<forall>k p w. (unclaimed job (fst w) \<longrightarrow> unclaimed job (fst (su_others su k p w)))
        \<and> (landed job (fst w) \<longrightarrow> landed job (fst (su_others su k p w))))
     \<and> (\<forall>k. valid_order (or_order (su_oracles su k)))"

lemma others_okD:
  assumes "others_ok job su" and "su_others su k p w = (st', sd')"
  shows "unclaimed job (fst w) \<Longrightarrow> unclaimed job st'" and "landed job (fst w) \<Longrightarrow> landed job st'"
  using assms by (metis fst_conv others_ok_def)+

lemma batch_context_ok:
  "job_ok job \<Longrightarrow> unclaimed job st \<Longrightarrow> others_ok job su \<Longrightarrow>
   dp_context_ok (su_oracles su k) (batch_context job st recovery)"
  by (simp add: dp_context_ok_def context_ok_def batch_context_def job_ok_def unclaimed_def others_ok_def)

lemma unclaimed_rollback [simp]: "unclaimed job (note_rollback k st) = unclaimed job st"
  by (simp add: unclaimed_def note_rollback_def [THEN arg_cong [of _ _ in_assignments]])

lemma unclaimed_requeue [simp]: "unclaimed job (requeue_pending_requests_front rs st) = unclaimed job st"
  by (simp add: unclaimed_def requeue_pending_requests_front_def [THEN arg_cong [of _ _ in_assignments]])

lemma landed_mark [simp]: "landed job (mark_requests_rolled_back is st) = landed job st"
  by (simp add: landed_def mark_requests_rolled_back_def [THEN arg_cong [of _ _ in_assignments]])

lemma requeue_job_front:
  "requeue_job job (st, sd) = (st', sd') \<Longrightarrow>
     take (length (wj_pending job)) (in_pending st') = wj_pending job"
  by (auto simp: requeue_job_def)

lemma requeue_job_unclaimed:
  "requeue_job job (st, sd) = (st', sd') \<Longrightarrow> unclaimed job st \<Longrightarrow> unclaimed job st'"
  by (auto simp: requeue_job_def)

text \<open>A commit that is not rolled back records the whole batch.\<close>

lemma committed_records:
  "try_add_assignments_checked as expected tiers force k st = Some (Committed, st') \<Longrightarrow>
   record_all st as = Some st'"
  by (auto simp: try_add_assignments_checked_def split: if_splits)

lemma commit_total:
  assumes "inner_inv st"
  obtains outcome st' where "try_add_assignments_checked as expected tiers force k st = Some (outcome, st')"
proof -
  obtain st1 where "record_all st as = Some st1" using record_all_step [OF assms] .
  with that show thesis
    by (cases "\<not> force \<and> breach_loop st as tiers expected") (simp_all add: try_add_assignments_checked_def)
qed

lemma commit_lands:
  assumes "job_ok job" and "unclaimed job st" and "others_ok job su"
    and "run_strategy strat (su_oracles su k) (batch_context job st recovery) = Some (res, recovery')"
    and "br_assignments res \<noteq> []" and "inner_inv st1"
    and "record_all st1 (br_assignments res) = Some st'"
  shows "landed job st'"
proof -
  note ok = batch_context_ok [OF assms(1-3)]
  have "\<exists>a. map_of (in_assignments st') (rq_id r) = Some a
      \<and> max (rq_arrival_slot r) (wj_slot job) \<le> as_scheduled_slot a
      \<and> as_scheduled_slot a \<le> max (rq_deadline_slot r) (wj_slot job)"
    if r: "r \<in> set (wj_pending job)" for r
  proof -
    have "r \<in> set (bc_pending (batch_context job st recovery))" using r by (simp add: batch_context_def)
    from strategy.committed_batch [OF ok assms(4,5,7) this] r show ?thesis
      by (auto simp: within_bounds_def list_all_iff batch_context_def)
  qed
  with record_all_inv [OF assms(6,7)] show ?thesis
    by (fastforce simp: landed_def list_all_iff)
qed

text \<open>One attempt of the loop, by its outcome.\<close>

lemma batch_worker_loop_cases:
  assumes "job_ok job" and "unclaimed job st" and "others_ok job su"
  obtains (infeasible) st1 sd1 where "unclaimed job st1"
      "batch_worker_loop su job k (st, sd) = Some (False, k, requeue_job job (st1, sd1))"
  | (rolled_back) st1 sd1 where "unclaimed job st1" "k < sc_rollback_max_consecutive (cfg_solver (wj_cfg job))"
      "batch_worker_loop su job k (st, sd) = batch_worker_loop su job (k + 1) (st1, sd1)"
  | (committed) st1 sd1 where "landed job st1"
      "batch_worker_loop su job k (st, sd) = Some (True, k, (st1, sd1))"
proof -
  note ok = batch_context_ok [OF assms, of k "sd_recovery sd"]
  let ?strat = "select_batch_solver (sc_solver_strategy (cfg_solver (wj_cfg job)))"
  obtain res rec where run: "run_strategy ?strat (su_oracles su k) (batch_context job st (sd_recovery sd))
      = Some (res, rec)" using strategy.solve_total [OF ok] by blast
  obtain st1 sd1 where o: "su_others su k 0 (st, sd\<lparr>sd_recovery := rec\<rparr>) = (st1, sd1)" by fastforce
  have u1: "unclaimed job st1" using others_okD(1) [OF assms(3) o] assms(2) by simp
  let ?as = "br_assignments res" and ?force = "force_commit (wj_cfg job) k"
  let ?exp = "expected_occupancy ?as (br_baseline_slot_counts res)"
  let ?tiers = "pol_capacity_tiers (wj_policy job)"
  note unfold = batch_worker_loop.simps [of su job k st sd] run o
  show thesis
  proof (cases "?as = []")
    case True
    then show thesis using infeasible [OF u1] by (simp add: unfold)
  next
    case False
    have inv1: "inner_inv st1" using u1 by (simp add: unclaimed_def)
    then obtain out st2 where t: "try_add_assignments_checked ?as ?exp ?tiers ?force k st1 = Some (out, st2)"
      using commit_total by blast
    show thesis
    proof (cases out)
      case RolledBack
      have st2: "st2 = note_rollback k st1" and lt: "k < sc_rollback_max_consecutive (cfg_solver (wj_cfg job))"
        using rolled_back_not_forced rolled_back_budget t RolledBack by blast+
      obtain st3 sd3 where o3: "su_others su k 1 (st2, sd1) = (st3, sd3)" by fastforce
      have "unclaimed job st3" using others_okD(1) [OF assms(3) o3] u1 by (simp add: st2)
      then show thesis using rolled_back [OF _ lt] False RolledBack t o3 by (simp add: unfold)
    next
      case Committed
      have "landed job st2"
        using commit_lands [OF assms run False inv1] committed_records t Committed by blast
      obtain st3 sd3 where o3: "su_others su k 2 (st2, sd1) = (st3, sd3)" by fastforce
      define st4 where "st4 = (if 0 < k then mark_requests_rolled_back (map rq_id (wj_pending job)) st3 else st3)"
      obtain st5 sd5 where o5: "su_others su k 3 (st4, sd3) = (st5, sd5)" by fastforce
      have "landed job st3" using others_okD(2) [OF assms(3) o3] \<open>landed job st2\<close> by simp
      then have "landed job st4" by (simp add: st4_def)
      then have "landed job st5" using others_okD(2) [OF assms(3) o5] by simp
      then show thesis
        using committed False Committed t o3 o5
        by (simp add: unfold st4_def [symmetric])
    qed
  qed
qed

text \<open>
  C7: Every batch ends, scheduled or back in the queue. Whatever the other threads do to the
  shared state between the steps of the worker, as long as they keep the accounting invariant,
  leave the claimed requests alone before the commit and keep them in their bounds after it, the
  worker terminates without a panic after at most \<open>rollback_max_consecutive\<close> rollbacks. If it reports
  success, every claimed request is live between its arrival (or the current slot) and its
  deadline; if not, none is live and the batch stands at the front of the queue in its order.
\<close>

theorem worker_schedules_or_requeues:
  assumes "job_ok job" and "unclaimed job st" and "others_ok job su"
    and "k \<le> sc_rollback_max_consecutive (cfg_solver (wj_cfg job))"
  shows "case batch_worker_loop su job k (st, sd) of
      None \<Rightarrow> False
    | Some (scheduled, rollbacks, st', sd') \<Rightarrow>
        rollbacks \<le> sc_rollback_max_consecutive (cfg_solver (wj_cfg job))
        \<and> (if scheduled then landed job st'
           else unclaimed job st' \<and> take (length (wj_pending job)) (in_pending st') = wj_pending job)"
  using assms(2,4)
proof (induction "sc_rollback_max_consecutive (cfg_solver (wj_cfg job)) - k" arbitrary: k st sd rule: less_induct)
  case less
  show ?case
  proof (cases rule: batch_worker_loop_cases [OF assms(1) less.prems(1) assms(3), of k sd,
        case_names infeasible rolled_back committed])
    case (infeasible st1 sd1)
    obtain st2 sd2 where "requeue_job job (st1, sd1) = (st2, sd2)" by fastforce
    with infeasible less.prems(2) requeue_job_front requeue_job_unclaimed show ?thesis by fastforce
  next
    case (rolled_back st1 sd1)
    with less.hyps [of "k + 1" st1 sd1] show ?thesis by simp
  next
    case (committed st1 sd1)
    with less.prems(2) show ?thesis by simp
  qed
qed

section \<open>When a commit rolls back\<close>

definition occupancy :: "slot \<Rightarrow> inner \<Rightarrow> int" where
  "occupancy s st = count_in_slot s (hm_values (in_assignments st))"

definition counted :: "(slot, int) hmap \<Rightarrow> slot \<Rightarrow> int" where
  "counted m s = (case map_of m s of None \<Rightarrow> 0 | Some n \<Rightarrow> n)"

lemma count_slots_counted: "counted (count_slots as m) s = counted m s + count_in_slot s as"
proof (induction as arbitrary: m)
  case (Cons a as)
  have "counted (hm_entry (as_scheduled_slot a) 0 (\<lambda>n. n + 1) m) s = counted m s + count_in_slot s [a]"
    by (simp add: counted_def map_simps count_in_slot_single split: option.split)
  then show ?case by (simp add: Cons.IH count_in_slot_Cons [of s a as])
qed (simp add: count_in_slot_def)

lemma count_slots_wf [simp]: "hm_wf m \<Longrightarrow> hm_wf (count_slots as m)"
  by (induction as arbitrary: m) auto

lemma expected_occupancy_mem:
  assumes "hm_wf base" and "(s, e) \<in> set (expected_occupancy as base)"
  shows "e = counted base s + count_in_slot s as" and "\<exists>a\<in>set as. as_scheduled_slot a = s"
proof -
  have "map_of (count_slots as base) s = Some e"
    using assms by (simp add: expected_occupancy_def hm_binding_iff [symmetric])
  then have "counted (count_slots as base) s = e" by (simp add: counted_def)
  then show "e = counted base s + count_in_slot s as" by (simp add: count_slots_counted)
  show "\<exists>a\<in>set as. as_scheduled_slot a = s"
    using assms(2) by (auto simp: expected_occupancy_def list_ex_iff)
qed

text \<open>No slot breaches if the baseline still covers the slots of the batch.\<close>

lemma covered_no_breach:
  assumes "hm_wf base" and "\<And>a. a \<in> set as \<Longrightarrow> occupancy (as_scheduled_slot a) st \<le> counted base (as_scheduled_slot a)"
  shows "\<not> breach_loop st as tiers (expected_occupancy as base)"
proof -
  have "\<not> slot_breaches st as tiers (s, e)" if e: "(s, e) \<in> set (expected_occupancy as base)" for s e
  proof -
    obtain a where "a \<in> set as" "as_scheduled_slot a = s" using expected_occupancy_mem(2) [OF assms(1) e] by blast
    with assms(2) have "occupancy s st \<le> counted base s" by blast
    then show ?thesis
      unfolding slot_breaches_def Let_def prod.case expected_occupancy_mem(1) [OF assms(1) e] occupancy_def
      by linarith
  qed
  then show ?thesis by (auto simp: breach_loop_iff)
qed

text \<open>What the other threads do at point \<open>p\<close> of attempt \<open>k\<close> adds no assignment to any slot.\<close>

definition adds_none :: "'r surroundings \<Rightarrow> nat \<Rightarrow> nat \<Rightarrow> bool" where
  "adds_none su k p \<longleftrightarrow> (\<forall>w s. occupancy s (fst (su_others su k p w)) \<le> occupancy s (fst w))"

lemma adds_noneD:
  "adds_none su k p \<Longrightarrow> su_others su k p (st, sd) = (st', sd') \<Longrightarrow> occupancy s st' \<le> occupancy s st"
  unfolding adds_none_def by (metis fst_conv)

lemma run_strategy_answer:
  assumes "dp_context_ok orc ctx"
  shows "strategy_answer orc ctx (run_strategy strat orc ctx)"
  using assms solve_dp_answer solve_greedy_singleton_answer
  by (cases strat) (simp_all add: dp_context_ok_def)

lemma finish_solve_baseline [simp]:
  "br_baseline_slot_counts (fst (finish_solve ctx prep rs as status mode)) = ps_baseline_slot_counts prep"
  by (simp add: finish_solve_def Let_def case_prod_unfold)

lemma filter_later_slots:
  "cur \<le> s \<Longrightarrow> filter (\<lambda>a. cur \<le> as_scheduled_slot a \<and> as_scheduled_slot a = s) as
     = filter (\<lambda>a. as_scheduled_slot a = s) as"
  by (induction as) auto

lemma count_in_slot_split:
  "count_in_slot s (filter (\<lambda>a. \<not> P a) as @ filter P as) = count_in_slot s as"
  by (induction as) (simp_all add: count_in_slot_def)

text \<open>With locked future assignments the baseline counts every live assignment from now on.\<close>

lemma locked_baseline:
  assumes "prepare_solve orc ctx = (prep, rs)" and "sc_dp_lock_future_assignments (bc_solver_config ctx)"
    and "bc_current_slot ctx \<le> s"
  shows "hm_wf (ps_baseline_slot_counts prep)"
    and "counted (ps_baseline_slot_counts prep) s = occupancy s (bc_shared_state ctx)"
proof -
  let ?fut = "snap_get_future_assignments (snapshot_for_solver (bc_shared_state ctx)) (bc_current_slot ctx)"
  let ?mine = "\<lambda>a. as_qos_profile_id a = batch_profile (bc_pending ctx)"
  have base: "ps_baseline_slot_counts prep = count_slots (filter (\<lambda>a. \<not> ?mine a) ?fut @ filter ?mine ?fut) []"
    using assms(1,2) by (auto simp: prepare_solve_def Let_def case_prod_unfold)
  then show "hm_wf (ps_baseline_slot_counts prep)" by simp
  have "count_in_slot s (filter (\<lambda>a. \<not> ?mine a) ?fut @ filter ?mine ?fut) = count_in_slot s ?fut"
    by (rule count_in_slot_split)
  also have "\<dots> = occupancy s (bc_shared_state ctx)"
    by (simp add: count_in_slot_def occupancy_def snap_get_future_assignments_def snapshot_for_solver_def
        filter_later_slots [OF assms(3)])
  finally show "counted (ps_baseline_slot_counts prep) s = occupancy s (bc_shared_state ctx)"
    unfolding base count_slots_counted by (simp add: counted_def)
qed

lemma locked_answer_baseline:
  assumes "dp_context_ok orc ctx" and "run_strategy strat orc ctx = Some (res, rs)"
    and "sc_dp_lock_future_assignments (bc_solver_config ctx)" and "br_assignments res \<noteq> []"
  shows "hm_wf (br_baseline_slot_counts res)"
    and "a \<in> set (br_assignments res) \<Longrightarrow>
      counted (br_baseline_slot_counts res) (as_scheduled_slot a)
        = occupancy (as_scheduled_slot a) (bc_shared_state ctx)"
proof -
  obtain prep rs0 where prep: "prepare_solve orc ctx = (prep, rs0)" by fastforce
  have "br_baseline_slot_counts res = ps_baseline_slot_counts prep"
    using run_strategy_answer [OF assms(1), of strat] assms(2,4)
    unfolding strategy_answer_def prep Let_def prod.case infeasible_result_def
    by (auto dest!: arg_cong [of _ _ fst] simp: finish_solve_baseline [symmetric])
  then show "hm_wf (br_baseline_slot_counts res)"
    and "a \<in> set (br_assignments res) \<Longrightarrow>
      counted (br_baseline_slot_counts res) (as_scheduled_slot a)
        = occupancy (as_scheduled_slot a) (bc_shared_state ctx)"
    using locked_baseline [OF prep assms(3)] strategy.solve_bounds [OF assms(1,2)]
    by (auto simp: within_bounds_def)
qed

text \<open>
  Rollbacks come from contention only. With locked future assignments, a worker whose slots
  nobody fills between the snapshot and the commit of its first attempt never rolls back: the
  batch is committed by that attempt or the solver found no placement.
\<close>

theorem uncontended_worker_never_rolls_back:
  assumes "job_ok job" and "unclaimed job st" and "others_ok job su" and "adds_none su 0 0"
    and "sc_dp_lock_future_assignments (cfg_solver (wj_cfg job))"
  shows "case batch_worker_loop su job 0 (st, sd) of
      None \<Rightarrow> False | Some (scheduled, rollbacks, w) \<Rightarrow> rollbacks = 0"
proof -
  let ?ctx = "batch_context job st (sd_recovery sd)"
  let ?strat = "select_batch_solver (sc_solver_strategy (cfg_solver (wj_cfg job)))"
  note ok = batch_context_ok [OF assms(1-3), of 0 "sd_recovery sd"]
  obtain res rec where run: "run_strategy ?strat (su_oracles su 0) ?ctx = Some (res, rec)"
    using strategy.solve_total [OF ok] by blast
  obtain st1 sd1 where o: "su_others su 0 0 (st, sd\<lparr>sd_recovery := rec\<rparr>) = (st1, sd1)" by fastforce
  have inv1: "inner_inv st1" using others_okD(1) [OF assms(3) o] assms(2) by (simp add: unclaimed_def)
  note unfold = batch_worker_loop.simps [of su job 0 st sd] run o
  show ?thesis
  proof (cases "br_assignments res = []")
    case True
    then show ?thesis by (simp add: unfold)
  next
    case False
    have lock: "sc_dp_lock_future_assignments (bc_solver_config ?ctx)"
      using assms(5) by (simp add: batch_context_def)
    note base = locked_answer_baseline [OF ok run lock False]
    have "\<not> breach_loop st1 (br_assignments res) (pol_capacity_tiers (wj_policy job))
        (expected_occupancy (br_assignments res) (br_baseline_slot_counts res))"
      using base adds_noneD [OF assms(4) o]
      by (intro covered_no_breach) (simp_all add: batch_context_def)
    moreover obtain st2 where "record_all st1 (br_assignments res) = Some st2"
      using record_all_step [OF inv1] .
    ultimately show ?thesis
      using False by (simp add: unfold try_add_assignments_checked_def split: prod.split)
  qed
qed

section \<open>Re-planned requests and the check\<close>

lemma single_id_sum:
  assumes "hm_wf m" and "\<forall>(i, a)\<in>set m. as_request_id a = i"
  shows "hm_sum (\<lambda>a. if P a \<and> as_request_id a = i then 1 else 0) m
    = (case map_of m i of None \<Rightarrow> 0 | Some a \<Rightarrow> if P a then 1 else (0 :: int))"
  using assms
proof (induction m)
  case (Cons ka m)
  obtain k a where ka: "ka = (k, a)" by (cases ka)
  have "map_of m i = None" if "i = k"
    using Cons.prems(1) that by (simp add: ka hm_wf_def map_of_eq_None_iff)
  with Cons show ?case by (auto simp: ka hm_wf_def hm_sum_def hm_values_def split: option.splits)
qed (simp add: hm_sum_def hm_values_def)

text \<open>The live assignments of slot \<open>s\<close> that a batch with identifiers \<open>I\<close> re-plans.\<close>

definition replanned_in :: "slot \<Rightarrow> request_id set \<Rightarrow> inner \<Rightarrow> int" where
  "replanned_in s I st = count_in_slot s (filter (\<lambda>a. as_request_id a \<in> I) (hm_values (in_assignments st)))"

lemma replanned_in_sum:
  "replanned_in s I st
     = hm_sum (\<lambda>a. if as_scheduled_slot a = s \<and> as_request_id a \<in> I then 1 else 0) (in_assignments st)"
  by (simp add: replanned_in_def count_in_slot_def hm_sum_indicator filter_filter conj_commute)

lemma replanned_in_insert:
  assumes "inner_inv st" and "i \<notin> I"
  shows "replanned_in s (insert i I) st = replanned_in s I st
    + (case map_of (in_assignments st) i of None \<Rightarrow> 0 | Some a \<Rightarrow> if as_scheduled_slot a = s then 1 else 0)"
proof -
  have wf: "hm_wf (in_assignments st)" using assms(1) by (simp add: inner_inv_def)
  have keys: "\<forall>(i, a)\<in>set (in_assignments st). as_request_id a = i"
    using assms(1) wf by (auto simp: inner_inv_def hm_binding_iff)
  have "replanned_in s (insert i I) st = replanned_in s I st
      + hm_sum (\<lambda>a. if as_scheduled_slot a = s \<and> as_request_id a = i then 1 else 0) (in_assignments st)"
    unfolding replanned_in_sum hm_sum_def using assms(2)
    by (induction "hm_values (in_assignments st)") (auto simp: sum_list_addf [symmetric] intro!: arg_cong [of _ _ sum_list])
  then show ?thesis by (simp add: single_id_sum [OF wf keys])
qed

lemma replanned_in_record:
  assumes inv: "inner_inv st" and rec: "record_assignment st a = Some st1" and "as_request_id a \<notin> I"
  shows "replanned_in s I st1 = replanned_in s I st"
    and "occupancy s st1 = occupancy s st + count_in_slot s [a]
      - (replanned_in s (insert (as_request_id a) I) st - replanned_in s I st)"
proof -
  have wf: "hm_wf (in_assignments st)" using inv by (simp add: inner_inv_def)
  obtain p where m: "in_assignments st1 = hm_insert (as_request_id a) (a\<lparr>as_qos_profile_id := p\<rparr>) (in_assignments st)"
    using record_assignment_assignments [OF rec] .
  have id: "as_request_id b = as_request_id a" if "map_of (in_assignments st) (as_request_id a) = Some b" for b
    using inv that by (simp add: inner_inv_def)
  show "replanned_in s I st1 = replanned_in s I st"
    unfolding replanned_in_sum m hm_sum_insert [OF wf] using assms(3)
    by (cases "map_of (in_assignments st) (as_request_id a)") (auto dest: id)
  show "occupancy s st1 = occupancy s st + count_in_slot s [a]
      - (replanned_in s (insert (as_request_id a) I) st - replanned_in s I st)"
    unfolding occupancy_def count_in_slot_hm m hm_sum_insert [OF wf] replanned_in_insert [OF inv assms(3)]
    by (auto simp: count_in_slot_single split: option.split)
qed

lemma record_all_replanned:
  assumes "inner_inv st" and "record_all st as = Some st'" and "distinct (map as_request_id as)"
  shows "occupancy s st' = occupancy s st + count_in_slot s as
    - replanned_in s (set (map as_request_id as)) st"
  using assms
proof (induction as arbitrary: st)
  case Nil
  then show ?case by (simp add: replanned_in_def count_in_slot_def)
next
  case (Cons a as)
  obtain st1 where st1: "record_assignment st a = Some st1" "record_all st1 as = Some st'"
    using Cons.prems(2) by (auto split: option.splits)
  have inv1: "inner_inv st1"
    using record_assignment_step [OF Cons.prems(1), of a] st1(1) by (metis option.inject)
  let ?I = "set (map as_request_id as)"
  have fresh: "as_request_id a \<notin> ?I" using Cons.prems(3) by simp
  note r = replanned_in_record [OF Cons.prems(1) st1(1) fresh, of s]
  have "occupancy s st' = occupancy s st1 + count_in_slot s as - replanned_in s ?I st1"
    using Cons.IH [OF inv1 st1(2)] Cons.prems(3) by simp
  then show ?case using r count_in_slot_Cons [of s a as] by simp
qed

text \<open>
  The commit check counts re-planned requests twice. The occupancy it compares with the
  expected one is the occupancy the commit would really leave plus the number of live assignments
  the batch replaces in the slot. It is exact for a batch of new requests, and too high by one for
  every re-planned request that stays in its slot, so such a batch can be rolled back although no
  slot would exceed what the solver expected.
\<close>

theorem replanned_requests_counted_twice:
  assumes "inner_inv st" and "record_all st as = Some st'" and "distinct (map as_request_id as)"
  shows "count_in_slot s (hm_values (in_assignments st)) + count_in_slot s as
    = count_in_slot s (hm_values (in_assignments st'))
      + replanned_in s (set (map as_request_id as)) st"
  using record_all_replanned [OF assms, of s] by (simp add: occupancy_def)

section \<open>Concrete workers\<close>

abbreviation quiet_surroundings :: "unit surroundings" where
  "quiet_surroundings \<equiv>
     \<lparr>su_oracles = (\<lambda>_. sample_oracles), su_elapsed_ms = (\<lambda>_. 1), su_others = (\<lambda>k p w. w)\<rparr>"

text \<open>Others add a request at every point: interference the worker tolerates.\<close>

abbreviation busy_surroundings :: "unit surroundings" where
  "busy_surroundings \<equiv>
     \<lparr>su_oracles = (\<lambda>_. sample_oracles), su_elapsed_ms = (\<lambda>_. 1),
      su_others = (\<lambda>k p. map_prod (add_request (request_new 1 9 1 4)) id)\<rparr>"

definition sample_job :: worker_job where
  "sample_job = worker_job_of config_default 0 (replicate 24 1) [] shared_state_new [request_new 0 7 0 5]"

lemma add_request_assignments [simp]: "in_assignments (add_request r st) = in_assignments st"
  by (simp add: add_request_def)

lemma inner_new_assignments [simp]: "in_assignments inner_new = []"
  by (simp add: inner_new_def)

lemma sample_job_sel [simp]:
  "wj_pending sample_job = [request_new 0 7 0 5]" "wj_cfg sample_job = config_default"
  "wj_slot sample_job = 0" "wj_forecast sample_job = replicate 24 1"
  "pol_total_slots (wj_policy sample_job) = 24" "pol_flavours (wj_policy sample_job) \<noteq> []"
  by (simp_all add: sample_job_def worker_job_of_def worker_policy_def assignment_policy_of_def config_default_def request_new_def)

lemma sample_job_ok: "job_ok sample_job" "unclaimed sample_job inner_new"
  by (simp_all add: job_ok_def unclaimed_def in_i32_def request_new_def)

lemma others_ok_samples:
  "others_ok job quiet_surroundings" "others_ok job busy_surroundings"
  by (simp_all add: others_ok_def unclaimed_def landed_def sample_oracles_def valid_order_def)

lemma adds_none_samples: "adds_none quiet_surroundings k p" "adds_none busy_surroundings k p"
  by (simp_all add: adds_none_def occupancy_def)

lemma worker_schedules_or_requeues_witness:
  "case batch_worker_loop busy_surroundings sample_job 0 (inner_new, scheduler_state_new 0) of
      None \<Rightarrow> False
    | Some (scheduled, rollbacks, st', sd') \<Rightarrow>
        rollbacks = 0
        \<and> (if scheduled then landed sample_job st'
           else unclaimed sample_job st' \<and> take 1 (in_pending st') = [request_new 0 7 0 5])"
  using worker_schedules_or_requeues [OF sample_job_ok others_ok_samples(2), of 0 "scheduler_state_new 0"]
  by (auto simp: config_default_def solver_config_default_def split: option.splits prod.splits if_splits)

lemma uncontended_worker_never_rolls_back_witness:
  "case batch_worker_loop busy_surroundings sample_job 0 (inner_new, scheduler_state_new 0) of
      None \<Rightarrow> False | Some (scheduled, rollbacks, w) \<Rightarrow> rollbacks = 0"
proof -
  have "sc_dp_lock_future_assignments (cfg_solver (wj_cfg sample_job))"
    by (simp add: config_default_def solver_config_default_def)
  from uncontended_worker_never_rolls_back [OF sample_job_ok others_ok_samples(2) adds_none_samples(2) this]
  show ?thesis .
qed

text \<open>A re-planned request that stays in its slot: the check sees two requests where one will be.\<close>

lemma replanned_requests_counted_twice_witness:
  "let a = assignment_new 0 7 3 ''Fast'' 1 5 10 None None;
       st = the (record_all inner_new [a]); st' = the (record_all st [a])
   in count_in_slot 3 (hm_values (in_assignments st)) + count_in_slot 3 [a]
      = count_in_slot 3 (hm_values (in_assignments st')) + 1
    \<and> try_add_assignments_checked [a] [(3, 1)]
        [\<lparr>ct_max_requests = Some 1, ct_multiplier = 1\<rparr>, \<lparr>ct_max_requests = None, ct_multiplier = 5\<rparr>]
        False 0 st = Some (RolledBack, note_rollback 0 st)"
proof -
  let ?a = "assignment_new 0 7 3 ''Fast'' 1 5 10 None None"
  obtain st where st: "record_all inner_new [?a] = Some st" "inner_inv st"
    using record_all_step [OF inner_inv_new] .
  obtain st' where st': "record_all st [?a] = Some st'" using record_all_step [OF st(2)] .
  have live: "in_assignments st = [(7, ?a)]"
    using st(1) by (auto simp: record_assignment_fresh assignment_new_def assignment_new_for_profile_def)
  have id: "as_request_id ?a = 7" "as_scheduled_slot ?a = 3"
    by (simp_all add: assignment_new_def assignment_new_for_profile_def)
  have "replanned_in 3 {7} st = 1"
    by (simp add: replanned_in_def live hm_values_def count_in_slot_def id)
  then have "count_in_slot 3 (hm_values (in_assignments st)) + count_in_slot 3 [?a]
      = count_in_slot 3 (hm_values (in_assignments st')) + 1"
    using replanned_requests_counted_twice [OF st(2) st', of 3] by (simp add: id)
  then show ?thesis
    using st(1) st'
    by (simp add: Let_def try_add_assignments_checked_def slot_breaches_def live hm_values_def
        count_in_slot_def id capacity_multiplier_for_count_def)
qed

end
