(* ===== verification/Swarm_Worker.thy ===== *)
theory Swarm_Worker
  imports Worker
begin

text \<open>
  The swarm variants of the worker (\<open>batch_worker_entry_swarm\<close> and its two backends, defined in
  \<open>Worker\<close>): the well-formedness of the learned states they keep per profile, how a swarm batch
  ends, why the serialized backend never rolls back, and what a misspelled strategy name does.
\<close>

section \<open>Swarm workers\<close>

text \<open>A learned state over \<open>n\<close> slots, and a delta that fits it.\<close>

fun swarm_sized :: "nat \<Rightarrow> 'r swarm_state \<Rightarrow> bool" where
  "swarm_sized n SwarmNone = True"
| "swarm_sized n (SwarmBandit b) = (length (ob_q b) = n \<and> length (ob_n b) = n)"
| "swarm_sized n (SwarmAco a) = (length (oa_tau a) = n \<and> 0 \<le> oa_q_deposit a)"

fun delta_sized :: "nat \<Rightarrow> 'r swarm_delta \<Rightarrow> bool" where
  "delta_sized n DeltaNone = True"
| "delta_sized n (DeltaBandit d) = (length (bd_n_delta d) = n \<and> length (bd_cost_sum_delta d) = n)"
| "delta_sized n (DeltaAco d) = (length (ad_deposit d) = n)"

definition swarm_job_ok :: "'r rng \<Rightarrow> worker_job \<Rightarrow> bool" where
  "swarm_job_ok g job \<longleftrightarrow>
     rng_ok g \<and> pol_flavours (wj_policy job) \<noteq> [] \<and> 0 \<le> pol_total_slots (wj_policy job)
     \<and> 0 \<le> sw_aco_q (cfg_swarm (wj_cfg job)) \<and> distinct (map rq_id (wj_pending job))"

definition job_slots :: "worker_job \<Rightarrow> nat" where
  "job_slots job = nat (pol_total_slots (wj_policy job))"

lemma sized_ok: "swarm_job_ok g job \<Longrightarrow> swarm_sized n swarm \<Longrightarrow> swarm_ok g (wj_policy job) swarm"
  by (cases swarm) (simp_all add: swarm_job_ok_def swarm_ok_def bandit_wf_def)

lemma swarm_from_config_sized:
  assumes "swarm_job_ok g job"
  obtains swarm where "swarm_from_config g (cfg_solver (wj_cfg job)) (cfg_swarm (wj_cfg job)) (wj_policy job)
      (wj_forecast job) = Some swarm" and "swarm_sized (job_slots job) swarm"
proof -
  obtain f where "min_by_key fl_duration (pol_flavours (wj_policy job)) = Some f"
    using assms by (cases "min_by_key fl_duration (pol_flavours (wj_policy job))") (auto simp: swarm_job_ok_def)
  then have "\<exists>swarm. swarm_from_config g (cfg_solver (wj_cfg job)) (cfg_swarm (wj_cfg job)) (wj_policy job)
      (wj_forecast job) = Some swarm \<and> swarm_sized (job_slots job) swarm"
    using assms
    by (auto simp: swarm_from_config_def swarm_job_ok_def bandit_new_def aco_new_def job_slots_def)
  with that show thesis by blast
qed

lemma serialized_answer:
  assumes "swarm_job_ok g job" and "swarm_sized n swarm"
  obtains as swarm' where "swarm_solve_batch g now (wj_pending job) slot forecast ctx (wj_policy job) swarm
      = Some (as, swarm')"
    and "as = [] \<or> list_all2 (swarm_placed (wj_policy job)) (wj_pending job) as" and "swarm_sized n swarm'"
proof (cases swarm)
  case SwarmNone
  with that show thesis by simp
next
  case (SwarmBandit b)
  have b: "rng_ok g" "pol_flavours (wj_policy job) \<noteq> []" "length (ob_q b) = length (ob_n b)"
    using assms SwarmBandit by (simp_all add: swarm_job_ok_def)
  obtain as b' where "bandit_solve_batch g now (wj_pending job) forecast ctx (wj_policy job) b = Some (as, b')"
    "list_all2 (swarm_placed (wj_policy job)) (wj_pending job) as"
    "means_account (ob_q b) (ob_n b) as (ob_q b') (ob_n b')"
    using bandit_batch_spec [OF b] by metis
  then show thesis
    using that [of as "SwarmBandit b'"] assms(2) by (simp add: SwarmBandit means_account_def)
next
  case (SwarmAco a)
  have a: "rng_ok g" "pol_flavours (wj_policy job) \<noteq> []" using assms by (simp_all add: swarm_job_ok_def)
  obtain as a' where run: "aco_solve_batch g now (wj_pending job) forecast ctx (wj_policy job) a = Some (as, a')"
    "as = [] \<or> list_all2 (swarm_placed (wj_policy job)) (wj_pending job) as" "length (oa_tau a') = length (oa_tau a)"
    using aco_batch_spec [OF a] by metis
  then have "oa_q_deposit a' = oa_q_deposit a"
    by (auto simp: aco_solve_batch_def split: option.splits)
  with run show thesis using that [of as "SwarmAco a'"] assms(2) by (simp add: SwarmAco)
qed

lemma merge_aco_loop_length:
  "merge_aco_loop g now pol forecast fs fb a reqs ctx k best tau acc evap r = Some (best', acc', evap', r') \<Longrightarrow>
   length acc' = length acc"
proof (induction k arbitrary: best tau acc evap r)
  case (Suc k)
  obtain ib r1 where ib: "ants_loop (ant_loop g now pol forecast fs fb a tau reqs ctx) (oa_n_ants a) None r
      = Some (ib, r1)" using Suc.prems by (auto split: option.splits)
  show ?case using Suc.IH [OF Suc.prems [unfolded merge_aco_loop.simps ib option.case prod.case]] by simp
qed simp

lemma merge_answer:
  assumes "swarm_job_ok g job" and "swarm_sized n swarm"
  obtains as delta where "merge_swarm_solve_batch g now (wj_pending job) slot forecast ctx (wj_policy job) swarm
      = Some (as, delta)"
    and "as = [] \<or> list_all2 (swarm_placed (wj_policy job)) (wj_pending job) as" and "delta_sized n delta"
proof -
  obtain as delta where run: "merge_swarm_solve_batch g now (wj_pending job) slot forecast ctx (wj_policy job) swarm
      = Some (as, delta)" "as = [] \<or> list_all2 (swarm_placed (wj_policy job)) (wj_pending job) as"
    using merge_swarm_solve_batch_spec [OF sized_ok [OF assms]] by metis
  have "delta_sized n delta"
  proof (cases swarm)
    case SwarmNone
    with run show ?thesis by auto
  next
    case (SwarmBandit b)
    have b: "rng_ok g" "pol_flavours (wj_policy job) \<noteq> []" "length (ob_q b) = length (ob_n b)"
      using assms SwarmBandit by (simp_all add: swarm_job_ok_def)
    obtain as2 d where "merge_bandit_solve_batch g now (wj_pending job) forecast ctx (wj_policy job) b = Some (as2, d)"
      "length (bd_n_delta d) = length (ob_q b)" "length (bd_cost_sum_delta d) = length (ob_q b)"
      using bandit_delta_spec [OF b, of now "wj_pending job" forecast ctx] by metis
    with run(1) assms(2) show ?thesis by (auto simp: SwarmBandit)
  next
    case (SwarmAco a)
    with run(1) assms(2) show ?thesis
      by (auto simp: merge_aco_solve_batch_def split: option.splits dest!: merge_aco_loop_length)
  qed
  with run that show thesis by blast
qed

lemma merge_delta_sized:
  assumes "swarm_sized n swarm" and "delta_sized n delta"
  obtains swarm' where "swarm_merge_delta delta swarm = Some swarm'" and "swarm_sized n swarm'"
proof (cases "(delta, swarm)" rule: swarm_merge_delta.cases)
  case (1 d b)
  then have "delta_fits d b" using assms by (simp add: delta_fits_def)
  then obtain b' where "bandit_merge_delta d b = Some b'" "length (ob_q b') = length (ob_q b)"
    "length (ob_n b') = length (ob_q b)" by (rule bandit_merge_delta_spec)
  with 1 assms that show thesis by simp
next
  case (2 d a)
  with assms that show thesis by (simp add: aco_merge_delta_def)
qed (use assms that in simp_all)

text \<open>The profile's entry has the backend of the mode and the size of the horizon.\<close>

definition swarm_ready :: "worker_job \<Rightarrow> qos_profile_id \<Rightarrow> 'r scheduler_state \<Rightarrow> bool" where
  "swarm_ready job pid sd \<longleftrightarrow>
     (case map_of (sd_swarm_states sd) pid of
        None \<Rightarrow> True
      | Some (Serialized swarm) \<Rightarrow>
          sw_mode (cfg_swarm (wj_cfg job)) \<noteq> ''merge'' \<and> swarm_sized (job_slots job) swarm
      | Some (Merging swarm) \<Rightarrow>
          sw_mode (cfg_swarm (wj_cfg job)) = ''merge'' \<and> swarm_sized (job_slots job) swarm)"

lemma swarm_entry_ready:
  assumes "swarm_job_ok g job" and "swarm_ready job pid sd"
  obtains swarm sd' where "swarm_sized (job_slots job) swarm" and "swarm_ready job pid sd'"
    and "swarm_entry g job pid sd
      = Some (if sw_mode (cfg_swarm (wj_cfg job)) = ''merge'' then Merging swarm else Serialized swarm, sd')"
proof (cases "map_of (sd_swarm_states sd) pid")
  case None
  obtain swarm where "swarm_from_config g (cfg_solver (wj_cfg job)) (cfg_swarm (wj_cfg job)) (wj_policy job)
      (wj_forecast job) = Some swarm" "swarm_sized (job_slots job) swarm"
    using swarm_from_config_sized [OF assms(1)] .
  moreover define b where "b = (if sw_mode (cfg_swarm (wj_cfg job)) = ''merge'' then Merging swarm else Serialized swarm)"
  ultimately show thesis
    using None
    by (intro that [of swarm "sd\<lparr>sd_swarm_states := hm_insert pid b (sd_swarm_states sd)\<rparr>"])
      (auto simp: swarm_entry_def backend_from_config_def swarm_ready_def map_simps)
next
  case (Some b)
  then show thesis
  proof (cases b)
    case (Serialized swarm)
    with Some assms(2) show thesis by (intro that [of swarm sd]) (auto simp: swarm_entry_def swarm_ready_def)
  next
    case (Merging swarm)
    with Some assms(2) show thesis by (intro that [of swarm sd]) (auto simp: swarm_entry_def swarm_ready_def)
  qed
qed

definition swarm_landed :: "worker_job \<Rightarrow> inner \<Rightarrow> bool" where
  "swarm_landed job st \<longleftrightarrow>
     inner_inv st \<and> list_all (\<lambda>r. case map_of (in_assignments st) (rq_id r) of
         None \<Rightarrow> False
       | Some a \<Rightarrow> rq_arrival_slot r \<le> as_scheduled_slot a
           \<and> as_scheduled_slot a \<le> max (rq_deadline_slot r) (rq_arrival_slot r)) (wj_pending job)"

text \<open>The others keep these, and do not replace the profile's learned state by one of another size.\<close>

definition swarm_others_ok :: "worker_job \<Rightarrow> qos_profile_id \<Rightarrow> 'r surroundings \<Rightarrow> bool" where
  "swarm_others_ok job pid su \<longleftrightarrow>
     (\<forall>k p w. (unclaimed job (fst w) \<longrightarrow> unclaimed job (fst (su_others su k p w)))
        \<and> (swarm_landed job (fst w) \<longrightarrow> swarm_landed job (fst (su_others su k p w)))
        \<and> (swarm_ready job pid (snd w) \<longrightarrow> swarm_ready job pid (snd (su_others su k p w))))"

lemma swarm_others_okD:
  assumes "swarm_others_ok job pid su" and "su_others su k p w = (st', sd')"
  shows "unclaimed job (fst w) \<Longrightarrow> unclaimed job st'" and "swarm_landed job (fst w) \<Longrightarrow> swarm_landed job st'"
    and "swarm_ready job pid (snd w) \<Longrightarrow> swarm_ready job pid sd'"
  using assms by (metis fst_conv snd_conv swarm_others_ok_def)+

lemma retag_placed [simp]:
  "list_all2 (swarm_placed pol) pending (retag pid as) = list_all2 (swarm_placed pol) pending as"
  by (simp add: retag_def list_all2_map2 swarm_placed_def [abs_def])

lemma retag_simps [simp]: "retag pid as = [] \<longleftrightarrow> as = []" "length (retag pid as) = length as"
  by (simp_all add: retag_def)

lemma placed_lands:
  assumes "swarm_job_ok g job" and "list_all2 (swarm_placed pol) (wj_pending job) as"
    and "inner_inv st" and "record_all st as = Some st'"
  shows "swarm_landed job st'"
  using placed_recorded [OF assms(2,4)] record_all_inv [OF assms(3,4)] assms(1)
  by (fastforce simp: swarm_landed_def swarm_job_ok_def list_all_iff)

lemma note_commit_states [simp]: "sd_swarm_states (note_commit n ms sd) = sd_swarm_states sd"
  by (simp add: note_commit_def Let_def)

lemma swarm_ready_cong: "sd_swarm_states sd' = sd_swarm_states sd \<Longrightarrow> swarm_ready job pid sd' = swarm_ready job pid sd"
  by (simp add: swarm_ready_def)

lemma swarm_ready_insert:
  "swarm_ready job pid (sd\<lparr>sd_swarm_states := hm_insert pid b m\<rparr>) \<longleftrightarrow>
     (case b of
        Serialized swarm \<Rightarrow> sw_mode (cfg_swarm (wj_cfg job)) \<noteq> ''merge'' \<and> swarm_sized (job_slots job) swarm
      | Merging swarm \<Rightarrow> sw_mode (cfg_swarm (wj_cfg job)) = ''merge'' \<and> swarm_sized (job_slots job) swarm)"
  by (simp add: swarm_ready_def map_simps)

text \<open>How a swarm batch ends.\<close>

definition swarm_outcome :: "worker_job \<Rightarrow> qos_profile_id \<Rightarrow> (bool \<times> nat \<times> 'r world) option \<Rightarrow> bool" where
  "swarm_outcome job pid out \<longleftrightarrow>
     (case out of
        None \<Rightarrow> False
      | Some (scheduled, rollbacks, st, sd) \<Rightarrow>
          rollbacks \<le> sc_rollback_max_consecutive (cfg_solver (wj_cfg job)) \<and> swarm_ready job pid sd
          \<and> (if scheduled then swarm_landed job st
             else unclaimed job st \<and> take (length (wj_pending job)) (in_pending st) = wj_pending job))"

lemma swarm_outcome_requeue:
  "unclaimed job st \<Longrightarrow> swarm_ready job pid sd \<Longrightarrow> k \<le> sc_rollback_max_consecutive (cfg_solver (wj_cfg job)) \<Longrightarrow>
   swarm_outcome job pid (Some (False, k, requeue_job job (st, sd)))"
  by (simp add: swarm_outcome_def requeue_job_def)

lemma swarm_outcome_finish:
  "swarm_landed job st \<Longrightarrow> swarm_ready job pid sd \<Longrightarrow> k \<le> sc_rollback_max_consecutive (cfg_solver (wj_cfg job)) \<Longrightarrow>
   swarm_outcome job pid (Some (True, k, finish_swarm_batch n ms (st, sd)))"
  by (simp add: swarm_outcome_def finish_swarm_batch_def swarm_ready_def)

lemma swarm_scan_wf: "hm_wf cnt \<Longrightarrow> hm_wf (fst (swarm_scan pid as cnt errs))"
  by (induction as arbitrary: cnt errs) auto

lemma serialized_worker_outcome:
  assumes job: "swarm_job_ok g job" and mode: "sw_mode (cfg_swarm (wj_cfg job)) \<noteq> ''merge''"
    and st: "unclaimed job st" and ready: "swarm_ready job pid sd" and others: "swarm_others_ok job pid su"
  shows "swarm_outcome job pid (batch_worker_swarm_serialized g su job pid (st, sd))"
    and "adds_none su 0 0 \<Longrightarrow> adds_none su 0 1 \<Longrightarrow>
      \<exists>b w. batch_worker_swarm_serialized g su job pid (st, sd) = Some (b, 0, w)"
proof -
  let ?ctx = "swarm_context_snapshot_for_profile (Some pid) st"
  let ?K = "sc_rollback_max_consecutive (cfg_solver (wj_cfg job))"
  let ?tiers = "pol_capacity_tiers (wj_policy job)"
  obtain st1 sd1 where o0: "su_others su 0 0 (st, sd) = (st1, sd1)" by fastforce
  note k0 = swarm_others_okD [OF others o0]
  have r1: "swarm_ready job pid sd1" using k0(3) ready by simp
  obtain swarm sd2 where e: "swarm_sized (job_slots job) swarm" "swarm_ready job pid sd2"
    "swarm_entry g job pid sd1 = Some (Serialized swarm, sd2)"
    by (rule swarm_entry_ready [OF job r1]) (rule that, assumption, assumption, simp add: mode)
  obtain as0 swarm' where s: "swarm_solve_batch g (or_now (su_oracles su 0)) (wj_pending job) (wj_slot job)
      (wj_forecast job) ?ctx (wj_policy job) swarm = Some (as0, swarm')"
    "as0 = [] \<or> list_all2 (swarm_placed (wj_policy job)) (wj_pending job) as0"
    "swarm_sized (job_slots job) swarm'"
    using serialized_answer [OF job e(1)] .
  define sd3 where "sd3 = sd2\<lparr>sd_swarm_states := hm_insert pid (Serialized swarm') (sd_swarm_states sd2)\<rparr>"
  have r3: "swarm_ready job pid sd3" using s(3) mode by (simp add: sd3_def swarm_ready_insert)
  obtain st4 sd4 where o1: "su_others su 0 1 (st1, sd3) = (st4, sd4)" by fastforce
  note k1 = swarm_others_okD [OF others o1]
  have u4: "unclaimed job st4" and r4: "swarm_ready job pid sd4" using k0(1) k1(1,3) st r3 by simp_all
  have inv4: "inner_inv st4" using u4 by (simp add: unclaimed_def)
  let ?as = "retag pid as0"
  let ?commit = "try_commit_swarm_batch ?as (swc_slot_count ?ctx) ?tiers (?K = 0) 0 st4"
  note unfold = batch_worker_swarm_serialized_def [of g su job pid "(st, sd)"] o0 e(3) s(1) sd3_def [symmetric] o1 [unfolded One_nat_def]
  show "swarm_outcome job pid (batch_worker_swarm_serialized g su job pid (st, sd))"
  proof (cases "as0 = []")
    case True
    then show ?thesis using swarm_outcome_requeue [OF u4 r4, of 0] by (simp add: unfold Let_def)
  next
    case False
    obtain out st5 where c: "?commit = Some (out, st5)"
      using commit_total [OF inv4] unfolding try_commit_swarm_batch_def by blast
    obtain st6 sd6 where o2: "su_others su 0 2 (st5, sd4) = (st6, sd6)" by fastforce
    note k2 = swarm_others_okD [OF others o2]
    have r6: "swarm_ready job pid sd6" using k2(3) r4 by simp
    show ?thesis
    proof (cases out)
      case RolledBack
      then have "\<not> ?K = 0 \<and> st5 = note_rollback 0 st4"
        using rolled_back_not_forced c unfolding try_commit_swarm_batch_def by blast
      then have "unclaimed job st6" "1 \<le> ?K" using k2(1) u4 by simp_all
      then show ?thesis
        using swarm_outcome_requeue [OF _ r6] False RolledBack c o2 by (simp add: unfold Let_def)
    next
      case Committed
      have rec: "record_all st4 ?as = Some st5"
        using c Committed committed_records unfolding try_commit_swarm_batch_def by blast
      have "list_all2 (swarm_placed (wj_policy job)) (wj_pending job) ?as" using s(2) False by simp
      then have "swarm_landed job st5" using rec by (rule placed_lands [OF job _ inv4])
      then have "swarm_landed job st6" using k2(2) by simp
      then show ?thesis
        using swarm_outcome_finish [OF _ r6, where k = 0] False Committed c o2 by (simp add: unfold Let_def)
    qed
  qed
  assume quiet: "adds_none su 0 0" "adds_none su 0 1"
  have "\<not> breach_loop st4 ?as ?tiers (expected_occupancy ?as (swc_slot_count ?ctx))"
    if "as0 \<noteq> []"
  proof (rule covered_no_breach)
    show "hm_wf (swc_slot_count ?ctx)"
      by (simp add: swarm_context_snapshot_for_profile_def Let_def case_prod_unfold swarm_scan_wf)
    fix a assume "a \<in> set ?as"
    have "occupancy (as_scheduled_slot a) st4 \<le> occupancy (as_scheduled_slot a) st"
      using adds_noneD [OF quiet(1) o0] adds_noneD [OF quiet(2) o1] order_trans by blast
    then show "occupancy (as_scheduled_slot a) st4 \<le> counted (swc_slot_count ?ctx) (as_scheduled_slot a)"
      by (simp add: swarm_context_snapshot_for_profile_def Let_def case_prod_unfold counted_def
          swarm_scan_counts occupancy_def)
  qed
  moreover obtain st5 where "record_all st4 ?as = Some st5" using record_all_step [OF inv4] .
  ultimately show "\<exists>b w. batch_worker_swarm_serialized g su job pid (st, sd) = Some (b, 0, w)"
    by (cases "as0 = []")
      (auto simp: unfold Let_def try_commit_swarm_batch_def try_add_assignments_checked_def)
qed

text \<open>One attempt of the merging worker.\<close>

lemma merge_committed_ready:
  assumes "swarm_ready job pid sd" and "delta_sized (job_slots job) delta"
  obtains sd' where "merge_committed pid delta sd = Some sd'" and "swarm_ready job pid sd'"
proof (cases "map_of (sd_swarm_states sd) pid")
  case None
  with assms that show thesis by (simp add: merge_committed_def)
next
  case (Some b)
  show thesis
  proof (cases b)
    case (Serialized swarm)
    with Some assms that show thesis by (simp add: merge_committed_def)
  next
    case (Merging swarm)
    then have sized: "swarm_sized (job_slots job) swarm" "sw_mode (cfg_swarm (wj_cfg job)) = ''merge''"
      using assms(1) Some by (simp_all add: swarm_ready_def)
    obtain swarm' where "swarm_merge_delta delta swarm = Some swarm'" "swarm_sized (job_slots job) swarm'"
      using merge_delta_sized [OF sized(1) assms(2)] .
    with Some Merging sized(2) that show thesis by (simp add: merge_committed_def swarm_ready_insert)
  qed
qed

lemma merge_worker_cases:
  assumes job: "swarm_job_ok g job" and mode: "sw_mode (cfg_swarm (wj_cfg job)) = ''merge''"
    and st: "unclaimed job st" and ready: "swarm_ready job pid sd" and others: "swarm_others_ok job pid su"
  obtains (infeasible) st1 sd1 where "unclaimed job st1" "swarm_ready job pid sd1"
      "batch_worker_swarm_merge g su job pid k (st, sd) = Some (False, k, requeue_job job (st1, sd1))"
  | (rolled_back) st1 sd1 where "unclaimed job st1" "swarm_ready job pid sd1"
      "k < sc_rollback_max_consecutive (cfg_solver (wj_cfg job))"
      "batch_worker_swarm_merge g su job pid k (st, sd) = batch_worker_swarm_merge g su job pid (k + 1) (st1, sd1)"
  | (committed) st1 sd1 n where "swarm_landed job st1" "swarm_ready job pid sd1"
      "batch_worker_swarm_merge g su job pid k (st, sd)
        = Some (True, k, finish_swarm_batch n (su_elapsed_ms su k) (st1, sd1))"
proof -
  let ?ctx = "swarm_context_snapshot_for_profile (Some pid) st"
  let ?tiers = "pol_capacity_tiers (wj_policy job)"
  obtain swarm sd1 where e: "swarm_sized (job_slots job) swarm" "swarm_ready job pid sd1"
    "swarm_entry g job pid sd = Some (Merging swarm, sd1)"
    by (rule swarm_entry_ready [OF job ready]) (rule that, assumption, assumption, simp add: mode)
  obtain as0 delta where s: "merge_swarm_solve_batch g (or_now (su_oracles su k)) (wj_pending job) (wj_slot job)
      (wj_forecast job) ?ctx (wj_policy job) swarm = Some (as0, delta)"
    "as0 = [] \<or> list_all2 (swarm_placed (wj_policy job)) (wj_pending job) as0"
    "delta_sized (job_slots job) delta"
    using merge_answer [OF job e(1)] .
  obtain st2 sd2 where o0: "su_others su k 0 (st, sd1) = (st2, sd2)" by fastforce
  note k0 = swarm_others_okD [OF others o0]
  have u2: "unclaimed job st2" and r2: "swarm_ready job pid sd2" using k0(1,3) st e(2) by simp_all
  have inv2: "inner_inv st2" using u2 by (simp add: unclaimed_def)
  let ?as = "retag pid as0"
  let ?commit = "try_commit_swarm_batch ?as (swc_slot_count ?ctx) ?tiers (force_commit (wj_cfg job) k) k st2"
  note unfold = batch_worker_swarm_merge.simps [of g su job pid k st sd] e(3) s(1) o0
  show thesis
  proof (cases "as0 = []")
    case True
    then show thesis using infeasible [OF u2 r2] by (simp add: unfold Let_def)
  next
    case False
    obtain out st3 where c: "?commit = Some (out, st3)"
      using commit_total [OF inv2] unfolding try_commit_swarm_batch_def by blast
    show thesis
    proof (cases out)
      case RolledBack
      have st3: "st3 = note_rollback k st2" and lt: "k < sc_rollback_max_consecutive (cfg_solver (wj_cfg job))"
        using rolled_back_not_forced rolled_back_budget c RolledBack
        unfolding try_commit_swarm_batch_def by blast+
      obtain st4 sd4 where o1: "su_others su k 1 (st3, sd2) = (st4, sd4)" by fastforce
      note k1 = swarm_others_okD [OF others o1]
      have "unclaimed job st4" "swarm_ready job pid sd4" using k1(1,3) u2 r2 by (simp_all add: st3)
      then show thesis using rolled_back [OF _ _ lt] False RolledBack c o1 by (simp add: unfold Let_def)
    next
      case Committed
      have rec: "record_all st2 ?as = Some st3"
        using c Committed committed_records unfolding try_commit_swarm_batch_def by blast
      have "list_all2 (swarm_placed (wj_policy job)) (wj_pending job) ?as" using s(2) False by simp
      then have l3: "swarm_landed job st3" using rec by (rule placed_lands [OF job _ inv2])
      obtain st4 sd4 where o2: "su_others su k 2 (st3, sd2) = (st4, sd4)" by fastforce
      note k2 = swarm_others_okD [OF others o2]
      have r4: "swarm_ready job pid sd4" and l4: "swarm_landed job st4" using k2(2,3) r2 l3 by simp_all
      obtain sd5 where m: "merge_committed pid delta sd4 = Some sd5" "swarm_ready job pid sd5"
        using merge_committed_ready [OF r4 s(3)] .
      obtain st6 sd6 where o3: "su_others su k 3 (st4, sd5) = (st6, sd6)" by fastforce
      note k3 = swarm_others_okD [OF others o3]
      have "swarm_ready job pid sd6" "swarm_landed job st6" using k3(2,3) m(2) l4 by simp_all
      then show thesis using committed False Committed c o2 m(1) o3 by (simp add: unfold Let_def)
    qed
  qed
qed

lemma merge_worker_outcome:
  assumes "swarm_job_ok g job" and "sw_mode (cfg_swarm (wj_cfg job)) = ''merge''"
    and "unclaimed job st" and "swarm_ready job pid sd" and "swarm_others_ok job pid su"
    and "k \<le> sc_rollback_max_consecutive (cfg_solver (wj_cfg job))"
  shows "swarm_outcome job pid (batch_worker_swarm_merge g su job pid k (st, sd))"
  using assms(3,4,6)
proof (induction "sc_rollback_max_consecutive (cfg_solver (wj_cfg job)) - k" arbitrary: k st sd rule: less_induct)
  case less
  show ?case
  proof (cases rule: merge_worker_cases [OF assms(1,2) less.prems(1,2) assms(5), of k,
        case_names infeasible rolled_back committed])
    case (infeasible st1 sd1)
    then show ?thesis using less.prems(3) swarm_outcome_requeue by fastforce
  next
    case (rolled_back st1 sd1)
    with less.hyps [of "k + 1" st1 sd1] show ?thesis by simp
  next
    case (committed st1 sd1 n)
    then show ?thesis using less.prems(3) swarm_outcome_finish by fastforce
  qed
qed

text \<open>
  C28: A swarm batch ends like any other. Under the same conditions on the other threads, with
  either backend, a swarm worker terminates without a panic after at most
  \<open>rollback_max_consecutive\<close> rollbacks, keeps the profile's learned state well-formed, and leaves
  the batch either live between the arrival and the deadline of each request, or back at the front
  of the queue in its order with none of it live.
\<close>

theorem swarm_worker_schedules_or_requeues:
  assumes "swarm_job_ok g job" and "unclaimed job st" and "swarm_ready job pid sd"
    and "swarm_others_ok job pid su"
  shows "swarm_outcome job pid (batch_worker_entry_swarm g su job pid (st, sd))"
  using serialized_worker_outcome(1) [OF assms(1) _ assms(2-4)] merge_worker_outcome [OF assms(1) _ assms(2-4)]
  by (simp add: batch_worker_entry_swarm_def)

text \<open>
  A serialized swarm worker does not roll back. If the other threads fill no slot while it
  solves and commits (at most one serialized worker runs at a time), its commit is not
  rolled back, so a solution that has already trained the strategy is never thrown away.
\<close>

theorem serialized_swarm_never_rolls_back:
  assumes "swarm_job_ok g job" and "sw_mode (cfg_swarm (wj_cfg job)) \<noteq> ''merge''"
    and "unclaimed job st" and "swarm_ready job pid sd" and "swarm_others_ok job pid su"
    and "adds_none su 0 0" and "adds_none su 0 1"
  shows "\<exists>scheduled w. batch_worker_entry_swarm g su job pid (st, sd) = Some (scheduled, 0, w)"
  using serialized_worker_outcome(2) [OF assms] assms(2) by (simp add: batch_worker_entry_swarm_def)

text \<open>
  The spelling of a swarm strategy is read in two ways. The scheduler routes a batch to the
  swarm worker whatever the case of the strategy name and the blanks around it, but the swarm state
  is built only for the exact lower-case names: with any other spelling no request is ever
  scheduled, every batch goes back to the queue.
\<close>

theorem misspelled_swarm_never_schedules:
  assumes "is_online_swarm_strategy (sc_solver_strategy (cfg_solver (wj_cfg job)))"
    and "sc_solver_strategy (cfg_solver (wj_cfg job)) \<notin> {''bandit'', ''ant_colony''}"
    and "map_of (sd_swarm_states sd) (batch_profile (wj_pending job)) = None"
    and "su_others su = (\<lambda>k p w. w)"
  shows "\<exists>sd'. batch_worker_entry g su ss job (st, sd)
      = Some (False, 0, (requeue_pending_requests_front (wj_pending job) st, sd'))"
proof -
  let ?pid = "batch_profile (wj_pending job)"
  let ?sd = "refresh_capacity_revision (capacity_tier_revision ss) sd"
  have "map_of (sd_swarm_states ?sd) ?pid = None"
    using assms(3) by (simp add: refresh_capacity_revision_def)
  then have "swarm_entry g job ?pid ?sd = Some
      ((if sw_mode (cfg_swarm (wj_cfg job)) = ''merge'' then Merging SwarmNone else Serialized SwarmNone),
       ?sd\<lparr>sd_swarm_states := hm_insert ?pid (if sw_mode (cfg_swarm (wj_cfg job)) = ''merge''
          then Merging SwarmNone else Serialized SwarmNone) (sd_swarm_states ?sd)\<rparr>)"
    using assms(2) by (simp add: swarm_entry_def backend_from_config_def swarm_from_config_def)
  then show ?thesis
    using assms(1,4)
    by (simp add: batch_worker_entry_def batch_worker_entry_swarm_def batch_worker_swarm_merge.simps
        batch_worker_swarm_serialized_def requeue_job_def retag_def Let_def)
qed

section \<open>Concrete swarm workers\<close>

abbreviation bandit_job :: worker_job where
  "bandit_job \<equiv> sample_job\<lparr>wj_cfg := config_default\<lparr>cfg_solver := solver_config_default
     \<lparr>sc_solver_strategy := ''bandit'', sc_rollback_max_consecutive := 3\<rparr>\<rparr>\<rparr>"

lemma bandit_job_ok: "swarm_job_ok still_rng bandit_job" "unclaimed bandit_job inner_new"
    "swarm_ready bandit_job pid (scheduler_state_new 0 :: unit scheduler_state)"
    "sw_mode (cfg_swarm (wj_cfg bandit_job)) \<noteq> ''merge''"
  by (simp_all add: swarm_job_ok_def still_rng_ok unclaimed_def config_default_def swarm_config_default_def
      swarm_ready_def scheduler_state_new_def)

lemma swarm_others_ok_samples:
  "swarm_others_ok job pid quiet_surroundings" "swarm_others_ok job pid busy_surroundings"
  by (simp_all add: swarm_others_ok_def unclaimed_def swarm_landed_def)

lemma swarm_worker_schedules_or_requeues_witness:
  "swarm_outcome bandit_job default_profile
     (batch_worker_entry_swarm still_rng busy_surroundings bandit_job default_profile
        (inner_new, scheduler_state_new 0))"
  by (rule swarm_worker_schedules_or_requeues [OF bandit_job_ok(1-3) swarm_others_ok_samples(2)])

lemma serialized_swarm_never_rolls_back_witness:
  "\<exists>scheduled w. batch_worker_entry_swarm still_rng busy_surroundings bandit_job default_profile
     (inner_new, scheduler_state_new 0) = Some (scheduled, 0, w)"
  by (rule serialized_swarm_never_rolls_back [OF bandit_job_ok(1,4,2,3) swarm_others_ok_samples(2)
      adds_none_samples(2) adds_none_samples(2)])

lemma misspelled_swarm_never_schedules_witness:
  "\<exists>sd'. batch_worker_entry still_rng quiet_surroundings shared_state_new
      (sample_job\<lparr>wj_cfg := config_default\<lparr>cfg_solver := solver_config_default
         \<lparr>sc_solver_strategy := ''Bandit''\<rparr>\<rparr>\<rparr>) (inner_new, scheduler_state_new 0)
    = Some (False, 0, (requeue_pending_requests_front [request_new 0 7 0 5] inner_new, sd'))"
proof -
  let ?job = "sample_job\<lparr>wj_cfg := config_default\<lparr>cfg_solver := solver_config_default
         \<lparr>sc_solver_strategy := ''Bandit''\<rparr>\<rparr>\<rparr>"
  have "is_online_swarm_strategy ''Bandit''" by code_simp
  then show ?thesis
    using misspelled_swarm_never_schedules [of ?job "scheduler_state_new 0" quiet_surroundings
        still_rng shared_state_new inner_new]
    by (simp add: scheduler_state_new_def)
qed

end
