(* ===== verification/Main_Loop.thy ===== *)
theory Main_Loop
  imports Swarm_Worker
begin

text \<open>
  The scheduler's main loop and its virtual clock (\<open>main_loop\<close> in \<open>engine/scheduler.rs\<close>,
  \<open>engine/scheduler/forecast.rs\<close>): how an iteration moves the clock and the current slot, which
  branch it takes, and what that branch does; the manual advance of a slot; the carbon forecast.
  One iteration is one step: the workers its dispatch pass starts run after it. The wall clock of
  the iteration is an argument; sleeping, printing and shutdown are not modelled.
\<close>

section \<open>The virtual clock\<close>

text \<open>\<open>slot as u64\<close> of a negative slot wraps, and so does the 64-bit arithmetic on it.\<close>

definition slot_ms :: "f64 \<Rightarrow> nat" where
  "slot_ms eff_slot_dur = f64_as_u64 (eff_slot_dur * 1000)"

definition next_boundary_ms :: "slot \<Rightarrow> nat \<Rightarrow> nat" where
  "next_boundary_ms current ms = ((nat (current mod 2 ^ 64) + 1) * ms) mod 2 ^ 64"

definition slot_at :: "int \<Rightarrow> f64 \<Rightarrow> f64 \<Rightarrow> slot" where
  "slot_at total_slots eff_slot_dur elapsed_secs =
     min (f64_as_i32 (elapsed_secs / eff_slot_dur)) (i32_sub total_slots 1)"

text \<open>The wait for the queue to drain, at most five seconds, only delays the return.\<close>

definition advance_to_next_slot :: "int \<Rightarrow> f64 \<Rightarrow> shared_state \<Rightarrow> slot \<times> shared_state" where
  "advance_to_next_slot total_slots eff_slot_dur ss =
     (let next_ms = next_boundary_ms (get_current_slot (ss_inner ss)) (slot_ms eff_slot_dur);
          ss1 = set_virtual_elapsed_ms next_ms ss;
          new_slot = slot_at total_slots eff_slot_dur (real next_ms / 1000)
      in (new_slot, with_inner (set_current_slot new_slot) ss1))"

section \<open>The forecast\<close>

definition sigmoid :: "f64 \<Rightarrow> f64 \<Rightarrow> f64 \<Rightarrow> f64" where
  "sigmoid k x0 x = 1 / (1 + exp (- k * (x - x0)))"

record forecast_shape =
  fs_night_max :: f64
  fs_day_min :: f64
  fs_sunrise_fraction :: f64
  fs_sunset_fraction :: f64
  fs_transition_slope :: f64
  fs_noise_persistence :: f64
  fs_inverted :: bool
  fs_phase_shifted :: bool

definition forecast_trend :: "forecast_shape \<Rightarrow> nat \<Rightarrow> nat \<Rightarrow> f64" where
  "forecast_trend sh cycle slot =
     (let x0 = real (slot mod cycle) / real cycle;
          x = (if fs_phase_shifted sh then x0 + 25 / 100 - real_of_int (f64_trunc (x0 + 25 / 100)) else x0);
          rise = sigmoid (fs_transition_slope sh) (fs_sunrise_fraction sh) x;
          fall = sigmoid (fs_transition_slope sh) (fs_sunset_fraction sh) x;
          daylight = (if fs_inverted sh then - (rise - fall) else rise - fall)
      in fs_night_max sh - (fs_night_max sh - fs_day_min sh) * daylight)"

definition forecast_value :: "f64 \<Rightarrow> f64" where
  "forecast_value v = real_of_int (f64_round (max v 1 * 1000000)) / 1000000"

fun forecast_loop ::
    "('r \<Rightarrow> f64 \<times> 'r) \<Rightarrow> forecast_shape \<Rightarrow> nat \<Rightarrow> nat list \<Rightarrow> f64 \<Rightarrow> 'r \<Rightarrow> f64 list" where
  "forecast_loop normal sh cycle [] noise r = []"
| "forecast_loop normal sh cycle (slot # slots) noise r =
     (let (random_noise, r') = normal r;
          noise' = fs_noise_persistence sh * noise + random_noise
      in forecast_value (forecast_trend sh cycle slot + noise') # forecast_loop normal sh cycle slots noise' r')"

text \<open>
  The normal distribution of the library is a parameter: \<open>None\<close> when it refuses the deviation (the
  \<open>unwrap\<close> panics), otherwise a sampler.
\<close>

definition generate_carbon_intensity_forecast ::
    "(f64 \<Rightarrow> ('r \<Rightarrow> f64 \<times> 'r) option) \<Rightarrow> (nat \<Rightarrow> 'r) \<Rightarrow> nat \<Rightarrow> nat \<Rightarrow> nat \<Rightarrow> f64 \<Rightarrow> forecast_shape
     \<Rightarrow> f64 list option" where
  "generate_carbon_intensity_forecast normal_new seed_from total_slots cycle_slots seed noise_std sh =
     map_option (\<lambda>normal. forecast_loop normal sh (max 1 cycle_slots) [0..<total_slots] 0 (seed_from seed))
       (normal_new noise_std)"

section \<open>One iteration\<close>

record loop_state =
  lo_last_flush_slot :: slot
  lo_flush_backlog :: bool
  lo_last_skip_slot :: slot
  lo_last_wall_ms :: nat

definition loop_state_new :: "nat \<Rightarrow> loop_state" where
  "loop_state_new wall_ms =
     \<lparr>lo_last_flush_slot = -1, lo_flush_backlog = False, lo_last_skip_slot = -1, lo_last_wall_ms = wall_ms\<rparr>"

definition clock_runs :: "config \<Rightarrow> bool \<Rightarrow> bool" where
  "clock_runs cfg system_busy \<longleftrightarrow>
     \<not> sim_manual_clock (cfg_simulation cfg)
     \<and> (\<not> sim_skip_empty_slots (cfg_simulation cfg) \<or> \<not> system_busy)"

text \<open>The clock of the iteration: the virtual time, the slot it lies in, and the wall time seen.\<close>

definition loop_tick :: "config \<Rightarrow> nat \<Rightarrow> loop_state \<Rightarrow> bool \<Rightarrow> shared_state \<Rightarrow> slot \<times> loop_state \<times> shared_state" where
  "loop_tick cfg wall_ms lo system_busy ss =
     (let delta_ms = wall_ms - lo_last_wall_ms lo;
          ss1 = (if clock_runs cfg system_busy
                 then set_virtual_elapsed_ms (ss_virtual_elapsed_ms ss + delta_ms) ss else ss);
          current_slot = slot_at (cfg_total_slots cfg) (effective_slot_duration_secs cfg)
                           (virtual_elapsed_secs ss1)
      in (current_slot, lo\<lparr>lo_last_wall_ms := wall_ms\<rparr>, with_inner (set_current_slot current_slot) ss1))"

datatype loop_action = Full_pass | Flush_pass | Timeout_pass | Skip_slot | No_action

definition has_full_profile_batch :: "config \<Rightarrow> inner \<Rightarrow> bool" where
  "has_full_profile_batch cfg st \<longleftrightarrow>
     list_ex (\<lambda>(_, count). sc_batch_size (cfg_solver cfg) \<le> count) (pending_profile_counts st)"

definition loop_decision ::
    "config \<Rightarrow> nat \<Rightarrow> nat \<Rightarrow> slot \<Rightarrow> loop_state \<Rightarrow> shared_state \<Rightarrow> loop_action" where
  "loop_decision cfg pending_count active_workers current_slot lo ss =
     (let free = (active_workers < sc_max_batch_solver_parallelism (cfg_solver cfg));
          timeout = sc_batch_timeout_secs (cfg_solver cfg)
      in if has_full_profile_batch cfg (ss_inner ss) \<and> free then Full_pass
         else if 0 < pending_count \<and> free
           \<and> (pending_flush_requested current_slot ss \<or> lo_last_flush_slot lo < current_slot \<or> lo_flush_backlog lo)
         then Flush_pass
         else if 0 < timeout \<and> 0 < pending_count \<and> free
         then (case get_oldest_pending_age_ms (ss_virtual_elapsed_ms ss) (ss_inner ss) of
                 None \<Rightarrow> No_action
               | Some age_ms \<Rightarrow> if timeout * 1000 \<le> real age_ms then Timeout_pass else No_action)
         else if sim_skip_empty_slots (cfg_simulation cfg) \<and> pending_count = 0 \<and> active_workers = 0
           \<and> current_slot < cfg_total_slots cfg \<and> lo_last_skip_slot lo < current_slot
           \<and> current_slot \<le> generator_processed_slot ss
         then Skip_slot else No_action)"

text \<open>A dispatch pass of the loop, on the shared state.\<close>

definition loop_pass ::
    "config \<Rightarrow> slot \<Rightarrow> bool \<Rightarrow> shared_state \<Rightarrow> 'r scheduler_state
     \<Rightarrow> claim list \<times> shared_state \<times> 'r scheduler_state" where
  "loop_pass cfg slot flush ss sd =
     (let (claims, st, sd') = dispatch_pass cfg slot flush (ss_inner ss) sd []
      in (claims, ss\<lparr>ss_inner := st\<rparr>, sd'))"

definition backlog_left :: "slot \<Rightarrow> shared_state \<Rightarrow> 'r scheduler_state \<Rightarrow> bool" where
  "backlog_left slot ss sd = has_retryable_profile_pending (pending_profile_counts (ss_inner ss)) sd slot"

fun loop_act ::
    "config \<Rightarrow> slot \<Rightarrow> loop_action \<Rightarrow> loop_state \<Rightarrow> shared_state \<Rightarrow> 'r scheduler_state
     \<Rightarrow> claim list \<times> loop_state \<times> shared_state \<times> 'r scheduler_state" where
  "loop_act cfg slot Full_pass lo ss sd =
     (let (claims, ss', sd') = loop_pass cfg slot False ss sd in (claims, lo, ss', sd'))"
| "loop_act cfg slot Flush_pass lo ss sd =
     (let (claims, ss', sd') = loop_pass cfg slot True ss sd
      in (claims, lo\<lparr>lo_last_flush_slot := slot, lo_flush_backlog := backlog_left slot ss' sd'\<rparr>, ss', sd'))"
| "loop_act cfg slot Timeout_pass lo ss sd =
     (let (claims, ss', sd') = loop_pass cfg slot True ss sd
      in (claims, lo\<lparr>lo_flush_backlog := backlog_left slot ss' sd'\<rparr>, ss', sd'))"
| "loop_act cfg slot Skip_slot lo ss sd =
     ([], lo\<lparr>lo_last_skip_slot := slot\<rparr>,
      set_virtual_elapsed_ms (next_boundary_ms slot (slot_ms (effective_slot_duration_secs cfg))) ss, sd)"
| "loop_act cfg slot No_action lo ss sd = ([], lo, ss, sd)"

definition main_loop_iteration ::
    "config \<Rightarrow> nat \<Rightarrow> loop_state \<times> shared_state \<times> 'r scheduler_state
     \<Rightarrow> claim list \<times> loop_state \<times> shared_state \<times> 'r scheduler_state" where
  "main_loop_iteration cfg wall_ms = (\<lambda>(lo, ss, sd).
     (let pending_count = get_pending_count (ss_inner ss);
          active_workers = sd_active_workers sd;
          system_busy = (0 < pending_count \<or> 0 < active_workers);
          (slot, lo1, ss1) = loop_tick cfg wall_ms lo system_busy ss;
          close_slot_flush = pending_flush_requested slot ss1;
          (claims, lo2, ss2, sd2) =
            loop_act cfg slot (loop_decision cfg pending_count active_workers slot lo1 ss1) lo1 ss1 sd;
          ss3 = (if pending_count = 0 \<and> active_workers = 0 \<and> close_slot_flush
                 then clear_pending_flush slot ss2 else ss2)
      in (claims, lo2, ss3, sd2)))"

text \<open>Iterations with nobody else at work, at the given wall-clock times.\<close>

fun main_loop_run ::
    "config \<Rightarrow> nat list \<Rightarrow> loop_state \<times> shared_state \<times> 'r scheduler_state
     \<Rightarrow> claim list \<times> loop_state \<times> shared_state \<times> 'r scheduler_state" where
  "main_loop_run cfg [] w = ([], w)"
| "main_loop_run cfg (wall_ms # walls) w =
     (let (claims, w1) = main_loop_iteration cfg wall_ms w; (more, w2) = main_loop_run cfg walls w1
      in (claims @ more, w2))"

section \<open>Facts about the clock\<close>

lemma f64_as_i32_nonneg: "0 \<le> x \<Longrightarrow> 0 \<le> f64_as_i32 x"
  by (simp add: f64_as_i32_def f64_trunc_def)

lemma slot_at_range:
  assumes "1 \<le> slots" and "in_i32 slots" and "0 < eff" and "0 \<le> secs"
  shows "0 \<le> slot_at slots eff secs" and "slot_at slots eff secs \<le> slots - 1"
proof -
  have sub: "i32_sub slots 1 = slots - 1"
    using assms(1,2) by (intro i32_sub_exact) (simp add: in_i32_def)
  show "0 \<le> slot_at slots eff secs"
    using assms f64_as_i32_nonneg [of "secs / eff"] by (simp add: slot_at_def sub)
  show "slot_at slots eff secs \<le> slots - 1" by (simp add: slot_at_def sub)
qed

lemma slot_at_exact:
  assumes "in_i32 slots" and "1 \<le> slots" and "0 < eff" and "real_of_int k * eff \<le> secs"
    and "secs < real_of_int (k + 1) * eff" and "0 \<le> k" and "k < 2147483648"
  shows "slot_at slots eff secs = min k (slots - 1)"
proof -
  have "real_of_int k \<le> secs / eff" "secs / eff < real_of_int k + 1"
    using assms(3-5) by (simp_all add: pos_le_divide_eq pos_divide_less_eq)
  then have fl: "\<lfloor>secs / eff\<rfloor> = k" by linarith
  have "0 \<le> secs / eff" using \<open>real_of_int k \<le> secs / eff\<close> assms(6) by linarith
  then have "f64_as_i32 (secs / eff) = k"
    using fl assms(6,7) by (simp add: f64_as_i32_def f64_trunc_def)
  moreover have "i32_sub slots 1 = slots - 1"
    using assms(1,2) by (intro i32_sub_exact) (simp add: in_i32_def)
  ultimately show ?thesis by (simp add: slot_at_def)
qed

lemma slot_ms_floor:
  assumes "0 \<le> eff" and "eff * 1000 < 2 ^ 63"
  shows "int (slot_ms eff) = \<lfloor>eff * 1000\<rfloor>"
proof -
  have "0 \<le> \<lfloor>eff * 1000\<rfloor>" "\<lfloor>eff * 1000\<rfloor> < 2 ^ 63" using assms by (simp_all add: floor_less_iff)
  then show ?thesis using assms(1) by (simp add: slot_ms_def f64_as_u64_def f64_trunc_def)
qed

lemma next_boundary_exact:
  assumes "0 \<le> current" and "current < 2147483648" and "ms < 2 ^ 31"
  shows "next_boundary_ms current ms = (nat current + 1) * ms"
proof -
  have "(nat current + 1) * ms < 2 ^ 32 * 2 ^ 31"
    using assms by (intro mult_strict_mono) (simp_all add: nat_less_iff)
  moreover have "current mod 2 ^ 64 = current" using assms(1,2) by simp
  ultimately show ?thesis by (simp add: next_boundary_ms_def)
qed

text \<open>
  Advancing the manual clock moves one slot exactly when a slot lasts a whole number of
  milliseconds. The boundary is computed from the duration truncated to milliseconds, the slot from
  the exact duration: with a fractional part the boundary falls before the next slot, the slot
  returned is at most the current one, and from slot 0 the clock never leaves it.
\<close>

theorem advance_moves_iff_whole_milliseconds:
  assumes "1 / 1000 \<le> eff" and "eff * 1000 < 2 ^ 31" and "in_i32 slots"
    and "get_current_slot (ss_inner ss) = cur" and "0 \<le> cur" and "cur + 1 < slots"
  shows "if real (slot_ms eff) = eff * 1000
    then fst (advance_to_next_slot slots eff ss) = cur + 1
    else fst (advance_to_next_slot slots eff ss) \<le> cur"
proof -
  have m: "int (slot_ms eff) = \<lfloor>eff * 1000\<rfloor>" using assms(1,2) by (intro slot_ms_floor) simp_all
  then have m_le: "real (slot_ms eff) \<le> eff * 1000" by linarith
  have cur: "cur < 2147483648" "cur + 1 < 2147483648" using assms(3,6) by (simp_all add: in_i32_def)
  have "real (slot_ms eff) < 2 ^ 31" using m_le assms(2) by linarith
  then have "slot_ms eff < 2 ^ 31" by simp
  note next_ms = next_boundary_exact [OF assms(5) cur(1) this]
  let ?secs = "real (next_boundary_ms cur (slot_ms eff)) / 1000"
  have secs: "?secs = real_of_int (cur + 1) * (real (slot_ms eff) / 1000)"
    using assms(5) by (simp add: next_ms algebra_simps)
  have out: "fst (advance_to_next_slot slots eff ss) = slot_at slots eff ?secs"
    by (simp add: advance_to_next_slot_def Let_def assms(4))
  have eff: "0 < eff" using assms(1) by linarith
  show ?thesis
  proof (cases "real (slot_ms eff) = eff * 1000")
    case True
    then have "?secs = real_of_int (cur + 1) * eff" by (simp add: secs)
    then have "slot_at slots eff ?secs = min (cur + 1) (slots - 1)"
      using assms(3,5,6) eff cur(2) by (intro slot_at_exact) (simp_all add: algebra_simps)
    with True assms(6) out show ?thesis by simp
  next
    case False
    then have "real (slot_ms eff) / 1000 < eff" using m_le by simp
    then have "?secs < real_of_int (cur + 1) * eff"
      unfolding secs using assms(5) by (intro mult_strict_left_mono) simp_all
    then have "?secs / eff < real_of_int (cur + 1)" using eff by (simp add: pos_divide_less_eq)
    moreover have "0 \<le> ?secs / eff" using eff by simp
    ultimately have "f64_as_i32 (?secs / eff) \<le> cur"
      by (simp add: f64_as_i32_def f64_trunc_def min_le_iff_disj) linarith
    with False out show ?thesis by (simp add: slot_at_def min_le_iff_disj)
  qed
qed

section \<open>The forecast is usable\<close>

lemma f64_round_ge_int: "real_of_int z \<le> x \<Longrightarrow> 0 \<le> z \<Longrightarrow> z \<le> f64_round x"
  by (simp add: f64_round_def le_floor_iff)

lemma forecast_value_ge_1: "1 \<le> forecast_value v"
proof -
  have "1000000 \<le> f64_round (max v 1 * 1000000)" by (rule f64_round_ge_int) simp_all
  then have "(1000000 :: real) \<le> real_of_int (f64_round (max v 1 * 1000000))" by linarith
  then show ?thesis by (simp add: forecast_value_def)
qed

lemma forecast_loop_spec:
  "length (forecast_loop normal sh cycle slots noise r) = length slots
   \<and> list_all (\<lambda>v. 1 \<le> v) (forecast_loop normal sh cycle slots noise r)"
  by (induction normal sh cycle slots noise r rule: forecast_loop.induct)
    (simp_all add: forecast_value_ge_1 Let_def split: prod.split)

text \<open>
  The forecast covers the horizon and never falls below one. Whenever the noise distribution
  can be built, the generated forecast has one value per slot, all at least \<open>1\<close>, whatever the
  noise, the shape of the day and the random numbers.
\<close>

theorem forecast_covers_horizon:
  assumes "normal_new noise_std \<noteq> None"
  shows "\<exists>forecast. generate_carbon_intensity_forecast normal_new seed_from total_slots cycle_slots seed noise_std sh
      = Some forecast \<and> length forecast = total_slots \<and> list_all (\<lambda>v. 1 \<le> v) forecast"
proof -
  obtain normal where n: "normal_new noise_std = Some normal" using assms by blast
  from forecast_loop_spec [of normal sh "max 1 cycle_slots" "[0..<total_slots]" 0 "seed_from seed"]
  show ?thesis by (simp add: generate_carbon_intensity_forecast_def n)
qed

section \<open>What an iteration does\<close>

lemma loop_pass_result:
  assumes "0 < sc_batch_size (cfg_solver cfg)" and "loop_pass cfg slot flush ss sd = (claims, ss', sd')"
  shows "pass_result cfg slot flush (ss_inner ss) sd claims (ss_inner ss') sd'"
    and "ss' = ss\<lparr>ss_inner := (ss_inner ss)\<lparr>in_pending := in_pending (ss_inner ss')\<rparr>\<rparr>"
proof -
  obtain st where run: "dispatch_pass cfg slot flush (ss_inner ss) sd [] = (claims, st, sd')"
    and ss': "ss' = ss\<lparr>ss_inner := st\<rparr>"
    using assms(2) by (auto simp: loop_pass_def Let_def split: prod.splits)
  show res: "pass_result cfg slot flush (ss_inner ss) sd claims (ss_inner ss') sd'"
    using dispatch_pass_result [OF assms(1) run] by (simp add: ss')
  have "st = (ss_inner ss)\<lparr>in_pending := in_pending st\<rparr>" using res by (simp add: pass_result_def ss')
  then show "ss' = ss\<lparr>ss_inner := (ss_inner ss)\<lparr>in_pending := in_pending (ss_inner ss')\<rparr>\<rparr>"
    by (simp add: ss')
qed

lemma loop_act_clock:
  assumes "0 < sc_batch_size (cfg_solver cfg)" and "loop_act cfg slot act lo ss sd = (claims, lo', ss', sd')"
  shows "get_current_slot (ss_inner ss') = get_current_slot (ss_inner ss)"
    and "act \<noteq> Skip_slot \<Longrightarrow> ss_virtual_elapsed_ms ss' = ss_virtual_elapsed_ms ss"
proof -
  have pass: "get_current_slot (ss_inner ss1) = get_current_slot (ss_inner ss)
      \<and> ss_virtual_elapsed_ms ss1 = ss_virtual_elapsed_ms ss"
    if run: "loop_pass cfg slot flush ss sd = (claims1, ss1, sd1)" for flush claims1 ss1 sd1
  proof -
    obtain q where "ss1 = ss\<lparr>ss_inner := (ss_inner ss)\<lparr>in_pending := q\<rparr>\<rparr>"
      using loop_pass_result(2) [OF assms(1) run] by blast
    then show ?thesis by (simp add: get_current_slot_def)
  qed
  show "get_current_slot (ss_inner ss') = get_current_slot (ss_inner ss)"
    using assms(2) pass
    by (cases act) (auto simp: Let_def set_virtual_elapsed_ms_def split: prod.splits)
  show "act \<noteq> Skip_slot \<Longrightarrow> ss_virtual_elapsed_ms ss' = ss_virtual_elapsed_ms ss"
    using assms(2) pass by (cases act) (auto simp: Let_def split: prod.splits)
qed

lemma loop_tick_sel:
  assumes "loop_tick cfg wall lo busy ss = (slot, lo', ss')"
  shows "slot = slot_at (cfg_total_slots cfg) (effective_slot_duration_secs cfg) (virtual_elapsed_secs ss')"
    and "ss_virtual_elapsed_ms ss' = ss_virtual_elapsed_ms ss
      + (if clock_runs cfg busy then wall - lo_last_wall_ms lo else 0)"
    and "get_current_slot (ss_inner ss') = slot"
    and "lo' = lo\<lparr>lo_last_wall_ms := wall\<rparr>"
    and "ss' = ss\<lparr>ss_virtual_elapsed_ms := ss_virtual_elapsed_ms ss',
      ss_inner := set_current_slot slot (ss_inner ss)\<rparr>"
  using assms
  by (auto simp: loop_tick_def Let_def with_inner_def set_virtual_elapsed_ms_def virtual_elapsed_secs_def
      get_current_slot_def set_current_slot_def)

lemma clear_pending_flush_sel [simp]:
  "ss_inner (clear_pending_flush s ss) = ss_inner ss"
  "ss_virtual_elapsed_ms (clear_pending_flush s ss) = ss_virtual_elapsed_ms ss"
  by (simp_all add: clear_pending_flush_def)

lemma skip_decision:
  "loop_decision cfg pending active slot lo ss = Skip_slot \<Longrightarrow>
   sim_skip_empty_slots (cfg_simulation cfg) \<and> pending = 0 \<and> active = 0"
  by (auto simp: loop_decision_def Let_def split: if_splits option.splits)

lemma loop_clock_facts:
  assumes "0 < sc_batch_size (cfg_solver cfg)" and "1 \<le> cfg_total_slots cfg" and "in_i32 (cfg_total_slots cfg)"
    and "main_loop_iteration cfg wall (lo, ss, sd) = (claims, lo', ss', sd')"
  shows "0 \<le> get_current_slot (ss_inner ss') \<and> get_current_slot (ss_inner ss') < cfg_total_slots cfg
    \<and> (if sim_skip_empty_slots (cfg_simulation cfg)
       then in_pending (ss_inner ss) = [] \<and> sd_active_workers sd = 0
            \<or> ss_virtual_elapsed_ms ss' = ss_virtual_elapsed_ms ss
       else ss_virtual_elapsed_ms ss'
            = (if sim_manual_clock (cfg_simulation cfg) then ss_virtual_elapsed_ms ss
               else ss_virtual_elapsed_ms ss + (wall - lo_last_wall_ms lo)))"
proof -
  let ?busy = "0 < get_pending_count (ss_inner ss) \<or> 0 < sd_active_workers sd"
  obtain slot lo1 ss1 where tick: "loop_tick cfg wall lo ?busy ss = (slot, lo1, ss1)" by (metis prod_cases3)
  note t = loop_tick_sel [OF tick]
  let ?act = "loop_decision cfg (get_pending_count (ss_inner ss)) (sd_active_workers sd) slot lo1 ss1"
  obtain lo2 ss2 where act: "loop_act cfg slot ?act lo1 ss1 sd = (claims, lo2, ss2, sd')"
    and ss': "ss_inner ss' = ss_inner ss2" "ss_virtual_elapsed_ms ss' = ss_virtual_elapsed_ms ss2"
    using assms(4) tick by (auto simp: main_loop_iteration_def Let_def split: prod.splits if_splits)
  note a = loop_act_clock [OF assms(1) act]
  have "0 \<le> virtual_elapsed_secs ss1" by (simp add: virtual_elapsed_secs_def)
  note range = slot_at_range [OF assms(2,3) effective_slot_duration_pos [of cfg] this, folded t(1)]
  have slot: "get_current_slot (ss_inner ss') = slot" using ss'(1) a(1) t(3) by simp
  have clock: "?act \<noteq> Skip_slot \<Longrightarrow> ss_virtual_elapsed_ms ss' = ss_virtual_elapsed_ms ss
      + (if clock_runs cfg ?busy then wall - lo_last_wall_ms lo else 0)"
    using ss'(2) a(2) t(2) by simp
  note skip = skip_decision [of cfg "get_pending_count (ss_inner ss)" "sd_active_workers sd" slot lo1 ss1]
  show ?thesis
    using range slot clock skip
    by (cases "?act = Skip_slot") (auto simp: clock_runs_def get_pending_count_def)
qed

text \<open>
  The clock of the main loop. Every iteration publishes a slot inside the horizon. In a
  simulation that skips empty slots the virtual clock stands still as long as requests are pending
  or workers are busy; in real time it follows the wall clock exactly; with a manual clock and no
  skipping it does not move at all.
\<close>

theorem loop_clock:
  assumes "0 < sc_batch_size (cfg_solver cfg)" and "1 \<le> cfg_total_slots cfg" and "in_i32 (cfg_total_slots cfg)"
    and "main_loop_iteration cfg wall (lo, ss, sd) = (claims, lo', ss', sd')"
  shows "0 \<le> get_current_slot (ss_inner ss') \<and> get_current_slot (ss_inner ss') < cfg_total_slots cfg
    \<and> (if sim_skip_empty_slots (cfg_simulation cfg)
       then in_pending (ss_inner ss) = [] \<and> sd_active_workers sd = 0
            \<or> ss_virtual_elapsed_ms ss' = ss_virtual_elapsed_ms ss
       else ss_virtual_elapsed_ms ss'
            = (if sim_manual_clock (cfg_simulation cfg) then ss_virtual_elapsed_ms ss
               else ss_virtual_elapsed_ms ss + (wall - lo_last_wall_ms lo)))"
  by (rule loop_clock_facts [OF assms])

text \<open>
  C32: The main loop is work conserving. If a worker is free when an iteration starts and some
  profile has a full batch, or requests are pending in a slot that was not flushed yet (or whose
  flush was requested, or left a backlog), then after the iteration all workers are busy or no
  queued profile is eligible any more (with a full batch in the first case, with any request in
  the second), and no request was lost.
\<close>

theorem loop_work_conserving:
  assumes "0 < sc_batch_size (cfg_solver cfg)"
    and "sd_active_workers sd < min (sc_max_batch_solver_parallelism (cfg_solver cfg)) (max_workers cfg)"
    and "main_loop_iteration cfg wall (lo, ss, sd) = (claims, lo', ss', sd')"
    and "slot = get_current_slot (ss_inner ss')"
    and "flush \<longleftrightarrow> \<not> has_full_profile_batch cfg (ss_inner ss)"
    and "flush \<longrightarrow> in_pending (ss_inner ss) \<noteq> []
      \<and> (pending_flush_requested slot ss \<or> lo_last_flush_slot lo < slot \<or> lo_flush_backlog lo)"
  shows "(sd_active_workers sd' = max_workers cfg
      \<or> \<not> list_ex (profile_eligible (sd_active_profiles sd') (sd_last_infeasible sd') slot (min_pending_of cfg flush))
            (pending_profile_counts (ss_inner ss')))
    \<and> mset (claimed_requests claims) + mset (in_pending (ss_inner ss')) = mset (in_pending (ss_inner ss))"
proof -
  let ?busy = "0 < get_pending_count (ss_inner ss) \<or> 0 < sd_active_workers sd"
  obtain slot1 lo1 ss1 where tick: "loop_tick cfg wall lo ?busy ss = (slot1, lo1, ss1)" by (metis prod_cases3)
  note t = loop_tick_sel [OF tick]
  have inner1: "ss_inner ss1 = set_current_slot slot1 (ss_inner ss)"
    and flush1: "ss_flush_requested_slot ss1 = ss_flush_requested_slot ss"
    by (subst t(5), simp)+
  let ?act = "loop_decision cfg (get_pending_count (ss_inner ss)) (sd_active_workers sd) slot1 lo1 ss1"
  obtain lo2 ss2 where act: "loop_act cfg slot1 ?act lo1 ss1 sd = (claims, lo2, ss2, sd')"
    and ss': "ss_inner ss' = ss_inner ss2"
    using assms(3) tick by (auto simp: main_loop_iteration_def Let_def split: prod.splits if_splits)
  have slot: "slot = slot1" using assms(4) ss' loop_act_clock(1) [OF assms(1) act] t(3) by simp
  have counts: "pending_profile_counts (ss_inner ss1) = pending_profile_counts (ss_inner ss)"
    by (simp add: inner1 pending_profile_counts_def set_current_slot_def)
  have "?act = (if flush then Flush_pass else Full_pass)"
    using assms(2,5,6) t(4) flush1 counts slot
    by (auto simp: loop_decision_def Let_def has_full_profile_batch_def get_pending_count_def
        pending_flush_requested_def)
  then obtain ss3 where pass: "loop_pass cfg slot flush ss1 sd = (claims, ss3, sd')" and "ss2 = ss3"
    using act slot by (cases flush) (auto simp: Let_def split: prod.splits)
  have res: "pass_result cfg slot flush (ss_inner ss1) sd claims (ss_inner ss') sd'"
    using loop_pass_result(1) [OF assms(1) pass] ss' \<open>ss2 = ss3\<close> by simp
  have "sd_active_workers sd' \<le> max_workers cfg"
    using res assms(2) by (auto simp: pass_result_def)
  then show ?thesis using res by (auto simp: pass_result_def inner1 set_current_slot_def)
qed

section \<open>An infeasible full batch blocks the loop\<close>

text \<open>Every full batch in the queue was found infeasible in this slot, at its present size.\<close>

definition full_batches_marked :: "config \<Rightarrow> slot \<Rightarrow> inner \<Rightarrow> 'r scheduler_state \<Rightarrow> bool" where
  "full_batches_marked cfg slot st sd \<longleftrightarrow>
     has_full_profile_batch cfg st
     \<and> list_all (\<lambda>(p, c). sc_batch_size (cfg_solver cfg) \<le> c \<longrightarrow>
          map_of (sd_last_infeasible sd) p = Some (slot, c)) (pending_profile_counts st)"

lemma full_batches_marked_cong:
  "in_pending st' = in_pending st \<Longrightarrow> full_batches_marked cfg slot st' sd = full_batches_marked cfg slot st sd"
  by (simp add: full_batches_marked_def has_full_profile_batch_def pending_profile_counts_def)

lemma marked_pass_idle:
  assumes "full_batches_marked cfg slot st sd"
  shows "dispatch_pass cfg slot False st sd [] = ([], st, sd)"
proof -
  have "\<not> list_ex (profile_eligible (sd_active_profiles sd) (sd_last_infeasible sd) slot (min_pending_of cfg False))
      (pending_profile_counts st)"
    using assms by (auto simp: full_batches_marked_def list_ex_iff list_all_iff profile_eligible_def min_pending_of_def)
  then have "dispatch_claim cfg slot False (pending_profile_counts st) st sd = (None, st, sd)"
    by (simp add: dispatch_claim_def next_profile_None_iff [THEN iffD2])
  then show ?thesis by (simp add: dispatch_pass.simps [of cfg slot False st sd "[]"])
qed

lemma blocked_iteration:
  assumes "sim_skip_empty_slots (cfg_simulation cfg)" and "in_pending (ss_inner ss) \<noteq> []"
    and "sd_active_workers sd < sc_max_batch_solver_parallelism (cfg_solver cfg)"
    and "full_batches_marked cfg
        (slot_at (cfg_total_slots cfg) (effective_slot_duration_secs cfg) (virtual_elapsed_secs ss)) (ss_inner ss) sd"
  shows "\<exists>lo' ss'. main_loop_iteration cfg wall (lo, ss, sd) = ([], lo', ss', sd)
    \<and> in_pending (ss_inner ss') = in_pending (ss_inner ss)
    \<and> ss_virtual_elapsed_ms ss' = ss_virtual_elapsed_ms ss"
proof -
  have busy: "0 < get_pending_count (ss_inner ss)" using assms(2) by (simp add: get_pending_count_def)
  obtain slot lo1 ss1 where tick: "loop_tick cfg wall lo True ss = (slot, lo1, ss1)" by (metis prod_cases3)
  note t = loop_tick_sel [OF tick]
  have clock: "ss_virtual_elapsed_ms ss1 = ss_virtual_elapsed_ms ss"
    using t(2) assms(1) by (simp add: clock_runs_def)
  have inner1: "ss_inner ss1 = set_current_slot slot (ss_inner ss)" by (subst t(5)) simp
  have pend: "in_pending (ss_inner ss1) = in_pending (ss_inner ss)" by (simp add: inner1 set_current_slot_def)
  have marked: "full_batches_marked cfg slot (ss_inner ss1) sd"
    using assms(4) t(1) clock full_batches_marked_cong [OF pend, of cfg slot sd]
    by (simp add: virtual_elapsed_secs_def)
  then have full: "has_full_profile_batch cfg (ss_inner ss1)" by (simp add: full_batches_marked_def)
  have "loop_decision cfg (get_pending_count (ss_inner ss)) (sd_active_workers sd) slot lo1 ss1 = Full_pass"
    using full assms(3) by (simp add: loop_decision_def Let_def)
  moreover have "loop_act cfg slot Full_pass lo1 ss1 sd = ([], lo1, ss1\<lparr>ss_inner := ss_inner ss1\<rparr>, sd)"
    using marked_pass_idle [OF marked] by (simp add: loop_pass_def Let_def)
  ultimately show ?thesis
    using tick busy pend clock by (simp add: main_loop_iteration_def Let_def)
qed

text \<open>
  An infeasible full batch can stop the simulation for good. When empty slots are skipped, all
  full batches in the queue were found infeasible in the current slot and nobody else acts, the loop
  never dispatches anything again: it keeps trying the full batches, the flush of the other
  profiles is never reached, and the clock that would open a new slot is frozen by the very
  requests that wait.
\<close>

theorem infeasible_full_batch_blocks_loop:
  assumes "sim_skip_empty_slots (cfg_simulation cfg)" and "in_pending (ss_inner ss) \<noteq> []"
    and "sd_active_workers sd < sc_max_batch_solver_parallelism (cfg_solver cfg)"
    and "full_batches_marked cfg
        (slot_at (cfg_total_slots cfg) (effective_slot_duration_secs cfg) (virtual_elapsed_secs ss)) (ss_inner ss) sd"
  shows "\<exists>lo' ss'. main_loop_run cfg walls (lo, ss, sd) = ([], lo', ss', sd)
    \<and> in_pending (ss_inner ss') = in_pending (ss_inner ss)
    \<and> ss_virtual_elapsed_ms ss' = ss_virtual_elapsed_ms ss"
  using assms
proof (induction walls arbitrary: lo ss)
  case (Cons wall walls)
  obtain lo1 ss1 where it: "main_loop_iteration cfg wall (lo, ss, sd) = ([], lo1, ss1, sd)"
    and same: "in_pending (ss_inner ss1) = in_pending (ss_inner ss)"
      "ss_virtual_elapsed_ms ss1 = ss_virtual_elapsed_ms ss"
    using blocked_iteration [OF Cons.prems] by blast
  have "virtual_elapsed_secs ss1 = virtual_elapsed_secs ss" by (simp add: virtual_elapsed_secs_def same(2))
  then obtain lo2 ss2 where "main_loop_run cfg walls (lo1, ss1, sd) = ([], lo2, ss2, sd)"
    "in_pending (ss_inner ss2) = in_pending (ss_inner ss1)"
    "ss_virtual_elapsed_ms ss2 = ss_virtual_elapsed_ms ss1"
    using Cons.IH [of ss1 lo1] Cons.prems full_batches_marked_cong [OF same(1), of cfg _ sd] same(1) by auto
  with it same show ?case by simp
qed simp

section \<open>Concrete iterations\<close>

lemma advance_moves_iff_whole_milliseconds_witness:
  "fst (advance_to_next_slot 24 10 shared_state_new) = 1
   \<and> fst (advance_to_next_slot 24 (3 / 2000) shared_state_new) \<le> 0"
proof -
  have cur: "get_current_slot (ss_inner shared_state_new) = 0"
    by (simp add: shared_state_new_def get_current_slot_def inner_new_def)
  have whole: "real (slot_ms 10) = 10 * 1000" and part: "real (slot_ms (3 / 2000)) \<noteq> 3 / 2000 * 1000"
    by (simp_all add: slot_ms_def f64_as_u64_def f64_trunc_def)
  show ?thesis
    using advance_moves_iff_whole_milliseconds [of 10 24 shared_state_new 0] whole
      advance_moves_iff_whole_milliseconds [of "3 / 2000" 24 shared_state_new 0] part
    by (simp add: cur in_i32_def)
qed

lemma forecast_covers_horizon_witness:
  "\<exists>forecast. generate_carbon_intensity_forecast (\<lambda>s. if 0 \<le> s then Some (\<lambda>n. (s, n + 1)) else None)
      (\<lambda>seed. seed) 24 24 7 2
      \<lparr>fs_night_max = 420, fs_day_min = 80, fs_sunrise_fraction = 1 / 4, fs_sunset_fraction = 3 / 4,
       fs_transition_slope = 18, fs_noise_persistence = 95 / 100, fs_inverted = False, fs_phase_shifted = False\<rparr>
    = Some forecast \<and> length forecast = 24 \<and> list_all (\<lambda>v. 1 \<le> v) forecast"
  by (rule forecast_covers_horizon) simp

abbreviation queued :: "request list \<Rightarrow> shared_state" where
  "queued rs \<equiv> shared_state_new\<lparr>ss_inner := add_requests rs inner_new\<rparr>"

lemma loop_clock_witness:
  "\<exists>claims lo' ss' sd'. main_loop_iteration config_default 700
      (loop_state_new 0, queued [request_new 0 1 0 5], scheduler_state_new 0 :: unit scheduler_state)
      = (claims, lo', ss', sd')
    \<and> 0 \<le> get_current_slot (ss_inner ss') \<and> get_current_slot (ss_inner ss') < 24
    \<and> ss_virtual_elapsed_ms ss' = 0"
proof -
  let ?sd = "scheduler_state_new 0 :: unit scheduler_state"
  obtain claims lo' ss' sd' where run: "main_loop_iteration config_default 700
      (loop_state_new 0, queued [request_new 0 1 0 5], ?sd) = (claims, lo', ss', sd')"
    by (metis prod_cases4)
  show ?thesis
    using run loop_clock [OF _ _ _ run]
    by (simp add: config_default_def solver_config_default_def simulation_config_default_def in_i32_def
        add_requests_def shared_state_new_def inner_new_def)
qed

lemma default_workers:
  "0 < sc_batch_size (cfg_solver config_default)"
  "0 < min (sc_max_batch_solver_parallelism (cfg_solver config_default)) (max_workers config_default)"
proof -
  have "\<not> is_online_swarm_strategy ''dp''" by code_simp
  then show "0 < min (sc_max_batch_solver_parallelism (cfg_solver config_default)) (max_workers config_default)"
    by (simp add: max_workers_def config_default_def solver_config_default_def)
qed (simp add: config_default_def solver_config_default_def)

text \<open>One request in a slot that was not flushed yet: the iteration is a flush and loses nothing.\<close>

lemma loop_work_conserving_witness:
  "\<exists>claims lo' ss' sd'. main_loop_iteration config_default 700
      (loop_state_new 0, queued [request_new 0 1 0 5], scheduler_state_new 0 :: unit scheduler_state)
      = (claims, lo', ss', sd')
    \<and> mset (claimed_requests claims) + mset (in_pending (ss_inner ss')) = {#request_new 0 1 0 5#}"
proof -
  let ?sd = "scheduler_state_new 0 :: unit scheduler_state" and ?ss = "queued [request_new 0 1 0 5]"
  obtain claims lo' ss' sd' where run: "main_loop_iteration config_default 700
      (loop_state_new 0, ?ss, ?sd) = (claims, lo', ss', sd')"
    by (metis prod_cases4)
  have idle: "sd_active_workers ?sd < min (sc_max_batch_solver_parallelism (cfg_solver config_default))
      (max_workers config_default)"
    using default_workers(2) by (simp add: scheduler_state_new_def)
  have pend: "in_pending (ss_inner ?ss) = [request_new 0 1 0 5]"
    by (simp add: add_requests_def inner_new_def)
  then have part: "\<not> has_full_profile_batch config_default (ss_inner ?ss)"
    by (simp add: has_full_profile_batch_def pending_profile_counts_def request_new_def hm_entry_def
        config_default_def solver_config_default_def)
  have "0 \<le> get_current_slot (ss_inner ss')"
    using loop_clock_facts [OF default_workers(1) _ _ run] by (simp add: config_default_def in_i32_def)
  then have "lo_last_flush_slot (loop_state_new 0) < get_current_slot (ss_inner ss')"
    by (simp add: loop_state_new_def)
  with loop_work_conserving [OF default_workers(1) idle run refl, of True] part pend
  show ?thesis using run by simp
qed

text \<open>Four requests of the default profile block one of another profile.\<close>

lemma infeasible_full_batch_blocks_loop_witness:
  "let other = (request_new 0 9 0 5)\<lparr>rq_qos_profile_id := QosProfileId ''gold''\<rparr>;
       rs = map (\<lambda>i. request_new 0 i 0 5) [1, 2, 3, 4] @ [other];
       sd = (scheduler_state_new 0 :: unit scheduler_state)\<lparr>sd_last_infeasible := [(default_profile, (0, 4))]\<rparr>
   in \<exists>lo' ss'. main_loop_run config_default [10, 20, 3600000] (loop_state_new 0, queued rs, sd) = ([], lo', ss', sd)
      \<and> in_pending (ss_inner ss') = rs \<and> ss_virtual_elapsed_ms ss' = 0"
proof -
  let ?other = "(request_new 0 9 0 5)\<lparr>rq_qos_profile_id := QosProfileId ''gold''\<rparr>"
  let ?rs = "map (\<lambda>i. request_new 0 i 0 5) [1, 2, 3, 4] @ [?other]"
  let ?sd = "(scheduler_state_new 0 :: unit scheduler_state)\<lparr>sd_last_infeasible := [(default_profile, (0, 4))]\<rparr>"
  have pend: "in_pending (ss_inner (queued ?rs)) = ?rs" by (simp add: add_requests_def inner_new_def)
  have pid: "rq_qos_profile_id (request_new 0 i 0 5) = default_profile" for i by (simp add: request_new_def)
  have ne: "QosProfileId ''gold'' \<noteq> default_profile" by (simp add: default_profile_def)
  have mem: "(p, c) \<in> set (pending_profile_counts (ss_inner (queued ?rs))) \<longleftrightarrow>
      (p, c) = (default_profile, 4) \<or> (p, c) = (QosProfileId ''gold'', 1)" for p c
    unfolding pending_counts_spec(2) pend using ne by (auto simp: pid)
  have marked: "full_batches_marked config_default 0 (ss_inner (queued ?rs)) ?sd"
    unfolding full_batches_marked_def has_full_profile_batch_def list_ex_iff list_all_iff
    using mem by (fastforce simp: config_default_def solver_config_default_def)
  have slot: "slot_at (cfg_total_slots config_default) (effective_slot_duration_secs config_default)
      (virtual_elapsed_secs (queued ?rs)) = 0"
    by (simp add: slot_at_def config_default_def virtual_elapsed_secs_def shared_state_new_def f64_as_i32_def
        f64_trunc_def i32_sub_def wrap32_def)
  have "\<exists>lo' ss'. main_loop_run config_default [10, 20, 3600000] (loop_state_new 0, queued ?rs, ?sd) = ([], lo', ss', ?sd)
      \<and> in_pending (ss_inner ss') = in_pending (ss_inner (queued ?rs))
      \<and> ss_virtual_elapsed_ms ss' = ss_virtual_elapsed_ms (queued ?rs)"
    by (rule infeasible_full_batch_blocks_loop)
      (use marked slot pend in \<open>simp_all add: config_default_def simulation_config_default_def
          solver_config_default_def scheduler_state_new_def\<close>)
  then show ?thesis unfolding Let_def pend by (simp add: shared_state_new_def)
qed

end
