(* ===== verification/Scheduler.thy ===== *)
theory Scheduler
  imports Main_Loop
begin

text \<open>
  The scheduler as a concurrent system: the main loop's claims, any number of workers at any point
  of their run, the feedback and clock updates of the service, and the replacement of the capacity
  tiers, interleaved arbitrarily. A step is one critical section of the code. Each rule applies the
  functions of the component theories; the map of running workers stands for the spawned threads.
\<close>

section \<open>Workers in flight\<close>

text \<open>
  \<open>Claimed\<close>: spawned, the tier guard not yet taken. \<open>Solving k\<close>: at the head of the loop after \<open>k\<close>
  rollbacks. \<open>Observed\<close>: a serialized swarm worker with its context snapshot. \<open>Proposed\<close>: a
  solution with the occupancy it was priced for, before the commit. \<open>Landed\<close>: after the commit,
  before the bookkeeping. \<open>Giving_up\<close>: about to requeue. \<open>Returned\<close>: about to be released.
\<close>

datatype 'r phase =
    Claimed
  | Solving worker_job nat
  | Observed worker_job swarm_context
  | Proposed worker_job nat "assignment list" "(slot, int) hmap" "'r swarm_delta"
  | Landed worker_job nat nat "'r swarm_delta"
  | Giving_up
  | Returned bool

record 'r running =
  rw_count :: nat
  rw_requests :: "request list"
  rw_slot :: slot
  rw_forecast :: "f64 list"
  rw_phase :: "'r phase"

record 'r system =
  sy_shared :: shared_state
  sy_sched :: "'r scheduler_state"
  sy_workers :: "qos_profile_id \<Rightarrow> 'r running option"

text \<open>The requests a worker still answers for, and whether it holds the tier guard.\<close>

fun holds_requests :: "'r phase \<Rightarrow> bool" where
  "holds_requests (Landed job k n delta) = False"
| "holds_requests (Returned scheduled) = False"
| "holds_requests _ = True"

fun holds_guard :: "'r phase \<Rightarrow> bool" where
  "holds_guard Claimed = False"
| "holds_guard (Returned scheduled) = False"
| "holds_guard _ = True"

definition held_ids :: "'r running \<Rightarrow> request_id set" where
  "held_ids w = (if holds_requests (rw_phase w) then rq_id ` set (rw_requests w) else {})"

definition held_by :: "(qos_profile_id \<Rightarrow> 'r running option) \<Rightarrow> qos_profile_id \<Rightarrow> request_id set" where
  "held_by W p = (case W p of None \<Rightarrow> {} | Some w \<Rightarrow> held_ids w)"

definition queued_ids :: "'r system \<Rightarrow> request_id list" where
  "queued_ids sy = map rq_id (in_pending (ss_inner (sy_shared sy)))"

definition live_ids :: "'r system \<Rightarrow> request_id set" where
  "live_ids sy = dom (map_of (in_assignments (ss_inner (sy_shared sy))))"

definition known_ids :: "'r system \<Rightarrow> request_id set" where
  "known_ids sy = set (queued_ids sy) \<union> (\<Union>p. held_by (sy_workers sy) p) \<union> live_ids sy"

definition request_ok :: "request \<Rightarrow> bool" where
  "request_ok r \<longleftrightarrow> (case rq_qos_profile r of None \<Rightarrow> True | Some p \<Rightarrow> qp_flavours p \<noteq> [])"

definition is_swarm :: "config \<Rightarrow> bool" where
  "is_swarm cfg = is_online_swarm_strategy (sc_solver_strategy (cfg_solver cfg))"

definition is_merge :: "config \<Rightarrow> bool" where
  "is_merge cfg \<longleftrightarrow> sw_mode (cfg_swarm cfg) = ''merge''"

definition set_phase :: "qos_profile_id \<Rightarrow> 'r running \<Rightarrow> 'r phase \<Rightarrow> 'r system \<Rightarrow> 'r system" where
  "set_phase p w ph sy = sy\<lparr>sy_workers := (sy_workers sy)(p \<mapsto> w\<lparr>rw_phase := ph\<rparr>)\<rparr>"

abbreviation on_inner :: "(inner \<Rightarrow> inner) \<Rightarrow> 'r system \<Rightarrow> 'r system" where
  "on_inner f sy \<equiv> sy\<lparr>sy_shared := with_inner f (sy_shared sy)\<rparr>"

section \<open>The steps\<close>

inductive system_step :: "'r rng \<Rightarrow> config \<Rightarrow> (string, f64) hmap \<Rightarrow> 'r system \<Rightarrow> 'r system \<Rightarrow> bool"
  for g :: "'r rng" and cfg :: config and fdb :: "(string, f64) hmap" where
  Submit: "request_ok r \<Longrightarrow> rq_id r \<notin> known_ids sy \<Longrightarrow>
     system_step g cfg fdb sy (on_inner (add_request r) sy)"
| Clock: "system_step g cfg fdb sy
     (sy\<lparr>sy_shared := set_virtual_elapsed_ms ms (sy_shared sy)\<rparr>)"
| Slot: "system_step g cfg fdb sy (on_inner (set_current_slot s) sy)"
| Flush: "system_step g cfg fdb sy (sy\<lparr>sy_shared := request_pending_flush s (sy_shared sy)\<rparr>)"
| Unflush: "system_step g cfg fdb sy (sy\<lparr>sy_shared := clear_pending_flush s (sy_shared sy)\<rparr>)"
| Feedback: "system_step g cfg fdb sy (on_inner (correct_assignment_error i err) sy)"
| Feedback_cost: "system_step g cfg fdb sy (on_inner (snd \<circ> correct_assignment_carbon_cost i cost) sy)"
| Replace_tiers: "(\<And>p w. sy_workers sy p = Some w \<Longrightarrow> \<not> holds_guard (rw_phase w)) \<Longrightarrow>
     system_step g cfg fdb sy (sy\<lparr>sy_shared := replace_capacity_tiers tiers (sy_shared sy)\<rparr>)"
| Claim: "dispatch_claim cfg slot flush counts (ss_inner (sy_shared sy)) (sy_sched sy)
       = (Some (p, n, reqs), st, sd) \<Longrightarrow>
     0 \<le> slot \<Longrightarrow> int (length forecast) = cfg_total_slots cfg \<Longrightarrow>
     system_step g cfg fdb sy
       \<lparr>sy_shared = (sy_shared sy)\<lparr>ss_inner := st\<rparr>, sy_sched = sd,
        sy_workers = (sy_workers sy)(p \<mapsto> \<lparr>rw_count = n, rw_requests = reqs, rw_slot = slot,
          rw_forecast = forecast, rw_phase = Claimed\<rparr>)\<rparr>"
| Claim_fails: "dispatch_claim cfg slot flush counts (ss_inner (sy_shared sy)) (sy_sched sy) = (None, st, sd) \<Longrightarrow>
     system_step g cfg fdb sy (sy\<lparr>sy_shared := (sy_shared sy)\<lparr>ss_inner := st\<rparr>, sy_sched := sd\<rparr>)"
| Start: "sy_workers sy p = Some w \<Longrightarrow> rw_phase w = Claimed \<Longrightarrow>
     job = worker_job_of cfg (rw_slot w) (rw_forecast w) fdb (sy_shared sy) (rw_requests w) \<Longrightarrow>
     system_step g cfg fdb sy (set_phase p w (Solving job 0)
       (sy\<lparr>sy_sched := refresh_capacity_revision (capacity_tier_revision (sy_shared sy)) (sy_sched sy)\<rparr>))"
| Solve: "sy_workers sy p = Some w \<Longrightarrow> rw_phase w = Solving job k \<Longrightarrow> \<not> is_swarm cfg \<Longrightarrow> valid_order (or_order orc) \<Longrightarrow>
     run_strategy (select_batch_solver (sc_solver_strategy (cfg_solver cfg))) orc
       (batch_context job (ss_inner (sy_shared sy)) (sd_recovery (sy_sched sy))) = Some (res, recovery) \<Longrightarrow>
     system_step g cfg fdb sy (set_phase p w
       (if br_assignments res = [] then Giving_up
        else Proposed job k (br_assignments res) (br_baseline_slot_counts res) DeltaNone)
       (sy\<lparr>sy_sched := (sy_sched sy)\<lparr>sd_recovery := recovery\<rparr>\<rparr>))"
| Observe: "sy_workers sy p = Some w \<Longrightarrow> rw_phase w = Solving job k \<Longrightarrow> is_swarm cfg \<Longrightarrow> \<not> is_merge cfg \<Longrightarrow>
     system_step g cfg fdb sy (set_phase p w
       (Observed job (swarm_context_snapshot_for_profile (Some p) (ss_inner (sy_shared sy)))) sy)"
| Solve_serialized: "sy_workers sy p = Some w \<Longrightarrow> rw_phase w = Observed job ctx \<Longrightarrow>
     swarm_entry g job p (sy_sched sy) = Some (Serialized swarm, sd) \<Longrightarrow>
     swarm_solve_batch g now (wj_pending job) (wj_slot job) (wj_forecast job) ctx (wj_policy job) swarm
       = Some (as, swarm') \<Longrightarrow>
     system_step g cfg fdb sy (set_phase p w
       (if as = [] then Giving_up else Proposed job 0 (retag p as) (swc_slot_count ctx) DeltaNone)
       (sy\<lparr>sy_sched := sd\<lparr>sd_swarm_states := hm_insert p (Serialized swarm') (sd_swarm_states sd)\<rparr>\<rparr>))"
| Solve_merge: "sy_workers sy p = Some w \<Longrightarrow> rw_phase w = Solving job k \<Longrightarrow> is_swarm cfg \<Longrightarrow> is_merge cfg \<Longrightarrow>
     ctx = swarm_context_snapshot_for_profile (Some p) (ss_inner (sy_shared sy)) \<Longrightarrow>
     swarm_entry g job p (sy_sched sy) = Some (Merging swarm, sd) \<Longrightarrow>
     merge_swarm_solve_batch g now (wj_pending job) (wj_slot job) (wj_forecast job) ctx (wj_policy job) swarm
       = Some (as, delta) \<Longrightarrow>
     system_step g cfg fdb sy (set_phase p w
       (if as = [] then Giving_up else Proposed job k (retag p as) (swc_slot_count ctx) delta)
       (sy\<lparr>sy_sched := sd\<rparr>))"
| Commit: "sy_workers sy p = Some w \<Longrightarrow> rw_phase w = Proposed job k as baseline delta \<Longrightarrow>
     try_add_assignments_checked as (expected_occupancy as baseline) (pol_capacity_tiers (wj_policy job))
       (force_commit cfg k) k (ss_inner (sy_shared sy)) = Some (Committed, st) \<Longrightarrow>
     system_step g cfg fdb sy (set_phase p w
       (Landed job k (if is_swarm cfg then length as else length (rw_requests w)) delta)
       (on_inner (\<lambda>_. st) sy))"
| Roll_back: "sy_workers sy p = Some w \<Longrightarrow> rw_phase w = Proposed job k as baseline delta \<Longrightarrow>
     try_add_assignments_checked as (expected_occupancy as baseline) (pol_capacity_tiers (wj_policy job))
       (force_commit cfg k) k (ss_inner (sy_shared sy)) = Some (RolledBack, st) \<Longrightarrow>
     system_step g cfg fdb sy (set_phase p w
       (if is_swarm cfg \<and> \<not> is_merge cfg then Giving_up else Solving job (k + 1)) (on_inner (\<lambda>_. st) sy))"
| Account: "sy_workers sy p = Some w \<Longrightarrow> rw_phase w = Landed job k n delta \<Longrightarrow>
     (if is_swarm cfg \<and> is_merge cfg then merge_committed p delta (sy_sched sy) else Some (sy_sched sy)) = Some sd \<Longrightarrow>
     system_step g cfg fdb sy (set_phase p w (Returned True)
       (on_inner (\<lambda>st. if 0 < k \<and> \<not> is_swarm cfg then mark_requests_rolled_back (map rq_id (rw_requests w)) st else st)
         (sy\<lparr>sy_sched := note_commit n elapsed_ms sd\<rparr>)))"
| Requeue: "sy_workers sy p = Some w \<Longrightarrow> rw_phase w = Giving_up \<Longrightarrow>
     system_step g cfg fdb sy (set_phase p w (Returned False)
       (on_inner (requeue_pending_requests_front (rw_requests w)) sy))"
| Release: "sy_workers sy p = Some w \<Longrightarrow> rw_phase w = Returned scheduled \<Longrightarrow>
     system_step g cfg fdb sy
       (sy\<lparr>sy_sched := release_worker p (rw_slot w) (rw_count w) scheduled (sy_sched sy),
           sy_workers := (sy_workers sy)(p := None)\<rparr>)"

definition system_init :: "config \<Rightarrow> 'r system" where
  "system_init cfg =
     (let ss = initialize_capacity_tiers (cfg_capacity_tiers cfg) shared_state_new
      in \<lparr>sy_shared = ss, sy_sched = scheduler_state_new (capacity_tier_revision ss), sy_workers = (\<lambda>_. None)\<rparr>)"

inductive system_reachable :: "'r rng \<Rightarrow> config \<Rightarrow> (string, f64) hmap \<Rightarrow> 'r system \<Rightarrow> bool"
  for g :: "'r rng" and cfg :: config and fdb :: "(string, f64) hmap" where
  Init: "system_reachable g cfg fdb (system_init cfg)"
| Step: "system_reachable g cfg fdb sy \<Longrightarrow> system_step g cfg fdb sy sy' \<Longrightarrow> system_reachable g cfg fdb sy'"

section \<open>Where a request is\<close>

text \<open>
  The identifiers: queued in the list \<open>Q\<close>, held by worker \<open>p\<close> in \<open>H p\<close>, live in \<open>S\<close>; nowhere twice,
  and \<open>n\<close> in all.
\<close>

definition ids_inv :: "request_id list \<Rightarrow> (qos_profile_id \<Rightarrow> request_id set) \<Rightarrow> request_id set \<Rightarrow> nat \<Rightarrow> bool" where
  "ids_inv Q H S n \<longleftrightarrow>
     distinct Q \<and> finite (\<Union>p. H p) \<and> finite S \<and> set Q \<inter> S = {}
     \<and> (\<forall>p. H p \<inter> (set Q \<union> S) = {}) \<and> (\<forall>p q. p \<noteq> q \<longrightarrow> H p \<inter> H q = {})
     \<and> card (set Q \<union> (\<Union>p. H p) \<union> S) = n"

lemma held_update: "(\<Union>q. (H(p := A)) q) = A \<union> (\<Union>q\<in>- {p}. H q)"
  by auto

lemma held_split: "(\<Union>q. H q) = H p \<union> (\<Union>q\<in>- {p}. H q)"
  by auto

lemma ids_disjoint:
  assumes "ids_inv Q H S n"
  shows "H p \<inter> (set Q \<union> S) = {}" and "H p \<inter> (\<Union>q\<in>- {p}. H q) = {}"
    and "(\<Union>q\<in>- {p}. H q) \<inter> (set Q \<union> S) = {}"
  using assms unfolding ids_inv_def by blast+

text \<open>Moving identifiers between the three places keeps their number.\<close>

lemma ids_move:
  assumes inv: "ids_inv Q H S n" and "distinct Q'" and "finite A" and "finite S'"
    and same: "set Q' \<union> A \<union> S' = set Q \<union> H p \<union> S"
    and "set Q' \<inter> S' = {}" and "A \<inter> (set Q' \<union> S') = {}"
  shows "ids_inv Q' (H(p := A)) S' n"
proof -
  let ?rest = "\<Union>q\<in>- {p}. H q"
  have rest: "?rest \<inter> (set Q \<union> H p \<union> S) = {}" using ids_disjoint [OF inv, of p] by blast
  have fin: "finite ?rest" using inv unfolding ids_inv_def by (elim conjE) (erule finite_subset [rotated], blast)
  have pair: "(H(p := A)) q \<inter> (H(p := A)) q' = {}" if "q \<noteq> q'" for q q'
  proof -
    have "H q \<inter> H q' = {}" using inv that unfolding ids_inv_def by blast
    moreover have "r \<noteq> p \<Longrightarrow> A \<inter> H r = {}" for r using rest same by blast
    ultimately show ?thesis using that by (auto simp: fun_upd_apply)
  qed
  have "(H(p := A)) q \<inter> (set Q' \<union> S') = {}" for q
  proof (cases "q = p")
    case False
    then have "H q \<subseteq> ?rest" by blast
    then show ?thesis using rest same False by (simp add: fun_upd_apply) blast
  qed (use assms(7) in simp)
  moreover have "set Q' \<union> (\<Union>q. (H(p := A)) q) \<union> S' = set Q \<union> (\<Union>q. H q) \<union> S"
    unfolding held_update held_split [of H p] using same by blast
  moreover have "finite (\<Union>q. (H(p := A)) q)" unfolding held_update using fin assms(3) by simp
  ultimately show ?thesis using assms(2,4,6) pair inv unfolding ids_inv_def by (simp only:) blast
qed

lemma ids_submit:
  assumes inv: "ids_inv Q H S n" and new: "i \<notin> set Q \<union> (\<Union>p. H p) \<union> S"
  shows "ids_inv (Q @ [i]) H S (n + 1)"
proof -
  let ?U = "set Q \<union> (\<Union>p. H p) \<union> S"
  have "finite ?U" and "card ?U = n" using inv by (simp_all add: ids_inv_def)
  moreover have "set (Q @ [i]) \<union> (\<Union>p. H p) \<union> S = insert i ?U" by auto
  ultimately have "card (set (Q @ [i]) \<union> (\<Union>p. H p) \<union> S) = n + 1" using new by simp
  then show ?thesis using inv new unfolding ids_inv_def by auto
qed

lemma ids_perm:
  assumes "ids_inv Q H S n" and "mset Q' = mset Q"
  shows "ids_inv Q' H S n"
  using assms mset_eq_setD [OF assms(2)] mset_eq_imp_distinct_iff [OF assms(2)] by (simp add: ids_inv_def)

lemma ids_claim:
  assumes inv: "ids_inv Q H S n" and "H p = {}" and m: "mset I + mset Q' = mset Q"
  shows "ids_inv Q' (H(p := set I)) S n"
proof -
  have m': "mset (I @ Q') = mset Q" using m by simp
  have "distinct (I @ Q')" using mset_eq_imp_distinct_iff [OF m'] inv by (simp add: ids_inv_def)
  moreover have "set (I @ Q') = set Q" using mset_eq_setD [OF m'] .
  ultimately show ?thesis
    using inv assms(2) by (intro ids_move [OF inv]) (auto simp: ids_inv_def)
qed

lemma ids_land:
  assumes inv: "ids_inv Q H S n"
  shows "ids_inv Q (H(p := {})) (S \<union> H p) n"
proof -
  have "finite (H p)" using inv unfolding ids_inv_def by (elim conjE) (erule finite_subset [rotated], blast)
  then show ?thesis
    using inv ids_disjoint(1) [OF inv, of p] by (intro ids_move [OF inv]) (auto simp: ids_inv_def)
qed

lemma ids_return:
  assumes inv: "ids_inv Q H S n" and "set I = H p" and "distinct I"
  shows "ids_inv (I @ Q) (H(p := {})) S n"
  using inv assms(2,3) ids_disjoint(1) [OF inv, of p]
  by (intro ids_move [OF inv]) (auto simp: ids_inv_def)

lemma held_by_upd [simp]: "held_by (W(p \<mapsto> w)) = (held_by W)(p := held_ids w)"
  by (auto simp: held_by_def fun_eq_iff)

lemma held_by_remove [simp]: "held_by (W(p := None)) = (held_by W)(p := {})"
  by (auto simp: held_by_def fun_eq_iff)

section \<open>The invariant\<close>

definition job_for :: "config \<Rightarrow> 'r running \<Rightarrow> worker_job \<Rightarrow> bool" where
  "job_for cfg w job \<longleftrightarrow>
     wj_cfg job = cfg \<and> wj_pending job = rw_requests w \<and> wj_slot job = rw_slot w
     \<and> wj_forecast job = rw_forecast w
     \<and> wj_policy job = worker_policy cfg (pol_capacity_tiers (wj_policy job)) (rw_requests w)"

definition proposal_ids_ok :: "request_id set \<Rightarrow> request list \<Rightarrow> assignment list \<Rightarrow> bool" where
  "proposal_ids_ok live reqs as \<longleftrightarrow>
     rq_id ` set reqs \<subseteq> as_request_id ` set as \<and> as_request_id ` set as \<subseteq> rq_id ` set reqs \<union> live"

abbreviation rollback_limit :: "config \<Rightarrow> nat" where
  "rollback_limit cfg \<equiv> sc_rollback_max_consecutive (cfg_solver cfg)"

fun phase_ok :: "config \<Rightarrow> request_id set \<Rightarrow> 'r running \<Rightarrow> 'r phase \<Rightarrow> bool" where
  "phase_ok cfg live w Claimed = True"
| "phase_ok cfg live w (Solving job k) = (job_for cfg w job \<and> k \<le> rollback_limit cfg)"
| "phase_ok cfg live w (Observed job ctx) = (job_for cfg w job \<and> \<not> is_merge cfg)"
| "phase_ok cfg live w (Proposed job k as baseline delta) =
     (job_for cfg w job \<and> k \<le> rollback_limit cfg \<and> proposal_ids_ok live (rw_requests w) as
      \<and> (is_swarm cfg \<longrightarrow> length as = length (rw_requests w)) \<and> delta_sized (nat (cfg_total_slots cfg)) delta)"
| "phase_ok cfg live w (Landed job k n delta) =
     (n = length (rw_requests w) \<and> delta_sized (nat (cfg_total_slots cfg)) delta)"
| "phase_ok cfg live w Giving_up = True"
| "phase_ok cfg live w (Returned scheduled) = True"

definition running_ok :: "config \<Rightarrow> request_id set \<Rightarrow> qos_profile_id \<Rightarrow> 'r running \<Rightarrow> bool" where
  "running_ok cfg live p w \<longleftrightarrow>
     rw_requests w \<noteq> [] \<and> length (rw_requests w) \<le> sc_batch_size (cfg_solver cfg)
     \<and> list_all (\<lambda>r. rq_qos_profile_id r = p \<and> request_ok r) (rw_requests w)
     \<and> distinct (map rq_id (rw_requests w))
     \<and> 0 \<le> rw_slot w \<and> int (length (rw_forecast w)) = cfg_total_slots cfg
     \<and> phase_ok cfg live w (rw_phase w)"

fun landed_in :: "'r phase \<Rightarrow> nat" where
  "landed_in (Landed job k n delta) = n"
| "landed_in _ = 0"

definition landed_by :: "(qos_profile_id \<Rightarrow> 'r running option) \<Rightarrow> qos_profile_id \<Rightarrow> nat" where
  "landed_by W p = (case W p of None \<Rightarrow> 0 | Some w \<Rightarrow> landed_in (rw_phase w))"

definition landed_total :: "(qos_profile_id \<Rightarrow> 'r running option) \<Rightarrow> nat" where
  "landed_total W = sum (landed_by W) (dom W)"

fun backend_ok :: "config \<Rightarrow> 'r swarm_backend \<Rightarrow> bool" where
  "backend_ok cfg (Serialized swarm) = (\<not> is_merge cfg \<and> swarm_sized (nat (cfg_total_slots cfg)) swarm)"
| "backend_ok cfg (Merging swarm) = (is_merge cfg \<and> swarm_sized (nat (cfg_total_slots cfg)) swarm)"

definition swarm_states_ok :: "config \<Rightarrow> 'r scheduler_state \<Rightarrow> bool" where
  "swarm_states_ok cfg sd \<longleftrightarrow>
     (\<forall>p b. map_of (sd_swarm_states sd) p = Some b \<longrightarrow> backend_ok cfg b)"

definition workers_match :: "config \<Rightarrow> 'r system \<Rightarrow> bool" where
  "workers_match cfg sy \<longleftrightarrow>
     finite (dom (sy_workers sy)) \<and> sd_active_workers (sy_sched sy) = card (dom (sy_workers sy))
     \<and> sd_active_profiles (sy_sched sy) = dom (sy_workers sy)
     \<and> card (dom (sy_workers sy)) \<le> max_workers cfg"

definition system_inv :: "config \<Rightarrow> 'r system \<Rightarrow> bool" where
  "system_inv cfg sy \<longleftrightarrow>
     inner_inv (ss_inner (sy_shared sy))
     \<and> list_all request_ok (in_pending (ss_inner (sy_shared sy)))
     \<and> ids_inv (queued_ids sy) (held_by (sy_workers sy)) (live_ids sy)
         (in_total_received (ss_inner (sy_shared sy)))
     \<and> workers_match cfg sy
     \<and> (\<forall>p w. sy_workers sy p = Some w \<longrightarrow> running_ok cfg (live_ids sy) p w)
     \<and> in_max_consecutive_rollbacks_seen (ss_inner (sy_shared sy)) \<le> rollback_limit cfg
     \<and> sst_total_scheduled (sd_stats (sy_sched sy)) + landed_total (sy_workers sy) = card (live_ids sy)
     \<and> swarm_states_ok cfg (sy_sched sy)"

definition config_ok :: "'r rng \<Rightarrow> config \<Rightarrow> bool" where
  "config_ok g cfg \<longleftrightarrow>
     rng_ok g \<and> in_i32 (cfg_total_slots cfg) \<and> 0 \<le> cfg_total_slots cfg \<and> cfg_flavours cfg \<noteq> []
     \<and> 0 \<le> sw_aco_q (cfg_swarm cfg)"

section \<open>Steps of one worker\<close>

lemma landed_total_upd:
  assumes "finite (dom W)" and "W p = Some w"
  shows "landed_total (W(p \<mapsto> w')) + landed_in (rw_phase w) = landed_total W + landed_in (rw_phase w')"
    and "landed_total (W(p := None)) + landed_in (rw_phase w) = landed_total W"
proof -
  let ?D = "dom W - {p}"
  have D: "dom W = insert p ?D" "p \<notin> ?D" "finite ?D" using assms by auto
  have rest: "sum (landed_by (W(p := x))) ?D = sum (landed_by W) ?D" for x
    by (rule sum.cong) (auto simp: landed_by_def)
  have "landed_total W = sum (landed_by W) (insert p ?D)" by (simp only: landed_total_def D(1) [symmetric])
  then have W: "landed_total W = landed_in (rw_phase w) + sum (landed_by W) ?D"
    unfolding sum.insert [OF D(3,2)] by (simp add: landed_by_def [of _ p] assms(2))
  have "dom (W(p \<mapsto> w')) = insert p ?D" by auto
  then have "landed_total (W(p \<mapsto> w')) = sum (landed_by (W(p \<mapsto> w'))) (insert p ?D)"
    by (simp only: landed_total_def)
  then have "landed_total (W(p \<mapsto> w')) = landed_in (rw_phase w') + sum (landed_by (W(p \<mapsto> w'))) ?D"
    unfolding sum.insert [OF D(3,2)] by (simp add: landed_by_def [of _ p])
  then show "landed_total (W(p \<mapsto> w')) + landed_in (rw_phase w) = landed_total W + landed_in (rw_phase w')"
    by (simp add: W rest)
  have "landed_total (W(p := None)) = sum (landed_by (W(p := None))) ?D"
    by (simp add: landed_total_def)
  then show "landed_total (W(p := None)) + landed_in (rw_phase w) = landed_total W"
    by (simp add: W rest)
qed

lemma landed_total_new:
  assumes "finite (dom W)" and "W p = None"
  shows "landed_total (W(p \<mapsto> w)) = landed_total W + landed_in (rw_phase w)"
proof -
  have "p \<notin> dom W" using assms(2) by auto
  moreover have "sum (landed_by (W(p \<mapsto> w))) (dom W) = sum (landed_by W) (dom W)"
    using assms(2) by (intro sum.cong) (auto simp: landed_by_def)
  ultimately show ?thesis using assms(1) by (simp add: landed_total_def landed_by_def [of _ p])
qed

lemma job_for_phase [simp]: "job_for cfg (w\<lparr>rw_phase := ph\<rparr>) job = job_for cfg w job"
  by (simp add: job_for_def)

lemma phase_ok_phase [simp]: "phase_ok cfg live (w\<lparr>rw_phase := ph'\<rparr>) ph = phase_ok cfg live w ph"
  by (cases ph) simp_all

lemma proposal_ids_mono: "proposal_ids_ok live reqs as \<Longrightarrow> live \<subseteq> live' \<Longrightarrow> proposal_ids_ok live' reqs as"
  unfolding proposal_ids_ok_def by blast

lemma running_ok_mono: "running_ok cfg live p w \<Longrightarrow> live \<subseteq> live' \<Longrightarrow> running_ok cfg live' p w"
  unfolding running_ok_def by (cases "rw_phase w") (auto dest: proposal_ids_mono)

text \<open>A step that touches neither the workers nor the scheduler's state.\<close>

lemma inv_frame:
  assumes inv: "system_inv cfg sy" and sy': "sy' = sy\<lparr>sy_shared := ss'\<rparr>"
    and st: "inner_inv (ss_inner ss')" "in_pending (ss_inner ss') = in_pending (ss_inner (sy_shared sy))"
      "dom (map_of (in_assignments (ss_inner ss'))) = live_ids sy"
      "in_total_received (ss_inner ss') = in_total_received (ss_inner (sy_shared sy))"
      "in_max_consecutive_rollbacks_seen (ss_inner ss') = in_max_consecutive_rollbacks_seen (ss_inner (sy_shared sy))"
  shows "system_inv cfg sy'"
proof -
  have "queued_ids sy' = queued_ids sy" "live_ids sy' = live_ids sy"
    using st(2,3) by (simp_all add: queued_ids_def live_ids_def sy')
  with inv st show ?thesis by (simp add: system_inv_def workers_match_def sy')
qed

text \<open>A step of the worker of profile \<open>p\<close> to the phase \<open>ph\<close>.\<close>

lemma inv_phase:
  assumes inv: "system_inv cfg sy" and w: "sy_workers sy p = Some w"
    and sy': "sy_workers sy' = (sy_workers sy)(p \<mapsto> w\<lparr>rw_phase := ph\<rparr>)"
    and st: "inner_inv (ss_inner (sy_shared sy'))" "list_all request_ok (in_pending (ss_inner (sy_shared sy')))"
    and ids: "ids_inv (queued_ids sy') ((held_by (sy_workers sy))(p := held_ids (w\<lparr>rw_phase := ph\<rparr>))) (live_ids sy')
        (in_total_received (ss_inner (sy_shared sy')))"
    and live: "live_ids sy \<subseteq> live_ids sy'"
    and sd: "sd_active_workers (sy_sched sy') = sd_active_workers (sy_sched sy)"
      "sd_active_profiles (sy_sched sy') = sd_active_profiles (sy_sched sy)"
      "swarm_states_ok cfg (sy_sched sy')"
    and ph: "phase_ok cfg (live_ids sy') w ph"
    and roll: "in_max_consecutive_rollbacks_seen (ss_inner (sy_shared sy')) \<le> rollback_limit cfg"
    and stat: "sst_total_scheduled (sd_stats (sy_sched sy')) + landed_in ph + card (live_ids sy)
      = sst_total_scheduled (sd_stats (sy_sched sy)) + landed_in (rw_phase w) + card (live_ids sy')"
  shows "system_inv cfg sy'"
proof -
  have wm: "workers_match cfg sy" using inv by (simp add: system_inv_def)
  have dom: "dom (sy_workers sy') = dom (sy_workers sy)" using w by (auto simp: sy')
  have match: "workers_match cfg sy'" using wm sd dom by (simp add: workers_match_def)
  have "running_ok cfg (live_ids sy') q v" if v: "sy_workers sy' q = Some v" for q v
  proof (cases "q = p")
    case True
    have "running_ok cfg (live_ids sy) p w" using inv w by (simp add: system_inv_def)
    with True v ph show ?thesis by (auto simp: sy' running_ok_def)
  next
    case False
    then have "running_ok cfg (live_ids sy) q v" using inv v by (simp add: system_inv_def sy')
    then show ?thesis using live by (rule running_ok_mono)
  qed
  moreover have "sst_total_scheduled (sd_stats (sy_sched sy')) + landed_total (sy_workers sy') = card (live_ids sy')"
  proof -
    have "finite (dom (sy_workers sy))" using wm by (simp add: workers_match_def)
    from landed_total_upd(1) [OF this w, of "w\<lparr>rw_phase := ph\<rparr>"] have
      "landed_total (sy_workers sy') + landed_in (rw_phase w) = landed_total (sy_workers sy) + landed_in ph"
      by (simp add: sy')
    moreover have "sst_total_scheduled (sd_stats (sy_sched sy)) + landed_total (sy_workers sy) = card (live_ids sy)"
      using inv by (simp add: system_inv_def)
    ultimately show ?thesis using stat by linarith
  qed
  ultimately show ?thesis using st ids match sd(3) roll by (simp add: system_inv_def sy')
qed

text \<open>What the invariant says of one worker.\<close>

lemma inv_running:
  assumes "system_inv cfg sy" and "sy_workers sy p = Some w"
  shows "running_ok cfg (live_ids sy) p w"
    and "ids_inv (queued_ids sy) (held_by (sy_workers sy)) (live_ids sy) (in_total_received (ss_inner (sy_shared sy)))"
    and "held_by (sy_workers sy) p = held_ids w"
    and "inner_inv (ss_inner (sy_shared sy))"
    and "list_all request_ok (in_pending (ss_inner (sy_shared sy)))"
    and "in_max_consecutive_rollbacks_seen (ss_inner (sy_shared sy)) \<le> rollback_limit cfg"
    and "swarm_states_ok cfg (sy_sched sy)"
  using assms by (simp_all add: system_inv_def held_by_def)

lemma held_phase: "held_ids (w\<lparr>rw_phase := ph\<rparr>) = (if holds_requests ph then rq_id ` set (rw_requests w) else {})"
  by (simp add: held_ids_def)

text \<open>A step that keeps the requests of the worker where they are.\<close>

lemma ids_same:
  assumes "system_inv cfg sy" and "sy_workers sy p = Some w" and "holds_requests ph = holds_requests (rw_phase w)"
    and "queued_ids sy' = queued_ids sy" and "live_ids sy' = live_ids sy"
    and "in_total_received (ss_inner (sy_shared sy')) = in_total_received (ss_inner (sy_shared sy))"
  shows "ids_inv (queued_ids sy') ((held_by (sy_workers sy))(p := held_ids (w\<lparr>rw_phase := ph\<rparr>))) (live_ids sy')
        (in_total_received (ss_inner (sy_shared sy')))"
proof -
  have "held_ids (w\<lparr>rw_phase := ph\<rparr>) = held_by (sy_workers sy) p"
    using assms(2,3) by (simp add: held_ids_def held_by_def)
  then show ?thesis using inv_running(2) [OF assms(1,2)] assms(4-6) by simp
qed

section \<open>The jobs of the running workers\<close>

lemma worker_policy_sel [simp]:
  "pol_total_slots (worker_policy cfg tiers reqs) = cfg_total_slots cfg"
  "pol_capacity_tiers (worker_policy cfg tiers reqs) = tiers"
  by (simp_all add: worker_policy_def assignment_policy_for_profile_def assignment_policy_of_def
      split: list.split option.split)

lemma worker_policy_flavours:
  "config_ok g cfg \<Longrightarrow> list_all request_ok reqs \<Longrightarrow> pol_flavours (worker_policy cfg tiers reqs) \<noteq> []"
  by (auto simp: worker_policy_def assignment_policy_for_profile_def assignment_policy_of_def config_ok_def
      request_ok_def split: list.splits option.splits)

lemma running_job:
  assumes cfg: "config_ok g cfg" and inv: "system_inv cfg sy" and w: "sy_workers sy p = Some w"
    and job: "job_for cfg w job" and held: "holds_requests (rw_phase w)"
  shows "job_ok job" and "swarm_job_ok g job" and "unclaimed job (ss_inner (sy_shared sy))"
    and "swarm_ready job p (sy_sched sy)" and "job_slots job = nat (cfg_total_slots cfg)"
proof -
  note r = inv_running [OF inv w]
  have pol: "wj_policy job = worker_policy cfg (pol_capacity_tiers (wj_policy job)) (rw_requests w)"
    and sel: "wj_cfg job = cfg" "wj_pending job = rw_requests w" "wj_slot job = rw_slot w"
      "wj_forecast job = rw_forecast w"
    using job by (simp_all add: job_for_def)
  have slots: "pol_total_slots (wj_policy job) = cfg_total_slots cfg" by (subst pol) simp
  then show n: "job_slots job = nat (cfg_total_slots cfg)" by (simp add: job_slots_def)
  have reqs: "list_all request_ok (rw_requests w)" "distinct (map rq_id (rw_requests w))"
    using r(1) by (auto simp: running_ok_def list_all_iff)
  have fl: "pol_flavours (wj_policy job) \<noteq> []"
    by (subst pol) (rule worker_policy_flavours [OF cfg reqs(1)])
  show "job_ok job"
    using r(1) cfg reqs fl slots
    by (auto simp: job_ok_def sel running_ok_def config_ok_def list_all_iff request_ok_def)
  show "swarm_job_ok g job"
    using cfg reqs fl slots by (simp add: swarm_job_ok_def sel config_ok_def)
  have "held_ids w \<inter> live_ids sy = {}"
    using ids_disjoint(1) [OF r(2), of p] r(3) by auto
  then show "unclaimed job (ss_inner (sy_shared sy))"
    using r(4) held by (simp add: unclaimed_def sel live_ids_def held_ids_def)
  show "swarm_ready job p (sy_sched sy)"
  proof (cases "map_of (sd_swarm_states (sy_sched sy)) p")
    case (Some b)
    then have "backend_ok cfg b" using r(7) by (simp add: swarm_states_ok_def)
    with Some n show ?thesis by (cases b) (simp_all add: swarm_ready_def sel is_merge_def)
  qed (simp add: swarm_ready_def)
qed

section \<open>Frames of the operations\<close>

lemma record_all_frame:
  "record_all st as = Some st' \<Longrightarrow>
     in_total_received st' = in_total_received st
     \<and> in_max_consecutive_rollbacks_seen st' = in_max_consecutive_rollbacks_seen st"
proof (induction as arbitrary: st)
  case (Cons a as)
  then obtain st1 where st1: "record_assignment st a = Some st1" "record_all st1 as = Some st'"
    by (auto split: option.splits)
  have "in_total_received st1 = in_total_received st
      \<and> in_max_consecutive_rollbacks_seen st1 = in_max_consecutive_rollbacks_seen st"
    using st1(1) by (auto simp: record_assignment_def record_new_def Let_def split: option.splits prod.splits)
  with Cons.IH [OF st1(2)] show ?case by simp
qed simp

lemma correct_assignment_error_frame:
  "dom (map_of (in_assignments (correct_assignment_error i e st))) = dom (map_of (in_assignments st))"
  "in_pending (correct_assignment_error i e st) = in_pending st"
  "in_total_received (correct_assignment_error i e st) = in_total_received st"
  "in_max_consecutive_rollbacks_seen (correct_assignment_error i e st) = in_max_consecutive_rollbacks_seen st"
  by (auto simp: correct_assignment_error_def Let_def map_simps split: option.splits if_splits)

lemma correct_assignment_carbon_cost_frame:
  "dom (map_of (in_assignments (snd (correct_assignment_carbon_cost i e st)))) = dom (map_of (in_assignments st))"
  "in_pending (snd (correct_assignment_carbon_cost i e st)) = in_pending st"
  "in_total_received (snd (correct_assignment_carbon_cost i e st)) = in_total_received st"
  "in_max_consecutive_rollbacks_seen (snd (correct_assignment_carbon_cost i e st)) = in_max_consecutive_rollbacks_seen st"
  by (auto simp: correct_assignment_carbon_cost_def map_simps split: option.splits if_splits)

lemma set_current_slot_frame:
  "in_assignments (set_current_slot s st) = in_assignments st"
  "in_pending (set_current_slot s st) = in_pending st"
  "in_total_received (set_current_slot s st) = in_total_received st"
  "in_max_consecutive_rollbacks_seen (set_current_slot s st) = in_max_consecutive_rollbacks_seen st"
  by (simp_all add: set_current_slot_def)

text \<open>What an update of the learned states leaves alone.\<close>

definition same_but_swarm :: "'r scheduler_state \<Rightarrow> 'r scheduler_state \<Rightarrow> bool" where
  "same_but_swarm sd sd' \<longleftrightarrow>
     sd_active_workers sd' = sd_active_workers sd \<and> sd_active_profiles sd' = sd_active_profiles sd
     \<and> sd_stats sd' = sd_stats sd"

lemma same_but_swarmD:
  assumes "same_but_swarm sd sd'"
  shows "sd_active_workers sd' = sd_active_workers sd" and "sd_active_profiles sd' = sd_active_profiles sd"
    and "sd_stats sd' = sd_stats sd"
  using assms by (simp_all add: same_but_swarm_def)

lemma states_ok_insert:
  "swarm_states_ok cfg sd \<Longrightarrow> backend_ok cfg b \<Longrightarrow>
   swarm_states_ok cfg (sd\<lparr>sd_swarm_states := hm_insert p b (sd_swarm_states sd)\<rparr>)"
  by (simp add: swarm_states_ok_def map_simps)

lemma swarm_entry_frame:
  assumes "swarm_job_ok g job" and "wj_cfg job = cfg" and "job_slots job = nat (cfg_total_slots cfg)"
    and "swarm_states_ok cfg sd" and "swarm_entry g job p sd = Some (b, sd')"
  shows "same_but_swarm sd sd'" and "swarm_states_ok cfg sd'" and "backend_ok cfg b"
proof -
  have "same_but_swarm sd sd' \<and> swarm_states_ok cfg sd' \<and> backend_ok cfg b"
  proof (cases "map_of (sd_swarm_states sd) p")
    case None
    obtain swarm where sw: "swarm_from_config g (cfg_solver cfg) (cfg_swarm cfg) (wj_policy job)
        (wj_forecast job) = Some swarm" "swarm_sized (nat (cfg_total_slots cfg)) swarm"
      using swarm_from_config_sized [OF assms(1)] assms(2,3) by metis
    have b: "b = (if is_merge cfg then Merging swarm else Serialized swarm)"
      and sd': "sd' = sd\<lparr>sd_swarm_states := hm_insert p b (sd_swarm_states sd)\<rparr>"
      using assms(5) None sw(1) by (auto simp: swarm_entry_def backend_from_config_def assms(2) is_merge_def)
    have "backend_ok cfg b" using sw(2) by (simp add: b)
    with assms(4) show ?thesis by (simp add: sd' states_ok_insert same_but_swarm_def)
  next
    case (Some b0)
    with assms(4,5) show ?thesis
      by (simp add: swarm_entry_def swarm_states_ok_def same_but_swarm_def)
  qed
  then show "same_but_swarm sd sd'" and "swarm_states_ok cfg sd'" and "backend_ok cfg b" by simp_all
qed

lemma merge_mean_length:
  "merge_mean d (q, n) i = Some (q', n') \<Longrightarrow> length q' = length q \<and> length n' = length n"
  by (auto simp: merge_mean_def Let_def split: if_splits)

lemma merge_delta_keeps_size:
  assumes "swarm_merge_delta d swarm = Some swarm'" and "swarm_sized n swarm"
  shows "swarm_sized n swarm'"
proof (cases "(d, swarm)" rule: swarm_merge_delta.cases)
  case (1 bd b)
  have fold: "fold_opt (merge_mean bd) (q0, n0) is = Some (q', n') \<Longrightarrow>
      length q' = length q0 \<and> length n' = length n0" for "is" q0 n0 q' n'
  proof (induction "is" arbitrary: q0 n0)
    case (Cons i "is")
    then obtain q1 n1 where "merge_mean bd (q0, n0) i = Some (q1, n1)"
      "fold_opt (merge_mean bd) (q1, n1) is = Some (q', n')"
      by (auto simp: fold_opt_Cons split: option.splits)
    with Cons.IH merge_mean_length show ?case by metis
  qed simp
  obtain b' where b': "bandit_merge_delta bd b = Some b'" "swarm' = SwarmBandit b'"
    using assms(1) 1 by auto
  then obtain q n' where "fold_opt (merge_mean bd) (ob_q b, ob_n b) [0..<length (ob_q b)] = Some (q, n')"
    "b' = b\<lparr>ob_q := q, ob_n := n', ob_rng := bd_rng_after bd\<rparr>"
    by (auto simp: bandit_merge_delta_def)
  with fold b' assms(2) 1 show ?thesis by force
qed (use assms in \<open>auto simp: aco_merge_delta_def split: if_splits\<close>)

lemma merge_committed_frame:
  assumes "swarm_states_ok cfg sd" and "merge_committed p delta sd = Some sd'"
  shows "same_but_swarm sd sd'" and "swarm_states_ok cfg sd'"
proof -
  have "same_but_swarm sd sd' \<and> swarm_states_ok cfg sd'"
  proof (cases "\<exists>swarm. map_of (sd_swarm_states sd) p = Some (Merging swarm)")
    case True
    then obtain swarm where m: "map_of (sd_swarm_states sd) p = Some (Merging swarm)" by blast
    then have ok: "backend_ok cfg (Merging swarm)" using assms(1) unfolding swarm_states_ok_def by blast
    obtain swarm' where sw: "swarm_merge_delta delta swarm = Some swarm'"
      "sd' = sd\<lparr>sd_swarm_states := hm_insert p (Merging swarm') (sd_swarm_states sd)\<rparr>"
      using assms(2) m by (auto simp: merge_committed_def)
    have "backend_ok cfg (Merging swarm')" using ok merge_delta_keeps_size [OF sw(1)] by simp
    with assms(1) show ?thesis by (simp add: sw(2) states_ok_insert same_but_swarm_def)
  next
    case False
    then have "sd' = sd"
      using assms(2) by (auto simp: merge_committed_def split: option.splits swarm_backend.splits)
    with assms(1) show ?thesis by (simp add: same_but_swarm_def)
  qed
  then show "same_but_swarm sd sd'" and "swarm_states_ok cfg sd'" by simp_all
qed

lemma refresh_frame:
  assumes "swarm_states_ok cfg sd"
  shows "same_but_swarm sd (refresh_capacity_revision revision sd)"
    and "swarm_states_ok cfg (refresh_capacity_revision revision sd)"
  using assms by (simp_all add: refresh_capacity_revision_def same_but_swarm_def swarm_states_ok_def)

lemma note_commit_sel [simp]:
  "sd_active_workers (note_commit n ms sd) = sd_active_workers sd"
  "sd_active_profiles (note_commit n ms sd) = sd_active_profiles sd"
  "sst_total_scheduled (sd_stats (note_commit n ms sd)) = sst_total_scheduled (sd_stats sd) + n"
  by (simp_all add: note_commit_def Let_def)

lemma note_commit_states_ok [simp]: "swarm_states_ok cfg (note_commit n ms sd) = swarm_states_ok cfg sd"
  by (simp add: swarm_states_ok_def)

lemma release_worker_sel [simp]:
  "sd_active_workers (release_worker p slot n b sd) = sd_active_workers sd - 1"
  "sd_active_profiles (release_worker p slot n b sd) = sd_active_profiles sd - {p}"
  "sd_stats (release_worker p slot n b sd) = sd_stats sd"
  "sd_swarm_states (release_worker p slot n b sd) = sd_swarm_states sd"
  by (simp_all add: release_worker_def)

lemma reserve_total_scheduled [simp]:
  "sst_total_scheduled (sd_stats (reserve_worker p sd)) = sst_total_scheduled (sd_stats sd)"
  by (simp add: reserve_worker_def Let_def)

lemma set_phase_sel [simp]:
  "sy_shared (set_phase p w ph sy) = sy_shared sy" "sy_sched (set_phase p w ph sy) = sy_sched sy"
  "sy_workers (set_phase p w ph sy) = (sy_workers sy)(p \<mapsto> w\<lparr>rw_phase := ph\<rparr>)"
  by (simp_all add: set_phase_def)

lemma set_phase_ids [simp]:
  "queued_ids (set_phase p w ph sy) = queued_ids sy" "live_ids (set_phase p w ph sy) = live_ids sy"
  by (simp_all add: queued_ids_def live_ids_def)

lemma ids_of_sched [simp]:
  "queued_ids (sy\<lparr>sy_sched := sd\<rparr>) = queued_ids sy" "live_ids (sy\<lparr>sy_sched := sd\<rparr>) = live_ids sy"
  by (simp_all add: queued_ids_def live_ids_def)

lemma with_inner_sel [simp]: "ss_inner (with_inner f ss) = f (ss_inner ss)"
  by (simp add: with_inner_def)

text \<open>A step of a worker that changes only the scheduler's state.\<close>

lemma inv_phase_sched:
  assumes inv: "system_inv cfg sy" and w: "sy_workers sy p = Some w"
    and "holds_requests ph = holds_requests (rw_phase w)" and "landed_in ph = landed_in (rw_phase w)"
    and "same_but_swarm (sy_sched sy) sd" and "swarm_states_ok cfg sd" and "phase_ok cfg (live_ids sy) w ph"
  shows "system_inv cfg (set_phase p w ph (sy\<lparr>sy_sched := sd\<rparr>))"
proof (rule inv_phase [OF inv w, where ph = ph])
  note r = inv_running [OF inv w]
  let ?sy = "set_phase p w ph (sy\<lparr>sy_sched := sd\<rparr>)"
  show "ids_inv (queued_ids ?sy) ((held_by (sy_workers sy))(p := held_ids (w\<lparr>rw_phase := ph\<rparr>))) (live_ids ?sy)
        (in_total_received (ss_inner (sy_shared ?sy)))"
    by (rule ids_same [OF inv w assms(3)]) simp_all
  show "sst_total_scheduled (sd_stats (sy_sched ?sy)) + landed_in ph + card (live_ids sy)
      = sst_total_scheduled (sd_stats (sy_sched sy)) + landed_in (rw_phase w) + card (live_ids ?sy)"
    using assms(4) same_but_swarmD(3) [OF assms(5)] by simp
qed (use inv_running [OF inv w] assms(6,7) same_but_swarmD [OF assms(5)] in simp_all)

section \<open>Every step keeps the invariant\<close>

lemma inv_submit:
  assumes inv: "system_inv cfg sy" and "request_ok r" and new: "rq_id r \<notin> known_ids sy"
  shows "system_inv cfg (on_inner (add_request r) sy)"
proof -
  let ?sy = "on_inner (add_request r) sy"
  have live: "live_ids ?sy = live_ids sy" by (simp add: live_ids_def)
  have "queued_ids ?sy = queued_ids sy @ [rq_id r]" by (simp add: queued_ids_def add_request_def)
  moreover have "ids_inv (queued_ids sy @ [rq_id r]) (held_by (sy_workers sy)) (live_ids sy)
      (in_total_received (ss_inner (sy_shared sy)) + 1)"
    using inv new by (intro ids_submit) (simp_all add: system_inv_def known_ids_def)
  ultimately show ?thesis
    using inv assms(2) live unfolding system_inv_def
    by (simp add: workers_match_def) (simp add: add_request_def)
qed

lemma inv_claim:
  assumes inv: "system_inv cfg sy"
    and claim: "dispatch_claim cfg slot flush counts (ss_inner (sy_shared sy)) (sy_sched sy) = (Some (p, n, reqs), st, sd)"
    and slot: "0 \<le> slot" "int (length forecast) = cfg_total_slots cfg"
  shows "system_inv cfg \<lparr>sy_shared = (sy_shared sy)\<lparr>ss_inner := st\<rparr>, sy_sched = sd,
      sy_workers = (sy_workers sy)(p \<mapsto> \<lparr>rw_count = n, rw_requests = reqs, rw_slot = slot,
          rw_forecast = forecast, rw_phase = Claimed\<rparr>)\<rparr>" (is "system_inv cfg ?sy")
proof -
  let ?st = "ss_inner (sy_shared sy)"
  let ?w = "\<lparr>rw_count = n, rw_requests = reqs, rw_slot = slot, rw_forecast = forecast, rw_phase = Claimed\<rparr>"
  note d = dispatch_claim_Some [OF claim] and b = dispatch_claim_batch [OF claim]
  have wm: "finite (dom (sy_workers sy))" "sd_active_workers (sy_sched sy) = card (dom (sy_workers sy))"
    "sd_active_profiles (sy_sched sy) = dom (sy_workers sy)"
    using inv by (simp_all add: system_inv_def workers_match_def)
  have idle: "sy_workers sy p = None" using d(2) wm(3) by auto
  obtain q where q: "st = ?st\<lparr>in_pending := q\<rparr>" using b(5) by blast
  have live: "live_ids ?sy = live_ids sy" by (simp add: live_ids_def q)
  have pend: "in_pending st = q" "in_total_received st = in_total_received ?st"
    "in_max_consecutive_rollbacks_seen st = in_max_consecutive_rollbacks_seen ?st"
    by (subst q, simp)+
  have m: "mset reqs + mset q = mset (in_pending ?st)" using b(4) by (simp only: pend)
  have "image_mset rq_id (mset reqs + mset q) = image_mset rq_id (mset (in_pending ?st))" by (simp only: m)
  then have mi: "mset (map rq_id reqs) + mset (map rq_id q) = mset (queued_ids sy)"
    by (simp add: queued_ids_def)
  have ids: "ids_inv (queued_ids sy) (held_by (sy_workers sy)) (live_ids sy) (in_total_received ?st)"
    using inv by (simp add: system_inv_def)
  have "held_by (sy_workers sy) p = {}" by (simp add: held_by_def idle)
  from ids_claim [OF ids this mi]
  have ids': "ids_inv (queued_ids ?sy) (held_by (sy_workers ?sy)) (live_ids ?sy) (in_total_received st)"
    unfolding live by (simp add: queued_ids_def pend held_ids_def)
  have sub: "set reqs \<subseteq> set (in_pending ?st)" "set q \<subseteq> set (in_pending ?st)"
    using arg_cong [OF m, of set_mset] by auto
  have oks: "list_all request_ok (in_pending ?st)" using inv by (simp add: system_inv_def)
  have "mset (map rq_id reqs @ map rq_id q) = mset (queued_ids sy)" using mi by simp
  then have "distinct (map rq_id reqs @ map rq_id q)"
    using ids mset_eq_imp_distinct_iff unfolding ids_inv_def by blast
  then have run: "running_ok cfg (live_ids sy) p ?w"
    using d(6) b(1,3) slot oks sub by (auto simp: running_ok_def list_all_iff)
  have dom: "dom (sy_workers ?sy) = insert p (dom (sy_workers sy))" by auto
  have "p \<notin> dom (sy_workers sy)" using idle by auto
  then have "workers_match cfg ?sy"
    using wm d(1) unfolding workers_match_def dom by (simp add: d(8))
  moreover have "landed_total (sy_workers ?sy) = landed_total (sy_workers sy)"
    using landed_total_new [of "sy_workers sy" p ?w, OF wm(1) idle] by simp
  moreover have "running_ok cfg (live_ids ?sy) q w" if "sy_workers ?sy q = Some w" for q w
    using that run inv by (cases "q = p") (auto simp: live system_inv_def)
  moreover have "inner_inv st"
    using inv by (simp add: system_inv_def q) (rule inner_inv_cong [THEN iffD2], auto)
  moreover have "swarm_states_ok cfg sd" using inv by (simp add: system_inv_def swarm_states_ok_def d(8))
  ultimately show ?thesis
    using inv ids' oks sub live unfolding system_inv_def
    by (simp add: pend d(8)) (auto simp: list_all_iff)
qed

lemma inv_claim_fails:
  assumes inv: "system_inv cfg sy"
    and claim: "dispatch_claim cfg slot flush counts (ss_inner (sy_shared sy)) (sy_sched sy) = (None, st, sd)"
  shows "system_inv cfg (sy\<lparr>sy_shared := (sy_shared sy)\<lparr>ss_inner := st\<rparr>, sy_sched := sd\<rparr>)" (is "system_inv cfg ?sy")
proof -
  let ?st = "ss_inner (sy_shared sy)"
  note d = dispatch_claim_None [OF claim]
  obtain q where q: "st = ?st\<lparr>in_pending := q\<rparr>" using d(3) by blast
  have m: "mset q = mset (in_pending ?st)" using d(2) by (simp add: q)
  have live: "live_ids ?sy = live_ids sy" by (simp add: live_ids_def q)
  have "image_mset rq_id (mset q) = image_mset rq_id (mset (in_pending ?st))" by (simp only: m)
  then have "mset (queued_ids ?sy) = mset (queued_ids sy)" by (simp add: queued_ids_def q)
  moreover have "ids_inv (queued_ids sy) (held_by (sy_workers sy)) (live_ids sy) (in_total_received ?st)"
    using inv by (simp add: system_inv_def)
  ultimately have "ids_inv (queued_ids ?sy) (held_by (sy_workers sy)) (live_ids sy) (in_total_received ?st)"
    by (rule ids_perm [rotated])
  moreover have "inner_inv st"
    using inv by (simp add: system_inv_def q) (rule inner_inv_cong [THEN iffD2], auto)
  ultimately show ?thesis
    using inv live mset_eq_setD [OF m] by (auto simp: system_inv_def workers_match_def d(1) q list_all_iff)
qed

lemma inv_commit:
  assumes inv: "system_inv cfg sy" and w: "sy_workers sy p = Some w"
    and ph: "rw_phase w = Proposed job k as baseline delta"
    and commit: "try_add_assignments_checked as expected tiers force k (ss_inner (sy_shared sy)) = Some (Committed, st)"
  shows "system_inv cfg (set_phase p w
       (Landed job k (if is_swarm cfg then length as else length (rw_requests w)) delta) (on_inner (\<lambda>_. st) sy))"
    (is "system_inv cfg ?sy")
proof (rule inv_phase [OF inv w])
  let ?st = "ss_inner (sy_shared sy)" and ?I = "rq_id ` set (rw_requests w)"
  note r = inv_running [OF inv w]
  have rec: "record_all ?st as = Some st" using commit by (rule committed_records)
  note fr = record_all_frame [OF rec]
  have props: "proposal_ids_ok (live_ids sy) (rw_requests w) as" and len: "is_swarm cfg \<longrightarrow> length as = length (rw_requests w)"
    and k: "k \<le> rollback_limit cfg" and sized: "delta_sized (nat (cfg_total_slots cfg)) delta" and dist: "distinct (map rq_id (rw_requests w))"
    using r(1) by (auto simp: running_ok_def ph)
  have live: "live_ids ?sy = live_ids sy \<union> ?I"
    using record_all_keys [OF rec] props unfolding proposal_ids_ok_def live_ids_def by auto
  have held: "held_by (sy_workers sy) p = ?I" using r(3) by (simp add: held_ids_def ph)
  have queue: "queued_ids ?sy = queued_ids sy" using record_all_pending [OF rec] by (simp add: queued_ids_def)
  show "ids_inv (queued_ids ?sy) ((held_by (sy_workers sy))(p := held_ids (w\<lparr>rw_phase :=
      Landed job k (if is_swarm cfg then length as else length (rw_requests w)) delta\<rparr>))) (live_ids ?sy)
      (in_total_received (ss_inner (sy_shared ?sy)))"
    using ids_land [OF r(2), of p] fr unfolding queue live held by (simp add: held_phase)
  have "?I \<inter> live_ids sy = {}" using ids_disjoint(1) [OF r(2), of p] held by auto
  moreover have "finite (live_ids sy)" using r(2) by (simp add: ids_inv_def)
  moreover have "card ?I = length (rw_requests w)" using distinct_card [OF dist] by simp
  ultimately have "card (live_ids ?sy) = card (live_ids sy) + length (rw_requests w)"
    unfolding live by (subst card_Un_disjoint) auto
  then show "sst_total_scheduled (sd_stats (sy_sched ?sy))
      + landed_in (Landed job k (if is_swarm cfg then length as else length (rw_requests w)) delta) + card (live_ids sy)
      = sst_total_scheduled (sd_stats (sy_sched sy)) + landed_in (rw_phase w) + card (live_ids ?sy)"
    using len by (simp add: ph)
  show "live_ids sy \<subseteq> live_ids ?sy" unfolding live by blast
  show "phase_ok cfg (live_ids ?sy) w (Landed job k (if is_swarm cfg then length as else length (rw_requests w)) delta)"
    using len sized by simp
  show "inner_inv (ss_inner (sy_shared ?sy))" using record_all_inv [OF r(4) rec] by simp
  show "list_all request_ok (in_pending (ss_inner (sy_shared ?sy)))"
    using r(5) record_all_pending [OF rec] by simp
  show "in_max_consecutive_rollbacks_seen (ss_inner (sy_shared ?sy)) \<le> rollback_limit cfg" using r(6) fr by simp
  show "swarm_states_ok cfg (sy_sched ?sy)" using r(7) by simp
qed simp_all

lemma inv_roll_back:
  assumes inv: "system_inv cfg sy" and w: "sy_workers sy p = Some w"
    and ph: "rw_phase w = Proposed job k as baseline delta"
    and roll: "try_add_assignments_checked as expected tiers (force_commit cfg k) k (ss_inner (sy_shared sy))
      = Some (RolledBack, st)"
    and ph': "ph' = Giving_up \<or> ph' = Solving job (k + 1)"
  shows "system_inv cfg (set_phase p w ph' (on_inner (\<lambda>_. st) sy))" (is "system_inv cfg ?sy")
proof (rule inv_phase [OF inv w])
  let ?st = "ss_inner (sy_shared sy)"
  note r = inv_running [OF inv w]
  have st: "st = note_rollback k ?st" using rolled_back_not_forced [OF roll] by simp
  have k: "k < rollback_limit cfg" using rolled_back_budget [OF roll] .
  have fr: "in_pending st = in_pending ?st" "in_assignments st = in_assignments ?st"
    "in_total_received st = in_total_received ?st"
    "in_max_consecutive_rollbacks_seen st \<le> max (in_max_consecutive_rollbacks_seen ?st) (k + 1)"
    by (simp_all add: st note_rollback_def Let_def)
  have same: "queued_ids ?sy = queued_ids sy" "live_ids ?sy = live_ids sy"
    by (simp_all add: queued_ids_def live_ids_def fr)
  show "ids_inv (queued_ids ?sy) ((held_by (sy_workers sy))(p := held_ids (w\<lparr>rw_phase := ph'\<rparr>))) (live_ids ?sy)
      (in_total_received (ss_inner (sy_shared ?sy)))"
    by (rule ids_same [OF inv w _ same]) (use ph' fr in \<open>auto simp: ph\<close>)
  show "in_max_consecutive_rollbacks_seen (ss_inner (sy_shared ?sy)) \<le> rollback_limit cfg"
    using r(6) k fr(4) by simp
  show "phase_ok cfg (live_ids ?sy) w ph'"
    using r(1) k ph' by (auto simp: running_ok_def ph)
  show "sst_total_scheduled (sd_stats (sy_sched ?sy)) + landed_in ph' + card (live_ids sy)
      = sst_total_scheduled (sd_stats (sy_sched sy)) + landed_in (rw_phase w) + card (live_ids ?sy)"
    using ph' unfolding same by (auto simp: ph)
  show "inner_inv (ss_inner (sy_shared ?sy))" using r(4) by (simp add: st)
  show "list_all request_ok (in_pending (ss_inner (sy_shared ?sy)))" using r(5) by (simp add: fr)
  show "live_ids sy \<subseteq> live_ids ?sy" using same by simp
  show "swarm_states_ok cfg (sy_sched ?sy)" using r(7) by simp
qed simp_all

lemma worker_job_of_for:
  "job_for cfg w (worker_job_of cfg (rw_slot w) (rw_forecast w) fdb ss (rw_requests w))"
  by (simp add: job_for_def worker_job_of_def)

lemma inv_start:
  assumes inv: "system_inv cfg sy" and w: "sy_workers sy p = Some w" and ph: "rw_phase w = Claimed"
    and job: "job = worker_job_of cfg (rw_slot w) (rw_forecast w) fdb (sy_shared sy) (rw_requests w)"
  shows "system_inv cfg (set_phase p w (Solving job 0)
       (sy\<lparr>sy_sched := refresh_capacity_revision revision (sy_sched sy)\<rparr>))"
  using refresh_frame [OF inv_running(7) [OF inv w]] worker_job_of_for [of cfg w fdb "sy_shared sy"]
  by (intro inv_phase_sched [OF inv w]) (simp_all add: ph job)

lemma inv_observe:
  assumes inv: "system_inv cfg sy" and w: "sy_workers sy p = Some w" and ph: "rw_phase w = Solving job k"
    and "\<not> is_merge cfg"
  shows "system_inv cfg (set_phase p w (Observed job ctx) sy)"
proof -
  have "phase_ok cfg (live_ids sy) w (Observed job ctx)"
    using inv_running(1) [OF inv w] assms(4) by (simp add: running_ok_def ph)
  from inv_phase_sched [OF inv w _ _ _ inv_running(7) [OF inv w] this] show ?thesis
    by (simp add: ph same_but_swarm_def)
qed

lemma solved_proposal:
  assumes cfg: "config_ok g cfg" and inv: "system_inv cfg sy" and w: "sy_workers sy p = Some w"
    and ph: "rw_phase w = Solving job k" and ord: "valid_order (or_order orc)"
    and run: "run_strategy strat orc (batch_context job (ss_inner (sy_shared sy)) recovery) = Some (res, recovery')"
    and ne: "br_assignments res \<noteq> []"
  shows "proposal_ids_ok (live_ids sy) (rw_requests w) (br_assignments res)"
proof -
  have job: "job_for cfg w job" using inv_running(1) [OF inv w] by (simp add: running_ok_def ph)
  have held: "holds_requests (rw_phase w)" by (simp add: ph)
  note j = running_job [OF cfg inv w job held]
  let ?ctx = "batch_context job (ss_inner (sy_shared sy)) recovery"
  have ok: "dp_context_ok orc ?ctx"
    using j(1,3) ord by (simp add: dp_context_ok_def context_ok_def batch_context_def job_ok_def unclaimed_def)
  have pend: "wj_pending job = rw_requests w" using job by (simp add: job_for_def)
  have "known_id ?ctx (as_request_id a)" if "a \<in> set (br_assignments res)" for a
    using strategy.solve_ids [OF ok run that] .
  then show ?thesis
    using strategy.solve_covers [OF ok run ne]
    by (auto simp: proposal_ids_ok_def covers_pending_def known_id_def pend live_ids_def batch_context_def)
qed

lemma inv_solve:
  assumes cfg: "config_ok g cfg" and inv: "system_inv cfg sy" and w: "sy_workers sy p = Some w"
    and ph: "rw_phase w = Solving job k" and "\<not> is_swarm cfg" and ord: "valid_order (or_order orc)"
    and run: "run_strategy strat orc (batch_context job (ss_inner (sy_shared sy)) (sd_recovery (sy_sched sy)))
      = Some (res, recovery)"
  shows "system_inv cfg (set_phase p w
       (if br_assignments res = [] then Giving_up
        else Proposed job k (br_assignments res) (br_baseline_slot_counts res) DeltaNone)
       (sy\<lparr>sy_sched := (sy_sched sy)\<lparr>sd_recovery := recovery\<rparr>\<rparr>))"
proof -
  note r = inv_running [OF inv w]
  have "job_for cfg w job" "k \<le> rollback_limit cfg" using r(1) by (simp_all add: running_ok_def ph)
  then have "phase_ok cfg (live_ids sy) w (if br_assignments res = [] then Giving_up
        else Proposed job k (br_assignments res) (br_baseline_slot_counts res) DeltaNone)"
    using solved_proposal [OF cfg inv w ph ord run] assms(5) by simp
  then show ?thesis
    using r(7) by (intro inv_phase_sched [OF inv w]) (simp_all add: ph same_but_swarm_def swarm_states_ok_def)
qed

lemma placed_proposal:
  assumes "list_all2 (swarm_placed pol) reqs as"
  shows "proposal_ids_ok live reqs (retag p as)" and "length (retag p as) = length reqs"
proof -
  have "map as_request_id as = map rq_id reqs" by (rule placed_ids [OF assms])
  then have "as_request_id ` set as = rq_id ` set reqs" by (metis set_map)
  then show "proposal_ids_ok live reqs (retag p as)"
    by (auto simp: proposal_ids_ok_def retag_def image_image)
  show "length (retag p as) = length reqs" using list_all2_lengthD [OF assms] by simp
qed

lemma inv_solve_serialized:
  assumes cfg: "config_ok g cfg" and inv: "system_inv cfg sy" and w: "sy_workers sy p = Some w"
    and ph: "rw_phase w = Observed job ctx"
    and entry: "swarm_entry g job p (sy_sched sy) = Some (Serialized swarm, sd)"
    and run: "swarm_solve_batch g now (wj_pending job) (wj_slot job) (wj_forecast job) ctx (wj_policy job) swarm
       = Some (as, swarm')"
  shows "system_inv cfg (set_phase p w
       (if as = [] then Giving_up else Proposed job 0 (retag p as) (swc_slot_count ctx) DeltaNone)
       (sy\<lparr>sy_sched := sd\<lparr>sd_swarm_states := hm_insert p (Serialized swarm') (sd_swarm_states sd)\<rparr>\<rparr>))"
proof -
  note r = inv_running [OF inv w]
  have job: "job_for cfg w job" using r(1) by (simp add: running_ok_def ph)
  have held: "holds_requests (rw_phase w)" by (simp add: ph)
  note j = running_job [OF cfg inv w job held]
  have sel: "wj_cfg job = cfg" "wj_pending job = rw_requests w" using job by (simp_all add: job_for_def)
  note e = swarm_entry_frame [OF j(2) sel(1) j(5) r(7) entry]
  have sized: "swarm_sized (job_slots job) swarm" "\<not> is_merge cfg" using e(3) j(5) by simp_all
  obtain as2 swarm2 where "swarm_solve_batch g now (wj_pending job) (wj_slot job) (wj_forecast job) ctx
      (wj_policy job) swarm = Some (as2, swarm2)"
    "as2 = [] \<or> list_all2 (swarm_placed (wj_policy job)) (wj_pending job) as2" "swarm_sized (job_slots job) swarm2"
    using serialized_answer [OF j(2) sized(1)] .
  with run have as: "as = [] \<or> list_all2 (swarm_placed (wj_policy job)) (rw_requests w) as"
    and sw: "backend_ok cfg (Serialized swarm')" using sized(2) j(5) sel(2) by auto
  have "phase_ok cfg (live_ids sy) w
      (if as = [] then Giving_up else Proposed job 0 (retag p as) (swc_slot_count ctx) DeltaNone)"
    using as placed_proposal(1) [of "wj_policy job" "rw_requests w" as "live_ids sy" p]
      placed_proposal(2) [of "wj_policy job" "rw_requests w" as p] job by auto
  then show ?thesis
    using e(1,2) states_ok_insert [OF e(2) sw]
    by (intro inv_phase_sched [OF inv w]) (simp_all add: ph same_but_swarm_def)
qed

lemma inv_solve_merge:
  assumes cfg: "config_ok g cfg" and inv: "system_inv cfg sy" and w: "sy_workers sy p = Some w"
    and ph: "rw_phase w = Solving job k"
    and entry: "swarm_entry g job p (sy_sched sy) = Some (Merging swarm, sd)"
    and run: "merge_swarm_solve_batch g now (wj_pending job) (wj_slot job) (wj_forecast job) ctx (wj_policy job) swarm
       = Some (as, delta)"
  shows "system_inv cfg (set_phase p w
       (if as = [] then Giving_up else Proposed job k (retag p as) (swc_slot_count ctx) delta) (sy\<lparr>sy_sched := sd\<rparr>))"
proof -
  note r = inv_running [OF inv w]
  have job: "job_for cfg w job" "k \<le> rollback_limit cfg" using r(1) by (simp_all add: running_ok_def ph)
  have held: "holds_requests (rw_phase w)" by (simp add: ph)
  note j = running_job [OF cfg inv w job(1) held]
  have sel: "wj_cfg job = cfg" "wj_pending job = rw_requests w" using job by (simp_all add: job_for_def)
  note e = swarm_entry_frame [OF j(2) sel(1) j(5) r(7) entry]
  have sized: "swarm_sized (job_slots job) swarm" using e(3) j(5) by simp
  obtain as2 delta2 where "merge_swarm_solve_batch g now (wj_pending job) (wj_slot job) (wj_forecast job) ctx
      (wj_policy job) swarm = Some (as2, delta2)"
    "as2 = [] \<or> list_all2 (swarm_placed (wj_policy job)) (wj_pending job) as2"
    "delta_sized (job_slots job) delta2"
    using merge_answer [OF j(2) sized] .
  with run have as: "as = [] \<or> list_all2 (swarm_placed (wj_policy job)) (rw_requests w) as"
    and delta: "delta_sized (nat (cfg_total_slots cfg)) delta"
    using sel(2) j(5) by auto
  have "phase_ok cfg (live_ids sy) w
      (if as = [] then Giving_up else Proposed job k (retag p as) (swc_slot_count ctx) delta)"
    using as placed_proposal(1) [of "wj_policy job" "rw_requests w" as "live_ids sy" p]
      placed_proposal(2) [of "wj_policy job" "rw_requests w" as p] job delta by auto
  then show ?thesis using e(1,2) by (intro inv_phase_sched [OF inv w]) (simp_all add: ph)
qed

lemma inv_account:
  assumes inv: "system_inv cfg sy" and w: "sy_workers sy p = Some w" and ph: "rw_phase w = Landed job k n delta"
    and sd: "(if merging then merge_committed p delta (sy_sched sy) else Some (sy_sched sy)) = Some sd"
    and f: "f = mark_requests_rolled_back is \<or> f = id"
  shows "system_inv cfg (set_phase p w (Returned True) (on_inner f (sy\<lparr>sy_sched := note_commit n ms sd\<rparr>)))"
    (is "system_inv cfg ?sy")
proof (rule inv_phase [OF inv w])
  let ?st = "ss_inner (sy_shared sy)"
  note r = inv_running [OF inv w]
  have s: "same_but_swarm (sy_sched sy) sd" "swarm_states_ok cfg sd"
    using sd r(7) merge_committed_frame [OF r(7)] by (auto simp: same_but_swarm_def split: if_splits)
  have fr: "in_pending (f ?st) = in_pending ?st" "in_assignments (f ?st) = in_assignments ?st"
    "in_total_received (f ?st) = in_total_received ?st"
    "in_max_consecutive_rollbacks_seen (f ?st) = in_max_consecutive_rollbacks_seen ?st"
    using f by (auto simp: mark_requests_rolled_back_def)
  have inv': "inner_inv (f ?st)" using f r(4) by auto
  have same: "queued_ids ?sy = queued_ids sy" "live_ids ?sy = live_ids sy"
    by (simp_all add: queued_ids_def live_ids_def fr)
  show "ids_inv (queued_ids ?sy) ((held_by (sy_workers sy))(p := held_ids (w\<lparr>rw_phase := Returned True\<rparr>)))
      (live_ids ?sy) (in_total_received (ss_inner (sy_shared ?sy)))"
    by (rule ids_same [OF inv w _ same]) (use fr in \<open>simp_all add: ph\<close>)
  show "sst_total_scheduled (sd_stats (sy_sched ?sy)) + landed_in (Returned True) + card (live_ids sy)
      = sst_total_scheduled (sd_stats (sy_sched sy)) + landed_in (rw_phase w) + card (live_ids ?sy)"
    unfolding same using same_but_swarmD(3) [OF s(1)] by (simp add: ph)
  show "live_ids sy \<subseteq> live_ids ?sy" unfolding same by simp
  show "inner_inv (ss_inner (sy_shared ?sy))" using inv' by simp
  show "list_all request_ok (in_pending (ss_inner (sy_shared ?sy)))" using r(5) fr by simp
  show "in_max_consecutive_rollbacks_seen (ss_inner (sy_shared ?sy)) \<le> rollback_limit cfg" using r(6) fr by simp
  show "swarm_states_ok cfg (sy_sched ?sy)" using s(2) by simp
  show "sd_active_workers (sy_sched ?sy) = sd_active_workers (sy_sched sy)"
    and "sd_active_profiles (sy_sched ?sy) = sd_active_profiles (sy_sched sy)"
    using same_but_swarmD [OF s(1)] by simp_all
qed simp_all

lemma inv_requeue:
  assumes inv: "system_inv cfg sy" and w: "sy_workers sy p = Some w" and ph: "rw_phase w = Giving_up"
  shows "system_inv cfg (set_phase p w (Returned False)
       (on_inner (requeue_pending_requests_front (rw_requests w)) sy))" (is "system_inv cfg ?sy")
proof (rule inv_phase [OF inv w])
  let ?st = "ss_inner (sy_shared sy)" and ?q = "requeue_pending_requests_front (rw_requests w)"
  note r = inv_running [OF inv w]
  have run: "distinct (map rq_id (rw_requests w))" "list_all request_ok (rw_requests w)"
    using r(1) by (auto simp: running_ok_def list_all_iff)
  have fr: "in_assignments (?q ?st) = in_assignments ?st" "in_total_received (?q ?st) = in_total_received ?st"
    "in_max_consecutive_rollbacks_seen (?q ?st) = in_max_consecutive_rollbacks_seen ?st"
    by (simp_all add: requeue_pending_requests_front_def)
  have live: "live_ids ?sy = live_ids sy" by (simp add: live_ids_def fr)
  have queue: "queued_ids ?sy = map rq_id (rw_requests w) @ queued_ids sy" by (simp add: queued_ids_def)
  have "set (map rq_id (rw_requests w)) = held_by (sy_workers sy) p" using r(3) by (simp add: held_ids_def ph)
  from ids_return [OF r(2) this run(1)]
  show "ids_inv (queued_ids ?sy) ((held_by (sy_workers sy))(p := held_ids (w\<lparr>rw_phase := Returned False\<rparr>)))
      (live_ids ?sy) (in_total_received (ss_inner (sy_shared ?sy)))"
    unfolding live queue by (simp add: held_phase fr)
  show "sst_total_scheduled (sd_stats (sy_sched ?sy)) + landed_in (Returned False) + card (live_ids sy)
      = sst_total_scheduled (sd_stats (sy_sched sy)) + landed_in (rw_phase w) + card (live_ids ?sy)"
    unfolding live by (simp add: ph)
  show "live_ids sy \<subseteq> live_ids ?sy" unfolding live by simp
  show "list_all request_ok (in_pending (ss_inner (sy_shared ?sy)))" using r(5) run(2) by simp
  show "in_max_consecutive_rollbacks_seen (ss_inner (sy_shared ?sy)) \<le> rollback_limit cfg" using r(6) fr by simp
qed (use inv_running [OF inv w] in simp_all)

lemma inv_release:
  assumes inv: "system_inv cfg sy" and w: "sy_workers sy p = Some w" and ph: "rw_phase w = Returned scheduled"
  shows "system_inv cfg (sy\<lparr>sy_sched := release_worker p slot n scheduled (sy_sched sy),
           sy_workers := (sy_workers sy)(p := None)\<rparr>)" (is "system_inv cfg ?sy")
proof -
  note r = inv_running [OF inv w]
  have wm: "finite (dom (sy_workers sy))" "sd_active_workers (sy_sched sy) = card (dom (sy_workers sy))"
    "sd_active_profiles (sy_sched sy) = dom (sy_workers sy)" "card (dom (sy_workers sy)) \<le> max_workers cfg"
    using inv by (simp_all add: system_inv_def workers_match_def)
  have same: "queued_ids ?sy = queued_ids sy" "live_ids ?sy = live_ids sy"
    by (simp_all add: queued_ids_def live_ids_def)
  have "held_by (sy_workers sy) p = {}" using r(3) by (simp add: held_ids_def ph)
  then have held: "held_by (sy_workers ?sy) = held_by (sy_workers sy)" by (auto simp: fun_eq_iff)
  have p: "p \<in> dom (sy_workers sy)" using w by auto
  have dom: "dom (sy_workers ?sy) = dom (sy_workers sy) - {p}" by auto
  have "workers_match cfg ?sy"
    using wm p unfolding workers_match_def dom by (simp add: card_Diff_singleton)
  moreover have "landed_total (sy_workers ?sy) = landed_total (sy_workers sy)"
    using landed_total_upd(2) [OF wm(1) w] by (simp add: ph)
  moreover have "running_ok cfg (live_ids sy) q v" if "sy_workers ?sy q = Some v" for q v
    using that inv by (auto simp: system_inv_def split: if_splits)
  ultimately show ?thesis
    using inv held unfolding system_inv_def same by (simp add: swarm_states_ok_def)
qed

lemma inv_init: "system_inv cfg (system_init cfg)"
proof -
  have "ss_inner (sy_shared (system_init cfg :: 'a system)) = inner_new"
    by (simp add: system_init_def Let_def initialize_capacity_tiers_def shared_state_new_def)
  moreover have "sy_workers (system_init cfg :: 'a system) = (\<lambda>_. None)"
    and "sy_sched (system_init cfg :: 'a system) = scheduler_state_new (capacity_tier_revision (sy_shared (system_init cfg :: 'a system)))"
    by (simp_all add: system_init_def Let_def)
  ultimately show ?thesis
    by (simp add: system_inv_def queued_ids_def live_ids_def workers_match_def ids_inv_def held_by_def
        landed_total_def scheduler_state_new_def scheduler_stats_default_def swarm_states_ok_def)
      (simp add: inner_new_def)
qed

lemma inv_step:
  assumes step: "system_step g cfg fdb sy sy'" and cfg: "config_ok g cfg" and inv: "system_inv cfg sy"
  shows "system_inv cfg sy'"
  using step
proof cases
  case (Submit r)
  then show ?thesis using inv_submit [OF inv] by blast
next
  case (Clock ms)
  with inv show ?thesis
    by (intro inv_frame [OF inv Clock]) (simp_all add: system_inv_def live_ids_def set_virtual_elapsed_ms_def)
next
  case (Slot s)
  with inv show ?thesis
    by (intro inv_frame [OF inv Slot]) (simp_all add: system_inv_def live_ids_def set_current_slot_frame)
next
  case (Flush s)
  with inv show ?thesis
    by (intro inv_frame [OF inv Flush]) (simp_all add: system_inv_def live_ids_def request_pending_flush_def)
next
  case (Unflush s)
  with inv show ?thesis
    by (intro inv_frame [OF inv Unflush]) (simp_all add: system_inv_def live_ids_def)
next
  case (Feedback i err)
  with inv show ?thesis
    by (intro inv_frame [OF inv Feedback]) (simp_all add: system_inv_def live_ids_def
        correct_assignment_error_frame correct_assignment_error_inv)
next
  case (Feedback_cost i cost)
  with inv show ?thesis
    by (intro inv_frame [OF inv Feedback_cost]) (simp_all add: system_inv_def live_ids_def
        correct_assignment_carbon_cost_frame correct_assignment_carbon_cost_inv)
next
  case (Replace_tiers tiers)
  with inv show ?thesis
    by (intro inv_frame [OF inv Replace_tiers(1)]) (simp_all add: system_inv_def live_ids_def replace_capacity_tiers_def)
next
  case (Claim slot flush counts p n reqs st sd forecast)
  then show ?thesis using inv_claim [OF inv Claim(2-4)] by simp
next
  case (Claim_fails slot flush counts st sd)
  then show ?thesis using inv_claim_fails [OF inv Claim_fails(2)] by simp
next
  case (Start p w job)
  then show ?thesis using inv_start [OF inv Start(2-4)] by simp
next
  case (Solve p w job k orc res recovery)
  then show ?thesis using inv_solve [OF cfg inv Solve(2-6)] by simp
next
  case (Observe p w job k)
  then show ?thesis using inv_observe [OF inv Observe(2,3,5)] by simp
next
  case (Solve_serialized p w job ctx swarm sd now as swarm')
  then show ?thesis using inv_solve_serialized [OF cfg inv Solve_serialized(2-5)] by simp
next
  case (Solve_merge p w job k ctx swarm sd now as delta)
  then show ?thesis using inv_solve_merge [OF cfg inv Solve_merge(2,3,7,8)] by simp
next
  case (Commit p w job k as baseline delta st)
  then show ?thesis using inv_commit [OF inv Commit(2-4)] by simp
next
  case (Roll_back p w job k as baseline delta st)
  then show ?thesis using inv_roll_back [OF inv Roll_back(2-4)] by simp
next
  case (Account p w job k n delta sd elapsed_ms)
  let ?f = "\<lambda>st. if 0 < k \<and> \<not> is_swarm cfg then mark_requests_rolled_back (map rq_id (rw_requests w)) st else st"
  have "?f = mark_requests_rolled_back (map rq_id (rw_requests w)) \<or> ?f = id" by (auto simp: fun_eq_iff)
  from inv_account [OF inv Account(2-4) this] Account(1) show ?thesis by simp
next
  case (Requeue p w)
  then show ?thesis using inv_requeue [OF inv Requeue(2,3)] by simp
next
  case (Release p w scheduled)
  then show ?thesis using inv_release [OF inv Release(2,3)] by simp
qed

lemma inv_reachable:
  assumes "system_reachable g cfg fdb sy" and "config_ok g cfg"
  shows "system_inv cfg sy"
  using assms
proof (induction rule: system_reachable.induct)
  case Init
  then show ?case by (simp add: inv_init)
next
  case (Step sy sy')
  then show ?case using inv_step by blast
qed

end
