(* ===== verification/Scheduler_Props.thy ===== *)
theory Scheduler_Props
  imports Scheduler
begin

text \<open>
  What holds in every reachable state of the concurrent scheduler of \<open>Scheduler\<close>: no request is
  lost, the workers keep their limits and their books, the system refines the life cycle a caller
  expects of a request, and every worker in flight finishes.
\<close>

section \<open>Properties of every reachable state\<close>

text \<open>
  C2: No request is lost or duplicated. In every reachable state the number of requests received
  is the number of distinct identifiers that are queued, held by a worker or assigned; no
  identifier is queued twice, and none is in two of these places or with two workers.
\<close>

theorem no_request_lost:
  assumes "config_ok g cfg" and "system_reachable g cfg fdb sy"
  shows "in_total_received (ss_inner (sy_shared sy)) = card (known_ids sy) \<and> finite (known_ids sy)
    \<and> distinct (queued_ids sy) \<and> set (queued_ids sy) \<inter> live_ids sy = {}
    \<and> (held_by (sy_workers sy) p \<inter> (set (queued_ids sy) \<union> live_ids sy) = {})
    \<and> (p = q \<or> held_by (sy_workers sy) p \<inter> held_by (sy_workers sy) q = {})"
proof -
  have inv: "ids_inv (queued_ids sy) (held_by (sy_workers sy)) (live_ids sy) (in_total_received (ss_inner (sy_shared sy)))"
    using inv_reachable [OF assms(2,1)] by (simp add: system_inv_def)
  then have "p = q \<or> held_by (sy_workers sy) p \<inter> held_by (sy_workers sy) q = {}" unfolding ids_inv_def by blast
  with inv ids_disjoint(1) [OF inv, of p] show ?thesis by (simp add: ids_inv_def known_ids_def)
qed

text \<open>
  C20: The workers keep their discipline. In every reachable state the counter of active workers is
  the number of workers, never above the parallelism of the configured strategy; the active
  profiles are exactly those of the workers, so no profile has two; and every worker carries a
  non-empty batch of its own profile, no larger than the batch size.
\<close>

theorem workers_disciplined:
  assumes "config_ok g cfg" and "system_reachable g cfg fdb sy"
  shows "sd_active_workers (sy_sched sy) = card (dom (sy_workers sy))
    \<and> sd_active_workers (sy_sched sy) \<le> max_workers cfg
    \<and> sd_active_profiles (sy_sched sy) = dom (sy_workers sy)
    \<and> (case sy_workers sy p of None \<Rightarrow> True
       | Some w \<Rightarrow> rw_requests w \<noteq> [] \<and> length (rw_requests w) \<le> sc_batch_size (cfg_solver cfg)
           \<and> list_all (\<lambda>r. rq_qos_profile_id r = p) (rw_requests w))"
  using inv_reachable [OF assms(2,1)]
  by (auto simp: system_inv_def workers_match_def running_ok_def list_all_iff split: option.split)

text \<open>
  The rollback statistics stay within the configured budget, and so does every worker: no
  reachable state records more consecutive rollbacks than \<open>rollback_max_consecutive\<close>.
\<close>

theorem rollbacks_bounded:
  assumes "config_ok g cfg" and "system_reachable g cfg fdb sy"
  shows "rb_max_consecutive_rollbacks (get_rollback_stats (ss_inner (sy_shared sy)))
      \<le> sc_rollback_max_consecutive (cfg_solver cfg)
    \<and> (case sy_workers sy p of
         Some w \<Rightarrow> (case rw_phase w of
             Solving job k \<Rightarrow> k \<le> sc_rollback_max_consecutive (cfg_solver cfg)
           | Proposed job k as baseline delta \<Rightarrow> k \<le> sc_rollback_max_consecutive (cfg_solver cfg)
           | _ \<Rightarrow> True)
       | None \<Rightarrow> True)"
proof -
  have inv: "system_inv cfg sy" by (rule inv_reachable [OF assms(2,1)])
  have "case rw_phase w of Solving job k \<Rightarrow> k \<le> rollback_limit cfg
      | Proposed job k as baseline delta \<Rightarrow> k \<le> rollback_limit cfg | _ \<Rightarrow> True"
    if "sy_workers sy p = Some w" for w
    using inv_running(1) [OF inv that] by (cases "rw_phase w") (simp_all add: running_ok_def)
  then show ?thesis using inv by (auto simp: system_inv_def get_rollback_stats_def split: option.split)
qed

text \<open>
  The two counts of scheduled requests agree. In every reachable state the scheduler's total
  and the requests of workers between their commit and their bookkeeping add up to the number of
  live assignments, which is the total of the shared state.
\<close>

theorem scheduled_totals_agree:
  assumes "config_ok g cfg" and "system_reachable g cfg fdb sy"
  shows "sst_total_scheduled (sd_stats (sy_sched sy)) + landed_total (sy_workers sy)
      = st_total_scheduled (get_statistics (ss_inner (sy_shared sy)))
    \<and> st_total_scheduled (get_statistics (ss_inner (sy_shared sy))) = card (live_ids sy)"
proof -
  let ?m = "in_assignments (ss_inner (sy_shared sy))"
  have inv: "system_inv cfg sy" by (rule inv_reachable [OF assms(2,1)])
  then have "inner_inv (ss_inner (sy_shared sy))" by (simp add: system_inv_def)
  then have t: "in_total_scheduled (ss_inner (sy_shared sy)) = length ?m" and wf: "hm_wf ?m"
    by (simp_all add: inner_inv_def)
  have "card (live_ids sy) = length ?m"
    using distinct_card [of "map fst ?m"] wf by (simp add: live_ids_def dom_map_of_conv_image_fst hm_wf_def)
  with inv t show ?thesis by (simp add: system_inv_def get_statistics_def)
qed

section \<open>The life cycle of a request\<close>

text \<open>The abstract system: queued, claimed by a profile's worker, or scheduled for good.\<close>

record lifecycle =
  lc_queued :: "request_id set"
  lc_claimed :: "qos_profile_id \<Rightarrow> request_id set"
  lc_scheduled :: "request_id set"

inductive lifecycle_step :: "lifecycle \<Rightarrow> lifecycle \<Rightarrow> bool" where
  Submit: "i \<notin> lc_queued lc \<union> (\<Union>p. lc_claimed lc p) \<union> lc_scheduled lc \<Longrightarrow>
     lifecycle_step lc (lc\<lparr>lc_queued := insert i (lc_queued lc)\<rparr>)"
| Claim: "I \<subseteq> lc_queued lc \<Longrightarrow> I \<noteq> {} \<Longrightarrow> lc_claimed lc p = {} \<Longrightarrow>
     lifecycle_step lc (lc\<lparr>lc_queued := lc_queued lc - I, lc_claimed := (lc_claimed lc)(p := I)\<rparr>)"
| Schedule: "lc_claimed lc p \<noteq> {} \<Longrightarrow>
     lifecycle_step lc (lc\<lparr>lc_claimed := (lc_claimed lc)(p := {}),
       lc_scheduled := lc_scheduled lc \<union> lc_claimed lc p\<rparr>)"
| Give_back: "lc_claimed lc p \<noteq> {} \<Longrightarrow>
     lifecycle_step lc (lc\<lparr>lc_queued := lc_queued lc \<union> lc_claimed lc p, lc_claimed := (lc_claimed lc)(p := {})\<rparr>)"
| Stutter: "lifecycle_step lc lc"

definition lifecycle_of :: "'r system \<Rightarrow> lifecycle" where
  "lifecycle_of sy =
     \<lparr>lc_queued = set (queued_ids sy), lc_claimed = held_by (sy_workers sy), lc_scheduled = live_ids sy\<rparr>"

lemma lifecycle_stutter: "lifecycle_of sy' = lifecycle_of sy \<Longrightarrow> lifecycle_step (lifecycle_of sy) (lifecycle_of sy')"
  by (simp add: lifecycle_step.Stutter)

lemma lifecycle_phase:
  assumes "sy_workers sy p = Some w" and "holds_requests ph = holds_requests (rw_phase w)"
    and "in_pending (ss_inner (sy_shared sy')) = in_pending (ss_inner (sy_shared sy))"
    and "dom (map_of (in_assignments (ss_inner (sy_shared sy')))) = live_ids sy"
    and "sy_workers sy' = (sy_workers sy)(p \<mapsto> w\<lparr>rw_phase := ph\<rparr>)"
  shows "lifecycle_step (lifecycle_of sy) (lifecycle_of sy')"
proof (rule lifecycle_stutter)
  have "held_ids (w\<lparr>rw_phase := ph\<rparr>) = held_by (sy_workers sy) p"
    using assms(1,2) by (simp add: held_ids_def held_by_def)
  then show "lifecycle_of sy' = lifecycle_of sy"
    using assms(3,4) by (simp add: lifecycle_of_def assms(5) queued_ids_def) (simp add: live_ids_def)
qed

lemma lifecycle_claim:
  assumes inv: "system_inv cfg sy"
    and claim: "dispatch_claim cfg slot flush counts (ss_inner (sy_shared sy)) (sy_sched sy) = (Some (p, n, reqs), st, sd)"
  shows "lifecycle_step (lifecycle_of sy) (lifecycle_of \<lparr>sy_shared = (sy_shared sy)\<lparr>ss_inner := st\<rparr>, sy_sched = sd,
      sy_workers = (sy_workers sy)(p \<mapsto> \<lparr>rw_count = n, rw_requests = reqs, rw_slot = slot,
          rw_forecast = forecast, rw_phase = Claimed\<rparr>)\<rparr>)" (is "lifecycle_step _ (lifecycle_of ?sy)")
proof -
  let ?st = "ss_inner (sy_shared sy)" and ?I = "rq_id ` set reqs"
  note d = dispatch_claim_Some [OF claim] and b = dispatch_claim_batch [OF claim]
  have idle: "sy_workers sy p = None"
    using d(2) inv by (auto simp: system_inv_def workers_match_def)
  obtain q where q: "st = ?st\<lparr>in_pending := q\<rparr>" using b(5) by blast
  have pend: "in_pending st = q" by (subst q) simp
  have m: "mset reqs + mset q = mset (in_pending ?st)" using b(4) by (simp only: pend)
  then have m': "mset (map rq_id reqs @ map rq_id q) = mset (queued_ids sy)"
    by (simp add: queued_ids_def flip: image_mset_union)
  have "distinct (queued_ids sy)" using inv by (simp add: system_inv_def ids_inv_def)
  then have dist: "distinct (map rq_id reqs @ map rq_id q)" using mset_eq_imp_distinct_iff [OF m'] by blast
  have set: "set (queued_ids sy) = ?I \<union> rq_id ` set q" using mset_eq_setD [OF m'] by simp
  have rest: "rq_id ` set q = set (queued_ids sy) - ?I" using dist set by auto
  have "queued_ids ?sy = map rq_id q" "live_ids ?sy = live_ids sy" "held_by (sy_workers ?sy) = (held_by (sy_workers sy))(p := ?I)"
    by (simp_all add: queued_ids_def live_ids_def held_ids_def q)
  then have eq: "lifecycle_of ?sy = (lifecycle_of sy)\<lparr>lc_queued := lc_queued (lifecycle_of sy) - ?I,
      lc_claimed := (lc_claimed (lifecycle_of sy))(p := ?I)\<rparr>"
    by (simp only: lifecycle_of_def set_map rest) simp
  have "?I \<subseteq> lc_queued (lifecycle_of sy)" and "?I \<noteq> {}" and "lc_claimed (lifecycle_of sy) p = {}"
    using set d(6) b(1) idle by (auto simp: lifecycle_of_def held_by_def)
  then show ?thesis unfolding eq by (rule lifecycle_step.Claim)
qed

lemma lifecycle_commit:
  assumes inv: "system_inv cfg sy" and w: "sy_workers sy p = Some w"
    and ph: "rw_phase w = Proposed job k as baseline delta"
    and commit: "try_add_assignments_checked as expected tiers force k (ss_inner (sy_shared sy)) = Some (Committed, st)"
  shows "lifecycle_step (lifecycle_of sy) (lifecycle_of (set_phase p w (Landed job k n delta) (on_inner (\<lambda>_. st) sy)))"
    (is "lifecycle_step _ (lifecycle_of ?sy)")
proof -
  let ?I = "rq_id ` set (rw_requests w)"
  note r = inv_running [OF inv w]
  have rec: "record_all (ss_inner (sy_shared sy)) as = Some st" using commit by (rule committed_records)
  have run: "proposal_ids_ok (live_ids sy) (rw_requests w) as" "rw_requests w \<noteq> []"
    using r(1) by (auto simp: running_ok_def ph)
  have "live_ids ?sy = live_ids sy \<union> ?I"
    using record_all_keys [OF rec] run(1) unfolding proposal_ids_ok_def live_ids_def by auto
  moreover have held: "held_by (sy_workers sy) p = ?I" using r(3) by (simp add: held_ids_def ph)
  moreover have "queued_ids ?sy = queued_ids sy" using record_all_pending [OF rec] by (simp add: queued_ids_def)
  ultimately have eq: "lifecycle_of ?sy = (lifecycle_of sy)\<lparr>lc_claimed := (lc_claimed (lifecycle_of sy))(p := {}),
      lc_scheduled := lc_scheduled (lifecycle_of sy) \<union> lc_claimed (lifecycle_of sy) p\<rparr>"
    by (simp only: lifecycle_of_def) (simp add: held_phase)
  have "lc_claimed (lifecycle_of sy) p \<noteq> {}" using run(2) held by (simp add: lifecycle_of_def)
  then show ?thesis unfolding eq by (rule lifecycle_step.Schedule)
qed

lemma lifecycle_requeue:
  assumes inv: "system_inv cfg sy" and w: "sy_workers sy p = Some w" and ph: "rw_phase w = Giving_up"
  shows "lifecycle_step (lifecycle_of sy) (lifecycle_of (set_phase p w (Returned False)
       (on_inner (requeue_pending_requests_front (rw_requests w)) sy)))" (is "lifecycle_step _ (lifecycle_of ?sy)")
proof -
  note r = inv_running [OF inv w]
  have held: "held_by (sy_workers sy) p = rq_id ` set (rw_requests w)" using r(3) by (simp add: held_ids_def ph)
  have "live_ids ?sy = live_ids sy" by (simp add: live_ids_def requeue_pending_requests_front_def)
  moreover have "set (queued_ids ?sy) = set (queued_ids sy) \<union> held_by (sy_workers sy) p"
    by (auto simp: queued_ids_def held)
  ultimately have eq: "lifecycle_of ?sy = (lifecycle_of sy)\<lparr>lc_queued := lc_queued (lifecycle_of sy)
      \<union> lc_claimed (lifecycle_of sy) p, lc_claimed := (lc_claimed (lifecycle_of sy))(p := {})\<rparr>"
    by (simp only: lifecycle_of_def) (simp add: held_phase)
  have "lc_claimed (lifecycle_of sy) p \<noteq> {}"
    using r(1) held by (simp add: lifecycle_of_def running_ok_def)
  then show ?thesis unfolding eq by (rule lifecycle_step.Give_back)
qed

lemma step_lifecycle:
  assumes inv: "system_inv cfg sy" and step: "system_step g cfg fdb sy sy'"
  shows "lifecycle_step (lifecycle_of sy) (lifecycle_of sy')"
  using step
proof cases
  case (Submit r)
  then have "lifecycle_of sy' = (lifecycle_of sy)\<lparr>lc_queued := insert (rq_id r) (lc_queued (lifecycle_of sy))\<rparr>"
    by (simp add: lifecycle_of_def queued_ids_def live_ids_def add_request_def)
  moreover have "rq_id r \<notin> lc_queued (lifecycle_of sy) \<union> (\<Union>p. lc_claimed (lifecycle_of sy) p)
      \<union> lc_scheduled (lifecycle_of sy)"
    using Submit(3) by (simp add: lifecycle_of_def known_ids_def)
  ultimately show ?thesis using lifecycle_step.Submit by metis
next
  case (Claim slot flush counts p n reqs st sd forecast)
  show ?thesis using lifecycle_claim [OF inv Claim(2)] by (simp add: Claim(1))
next
  case (Claim_fails slot flush counts st sd)
  have m: "mset (in_pending st) = mset (in_pending (ss_inner (sy_shared sy)))"
    using dispatch_claim_None(2) [OF Claim_fails(2)] .
  obtain q where "st = (ss_inner (sy_shared sy))\<lparr>in_pending := q\<rparr>"
    using dispatch_claim_None(3) [OF Claim_fails(2)] by blast
  then show ?thesis
    using mset_eq_setD [OF m]
    by (intro lifecycle_stutter) (simp add: Claim_fails(1) lifecycle_of_def queued_ids_def live_ids_def)
next
  case (Commit p w job k as baseline delta st)
  show ?thesis using lifecycle_commit [OF inv Commit(2-4)] by (simp add: Commit(1))
next
  case (Requeue p w)
  show ?thesis using lifecycle_requeue [OF inv Requeue(2,3)] by (simp add: Requeue(1))
next
  case (Roll_back p w job k as baseline delta st)
  have st: "st = note_rollback k (ss_inner (sy_shared sy))" using rolled_back_not_forced [OF Roll_back(4)] by simp
  show ?thesis
    by (rule lifecycle_phase [OF Roll_back(2), where ph = "if is_swarm cfg \<and> \<not> is_merge cfg then Giving_up else Solving job (k + 1)"])
      (simp_all add: Roll_back(1,3) st note_rollback_def Let_def live_ids_def)
next
  case (Account p w job k n delta sd elapsed_ms)
  show ?thesis
    by (rule lifecycle_phase [OF Account(2), where ph = "Returned True"])
      (simp_all add: Account(1,3) live_ids_def mark_requests_rolled_back_def)
next
  case (Release p w scheduled)
  have "held_by ((sy_workers sy)(p := None)) = held_by (sy_workers sy)"
    using Release(2,3) by (auto simp: fun_eq_iff held_by_def held_ids_def)
  then show ?thesis
    by (intro lifecycle_stutter) (simp add: Release(1) lifecycle_of_def queued_ids_def live_ids_def)
next
  case (Start p w job)
  then show ?thesis by (intro lifecycle_phase [OF Start(2), where ph = "Solving job 0"]) (simp_all add: live_ids_def)
next
  case (Solve p w job k orc res recovery)
  show ?thesis
    by (rule lifecycle_phase [OF Solve(2), where ph = "if br_assignments res = [] then Giving_up
        else Proposed job k (br_assignments res) (br_baseline_slot_counts res) DeltaNone"])
      (simp_all add: Solve(1,3) live_ids_def)
next
  case (Observe p w job k)
  show ?thesis
    by (rule lifecycle_phase [OF Observe(2)]) (simp_all add: Observe(1,3) live_ids_def)
next
  case (Solve_serialized p w job ctx swarm sd now as swarm')
  show ?thesis
    by (rule lifecycle_phase [OF Solve_serialized(2), where ph = "if as = [] then Giving_up
        else Proposed job 0 (retag p as) (swc_slot_count ctx) DeltaNone"])
      (simp_all add: Solve_serialized(1,3) live_ids_def)
next
  case (Solve_merge p w job k ctx swarm sd now as delta)
  show ?thesis
    by (rule lifecycle_phase [OF Solve_merge(2), where ph = "if as = [] then Giving_up
        else Proposed job k (retag p as) (swc_slot_count ctx) delta"])
      (simp_all add: Solve_merge(1,3) live_ids_def)
qed (intro lifecycle_stutter, simp add: lifecycle_of_def queued_ids_def live_ids_def set_virtual_elapsed_ms_def
      set_current_slot_frame request_pending_flush_def correct_assignment_error_frame
      correct_assignment_carbon_cost_frame replace_capacity_tiers_def)+

text \<open>Unless it is a submission, a step neither adds nor forgets a request.\<close>

lemma known_of_lifecycle:
  "known_ids sy = lc_queued (lifecycle_of sy) \<union> (\<Union>p. lc_claimed (lifecycle_of sy) p) \<union> lc_scheduled (lifecycle_of sy)"
  by (simp add: known_ids_def lifecycle_of_def)

lemma lifecycle_known:
  assumes "lifecycle_step lc lc'"
  shows "lc_queued lc' \<union> (\<Union>p. lc_claimed lc' p) \<union> lc_scheduled lc' = lc_queued lc \<union> (\<Union>p. lc_claimed lc p) \<union> lc_scheduled lc
    \<or> (\<exists>i. i \<notin> lc_queued lc \<union> (\<Union>p. lc_claimed lc p) \<union> lc_scheduled lc
        \<and> lc_queued lc' \<union> (\<Union>p. lc_claimed lc' p) \<union> lc_scheduled lc' = insert i (lc_queued lc \<union> (\<Union>p. lc_claimed lc p) \<union> lc_scheduled lc))"
  using assms
proof cases
  case (Claim I p)
  then show ?thesis by (simp add: held_update held_split [of "lc_claimed lc" p]) blast
next
  case (Schedule p)
  then show ?thesis by (simp add: held_update held_split [of "lc_claimed lc" p]) blast
next
  case (Give_back p)
  then show ?thesis by (simp add: held_update held_split [of "lc_claimed lc" p]) blast
qed auto

lemma known_ids_step:
  assumes "config_ok g cfg" and inv: "system_inv cfg sy" and step: "system_step g cfg fdb sy sy'"
    and same: "in_total_received (ss_inner (sy_shared sy')) = in_total_received (ss_inner (sy_shared sy))"
  shows "known_ids sy' = known_ids sy"
proof -
  have inv': "system_inv cfg sy'" by (rule inv_step [OF step assms(1) inv])
  have card: "card (known_ids sy') = card (known_ids sy)" "finite (known_ids sy)"
    using inv inv' same unfolding system_inv_def ids_inv_def known_ids_def by simp_all
  from lifecycle_known [OF step_lifecycle [OF inv step]]
  have "known_ids sy' = known_ids sy \<or> (\<exists>i. i \<notin> known_ids sy \<and> known_ids sy' = insert i (known_ids sy))"
    by (simp only: known_of_lifecycle)
  with card show ?thesis by auto
qed

text \<open>
  C4: The scheduler refines the life cycle of requests. Whatever the workers, the main loop and
  the service do, seen from the outside a request is submitted, claimed together with others by an
  idle profile's worker, and then either scheduled for good or given back, all requests of the
  worker at once; every other step of the code changes nothing.
\<close>

theorem system_refines_lifecycle:
  assumes "config_ok g cfg" and "system_reachable g cfg fdb sy" and "system_step g cfg fdb sy sy'"
  shows "lifecycle_step (lifecycle_of sy) (lifecycle_of sy')"
  by (rule step_lifecycle [OF inv_reachable [OF assms(2,1)] assms(3)])

section \<open>Every worker in flight finishes\<close>

text \<open>
  How far a worker is from its end. A rollback costs one of the attempts that are left; a serialized
  swarm worker has only one.
\<close>

fun phase_rank :: "config \<Rightarrow> 'r phase \<Rightarrow> nat" where
  "phase_rank cfg Claimed = 2 * rollback_limit cfg + 5"
| "phase_rank cfg (Solving job k) =
     (if is_swarm cfg \<and> \<not> is_merge cfg then 2 * rollback_limit cfg + 4 else 2 * (rollback_limit cfg - k) + 3)"
| "phase_rank cfg (Observed job ctx) = 2 * rollback_limit cfg + 3"
| "phase_rank cfg (Proposed job k as baseline delta) = 2 * (rollback_limit cfg - k) + 2"
| "phase_rank cfg (Landed job k n delta) = 1"
| "phase_rank cfg Giving_up = 1"
| "phase_rank cfg (Returned scheduled) = 0"

definition worker_rank :: "config \<Rightarrow> 'r system \<Rightarrow> qos_profile_id \<Rightarrow> nat" where
  "worker_rank cfg sy p = (case sy_workers sy p of None \<Rightarrow> 0 | Some w \<Rightarrow> phase_rank cfg (rw_phase w) + 1)"

lemma phase_rank_bound: "phase_rank cfg ph \<le> 2 * rollback_limit cfg + 5"
  by (cases ph) (simp_all, arith)

lemma worker_rank_phase [simp]:
  "worker_rank cfg (set_phase p w ph sy) q = (if q = p then phase_rank cfg ph + 1 else worker_rank cfg sy q)"
  by (simp add: worker_rank_def)

lemma worker_rank_at: "sy_workers sy p = Some w \<Longrightarrow> worker_rank cfg sy p = phase_rank cfg (rw_phase w) + 1"
  by (simp add: worker_rank_def)

text \<open>The worker of \<open>p\<close> has a step that brings it nearer to its end.\<close>

definition can_advance ::
    "'r rng \<Rightarrow> config \<Rightarrow> (string, f64) hmap \<Rightarrow> 'r system \<Rightarrow> qos_profile_id \<Rightarrow> bool" where
  "can_advance g cfg fdb sy p \<longleftrightarrow>
     (\<exists>sy'. system_step g cfg fdb sy sy' \<and> worker_rank cfg sy' p < worker_rank cfg sy p)"

lemma advance_phase:
  assumes "sy_workers sy p = Some w" and "system_step g cfg fdb sy (set_phase p w ph sy')"
    and "phase_rank cfg ph < phase_rank cfg (rw_phase w)"
  shows "can_advance g cfg fdb sy p"
  unfolding can_advance_def
  using assms by (intro exI [of _ "set_phase p w ph sy'"]) (simp add: worker_rank_at)

lemma advance_solving:
  assumes cfg: "config_ok g cfg" and inv: "system_inv cfg sy" and w: "sy_workers sy p = Some w"
    and ph: "rw_phase w = Solving job k"
  shows "can_advance g cfg fdb sy p"
proof -
  have job: "job_for cfg w job" using inv_running(1) [OF inv w] by (simp add: running_ok_def ph)
  have held: "holds_requests (rw_phase w)" by (simp add: ph)
  note j = running_job [OF cfg inv w job held]
  have sel: "wj_cfg job = cfg" using job by (simp add: job_for_def)
  consider "\<not> is_swarm cfg" | "is_swarm cfg" "\<not> is_merge cfg" | "is_swarm cfg" "is_merge cfg" by blast
  then show ?thesis
  proof cases
    case 1
    let ?ctx = "batch_context job (ss_inner (sy_shared sy)) (sd_recovery (sy_sched sy))"
    have ord: "valid_order (or_order sample_oracles)" by (simp add: sample_oracles_def valid_order_def)
    have ok: "dp_context_ok sample_oracles ?ctx"
      using j(1,3) ord by (simp add: dp_context_ok_def context_ok_def batch_context_def job_ok_def unclaimed_def)
    obtain res rec where "run_strategy (select_batch_solver (sc_solver_strategy (cfg_solver cfg))) sample_oracles ?ctx
        = Some (res, rec)" using strategy.solve_total [OF ok] by blast
    from system_step.Solve [OF w ph 1 ord this] show ?thesis
      by (rule advance_phase [OF w]) (simp add: ph 1)
  next
    case 2
    from system_step.Observe [OF w ph 2] show ?thesis by (rule advance_phase [OF w]) (simp add: ph 2)
  next
    case 3
    obtain swarm sd where e: "swarm_sized (job_slots job) swarm" "swarm_entry g job p (sy_sched sy)
        = Some (if sw_mode (cfg_swarm (wj_cfg job)) = ''merge'' then Merging swarm else Serialized swarm, sd)"
      using swarm_entry_ready [OF j(2) j(4)] by metis
    then have entry: "swarm_entry g job p (sy_sched sy) = Some (Merging swarm, sd)"
      using 3(2) by (simp add: is_merge_def sel)
    obtain as delta where "merge_swarm_solve_batch g now (wj_pending job) (wj_slot job) (wj_forecast job)
        (swarm_context_snapshot_for_profile (Some p) (ss_inner (sy_shared sy))) (wj_policy job) swarm
        = Some (as, delta)"
      using merge_answer [OF j(2) e(1)] by metis
    from system_step.Solve_merge [OF w ph 3 refl entry this] show ?thesis
      by (rule advance_phase [OF w]) (simp add: ph 3)
  qed
qed

lemma advance_observed:
  assumes cfg: "config_ok g cfg" and inv: "system_inv cfg sy" and w: "sy_workers sy p = Some w"
    and ph: "rw_phase w = Observed job ctx"
  shows "can_advance g cfg fdb sy p"
proof -
  have job: "job_for cfg w job" "\<not> is_merge cfg" using inv_running(1) [OF inv w] by (simp_all add: running_ok_def ph)
  have held: "holds_requests (rw_phase w)" by (simp add: ph)
  note j = running_job [OF cfg inv w job(1) held]
  have sel: "wj_cfg job = cfg" using job by (simp add: job_for_def)
  obtain swarm sd where e: "swarm_sized (job_slots job) swarm" "swarm_entry g job p (sy_sched sy)
      = Some (if sw_mode (cfg_swarm (wj_cfg job)) = ''merge'' then Merging swarm else Serialized swarm, sd)"
    using swarm_entry_ready [OF j(2) j(4)] by metis
  then have entry: "swarm_entry g job p (sy_sched sy) = Some (Serialized swarm, sd)"
    using job(2) by (simp add: is_merge_def sel)
  obtain as swarm' where "swarm_solve_batch g now (wj_pending job) (wj_slot job) (wj_forecast job) ctx
      (wj_policy job) swarm = Some (as, swarm')"
    using serialized_answer [OF j(2) e(1)] by metis
  from system_step.Solve_serialized [OF w ph entry this] show ?thesis
    by (rule advance_phase [OF w]) (simp add: ph)
qed

lemma advance_proposed:
  assumes inv: "system_inv cfg sy" and w: "sy_workers sy p = Some w"
    and ph: "rw_phase w = Proposed job k as baseline delta"
  shows "can_advance g cfg fdb sy p"
proof -
  obtain out st where c: "try_add_assignments_checked as (expected_occupancy as baseline)
      (pol_capacity_tiers (wj_policy job)) (force_commit cfg k) k (ss_inner (sy_shared sy)) = Some (out, st)"
    using commit_total [OF inv_running(4) [OF inv w]] .
  show ?thesis
  proof (cases out)
    case Committed
    from system_step.Commit [OF w ph c [unfolded Committed]] show ?thesis
      by (rule advance_phase [OF w]) (simp add: ph)
  next
    case RolledBack
    have "rollback_limit cfg - k = Suc (rollback_limit cfg - (k + 1))"
      using rolled_back_budget [OF c [unfolded RolledBack]] by simp
    then have "phase_rank cfg (if is_swarm cfg \<and> \<not> is_merge cfg then Giving_up else Solving job (k + 1))
        < phase_rank cfg (rw_phase w)" by (simp add: ph)
    with system_step.Roll_back [OF w ph c [unfolded RolledBack]] show ?thesis
      by (rule advance_phase [OF w])
  qed
qed

lemma advance_landed:
  assumes inv: "system_inv cfg sy" and w: "sy_workers sy p = Some w" and ph: "rw_phase w = Landed job k n delta"
  shows "can_advance g cfg fdb sy p"
proof -
  have sized: "delta_sized (nat (cfg_total_slots cfg)) delta"
    using inv_running(1) [OF inv w] by (simp add: running_ok_def ph)
  have "\<exists>sd. merge_committed p delta (sy_sched sy) = Some sd"
  proof (cases "\<exists>swarm. map_of (sd_swarm_states (sy_sched sy)) p = Some (Merging swarm)")
    case True
    then obtain swarm where m: "map_of (sd_swarm_states (sy_sched sy)) p = Some (Merging swarm)" by blast
    then have "backend_ok cfg (Merging swarm)"
      using inv_running(7) [OF inv w] unfolding swarm_states_ok_def by blast
    then have "swarm_sized (nat (cfg_total_slots cfg)) swarm" by simp
    from merge_delta_sized [OF this sized] obtain swarm' where "swarm_merge_delta delta swarm = Some swarm'" by metis
    with m show ?thesis by (simp add: merge_committed_def)
  qed (auto simp: merge_committed_def split: option.split swarm_backend.split)
  then obtain sd where "(if is_swarm cfg \<and> is_merge cfg then merge_committed p delta (sy_sched sy)
      else Some (sy_sched sy)) = Some sd" by force
  from system_step.Account [OF w ph this] show ?thesis by (rule advance_phase [OF w]) (simp add: ph)
qed

lemma worker_advances:
  assumes cfg: "config_ok g cfg" and inv: "system_inv cfg sy" and w: "sy_workers sy p = Some w"
  shows "can_advance g cfg fdb sy p"
proof (cases "rw_phase w")
  case Claimed
  from system_step.Start [OF w this refl] show ?thesis by (rule advance_phase [OF w]) (simp add: Claimed)
next
  case Giving_up
  from system_step.Requeue [OF w this] show ?thesis by (rule advance_phase [OF w]) (simp add: Giving_up)
next
  case (Returned scheduled)
  from system_step.Release [OF w this] show ?thesis
    unfolding can_advance_def by (intro exI conjI, assumption) (simp add: worker_rank_def w)
qed (use advance_solving [OF cfg inv w] advance_observed [OF cfg inv w] advance_proposed [OF inv w]
      advance_landed [OF inv w] in blast)+

lemma step_keeps_or_advances:
  assumes step: "system_step g cfg fdb sy sy'" and inv: "system_inv cfg sy" and w: "sy_workers sy p = Some w"
  shows "sy_workers sy' p = Some w \<or> worker_rank cfg sy' p < worker_rank cfg sy p"
  using step
proof cases
  case (Claim slot flush counts q n reqs st sd forecast)
  have "sy_workers sy q = None"
    using dispatch_claim_Some(2) [OF Claim(2)] inv by (auto simp: system_inv_def workers_match_def)
  then have "q \<noteq> p" using w by auto
  then show ?thesis by (simp add: Claim(1) w)
next
  case (Roll_back q v job k as baseline delta st)
  have "rollback_limit cfg - k = Suc (rollback_limit cfg - (k + 1))"
    using rolled_back_budget [OF Roll_back(4)] by simp
  moreover have "v = w" if "q = p" using Roll_back(2) w that by simp
  ultimately show ?thesis using w Roll_back(3) by (cases "q = p") (simp_all add: Roll_back(1) worker_rank_def)
next
  case (Start q v job)
  then show ?thesis using w by (cases "q = p") (auto simp: worker_rank_def)
next
  case (Solve q v job k orc res recovery)
  then show ?thesis using w by (cases "q = p") (auto simp: worker_rank_def)
next
  case (Observe q v job k)
  then show ?thesis using w by (cases "q = p") (auto simp: worker_rank_def)
next
  case (Solve_serialized q v job ctx swarm sd now as swarm')
  then show ?thesis using w by (cases "q = p") (auto simp: worker_rank_def)
next
  case (Solve_merge q v job k ctx swarm sd now as delta)
  then show ?thesis using w by (cases "q = p") (auto simp: worker_rank_def)
next
  case (Commit q v job k as baseline delta st)
  then show ?thesis using w by (cases "q = p") (auto simp: worker_rank_def)
next
  case (Account q v job k n delta sd elapsed_ms)
  then show ?thesis using w by (cases "q = p") (auto simp: worker_rank_def)
next
  case (Requeue q v)
  then show ?thesis using w by (cases "q = p") (auto simp: worker_rank_def)
next
  case (Release q v scheduled)
  then show ?thesis using w by (cases "q = p") (auto simp: worker_rank_def)
qed (use w in simp_all)

text \<open>
  C3: No worker is ever stuck, and none runs forever. In every reachable state each worker in
  flight has a step of its own that brings it nearer to its release, whatever the others have done
  before; no step of anyone moves it away from there; and it is at most
  \<open>2 * rollback_max_consecutive + 6\<close> steps away.
\<close>

theorem workers_never_stuck:
  assumes "config_ok g cfg" and "system_reachable g cfg fdb sy" and "sy_workers sy p = Some w"
  shows "worker_rank cfg sy p \<le> 2 * sc_rollback_max_consecutive (cfg_solver cfg) + 6
    \<and> (\<exists>sy'. system_step g cfg fdb sy sy' \<and> worker_rank cfg sy' p < worker_rank cfg sy p)
    \<and> (\<forall>sy'. system_step g cfg fdb sy sy' \<longrightarrow>
         sy_workers sy' p = Some w \<or> worker_rank cfg sy' p < worker_rank cfg sy p)"
proof -
  have inv: "system_inv cfg sy" by (rule inv_reachable [OF assms(2,1)])
  show ?thesis
    using worker_advances [OF assms(1) inv assms(3), of fdb] step_keeps_or_advances [OF _ inv assms(3)]
      phase_rank_bound [of cfg "rw_phase w"]
    by (simp add: can_advance_def worker_rank_at [OF assms(3)])
qed

section \<open>A concrete run\<close>

abbreviation first_request :: request where
  "first_request \<equiv> request_new 0 7 0 5"

definition submitted_system :: "unit system" where
  "submitted_system = on_inner (add_request first_request) (system_init config_default)"

definition claimed_worker :: "unit running" where
  "claimed_worker = \<lparr>rw_count = 1, rw_requests = [first_request], rw_slot = 0, rw_forecast = replicate 24 1,
     rw_phase = Claimed\<rparr>"

definition claimed_system :: "unit system" where
  "claimed_system =
     \<lparr>sy_shared = (sy_shared submitted_system)\<lparr>ss_inner := (ss_inner (sy_shared submitted_system))\<lparr>in_pending := []\<rparr>\<rparr>,
      sy_sched = reserve_worker default_profile (sy_sched submitted_system),
      sy_workers = [default_profile \<mapsto> claimed_worker]\<rparr>"

lemma still_config_ok: "config_ok still_rng config_default"
  by (simp add: config_ok_def still_rng_ok config_default_def swarm_config_default_def in_i32_def)

lemma init_reachable: "system_reachable g config_default fdb (system_init config_default)"
  by (rule system_reachable.Init)

lemma submit_step:
  "system_step still_rng config_default fdb (system_init config_default) submitted_system"
  unfolding submitted_system_def
  by (rule system_step.Submit)
    (simp_all add: request_ok_def request_new_def known_ids_def queued_ids_def live_ids_def system_init_def
      Let_def initialize_capacity_tiers_def shared_state_new_def inner_new_def held_by_def)

lemma submitted_reachable: "system_reachable still_rng config_default fdb submitted_system"
  by (rule system_reachable.Step [OF init_reachable submit_step])

lemma claim_step: "system_step still_rng config_default fdb submitted_system claimed_system"
proof -
  have "dispatch_claim config_default 0 True [(default_profile, 1)]
      (ss_inner (sy_shared submitted_system)) (sy_sched submitted_system)
    = (Some (default_profile, 1, [first_request]),
       (ss_inner (sy_shared submitted_system))\<lparr>in_pending := []\<rparr>,
       reserve_worker default_profile (sy_sched submitted_system))"
    by code_simp
  from system_step.Claim [OF this, of "replicate 24 1"] show ?thesis
    by (simp add: claimed_system_def claimed_worker_def submitted_system_def system_init_def Let_def config_default_def)
qed

lemma claimed_reachable: "system_reachable still_rng config_default fdb claimed_system"
  by (rule system_reachable.Step [OF submitted_reachable claim_step])

lemma no_request_lost_witness:
  "in_total_received (ss_inner (sy_shared claimed_system)) = card (known_ids claimed_system)
    \<and> held_by (sy_workers claimed_system) default_profile
        \<inter> (set (queued_ids claimed_system) \<union> live_ids claimed_system) = {}"
  using no_request_lost [OF still_config_ok claimed_reachable, of default_profile] by blast

lemma workers_disciplined_witness:
  "sd_active_workers (sy_sched claimed_system) = card (dom (sy_workers claimed_system))
    \<and> sd_active_profiles (sy_sched claimed_system) = {default_profile}"
  using workers_disciplined [OF still_config_ok claimed_reachable] by (simp add: claimed_system_def)

lemma rollbacks_bounded_witness:
  "rb_max_consecutive_rollbacks (get_rollback_stats (ss_inner (sy_shared claimed_system)))
    \<le> sc_rollback_max_consecutive (cfg_solver config_default)"
  using rollbacks_bounded [OF still_config_ok claimed_reachable] by blast

lemma scheduled_totals_agree_witness:
  "st_total_scheduled (get_statistics (ss_inner (sy_shared claimed_system))) = card (live_ids claimed_system)"
  using scheduled_totals_agree [OF still_config_ok claimed_reachable] by blast

lemma system_refines_lifecycle_witness:
  "lifecycle_step \<lparr>lc_queued = {7}, lc_claimed = (\<lambda>_. {}), lc_scheduled = {}\<rparr>
     \<lparr>lc_queued = {}, lc_claimed = (\<lambda>_. {})(default_profile := {7}), lc_scheduled = {}\<rparr>"
proof -
  have "lifecycle_of submitted_system = \<lparr>lc_queued = {7}, lc_claimed = (\<lambda>_. {}), lc_scheduled = {}\<rparr>"
    by (simp add: lifecycle_of_def submitted_system_def system_init_def Let_def queued_ids_def live_ids_def
        initialize_capacity_tiers_def shared_state_new_def inner_new_def request_new_def held_by_def add_request_def fun_eq_iff)
  moreover have "lifecycle_of claimed_system
      = \<lparr>lc_queued = {}, lc_claimed = (\<lambda>_. {})(default_profile := {7}), lc_scheduled = {}\<rparr>"
    by (simp add: lifecycle_of_def claimed_system_def claimed_worker_def submitted_system_def system_init_def
        Let_def queued_ids_def live_ids_def initialize_capacity_tiers_def shared_state_new_def inner_new_def
        request_new_def held_by_def held_ids_def fun_eq_iff)
  ultimately show ?thesis
    using system_refines_lifecycle [OF still_config_ok submitted_reachable claim_step [of "[]"]] by simp
qed

lemma workers_never_stuck_witness:
  "\<exists>sy'. system_step still_rng config_default [] claimed_system sy'
     \<and> worker_rank config_default sy' default_profile < worker_rank config_default claimed_system default_profile"
proof -
  have "sy_workers claimed_system default_profile = Some claimed_worker" by (simp add: claimed_system_def)
  from workers_never_stuck [OF still_config_ok claimed_reachable this] show ?thesis by blast
qed

end
