(* ===== verification/Service_State.thy ===== *)
theory Service_State
  imports Main_Loop
begin

text \<open>
  The state of the REST service (\<open>service/state.rs\<close>, \<open>service/models.rs\<close>): the alignment of the
  local horizon to the wall clock, the registry of QoS profiles, the table of tracked requests and
  the application state that the handlers share. JSON values are those of a library: their operations
  are a parameter, a \<open>json_api\<close>, and their laws a named hypothesis. Instants are nanoseconds.
\<close>

section \<open>Wall-clock time\<close>

text \<open>
  A \<open>SystemTime\<close> is in nanoseconds since the Unix epoch, with 64-bit seconds as on Linux; a
  \<open>Duration\<close> is in nanoseconds, with unsigned 64-bit seconds.
\<close>

type_synonym system_time = int
type_synonym duration = nat

definition system_time_ok :: "int \<Rightarrow> bool" where
  "system_time_ok t \<longleftrightarrow> - 9223372036854775808 * 1000000000 \<le> t \<and> t < 9223372036854775808 * 1000000000"

definition time_checked_add :: "system_time \<Rightarrow> duration \<Rightarrow> system_time option" where
  "time_checked_add t d = (if system_time_ok (t + int d) then Some (t + int d) else None)"

definition time_checked_sub :: "system_time \<Rightarrow> duration \<Rightarrow> system_time option" where
  "time_checked_sub t d = (if system_time_ok (t - int d) then Some (t - int d) else None)"

text \<open>\<open>Duration::try_from_secs_f64\<close> rounds to the nearest nanosecond, ties to even.\<close>

definition round_half_even :: "f64 \<Rightarrow> int" where
  "round_half_even x =
     (let f = \<lfloor>x\<rfloor>; d = x - real_of_int f
      in if d < 1 / 2 then f else if 1 / 2 < d then f + 1 else if even f then f else f + 1)"

lemma round_half_even_mono: "x \<le> y \<Longrightarrow> round_half_even x \<le> round_half_even y"
proof -
  assume le: "x \<le> y"
  then have fl: "\<lfloor>x\<rfloor> \<le> \<lfloor>y\<rfloor>" by (rule floor_mono)
  show ?thesis
  proof (cases "\<lfloor>x\<rfloor> = \<lfloor>y\<rfloor>")
    case True
    with le show ?thesis by (simp add: round_half_even_def Let_def)
  next
    case False
    with fl have "\<lfloor>x\<rfloor> + 1 \<le> \<lfloor>y\<rfloor>" by simp
    then show ?thesis by (simp add: round_half_even_def Let_def)
  qed
qed

definition duration_try_from_secs :: "f64 \<Rightarrow> duration option" where
  "duration_try_from_secs secs =
     (let ns = round_half_even (secs * 1000000000)
      in if secs < 0 \<or> 18446744073709551616 * 1000000000 \<le> ns then None else Some (nat ns))"

definition duration_as_millis :: "duration \<Rightarrow> nat" where
  "duration_as_millis d = d div 1000000"

definition fits_u64 :: "nat \<Rightarrow> bool" where
  "fits_u64 n \<longleftrightarrow> n < 18446744073709551616"

record wall_clock_align =
  wc_global_slot :: int
  wc_slot_start_utc :: system_time
  wc_elapsed_in_slot_ms :: nat

datatype clock_error =
    InvalidSlotDuration
  | SlotDurationTooLarge
  | SlotBelowMillisecond
  | EpochInFuture
  | ElapsedTooLarge
  | GlobalSlotTooLarge
  | BoundaryOverflow
  | BoundaryOutOfRange
  | NegativeSlot

definition wall_clock_alignment ::
    "system_time \<Rightarrow> system_time \<Rightarrow> f64 \<Rightarrow> clock_error + wall_clock_align" where
  "wall_clock_alignment now epoch slot_duration_secs =
     (case duration_try_from_secs slot_duration_secs of
        None \<Rightarrow> Inl InvalidSlotDuration
      | Some slot_duration \<Rightarrow>
         (let ms = duration_as_millis slot_duration
          in if \<not> fits_u64 ms then Inl SlotDurationTooLarge
             else if ms = 0 then Inl SlotBelowMillisecond
             else if now < epoch then Inl EpochInFuture
             else let elapsed_ms = duration_as_millis (nat (now - epoch));
                      global_slot = elapsed_ms div ms
                  in if \<not> fits_u64 elapsed_ms then Inl ElapsedTooLarge
                     else if 2147483647 < global_slot then Inl GlobalSlotTooLarge
                     else if \<not> fits_u64 (global_slot * ms) then Inl BoundaryOverflow
                     else case time_checked_add epoch (global_slot * ms * 1000000) of
                       None \<Rightarrow> Inl BoundaryOutOfRange
                     | Some start \<Rightarrow>
                         Inr \<lparr>wc_global_slot = int global_slot, wc_slot_start_utc = start,
                              wc_elapsed_in_slot_ms = elapsed_ms mod ms\<rparr>))"

text \<open>
  The alignment puts the present inside its slot. When it succeeds, the announced slot begins
  at or before now and ends after it, the number of the slot and its start agree, and the
  milliseconds reported as elapsed are those since the start, less than a slot.
\<close>

theorem alignment_contains_now:
  assumes "wall_clock_alignment now epoch secs = Inr al"
    and "duration_try_from_secs secs = Some d" and "ms = duration_as_millis d"
  shows "wc_slot_start_utc al = epoch + wc_global_slot al * int ms * 1000000
    \<and> wc_slot_start_utc al \<le> now \<and> now < wc_slot_start_utc al + int ms * 1000000
    \<and> int (wc_elapsed_in_slot_ms al) = (now - wc_slot_start_utc al) div 1000000
    \<and> wc_elapsed_in_slot_ms al < ms"
proof -
  define e where "e = nat (now - epoch)"
  have al: "epoch \<le> now" "0 < ms" "al = \<lparr>wc_global_slot = int (e div 1000000 div ms),
      wc_slot_start_utc = epoch + int (e div 1000000 div ms * ms * 1000000),
      wc_elapsed_in_slot_ms = e div 1000000 mod ms\<rparr>"
    using assms
    by (auto simp: wall_clock_alignment_def Let_def duration_as_millis_def time_checked_add_def e_def
        split: if_splits)
  let ?m = "e div 1000000"
  have e: "int e = now - epoch" using al(1) by (simp add: e_def)
  have split: "?m = ?m div ms * ms + ?m mod ms" by simp
  have lt: "?m mod ms < ms" using al(2) by simp
  have em: "e = ?m * 1000000 + e mod 1000000" "e mod 1000000 < 1000000" by simp_all
  have start: "e = (?m div ms * ms * 1000000) + (?m mod ms * 1000000 + e mod 1000000)"
    using em(1) split by (metis add.assoc add_mult_distrib)
  have rest: "?m mod ms * 1000000 + e mod 1000000 < ms * 1000000" using lt em(2) by linarith
  have now: "now - wc_slot_start_utc al = int (?m mod ms * 1000000 + e mod 1000000)"
  proof -
    have "int e = int (?m div ms * ms * 1000000) + int (?m mod ms * 1000000 + e mod 1000000)"
      using start by (simp only: flip: of_nat_add)
    then show ?thesis using e by (simp add: al(3))
  qed
  have "(now - wc_slot_start_utc al) div 1000000 = int (?m mod ms)"
    unfolding now using em(2) by (simp add: zdiv_int [symmetric] flip: of_nat_add of_nat_mult)
  moreover have "now < wc_slot_start_utc al + int ms * 1000000"
    using now rest by linarith
  moreover have "wc_slot_start_utc al \<le> now" using now by linarith
  ultimately show ?thesis using lt by (simp add: al(3))
qed

lemma alignment_contains_now_witness:
  "case wall_clock_alignment (1700000000 * 1000000000 + 60180 * 1000000000) (1700000000 * 1000000000) 3600 of
     Inl e \<Rightarrow> False
   | Inr al \<Rightarrow> wc_global_slot al = 16 \<and> wc_slot_start_utc al \<le> (1700000000 + 60180) * 1000000000
       \<and> (1700000000 + 60180) * 1000000000 < wc_slot_start_utc al + 3600 * 1000000000"
proof -
  have d: "duration_try_from_secs 3600 = Some 3600000000000"
    by (simp add: duration_try_from_secs_def round_half_even_def Let_def)
  then obtain al where al: "wall_clock_alignment ((1700000000 + 60180) * 1000000000) (1700000000 * 1000000000) 3600 = Inr al"
    "wc_global_slot al = 16"
    by (simp add: wall_clock_alignment_def duration_as_millis_def fits_u64_def time_checked_add_def
        system_time_ok_def)
  from alignment_contains_now [OF al(1) d refl] al show ?thesis by (simp add: duration_as_millis_def)
qed

section \<open>The registry of profiles\<close>

type_synonym registry = "(qos_profile_id, qos_profile) hmap"

datatype profile_registration = Created | AlreadyRegistered

datatype registry_error =
    InvalidId id_error
  | InvalidProfile profile_error
  | ProfileConflict qos_profile_id

definition underscores_to_dashes :: "string \<Rightarrow> string" where
  "underscores_to_dashes = map (\<lambda>c. if c = CHR ''_'' then CHR ''-'' else c)"

text \<open>\<open>None\<close> is the panic of an \<open>expect\<close>; the built-in names are valid (\<open>registry_defaults\<close>).\<close>

definition default_profile_entry ::
    "config \<Rightarrow> string \<times> string \<Rightarrow> (qos_profile_id \<times> qos_profile) option" where
  "default_profile_entry cfg = (\<lambda>(kind_name, semantics).
     (case task_kind_parse kind_name of
        Inl _ \<Rightarrow> None
      | Inr kind \<Rightarrow>
         (case profile_id_parse (''default-'' @ underscores_to_dashes (tk_str kind)) of
            Inl _ \<Rightarrow> None
          | Inr pid \<Rightarrow> Some (pid,
              \<lparr>qp_profile_id = pid, qp_task_kind = kind, qp_flavours = cfg_flavours cfg,
               qp_error_semantics = semantics, qp_max_error_threshold = cfg_max_error_threshold cfg,
               qp_error_window = \<lparr>ew_past_slots = cfg_error_window_past cfg,
                  ew_future_slots = cfg_error_window_future cfg,
                  ew_past_decay_slots = cfg_error_window_past_decay_slots cfg\<rparr>,
               qp_cumulative_error = \<lparr>ce_enabled = cfg_global_error_constraint_enabled cfg,
                  ce_hard = cfg_global_error_constraint_hard cfg\<rparr>\<rparr>))))"

definition registry_from_config :: "config \<Rightarrow> registry option" where
  "registry_from_config cfg = collect_all (default_profile_entry cfg) default_task_error_semantics"

definition registry_register ::
    "qos_profile \<Rightarrow> registry \<Rightarrow> (registry_error + profile_registration) \<times> registry" where
  "registry_register profile reg =
     (case profile_id_parse (pid_str (qp_profile_id profile)) of
        Inl e \<Rightarrow> (Inl (InvalidId e), reg)
      | Inr _ \<Rightarrow>
         (case qos_profile_validate profile of
            Inl e \<Rightarrow> (Inl (InvalidProfile e), reg)
          | Inr _ \<Rightarrow>
             (case map_of reg (qp_profile_id profile) of
                Some existing \<Rightarrow>
                  (if existing = profile then (Inr AlreadyRegistered, reg)
                   else (Inl (ProfileConflict (qp_profile_id profile)), reg))
              | None \<Rightarrow> (Inr Created, hm_insert (qp_profile_id profile) profile reg))))"

definition registry_get :: "registry \<Rightarrow> qos_profile_id \<Rightarrow> qos_profile option" where
  "registry_get reg pid = map_of reg pid"

definition registry_get_by_str :: "registry \<Rightarrow> string \<Rightarrow> id_error + qos_profile option" where
  "registry_get_by_str reg s =
     (case profile_id_parse s of Inl e \<Rightarrow> Inl e | Inr pid \<Rightarrow> Inr (registry_get reg pid))"

definition registry_default_for :: "registry \<Rightarrow> task_kind_id \<Rightarrow> qos_profile option" where
  "registry_default_for reg kind =
     (case profile_id_parse (''default-'' @ underscores_to_dashes (tk_str kind)) of
        Inl _ \<Rightarrow> None
      | Inr pid \<Rightarrow> registry_get reg pid)"

definition registry_list :: "registry \<Rightarrow> qos_profile list" where
  "registry_list reg = sort_key qp_profile_id (hm_values reg)"

text \<open>Every profile is stored under its own identifier.\<close>

definition registry_ok :: "registry \<Rightarrow> bool" where
  "registry_ok reg \<longleftrightarrow> hm_wf reg \<and> (\<forall>pid p. map_of reg pid = Some p \<longrightarrow> qp_profile_id p = pid)"

lemma registry_register_cases:
  "snd (registry_register p reg) = reg
   \<or> registry_get reg (qp_profile_id p) = None
     \<and> snd (registry_register p reg) = hm_insert (qp_profile_id p) p reg"
  by (cases "map_of reg (qp_profile_id p)")
    (simp_all add: registry_register_def registry_get_def split: sum.split)

lemma registry_register_ok:
  assumes "registry_ok reg"
  shows "registry_ok (snd (registry_register p reg))"
  using registry_register_cases [of p reg]
proof
  assume "registry_get reg (qp_profile_id p) = None
     \<and> snd (registry_register p reg) = hm_insert (qp_profile_id p) p reg"
  then have eq: "snd (registry_register p reg) = hm_insert (qp_profile_id p) p reg" ..
  show ?thesis using assms unfolding eq registry_ok_def by (simp add: map_simps)
qed (use assms in simp)

lemma registry_register_keeps:
  assumes "registry_get reg pid = Some p"
  shows "registry_get (snd (registry_register q reg)) pid = Some p"
  using registry_register_cases [of q reg]
proof
  assume new: "registry_get reg (qp_profile_id q) = None
     \<and> snd (registry_register q reg) = hm_insert (qp_profile_id q) q reg"
  then have eq: "snd (registry_register q reg) = hm_insert (qp_profile_id q) q reg" ..
  have "pid \<noteq> qp_profile_id q" using new assms by auto
  then show ?thesis using assms unfolding eq registry_get_def by (simp add: map_simps)
qed (use assms in simp)

lemma registry_defaults:
  obtains reg where "registry_from_config cfg = Some reg" and "registry_ok reg"
    and "map fst reg = [QosProfileId ''default-text-generation'', QosProfileId ''default-ner'',
      QosProfileId ''default-question-answering'']"
    and "\<forall>p \<in> set (hm_values reg). qp_flavours p = cfg_flavours cfg"
proof -
  have "\<exists>reg. registry_from_config cfg = Some reg \<and> registry_ok reg
    \<and> map fst reg = [QosProfileId ''default-text-generation'', QosProfileId ''default-ner'',
      QosProfileId ''default-question-answering'']
    \<and> (\<forall>p \<in> set (hm_values reg). qp_flavours p = cfg_flavours cfg)"
    by (simp add: registry_from_config_def default_task_error_semantics_def default_profile_entry_def
        task_kind_parse_def profile_id_parse_def is_valid_stable_identifier_def is_ascii_lowercase_def
        is_ascii_digit_def underscores_to_dashes_def registry_ok_def hm_wf_def hm_values_def)
  then show thesis by (elim exE conjE) (rule that)
qed

text \<open>
  A registered profile is immutable. Whatever is registered afterwards, an identifier keeps
  its definition; a registration answers \<open>Created\<close> exactly for a valid profile under a new
  identifier and is then what a lookup finds, \<open>AlreadyRegistered\<close> exactly for the same definition
  again, and a conflict changes nothing.
\<close>

theorem registered_profiles_immutable:
  assumes "registry_register p reg = (answer, reg')"
    and "later = fold (\<lambda>q r. snd (registry_register q r)) ps reg'"
  shows "(\<forall>pid q. registry_get reg pid = Some q \<longrightarrow> registry_get later pid = Some q)
    \<and> (answer = Inr Created \<longleftrightarrow> is_valid_stable_identifier (pid_str (qp_profile_id p)) \<and> profile_wf p
          \<and> registry_get reg (qp_profile_id p) = None)
    \<and> (answer = Inr AlreadyRegistered \<longleftrightarrow> is_valid_stable_identifier (pid_str (qp_profile_id p)) \<and> profile_wf p
          \<and> registry_get reg (qp_profile_id p) = Some p)
    \<and> (answer = Inr Created \<longrightarrow> registry_get later (qp_profile_id p) = Some p)
    \<and> (answer \<noteq> Inr Created \<longrightarrow> reg' = reg)"
proof -
  have keep: "registry_get (fold (\<lambda>q r. snd (registry_register q r)) ps r) pid = Some q"
    if "registry_get r pid = Some q" for r pid q
    using that
  proof (induction ps arbitrary: r)
    case (Cons q' ps)
    from Cons.IH [OF registry_register_keeps [OF Cons.prems]] show ?case by simp
  qed simp
  have "registry_get later pid = Some q" if "registry_get reg pid = Some q" for pid q
    using keep [OF registry_register_keeps [OF that, of p]] assms by simp
  moreover have valid: "qos_profile_validate p = Inr x \<longleftrightarrow> profile_wf p" for x
    using qos_profile_validate_iff [of p] by (cases x) simp
  then have "(answer = Inr Created \<longleftrightarrow> is_valid_stable_identifier (pid_str (qp_profile_id p)) \<and> profile_wf p
          \<and> registry_get reg (qp_profile_id p) = None)
    \<and> (answer = Inr AlreadyRegistered \<longleftrightarrow> is_valid_stable_identifier (pid_str (qp_profile_id p)) \<and> profile_wf p
          \<and> registry_get reg (qp_profile_id p) = Some p)
    \<and> (answer = Inr Created \<longrightarrow> registry_get reg' (qp_profile_id p) = Some p)
    \<and> (answer \<noteq> Inr Created \<longrightarrow> reg' = reg)"
    using assms(1)
    by (auto simp: registry_register_def profile_id_parse_def registry_get_def map_simps
        split: if_splits sum.splits option.splits)
  ultimately show ?thesis using keep assms(2) by blast
qed

lemma registered_profiles_immutable_witness:
  "let p = \<lparr>qp_profile_id = QosProfileId ''gold'', qp_task_kind = TaskKindId ''ner'',
        qp_flavours = [\<lparr>fl_name = ''Fast'', fl_error = 5, fl_duration = 10\<rparr>],
        qp_error_semantics = ''entity-set-f1-v1'', qp_max_error_threshold = 5,
        qp_error_window = \<lparr>ew_past_slots = 2, ew_future_slots = 2, ew_past_decay_slots = 0\<rparr>,
        qp_cumulative_error = \<lparr>ce_enabled = False, ce_hard = False\<rparr>\<rparr>;
       (answer, reg) = registry_register p []
   in answer = Inr Created
     \<and> registry_get (snd (registry_register (p\<lparr>qp_max_error_threshold := 50\<rparr>) reg)) (QosProfileId ''gold'') = Some p"
proof -
  let ?p = "\<lparr>qp_profile_id = QosProfileId ''gold'', qp_task_kind = TaskKindId ''ner'',
        qp_flavours = [\<lparr>fl_name = ''Fast'', fl_error = 5, fl_duration = 10\<rparr>],
        qp_error_semantics = ''entity-set-f1-v1'', qp_max_error_threshold = 5,
        qp_error_window = \<lparr>ew_past_slots = 2, ew_future_slots = 2, ew_past_decay_slots = 0\<rparr>,
        qp_cumulative_error = \<lparr>ce_enabled = False, ce_hard = False\<rparr>\<rparr> :: qos_profile"
  have trim: "str_trim ''Fast'' \<noteq> []" by code_simp
  then have "is_valid_stable_identifier ''gold'' \<and> profile_wf ?p"
    by (simp add: profile_wf_def flavour_wf_def is_valid_stable_identifier_def is_ascii_lowercase_def is_ascii_digit_def)
  then show ?thesis
    using registered_profiles_immutable [of ?p "[]" "fst (registry_register ?p [])" "snd (registry_register ?p [])"
        "snd (registry_register (?p\<lparr>qp_max_error_threshold := 50\<rparr>) (snd (registry_register ?p [])))"
        "[?p\<lparr>qp_max_error_threshold := 50\<rparr>]"]
    by (simp add: registry_get_def case_prod_unfold)
qed

section \<open>Tracked requests\<close>

datatype request_status = Pending | Scheduled | Dispatched | Completed | Failed

text \<open>The message kept with a failed request.\<close>

datatype failure =
    GaveUp nat string
  | NoBoundary clock_error
  | Reported string

text \<open>A monotonic \<open>Instant\<close>, in milliseconds.\<close>

type_synonym instant = nat

record 'v tracked_request =
  tr_callback_url :: "string option"
  tr_payload :: 'v
  tr_status :: request_status
  tr_error :: "failure option"
  tr_executor_callback_received :: bool
  tr_dispatch_attempts :: nat
  tr_next_attempt_at :: "instant option"
  tr_baseline_carbon_cost :: f64
  tr_baseline_duration :: f64
  tr_arrival_slot :: slot
  tr_qos_profile_id :: qos_profile_id
  tr_actual_carbon_cost :: "f64 option"
  tr_actual_baseline_carbon_cost :: "f64 option"
  tr_actual_error_pct :: "f64 option"
  tr_execution_time_sec :: "f64 option"
  tr_baseline_execution_time_sec :: "f64 option"

definition tracked_request_new ::
    "string option \<Rightarrow> 'v \<Rightarrow> f64 \<Rightarrow> f64 \<Rightarrow> slot \<Rightarrow> qos_profile_id \<Rightarrow> 'v tracked_request" where
  "tracked_request_new callback_url payload baseline_carbon_cost baseline_duration arrival_slot pid =
     \<lparr>tr_callback_url = callback_url, tr_payload = payload, tr_status = Pending, tr_error = None,
      tr_executor_callback_received = False, tr_dispatch_attempts = 0, tr_next_attempt_at = None,
      tr_baseline_carbon_cost = baseline_carbon_cost, tr_baseline_duration = baseline_duration,
      tr_arrival_slot = arrival_slot, tr_qos_profile_id = pid, tr_actual_carbon_cost = None,
      tr_actual_baseline_carbon_cost = None, tr_actual_error_pct = None, tr_execution_time_sec = None,
      tr_baseline_execution_time_sec = None\<rparr>"

section \<open>The application state\<close>

record service_config =
  svc_executor_url :: "string option"
  svc_self_base_url :: string
  svc_submit_wait_timeout_secs :: f64
  svc_allow_private_callbacks :: bool
  svc_api_key :: "string option"
  svc_executor_token :: "string option"
  svc_executor_max_retries :: nat
  svc_executor_retry_base_ms :: nat
  svc_executor_retry_max_ms :: nat
  svc_horizon_ready_threshold :: f64
  svc_dispatcher_poll_interval_ms :: nat

record service_scheduler_config =
  ssc_total_slots :: int
  ssc_effective_slot_duration_secs :: f64
  ssc_manual_clock :: bool
  ssc_flavours :: "flavour list"
  ssc_carbon_cost_duration_scale :: f64
  ssc_max_error_threshold :: f64
  ssc_error_window_past :: int
  ssc_error_window_future :: int
  ssc_error_window_past_decay_slots :: int
  ssc_cumulative_error_enabled :: bool
  ssc_cumulative_error_hard :: bool
  ssc_assignment_max_future_slots :: int

definition service_scheduler_of :: "config \<Rightarrow> service_scheduler_config" where
  "service_scheduler_of cfg =
     \<lparr>ssc_total_slots = cfg_total_slots cfg,
      ssc_effective_slot_duration_secs = effective_slot_duration_secs cfg,
      ssc_manual_clock = sim_manual_clock (cfg_simulation cfg),
      ssc_flavours = cfg_flavours cfg,
      ssc_carbon_cost_duration_scale = cfg_carbon_cost_duration_scale cfg,
      ssc_max_error_threshold = cfg_max_error_threshold cfg,
      ssc_error_window_past = cfg_error_window_past cfg,
      ssc_error_window_future = cfg_error_window_future cfg,
      ssc_error_window_past_decay_slots = cfg_error_window_past_decay_slots cfg,
      ssc_cumulative_error_enabled = cfg_global_error_constraint_enabled cfg,
      ssc_cumulative_error_hard = cfg_global_error_constraint_hard cfg,
      ssc_assignment_max_future_slots = cfg_assignment_max_future_slots cfg\<rparr>"

text \<open>
  \<open>ap_admission_poisoned\<close>: a handler panicked while it held the lock of \<open>ap_closed_through\<close>, so
  every later \<open>lock().unwrap()\<close> of it panics. No other lock is held across code that can panic.
\<close>

record 'v app_state =
  ap_shared :: shared_state
  ap_scheduler :: service_scheduler_config
  ap_profiles :: registry
  ap_service_cfg :: service_config
  ap_tracked :: "(request_id, 'v tracked_request) hmap"
  ap_carbon_forecast :: "f64 list"
  ap_baseline_slot_counts :: "(slot, int) hmap"
  ap_actual_carbon_intensity :: "(slot, f64) hmap"
  ap_slot_epoch_offset :: "int option"
  ap_slot_epoch_start_utc :: system_time
  ap_closed_through :: slot
  ap_admission_poisoned :: bool
  ap_next_id :: nat

text \<open>\<open>None\<close> is a panic: an elapsed time or an anchor outside the range of the clock.\<close>

definition app_state_new ::
    "system_time \<Rightarrow> shared_state \<Rightarrow> config \<Rightarrow> service_config \<Rightarrow> f64 list \<Rightarrow> 'v app_state option" where
  "app_state_new now ss cfg service_cfg forecast =
     (let ss' = initialize_capacity_tiers (cfg_capacity_tiers cfg) ss
      in case (registry_from_config cfg, duration_try_from_secs (max (virtual_elapsed_secs ss') 0)) of
        (Some reg, Some elapsed) \<Rightarrow>
          map_option (\<lambda>start.
            \<lparr>ap_shared = ss', ap_scheduler = service_scheduler_of cfg, ap_profiles = reg,
             ap_service_cfg = service_cfg, ap_tracked = [], ap_carbon_forecast = forecast,
             ap_baseline_slot_counts = [], ap_actual_carbon_intensity = [], ap_slot_epoch_offset = None,
             ap_slot_epoch_start_utc = start, ap_closed_through = -1, ap_admission_poisoned = False,
             ap_next_id = 1\<rparr>)
            (time_checked_sub now elapsed)
      | _ \<Rightarrow> None)"

text \<open>\<open>get_mut\<close> on the table of tracked requests, where a missing entry is left alone.\<close>

definition update_tracked ::
    "request_id \<Rightarrow> ('v tracked_request \<Rightarrow> 'v tracked_request) \<Rightarrow> 'v app_state \<Rightarrow> 'v app_state" where
  "update_tracked i f app =
     (case map_of (ap_tracked app) i of
        None \<Rightarrow> app
      | Some t \<Rightarrow> app\<lparr>ap_tracked := hm_insert i (f t) (ap_tracked app)\<rparr>)"

lemma update_tracked_sel [simp]:
  "ap_shared (update_tracked i f app) = ap_shared app"
  "ap_scheduler (update_tracked i f app) = ap_scheduler app"
  "ap_service_cfg (update_tracked i f app) = ap_service_cfg app"
  "ap_slot_epoch_start_utc (update_tracked i f app) = ap_slot_epoch_start_utc app"
  by (simp_all add: update_tracked_def split: option.split)

lemma update_tracked_lookup:
  "map_of (ap_tracked (update_tracked i f app)) j =
     (if j = i then map_option f (map_of (ap_tracked app) i) else map_of (ap_tracked app) j)"
  by (auto simp: update_tracked_def map_simps split: option.split)

text \<open>\<open>fetch_add\<close> wraps.\<close>

definition next_request_id :: "'v app_state \<Rightarrow> request_id \<times> 'v app_state" where
  "next_request_id app = (ap_next_id app, app\<lparr>ap_next_id := (ap_next_id app + 1) mod 2 ^ 64\<rparr>)"

text \<open>\<open>slot as usize\<close> of a negative slot is beyond every forecast.\<close>

definition forecast_at :: "f64 list \<Rightarrow> slot \<Rightarrow> f64 option" where
  "forecast_at forecast s = (if 0 \<le> s \<and> nat s < length forecast then Some (forecast ! nat s) else None)"

definition carbon_intensity_ratio :: "slot \<Rightarrow> 'v app_state \<Rightarrow> f64 option" where
  "carbon_intensity_ratio s app =
     (case (map_of (ap_actual_carbon_intensity app) s, forecast_at (ap_carbon_forecast app) s) of
        (Some actual, Some forecast) \<Rightarrow> if forecast \<le> 0 then None else Some (actual / forecast)
      | _ \<Rightarrow> None)"

definition slot_offset :: "slot \<Rightarrow> 'v app_state \<Rightarrow> clock_error + duration" where
  "slot_offset s app =
     (if s < 0 then Inl NegativeSlot
      else case duration_try_from_secs (ssc_effective_slot_duration_secs (ap_scheduler app) * real_of_int s) of
        None \<Rightarrow> Inl InvalidSlotDuration
      | Some offset \<Rightarrow> Inr offset)"

definition set_slot_time_anchor ::
    "slot \<Rightarrow> system_time \<Rightarrow> 'v app_state \<Rightarrow> clock_error + 'v app_state" where
  "set_slot_time_anchor s slot_start_utc app =
     (case slot_offset s app of
        Inl e \<Rightarrow> Inl e
      | Inr offset \<Rightarrow>
         (case time_checked_sub slot_start_utc offset of
            None \<Rightarrow> Inl BoundaryOutOfRange
          | Some start \<Rightarrow> Inr (app\<lparr>ap_slot_epoch_start_utc := start\<rparr>)))"

definition set_wall_clock_alignment :: "wall_clock_align \<Rightarrow> 'v app_state \<Rightarrow> 'v app_state" where
  "set_wall_clock_alignment al app =
     app\<lparr>ap_slot_epoch_offset := Some (wc_global_slot al), ap_slot_epoch_start_utc := wc_slot_start_utc al\<rparr>"

text \<open>The boundary that \<open>execute_at_for_slot\<close> prints; the RFC 3339 formatter is a parameter.\<close>

definition slot_boundary :: "slot \<Rightarrow> 'v app_state \<Rightarrow> clock_error + system_time" where
  "slot_boundary s app =
     (case slot_offset s app of
        Inl e \<Rightarrow> Inl e
      | Inr offset \<Rightarrow>
         (case time_checked_add (ap_slot_epoch_start_utc app) offset of
            None \<Rightarrow> Inl BoundaryOutOfRange
          | Some t \<Rightarrow> Inr t))"

definition execute_at_for_slot ::
    "(system_time \<Rightarrow> string) \<Rightarrow> slot \<Rightarrow> 'v app_state \<Rightarrow> clock_error + string" where
  "execute_at_for_slot to_rfc3339 s app = map_sum id to_rfc3339 (slot_boundary s app)"

text \<open>
  C37: Anchoring and reading the clock are inverse. After a slot has been anchored at a valid
  instant the boundary handed to the executor for that slot is this very instant, nothing else of
  the state changes, and the boundaries of later slots do not come earlier.
\<close>

theorem anchor_roundtrip:
  assumes "set_slot_time_anchor s t app = Inr app'" and "system_time_ok t"
  shows "execute_at_for_slot fmt s app' = Inr (fmt t)
    \<and> slot_boundary s app' = Inr t
    \<and> app'\<lparr>ap_slot_epoch_start_utc := ap_slot_epoch_start_utc app\<rparr> = app
    \<and> (0 \<le> ssc_effective_slot_duration_secs (ap_scheduler app) \<and> s \<le> s' \<and> slot_boundary s' app' = Inr t'
        \<longrightarrow> t \<le> t')"
proof -
  obtain d start where d: "slot_offset s app = Inr d" and start: "time_checked_sub t d = Some start"
    and app': "app' = app\<lparr>ap_slot_epoch_start_utc := start\<rparr>"
    using assms(1) by (auto simp: set_slot_time_anchor_def split: sum.splits option.splits)
  have off: "slot_offset r app' = slot_offset r app" for r by (simp add: app' slot_offset_def)
  have eq: "start = t - int d" using start by (simp add: time_checked_sub_def split: if_splits)
  then have b: "slot_boundary s app' = Inr t"
    using assms(2) by (simp add: slot_boundary_def off d) (simp add: app' time_checked_add_def)
  have "t \<le> t'" if h: "0 \<le> ssc_effective_slot_duration_secs (ap_scheduler app)" "s \<le> s'"
    "slot_boundary s' app' = Inr t'"
  proof -
    obtain d' where d': "slot_offset s' app = Inr d'" "t' = start + int d'"
      using h(3) unfolding slot_boundary_def off
      by (auto simp: app' time_checked_add_def split: sum.splits if_splits)
    have "ssc_effective_slot_duration_secs (ap_scheduler app) * real_of_int s
        \<le> ssc_effective_slot_duration_secs (ap_scheduler app) * real_of_int s'"
      using h(1,2) by (intro mult_left_mono) auto
    then have "d \<le> d'"
      using d d'(1) round_half_even_mono
      by (auto simp: slot_offset_def duration_try_from_secs_def Let_def intro!: nat_mono split: if_splits option.splits)
    then show ?thesis by (simp add: d'(2) eq)
  qed
  then show ?thesis using b by (simp add: execute_at_for_slot_def) (simp add: app')
qed

definition sample_service_config :: service_config where
  "sample_service_config =
     \<lparr>svc_executor_url = Some ''http://executor'', svc_self_base_url = ''http://localhost:8080'',
      svc_submit_wait_timeout_secs = 5, svc_allow_private_callbacks = False, svc_api_key = None,
      svc_executor_token = None, svc_executor_max_retries = 3, svc_executor_retry_base_ms = 100,
      svc_executor_retry_max_ms = 1000, svc_horizon_ready_threshold = 9 / 10,
      svc_dispatcher_poll_interval_ms = 250\<rparr>"

text \<open>A service at the start of its horizon, with one profile.\<close>

definition sample_profile :: qos_profile where
  "sample_profile =
     \<lparr>qp_profile_id = default_profile, qp_task_kind = TaskKindId ''text_generation'',
      qp_flavours = [\<lparr>fl_name = ''Fast'', fl_error = 5, fl_duration = 10\<rparr>,
        \<lparr>fl_name = ''Accurate'', fl_error = 0, fl_duration = 40\<rparr>],
      qp_error_semantics = ''relative-confidence-degradation-v1'', qp_max_error_threshold = 5,
      qp_error_window = \<lparr>ew_past_slots = 2, ew_future_slots = 2, ew_past_decay_slots = 0\<rparr>,
      qp_cumulative_error = \<lparr>ce_enabled = False, ce_hard = False\<rparr>\<rparr>"

definition sample_app :: "'v app_state" where
  "sample_app =
     \<lparr>ap_shared = shared_state_new\<lparr>ss_capacity_tiers := Some [\<lparr>ct_max_requests = None, ct_multiplier = 1\<rparr>]\<rparr>,
      ap_scheduler = (service_scheduler_of config_default)\<lparr>ssc_total_slots := 10,
        ssc_effective_slot_duration_secs := 60, ssc_manual_clock := True\<rparr>,
      ap_profiles = [(default_profile, sample_profile)], ap_service_cfg = sample_service_config,
      ap_tracked = [], ap_carbon_forecast = replicate 10 100, ap_baseline_slot_counts = [],
      ap_actual_carbon_intensity = [], ap_slot_epoch_offset = None, ap_slot_epoch_start_utc = 0,
      ap_closed_through = -1, ap_admission_poisoned = False, ap_next_id = 1\<rparr>"

lemma anchor_roundtrip_witness:
  "case set_slot_time_anchor 2 (1700000120 * 1000000000) sample_app of
     Inl e \<Rightarrow> False
   | Inr app' \<Rightarrow> slot_boundary 2 (app' :: unit app_state) = Inr (1700000120 * 1000000000)
       \<and> slot_boundary 3 app' = Inr (1700000180 * 1000000000)"
proof -
  have off: "slot_offset 2 (sample_app :: unit app_state) = Inr 120000000000"
    by (simp add: slot_offset_def duration_try_from_secs_def round_half_even_def sample_app_def Let_def)
  then obtain app' where app': "set_slot_time_anchor 2 (1700000120 * 1000000000) (sample_app :: unit app_state) = Inr app'"
    "app' = sample_app\<lparr>ap_slot_epoch_start_utc := 1700000000 * 1000000000\<rparr>"
    by (simp add: set_slot_time_anchor_def time_checked_sub_def system_time_ok_def)
  have "system_time_ok (1700000120 * 1000000000)" by (simp add: system_time_ok_def)
  from anchor_roundtrip [OF app'(1) this] have "slot_boundary 2 app' = Inr (1700000120 * 1000000000)" by blast
  moreover have "slot_boundary 3 app' = Inr (1700000180 * 1000000000)"
    by (simp add: app'(2) slot_boundary_def slot_offset_def duration_try_from_secs_def
        round_half_even_def sample_app_def Let_def time_checked_add_def system_time_ok_def)
  ultimately show ?thesis unfolding app'(1) by simp
qed

end
