(* ===== verification/Auth.thy ===== *)
theory Auth
  imports Service_State
begin

text \<open>
  Access control (\<open>service/auth.rs\<close>, \<open>service/server.rs\<close>): the comparison of credentials, the two
  middleware checks, and which routes each of them guards. The header map belongs to the HTTP
  library; what the code reads of it, a header as text, is an argument.
\<close>

unbundle bit_operations_syntax

definition byte_of :: "char \<Rightarrow> 8 word" where
  "byte_of c = word_of_nat (of_char c)"

definition constant_time_eq :: "string \<Rightarrow> string \<Rightarrow> bool" where
  "constant_time_eq a b =
     (let a' = map byte_of a; b' = map byte_of b
      in if length a' \<noteq> length b' then False
         else foldl (\<lambda>acc (x, y). acc OR (x XOR y)) 0 (zip a' b') = 0)"

lemma byte_of_inj: "byte_of c = byte_of d \<longleftrightarrow> c = d"
proof
  assume "byte_of c = byte_of d"
  then have "unat (byte_of c) = unat (byte_of d)" by simp
  moreover have "unat (byte_of x) = of_char x" for x
    using nat_of_char_less_256 [of x] by (simp add: byte_of_def unat_of_nat)
  ultimately show "c = d" by simp
qed simp

lemma xor_zero_iff: "x XOR y = 0 \<longleftrightarrow> x = y" for x y :: "8 word"
proof
  assume "x XOR y = 0"
  then have "(x XOR y) XOR y = y" by simp
  then show "x = y" by (simp add: xor.assoc)
qed simp

lemma or_zero_iff: "x OR y = 0 \<longleftrightarrow> x = 0 \<and> y = 0" for x y :: "8 word"
  by (auto simp: bit_eq_iff bit_or_iff)

lemma fold_differences:
  fixes acc :: "8 word"
  shows "foldl (\<lambda>acc (x, y). acc OR (x XOR y)) acc zs = 0 \<longleftrightarrow> acc = 0 \<and> list_all (\<lambda>(x, y). x = y) zs"
proof (induction zs arbitrary: acc)
  case (Cons z zs)
  obtain x y where z: "z = (x, y)" by fastforce
  have "acc OR (x XOR y) = 0 \<longleftrightarrow> acc = 0 \<and> x = y"
    using xor_zero_iff [of x y] or_zero_iff [of acc "x XOR y"] by simp
  with Cons z show ?case by auto
qed simp

lemma constant_time_eq_iff [simp]: "constant_time_eq a b \<longleftrightarrow> a = b"
proof (cases "length a = length b")
  case True
  then have "list_all (\<lambda>(x, y). x = y) (zip (map byte_of a) (map byte_of b)) \<longleftrightarrow> a = b"
    by (induction rule: list_induct2) (simp_all add: byte_of_inj)
  with True show ?thesis by (simp add: constant_time_eq_def fold_differences)
qed (auto simp: constant_time_eq_def)

section \<open>The middleware\<close>

datatype auth_answer = Continue | Unauthorized

definition require_header :: "string option \<Rightarrow> string option \<Rightarrow> auth_answer" where
  "require_header expected provided =
     (case expected of
        None \<Rightarrow> Continue
      | Some e \<Rightarrow>
         (case provided of
            Some p \<Rightarrow> if constant_time_eq p e then Continue else Unauthorized
          | None \<Rightarrow> Unauthorized))"

definition require_api_key :: "service_config \<Rightarrow> (string \<Rightarrow> string option) \<Rightarrow> auth_answer" where
  "require_api_key cfg headers = require_header (svc_api_key cfg) (headers ''x-api-key'')"

definition require_executor_token :: "service_config \<Rightarrow> (string \<Rightarrow> string option) \<Rightarrow> auth_answer" where
  "require_executor_token cfg headers = require_header (svc_executor_token cfg) (headers ''x-executor-token'')"

section \<open>The routes\<close>

datatype route_group = Public_routes | Caller_routes | Executor_routes

definition routes :: "((string \<times> string) \<times> route_group) list" where
  "routes =
     [((''POST'', ''/v1/requests''), Caller_routes), ((''GET'', ''/v1/requests''), Caller_routes),
      ((''GET'', ''/v1/requests/:id''), Caller_routes),
      ((''POST'', ''/v1/profiles''), Caller_routes), ((''GET'', ''/v1/profiles''), Caller_routes),
      ((''GET'', ''/v1/profiles/:profile_id''), Caller_routes),
      ((''PUT'', ''/v1/admin/capacity-tiers''), Caller_routes),
      ((''POST'', ''/v1/callback/:id''), Executor_routes),
      ((''GET'', ''/health''), Public_routes), ((''GET'', ''/ready''), Public_routes),
      ((''GET'', ''/v1/stats''), Public_routes), ((''GET'', ''/v1/horizon''), Public_routes),
      ((''GET'', ''/v1/carbon-forecast''), Public_routes), ((''GET'', ''/v1/carbon_intensity''), Public_routes),
      ((''GET'', ''/v1/assignments''), Public_routes), ((''GET'', ''/v1/slots/:slot''), Public_routes),
      ((''GET'', ''/v1/metrics/costs''), Public_routes),
      ((''GET'', ''/v1/metrics/error-history''), Public_routes),
      ((''POST'', ''/v1/admin/advance-slot''), Public_routes),
      ((''POST'', ''/v1/admin/close-slot''), Public_routes)]"

definition admits :: "service_config \<Rightarrow> (string \<Rightarrow> string option) \<Rightarrow> string \<times> string \<Rightarrow> bool" where
  "admits cfg headers route =
     (case map_of routes route of
        None \<Rightarrow> False
      | Some Public_routes \<Rightarrow> True
      | Some Caller_routes \<Rightarrow> require_api_key cfg headers = Continue
      | Some Executor_routes \<Rightarrow> require_executor_token cfg headers = Continue)"

text \<open>
  Credentials are separate and exact. With both secrets configured, a request reaches a
  caller's route only with exactly the API key and the executor's callback only with exactly the
  executor's token, neither opens the other's routes unless the two secrets are equal, and an unset
  secret opens its routes to everybody.
\<close>

theorem credentials_separate:
  assumes "map_of routes r = Some kind"
  shows "(kind = Caller_routes \<longrightarrow>
      (admits cfg headers r \<longleftrightarrow> svc_api_key cfg = None \<or> headers ''x-api-key'' = svc_api_key cfg))
    \<and> (kind = Executor_routes \<longrightarrow>
      (admits cfg headers r \<longleftrightarrow> svc_executor_token cfg = None
         \<or> headers ''x-executor-token'' = svc_executor_token cfg))
    \<and> (kind = Public_routes \<longrightarrow> admits cfg headers r)"
  using assms
  by (auto simp: admits_def require_api_key_def require_executor_token_def require_header_def
      split: option.splits route_group.splits)

text \<open>
  The clock of a manual service is not guarded: \<open>advance-slot\<close> and \<open>close-slot\<close> are open to everybody,
  while the other administrative route asks for the caller's key.
\<close>

lemma admin_routes_open:
  "admits cfg (\<lambda>_. None) (''POST'', ''/v1/admin/advance-slot'')"
  "admits cfg (\<lambda>_. None) (''POST'', ''/v1/admin/close-slot'')"
  "svc_api_key cfg = Some key \<Longrightarrow> \<not> admits cfg (\<lambda>_. None) (''PUT'', ''/v1/admin/capacity-tiers'')"
  by (simp_all add: admits_def routes_def require_api_key_def require_header_def)

lemma credentials_separate_witness:
  "let cfg = sample_service_config\<lparr>svc_api_key := Some ''caller'', svc_executor_token := Some ''exec''\<rparr>
   in admits cfg [''x-api-key'' \<mapsto> ''caller''] (''POST'', ''/v1/requests'')
     \<and> \<not> admits cfg [''x-api-key'' \<mapsto> ''calle''] (''POST'', ''/v1/requests'')
     \<and> \<not> admits cfg [''x-api-key'' \<mapsto> ''caller''] (''POST'', ''/v1/callback/:id'')"
  using credentials_separate [of "(''POST'', ''/v1/requests'')" Caller_routes
      "sample_service_config\<lparr>svc_api_key := Some ''caller'', svc_executor_token := Some ''exec''\<rparr>"]
    credentials_separate [of "(''POST'', ''/v1/callback/:id'')" Executor_routes
      "sample_service_config\<lparr>svc_api_key := Some ''caller'', svc_executor_token := Some ''exec''\<rparr>"]
  by (simp add: routes_def Let_def)

end
