(* ===== verification/Dispatcher.thy ===== *)
theory Dispatcher
  imports Service_State
begin

text \<open>
  The dispatcher task (\<open>service/dispatcher.rs\<close>): which assignments are due, what is sent to the
  executor for one of them, and how a failed attempt is retried with exponential backoff or given
  up. The HTTP client is a parameter: the outcome of a POST, given its URL and payload. Logging is
  left out.
\<close>

record 'v executor_dispatch_payload =
  dp_request_id :: request_id
  dp_scheduled_slot :: slot
  dp_execute_at :: string
  dp_flavour :: string
  dp_carbon_cost :: f64
  dp_callback_url :: string
  dp_payload :: 'v

datatype post_outcome = Delivered | Refused string | Unreachable string

section \<open>Backoff\<close>

definition saturating_mul_u64 :: "nat \<Rightarrow> nat \<Rightarrow> nat" where
  "saturating_mul_u64 a b = min (a * b) 18446744073709551615"

text \<open>\<open>checked_shl\<close> is \<open>None\<close> for a shift of 64 or more.\<close>

definition backoff_delay :: "nat \<Rightarrow> nat \<Rightarrow> nat \<Rightarrow> nat" where
  "backoff_delay attempt base_ms max_ms =
     (let multiplier = (if attempt - 1 < 64 then 2 ^ (attempt - 1) else 18446744073709551615)
      in min (saturating_mul_u64 base_ms multiplier) max_ms)"

text \<open>
  The backoff is exponential and capped, for every attempt. Neither the shift nor the
  multiplication ever falsifies it: the delay is \<open>base * 2 ^ (attempt - 1)\<close> or the cap, whichever
  is smaller, computed in unbounded arithmetic; it never decreases from one attempt to the next.
\<close>

theorem backoff_exact:
  assumes "max_ms < 2 ^ 64"
  shows "backoff_delay attempt base_ms max_ms = min (base_ms * 2 ^ (attempt - 1)) max_ms
    \<and> backoff_delay attempt base_ms max_ms \<le> backoff_delay (attempt + 1) base_ms max_ms"
proof -
  have exact: "backoff_delay n base_ms max_ms = min (base_ms * 2 ^ (n - 1)) max_ms" for n
  proof (cases "n - 1 < 64")
    case True
    then show ?thesis using assms by (simp add: backoff_delay_def saturating_mul_u64_def)
  next
    case False
    show ?thesis
    proof (cases "base_ms = 0")
      case nz: False
      have "(2::nat) ^ 64 \<le> 2 ^ (n - 1)" using False by (intro power_increasing) simp_all
      also have "\<dots> \<le> base_ms * 2 ^ (n - 1)" using nz by simp
      finally have "max_ms \<le> base_ms * 2 ^ (n - 1)" using assms by simp
      moreover have "max_ms \<le> base_ms * 18446744073709551615"
        using assms nz mult_le_mono1 [of 1 base_ms 18446744073709551615] by simp
      ultimately show ?thesis
        using assms False by (simp add: backoff_delay_def saturating_mul_u64_def)
    qed (simp add: backoff_delay_def saturating_mul_u64_def)
  qed
  have "base_ms * 2 ^ (attempt - 1) \<le> base_ms * 2 ^ (attempt + 1 - 1)"
    by (intro mult_le_mono2 power_increasing) simp_all
  then show ?thesis unfolding exact by (simp add: min_le_iff_disj)
qed

lemma backoff_exact_witness:
  "backoff_delay 3 100 10000 = 400 \<and> backoff_delay 1000 100 60000 = min (100 * 2 ^ 999) 60000"
  using backoff_exact [of 10000 3 100] backoff_exact [of 60000 1000 100] by simp

section \<open>One request\<close>

definition set_status ::
    "request_id \<Rightarrow> request_status \<Rightarrow> failure option \<Rightarrow> 'v app_state \<Rightarrow> 'v app_state" where
  "set_status i status err =
     update_tracked i (\<lambda>t. if \<not> tr_executor_callback_received t then t\<lparr>tr_status := status, tr_error := err\<rparr> else t)"

definition record_failure ::
    "instant \<Rightarrow> request_id \<Rightarrow> string \<Rightarrow> 'v app_state \<Rightarrow> 'v app_state" where
  "record_failure now i err app =
     (let cfg = ap_service_cfg app
      in update_tracked i (\<lambda>t.
           if tr_executor_callback_received t then t
           else let t' = t\<lparr>tr_dispatch_attempts := tr_dispatch_attempts t + 1\<rparr>
                in if svc_executor_max_retries cfg \<le> tr_dispatch_attempts t'
                   then t'\<lparr>tr_status := Failed, tr_error := Some (GaveUp (tr_dispatch_attempts t') err)\<rparr>
                   else t'\<lparr>tr_next_attempt_at := Some (now + backoff_delay (tr_dispatch_attempts t')
                          (svc_executor_retry_base_ms cfg) (svc_executor_retry_max_ms cfg))\<rparr>) app)"

text \<open>
  What is sent for an assignment; \<open>Inl\<close> if its slot has no boundary. \<open>decimal\<close> prints a number, as
  \<open>format!\<close> does, \<open>null\<close> is the JSON null.
\<close>

definition dispatch_payload ::
    "(system_time \<Rightarrow> string) \<Rightarrow> (nat \<Rightarrow> string) \<Rightarrow> 'v \<Rightarrow> request_id \<Rightarrow> assignment \<Rightarrow> 'v app_state
     \<Rightarrow> clock_error + 'v executor_dispatch_payload" where
  "dispatch_payload to_rfc3339 decimal null i a app =
     (let payload = (case map_of (ap_tracked app) i of Some t \<Rightarrow> tr_payload t | None \<Rightarrow> null)
      in map_sum id (\<lambda>execute_at.
           \<lparr>dp_request_id = i, dp_scheduled_slot = as_scheduled_slot a, dp_execute_at = execute_at,
            dp_flavour = as_flavour_name a, dp_carbon_cost = as_carbon_cost a,
            dp_callback_url = svc_self_base_url (ap_service_cfg app) @ ''/v1/callback/'' @ decimal i,
            dp_payload = payload\<rparr>)
           (execute_at_for_slot to_rfc3339 (as_scheduled_slot a) app))"

text \<open>What is recorded once the POST has ended.\<close>

fun dispatch_result ::
    "instant \<Rightarrow> request_id \<Rightarrow> post_outcome \<Rightarrow> 'v app_state \<Rightarrow> 'v app_state" where
  "dispatch_result now i Delivered app = set_status i Dispatched None app"
| "dispatch_result now i (Refused status) app = record_failure now i (''executor returned '' @ status) app"
| "dispatch_result now i (Unreachable err) app = record_failure now i err app"

text \<open>The answer is what was posted, if anything.\<close>

definition dispatch_one ::
    "(system_time \<Rightarrow> string) \<Rightarrow> (nat \<Rightarrow> string) \<Rightarrow> 'v
     \<Rightarrow> (string \<Rightarrow> 'v executor_dispatch_payload \<Rightarrow> post_outcome) \<Rightarrow> instant \<Rightarrow> request_id \<times> assignment
     \<Rightarrow> 'v app_state \<Rightarrow> 'v executor_dispatch_payload option \<times> 'v app_state" where
  "dispatch_one to_rfc3339 decimal null post now = (\<lambda>(i, a) app.
     (case dispatch_payload to_rfc3339 decimal null i a app of
        Inl e \<Rightarrow> (None, set_status i Failed (Some (NoBoundary e)) app)
      | Inr payload \<Rightarrow>
         (case svc_executor_url (ap_service_cfg app) of
            None \<Rightarrow> (None, set_status i Dispatched None app)
          | Some url \<Rightarrow> (Some payload, dispatch_result now i (post url payload) app))))"

section \<open>A cycle\<close>

definition awaits_dispatch :: "instant \<Rightarrow> 'v tracked_request \<Rightarrow> bool" where
  "awaits_dispatch now t \<longleftrightarrow>
     (tr_status t = Pending \<or> tr_status t = Scheduled)
     \<and> (case tr_next_attempt_at t of None \<Rightarrow> True | Some gate \<Rightarrow> gate \<le> now)"

definition due_assignments ::
    "instant \<Rightarrow> slot \<Rightarrow> (request_id, assignment) hmap \<Rightarrow> (request_id, 'v tracked_request) hmap
     \<Rightarrow> (request_id \<times> assignment) list" where
  "due_assignments now current_slot assignments tracked =
     filter (\<lambda>(i, a). as_scheduled_slot a \<le> current_slot
               \<and> (case map_of tracked i of None \<Rightarrow> False | Some t \<Rightarrow> awaits_dispatch now t)) assignments"

fun dispatch_all ::
    "(system_time \<Rightarrow> string) \<Rightarrow> (nat \<Rightarrow> string) \<Rightarrow> 'v
     \<Rightarrow> (string \<Rightarrow> 'v executor_dispatch_payload \<Rightarrow> post_outcome) \<Rightarrow> instant \<Rightarrow> (request_id \<times> assignment) list
     \<Rightarrow> 'v app_state \<Rightarrow> 'v executor_dispatch_payload list \<times> 'v app_state" where
  "dispatch_all to_rfc3339 decimal null post now [] app = ([], app)"
| "dispatch_all to_rfc3339 decimal null post now (d # ds) app =
     (let (sent, app1) = dispatch_one to_rfc3339 decimal null post now d app;
          (more, app2) = dispatch_all to_rfc3339 decimal null post now ds app1
      in (case sent of None \<Rightarrow> more | Some p \<Rightarrow> p # more, app2))"

definition dispatcher_cycle ::
    "(system_time \<Rightarrow> string) \<Rightarrow> (nat \<Rightarrow> string) \<Rightarrow> 'v
     \<Rightarrow> (string \<Rightarrow> 'v executor_dispatch_payload \<Rightarrow> post_outcome) \<Rightarrow> instant \<Rightarrow> 'v app_state
     \<Rightarrow> 'v executor_dispatch_payload list \<times> 'v app_state" where
  "dispatcher_cycle to_rfc3339 decimal null post now app =
     (let st = ss_inner (ap_shared app)
      in dispatch_all to_rfc3339 decimal null post now
           (due_assignments now (get_current_slot st) (get_current_assignments st) (ap_tracked app)) app)"

text \<open>The warning is logged once; only whether it was is kept.\<close>

definition warn_if_near_horizon :: "'v app_state \<Rightarrow> slot \<Rightarrow> bool \<Rightarrow> bool" where
  "warn_if_near_horizon app current_slot warned =
     (let total = ssc_total_slots (ap_scheduler app)
      in warned \<or> (0 < total
           \<and> real_of_int total * svc_horizon_ready_threshold (ap_service_cfg app) \<le> real_of_int current_slot))"

section \<open>What an attempt does to a request\<close>

fun after_attempt :: "service_config \<Rightarrow> instant \<Rightarrow> post_outcome \<Rightarrow> 'v tracked_request \<Rightarrow> 'v tracked_request" where
  "after_attempt cfg now Delivered t = t\<lparr>tr_status := Dispatched, tr_error := None\<rparr>"
| "after_attempt cfg now outcome t =
     (let n = tr_dispatch_attempts t + 1;
          err = (case outcome of Refused status \<Rightarrow> ''executor returned '' @ status | Unreachable e \<Rightarrow> e | Delivered \<Rightarrow> [])
      in if svc_executor_max_retries cfg \<le> n
         then t\<lparr>tr_dispatch_attempts := n, tr_status := Failed, tr_error := Some (GaveUp n err)\<rparr>
         else t\<lparr>tr_dispatch_attempts := n, tr_next_attempt_at := Some (now + backoff_delay n
                (svc_executor_retry_base_ms cfg) (svc_executor_retry_max_ms cfg))\<rparr>)"

lemma dispatch_result_update:
  "dispatch_result now i outcome app = update_tracked i
     (\<lambda>t. if tr_executor_callback_received t then t else after_attempt (ap_service_cfg app) now outcome t) app"
  by (cases outcome; cases "map_of (ap_tracked app) i")
    (auto simp: set_status_def record_failure_def update_tracked_def Let_def)

lemma boundary_cong:
  "ap_scheduler app' = ap_scheduler app \<Longrightarrow> ap_slot_epoch_start_utc app' = ap_slot_epoch_start_utc app \<Longrightarrow>
   slot_boundary s app' = slot_boundary s app"
  by (simp add: slot_boundary_def slot_offset_def split: option.split sum.split)

lemma dispatch_one_spec:
  assumes "svc_executor_url (ap_service_cfg app) = Some url" and "slot_boundary (as_scheduled_slot a) app = Inr b"
    and "dispatch_one to_rfc3339 decimal null post now (i, a) app = (sent, app')"
  obtains p where "sent = Some p" and "dp_request_id p = i" and "dp_scheduled_slot p = as_scheduled_slot a"
    and "dp_flavour p = as_flavour_name a" and "dp_execute_at p = to_rfc3339 b"
    and "\<And>t. map_of (ap_tracked app) i = Some t \<Longrightarrow> dp_payload p = tr_payload t"
    and "app' = update_tracked i (\<lambda>t. if tr_executor_callback_received t then t
           else after_attempt (ap_service_cfg app) now (post url p) t) app"
proof -
  obtain p where p: "dispatch_payload to_rfc3339 decimal null i a app = Inr p" "dp_request_id p = i"
    "dp_scheduled_slot p = as_scheduled_slot a" "dp_flavour p = as_flavour_name a" "dp_execute_at p = to_rfc3339 b"
    "\<And>t. map_of (ap_tracked app) i = Some t \<Longrightarrow> dp_payload p = tr_payload t"
    using assms(2) by (simp add: dispatch_payload_def execute_at_for_slot_def)
  have "sent = Some p" "app' = dispatch_result now i (post url p) app"
    using assms(1,3) p(1) by (simp_all add: dispatch_one_def)
  with p that show thesis by (simp add: dispatch_result_update)
qed

text \<open>What is known of a request that was posted, and of what became of it.\<close>

definition attempted ::
    "string \<Rightarrow> (string \<Rightarrow> 'v executor_dispatch_payload \<Rightarrow> post_outcome) \<Rightarrow> instant \<Rightarrow> 'v app_state \<Rightarrow> 'v app_state
     \<Rightarrow> request_id \<times> assignment \<Rightarrow> 'v executor_dispatch_payload \<Rightarrow> bool" where
  "attempted url post now app app' = (\<lambda>(i, a) p.
     dp_request_id p = i \<and> dp_scheduled_slot p = as_scheduled_slot a \<and> dp_flavour p = as_flavour_name a
     \<and> (\<forall>t. map_of (ap_tracked app) i = Some t \<longrightarrow> dp_payload p = tr_payload t
          \<and> map_of (ap_tracked app') i = Some (if tr_executor_callback_received t then t
              else after_attempt (ap_service_cfg app) now (post url p) t)))"

lemma dispatch_all_spec:
  assumes "distinct (map fst ds)" and "svc_executor_url (ap_service_cfg app) = Some url"
    and "\<And>i a. (i, a) \<in> set ds \<Longrightarrow> \<exists>b. slot_boundary (as_scheduled_slot a) app = Inr b"
    and "dispatch_all to_rfc3339 decimal null post now ds app = (sent, app')"
  shows "list_all2 (attempted url post now app app') ds sent"
    and "ap_shared app' = ap_shared app" and "ap_service_cfg app' = ap_service_cfg app"
    and "j \<notin> fst ` set ds \<Longrightarrow> map_of (ap_tracked app') j = map_of (ap_tracked app) j"
proof -
  have "list_all2 (attempted url post now app app') ds sent \<and> ap_shared app' = ap_shared app
      \<and> ap_service_cfg app' = ap_service_cfg app
      \<and> (\<forall>j. j \<notin> fst ` set ds \<longrightarrow> map_of (ap_tracked app') j = map_of (ap_tracked app) j)"
    using assms
  proof (induction ds arbitrary: app sent)
    case (Cons d ds)
    obtain i a where d: "d = (i, a)" by fastforce
    obtain s1 app1 where one: "dispatch_one to_rfc3339 decimal null post now (i, a) app = (s1, app1)" by fastforce
    obtain more app2 where rest: "dispatch_all to_rfc3339 decimal null post now ds app1 = (more, app2)" by fastforce
    obtain b where b: "slot_boundary (as_scheduled_slot a) app = Inr b" using Cons.prems(3) d by force
    obtain p where p: "s1 = Some p" "dp_request_id p = i" "dp_scheduled_slot p = as_scheduled_slot a"
      "dp_flavour p = as_flavour_name a"
      "\<And>t. map_of (ap_tracked app) i = Some t \<Longrightarrow> dp_payload p = tr_payload t"
      and app1: "app1 = update_tracked i (\<lambda>t. if tr_executor_callback_received t then t
           else after_attempt (ap_service_cfg app) now (post url p) t) app"
      by (rule dispatch_one_spec [OF Cons.prems(2) b one], rule that)
    have out: "sent = p # more" "app' = app2" using Cons.prems(4) one rest p(1) by (simp_all add: d)
    have bound: "slot_boundary s app1 = slot_boundary s app" for s by (rule boundary_cong) (simp_all add: app1)
    have "list_all2 (attempted url post now app1 app') ds more \<and> ap_shared app' = ap_shared app1
      \<and> ap_service_cfg app' = ap_service_cfg app1
      \<and> (\<forall>j. j \<notin> fst ` set ds \<longrightarrow> map_of (ap_tracked app') j = map_of (ap_tracked app1) j)"
    proof (rule Cons.IH)
      show "\<exists>b. slot_boundary (as_scheduled_slot a') app1 = Inr b" if "(i', a') \<in> set ds" for i' a'
        using Cons.prems(3) [of i' a'] that bound by simp
    qed (use Cons.prems rest out in \<open>simp_all add: app1 d\<close>)
    then have ih: "list_all2 (attempted url post now app1 app') ds more" "ap_shared app' = ap_shared app1"
      "ap_service_cfg app' = ap_service_cfg app1"
      "\<And>j. j \<notin> fst ` set ds \<Longrightarrow> map_of (ap_tracked app') j = map_of (ap_tracked app1) j"
      by blast+
    have fresh: "i \<notin> fst ` set ds" using Cons.prems(1) by (simp add: d)
    have "attempted url post now app app' d p"
      using p ih(4) [OF fresh] by (simp add: attempted_def d app1 update_tracked_lookup)
    moreover have "list_all2 (attempted url post now app app') ds more"
      using ih(1)
    proof (rule list.rel_mono_strong)
      fix d' p' assume "d' \<in> set ds" and "attempted url post now app1 app' d' p'"
      moreover from this fresh have "fst d' \<noteq> i" by force
      ultimately show "attempted url post now app app' d' p'"
        by (auto simp: attempted_def app1 update_tracked_lookup split: prod.splits)
    qed
    ultimately show ?case using ih by (auto simp: out app1 d update_tracked_lookup)
  qed simp
  then show "list_all2 (attempted url post now app app') ds sent"
    and "ap_shared app' = ap_shared app" and "ap_service_cfg app' = ap_service_cfg app"
    and "j \<notin> fst ` set ds \<Longrightarrow> map_of (ap_tracked app') j = map_of (ap_tracked app) j" by blast+
qed

lemma after_attempt_cases:
  assumes "tr_status t \<noteq> Failed"
  shows "if outcome = Delivered
         then tr_status (after_attempt cfg now outcome t) = Dispatched \<and> \<not> awaits_dispatch later (after_attempt cfg now outcome t)
         else tr_dispatch_attempts (after_attempt cfg now outcome t) = tr_dispatch_attempts t + 1
           \<and> (tr_status (after_attempt cfg now outcome t) = Failed \<longleftrightarrow> svc_executor_max_retries cfg \<le> tr_dispatch_attempts t + 1)"
  using assms by (cases outcome) (simp_all add: awaits_dispatch_def Let_def)

lemma due_attempt_outcome:
  assumes "hm_wf (in_assignments (ss_inner (ap_shared app)))"
    and "due = due_assignments now (get_current_slot (ss_inner (ap_shared app)))
      (in_assignments (ss_inner (ap_shared app))) (ap_tracked app)"
    and "(j, a) \<in> set due" and "attempted url post now app app' (j, a) p"
  shows "\<exists>a t t'. map_of (in_assignments (ss_inner (ap_shared app))) (dp_request_id p) = Some a
        \<and> dp_scheduled_slot p = as_scheduled_slot a \<and> dp_flavour p = as_flavour_name a
        \<and> as_scheduled_slot a \<le> get_current_slot (ss_inner (ap_shared app))
        \<and> map_of (ap_tracked app) (dp_request_id p) = Some t \<and> awaits_dispatch now t \<and> dp_payload p = tr_payload t
        \<and> map_of (ap_tracked app') (dp_request_id p) = Some t'
        \<and> (if tr_executor_callback_received t then t' = t
           else if post url p = Delivered then tr_status t' = Dispatched \<and> \<not> awaits_dispatch later t'
           else tr_dispatch_attempts t' = tr_dispatch_attempts t + 1
             \<and> (tr_status t' = Failed \<longleftrightarrow> svc_executor_max_retries (ap_service_cfg app) \<le> tr_dispatch_attempts t + 1))"
proof -
  let ?as = "in_assignments (ss_inner (ap_shared app))"
  obtain t where t: "(j, a) \<in> set ?as" "as_scheduled_slot a \<le> get_current_slot (ss_inner (ap_shared app))"
    "map_of (ap_tracked app) j = Some t" "awaits_dispatch now t"
    using assms(3) unfolding assms(2) due_assignments_def by (auto split: option.splits)
  have a: "map_of ?as j = Some a" using t(1) assms(1) by (simp add: hm_binding_iff)
  have "tr_status t \<noteq> Failed" using t(4) by (auto simp: awaits_dispatch_def)
  have d': "dp_request_id p = j" "dp_scheduled_slot p = as_scheduled_slot a" "dp_flavour p = as_flavour_name a"
    "dp_payload p = tr_payload t"
    "map_of (ap_tracked app') j = Some (if tr_executor_callback_received t then t
            else after_attempt (ap_service_cfg app) now (post url p) t)"
    using assms(4) t(3) by (simp_all add: attempted_def)
  have "if tr_executor_callback_received t then t'' = t
         else if post url p = Delivered then tr_status t'' = Dispatched \<and> \<not> awaits_dispatch later t''
         else tr_dispatch_attempts t'' = tr_dispatch_attempts t + 1
           \<and> (tr_status t'' = Failed \<longleftrightarrow> svc_executor_max_retries (ap_service_cfg app) \<le> tr_dispatch_attempts t + 1)"
    if "t'' = (if tr_executor_callback_received t then t
            else after_attempt (ap_service_cfg app) now (post url p) t)" for t''
    using that after_attempt_cases [OF \<open>tr_status t \<noteq> Failed\<close>, of "post url p" "ap_service_cfg app" now later]
    by (cases "tr_executor_callback_received t") (simp_all add: awaits_dispatch_def)
  note out = this [OF refl]
  show ?thesis
    unfolding d'(1) by (intro exI conjI) (rule a d'(2,3,4) t(2,3,4) d'(5) out)+
qed

text \<open>
  C35: A dispatcher cycle sends exactly what is due, once. With an executor configured, the posts of
  a cycle are those of the assignments whose slot has come and whose request is pending or scheduled
  and not in backoff, in order, one each, with the slot, the flavour and the payload of the request.
  A delivered one is dispatched and no longer due; a failed one counts one more attempt and is
  failed for good exactly when the attempts have reached the limit; a request whose callback has
  arrived meanwhile, and every other request, is left as it was.
\<close>

theorem dispatcher_cycle_exact:
  assumes "hm_wf (in_assignments (ss_inner (ap_shared app)))"
    and "svc_executor_url (ap_service_cfg app) = Some url"
    and "due = due_assignments now (get_current_slot (ss_inner (ap_shared app)))
      (in_assignments (ss_inner (ap_shared app))) (ap_tracked app)"
    and "list_all (\<lambda>(i, a). \<exists>b. slot_boundary (as_scheduled_slot a) app = Inr b) due"
    and "dispatcher_cycle to_rfc3339 decimal null post now app = (sent, app')"
  shows "map dp_request_id sent = map fst due \<and> distinct (map dp_request_id sent)
    \<and> list_all (\<lambda>p. \<exists>a t t'. map_of (in_assignments (ss_inner (ap_shared app))) (dp_request_id p) = Some a
        \<and> dp_scheduled_slot p = as_scheduled_slot a \<and> dp_flavour p = as_flavour_name a
        \<and> as_scheduled_slot a \<le> get_current_slot (ss_inner (ap_shared app))
        \<and> map_of (ap_tracked app) (dp_request_id p) = Some t \<and> awaits_dispatch now t \<and> dp_payload p = tr_payload t
        \<and> map_of (ap_tracked app') (dp_request_id p) = Some t'
        \<and> (if tr_executor_callback_received t then t' = t
           else if post url p = Delivered then tr_status t' = Dispatched \<and> \<not> awaits_dispatch later t'
           else tr_dispatch_attempts t' = tr_dispatch_attempts t + 1
             \<and> (tr_status t' = Failed \<longleftrightarrow> svc_executor_max_retries (ap_service_cfg app) \<le> tr_dispatch_attempts t + 1))) sent
    \<and> (i \<in> fst ` set due \<or> map_of (ap_tracked app') i = map_of (ap_tracked app) i)
    \<and> ap_shared app' = ap_shared app"
proof -
  have run: "dispatch_all to_rfc3339 decimal null post now due app = (sent, app')"
    using assms(3,5) by (simp add: dispatcher_cycle_def get_current_assignments_def Let_def)
  have "distinct (map fst (in_assignments (ss_inner (ap_shared app))))" using assms(1) by (simp add: hm_wf_def)
  then have dist: "distinct (map fst due)"
    unfolding assms(3) due_assignments_def by (rule distinct_map_filter)
  have bound: "\<exists>b. slot_boundary (as_scheduled_slot a) app = Inr b" if "(j, a) \<in> set due" for j a
    using assms(4) that by (auto simp: list_all_iff)
  have spec: "list_all2 (attempted url post now app app') due sent" "ap_shared app' = ap_shared app"
      "\<And>j. j \<notin> fst ` set due \<Longrightarrow> map_of (ap_tracked app') j = map_of (ap_tracked app) j"
    by (rule dispatch_all_spec [OF dist assms(2) _ run], erule bound, assumption?)+
  have ids: "map dp_request_id sent = map fst due"
    using spec(1) by (induction rule: list_all2_induct) (auto simp: attempted_def)
  have outcome: "\<exists>j a. (j, a) \<in> set due \<and> attempted url post now app app' (j, a) p" if "p \<in> set sent" for p
  proof -
    have "\<exists>d \<in> set due. attempted url post now app app' d p"
      using spec(1) that by (induction rule: list_all2_induct) auto
    then show ?thesis by force
  qed
  show ?thesis
    unfolding list_all_iff
  proof (intro conjI ballI)
    fix p assume "p \<in> set sent"
    then obtain j a where d: "(j, a) \<in> set due" "attempted url post now app app' (j, a) p" using outcome by blast
    from due_attempt_outcome [OF assms(1,3) d] show "\<exists>a t t'. map_of (in_assignments (ss_inner (ap_shared app))) (dp_request_id p) = Some a
        \<and> dp_scheduled_slot p = as_scheduled_slot a \<and> dp_flavour p = as_flavour_name a
        \<and> as_scheduled_slot a \<le> get_current_slot (ss_inner (ap_shared app))
        \<and> map_of (ap_tracked app) (dp_request_id p) = Some t \<and> awaits_dispatch now t \<and> dp_payload p = tr_payload t
        \<and> map_of (ap_tracked app') (dp_request_id p) = Some t'
        \<and> (if tr_executor_callback_received t then t' = t
           else if post url p = Delivered then tr_status t' = Dispatched \<and> \<not> awaits_dispatch later t'
           else tr_dispatch_attempts t' = tr_dispatch_attempts t + 1
             \<and> (tr_status t' = Failed \<longleftrightarrow> svc_executor_max_retries (ap_service_cfg app) \<le> tr_dispatch_attempts t + 1))" .
  qed (use ids dist spec(2,3) in auto)
qed

lemma set_status_shared [simp]: "ap_shared (set_status i status err app) = ap_shared app"
  by (simp add: set_status_def)

section \<open>Giving up\<close>

text \<open>Failed attempts at the given instants, each with the error of the client.\<close>

definition failed_attempts :: "request_id \<Rightarrow> (instant \<times> string) list \<Rightarrow> 'v app_state \<Rightarrow> 'v app_state" where
  "failed_attempts i es app = foldl (\<lambda>app (now, err). record_failure now i err app) app es"

lemma record_failure_lookup:
  "map_of (ap_tracked (record_failure now i err app)) i =
     map_option (\<lambda>t. if tr_executor_callback_received t then t
        else after_attempt (ap_service_cfg app) now (Unreachable err) t) (map_of (ap_tracked app) i)"
  using dispatch_result_update [of now i "Unreachable err" app] by (simp add: update_tracked_lookup)

lemma record_failure_cfg [simp]: "ap_service_cfg (record_failure now i err app) = ap_service_cfg app"
  by (simp add: record_failure_def Let_def)

text \<open>
  However a request was tracked, \<open>n\<close> failed attempts in a row count as \<open>n\<close>; the request stays due
  for a retry, after the backoff, while their total is below \<open>executor_max_retries\<close>, and with the
  attempt that reaches it it is failed and not due at any later time.
\<close>

lemma failed_attempts_record:
  assumes "map_of (ap_tracked app) i = Some t" and "\<not> tr_executor_callback_received t"
    and "awaits_dispatch start t" and "es \<noteq> []"
    and "n = tr_dispatch_attempts t + length es" and "cfg = ap_service_cfg app"
  shows "\<exists>t'. map_of (ap_tracked (failed_attempts i es app)) i = Some t' \<and> tr_dispatch_attempts t' = n
    \<and> (if svc_executor_max_retries cfg \<le> n then tr_status t' = Failed \<and> \<not> awaits_dispatch later t'
       else tr_status t' = tr_status t
         \<and> (awaits_dispatch later t' \<longleftrightarrow> fst (last es) + backoff_delay n
              (svc_executor_retry_base_ms cfg) (svc_executor_retry_max_ms cfg) \<le> later))"
  using assms
proof (induction es arbitrary: n rule: rev_induct)
  case (snoc e es)
  obtain now err where e: "e = (now, err)" by fastforce
  let ?app = "failed_attempts i es app"
  have cfg: "ap_service_cfg (failed_attempts i es app) = cfg" for es
    by (induction es rule: rev_induct) (simp_all add: failed_attempts_def assms(6) case_prod_unfold)
  have step: "failed_attempts i (es @ [(now, err)]) app = record_failure now i err ?app"
    by (simp add: failed_attempts_def e)
  have "\<exists>s. map_of (ap_tracked ?app) i = Some s \<and> tr_dispatch_attempts s = tr_dispatch_attempts t + length es
      \<and> \<not> tr_executor_callback_received s
      \<and> (tr_status s = tr_status t \<or> tr_status s = Failed
           \<and> svc_executor_max_retries cfg \<le> tr_dispatch_attempts t + length es)"
  proof (induction es rule: rev_induct)
    case Nil
    then show ?case using assms(1,2) by (simp add: failed_attempts_def)
  next
    case (snoc e' es')
    then obtain s where s: "map_of (ap_tracked (failed_attempts i es' app)) i = Some s"
      "tr_dispatch_attempts s = tr_dispatch_attempts t + length es'" "\<not> tr_executor_callback_received s"
      "tr_status s = tr_status t \<or> tr_status s = Failed
           \<and> svc_executor_max_retries cfg \<le> tr_dispatch_attempts t + length es'"
      by blast
    have "failed_attempts i (es' @ [e']) app = record_failure (fst e') i (snd e') (failed_attempts i es' app)"
      by (simp add: failed_attempts_def case_prod_unfold)
    then show ?case using s by (auto simp: record_failure_lookup cfg Let_def)
  qed
  then obtain s where s: "map_of (ap_tracked ?app) i = Some s"
    "tr_dispatch_attempts s = tr_dispatch_attempts t + length es" "\<not> tr_executor_callback_received s"
    "tr_status s = tr_status t \<or> tr_status s = Failed
           \<and> svc_executor_max_retries cfg \<le> tr_dispatch_attempts t + length es" by blast
  have st: "tr_status t = Pending \<or> tr_status t = Scheduled" using assms(3) by (simp add: awaits_dispatch_def)
  show ?case
    using s st snoc.prems(5) by (auto simp: step record_failure_lookup cfg Let_def awaits_dispatch_def e)
qed simp

section \<open>A concrete cycle\<close>

definition sample_tracked :: "unit tracked_request" where
  "sample_tracked = tracked_request_new None () 400 40 0 default_profile"

definition dispatch_app :: "unit app_state" where
  "dispatch_app = sample_app\<lparr>ap_tracked := [(1, sample_tracked), (2, sample_tracked\<lparr>tr_status := Scheduled\<rparr>)],
     ap_shared := shared_state_new\<lparr>ss_inner := inner_new\<lparr>in_assignments :=
       [(1, assignment_new 0 1 0 ''Fast'' 1 5 10 None None), (2, assignment_new 0 2 4 ''Fast'' 1 5 10 None None)]\<rparr>\<rparr>\<rparr>"

lemma dispatcher_cycle_exact_witness:
  "case dispatcher_cycle (\<lambda>_. ''now'') (\<lambda>_. ''1'') () (\<lambda>url p. Delivered) 0 dispatch_app of
     (sent, app') \<Rightarrow> map dp_request_id sent = [1] \<and> map_of (ap_tracked app') 2 = map_of (ap_tracked dispatch_app) 2"
proof -
  let ?due = "due_assignments 0 (get_current_slot (ss_inner (ap_shared dispatch_app)))
      (in_assignments (ss_inner (ap_shared dispatch_app))) (ap_tracked dispatch_app)"
  have due: "?due = [(1, assignment_new 0 1 0 ''Fast'' 1 5 10 None None)]"
    by (simp add: due_assignments_def dispatch_app_def sample_tracked_def tracked_request_new_def
        awaits_dispatch_def get_current_slot_def inner_new_def assignment_new_def assignment_new_for_profile_def)
  obtain sent app' where run: "dispatcher_cycle (\<lambda>_. ''now'') (\<lambda>_. ''1'') () (\<lambda>url p. Delivered) 0 dispatch_app = (sent, app')"
    by fastforce
  have wf: "hm_wf (in_assignments (ss_inner (ap_shared dispatch_app)))" by (simp add: dispatch_app_def hm_wf_def)
  have url: "svc_executor_url (ap_service_cfg dispatch_app) = Some ''http://executor''"
    by (simp add: dispatch_app_def sample_app_def sample_service_config_def)
  have bound: "list_all (\<lambda>(i, a). \<exists>b. slot_boundary (as_scheduled_slot a) dispatch_app = Inr b) ?due"
    unfolding due by (simp add: assignment_new_def assignment_new_for_profile_def slot_boundary_def slot_offset_def
        dispatch_app_def sample_app_def duration_try_from_secs_def round_half_even_def Let_def
        time_checked_add_def system_time_ok_def)
  from dispatcher_cycle_exact [OF wf url refl bound run, of undefined 2] show ?thesis by (simp add: run due)
qed

end
