(* ===== verification/Submission.thy ===== *)
theory Submission
  imports Service_State
begin

text \<open>
  Submission and status polling (\<open>service/handlers.rs\<close>): the guard on callback URLs, the choice of the
  QoS profile, the deadline granted for a slack, the baseline cost, the admission under the
  close-slot fence, the poll that waits for an assignment, and the two status endpoints.

  \<open>submit_request\<close> is not one critical section: \<open>submit_prepare\<close> is everything before the admission
  lock, \<open>admit_request\<close> what happens under it, \<open>submit_poll\<close> one turn of the waiting loop.
\<close>

unbundle bit_operations_syntax

section \<open>Responses\<close>

datatype status_code = StatusOk | StatusAccepted | BadRequest | NotFound | Conflict | ServiceUnavailable

datatype api_message =
    InvalidDeadline
  | InvalidUrl string
  | NotHttp
  | PrivateAddress
  | InvalidIdentifier id_error
  | UnknownProfile
  | TaskNotString
  | TaskConflict
  | NoDefaultProfile task_kind_id
  | WrongTaskKind qos_profile_id task_kind_id task_kind_id
  | DeadlineBeforeArrival
  | SlotClosed slot
  | UnknownRequest
  | ManualClockOff
  | NoCurrentSlot
  | SlotLengthMismatch
  | BadTimestamp string
  | BadAnchor clock_error
  | AnnounceMismatch
  | OffsetUnknown
  | OutsideEngineRange
  | OutsideHorizon
  | NotAtSlot slot slot
  | BehindBarrier slot
  | DispatchFailedIn slot
  | NotDrained slot nat nat nat
  | TiersEmpty
  | MultiplierNotPositive
  | FirstNotBaseline
  | MultiplierDecreases
  | BoundNotPositive
  | LastNotOverflow
  | BoundsNotIncreasing
  | OverflowNotLast
  | RejectedProfile registry_error
  | BadRange
  | NegativeSlots

type_synonym api_error = "status_code \<times> api_message"

section \<open>Callback URLs\<close>

text \<open>What the URL library answers for a URL; addresses are in network order.\<close>

datatype url_host = Ipv4 "32 word" | Ipv6 "128 word" | HostName string

record parsed_url =
  url_scheme :: string
  url_host_of :: "url_host option"

text \<open>The tests of \<open>std::net\<close>.\<close>

definition v4_is_loopback :: "32 word \<Rightarrow> bool" where
  "v4_is_loopback a \<longleftrightarrow> drop_bit 24 a = 127"

definition v4_is_private :: "32 word \<Rightarrow> bool" where
  "v4_is_private a \<longleftrightarrow> drop_bit 24 a = 10 \<or> drop_bit 20 a = 0xAC1 \<or> drop_bit 16 a = 0xC0A8"

definition v4_is_link_local :: "32 word \<Rightarrow> bool" where
  "v4_is_link_local a \<longleftrightarrow> drop_bit 16 a = 0xA9FE"

definition v4_is_unspecified :: "32 word \<Rightarrow> bool" where
  "v4_is_unspecified a \<longleftrightarrow> a = 0"

definition v6_is_loopback :: "128 word \<Rightarrow> bool" where
  "v6_is_loopback a \<longleftrightarrow> a = 1"

definition v6_is_unspecified :: "128 word \<Rightarrow> bool" where
  "v6_is_unspecified a \<longleftrightarrow> a = 0"

fun host_is_private :: "url_host \<Rightarrow> bool" where
  "host_is_private (Ipv4 a) \<longleftrightarrow>
     v4_is_loopback a \<or> v4_is_private a \<or> v4_is_link_local a \<or> v4_is_unspecified a"
| "host_is_private (Ipv6 a) \<longleftrightarrow> v6_is_loopback a \<or> v6_is_unspecified a"
| "host_is_private (HostName s) \<longleftrightarrow> False"

definition validate_callback_url ::
    "(string \<Rightarrow> string + parsed_url) \<Rightarrow> string \<Rightarrow> bool \<Rightarrow> api_message + unit" where
  "validate_callback_url parse raw allow_private =
     (case parse raw of
        Inl e \<Rightarrow> Inl (InvalidUrl e)
      | Inr url \<Rightarrow>
         (if url_scheme url \<noteq> ''http'' \<and> url_scheme url \<noteq> ''https'' then Inl NotHttp
          else if allow_private then Inr ()
          else case url_host_of url of
            Some host \<Rightarrow> if host_is_private host then Inl PrivateAddress else Inr ()
          | None \<Rightarrow> Inr ()))"

text \<open>An IPv4 address written as an IPv4-mapped IPv6 address, \<open>::ffff:a.b.c.d\<close>.\<close>

definition mapped_v4 :: "32 word \<Rightarrow> 128 word" where
  "mapped_v4 a = push_bit 32 0xFFFF OR ucast a"

lemma mapped_v4_not_special: "\<not> host_is_private (Ipv6 (mapped_v4 a))"
proof -
  have "bit (mapped_v4 a) 32" by (simp add: mapped_v4_def bit_simps)
  moreover have "\<not> bit (0 :: 128 word) 32" and "\<not> bit (1 :: 128 word) 32" by (simp_all add: bit_simps)
  ultimately show ?thesis by (auto simp: v6_is_loopback_def v6_is_unspecified_def)
qed

text \<open>
  What the callback guard keeps out. A URL is accepted exactly when it parses, has an HTTP
  scheme and, unless private callbacks are allowed, is not a literal loopback, private, link-local or
  unspecified IPv4 address nor the IPv6 loopback or unspecified address. The guard does not look
  inside IPv6: any IPv4 address, \<open>127.0.0.1\<close> included, and any link-local IPv6 address is accepted
  when written as an IPv6 literal.
\<close>

theorem callback_guard_exact:
  "(validate_callback_url parse raw allow = Inr () \<longleftrightarrow>
      (case parse raw of
         Inl e \<Rightarrow> False
       | Inr url \<Rightarrow> (url_scheme url = ''http'' \<or> url_scheme url = ''https'')
           \<and> (allow \<or> (case url_host_of url of
                None \<Rightarrow> True
              | Some (Ipv4 a) \<Rightarrow> drop_bit 24 a \<notin> {10, 127} \<and> drop_bit 20 a \<noteq> 0xAC1
                  \<and> drop_bit 16 a \<notin> {0xC0A8, 0xA9FE} \<and> a \<noteq> 0
              | Some (Ipv6 a) \<Rightarrow> a \<noteq> 0 \<and> a \<noteq> 1
              | Some (HostName s) \<Rightarrow> True))))
   \<and> validate_callback_url (\<lambda>_. Inr \<lparr>url_scheme = ''http'', url_host_of = Some (Ipv6 (mapped_v4 0x7F000001))\<rparr>) raw False = Inr ()
   \<and> validate_callback_url (\<lambda>_. Inr \<lparr>url_scheme = ''http'', url_host_of = Some (Ipv4 0x7F000001)\<rparr>) raw False
       = Inl PrivateAddress
   \<and> validate_callback_url (\<lambda>_. Inr \<lparr>url_scheme = ''http'',
         url_host_of = Some (Ipv6 (push_bit 112 0xFE80 OR 1))\<rparr>) raw False = Inr ()"
proof -
  have iff: "validate_callback_url parse raw allow = Inr () \<longleftrightarrow>
      (case parse raw of
         Inl e \<Rightarrow> False
       | Inr url \<Rightarrow> (url_scheme url = ''http'' \<or> url_scheme url = ''https'')
           \<and> (allow \<or> (case url_host_of url of
                None \<Rightarrow> True
              | Some (Ipv4 a) \<Rightarrow> drop_bit 24 a \<notin> {10, 127} \<and> drop_bit 20 a \<noteq> 0xAC1
                  \<and> drop_bit 16 a \<notin> {0xC0A8, 0xA9FE} \<and> a \<noteq> 0
              | Some (Ipv6 a) \<Rightarrow> a \<noteq> 0 \<and> a \<noteq> 1
              | Some (HostName s) \<Rightarrow> True)))"
    by (auto simp: validate_callback_url_def v4_is_loopback_def v4_is_private_def v4_is_link_local_def
        v4_is_unspecified_def v6_is_loopback_def v6_is_unspecified_def
        split: sum.splits option.splits url_host.splits if_splits)
  have mapped: "validate_callback_url (\<lambda>_. Inr \<lparr>url_scheme = ''http'',
      url_host_of = Some (Ipv6 (mapped_v4 0x7F000001))\<rparr>) raw False = Inr ()"
    by (simp add: validate_callback_url_def mapped_v4_not_special del: host_is_private.simps)
  have loopback: "validate_callback_url (\<lambda>_. Inr \<lparr>url_scheme = ''http'',
      url_host_of = Some (Ipv4 0x7F000001)\<rparr>) raw False = Inl PrivateAddress"
    by (simp add: validate_callback_url_def v4_is_loopback_def)
  have fe80: "validate_callback_url (\<lambda>_. Inr \<lparr>url_scheme = ''http'',
      url_host_of = Some (Ipv6 (push_bit 112 0xFE80 OR 1))\<rparr>) raw False = Inr ()"
    by (simp add: validate_callback_url_def v6_is_loopback_def v6_is_unspecified_def)
  show ?thesis by (intro conjI iff mapped loopback fe80)
qed

section \<open>JSON\<close>

text \<open>
  The operations of the JSON library that the handlers use: \<open>get\<close> on an object, \<open>as_str\<close>, \<open>as_f64\<close>,
  \<open>is_object\<close>, assignment to \<open>value[key]\<close>, which panics on a value that is neither an object nor null
  (\<open>None\<close>), and the string constructor. \<open>json_laws\<close> is what its documentation says of them.
\<close>

record 'v json_api =
  js_get :: "'v \<Rightarrow> string \<Rightarrow> 'v option"
  js_as_str :: "'v \<Rightarrow> string option"
  js_as_f64 :: "'v \<Rightarrow> f64 option"
  js_is_object :: "'v \<Rightarrow> bool"
  js_is_null :: "'v \<Rightarrow> bool"
  js_set :: "'v \<Rightarrow> string \<Rightarrow> 'v \<Rightarrow> 'v option"
  js_string :: "string \<Rightarrow> 'v"

definition json_laws :: "'v json_api \<Rightarrow> bool" where
  "json_laws J \<longleftrightarrow>
     (\<forall>v k. \<not> js_is_object J v \<longrightarrow> js_get J v k = None)
     \<and> (\<forall>v k x. js_set J v k x = None \<longleftrightarrow> \<not> js_is_object J v \<and> \<not> js_is_null J v)
     \<and> (\<forall>v k x v'. js_set J v k x = Some v' \<longrightarrow> js_is_object J v' \<and> js_get J v' k = Some x
          \<and> (\<forall>k'. k' \<noteq> k \<longrightarrow> js_get J v' k' = js_get J v k'))
     \<and> (\<forall>s. js_as_str J (js_string J s) = Some s)"

lemma json_set_SomeD:
  assumes "json_laws J" and "js_set J v k x = Some v'"
  shows "js_is_object J v'" and "js_get J v' k = Some x" and "k' \<noteq> k \<Longrightarrow> js_get J v' k' = js_get J v k'"
  using assms unfolding json_laws_def by blast+

lemma json_set_None_iff:
  "json_laws J \<Longrightarrow> js_set J v k x = None \<longleftrightarrow> \<not> js_is_object J v \<and> \<not> js_is_null J v"
  unfolding json_laws_def by blast

lemma json_as_str_string: "json_laws J \<Longrightarrow> js_as_str J (js_string J s) = Some s"
  unfolding json_laws_def by blast

lemma json_get_object: "json_laws J \<Longrightarrow> js_get J v k = Some x \<Longrightarrow> js_is_object J v"
  unfolding json_laws_def by force

section \<open>The profile of a submission\<close>

record 'v submit_request_payload =
  sp_deadline_seconds :: f64
  sp_callback_url :: "string option"
  sp_payload :: 'v
  sp_qos_profile_id :: "string option"
  sp_task_kind :: "string option"
  sp_arrival_slot_global :: "int option"

text \<open>The \<open>?\<close> operator, and the parsing of an optional identifier.\<close>

fun try_then :: "'e + 'a \<Rightarrow> ('a \<Rightarrow> 'e + 'b) \<Rightarrow> 'e + 'b" where
  "try_then (Inl e) f = Inl e"
| "try_then (Inr x) f = f x"

definition parse_optional :: "(string \<Rightarrow> id_error + 'a) \<Rightarrow> string option \<Rightarrow> api_error + 'a option" where
  "parse_optional parse s =
     (case s of
        None \<Rightarrow> Inr None
      | Some s \<Rightarrow> (case parse s of Inl e \<Rightarrow> Inl (BadRequest, InvalidIdentifier e) | Inr x \<Rightarrow> Inr (Some x)))"

definition select_profile :: "registry \<Rightarrow> qos_profile_id option \<Rightarrow> api_error + qos_profile option" where
  "select_profile reg pid =
     (case pid of
        None \<Rightarrow> Inr None
      | Some pid \<Rightarrow>
         (case registry_get reg pid of
            None \<Rightarrow> Inl (NotFound, UnknownProfile)
          | Some p \<Rightarrow> Inr (Some p)))"

definition payload_task_kind :: "'v json_api \<Rightarrow> 'v \<Rightarrow> api_error + string option" where
  "payload_task_kind J payload =
     (case js_get J payload ''task'' of
        None \<Rightarrow> Inr None
      | Some v \<Rightarrow>
         (case js_as_str J v of
            None \<Rightarrow> Inl (BadRequest, TaskNotString)
          | Some s \<Rightarrow> Inr (Some s)))"

definition profile_for_kind ::
    "registry \<Rightarrow> qos_profile option \<Rightarrow> task_kind_id \<Rightarrow> api_error + qos_profile" where
  "profile_for_kind reg selected_profile task_kind =
     try_then
       (case selected_profile of
          Some p \<Rightarrow> Inr p
        | None \<Rightarrow>
           (case registry_default_for reg task_kind of
              Some p \<Rightarrow> Inr p
            | None \<Rightarrow> Inl (BadRequest, NoDefaultProfile task_kind)))
       (\<lambda>profile.
          if qp_task_kind profile \<noteq> task_kind
          then Inl (BadRequest, WrongTaskKind (qp_profile_id profile) (qp_task_kind profile) task_kind)
          else Inr profile)"

definition resolve_request_profile ::
    "'v json_api \<Rightarrow> registry \<Rightarrow> 'v submit_request_payload \<Rightarrow> api_error + qos_profile" where
  "resolve_request_profile J reg body =
     try_then (parse_optional profile_id_parse (sp_qos_profile_id body)) (\<lambda>explicit_profile_id.
     try_then (select_profile reg explicit_profile_id) (\<lambda>selected_profile.
     try_then (payload_task_kind J (sp_payload body)) (\<lambda>payload_kind.
     if (case (sp_task_kind body, payload_kind) of
           (Some explicit, Some payload) \<Rightarrow> explicit \<noteq> payload | _ \<Rightarrow> False)
     then Inl (BadRequest, TaskConflict)
     else
     try_then (parse_optional task_kind_parse
       (case sp_task_kind body of Some k \<Rightarrow> Some k | None \<Rightarrow> payload_kind)) (\<lambda>requested_task_kind.
     profile_for_kind reg selected_profile
       (case requested_task_kind of
          Some k \<Rightarrow> k
        | None \<Rightarrow>
           (case selected_profile of
              Some p \<Rightarrow> qp_task_kind p
            | None \<Rightarrow> TaskKindId ''text_generation''))))))"

lemma try_then_Inr: "try_then r f = Inr y \<longleftrightarrow> (\<exists>x. r = Inr x \<and> f x = Inr y)"
  by (cases r) simp_all

lemma reject_Inr: "(if c then Inl e else r) = Inr y \<longleftrightarrow> \<not> c \<and> r = Inr y"
  by simp

lemma profile_for_kind_Inr:
  "profile_for_kind reg selected k = Inr p \<longleftrightarrow> qp_task_kind p = k
     \<and> (case selected of Some q \<Rightarrow> p = q | None \<Rightarrow> registry_default_for reg (qp_task_kind p) = Some p)"
proof (cases selected)
  case None
  show ?thesis
    by (cases "registry_default_for reg k"; cases "qp_task_kind p = k") (auto simp: profile_for_kind_def None)
qed (auto simp: profile_for_kind_def)

lemma parse_optional_Inr:
  "parse_optional parse s = Inr x \<longleftrightarrow>
     (case s of None \<Rightarrow> x = None | Some s \<Rightarrow> \<exists>y. parse s = Inr y \<and> x = Some y)"
  by (auto simp: parse_optional_def split: option.split sum.split)

lemma select_profile_Inr:
  "select_profile reg pid = Inr x \<longleftrightarrow>
     (case pid of None \<Rightarrow> x = None | Some pid \<Rightarrow> \<exists>p. registry_get reg pid = Some p \<and> x = Some p)"
  by (auto simp: select_profile_def split: option.split)

lemma payload_task_kind_Inr:
  "payload_task_kind J v = Inr x \<longleftrightarrow>
     (case js_get J v ''task'' of None \<Rightarrow> x = None | Some t \<Rightarrow> \<exists>s. js_as_str J t = Some s \<and> x = Some s)"
  by (auto simp: payload_task_kind_def split: option.split)

text \<open>The task kind a submission asks for: the top-level field, else the one of the payload.\<close>

definition requested_kind :: "'v json_api \<Rightarrow> 'v submit_request_payload \<Rightarrow> string option" where
  "requested_kind J body =
     (case sp_task_kind body of
        Some k \<Rightarrow> Some k
      | None \<Rightarrow> Option.bind (js_get J (sp_payload body) ''task'') (js_as_str J))"

text \<open>
  The chosen profile fits the submission. When resolution succeeds the profile is registered;
  it is the one named explicitly, if any, and otherwise the default of its task kind; its task kind
  is the one asked for at the top level and the one in the payload, wherever these are given, and
  \<open>text_generation\<close> when the submission names neither a profile nor a task kind.
\<close>

theorem resolved_profile_fits:
  assumes "resolve_request_profile J reg body = Inr p" and "registry_ok reg"
  shows "registry_get reg (qp_profile_id p) = Some p
    \<and> (case sp_qos_profile_id body of
         Some s \<Rightarrow> qp_profile_id p = QosProfileId s
       | None \<Rightarrow> registry_default_for reg (qp_task_kind p) = Some p)
    \<and> (case requested_kind J body of
         Some k \<Rightarrow> qp_task_kind p = TaskKindId k
       | None \<Rightarrow> sp_qos_profile_id body = None \<longrightarrow> qp_task_kind p = TaskKindId ''text_generation'')
    \<and> (case js_get J (sp_payload body) ''task'' of
         Some v \<Rightarrow> js_as_str J v = Some (tk_str (qp_task_kind p))
       | None \<Rightarrow> True)"
proof -
  have stored: "registry_get reg pid = Some q \<Longrightarrow> qp_profile_id q = pid" for pid q
    using assms(2) by (simp add: registry_ok_def registry_get_def)
  have default: "registry_default_for reg k = Some q \<Longrightarrow> registry_get reg (qp_profile_id q) = Some q" for k q
    using stored by (auto simp: registry_default_for_def split: sum.splits)
  have parsed: "profile_id_parse s = Inr i \<Longrightarrow> i = QosProfileId s" "task_kind_parse s = Inr k \<Longrightarrow> k = TaskKindId s"
    for s i k by (auto simp: profile_id_parse_def task_kind_parse_def split: if_splits)
  obtain explicit selected payload requested where
    ex: "parse_optional profile_id_parse (sp_qos_profile_id body) = Inr explicit"
    and sel: "select_profile reg explicit = Inr selected"
    and pay: "payload_task_kind J (sp_payload body) = Inr payload"
    and agree: "\<not> (case (sp_task_kind body, payload) of (Some e, Some p) \<Rightarrow> e \<noteq> p | _ \<Rightarrow> False)"
    and req: "parse_optional task_kind_parse
       (case sp_task_kind body of Some k \<Rightarrow> Some k | None \<Rightarrow> payload) = Inr requested"
    and last: "profile_for_kind reg selected (case requested of Some k \<Rightarrow> k | None \<Rightarrow>
       (case selected of Some q \<Rightarrow> qp_task_kind q | None \<Rightarrow> TaskKindId ''text_generation'')) = Inr p"
    using assms(1) unfolding resolve_request_profile_def try_then_Inr reject_Inr
    by (elim exE conjE) (rule that)
  have kind: "qp_task_kind p = (case requested of Some k \<Rightarrow> k | None \<Rightarrow>
       (case selected of Some q \<Rightarrow> qp_task_kind q | None \<Rightarrow> TaskKindId ''text_generation''))"
    and chosen: "case selected of Some q \<Rightarrow> p = q | None \<Rightarrow> registry_default_for reg (qp_task_kind p) = Some p"
    using last unfolding profile_for_kind_Inr by simp_all
  have kind_arg: "(case sp_task_kind body of Some k \<Rightarrow> Some k | None \<Rightarrow> payload) = requested_kind J body"
    using pay by (auto simp: payload_task_kind_Inr requested_kind_def split: option.splits)
  have registered: "registry_get reg (qp_profile_id p) = Some p"
    using chosen sel stored default
    by (cases selected) (auto simp: select_profile_Inr split: option.splits)
  have named: "case sp_qos_profile_id body of Some s \<Rightarrow> qp_profile_id p = QosProfileId s
       | None \<Rightarrow> registry_default_for reg (qp_task_kind p) = Some p"
    using ex sel chosen stored parsed(1)
    by (cases "sp_qos_profile_id body") (auto simp: parse_optional_Inr select_profile_Inr)
  have asked: "case requested_kind J body of Some k \<Rightarrow> qp_task_kind p = TaskKindId k
       | None \<Rightarrow> sp_qos_profile_id body = None \<longrightarrow> qp_task_kind p = TaskKindId ''text_generation''"
    using req kind ex sel parsed(2) unfolding kind_arg
    by (cases "requested_kind J body") (auto simp: parse_optional_Inr select_profile_Inr)
  have "js_as_str J v = Some (tk_str (qp_task_kind p))" if v: "js_get J (sp_payload body) ''task'' = Some v" for v
  proof -
    obtain s where s: "js_as_str J v = Some s" "payload = Some s"
      using pay v by (auto simp: payload_task_kind_Inr)
    then have "requested_kind J body = Some s"
      using agree v by (auto simp: requested_kind_def split: option.splits)
    with asked s(1) show ?thesis by simp
  qed
  with registered named asked show ?thesis by (simp split: option.split)
qed

lemma resolved_profile_fits_witness:
  "resolve_request_profile J [(default_profile, sample_profile)]
     \<lparr>sp_deadline_seconds = 60, sp_callback_url = None, sp_payload = v, sp_qos_profile_id = Some ''default-text-generation'',
      sp_task_kind = Some ''ner'', sp_arrival_slot_global = None\<rparr> \<noteq> Inr sample_profile"
proof
  let ?body = "\<lparr>sp_deadline_seconds = 60, sp_callback_url = None, sp_payload = v, sp_qos_profile_id = Some ''default-text-generation'',
      sp_task_kind = Some ''ner'', sp_arrival_slot_global = None\<rparr>"
  assume "resolve_request_profile J [(default_profile, sample_profile)] ?body = Inr sample_profile"
  moreover have "registry_ok [(default_profile, sample_profile)]"
    by (simp add: registry_ok_def hm_wf_def sample_profile_def)
  ultimately have "qp_task_kind sample_profile = TaskKindId ''ner''"
    using resolved_profile_fits [of J "[(default_profile, sample_profile)]" ?body sample_profile]
    by (simp add: requested_kind_def)
  then show False by (simp add: sample_profile_def)
qed

section \<open>Deadlines\<close>

definition i32_saturating_add :: "int \<Rightarrow> int \<Rightarrow> int" where
  "i32_saturating_add a b = max (-2147483648) (min 2147483647 (a + b))"

definition deadline_slot_from_slack :: "slot \<Rightarrow> f64 \<Rightarrow> f64 \<Rightarrow> int \<Rightarrow> slot" where
  "deadline_slot_from_slack arrival_slot deadline_seconds slot_duration_secs total_slots =
     (let slots_ahead = max (f64_as_i32 (real_of_int \<lceil>deadline_seconds / slot_duration_secs\<rceil>)) 1
      in min (i32_saturating_add arrival_slot slots_ahead) (i32_sub total_slots 1))"

lemma deadline_covers_slack_low:
  assumes "0 < dur" and "0 \<le> arrival" and "arrival < total_slots" and "in_i32 total_slots"
  shows "arrival \<le> deadline_slot_from_slack arrival secs dur total_slots"
    and "deadline_slot_from_slack arrival secs dur total_slots < total_slots"
proof -
  have "i32_sub total_slots 1 = total_slots - 1"
    using assms(2-4) by (intro i32_sub_exact) (simp add: in_i32_def)
  then show "arrival \<le> deadline_slot_from_slack arrival secs dur total_slots"
    and "deadline_slot_from_slack arrival secs dur total_slots < total_slots"
    using assms by (simp_all add: deadline_slot_from_slack_def i32_saturating_add_def in_i32_def Let_def)
qed

text \<open>
  The deadline covers the slack, to the slot. For an arrival inside the horizon the deadline is
  the last slot of the horizon or the least one, at least one slot after the arrival, whose distance
  from the arrival in seconds is no less than the slack: no caller loses a slot to rounding, and
  none gains one. In particular it is never before the arrival, so the later check cannot fail.
\<close>

theorem deadline_covers_slack:
  assumes "0 < dur" and "0 \<le> arrival" and "arrival < total_slots" and "in_i32 total_slots"
    and "d = deadline_slot_from_slack arrival secs dur total_slots"
  shows "arrival \<le> d \<and> d < total_slots
    \<and> (d = total_slots - 1 \<or> arrival < d \<and> secs \<le> real_of_int (d - arrival) * dur)
    \<and> (\<forall>e. arrival < e \<and> e < total_slots \<and> secs \<le> real_of_int (e - arrival) * dur \<longrightarrow> d \<le> e)"
proof -
  let ?n = "\<lceil>secs / dur\<rceil>"
  let ?a = "max (f64_as_i32 (real_of_int ?n)) 1"
  have last: "i32_sub total_slots 1 = total_slots - 1"
    using assms(2-4) by (intro i32_sub_exact) (simp add: in_i32_def)
  have d: "d = min (min 2147483647 (arrival + ?a)) (total_slots - 1)"
    using assms(2,5) by (simp add: deadline_slot_from_slack_def i32_saturating_add_def last Let_def)
  have bound: "total_slots \<le> 2147483647" using assms(4) by (simp add: in_i32_def)
  have low: "arrival \<le> d" "d < total_slots" using deadline_covers_slack_low [OF assms(1-4)] assms(5) by simp_all
  have "arrival < d \<and> secs \<le> real_of_int (d - arrival) * dur" if "d \<noteq> total_slots - 1"
  proof -
    from that bound have da: "d = arrival + ?a" "?a < 2147483647" using assms(2) by (simp_all add: d)
    then have "?n \<le> ?a" by (simp add: f64_as_i32_def)
    then have "secs / dur \<le> real_of_int ?a" using ceiling_le_iff [of "secs / dur" ?a] by simp
    then have "secs \<le> real_of_int ?a * dur" using assms(1) by (simp add: divide_le_eq)
    then show ?thesis by (simp add: da(1))
  qed
  moreover have "d \<le> e" if e: "arrival < e" "e < total_slots" "secs \<le> real_of_int (e - arrival) * dur" for e
  proof -
    have "secs / dur \<le> real_of_int (e - arrival)" using e(3) assms(1) by (simp add: divide_le_eq)
    then have "?n \<le> e - arrival" by (simp add: ceiling_le_iff)
    then have "?a \<le> e - arrival" using e(1,2) bound assms(2) by (simp add: f64_as_i32_def)
    then show ?thesis using e by (simp add: d)
  qed
  ultimately show ?thesis using low by blast
qed

lemma deadline_covers_slack_witness:
  "deadline_slot_from_slack 11 61 10 100 = 18 \<and> 61 \<le> real_of_int (18 - 11) * (10::real)
   \<and> deadline_slot_from_slack 95 60 10 100 = 99 \<and> deadline_slot_from_slack 11 0 10 100 = 12"
proof -
  have d: "deadline_slot_from_slack 11 61 10 100 = 18" "deadline_slot_from_slack 95 60 10 100 = 99"
    "deadline_slot_from_slack 11 0 10 100 = 12"
    by (simp_all add: deadline_slot_from_slack_def i32_saturating_add_def i32_sub_def wrap32_def f64_as_i32_def
        ceiling_divide_eq_div_numeral f64_trunc_def)
  with deadline_covers_slack [of 10 11 100 18 61] show ?thesis by (simp add: in_i32_def)
qed

section \<open>The baseline\<close>

text \<open>
  The position in the arrival slot is reserved first; \<open>None\<close> is the panic for a request without
  flavours.
\<close>

definition compute_baseline_carbon_cost ::
    "slot \<Rightarrow> flavour list \<Rightarrow> 'v app_state \<Rightarrow> (f64 \<times> f64) option \<times> 'v app_state" where
  "compute_baseline_carbon_cost arrival_slot flavours app =
     (let counts = hm_entry arrival_slot 0 (\<lambda>c. c + 1) (ap_baseline_slot_counts app);
          position = (case map_of counts arrival_slot of Some c \<Rightarrow> c | None \<Rightarrow> 0);
          app' = app\<lparr>ap_baseline_slot_counts := counts\<rparr>;
          carbon = (case forecast_at (ap_carbon_forecast app) arrival_slot of Some c \<Rightarrow> c | None \<Rightarrow> 0);
          mult = get_capacity_multiplier (capacity_tiers_snapshot (ap_shared app)) position
      in (map_option (\<lambda>accurate.
            (carbon * mult * fl_duration accurate * ssc_carbon_cost_duration_scale (ap_scheduler app),
             fl_duration accurate)) (min_by_key fl_error flavours), app'))"

section \<open>Admission\<close>

record 'v prepared =
  pr_request_id :: request_id
  pr_arrival_slot :: slot
  pr_deadline_slot :: slot
  pr_profile :: qos_profile
  pr_callback_url :: "string option"
  pr_payload :: 'v

definition resolve_arrival_slot :: "int option \<Rightarrow> 'v app_state \<Rightarrow> slot" where
  "resolve_arrival_slot arrival_slot_global app =
     (let current_slot = get_current_slot (ss_inner (ap_shared app))
      in case (arrival_slot_global, ap_slot_epoch_offset app) of
           (Some global, Some offset) \<Rightarrow>
             (let engine = i32_sub global offset
              in if engine < 0 \<or> ssc_total_slots (ap_scheduler app) \<le> engine then current_slot else engine)
         | _ \<Rightarrow> current_slot)"

definition submit_prepare ::
    "'v json_api \<Rightarrow> (string \<Rightarrow> string + parsed_url) \<Rightarrow> 'v submit_request_payload \<Rightarrow> 'v app_state
     \<Rightarrow> (api_error + 'v prepared) \<times> 'v app_state" where
  "submit_prepare J parse body app =
     (if \<not> f64_is_finite (sp_deadline_seconds body) \<or> sp_deadline_seconds body < 0
      then (Inl (BadRequest, InvalidDeadline), app)
      else case (case sp_callback_url body of
                   None \<Rightarrow> Inr ()
                 | Some cb \<Rightarrow> validate_callback_url parse cb (svc_allow_private_callbacks (ap_service_cfg app))) of
        Inl e \<Rightarrow> (Inl (BadRequest, e), app)
      | Inr _ \<Rightarrow>
         (case resolve_request_profile J (ap_profiles app) body of
            Inl e \<Rightarrow> (Inl e, app)
          | Inr profile \<Rightarrow>
             (let (request_id, app') = next_request_id app;
                  arrival_slot = resolve_arrival_slot (sp_arrival_slot_global body) app;
                  deadline_slot = deadline_slot_from_slack arrival_slot (sp_deadline_seconds body)
                    (ssc_effective_slot_duration_secs (ap_scheduler app)) (ssc_total_slots (ap_scheduler app))
              in if deadline_slot < arrival_slot then (Inl (BadRequest, DeadlineBeforeArrival), app')
                 else (Inr \<lparr>pr_request_id = request_id, pr_arrival_slot = arrival_slot,
                         pr_deadline_slot = deadline_slot, pr_profile = profile,
                         pr_callback_url = sp_callback_url body, pr_payload = sp_payload body\<rparr>, app'))))"

text \<open>
  The payload with a task; \<open>None\<close> is the panic of the assignment on a value that is neither an object
  nor null.
\<close>

definition payload_with_task :: "'v json_api \<Rightarrow> qos_profile \<Rightarrow> 'v \<Rightarrow> 'v option" where
  "payload_with_task J profile payload =
     (if js_is_object J payload \<and> js_get J payload ''task'' \<noteq> None then Some payload
      else js_set J payload ''task'' (js_string J (tk_str (qp_task_kind profile))))"

text \<open>
  What happens under the lock. The outer \<open>None\<close> is a panic: of \<open>lock().unwrap()\<close> when the lock is
  poisoned, or inside, which poisons it. \<open>now\<close> is the arrival time of the engine's request.
\<close>

definition admit_request ::
    "'v json_api \<Rightarrow> f64 \<Rightarrow> 'v prepared \<Rightarrow> 'v app_state
     \<Rightarrow> (api_error + (string \<times> f64)) option \<times> 'v app_state" where
  "admit_request J now p app =
     (if ap_admission_poisoned app then (None, app)
      else if ssc_manual_clock (ap_scheduler app) \<and> pr_arrival_slot p \<le> ap_closed_through app
      then (Some (Inl (Conflict, SlotClosed (pr_arrival_slot p))), app)
      else
        (let profile = pr_profile p;
             (baseline, app1) = compute_baseline_carbon_cost (pr_arrival_slot p) (qp_flavours profile) app
         in case baseline of
              None \<Rightarrow> (None, app1\<lparr>ap_admission_poisoned := True\<rparr>)
            | Some (cost, duration) \<Rightarrow>
               (case payload_with_task J profile (pr_payload p) of
                  None \<Rightarrow> (None, app1\<lparr>ap_admission_poisoned := True\<rparr>)
                | Some payload \<Rightarrow>
                   (Some (Inr (pid_str (qp_profile_id profile), cost)),
                    app1\<lparr>ap_tracked := hm_insert (pr_request_id p)
                            (tracked_request_new (pr_callback_url p) payload cost duration (pr_arrival_slot p)
                               (qp_profile_id profile)) (ap_tracked app1),
                         ap_shared := with_inner (add_request (request_new_for_qos_profile now (pr_request_id p)
                            (pr_arrival_slot p) (pr_deadline_slot p) profile)) (ap_shared app1)\<rparr>))))"

lemma baseline_frame:
  assumes "compute_baseline_carbon_cost a fs app = (b, app1)"
  shows "app1 = app\<lparr>ap_baseline_slot_counts := ap_baseline_slot_counts app1\<rparr>"
  using assms by (auto simp: compute_baseline_carbon_cost_def Let_def)

lemma baseline_sel:
  assumes "compute_baseline_carbon_cost a fs app = (b, app1)"
  shows "ap_tracked app1 = ap_tracked app" and "ap_shared app1 = ap_shared app"
  using assms by (auto simp: compute_baseline_carbon_cost_def Let_def)

lemma submit_prepare_Inr:
  assumes "submit_prepare J parse body app = (Inr p, app')"
  shows "resolve_request_profile J (ap_profiles app) body = Inr (pr_profile p)"
    and "pr_request_id p = ap_next_id app" and "app' = app\<lparr>ap_next_id := (ap_next_id app + 1) mod 2 ^ 64\<rparr>"
    and "pr_payload p = sp_payload body" and "0 \<le> sp_deadline_seconds body"
    and "pr_arrival_slot p = resolve_arrival_slot (sp_arrival_slot_global body) app"
    and "pr_deadline_slot p = deadline_slot_from_slack (pr_arrival_slot p) (sp_deadline_seconds body)
      (ssc_effective_slot_duration_secs (ap_scheduler app)) (ssc_total_slots (ap_scheduler app))"
    and "pr_arrival_slot p \<le> pr_deadline_slot p"
  using assms
  by (auto simp: submit_prepare_def next_request_id_def Let_def f64_is_finite_def split: sum.splits if_splits)

lemma admit_accepted:
  assumes "admit_request J now p app = (Some (Inr (pid, cost)), app')"
  obtains payload duration counts where "payload_with_task J (pr_profile p) (pr_payload p) = Some payload"
    and "\<not> ap_admission_poisoned app" and "ssc_manual_clock (ap_scheduler app) \<Longrightarrow> ap_closed_through app < pr_arrival_slot p"
    and "qp_flavours (pr_profile p) \<noteq> []"
    and "pid = pid_str (qp_profile_id (pr_profile p))"
    and "app' = app\<lparr>ap_baseline_slot_counts := counts,
        ap_tracked := hm_insert (pr_request_id p)
          (tracked_request_new (pr_callback_url p) payload cost duration (pr_arrival_slot p)
             (qp_profile_id (pr_profile p))) (ap_tracked app),
        ap_shared := with_inner (add_request (request_new_for_qos_profile now (pr_request_id p)
          (pr_arrival_slot p) (pr_deadline_slot p) (pr_profile p))) (ap_shared app)\<rparr>"
    and "counts = hm_entry (pr_arrival_slot p) 0 (\<lambda>c. c + 1) (ap_baseline_slot_counts app)"
proof -
  obtain b app1 where b: "compute_baseline_carbon_cost (pr_arrival_slot p) (qp_flavours (pr_profile p)) app = (b, app1)"
    by fastforce
  have ok: "\<not> ap_admission_poisoned app" "\<not> (ssc_manual_clock (ap_scheduler app) \<and> pr_arrival_slot p \<le> ap_closed_through app)"
    using assms by (auto simp: admit_request_def split: if_splits)
  obtain duration where d: "b = Some (cost, duration)"
    using assms ok b by (auto simp: admit_request_def Let_def split: option.splits)
  then obtain payload where p: "payload_with_task J (pr_profile p) (pr_payload p) = Some payload"
    using assms ok b by (auto simp: admit_request_def Let_def split: option.splits)
  have "qp_flavours (pr_profile p) \<noteq> []"
    using b d by (auto simp: compute_baseline_carbon_cost_def Let_def)
  moreover have "ap_baseline_slot_counts app1
      = hm_entry (pr_arrival_slot p) 0 (\<lambda>c. c + 1) (ap_baseline_slot_counts app)"
    using b by (auto simp: compute_baseline_carbon_cost_def Let_def)
  moreover note baseline_sel [OF b]
  ultimately show thesis
    using assms ok b d p baseline_frame [OF b]
    by (intro that [of payload duration "ap_baseline_slot_counts app1"])
      (auto simp: admit_request_def Let_def)
qed

lemma task_of_payload:
  assumes "json_laws J" and "payload_with_task J profile payload = Some payload'"
    and "\<And>v. js_get J payload ''task'' = Some v \<Longrightarrow> js_as_str J v = Some (tk_str (qp_task_kind profile))"
  shows "Option.bind (js_get J payload' ''task'') (js_as_str J) = Some (tk_str (qp_task_kind profile))"
    and "k \<noteq> ''task'' \<Longrightarrow> js_get J payload' k = js_get J payload k"
  using assms json_set_SomeD [OF assms(1)] json_as_str_string [OF assms(1)]
  by (auto simp: payload_with_task_def split: if_splits)

text \<open>
  C16: What acceptance records. The accepted request enters the engine's queue, last, and the table
  of tracked requests, pending, under the identifier that was reserved for it and with one arrival
  slot, profile and baseline; the payload the executor will get names the very task kind the
  scheduler chose the profile for and is otherwise the caller's; under a manual clock its arrival
  slot has not been closed. Whatever happened between the reservation and the admission, the
  admission changes the application state in exactly four places: the queue, the count of received
  requests, the table's entry for the request, and the count of arrivals in its slot by which the
  baseline cost is priced. In particular the assignments, the error totals, the clock, the barrier
  and the profiles are as they were.
\<close>

theorem accepted_submission_recorded:
  assumes "json_laws J" and "registry_ok (ap_profiles app)"
    and "submit_prepare J parse body app = (Inr p, app1)"
    and "admit_request J now p app2 = (Some (Inr (pid, cost)), app3)"
  shows "\<exists>t r. map_of (ap_tracked app3) (ap_next_id app) = Some t
    \<and> in_pending (ss_inner (ap_shared app3)) = in_pending (ss_inner (ap_shared app2)) @ [r]
    \<and> in_assignments (ss_inner (ap_shared app3)) = in_assignments (ss_inner (ap_shared app2))
    \<and> (\<forall>j. j \<noteq> ap_next_id app \<longrightarrow> map_of (ap_tracked app3) j = map_of (ap_tracked app2) j)
    \<and> app3 = app2\<lparr>
        ap_baseline_slot_counts :=
          hm_entry (rq_arrival_slot r) 0 (\<lambda>c. c + 1) (ap_baseline_slot_counts app2),
        ap_tracked := hm_insert (ap_next_id app) t (ap_tracked app2),
        ap_shared := with_inner (\<lambda>st. st\<lparr>in_pending := in_pending st @ [r],
          in_total_received := in_total_received st + 1\<rparr>) (ap_shared app2)\<rparr>
    \<and> tr_status t = Pending \<and> \<not> tr_executor_callback_received t
    \<and> rq_id r = ap_next_id app \<and> rq_arrival_slot r = tr_arrival_slot t \<and> rq_arrival_slot r \<le> rq_deadline_slot r
    \<and> rq_qos_profile_id r = tr_qos_profile_id t \<and> pid = pid_str (tr_qos_profile_id t)
    \<and> tr_baseline_carbon_cost t = cost
    \<and> Option.bind (js_get J (tr_payload t) ''task'') (js_as_str J)
        = map_option (\<lambda>q. tk_str (qp_task_kind q)) (rq_qos_profile r)
    \<and> (k \<noteq> ''task'' \<longrightarrow> js_get J (tr_payload t) k = js_get J (sp_payload body) k)
    \<and> (ssc_manual_clock (ap_scheduler app2) \<longrightarrow> ap_closed_through app2 < rq_arrival_slot r)"
proof -
  note prep = submit_prepare_Inr [OF assms(3)]
  obtain payload duration counts where
    pay: "payload_with_task J (pr_profile p) (pr_payload p) = Some payload"
    and closed: "ssc_manual_clock (ap_scheduler app2) \<Longrightarrow> ap_closed_through app2 < pr_arrival_slot p"
    and pid: "pid = pid_str (qp_profile_id (pr_profile p))"
    and app3: "app3 = app2\<lparr>ap_baseline_slot_counts := counts,
        ap_tracked := hm_insert (pr_request_id p)
          (tracked_request_new (pr_callback_url p) payload cost duration (pr_arrival_slot p)
             (qp_profile_id (pr_profile p))) (ap_tracked app2),
        ap_shared := with_inner (add_request (request_new_for_qos_profile now (pr_request_id p)
          (pr_arrival_slot p) (pr_deadline_slot p) (pr_profile p))) (ap_shared app2)\<rparr>"
    and counts: "counts = hm_entry (pr_arrival_slot p) 0 (\<lambda>c. c + 1) (ap_baseline_slot_counts app2)"
    by (rule admit_accepted [OF assms(4)], rule that)
  have fits: "js_as_str J v = Some (tk_str (qp_task_kind (pr_profile p)))"
    if "js_get J (pr_payload p) ''task'' = Some v" for v
    using resolved_profile_fits [OF prep(1) assms(2)] that by (simp add: prep(4))
  note task = task_of_payload [OF assms(1) pay fits]
  have "k \<noteq> ''task'' \<Longrightarrow> js_get J payload k = js_get J (sp_payload body) k"
    using task(2) prep(4) by simp
  then show ?thesis
    using task(1) closed prep(2,8) pid
    by (simp add: app3 counts map_simps tracked_request_new_def request_new_for_qos_profile_def add_request_def with_inner_def)
qed

text \<open>A JSON library that obeys the laws.\<close>

datatype json = JNull | JBool bool | JNum f64 | JStr string | JList "json list" | JObj "(string \<times> json) list"

definition sample_json :: "json json_api" where
  "sample_json =
     \<lparr>js_get = (\<lambda>v k. case v of JObj kvs \<Rightarrow> map_of kvs k | _ \<Rightarrow> None),
      js_as_str = (\<lambda>v. case v of JStr s \<Rightarrow> Some s | _ \<Rightarrow> None),
      js_as_f64 = (\<lambda>v. case v of JNum x \<Rightarrow> Some x | _ \<Rightarrow> None),
      js_is_object = (\<lambda>v. case v of JObj kvs \<Rightarrow> True | _ \<Rightarrow> False),
      js_is_null = (\<lambda>v. v = JNull),
      js_set = (\<lambda>v k x. case v of JObj kvs \<Rightarrow> Some (JObj (AList.update k x kvs)) | JNull \<Rightarrow> Some (JObj [(k, x)]) | _ \<Rightarrow> None),
      js_string = JStr\<rparr>"

lemma sample_json_laws: "json_laws sample_json"
  by (auto simp: json_laws_def sample_json_def update_conv' split: json.splits)

definition sample_submission :: "json \<Rightarrow> json submit_request_payload" where
  "sample_submission payload =
     \<lparr>sp_deadline_seconds = 90, sp_callback_url = None, sp_payload = payload,
      sp_qos_profile_id = Some ''default-text-generation'', sp_task_kind = None, sp_arrival_slot_global = None\<rparr>"

definition sample_prepared :: "json \<Rightarrow> json prepared" where
  "sample_prepared payload =
     \<lparr>pr_request_id = 1, pr_arrival_slot = 0, pr_deadline_slot = 2, pr_profile = sample_profile,
      pr_callback_url = None, pr_payload = payload\<rparr>"

lemma sample_registry_ok: "registry_ok (ap_profiles (sample_app :: 'v app_state))"
  by (simp add: registry_ok_def hm_wf_def sample_profile_def sample_app_def)

lemma sample_prepare:
  assumes "js_get sample_json payload ''task'' = None"
  shows "submit_prepare sample_json parse (sample_submission payload) sample_app
    = (Inr (sample_prepared payload), sample_app\<lparr>ap_next_id := 2\<rparr>)"
proof -
  have "profile_id_parse ''default-text-generation'' = Inr default_profile"
    by (simp add: profile_id_parse_def default_profile_def is_valid_stable_identifier_def is_ascii_lowercase_def
        is_ascii_digit_def)
  then have "resolve_request_profile sample_json (ap_profiles (sample_app :: json app_state)) (sample_submission payload)
      = Inr sample_profile"
    using assms by (simp add: resolve_request_profile_def parse_optional_def select_profile_def payload_task_kind_def
        profile_for_kind_def sample_submission_def sample_app_def registry_get_def)
  moreover have "deadline_slot_from_slack 0 90 60 10 = 2"
    by (simp add: deadline_slot_from_slack_def i32_saturating_add_def i32_sub_def wrap32_def f64_as_i32_def
        ceiling_divide_eq_div_numeral f64_trunc_def)
  ultimately show ?thesis
    by (simp add: submit_prepare_def sample_submission_def sample_prepared_def f64_is_finite_def next_request_id_def
        resolve_arrival_slot_def Let_def)
      (simp add: sample_app_def get_current_slot_def shared_state_new_def inner_new_def)
qed

lemma accepted_submission_recorded_witness:
  "case admit_request sample_json 7 (sample_prepared (JObj [(''text'', JStr ''hello'')])) (sample_app\<lparr>ap_next_id := 2\<rparr>) of
     (Some (Inr (pid, cost)), app3) \<Rightarrow>
       \<exists>t r. map_of (ap_tracked app3) 1 = Some t \<and> in_pending (ss_inner (ap_shared app3)) = [r] \<and> rq_id r = 1
         \<and> rq_arrival_slot r \<le> rq_deadline_slot r
         \<and> Option.bind (js_get sample_json (tr_payload t) ''task'') (js_as_str sample_json) = Some ''text_generation''
   | _ \<Rightarrow> False"
proof -
  let ?v = "JObj [(''text'', JStr ''hello'')]"
  have prep: "submit_prepare sample_json (\<lambda>_. Inl []) (sample_submission ?v) sample_app
      = (Inr (sample_prepared ?v), sample_app\<lparr>ap_next_id := 2\<rparr>)"
    by (rule sample_prepare) (simp add: sample_json_def)
  obtain cost app3 where adm: "admit_request sample_json 7 (sample_prepared ?v) (sample_app\<lparr>ap_next_id := 2\<rparr>)
      = (Some (Inr (''default-text-generation'', cost)), app3)"
    "in_pending (ss_inner (ap_shared app3)) = [request_new_for_qos_profile 7 1 0 2 sample_profile]"
    by (simp add: admit_request_def sample_prepared_def sample_app_def compute_baseline_carbon_cost_def
        payload_with_task_def sample_json_def sample_profile_def default_profile_def add_request_def with_inner_def
        shared_state_new_def inner_new_def Let_def)
  have one: "ap_next_id (sample_app :: json app_state) = 1"
    and none: "in_pending (ss_inner (ap_shared ((sample_app :: json app_state)\<lparr>ap_next_id := 2\<rparr>))) = []"
    by (simp_all add: sample_app_def shared_state_new_def inner_new_def)
  obtain t r where tr: "map_of (ap_tracked app3) 1 = Some t" "in_pending (ss_inner (ap_shared app3)) = [] @ [r]"
    "rq_id r = 1" "rq_arrival_slot r \<le> rq_deadline_slot r"
    "Option.bind (js_get sample_json (tr_payload t) ''task'') (js_as_str sample_json)
        = map_option (\<lambda>q. tk_str (qp_task_kind q)) (rq_qos_profile r)"
    using accepted_submission_recorded [OF sample_json_laws sample_registry_ok prep adm(1),
    of undefined] unfolding one none by (elim exE conjE) (rule that)
  moreover have "rq_qos_profile r = Some sample_profile"
    using adm(2) tr(2) by (simp add: request_new_for_qos_profile_def)
  ultimately show ?thesis by (simp add: adm(1) sample_profile_def)
qed

section \<open>A panic under the admission lock\<close>

text \<open>
  A submission whose payload is JSON but neither an object nor null, for instance a number, passes
  every check of the handler and reaches the admission; unless its slot is closed the assignment of
  the task panics there, with the lock held.
\<close>

lemma malformed_payload_poisons:
  assumes "json_laws J" and "\<not> js_is_object J (sp_payload body)" and "\<not> js_is_null J (sp_payload body)"
    and "0 \<le> sp_deadline_seconds body" and "sp_callback_url body = None" and "sp_arrival_slot_global body = None"
    and "sp_task_kind body = None" and "sp_qos_profile_id body = Some (pid_str (qp_profile_id q))"
    and "is_valid_stable_identifier (pid_str (qp_profile_id q))"
    and "registry_get (ap_profiles app) (qp_profile_id q) = Some q"
    and "0 < ssc_effective_slot_duration_secs (ap_scheduler app)" and "in_i32 (ssc_total_slots (ap_scheduler app))"
    and "s = get_current_slot (ss_inner (ap_shared app))" and "0 \<le> s" and "s < ssc_total_slots (ap_scheduler app)"
    and "ap_closed_through app < s"
  shows "\<exists>p app1 app2. submit_prepare J parse body app = (Inr p, app1) \<and> admit_request J now p app1 = (None, app2)
    \<and> ap_shared app2 = ap_shared app \<and> ap_tracked app2 = ap_tracked app
    \<and> ap_admission_poisoned app2"
proof -
  have no_task: "js_get J (sp_payload body) ''task'' = None"
    using assms(1,2) by (simp add: json_laws_def)
  have "resolve_request_profile J (ap_profiles app) body = Inr q"
    using assms(7-10) no_task
    by (cases "qp_profile_id q") (simp add: resolve_request_profile_def parse_optional_def select_profile_def payload_task_kind_def
        profile_for_kind_def profile_id_parse_def)
  moreover have arrival: "resolve_arrival_slot (sp_arrival_slot_global body) app = s"
    using assms(6,13) by (simp add: resolve_arrival_slot_def)
  moreover have "s \<le> deadline_slot_from_slack s (sp_deadline_seconds body)
      (ssc_effective_slot_duration_secs (ap_scheduler app)) (ssc_total_slots (ap_scheduler app))"
    using deadline_covers_slack_low [OF assms(11,14,15,12)] by blast
  ultimately obtain p where p: "submit_prepare J parse body app
      = (Inr p, app\<lparr>ap_next_id := (ap_next_id app + 1) mod 2 ^ 64\<rparr>)"
    "pr_arrival_slot p = s" "pr_payload p = sp_payload body"
    using assms(4,5) by (simp add: submit_prepare_def f64_is_finite_def next_request_id_def Let_def)
  have "payload_with_task J (pr_profile p) (pr_payload p) = None"
    using assms(1-3) by (simp add: payload_with_task_def p(3) json_set_None_iff)
  moreover obtain b app1 where b: "compute_baseline_carbon_cost s (qp_flavours (pr_profile p))
      (app\<lparr>ap_next_id := (ap_next_id app + 1) mod 2 ^ 64\<rparr>) = (b, app1)" by fastforce
  ultimately obtain app2 where "admit_request J now p (app\<lparr>ap_next_id := (ap_next_id app + 1) mod 2 ^ 64\<rparr>) = (None, app2)"
    "ap_shared app2 = ap_shared app" "ap_tracked app2 = ap_tracked app" "ap_admission_poisoned app2"
    using assms(16) baseline_sel [OF b]
    by (cases "ap_admission_poisoned app"; cases b) (simp_all add: admit_request_def p(2) Let_def case_prod_unfold)
  with p(1) show ?thesis by auto
qed

lemma poisoned_admission: "ap_admission_poisoned app \<Longrightarrow> admit_request J now p app = (None, app)"
  by (simp add: admit_request_def)

section \<open>Waiting for the assignment\<close>

record request_status_response =
  rs_request_id :: request_id
  rs_qos_profile_id :: string
  rs_status :: request_status
  rs_scheduled_slot :: "slot option"
  rs_eta_seconds :: "f64 option"
  rs_flavour :: "string option"
  rs_carbon_cost :: "f64 option"
  rs_scheduled_at :: "f64 option"
  rs_baseline_carbon_cost :: f64
  rs_error :: "failure option"

definition eta_seconds :: "slot \<Rightarrow> 'v app_state \<Rightarrow> f64" where
  "eta_seconds scheduled_slot app =
     real_of_int (max (i32_sub scheduled_slot (get_current_slot (ss_inner (ap_shared app)))) 0)
       * ssc_effective_slot_duration_secs (ap_scheduler app)"

text \<open>What a response says of the assignment, if there is one.\<close>

definition status_response ::
    "request_id \<Rightarrow> string \<Rightarrow> request_status \<Rightarrow> assignment option \<Rightarrow> f64 \<Rightarrow> failure option \<Rightarrow> 'v app_state
     \<Rightarrow> request_status_response" where
  "status_response i pid status a baseline err app =
     \<lparr>rs_request_id = i, rs_qos_profile_id = pid, rs_status = status,
      rs_scheduled_slot = map_option as_scheduled_slot a,
      rs_eta_seconds = map_option (\<lambda>a. eta_seconds (as_scheduled_slot a) app) a,
      rs_flavour = map_option as_flavour_name a, rs_carbon_cost = map_option as_carbon_cost a,
      rs_scheduled_at = map_option as_assignment_time a, rs_baseline_carbon_cost = baseline, rs_error = err\<rparr>"

text \<open>
  One turn of the loop: \<open>None\<close> is to sleep and try again, \<open>expired\<close> says that the wait has run out.
\<close>

definition submit_poll ::
    "bool \<Rightarrow> request_id \<Rightarrow> string \<Rightarrow> f64 \<Rightarrow> 'v app_state
     \<Rightarrow> (status_code \<times> request_status_response) option \<times> 'v app_state" where
  "submit_poll expired i pid baseline app =
     (case map_of (get_current_assignments (ss_inner (ap_shared app))) i of
        Some a \<Rightarrow>
          (Some (StatusOk, status_response i pid Scheduled (Some a) baseline None app),
           update_tracked i (\<lambda>t. if \<not> tr_executor_callback_received t then t\<lparr>tr_status := Scheduled\<rparr> else t) app)
      | None \<Rightarrow>
          (if expired then Some (StatusAccepted, status_response i pid Pending None baseline None app) else None, app))"

definition get_request_status :: "request_id \<Rightarrow> 'v app_state \<Rightarrow> api_error + request_status_response" where
  "get_request_status i app =
     (case map_of (ap_tracked app) i of
        None \<Rightarrow> Inl (NotFound, UnknownRequest)
      | Some t \<Rightarrow>
          Inr (status_response i (pid_str (tr_qos_profile_id t)) (tr_status t)
            (map_of (get_current_assignments (ss_inner (ap_shared app))) i)
            (tr_baseline_carbon_cost t) (tr_error t) app))"

record tracked_request_response =
  tq_request_id :: request_id
  tq_task :: "string option"
  tq_qos_profile_id :: string
  tq_status :: request_status
  tq_arrival_slot :: slot
  tq_scheduled_slot :: "slot option"
  tq_flavour :: "string option"
  tq_carbon_cost :: "f64 option"
  tq_actual_carbon_cost :: "f64 option"
  tq_baseline_carbon_cost :: f64
  tq_actual_baseline_carbon_cost :: "f64 option"
  tq_actual_error_pct :: "f64 option"
  tq_execution_time_sec :: "f64 option"
  tq_baseline_execution_time_sec :: "f64 option"
  tq_scheduled_at :: "f64 option"
  tq_error :: "failure option"

definition tracked_response ::
    "'v json_api \<Rightarrow> (request_id, assignment) hmap \<Rightarrow> request_id \<times> 'v tracked_request \<Rightarrow> tracked_request_response" where
  "tracked_response J assignments = (\<lambda>(i, t).
     (let a = map_of assignments i
      in \<lparr>tq_request_id = i, tq_task = Option.bind (js_get J (tr_payload t) ''task'') (js_as_str J),
          tq_qos_profile_id = pid_str (tr_qos_profile_id t), tq_status = tr_status t,
          tq_arrival_slot = tr_arrival_slot t, tq_scheduled_slot = map_option as_scheduled_slot a,
          tq_flavour = map_option as_flavour_name a, tq_carbon_cost = map_option as_carbon_cost a,
          tq_actual_carbon_cost = tr_actual_carbon_cost t, tq_baseline_carbon_cost = tr_baseline_carbon_cost t,
          tq_actual_baseline_carbon_cost = tr_actual_baseline_carbon_cost t,
          tq_actual_error_pct = tr_actual_error_pct t, tq_execution_time_sec = tr_execution_time_sec t,
          tq_baseline_execution_time_sec = tr_baseline_execution_time_sec t,
          tq_scheduled_at = map_option as_assignment_time a, tq_error = tr_error t\<rparr>))"

definition list_request_statuses :: "'v json_api \<Rightarrow> 'v app_state \<Rightarrow> tracked_request_response list" where
  "list_request_statuses J app =
     sort_key tq_request_id
       (map (tracked_response J (get_current_assignments (ss_inner (ap_shared app)))) (ap_tracked app))"

text \<open>The listing has one row per tracked request, in the order of the identifiers.\<close>

lemma list_request_statuses_ids:
  assumes "hm_wf (ap_tracked app)"
  shows "sorted_wrt (<) (map tq_request_id (list_request_statuses J app))"
    and "set (map tq_request_id (list_request_statuses J app)) = dom (map_of (ap_tracked app))"
proof -
  let ?rows = "map (tracked_response J (get_current_assignments (ss_inner (ap_shared app)))) (ap_tracked app)"
  have ids: "map tq_request_id ?rows = map fst (ap_tracked app)"
    by (simp add: tracked_response_def case_prod_unfold Let_def)
  have "mset (map tq_request_id (list_request_statuses J app)) = mset (map fst (ap_tracked app))"
    unfolding list_request_statuses_def ids [symmetric] by (simp add: multiset.map_comp)
  then have "distinct (map tq_request_id (list_request_statuses J app))"
    and "set (map tq_request_id (list_request_statuses J app)) = set (map fst (ap_tracked app))"
    using assms mset_eq_imp_distinct_iff mset_eq_setD unfolding hm_wf_def by blast+
  moreover have "sorted (map tq_request_id (list_request_statuses J app))"
    by (simp add: list_request_statuses_def)
  ultimately show "sorted_wrt (<) (map tq_request_id (list_request_statuses J app))"
    and "set (map tq_request_id (list_request_statuses J app)) = dom (map_of (ap_tracked app))"
    by (simp_all add: strict_sorted_iff dom_map_of_conv_image_fst)
qed

end
