(* ===== verification/Callbacks.thy ===== *)
theory Callbacks
  imports Submission
begin

text \<open>
  The executor's callback (\<open>service/handlers.rs\<close>, \<open>executor_callback\<close>): claimed once under the lock of
  the tracked requests, then three separate corrections, of the error totals, of the cost of the
  assignment and of the tracked request, and the message for the caller. Other handlers and the
  scheduler may act between these sections; \<open>executor_callback\<close> is their composition without
  interference, the service theory interleaves them.
\<close>

section \<open>Repricing\<close>

definition time_ratio :: "f64 option \<Rightarrow> f64 \<Rightarrow> f64 option" where
  "time_ratio t_exec dur =
     (case t_exec of Some t \<Rightarrow> if 0 < dur then Some (t / dur) else None | None \<Rightarrow> None)"

definition ratio_or_one :: "f64 option \<Rightarrow> f64" where
  "ratio_or_one r = (case r of Some x \<Rightarrow> x | None \<Rightarrow> 1)"

definition corrected_cost :: "f64 \<Rightarrow> f64 option \<Rightarrow> f64 option \<Rightarrow> f64 option" where
  "corrected_cost cost ci_ratio t_ratio =
     (if ci_ratio \<noteq> None \<or> t_ratio \<noteq> None then Some (cost * ratio_or_one ci_ratio * ratio_or_one t_ratio)
      else None)"

section \<open>The sections of the handler\<close>

record 'v executor_callback_payload =
  ec_success :: bool
  ec_result :: 'v
  ec_error :: "string option"
  ec_execution_time_sec :: "f64 option"
  ec_baseline_execution_time_sec :: "f64 option"

record 'v caller_callback_payload =
  cc_request_id :: request_id
  cc_success :: bool
  cc_result :: 'v
  cc_error :: "string option"
  cc_actual_carbon_cost :: "f64 option"
  cc_actual_baseline_carbon_cost :: "f64 option"
  cc_execution_time_sec :: "f64 option"
  cc_baseline_execution_time_sec :: "f64 option"

text \<open>\<open>Inr True\<close>: claimed by this call; \<open>Inr False\<close>: a duplicate, answered with \<open>200\<close>.\<close>

definition callback_claim :: "request_id \<Rightarrow> 'v app_state \<Rightarrow> (api_error + bool) \<times> 'v app_state" where
  "callback_claim i app =
     (case map_of (ap_tracked app) i of
        None \<Rightarrow> (Inl (NotFound, UnknownRequest), app)
      | Some t \<Rightarrow>
         (if tr_executor_callback_received t then (Inr False, app)
          else (Inr True, app\<lparr>ap_tracked :=
                  hm_insert i (t\<lparr>tr_executor_callback_received := True\<rparr>) (ap_tracked app)\<rparr>)))"

definition result_number :: "'v json_api \<Rightarrow> 'v executor_callback_payload \<Rightarrow> string \<Rightarrow> f64 option" where
  "result_number J body k = Option.bind (js_get J (ec_result body) k) (js_as_f64 J)"

definition callback_correct_error ::
    "'v json_api \<Rightarrow> request_id \<Rightarrow> 'v executor_callback_payload \<Rightarrow> 'v app_state \<Rightarrow> 'v app_state" where
  "callback_correct_error J i body app =
     (case result_number J body ''actual_error_pct'' of
        None \<Rightarrow> app
      | Some actual_error \<Rightarrow>
          app\<lparr>ap_shared := with_inner (correct_assignment_error i actual_error) (ap_shared app)\<rparr>)"

text \<open>The measured times, of the execution and of the baseline.\<close>

definition measured_time :: "'v json_api \<Rightarrow> 'v executor_callback_payload \<Rightarrow> f64 option" where
  "measured_time J body = result_number J body ''execution_time_sec''"

definition measured_baseline_time :: "'v json_api \<Rightarrow> 'v executor_callback_payload \<Rightarrow> f64 option" where
  "measured_baseline_time J body =
     (case result_number J body ''baseline_execution_time_sec'' of
        Some t \<Rightarrow> Some t
      | None \<Rightarrow>
         (case Option.bind (js_get J (ec_result body) ''flavour'') (js_as_str J) of
            Some f \<Rightarrow> if to_ascii_lowercase f = ''accurate'' then measured_time J body else None
          | None \<Rightarrow> None))"

definition callback_reprice ::
    "'v json_api \<Rightarrow> request_id \<Rightarrow> 'v executor_callback_payload \<Rightarrow> 'v app_state \<Rightarrow> f64 option \<times> 'v app_state" where
  "callback_reprice J i body app =
     (case map_of (get_current_assignments (ss_inner (ap_shared app))) i of
        None \<Rightarrow> (None, app)
      | Some a \<Rightarrow>
         (case corrected_cost (as_carbon_cost a) (carbon_intensity_ratio (as_scheduled_slot a) app)
                 (time_ratio (measured_time J body) (as_flavour_duration a)) of
            None \<Rightarrow> (None, app)
          | Some cost \<Rightarrow>
             (let (r, st) = correct_assignment_carbon_cost i cost (ss_inner (ap_shared app))
              in (r, app\<lparr>ap_shared := with_inner (\<lambda>_. st) (ap_shared app)\<rparr>))))"

definition finished_request ::
    "'v json_api \<Rightarrow> 'v executor_callback_payload \<Rightarrow> f64 option \<Rightarrow> 'v app_state \<Rightarrow> 'v tracked_request
     \<Rightarrow> 'v tracked_request" where
  "finished_request J body actual_carbon_cost app t =
     (let actual_baseline = corrected_cost (tr_baseline_carbon_cost t)
            (carbon_intensity_ratio (tr_arrival_slot t) app)
            (time_ratio (measured_baseline_time J body) (tr_baseline_duration t))
      in t\<lparr>tr_status := (if ec_success body then Completed else Failed),
           tr_error := map_option Reported (ec_error body),
           tr_actual_carbon_cost := actual_carbon_cost,
           tr_actual_error_pct := result_number J body ''actual_error_pct'',
           tr_execution_time_sec := measured_time J body,
           tr_baseline_execution_time_sec := measured_baseline_time J body,
           tr_actual_baseline_carbon_cost := actual_baseline,
           tr_baseline_carbon_cost :=
             (case actual_baseline of Some c \<Rightarrow> c | None \<Rightarrow> tr_baseline_carbon_cost t)\<rparr>)"

text \<open>The answer is the message posted to the caller, with its URL, if it gave one.\<close>

definition callback_finish ::
    "'v json_api \<Rightarrow> request_id \<Rightarrow> 'v executor_callback_payload \<Rightarrow> f64 option \<Rightarrow> 'v app_state
     \<Rightarrow> (api_error + (string \<times> 'v caller_callback_payload) option) \<times> 'v app_state" where
  "callback_finish J i body actual_carbon_cost app =
     (case map_of (ap_tracked app) i of
        None \<Rightarrow> (Inl (NotFound, UnknownRequest), app)
      | Some t \<Rightarrow>
         (let t' = finished_request J body actual_carbon_cost app t
          in (Inr (map_option (\<lambda>url. (url,
                \<lparr>cc_request_id = i, cc_success = ec_success body, cc_result = ec_result body,
                 cc_error = ec_error body, cc_actual_carbon_cost = actual_carbon_cost,
                 cc_actual_baseline_carbon_cost = tr_actual_baseline_carbon_cost t',
                 cc_execution_time_sec = measured_time J body,
                 cc_baseline_execution_time_sec = measured_baseline_time J body\<rparr>)) (tr_callback_url t')),
              app\<lparr>ap_tracked := hm_insert i t' (ap_tracked app)\<rparr>)))"

definition executor_callback ::
    "'v json_api \<Rightarrow> request_id \<Rightarrow> 'v executor_callback_payload \<Rightarrow> 'v app_state
     \<Rightarrow> (api_error + (string \<times> 'v caller_callback_payload) option) \<times> 'v app_state" where
  "executor_callback J i body app =
     (case callback_claim i app of
        (Inl e, app1) \<Rightarrow> (Inl e, app1)
      | (Inr False, app1) \<Rightarrow> (Inr None, app1)
      | (Inr True, app1) \<Rightarrow>
         (let app2 = callback_correct_error J i body app1;
              (actual_carbon_cost, app3) = callback_reprice J i body app2
          in callback_finish J i body actual_carbon_cost app3))"

section \<open>A callback is applied once\<close>

lemma callback_reprice_sel:
  assumes "callback_reprice J i body app = (r, app')"
  shows "ap_tracked app' = ap_tracked app" and "ap_service_cfg app' = ap_service_cfg app"
    and "ap_next_id app' = ap_next_id app" and "ap_closed_through app' = ap_closed_through app"
  using assms by (auto simp: callback_reprice_def split: option.splits prod.splits)

lemma callback_correct_error_sel [simp]:
  "ap_tracked (callback_correct_error J i body app) = ap_tracked app"
  "ap_service_cfg (callback_correct_error J i body app) = ap_service_cfg app"
  by (simp_all add: callback_correct_error_def split: option.split)

lemma finished_request_sel [simp]:
  "tr_executor_callback_received (finished_request J body c app t) = tr_executor_callback_received t"
  "tr_status (finished_request J body c app t) = (if ec_success body then Completed else Failed)"
  "tr_callback_url (finished_request J body c app t) = tr_callback_url t"
  "tr_arrival_slot (finished_request J body c app t) = tr_arrival_slot t"
  "tr_payload (finished_request J body c app t) = tr_payload t"
  "tr_actual_carbon_cost (finished_request J body c app t) = c"
  by (simp_all add: finished_request_def Let_def)

lemma callback_known:
  assumes "map_of (ap_tracked app) i = Some t"
  obtains out app' t' where "executor_callback J i body app = (Inr out, app')"
    and "map_of (ap_tracked app') i = Some t'" and "tr_executor_callback_received t'"
    and "tr_executor_callback_received t \<Longrightarrow> out = None \<and> app' = app"
    and "\<not> tr_executor_callback_received t \<Longrightarrow> tr_status t' = (if ec_success body then Completed else Failed)"
    and "\<And>j. j \<noteq> i \<Longrightarrow> map_of (ap_tracked app') j = map_of (ap_tracked app) j"
proof (cases "tr_executor_callback_received t")
  case True
  then have "executor_callback J i body app = (Inr None, app)"
    using assms by (simp add: executor_callback_def callback_claim_def)
  from that [OF this assms True] True show thesis by simp
next
  case False
  let ?app1 = "app\<lparr>ap_tracked := hm_insert i (t\<lparr>tr_executor_callback_received := True\<rparr>) (ap_tracked app)\<rparr>"
  obtain c app3 where c: "callback_reprice J i body (callback_correct_error J i body ?app1) = (c, app3)"
    by fastforce
  have tracked: "ap_tracked app3 = hm_insert i (t\<lparr>tr_executor_callback_received := True\<rparr>) (ap_tracked app)"
    using callback_reprice_sel(1) [OF c] by simp
  obtain out app' where run: "executor_callback J i body app = (Inr out, app')"
    and app': "app' = app3\<lparr>ap_tracked := hm_insert i (finished_request J body c app3
      (t\<lparr>tr_executor_callback_received := True\<rparr>)) (ap_tracked app3)\<rparr>"
    using assms False c
    by (simp add: executor_callback_def callback_claim_def callback_finish_def tracked map_simps Let_def)
  show thesis
    using False
    by (intro that [OF run, of "finished_request J body c app3 (t\<lparr>tr_executor_callback_received := True\<rparr>)"])
      (simp_all add: app' tracked map_simps)
qed

text \<open>
  A callback is applied at most once. Whatever the first callback for a tracked request
  reported, it marks the request completed or failed as reported and is acknowledged; every later
  callback for it is acknowledged as well and changes nothing, neither the request nor the costs nor
  the error totals, and tells the caller nothing; no callback touches another request.
\<close>

theorem callback_applied_once:
  assumes "map_of (ap_tracked app) i = Some t" and "executor_callback J i body app = (answer, app')"
  shows "(\<exists>out. answer = Inr out)
    \<and> executor_callback J' i body' app' = (Inr None, app')
    \<and> (\<not> tr_executor_callback_received t \<longrightarrow>
         map_option tr_status (map_of (ap_tracked app') i) = Some (if ec_success body then Completed else Failed))
    \<and> (tr_executor_callback_received t \<longrightarrow> answer = Inr None \<and> app' = app)
    \<and> (j = i \<or> map_of (ap_tracked app') j = map_of (ap_tracked app) j)"
proof -
  obtain out app'' t' where run: "executor_callback J i body app = (Inr out, app'')"
    and t': "map_of (ap_tracked app'') i = Some t'" "tr_executor_callback_received t'"
    and facts: "tr_executor_callback_received t \<Longrightarrow> out = None \<and> app'' = app"
      "\<not> tr_executor_callback_received t \<Longrightarrow> tr_status t' = (if ec_success body then Completed else Failed)"
      "\<And>j. j \<noteq> i \<Longrightarrow> map_of (ap_tracked app'') j = map_of (ap_tracked app) j"
    by (rule callback_known [OF assms(1), of J body], rule that)
  have eq: "answer = Inr out" "app'' = app'" using run assms(2) by simp_all
  have "executor_callback J' i body' app' = (Inr None, app')"
    using t' by (simp add: executor_callback_def callback_claim_def eq)
  with facts t' show ?thesis by (auto simp: eq)
qed

section \<open>What a callback corrects\<close>

text \<open>
  C24: What a first callback corrects. The reported error replaces the predicted one of the
  assignment, its cost is rescaled by the ratio of measured to forecast intensity and of measured to
  planned time, a missing ratio counting as one, and the same cost is kept with the request; no
  other assignment and no queue changes, and the error totals of the profiles and of the fleet still
  are the sums over the live assignments.
\<close>

theorem callback_corrects:
  assumes "map_of (ap_tracked app) i = Some t" and "\<not> tr_executor_callback_received t"
    and "map_of (in_assignments (ss_inner (ap_shared app))) i = Some a"
    and "inner_inv (ss_inner (ap_shared app))" and "errors_exact (ss_inner (ap_shared app))"
    and "executor_callback J i body app = (answer, app')"
    and "cost = corrected_cost (as_carbon_cost a) (carbon_intensity_ratio (as_scheduled_slot a) app)
           (time_ratio (measured_time J body) (as_flavour_duration a))"
  shows "map_of (in_assignments (ss_inner (ap_shared app'))) i = Some (a\<lparr>
        as_error := (case result_number J body ''actual_error_pct'' of Some e \<Rightarrow> e | None \<Rightarrow> as_error a),
        as_carbon_cost := (case cost of Some c \<Rightarrow> c | None \<Rightarrow> as_carbon_cost a)\<rparr>)
    \<and> map_option tr_actual_carbon_cost (map_of (ap_tracked app') i) = Some cost
    \<and> (j = i \<or> map_of (in_assignments (ss_inner (ap_shared app'))) j = map_of (in_assignments (ss_inner (ap_shared app))) j)
    \<and> in_pending (ss_inner (ap_shared app')) = in_pending (ss_inner (ap_shared app))
    \<and> inner_inv (ss_inner (ap_shared app')) \<and> errors_exact (ss_inner (ap_shared app'))"
proof -
  let ?t = "t\<lparr>tr_executor_callback_received := True\<rparr>"
  let ?app1 = "app\<lparr>ap_tracked := hm_insert i ?t (ap_tracked app)\<rparr>"
  let ?app2 = "callback_correct_error J i body ?app1"
  let ?a = "a\<lparr>as_error := (case result_number J body ''actual_error_pct'' of Some e \<Rightarrow> e | None \<Rightarrow> as_error a)\<rparr>"
  let ?st = "ss_inner (ap_shared app)" and ?st2 = "ss_inner (ap_shared ?app2)"
  have st2: "?st2 = (case result_number J body ''actual_error_pct'' of
      None \<Rightarrow> ?st | Some e \<Rightarrow> correct_assignment_error i e ?st)"
    by (simp add: callback_correct_error_def with_inner_def split: option.split)
  have a2: "in_assignments ?st2 = (case result_number J body ''actual_error_pct'' of
      None \<Rightarrow> in_assignments ?st | Some e \<Rightarrow> hm_insert i ?a (in_assignments ?st))"
    and p2: "in_pending ?st2 = in_pending ?st"
    using assms(3) by (auto simp: st2 correct_assignment_error_def Let_def split: option.split)
  have inv2: "inner_inv ?st2" "errors_exact ?st2"
    using assms(4,5) by (auto simp: st2 correct_assignment_error_inv correct_assignment_error_exact split: option.split)
  have a2i: "map_of (in_assignments ?st2) i = Some ?a"
    using assms(3) by (simp add: a2 map_simps split: option.split)
  have ratio: "carbon_intensity_ratio s ?app2 = carbon_intensity_ratio s app" for s
    by (simp add: carbon_intensity_ratio_def callback_correct_error_def split: option.split)
  obtain c app3 where c: "callback_reprice J i body ?app2 = (c, app3)" by fastforce
  have cost: "corrected_cost (as_carbon_cost ?a) (carbon_intensity_ratio (as_scheduled_slot ?a) ?app2)
           (time_ratio (measured_time J body) (as_flavour_duration ?a)) = cost"
    by (simp add: ratio assms(7))
  have app3: "c = cost" "ss_inner (ap_shared app3) = (case cost of None \<Rightarrow> ?st2
      | Some x \<Rightarrow> snd (correct_assignment_carbon_cost i x ?st2))"
    using c a2i cost unfolding callback_reprice_def get_current_assignments_def
    by (auto simp: correct_assignment_carbon_cost_def with_inner_def split: option.splits)
  obtain out where app': "app' = app3\<lparr>ap_tracked := hm_insert i (finished_request J body c app3 ?t) (ap_tracked app3)\<rparr>"
    using assms(1,2,6) c callback_reprice_sel(1) [OF c]
    by (auto simp: executor_callback_def callback_claim_def callback_finish_def map_simps Let_def)
  have st': "ss_inner (ap_shared app') = (case cost of None \<Rightarrow> ?st2
      | Some x \<Rightarrow> snd (correct_assignment_carbon_cost i x ?st2))"
    by (simp add: app' app3(2))
  have "map_of (in_assignments (ss_inner (ap_shared app'))) i
      = Some (?a\<lparr>as_carbon_cost := (case cost of Some c \<Rightarrow> c | None \<Rightarrow> as_carbon_cost a)\<rparr>)"
    using a2i by (simp add: st' correct_assignment_carbon_cost_def map_simps split: option.split)
  moreover have "j = i \<or> map_of (in_assignments (ss_inner (ap_shared app'))) j = map_of (in_assignments ?st) j"
    using a2i by (auto simp: st' a2 correct_assignment_carbon_cost_def map_simps split: option.splits)
  moreover have "in_pending (ss_inner (ap_shared app')) = in_pending ?st"
    using a2i p2 by (simp add: st' correct_assignment_carbon_cost_def split: option.split)
  moreover have "inner_inv (ss_inner (ap_shared app'))" "errors_exact (ss_inner (ap_shared app'))"
    using inv2 by (auto simp: st' correct_assignment_carbon_cost_inv correct_assignment_carbon_cost_exact split: option.split)
  moreover have "map_option tr_actual_carbon_cost (map_of (ap_tracked app') i) = Some cost"
    by (simp add: app' map_simps app3(1))
  ultimately show ?thesis by simp
qed

section \<open>Which forecast a correction divides by\<close>

text \<open>
  The correction is exact only while the forecast stands. For an assignment priced from a
  forecast \<open>planned\<close>, with \<open>rate\<close> standing for the capacity multiplier and the duration scale, the
  corrected cost is \<open>actual * rate * time\<close>, the actual cost of the execution, times \<open>planned\<close> over the
  forecast in force when the callback arrives. It is the actual cost if and only if the provider has
  not revised the forecast of the slot since the assignment was priced (or the cost is zero, as it is
  whenever the executor reports the time zero of a failed execution).
\<close>

theorem correction_needs_stable_forecast:
  assumes "map_of (in_assignments (ss_inner (ap_shared app))) i = Some a"
    and "as_carbon_cost a = planned * rate * as_flavour_duration a" and "0 < as_flavour_duration a"
    and "forecast_at (ap_carbon_forecast app) (as_scheduled_slot a) = Some revised" and "0 < revised"
    and "map_of (ap_actual_carbon_intensity app) (as_scheduled_slot a) = Some actual"
    and "measured_time J body = Some time"
  shows "fst (callback_reprice J i body app) = Some (actual * rate * time * (planned / revised))
    \<and> (fst (callback_reprice J i body app) = Some (actual * rate * time)
        \<longleftrightarrow> planned = revised \<or> actual * rate * time = 0)"
proof -
  have "corrected_cost (as_carbon_cost a) (carbon_intensity_ratio (as_scheduled_slot a) app)
           (time_ratio (measured_time J body) (as_flavour_duration a))
      = Some (as_carbon_cost a * (actual / revised) * (time / as_flavour_duration a))"
    using assms(3-7) by (simp add: corrected_cost_def ratio_or_one_def time_ratio_def carbon_intensity_ratio_def)
  also have "as_carbon_cost a * (actual / revised) * (time / as_flavour_duration a)
      = actual * rate * time * (planned / revised)"
    using assms(3) by (simp add: assms(2))
  finally have "fst (callback_reprice J i body app) = Some (actual * rate * time * (planned / revised))"
    using assms(1) by (simp add: callback_reprice_def get_current_assignments_def correct_assignment_carbon_cost_def)
  moreover have "actual * rate * time * (planned / revised) = actual * rate * time
      \<longleftrightarrow> planned = revised \<or> actual * rate * time = 0"
    using assms(5) by (simp add: divide_eq_1_iff) (auto simp: field_simps)
  ultimately show ?thesis by simp
qed

section \<open>A concrete callback\<close>

definition callback_app :: "json app_state" where
  "callback_app = sample_app\<lparr>
     ap_tracked := [(1, tracked_request_new None JNull 400 40 0 default_profile)],
     ap_actual_carbon_intensity := [(1, 50)],
     ap_shared := shared_state_new\<lparr>ss_inner := inner_new\<rparr>\<rparr>"

definition sample_result :: "json executor_callback_payload" where
  "sample_result = \<lparr>ec_success = True,
     ec_result = JObj [(''actual_error_pct'', JNum 3), (''execution_time_sec'', JNum 20)],
     ec_error = None, ec_execution_time_sec = None, ec_baseline_execution_time_sec = None\<rparr>"

text \<open>One assignment, in slot 1, planned for 10 seconds at an intensity of 80.\<close>

definition planned_assignment :: assignment where
  "planned_assignment = assignment_new_for_profile 0 1 1 ''Fast'' 800 5 10 None None default_profile"

definition planned_app :: "json app_state" where
  "planned_app = callback_app\<lparr>ap_shared :=
     (ap_shared callback_app)\<lparr>ss_inner := the (record_assignment inner_new planned_assignment)\<rparr>\<rparr>"

lemma planned_inner:
  "record_assignment inner_new planned_assignment = Some (ss_inner (ap_shared planned_app))"
  "inner_inv (ss_inner (ap_shared planned_app))" "errors_exact (ss_inner (ap_shared planned_app))"
proof -
  obtain st where st: "record_assignment inner_new planned_assignment = Some st" "inner_inv st"
    by (rule record_assignment_step [OF inner_inv_new]) blast
  have "map_of (in_assignments inner_new) (as_request_id planned_assignment) = None" by (simp add: inner_new_def)
  then have "errors_exact st"
    using record_assignment_exact [OF inner_inv_new errors_exact_new st(1)] by simp
  with st show "record_assignment inner_new planned_assignment = Some (ss_inner (ap_shared planned_app))"
    "inner_inv (ss_inner (ap_shared planned_app))" "errors_exact (ss_inner (ap_shared planned_app))"
    by (simp_all add: planned_app_def)
qed

lemma planned_lookup:
  "map_of (in_assignments (ss_inner (ap_shared planned_app))) 1 = Some planned_assignment"
  "as_carbon_cost planned_assignment = 80 * 1 * as_flavour_duration planned_assignment"
  "as_flavour_duration planned_assignment = 10" "as_scheduled_slot planned_assignment = 1"
  "map_of (ap_tracked planned_app) 1 = Some (tracked_request_new None JNull 400 40 0 default_profile)"
  "forecast_at (ap_carbon_forecast planned_app) 1 = Some 100"
  "map_of (ap_actual_carbon_intensity planned_app) 1 = Some 50"
  using planned_inner(1) record_assignment_fresh [of inner_new planned_assignment]
  by (simp_all add: planned_assignment_def assignment_new_for_profile_def planned_app_def callback_app_def
      sample_app_def forecast_at_def inner_new_def)

lemma sample_measures:
  "measured_time sample_json sample_result = Some 20" "result_number sample_json sample_result ''actual_error_pct'' = Some 3"
  by (simp_all add: measured_time_def result_number_def sample_json_def sample_result_def)

lemma correction_needs_stable_forecast_witness:
  "fst (callback_reprice sample_json 1 sample_result planned_app) = Some 800
   \<and> fst (callback_reprice sample_json 1 sample_result planned_app) \<noteq> Some (50 * 1 * 20)"
  using correction_needs_stable_forecast [OF planned_lookup(1,2), of 100 50 sample_json sample_result 20] planned_lookup sample_measures
  by simp

lemma callback_applied_once_witness:
  "case executor_callback sample_json 1 sample_result callback_app of
     (answer, app') \<Rightarrow> executor_callback sample_json 1 (sample_result\<lparr>ec_success := False\<rparr>) app' = (Inr None, app')
       \<and> map_option tr_status (map_of (ap_tracked app') 1) = Some Completed"
proof -
  have t: "map_of (ap_tracked callback_app) 1 = Some (tracked_request_new None JNull 400 40 0 default_profile)"
    by (simp add: callback_app_def)
  obtain answer app' where run: "executor_callback sample_json 1 sample_result callback_app = (answer, app')" by fastforce
  from callback_applied_once [OF t run, of sample_json "sample_result\<lparr>ec_success := False\<rparr>" undefined]
  show ?thesis unfolding run by (simp add: tracked_request_new_def sample_result_def)
qed

lemma callback_corrects_witness:
  "case executor_callback sample_json 1 sample_result planned_app of
     (answer, app') \<Rightarrow> map_of (in_assignments (ss_inner (ap_shared app'))) 1
         = Some (planned_assignment\<lparr>as_error := 3, as_carbon_cost := 800\<rparr>)
       \<and> errors_exact (ss_inner (ap_shared app'))"
proof -
  obtain answer app' where run: "executor_callback sample_json 1 sample_result planned_app = (answer, app')" by fastforce
  have cost: "Some 800 = corrected_cost (as_carbon_cost planned_assignment)
      (carbon_intensity_ratio (as_scheduled_slot planned_assignment) planned_app)
      (time_ratio (measured_time sample_json sample_result) (as_flavour_duration planned_assignment))"
    using planned_lookup sample_measures(1)
    by (simp add: corrected_cost_def ratio_or_one_def time_ratio_def carbon_intensity_ratio_def)
  have "\<not> tr_executor_callback_received (tracked_request_new None JNull 400 40 0 default_profile)"
    by (simp add: tracked_request_new_def)
  from callback_corrects [OF planned_lookup(5) this planned_lookup(1) planned_inner(2,3) run cost, of undefined]
  show ?thesis unfolding run by (simp add: sample_measures(2))
qed

end
