(* ===== verification/Provider_Clock.thy ===== *)
theory Provider_Clock
  imports Callbacks
begin

text \<open>
  The provider's side of the manual clock (\<open>service/handlers.rs\<close>): the offset between the provider's
  slots and the engine's, \<open>advance_slot\<close> with its anchor, observation and forecast window, and the
  \<open>close_slot\<close> barrier. Each handler is split where it releases its locks and waits:
  \<open>advance_slot_enter\<close> and \<open>still_dispatching\<close>, \<open>close_slot_begin\<close> and \<open>close_slot_poll\<close>. The RFC 3339
  parser is a parameter.
\<close>

section \<open>Provider slots\<close>

definition wrap64 :: "int \<Rightarrow> int" where
  "wrap64 x = (x + 9223372036854775808) mod 18446744073709551616 - 9223372036854775808"

definition i64_sub :: "int \<Rightarrow> int \<Rightarrow> int" where
  "i64_sub a b = wrap64 (a - b)"

lemma i64_sub_exact: "- 9223372036854775808 \<le> a - b \<Longrightarrow> a - b \<le> 9223372036854775807 \<Longrightarrow> i64_sub a b = a - b"
  by (simp add: i64_sub_def wrap64_def)

record forecast_point =
  fp_slot :: int
  fp_forecast :: f64

record observed_point =
  ob_slot :: int
  ob_observed_at_slot :: int
  ob_actual :: f64

record advance_slot_body =
  av_source :: string
  av_kind :: string
  av_current_slot :: "int option"
  av_slot_start_utc :: "string option"
  av_slot_minutes :: "f64 option"
  av_observed :: "observed_point option"
  av_forecast :: "forecast_point list option"

record close_slot_body =
  cb_current_slot :: int
  cb_slot_minutes :: f64

definition slot_length_ok :: "f64 \<Rightarrow> 'v app_state \<Rightarrow> bool" where
  "slot_length_ok minutes app \<longleftrightarrow>
     f64_is_finite (minutes * 60)
     \<and> \<not> 1 / 1000000 < \<bar>minutes * 60 - ssc_effective_slot_duration_secs (ap_scheduler app)\<bar>"

text \<open>The offset learned from the first message; \<open>as i32\<close> wraps.\<close>

definition update_slot_epoch_offset :: "int \<Rightarrow> 'v app_state \<Rightarrow> int option \<times> 'v app_state" where
  "update_slot_epoch_offset slot_0 app =
     (case ap_slot_epoch_offset app of
        None \<Rightarrow>
          (let offset = wrap32 (i64_sub slot_0 (get_current_slot (ss_inner (ap_shared app))))
           in (Some offset, app\<lparr>ap_slot_epoch_offset := Some offset\<rparr>))
      | Some offset \<Rightarrow> (Some offset, app))"

definition engine_slot_of :: "int \<Rightarrow> int \<Rightarrow> slot" where
  "engine_slot_of provider_slot offset = wrap32 (i64_sub provider_slot offset)"

definition forecast_update :: "int \<Rightarrow> forecast_point \<Rightarrow> f64 list \<Rightarrow> f64 list" where
  "forecast_update offset point forecast =
     (let idx = i64_sub (fp_slot point) offset
      in if idx < 0 then forecast
         else if nat idx < length forecast then forecast[nat idx := fp_forecast point] else forecast)"

section \<open>Advancing\<close>

definition anchor_slot ::
    "(string \<Rightarrow> string + system_time) \<Rightarrow> slot \<Rightarrow> string option \<Rightarrow> 'v app_state \<Rightarrow> api_error + 'v app_state" where
  "anchor_slot parse_rfc3339 target utc app =
     (case utc of
        None \<Rightarrow> Inr app
      | Some s \<Rightarrow>
         (case parse_rfc3339 s of
            Inl e \<Rightarrow> Inl (BadRequest, BadTimestamp e)
          | Inr boundary \<Rightarrow>
             (case set_slot_time_anchor target boundary app of
                Inl e \<Rightarrow> Inl (BadRequest, BadAnchor e)
              | Inr app' \<Rightarrow> Inr app')))"

text \<open>An announcement must find the engine at the slot; any other message moves it on.\<close>

definition enter_slot :: "string \<Rightarrow> slot \<Rightarrow> 'v app_state \<Rightarrow> api_error + 'v app_state" where
  "enter_slot kind target app =
     (if kind = ''announce'' then
        (if get_current_slot (ss_inner (ap_shared app)) \<noteq> target then Inl (Conflict, AnnounceMismatch) else Inr app)
      else Inr (app\<lparr>ap_shared := snd (advance_to_next_slot (ssc_total_slots (ap_scheduler app))
                        (ssc_effective_slot_duration_secs (ap_scheduler app)) (ap_shared app))\<rparr>))"

definition record_observation :: "slot \<Rightarrow> observed_point option \<Rightarrow> 'v app_state \<Rightarrow> 'v app_state" where
  "record_observation target observed app =
     (case observed of
        None \<Rightarrow> app
      | Some ob \<Rightarrow> app\<lparr>ap_actual_carbon_intensity :=
                        hm_insert target (ob_actual ob) (ap_actual_carbon_intensity app)\<rparr>)"

definition record_forecast :: "int \<Rightarrow> forecast_point list option \<Rightarrow> 'v app_state \<Rightarrow> 'v app_state" where
  "record_forecast offset points app =
     (case points of
        None \<Rightarrow> app
      | Some ps \<Rightarrow> app\<lparr>ap_carbon_forecast := fold (forecast_update offset) ps (ap_carbon_forecast app)\<rparr>)"

text \<open>A rejected message leaves the offset, and the anchor, that it has set before.\<close>

definition advance_slot_enter ::
    "(string \<Rightarrow> string + system_time) \<Rightarrow> advance_slot_body \<Rightarrow> 'v app_state
     \<Rightarrow> (api_error + slot) \<times> 'v app_state" where
  "advance_slot_enter parse_rfc3339 body app =
     (if \<not> ssc_manual_clock (ap_scheduler app) then (Inl (Conflict, ManualClockOff), app)
      else case av_current_slot body of
        None \<Rightarrow> (Inl (Conflict, NoCurrentSlot), app)
      | Some body_current_slot \<Rightarrow>
         (if (case av_slot_minutes body of Some m \<Rightarrow> \<not> slot_length_ok m app | None \<Rightarrow> False)
          then (Inl (Conflict, SlotLengthMismatch), app)
          else
            (let (off, app1) = update_slot_epoch_offset body_current_slot app;
                 slot_epoch_offset = (case off of Some x \<Rightarrow> x | None \<Rightarrow> 0);
                 target = engine_slot_of body_current_slot slot_epoch_offset
             in case anchor_slot parse_rfc3339 target (av_slot_start_utc body) app1 of
                  Inl e \<Rightarrow> (Inl e, app1)
                | Inr app2 \<Rightarrow>
                   (case enter_slot (av_kind body) target app2 of
                      Inl e \<Rightarrow> (Inl e, app2)
                    | Inr app3 \<Rightarrow>
                       (Inr (get_current_slot (ss_inner (ap_shared app3))),
                        record_forecast slot_epoch_offset (av_forecast body)
                          (record_observation target (av_observed body) app3))))))"

text \<open>The condition on which the handler keeps waiting, for at most ten seconds.\<close>

definition still_dispatching :: "slot \<Rightarrow> 'v app_state \<Rightarrow> bool" where
  "still_dispatching curr_slot app \<longleftrightarrow>
     0 < get_pending_count (ss_inner (ap_shared app))
     \<or> list_ex (\<lambda>(i, a). as_scheduled_slot a \<le> curr_slot
         \<and> (case map_of (ap_tracked app) i of
              None \<Rightarrow> False
            | Some t \<Rightarrow> tr_status t = Pending \<or> tr_status t = Scheduled))
         (get_current_assignments (ss_inner (ap_shared app)))"

section \<open>Closing\<close>

definition close_slot_begin ::
    "close_slot_body \<Rightarrow> 'v app_state \<Rightarrow> (api_error + slot) option \<times> 'v app_state" where
  "close_slot_begin body app =
     (if \<not> ssc_manual_clock (ap_scheduler app) then (Some (Inl (Conflict, ManualClockOff)), app)
      else if \<not> slot_length_ok (cb_slot_minutes body) app then (Some (Inl (Conflict, SlotLengthMismatch)), app)
      else case ap_slot_epoch_offset app of
        None \<Rightarrow> (Some (Inl (Conflict, OffsetUnknown)), app)
      | Some offset \<Rightarrow>
         (let engine_slot = i64_sub (cb_current_slot body) offset
          in if \<not> in_i32 engine_slot then (Some (Inl (Conflict, OutsideEngineRange)), app)
             else if engine_slot < 0 \<or> ssc_total_slots (ap_scheduler app) \<le> engine_slot
             then (Some (Inl (Conflict, OutsideHorizon)), app)
             else if get_current_slot (ss_inner (ap_shared app)) \<noteq> engine_slot
             then (Some (Inl (Conflict, NotAtSlot engine_slot (get_current_slot (ss_inner (ap_shared app))))), app)
             else if ap_admission_poisoned app then (None, app)
             else if engine_slot < ap_closed_through app
             then (Some (Inl (Conflict, BehindBarrier engine_slot)), app)
             else (Some (Inr engine_slot),
                   app\<lparr>ap_closed_through := engine_slot,
                       ap_shared := request_pending_flush engine_slot (ap_shared app)\<rparr>)))"

record drain_counts =
  dr_unscheduled :: nat
  dr_due_assignment_count :: nat
  dr_dispatching :: nat
  dr_dispatch_failed :: bool
  dr_callbacks_pending :: nat
  dr_callback_count :: nat

definition terminal :: "'v tracked_request \<Rightarrow> bool" where
  "terminal t \<longleftrightarrow> tr_executor_callback_received t \<and> (tr_status t = Completed \<or> tr_status t = Failed)"

definition count_due ::
    "('v tracked_request option \<Rightarrow> bool) \<Rightarrow> (request_id \<times> assignment) list \<Rightarrow> 'v app_state \<Rightarrow> nat" where
  "count_due P due app = length (filter (\<lambda>(i, a). P (map_of (ap_tracked app) i)) due)"

definition drain_counts_of :: "slot \<Rightarrow> 'v app_state \<Rightarrow> drain_counts" where
  "drain_counts_of engine_slot app =
     (let assignments = get_current_assignments (ss_inner (ap_shared app));
          due = filter (\<lambda>(i, a). as_scheduled_slot a \<le> engine_slot) assignments
      in \<lparr>dr_unscheduled = length (filter (\<lambda>(i, t). tr_arrival_slot t \<le> engine_slot \<and> map_of assignments i = None)
            (ap_tracked app)),
          dr_due_assignment_count = length due,
          dr_dispatching = count_due (\<lambda>t. case t of None \<Rightarrow> True
            | Some t \<Rightarrow> tr_status t = Pending \<or> tr_status t = Scheduled) due app,
          dr_dispatch_failed = (0 < count_due (\<lambda>t. case t of None \<Rightarrow> False
            | Some t \<Rightarrow> tr_status t = Failed \<and> \<not> tr_executor_callback_received t) due app),
          dr_callbacks_pending =
            (if svc_executor_url (ap_service_cfg app) \<noteq> None
             then count_due (\<lambda>t. case t of None \<Rightarrow> True | Some t \<Rightarrow> \<not> terminal t) due app
             else 0),
          dr_callback_count = count_due (\<lambda>t. case t of None \<Rightarrow> False | Some t \<Rightarrow> terminal t) due app\<rparr>)"

record close_slot_response =
  cs_current_slot :: int
  cs_assignments :: nat
  cs_callbacks :: nat

text \<open>One turn of the waiting loop; \<open>None\<close> is to sleep and look again.\<close>

definition close_slot_poll ::
    "bool \<Rightarrow> close_slot_body \<Rightarrow> slot \<Rightarrow> 'v app_state \<Rightarrow> (api_error + close_slot_response) option" where
  "close_slot_poll expired body engine_slot app =
     (let d = drain_counts_of engine_slot app
      in if dr_dispatch_failed d then Some (Inl (ServiceUnavailable, DispatchFailedIn engine_slot))
         else if dr_unscheduled d = 0 \<and> dr_dispatching d = 0 \<and> dr_callbacks_pending d = 0
         then Some (Inr \<lparr>cs_current_slot = cb_current_slot body, cs_assignments = dr_due_assignment_count d,
                cs_callbacks = dr_callback_count d\<rparr>)
         else if expired
         then Some (Inl (ServiceUnavailable,
                NotDrained engine_slot (dr_unscheduled d) (dr_dispatching d) (dr_callbacks_pending d)))
         else None)"

section \<open>Alignment with the provider\<close>

text \<open>A slot of a whole number of milliseconds, and room for one more slot.\<close>

definition can_advance_slot :: "'v app_state \<Rightarrow> bool" where
  "can_advance_slot app \<longleftrightarrow>
     (let eff = ssc_effective_slot_duration_secs (ap_scheduler app);
          cur = get_current_slot (ss_inner (ap_shared app))
      in 1 / 1000 \<le> eff \<and> eff * 1000 < 2 ^ 31 \<and> real (slot_ms eff) = eff * 1000
         \<and> in_i32 (ssc_total_slots (ap_scheduler app)) \<and> 0 \<le> cur \<and> cur + 1 < ssc_total_slots (ap_scheduler app))"

lemma advance_to_next_slot_inner:
  "ss_inner (snd (advance_to_next_slot n eff ss)) = set_current_slot (fst (advance_to_next_slot n eff ss)) (ss_inner ss)"
  by (simp add: advance_to_next_slot_def with_inner_def set_virtual_elapsed_ms_def Let_def)

lemma can_advance_slotD:
  assumes "can_advance_slot app"
  shows "fst (advance_to_next_slot (ssc_total_slots (ap_scheduler app))
      (ssc_effective_slot_duration_secs (ap_scheduler app)) (ap_shared app))
    = get_current_slot (ss_inner (ap_shared app)) + 1"
proof -
  define eff where "eff = ssc_effective_slot_duration_secs (ap_scheduler app)"
  define cur where "cur = get_current_slot (ss_inner (ap_shared app))"
  define slots where "slots = ssc_total_slots (ap_scheduler app)"
  have h: "1 / 1000 \<le> eff" "eff * 1000 < 2 ^ 31" "real (slot_ms eff) = eff * 1000" "in_i32 slots" "0 \<le> cur" "cur + 1 < slots"
    using assms by (simp_all add: can_advance_slot_def Let_def eff_def cur_def slots_def)
  have c: "cur < 2147483648" "cur + 1 < 2147483648" using h(4,6) by (simp_all add: in_i32_def)
  have "real (slot_ms eff) < 2 ^ 31" using h(2,3) by simp
  then have "slot_ms eff < 2 ^ 31" by simp
  note next_ms = next_boundary_exact [OF h(5) c(1) this]
  have "real (next_boundary_ms cur (slot_ms eff)) / 1000 = real_of_int (cur + 1) * eff"
    using h(3,5) by (simp add: next_ms algebra_simps)
  moreover have "slot_at slots eff (real_of_int (cur + 1) * eff) = min (cur + 1) (slots - 1)"
    using h c by (intro slot_at_exact) (simp_all add: algebra_simps)
  ultimately show ?thesis
    using h(6) by (simp add: advance_to_next_slot_def Let_def flip: eff_def cur_def slots_def)
qed

lemma anchor_slot_sel:
  assumes "anchor_slot parse target utc app = Inr app'"
  shows "ap_shared app' = ap_shared app" and "ap_scheduler app' = ap_scheduler app"
    and "ap_slot_epoch_offset app' = ap_slot_epoch_offset app" and "ap_carbon_forecast app' = ap_carbon_forecast app"
    and "ap_actual_carbon_intensity app' = ap_actual_carbon_intensity app" and "ap_tracked app' = ap_tracked app"
    and "ap_closed_through app' = ap_closed_through app" and "ap_next_id app' = ap_next_id app"
    and "ap_admission_poisoned app' = ap_admission_poisoned app" and "ap_service_cfg app' = ap_service_cfg app"
  using assms by (auto simp: anchor_slot_def set_slot_time_anchor_def split: option.splits sum.splits)

lemma record_sel [simp]:
  "ap_shared (record_forecast off ps app) = ap_shared app"
  "ap_shared (record_observation t ob app) = ap_shared app"
  "ap_slot_epoch_offset (record_forecast off ps app) = ap_slot_epoch_offset app"
  "ap_slot_epoch_offset (record_observation t ob app) = ap_slot_epoch_offset app"
  "ap_actual_carbon_intensity (record_forecast off ps app) = ap_actual_carbon_intensity app"
  "ap_carbon_forecast (record_observation t ob app) = ap_carbon_forecast app"
  "ap_scheduler (record_forecast off ps app) = ap_scheduler app"
  "ap_scheduler (record_observation t ob app) = ap_scheduler app"
  "ap_tracked (record_forecast off ps app) = ap_tracked app"
  "ap_tracked (record_observation t ob app) = ap_tracked app"
  "ap_closed_through (record_forecast off ps app) = ap_closed_through app"
  "ap_closed_through (record_observation t ob app) = ap_closed_through app"
  "ap_next_id (record_forecast off ps app) = ap_next_id app"
  "ap_next_id (record_observation t ob app) = ap_next_id app"
  "ap_admission_poisoned (record_forecast off ps app) = ap_admission_poisoned app"
  "ap_admission_poisoned (record_observation t ob app) = ap_admission_poisoned app"
  "ap_service_cfg (record_forecast off ps app) = ap_service_cfg app"
  "ap_service_cfg (record_observation t ob app) = ap_service_cfg app"
  by (simp_all add: record_forecast_def record_observation_def split: option.split)

text \<open>What an accepted message does, with the offset it uses.\<close>

lemma advance_slot_accepted:
  assumes "advance_slot_enter parse body app = (Inr s, app')"
  obtains g off app2 app3 where "av_current_slot body = Some g" and "ssc_manual_clock (ap_scheduler app)"
    and "off = (case ap_slot_epoch_offset app of Some x \<Rightarrow> x
      | None \<Rightarrow> wrap32 (i64_sub g (get_current_slot (ss_inner (ap_shared app)))))"
    and "anchor_slot parse (engine_slot_of g off) (av_slot_start_utc body) (app\<lparr>ap_slot_epoch_offset := Some off\<rparr>) = Inr app2"
    and "enter_slot (av_kind body) (engine_slot_of g off) app2 = Inr app3"
    and "s = get_current_slot (ss_inner (ap_shared app3))"
    and "app' = record_forecast off (av_forecast body) (record_observation (engine_slot_of g off) (av_observed body) app3)"
proof -
  obtain g where g: "av_current_slot body = Some g"
    and ok: "ssc_manual_clock (ap_scheduler app)"
      "\<not> (case av_slot_minutes body of Some m \<Rightarrow> \<not> slot_length_ok m app | None \<Rightarrow> False)"
    using assms by (auto simp: advance_slot_enter_def split: if_splits option.splits)
  let ?off = "case ap_slot_epoch_offset app of Some x \<Rightarrow> x
      | None \<Rightarrow> wrap32 (i64_sub g (get_current_slot (ss_inner (ap_shared app))))"
  have upd: "update_slot_epoch_offset g app = (Some ?off, app\<lparr>ap_slot_epoch_offset := Some ?off\<rparr>)"
    by (cases "ap_slot_epoch_offset app") (simp_all add: update_slot_epoch_offset_def Let_def)
  from assms g ok upd obtain app2 where app2: "anchor_slot parse (engine_slot_of g ?off) (av_slot_start_utc body)
      (app\<lparr>ap_slot_epoch_offset := Some ?off\<rparr>) = Inr app2"
    by (auto simp: advance_slot_enter_def Let_def split: sum.splits)
  with assms g ok upd obtain app3 where app3: "enter_slot (av_kind body) (engine_slot_of g ?off) app2 = Inr app3"
    by (auto simp: advance_slot_enter_def Let_def split: sum.splits)
  show thesis
    using assms g ok upd app2 app3
    by (intro that [OF g ok(1) refl app2 app3]) (simp_all add: advance_slot_enter_def Let_def)
qed

lemma engine_slot_inverse:
  assumes "engine_slot_of g off = cur" and "in_i32 off" and "0 \<le> g" and "g < 2147483647" and "0 \<le> cur" and "cur < 2147483647"
  shows "off = g - cur"
proof -
  have exact: "i64_sub g off = g - off" using assms(2-4) by (intro i64_sub_exact) (simp_all add: in_i32_def)
  have "(g - off + 2147483648) mod 4294967296 = cur + 2147483648"
    using assms(1) by (simp add: engine_slot_of_def exact wrap32_def)
  also have "\<dots> = (cur + 2147483648) mod 4294967296" using assms(5,6) by simp
  finally have "4294967296 dvd g - off - cur" by (simp add: mod_eq_dvd_iff)
  then obtain k where k: "g - off - cur = 4294967296 * k" by (rule dvdE)
  moreover have "- 4294967296 < g - off - cur" "g - off - cur < 4294967296"
    using assms(2-6) by (simp_all add: in_i32_def)
  ultimately have "k = 0" by simp
  with k show ?thesis by simp
qed

text \<open>
  The provider's numbering stays attached. Suppose the engine is at its slot \<open>cur\<close> and the
  provider sends an accepted message for its slot \<open>g\<close>. An announcement leaves the clock alone and
  fixes, or confirms, the offset \<open>g - cur\<close>; any other message moves the engine to \<open>cur + 1\<close>, and once
  the offset is known it never changes. With slots of whole milliseconds an engine that stood at the
  provider's slot therefore stands at it after the message for the next one, and files the
  observation there. A first message that is not an announcement attaches the numbering one slot
  behind: the engine is at \<open>cur + 1\<close>, the observation is filed under \<open>cur\<close>.
\<close>

theorem provider_numbering_attached:
  assumes "advance_slot_enter parse body app = (Inr s, app')" and "av_current_slot body = Some g"
    and "cur = get_current_slot (ss_inner (ap_shared app))" and "can_advance_slot app"
    and "0 \<le> g" and "g < 2147483647" and "av_observed body = Some ob"
    and "pred_option in_i32 (ap_slot_epoch_offset app)"
  shows "s = get_current_slot (ss_inner (ap_shared app'))
    \<and> (av_kind body = ''announce'' \<longrightarrow> s = cur \<and> ap_slot_epoch_offset app' = Some (g - cur))
    \<and> (av_kind body \<noteq> ''announce'' \<longrightarrow> s = cur + 1)
    \<and> (\<forall>off. ap_slot_epoch_offset app = Some off \<longrightarrow> ap_slot_epoch_offset app' = Some off)
    \<and> (av_kind body \<noteq> ''announce'' \<and> ap_slot_epoch_offset app = Some (g - 1 - cur)
         \<longrightarrow> ap_slot_epoch_offset app' = Some (g - s) \<and> map_of (ap_actual_carbon_intensity app') s = Some (ob_actual ob))
    \<and> (av_kind body \<noteq> ''announce'' \<and> ap_slot_epoch_offset app = None
         \<longrightarrow> ap_slot_epoch_offset app' = Some (g - (s - 1))
           \<and> map_of (ap_actual_carbon_intensity app') (s - 1) = Some (ob_actual ob)
           \<and> map_of (ap_actual_carbon_intensity app') s = map_of (ap_actual_carbon_intensity app) s)"
proof -
  obtain g' off app2 app3 where g': "av_current_slot body = Some g'"
    and off: "off = (case ap_slot_epoch_offset app of Some x \<Rightarrow> x | None \<Rightarrow> wrap32 (i64_sub g' cur))"
    and app2: "anchor_slot parse (engine_slot_of g' off) (av_slot_start_utc body) (app\<lparr>ap_slot_epoch_offset := Some off\<rparr>) = Inr app2"
    and app3: "enter_slot (av_kind body) (engine_slot_of g' off) app2 = Inr app3"
    and s: "s = get_current_slot (ss_inner (ap_shared app3))"
    and app': "app' = record_forecast off (av_forecast body) (record_observation (engine_slot_of g' off) (av_observed body) app3)"
    by (rule advance_slot_accepted [OF assms(1), folded assms(3)], rule that, assumption+)
  have g: "g' = g" using g' assms(2) by simp
  have cur: "0 \<le> cur" "cur + 1 < 2147483647"
    using assms(4) by (auto simp: can_advance_slot_def Let_def in_i32_def simp flip: assms(3))
  have first: "wrap32 (i64_sub g cur) = g - cur"
    using assms(5,6) cur by (simp add: i64_sub_exact wrap32_id in_i32_def)
  note sel2 = anchor_slot_sel [OF app2]
  have adv: "can_advance_slot app2" "get_current_slot (ss_inner (ap_shared app2)) = cur"
    using assms(3,4) by (simp_all add: can_advance_slot_def sel2)
  have entered: "if av_kind body = ''announce'' then app3 = app2 \<and> engine_slot_of g off = cur \<and> s = cur else s = cur + 1"
    using app3 s adv can_advance_slotD [OF adv(1)]
    by (auto simp: enter_slot_def g advance_to_next_slot_inner get_current_slot_def set_current_slot_def split: if_splits)
  have kept: "ap_slot_epoch_offset app3 = Some off" "ap_actual_carbon_intensity app3 = ap_actual_carbon_intensity app"
    using app3 sel2(3,5) by (auto simp: enter_slot_def split: if_splits)
  have slot_now: "s = get_current_slot (ss_inner (ap_shared app'))" by (simp add: s app')
  have offset': "ap_slot_epoch_offset app' = Some off" by (simp add: app' kept(1))
  have observed: "ap_actual_carbon_intensity app' = hm_insert (engine_slot_of g off) (ob_actual ob) (ap_actual_carbon_intensity app)"
    by (simp add: app' kept(2) record_observation_def assms(7) g)
  have exact: "engine_slot_of g (g - k) = k" if "0 \<le> k" "k < 2147483647" for k
    using that by (simp add: engine_slot_of_def i64_sub_exact wrap32_id in_i32_def)
  have off32: "in_i32 off" using off assms(8) wrap32_in_range by (simp split: option.splits)
  have announced: "off = g - cur" if "av_kind body = ''announce''"
    using that entered cur engine_slot_inverse [OF _ off32 assms(5,6) cur(1)] by simp
  have known: "off = x" if "ap_slot_epoch_offset app = Some x" for x using off that by simp
  have next_one: "map_of (ap_actual_carbon_intensity app') s = Some (ob_actual ob)"
    if "av_kind body \<noteq> ''announce''" "ap_slot_epoch_offset app = Some (g - 1 - cur)"
  proof -
    have "off = g - (cur + 1)" using known [OF that(2)] by simp
    then have "engine_slot_of g off = s" using exact [of "cur + 1"] that(1) entered cur by simp
    then show ?thesis by (simp add: observed map_simps)
  qed
  have behind: "map_of (ap_actual_carbon_intensity app') cur = Some (ob_actual ob)"
      "map_of (ap_actual_carbon_intensity app') (cur + 1) = map_of (ap_actual_carbon_intensity app) (cur + 1)"
    if "ap_slot_epoch_offset app = None"
    using that off first exact [of cur] cur by (simp_all add: observed map_simps g)
  show ?thesis
  proof (cases "av_kind body = ''announce''")
    case True
    with entered announced slot_now offset' known show ?thesis by simp
  next
    case False
    with entered have s1: "s = cur + 1" by simp
    have unknown: "off = g - cur" if "ap_slot_epoch_offset app = None" using that off first by (simp add: g)
    show ?thesis using False s1 slot_now offset' known next_one behind unknown by auto
  qed
qed

definition sample_announce :: advance_slot_body where
  "sample_announce = \<lparr>av_source = ''provider'', av_kind = ''announce'', av_current_slot = Some 5000,
     av_slot_start_utc = None, av_slot_minutes = Some 1,
     av_observed = Some \<lparr>ob_slot = 5000, ob_observed_at_slot = 5000, ob_actual = 90\<rparr>,
     av_forecast = Some [\<lparr>fp_slot = 5001, fp_forecast = 70\<rparr>]\<rparr>"

lemma sample_can_advance: "can_advance_slot (sample_app :: 'v app_state)"
proof -
  have "slot_ms 60 = 60000" by (simp add: slot_ms_def f64_as_u64_def f64_trunc_def)
  then show ?thesis
    by (simp add: can_advance_slot_def sample_app_def get_current_slot_def shared_state_new_def inner_new_def in_i32_def)
qed

lemma sample_enter:
  "\<exists>app'. advance_slot_enter parse sample_announce (sample_app :: 'v app_state) = (Inr 0, app')"
  by (simp add: advance_slot_enter_def sample_announce_def update_slot_epoch_offset_def slot_length_ok_def
      anchor_slot_def enter_slot_def engine_slot_of_def f64_is_finite_def Let_def i64_sub_def wrap64_def wrap32_def
      sample_app_def get_current_slot_def shared_state_new_def inner_new_def)

lemma provider_numbering_attached_witness:
  "case advance_slot_enter (\<lambda>_. Inl []) sample_announce (sample_app :: 'v app_state) of
     (answer, app') \<Rightarrow> answer = Inr 0 \<and> ap_slot_epoch_offset app' = Some 5000"
proof -
  obtain app' where run: "advance_slot_enter (\<lambda>_. Inl []) sample_announce (sample_app :: 'v app_state) = (Inr 0, app')"
    using sample_enter by blast
  have cur: "0 = get_current_slot (ss_inner (ap_shared (sample_app :: 'v app_state)))"
    "pred_option in_i32 (ap_slot_epoch_offset (sample_app :: 'v app_state))"
    by (simp_all add: sample_app_def get_current_slot_def shared_state_new_def inner_new_def)
  have body: "av_current_slot sample_announce = Some 5000"
    "av_observed sample_announce = Some \<lparr>ob_slot = 5000, ob_observed_at_slot = 5000, ob_actual = 90\<rparr>"
    "av_kind sample_announce = ''announce''"
    by (simp_all add: sample_announce_def)
  show ?thesis
    using provider_numbering_attached [OF run body(1) cur(1) sample_can_advance _ _ body(2) cur(2)]
    by (simp add: run body(3))
qed

section \<open>The forecast window\<close>

lemma forecast_update_length [simp]: "length (forecast_update off p f) = length f"
  by (simp add: forecast_update_def Let_def)

lemma fold_forecast_length [simp]: "length (fold (forecast_update off) ps f) = length f"
  by (induction ps arbitrary: f) simp_all

lemma forecast_update_at:
  assumes "i64_sub (fp_slot p) off = fp_slot p - off"
  shows "forecast_at (forecast_update off p f) k =
    (if k = fp_slot p - off \<and> forecast_at f k \<noteq> None then Some (fp_forecast p) else forecast_at f k)"
  by (auto simp: forecast_at_def forecast_update_def assms Let_def nth_list_update eq_nat_nat_iff)

lemma fold_forecast_at:
  assumes "distinct (map fp_slot ps)" and "in_i32 off" and "list_all (\<lambda>p. \<bar>fp_slot p\<bar> \<le> 2 ^ 62) ps"
  shows "forecast_at (fold (forecast_update off) ps f) k =
        (case find (\<lambda>p. fp_slot p = k + off) ps of
           Some p \<Rightarrow> if forecast_at f k \<noteq> None then Some (fp_forecast p) else None
         | None \<Rightarrow> forecast_at f k)"
  using assms(1,3)
proof (induction ps arbitrary: f)
  case (Cons p ps)
  have exact: "i64_sub (fp_slot p) off = fp_slot p - off"
    using Cons.prems(2) assms(2) by (intro i64_sub_exact) (auto simp: in_i32_def abs_le_iff)
  have one: "forecast_at (forecast_update off p f) k =
      (if k = fp_slot p - off \<and> forecast_at f k \<noteq> None then Some (fp_forecast p) else forecast_at f k)"
    by (rule forecast_update_at [OF exact])
  have ih: "forecast_at (fold (forecast_update off) ps (forecast_update off p f)) k =
      (case find (\<lambda>p. fp_slot p = k + off) ps of
         Some q \<Rightarrow> if forecast_at (forecast_update off p f) k \<noteq> None then Some (fp_forecast q) else None
       | None \<Rightarrow> forecast_at (forecast_update off p f) k)"
    using Cons.IH [of "forecast_update off p f"] Cons.prems by simp
  show ?case
  proof (cases "fp_slot p = k + off")
    case True
    then have "find (\<lambda>p. fp_slot p = k + off) ps = None"
      using Cons.prems(1) by (force simp: find_None_iff)
    with True ih one show ?thesis by auto
  next
    case False
    then have "forecast_at (forecast_update off p f) k = forecast_at f k" using one by auto
    with False ih show ?thesis by (cases "find (\<lambda>p. fp_slot p = k + off) ps") simp_all
  qed
qed simp

text \<open>
  The forecast window lands on the engine's slots. For a message whose points are of distinct
  provider slots, the forecast of an engine slot inside the horizon becomes the point of the provider
  slot that corresponds to it under the offset, if there is one, and stays as it was otherwise;
  points before or beyond the horizon change nothing and the horizon keeps its length.
\<close>

theorem forecast_window_recorded:
  assumes "distinct (map fp_slot ps)" and "in_i32 off"
    and "list_all (\<lambda>p. \<bar>fp_slot p\<bar> \<le> 2 ^ 62) ps"
  shows "length (ap_carbon_forecast (record_forecast off (Some ps) app)) = length (ap_carbon_forecast app)
    \<and> forecast_at (ap_carbon_forecast (record_forecast off (Some ps) app)) k =
        (case find (\<lambda>p. fp_slot p = k + off) ps of
           Some p \<Rightarrow> if forecast_at (ap_carbon_forecast app) k \<noteq> None then Some (fp_forecast p) else None
         | None \<Rightarrow> forecast_at (ap_carbon_forecast app) k)"
  using fold_forecast_at [OF assms] by (simp add: record_forecast_def)

lemma forecast_window_recorded_witness:
  "forecast_at (ap_carbon_forecast (record_forecast 5000
      (Some [\<lparr>fp_slot = 5001, fp_forecast = 70\<rparr>, \<lparr>fp_slot = 4990, fp_forecast = 1\<rparr>]) (sample_app :: 'v app_state))) 1 = Some 70"
proof -
  have "forecast_at (ap_carbon_forecast (sample_app :: 'v app_state)) 1 = Some 100"
    by (simp add: sample_app_def forecast_at_def)
  then show ?thesis
    using forecast_window_recorded [of "[\<lparr>fp_slot = 5001, fp_forecast = 70\<rparr>, \<lparr>fp_slot = 4990, fp_forecast = 1\<rparr>]" 5000
        "sample_app :: 'v app_state" 1]
    by (simp add: in_i32_def)
qed

section \<open>The close-slot barrier\<close>

lemma count_due_zero:
  assumes "hm_wf as"
  shows "count_due P (filter (\<lambda>(i, a). as_scheduled_slot a \<le> s) as) app = 0 \<longleftrightarrow>
    (\<forall>i a. map_of as i = Some a \<and> as_scheduled_slot a \<le> s \<longrightarrow> \<not> P (map_of (ap_tracked app) i))"
  using assms by (auto simp: count_due_def filter_empty_conv simp flip: hm_binding_iff)

lemma case_option_quant:
  "(case x of None \<Rightarrow> False | Some t \<Rightarrow> P t) \<longleftrightarrow> (\<exists>t. x = Some t \<and> P t)"
  "(case x of None \<Rightarrow> True | Some t \<Rightarrow> P t) \<longleftrightarrow> \<not> (\<exists>t. x = Some t \<and> \<not> P t)"
  by (cases x; simp)+

text \<open>What must hold of a request for the slot to be drained.\<close>

definition slot_drained :: "slot \<Rightarrow> 'v app_state \<Rightarrow> bool" where
  "slot_drained s app \<longleftrightarrow>
     (\<forall>i t. map_of (ap_tracked app) i = Some t \<and> tr_arrival_slot t \<le> s
        \<longrightarrow> map_of (in_assignments (ss_inner (ap_shared app))) i \<noteq> None)
     \<and> (\<forall>i a. map_of (in_assignments (ss_inner (ap_shared app))) i = Some a \<and> as_scheduled_slot a \<le> s
        \<longrightarrow> (\<exists>t. map_of (ap_tracked app) i = Some t
             \<and> (terminal t \<or> svc_executor_url (ap_service_cfg app) = None \<and> (tr_status t = Dispatched \<or> tr_status t = Completed))))"

text \<open>
  C17: What closing a slot acknowledges. The barrier answers success exactly when every tracked
  request that arrived by the slot is assigned, and every assignment due by the slot is of a tracked
  request that has been sent and, with an executor configured, has called back and is completed or
  failed. A request that failed before it could be sent makes it answer an error at once; otherwise
  it waits until the time is up, and it never answers success on the clock alone.
\<close>

theorem close_slot_acknowledges_iff:
  assumes "hm_wf (in_assignments (ss_inner (ap_shared app)))" and "hm_wf (ap_tracked app)"
  shows "((\<exists>r. close_slot_poll expired body s app = Some (Inr r)) \<longleftrightarrow> slot_drained s app)
    \<and> (close_slot_poll expired body s app = None \<longrightarrow> \<not> expired)
    \<and> (close_slot_poll expired body s app = Some (Inl (ServiceUnavailable, DispatchFailedIn s)) \<longleftrightarrow>
        (\<exists>i a t. map_of (in_assignments (ss_inner (ap_shared app))) i = Some a \<and> as_scheduled_slot a \<le> s
           \<and> map_of (ap_tracked app) i = Some t \<and> tr_status t = Failed \<and> \<not> tr_executor_callback_received t))"
proof -
  let ?as = "in_assignments (ss_inner (ap_shared app))"
  let ?d = "drain_counts_of s app"
  note zero = count_due_zero [OF assms(1)] and counts = drain_counts_of_def get_current_assignments_def Let_def
  have unscheduled: "dr_unscheduled ?d = 0 \<longleftrightarrow>
      (\<forall>i t. map_of (ap_tracked app) i = Some t \<and> tr_arrival_slot t \<le> s \<longrightarrow> map_of ?as i \<noteq> None)"
    using assms(2)
    by (auto simp: drain_counts_of_def get_current_assignments_def Let_def filter_empty_conv simp flip: hm_binding_iff)
  have failed: "dr_dispatch_failed ?d \<longleftrightarrow> (\<exists>i a t. map_of ?as i = Some a \<and> as_scheduled_slot a \<le> s
           \<and> map_of (ap_tracked app) i = Some t \<and> tr_status t = Failed \<and> \<not> tr_executor_callback_received t)"
    by (simp add: counts neq0_conv [symmetric] zero case_option_quant del: neq0_conv) blast
  have dispatching: "dr_dispatching ?d = 0 \<longleftrightarrow> (\<forall>i a. map_of ?as i = Some a \<and> as_scheduled_slot a \<le> s \<longrightarrow>
      (\<exists>t. map_of (ap_tracked app) i = Some t \<and> tr_status t \<noteq> Pending \<and> tr_status t \<noteq> Scheduled))"
    by (simp add: counts zero case_option_quant)
  have callbacks: "dr_callbacks_pending ?d = 0 \<longleftrightarrow> svc_executor_url (ap_service_cfg app) = None
      \<or> (\<forall>i a. map_of ?as i = Some a \<and> as_scheduled_slot a \<le> s \<longrightarrow> (\<exists>t. map_of (ap_tracked app) i = Some t \<and> terminal t))"
    by (cases "svc_executor_url (ap_service_cfg app)") (simp_all add: counts zero case_option_quant)
  have iff: "terminal t \<or> svc_executor_url (ap_service_cfg app) = None \<and> (tr_status t = Dispatched \<or> tr_status t = Completed)
      \<longleftrightarrow> \<not> (tr_status t = Failed \<and> \<not> tr_executor_callback_received t)
        \<and> (tr_status t \<noteq> Pending \<and> tr_status t \<noteq> Scheduled)
        \<and> (svc_executor_url (ap_service_cfg app) = None \<or> terminal t)" for t :: "'a tracked_request"
    by (cases "tr_status t") (auto simp: terminal_def)
  have drained: "\<not> dr_dispatch_failed ?d \<and> dr_unscheduled ?d = 0 \<and> dr_dispatching ?d = 0 \<and> dr_callbacks_pending ?d = 0
      \<longleftrightarrow> slot_drained s app"
    unfolding unscheduled failed dispatching callbacks slot_drained_def iff by (intro iffI conjI) fastforce+
  show ?thesis
    unfolding drained [symmetric] failed [symmetric] by (simp add: close_slot_poll_def Let_def)
qed

text \<open>A slot with one request, executed and called back, and one request still waiting.\<close>

definition closing_app :: "request_status \<Rightarrow> json app_state" where
  "closing_app st = planned_app\<lparr>ap_tracked :=
     [(1, (tracked_request_new None JNull 400 40 0 default_profile)\<lparr>tr_status := st,
            tr_executor_callback_received := st = Completed\<rparr>)]\<rparr>"

lemma closing_lookup:
  "map_of (in_assignments (ss_inner (ap_shared (closing_app st)))) =
     (map_of [])(1 \<mapsto> planned_assignment)"
  "hm_wf (in_assignments (ss_inner (ap_shared (closing_app st))))" "hm_wf (ap_tracked (closing_app st))"
proof -
  have "in_assignments (ss_inner (ap_shared planned_app)) = [(1, planned_assignment)]"
    using planned_inner(1) record_assignment_fresh [of inner_new planned_assignment]
    by (simp add: planned_assignment_def assignment_new_for_profile_def inner_new_def)
  then show "map_of (in_assignments (ss_inner (ap_shared (closing_app st)))) = (map_of [])(1 \<mapsto> planned_assignment)"
    "hm_wf (in_assignments (ss_inner (ap_shared (closing_app st))))" "hm_wf (ap_tracked (closing_app st))"
    by (simp_all add: closing_app_def hm_wf_def)
qed

lemma close_slot_acknowledges_iff_witness:
  "(\<exists>r. close_slot_poll False \<lparr>cb_current_slot = 1, cb_slot_minutes = 1\<rparr> 1 (closing_app Completed) = Some (Inr r))
   \<and> \<not> (\<exists>r. close_slot_poll True \<lparr>cb_current_slot = 1, cb_slot_minutes = 1\<rparr> 1 (closing_app Dispatched) = Some (Inr r))"
proof -
  have slot: "as_scheduled_slot planned_assignment = 1" by (simp add: planned_lookup)
  have "slot_drained 1 (closing_app Completed)"
    unfolding slot_drained_def closing_lookup
    by (auto simp: closing_app_def terminal_def tracked_request_new_def split: if_splits)
  moreover have "svc_executor_url (ap_service_cfg (closing_app Dispatched)) \<noteq> None"
    by (simp add: closing_app_def planned_app_def callback_app_def sample_app_def sample_service_config_def)
  then have "\<not> slot_drained 1 (closing_app Dispatched)"
    unfolding slot_drained_def closing_lookup using slot by (auto simp: closing_app_def terminal_def)
  ultimately show ?thesis
    using close_slot_acknowledges_iff [OF closing_lookup(2,3), of False "\<lparr>cb_current_slot = 1, cb_slot_minutes = 1\<rparr>" 1 Completed]
      close_slot_acknowledges_iff [OF closing_lookup(2,3), of True "\<lparr>cb_current_slot = 1, cb_slot_minutes = 1\<rparr>" 1 Dispatched] by blast
qed

text \<open>The fence: what \<open>close_slot_begin\<close> records, and how admission respects it.\<close>

lemma close_slot_begin_accepted:
  assumes "close_slot_begin body app = (Some (Inr s), app')"
  shows "app' = app\<lparr>ap_closed_through := s, ap_shared := request_pending_flush s (ap_shared app)\<rparr>"
    and "s = get_current_slot (ss_inner (ap_shared app))" and "ap_closed_through app \<le> s"
    and "ssc_manual_clock (ap_scheduler app)" and "0 \<le> s" and "s < ssc_total_slots (ap_scheduler app)"
  using assms by (auto simp: close_slot_begin_def Let_def split: if_splits option.splits)

lemma close_slot_begin_rejected:
  assumes "close_slot_begin body app = (r, app')" and "\<And>s. r \<noteq> Some (Inr s)"
  shows "app' = app"
  using assms by (auto simp: close_slot_begin_def Let_def split: if_splits option.splits)

lemma admission_fenced:
  assumes "ssc_manual_clock (ap_scheduler app)" and "pr_arrival_slot p \<le> ap_closed_through app"
  shows "snd (admit_request J now p app) = app"
    and "fst (admit_request J now p app) \<noteq> Some (Inr x)"
  using assms by (auto simp: admit_request_def)

end
