(* ===== verification/Admin.thy ===== *)
theory Admin
  imports Submission
begin

text \<open>
  Administration of policies (\<open>service/handlers.rs\<close>): the replacement of the capacity ladder, the
  registration and listing of QoS profiles, and the planning horizon with its readiness probe.
\<close>

section \<open>The capacity ladder\<close>

text \<open>
  The checks of the loop over the tiers, in its order: the index is zero on the first tier and the
  last one when no tier follows.
\<close>

fun check_tiers :: "bool \<Rightarrow> int option \<Rightarrow> f64 option \<Rightarrow> capacity_tier list \<Rightarrow> api_message option" where
  "check_tiers first previous_max previous_multiplier [] = None"
| "check_tiers first previous_max previous_multiplier (t # ts) =
     (if \<not> f64_is_finite (ct_multiplier t) \<or> ct_multiplier t \<le> 0 then Some MultiplierNotPositive
      else if first \<and> ct_multiplier t \<noteq> 1 then Some FirstNotBaseline
      else if (case previous_multiplier of Some p \<Rightarrow> ct_multiplier t < p | None \<Rightarrow> False)
      then Some MultiplierDecreases
      else case ct_max_requests t of
        Some max_requests \<Rightarrow>
          (if max_requests \<le> 0 then Some BoundNotPositive
           else if ts = [] then Some LastNotOverflow
           else if (case previous_max of Some p \<Rightarrow> max_requests \<le> p | None \<Rightarrow> False)
           then Some BoundsNotIncreasing
           else check_tiers False (Some max_requests) (Some (ct_multiplier t)) ts)
      | None \<Rightarrow>
          (if ts \<noteq> [] then Some OverflowNotLast
           else check_tiers False previous_max (Some (ct_multiplier t)) ts))"

definition force_set_capacity_tiers ::
    "capacity_tier list \<Rightarrow> 'v app_state \<Rightarrow> (api_error + unit) \<times> 'v app_state" where
  "force_set_capacity_tiers tiers app =
     (if tiers = [] then (Inl (BadRequest, TiersEmpty), app)
      else case check_tiers True None None tiers of
        Some e \<Rightarrow> (Inl (BadRequest, e), app)
      | None \<Rightarrow> (Inr (), app\<lparr>ap_shared := replace_capacity_tiers tiers (ap_shared app)\<rparr>))"

lemma check_tiers_later:
  assumes "ts \<noteq> []" and "1 \<le> m" and "case pm of None \<Rightarrow> lo = 0 | Some p \<Rightarrow> lo = p \<and> 0 \<le> p"
  shows "check_tiers False pm (Some m) ts = None \<longleftrightarrow> ladder_from lo m ts"
  using assms
proof (induction ts arbitrary: pm m lo)
  case (Cons t ts)
  show ?case
  proof (cases "ct_max_requests t")
    case None
    then show ?thesis using Cons.prems by (cases ts) (auto simp: f64_is_finite_def)
  next
    case (Some mx)
    show ?thesis
    proof (cases ts)
      case Nil
      with Some show ?thesis by simp
    next
      case (Cons t' ts')
      have "check_tiers False (Some mx) (Some (ct_multiplier t)) ts = None \<longleftrightarrow> ladder_from mx (ct_multiplier t) ts"
        if "m \<le> ct_multiplier t" "0 < mx"
        using Cons that Cons.prems(2) by (intro Cons.IH) auto
      with Some Cons Cons.prems show ?thesis
        by (cases pm) (auto simp: f64_is_finite_def)
    qed
  qed
qed simp

lemma check_tiers_iff:
  assumes "tiers \<noteq> []"
  shows "check_tiers True None None tiers = None \<longleftrightarrow> valid_ladder tiers"
proof (cases tiers)
  case (Cons t ts)
  show ?thesis
  proof (cases "ts = []")
    case True
    with Cons show ?thesis by (auto simp: valid_ladder_def f64_is_finite_def split: option.split)
  next
    case False
    then obtain t' ts' where ts: "ts = t' # ts'" by (cases ts) auto
    show ?thesis
    proof (cases "ct_max_requests t")
      case None
      with Cons ts show ?thesis by (simp add: valid_ladder_def)
    next
      case (Some mx)
      have "check_tiers False (Some mx) (Some 1) ts = None \<longleftrightarrow> ladder_from mx 1 ts" if "0 < mx"
        using False that by (intro check_tiers_later) simp_all
      with Cons ts Some show ?thesis by (auto simp: valid_ladder_def f64_is_finite_def)
    qed
  qed
qed (use assms in simp)

text \<open>
  C33: The endpoint accepts exactly the well-formed ladders. A ladder is installed if and only if
  its finite bounds are positive and strictly increasing, its multipliers start at 1 and never
  decrease, and its last tier and no other is unbounded; a rejected one changes nothing. After an
  acceptance the multiplier of a slot is at least 1 and never falls as the slot fills up.
\<close>

theorem capacity_tiers_accepted_iff:
  assumes "force_set_capacity_tiers tiers app = (answer, app')"
  shows "(answer = Inr () \<longleftrightarrow> valid_ladder tiers)
    \<and> (answer = Inr () \<longrightarrow> capacity_tiers_snapshot (ap_shared app') = tiers
         \<and> capacity_tier_revision (ap_shared app') = capacity_tier_revision (ap_shared app) + 1
         \<and> ss_inner (ap_shared app') = ss_inner (ap_shared app)
         \<and> (\<forall>m n. m \<le> n \<longrightarrow> 1 \<le> get_capacity_multiplier (capacity_tiers_snapshot (ap_shared app')) m
              \<and> get_capacity_multiplier (capacity_tiers_snapshot (ap_shared app')) m
                \<le> get_capacity_multiplier (capacity_tiers_snapshot (ap_shared app')) n))
    \<and> (answer \<noteq> Inr () \<longrightarrow> app' = app)"
proof (cases "tiers = []")
  case True
  with assms show ?thesis by (auto simp: force_set_capacity_tiers_def valid_ladder_def)
next
  case False
  have app': "answer = Inr () \<longrightarrow> app' = app\<lparr>ap_shared := replace_capacity_tiers tiers (ap_shared app)\<rparr>"
    and same: "answer \<noteq> Inr () \<longrightarrow> app' = app"
    and iff: "answer = Inr () \<longleftrightarrow> valid_ladder tiers"
    using assms False check_tiers_iff [OF False] by (auto simp: force_set_capacity_tiers_def split: option.splits)
  have "1 \<le> get_capacity_multiplier tiers m \<and> get_capacity_multiplier tiers m \<le> get_capacity_multiplier tiers n"
    if "valid_ladder tiers" "m \<le> n" for m n
    using that tiers.valid_ladder_mono tiers.valid_ladder_ge_1 by blast
  with app' same iff show ?thesis
    by (auto simp: replace_capacity_tiers_def capacity_tiers_snapshot_def capacity_tier_revision_def)
qed

lemma capacity_tiers_accepted_iff_witness:
  "fst (force_set_capacity_tiers [\<lparr>ct_max_requests = Some 100, ct_multiplier = 1\<rparr>,
      \<lparr>ct_max_requests = None, ct_multiplier = 5\<rparr>] (sample_app :: 'v app_state)) = Inr ()
   \<and> fst (force_set_capacity_tiers [\<lparr>ct_max_requests = Some 100, ct_multiplier = 2\<rparr>,
      \<lparr>ct_max_requests = None, ct_multiplier = 5\<rparr>] (sample_app :: 'v app_state)) \<noteq> Inr ()"
  using capacity_tiers_accepted_iff [OF surjective_pairing, of "[\<lparr>ct_max_requests = Some 100, ct_multiplier = 1\<rparr>,
      \<lparr>ct_max_requests = None, ct_multiplier = 5\<rparr>]" "sample_app :: 'v app_state"]
    capacity_tiers_accepted_iff [OF surjective_pairing, of "[\<lparr>ct_max_requests = Some 100, ct_multiplier = 2\<rparr>,
      \<lparr>ct_max_requests = None, ct_multiplier = 5\<rparr>]" "sample_app :: 'v app_state"]
  by (simp add: valid_ladder_def)

section \<open>Profiles\<close>

record register_qos_profile_payload =
  rp_profile_id :: string
  rp_task_kind :: string
  rp_flavours :: "flavour list"
  rp_error_semantics :: string
  rp_max_error_threshold :: f64
  rp_error_window :: error_window_policy
  rp_cumulative_error :: cumulative_error_policy

definition register_qos_profile ::
    "register_qos_profile_payload \<Rightarrow> 'v app_state \<Rightarrow> (api_error + unit) \<times> 'v app_state" where
  "register_qos_profile body app =
     (case profile_id_parse (rp_profile_id body) of
        Inl e \<Rightarrow> (Inl (BadRequest, InvalidIdentifier e), app)
      | Inr pid \<Rightarrow>
         (case task_kind_parse (rp_task_kind body) of
            Inl e \<Rightarrow> (Inl (BadRequest, InvalidIdentifier e), app)
          | Inr kind \<Rightarrow>
             (let profile = \<lparr>qp_profile_id = pid, qp_task_kind = kind, qp_flavours = rp_flavours body,
                    qp_error_semantics = rp_error_semantics body,
                    qp_max_error_threshold = rp_max_error_threshold body,
                    qp_error_window = rp_error_window body, qp_cumulative_error = rp_cumulative_error body\<rparr>
              in case registry_register profile (ap_profiles app) of
                   (Inr _, reg) \<Rightarrow> (Inr (), app\<lparr>ap_profiles := reg\<rparr>)
                 | (Inl (ProfileConflict p), reg) \<Rightarrow> (Inl (Conflict, RejectedProfile (ProfileConflict p)), app)
                 | (Inl e, reg) \<Rightarrow> (Inl (BadRequest, RejectedProfile e), app))))"

definition profile_active :: "'v app_state \<Rightarrow> qos_profile_id \<Rightarrow> bool" where
  "profile_active app pid \<longleftrightarrow>
     list_ex (\<lambda>a. as_qos_profile_id a = pid) (hm_values (get_current_assignments (ss_inner (ap_shared app))))"

definition list_qos_profiles :: "bool \<Rightarrow> 'v app_state \<Rightarrow> (qos_profile \<times> bool) list" where
  "list_qos_profiles include_inactive app =
     filter (\<lambda>(p, active). active \<or> include_inactive)
       (map (\<lambda>p. (p, profile_active app (qp_profile_id p))) (registry_list (ap_profiles app)))"

definition get_qos_profile :: "string \<Rightarrow> 'v app_state \<Rightarrow> api_error + (qos_profile \<times> bool)" where
  "get_qos_profile profile_id app =
     (case registry_get_by_str (ap_profiles app) profile_id of
        Inl e \<Rightarrow> Inl (BadRequest, InvalidIdentifier e)
      | Inr None \<Rightarrow> Inl (NotFound, UnknownProfile)
      | Inr (Some p) \<Rightarrow> Inr (p, profile_active app (qp_profile_id p)))"

text \<open>
  Registering and fetching a profile are inverse. When a registration is accepted, fetching
  its identifier returns the definition that was sent, and the full listing shows it; a rejected
  one changes nothing; fetching an identifier that is registered never fails, and registrations
  never disturb what fetching another identifier returns.
\<close>

theorem profile_roundtrip:
  assumes "register_qos_profile body app = (answer, app')" and "registry_ok (ap_profiles app)"
  shows "(answer = Inr () \<longrightarrow> (\<exists>p active. get_qos_profile (rp_profile_id body) app' = Inr (p, active)
        \<and> pid_str (qp_profile_id p) = rp_profile_id body \<and> tk_str (qp_task_kind p) = rp_task_kind body
        \<and> qp_flavours p = rp_flavours body \<and> qp_max_error_threshold p = rp_max_error_threshold body
        \<and> qp_error_window p = rp_error_window body \<and> qp_cumulative_error p = rp_cumulative_error body
        \<and> qp_error_semantics p = rp_error_semantics body \<and> (p, active) \<in> set (list_qos_profiles True app')))
    \<and> (answer \<noteq> Inr () \<longrightarrow> app' = app)
    \<and> (\<forall>q. get_qos_profile i app = Inr q \<longrightarrow> get_qos_profile i app' = Inr q)
    \<and> registry_ok (ap_profiles app')"
proof (cases "profile_id_parse (rp_profile_id body)")
  case (Inl e)
  with assms show ?thesis by (auto simp: register_qos_profile_def)
next
  case pid: (Inr pid)
  show ?thesis
  proof (cases "task_kind_parse (rp_task_kind body)")
    case (Inl e)
    with assms pid show ?thesis by (auto simp: register_qos_profile_def)
  next
    case kind: (Inr kind)
    let ?p = "\<lparr>qp_profile_id = pid, qp_task_kind = kind, qp_flavours = rp_flavours body,
                    qp_error_semantics = rp_error_semantics body,
                    qp_max_error_threshold = rp_max_error_threshold body,
                    qp_error_window = rp_error_window body, qp_cumulative_error = rp_cumulative_error body\<rparr>"
    let ?reg = "ap_profiles app"
    have strs: "pid_str pid = rp_profile_id body" "tk_str kind = rp_task_kind body"
      using pid kind by (auto simp: profile_id_parse_def task_kind_parse_def split: if_splits)
    obtain r reg where r: "registry_register ?p ?reg = (r, reg)" by fastforce
    have out: "answer = Inr () \<longrightarrow> app' = app\<lparr>ap_profiles := reg\<rparr> \<and> (\<exists>x. r = Inr x)"
      "answer \<noteq> Inr () \<longrightarrow> app' = app"
      using assms(1) pid kind r by (auto simp: register_qos_profile_def split: sum.splits registry_error.splits)
    have ok: "registry_ok reg" using registry_register_ok [OF assms(2), of ?p] r by simp
    have keeps: "registry_get ?reg k = Some q \<Longrightarrow> registry_get reg k = Some q" for k q
      using registry_register_keeps [of ?reg k q ?p] r by simp
    have found: "registry_get reg pid = Some ?p" if "r = Inr x" for x
      using r that by (auto simp: registry_register_def registry_get_def map_simps split: sum.splits option.splits if_splits)
    have active: "profile_active (app\<lparr>ap_profiles := reg\<rparr>) = profile_active app"
      by (simp add: profile_active_def fun_eq_iff)
    have "get_qos_profile i (app\<lparr>ap_profiles := reg\<rparr>) = Inr q" if "get_qos_profile i app = Inr q" for q
      using that keeps
      by (auto simp: get_qos_profile_def registry_get_by_str_def active split: sum.splits option.splits)
    moreover have "get_qos_profile (rp_profile_id body) (app\<lparr>ap_profiles := reg\<rparr>) = Inr (?p, profile_active app pid)
        \<and> (?p, profile_active app pid) \<in> set (list_qos_profiles True (app\<lparr>ap_profiles := reg\<rparr>))" if "r = Inr x" for x
    proof -
      have "?p \<in> set (hm_values reg)"
        using found [OF that] ok by (force simp: registry_get_def hm_values_def registry_ok_def simp flip: hm_binding_iff)
      then show ?thesis
        using found [OF that] pid
        by (auto simp: get_qos_profile_def registry_get_by_str_def active list_qos_profiles_def registry_list_def
            intro!: image_eqI [where x = ?p])
    qed
    ultimately show ?thesis
      using out strs ok assms(2) by (cases "answer = Inr ()") fastforce+
  qed
qed

section \<open>Horizon and readiness\<close>

record horizon_response =
  hr_current_slot :: slot
  hr_total_slots :: int
  hr_used_fraction :: f64
  hr_near_exhaustion :: bool

definition compute_horizon :: "'v app_state \<Rightarrow> horizon_response" where
  "compute_horizon app =
     (let current_slot = get_current_slot (ss_inner (ap_shared app));
          total_slots = max (ssc_total_slots (ap_scheduler app)) 1;
          used_fraction = max 0 (min 1 (real_of_int current_slot / real_of_int total_slots))
      in \<lparr>hr_current_slot = current_slot, hr_total_slots = total_slots, hr_used_fraction = used_fraction,
          hr_near_exhaustion = (svc_horizon_ready_threshold (ap_service_cfg app) \<le> used_fraction)\<rparr>)"

definition ready :: "'v app_state \<Rightarrow> status_code \<times> horizon_response" where
  "ready app =
     (let h = compute_horizon app
      in (if hr_near_exhaustion h then ServiceUnavailable else StatusOk, h))"

text \<open>
  Readiness is lost once and for all. For a threshold between zero and one a service that is
  not ready because of its slot is not ready at any later slot of the same horizon, it is ready
  exactly in the slots before \<open>threshold * total_slots\<close>, and the fraction it reports is between zero
  and one.
\<close>

theorem readiness_monotone:
  assumes "0 < svc_horizon_ready_threshold (ap_service_cfg app)"
    and "svc_horizon_ready_threshold (ap_service_cfg app) \<le> 1"
    and "0 < ssc_total_slots (ap_scheduler app)"
    and "s = get_current_slot (ss_inner (ap_shared app))"
  shows "(fst (ready app) = StatusOk \<longleftrightarrow>
        real_of_int s < real_of_int (ssc_total_slots (ap_scheduler app)) * svc_horizon_ready_threshold (ap_service_cfg app))
    \<and> (fst (ready app) \<noteq> StatusOk \<and> s \<le> s'
        \<longrightarrow> fst (ready (app\<lparr>ap_shared := with_inner (set_current_slot s') (ap_shared app)\<rparr>)) \<noteq> StatusOk)
    \<and> 0 \<le> hr_used_fraction (compute_horizon app) \<and> hr_used_fraction (compute_horizon app) \<le> 1"
proof -
  let ?th = "svc_horizon_ready_threshold (ap_service_cfg app)" and ?n = "ssc_total_slots (ap_scheduler app)"
  have near: "?th \<le> max 0 (min 1 (real_of_int k / real_of_int (max ?n 1))) \<longleftrightarrow> real_of_int ?n * ?th \<le> real_of_int k" for k
  proof -
    have "max ?n 1 = ?n" using assms(3) by simp
    moreover have "?th \<le> real_of_int k / real_of_int ?n \<longleftrightarrow> real_of_int ?n * ?th \<le> real_of_int k"
      using assms(3) by (simp add: pos_le_divide_eq mult.commute)
    ultimately show ?thesis using assms(1,2) by (simp add: le_max_iff_disj)
  qed
  have "real_of_int ?n * ?th \<le> real_of_int s \<Longrightarrow> s \<le> s' \<Longrightarrow> real_of_int ?n * ?th \<le> real_of_int s'" by simp
  then show ?thesis
    unfolding ready_def compute_horizon_def Let_def
    by (simp add: near with_inner_def get_current_slot_def set_current_slot_def assms(4) not_le)
qed

lemma readiness_monotone_witness:
  "fst (ready (sample_app :: 'v app_state)) = StatusOk"
proof -
  let ?app = "sample_app :: 'v app_state"
  have h: "svc_horizon_ready_threshold (ap_service_cfg ?app) = 9 / 10" "ssc_total_slots (ap_scheduler ?app) = 10"
    "0 = get_current_slot (ss_inner (ap_shared ?app))"
    by (simp_all add: sample_app_def sample_service_config_def get_current_slot_def shared_state_new_def inner_new_def)
  then show ?thesis using readiness_monotone [OF _ _ _ h(3)] by simp
qed

definition gold_payload :: register_qos_profile_payload where
  "gold_payload = \<lparr>rp_profile_id = ''gold'', rp_task_kind = ''ner'',
     rp_flavours = [\<lparr>fl_name = ''Fast'', fl_error = 5, fl_duration = 10\<rparr>],
     rp_error_semantics = ''entity-set-f1-v1'', rp_max_error_threshold = 5,
     rp_error_window = \<lparr>ew_past_slots = 2, ew_future_slots = 2, ew_past_decay_slots = 0\<rparr>,
     rp_cumulative_error = \<lparr>ce_enabled = False, ce_hard = False\<rparr>\<rparr>"

lemma profile_roundtrip_witness:
  "case register_qos_profile gold_payload (sample_app :: 'v app_state) of
     (answer, app') \<Rightarrow> answer = Inr ()
       \<and> (\<exists>p active. get_qos_profile ''gold'' app' = Inr (p, active) \<and> tk_str (qp_task_kind p) = ''ner'')"
proof -
  let ?p = "\<lparr>qp_profile_id = QosProfileId ''gold'', qp_task_kind = TaskKindId ''ner'',
        qp_flavours = rp_flavours gold_payload, qp_error_semantics = ''entity-set-f1-v1'', qp_max_error_threshold = 5,
        qp_error_window = rp_error_window gold_payload, qp_cumulative_error = rp_cumulative_error gold_payload\<rparr>"
  have trim: "str_trim ''Fast'' \<noteq> []" by code_simp
  then have "profile_wf ?p" by (simp add: profile_wf_def flavour_wf_def gold_payload_def is_valid_stable_identifier_def
        is_ascii_lowercase_def is_ascii_digit_def)
  then have "qos_profile_validate ?p = Inr ()" by (simp only: qos_profile_validate_iff)
  moreover have gold: "is_valid_stable_identifier ''gold''" "is_valid_stable_identifier ''ner''"
    by (simp_all add: is_valid_stable_identifier_def is_ascii_lowercase_def is_ascii_digit_def)
  ultimately have "\<exists>reg. registry_register ?p (ap_profiles (sample_app :: 'v app_state)) = (Inr Created, reg)"
    by (simp add: registry_register_def profile_id_parse_def sample_app_def default_profile_def)
  then obtain app' where run: "register_qos_profile gold_payload (sample_app :: 'v app_state) = (Inr (), app')"
    using gold by (auto simp: register_qos_profile_def gold_payload_def profile_id_parse_def task_kind_parse_def)
  obtain p active where "get_qos_profile (rp_profile_id gold_payload) app' = Inr (p, active)"
    "tk_str (qp_task_kind p) = rp_task_kind gold_payload"
    using profile_roundtrip [OF run sample_registry_ok, of undefined] by blast
  then show ?thesis unfolding run by (simp add: gold_payload_def)
qed

end
