(* ===== verification/Monitoring.thy ===== *)
theory Monitoring
  imports Admin Dispatcher "HOL-Library.Product_Lexorder"
begin

text \<open>
  The monitoring endpoints (\<open>service/handlers.rs\<close>): statistics, carbon intensity, assignments, slot
  detail, cost metrics and error history. They only read; each is a function of the state at the
  time it takes its snapshots.
\<close>

definition resolve_profile_query :: "string option \<Rightarrow> 'v app_state \<Rightarrow> api_error + qos_profile option" where
  "resolve_profile_query profile_id app =
     try_then (parse_optional profile_id_parse profile_id) (select_profile (ap_profiles app))"

record assignments_query =
  aq_from_slot :: "slot option"
  aq_to_slot :: "slot option"
  aq_flavour :: "string option"
  aq_qos_profile_id :: "string option"

section \<open>Statistics and carbon intensity\<close>

record stats_response =
  sr_total :: nat
  sr_pending :: nat
  sr_scheduled :: nat
  sr_dispatched :: nat
  sr_completed :: nat
  sr_failed :: nat
  sr_global_error_avg :: "f64 option"
  sr_global_error_count :: nat

definition count_status :: "request_status \<Rightarrow> (request_id, 'v tracked_request) hmap \<Rightarrow> nat" where
  "count_status st tracked = length (filter (\<lambda>t. tr_status t = st) (hm_values tracked))"

definition stats :: "'v app_state \<Rightarrow> stats_response" where
  "stats app =
     (let g = get_global_error_stats (ss_inner (ap_shared app))
      in \<lparr>sr_total = length (ap_tracked app), sr_pending = count_status Pending (ap_tracked app),
          sr_scheduled = count_status Scheduled (ap_tracked app),
          sr_dispatched = count_status Dispatched (ap_tracked app),
          sr_completed = count_status Completed (ap_tracked app), sr_failed = count_status Failed (ap_tracked app),
          sr_global_error_avg = (if 0 < gs_count g then Some (gs_avg g) else None),
          sr_global_error_count = gs_count g\<rparr>)"

lemma stats_partition:
  "sr_pending (stats app) + sr_scheduled (stats app) + sr_dispatched (stats app) + sr_completed (stats app)
     + sr_failed (stats app) = sr_total (stats app)"
proof -
  have "count_status Pending m + count_status Scheduled m + count_status Dispatched m + count_status Completed m
      + count_status Failed m = length m" for m :: "(request_id, 'a tracked_request) hmap"
  proof (induction m)
    case (Cons x m)
    then show ?case by (cases "tr_status (snd x)") (simp_all add: count_status_def hm_values_def)
  qed (simp add: count_status_def hm_values_def)
  then show ?thesis by (simp add: stats_def Let_def)
qed

record intensity_row =
  ir_slot :: slot
  ir_forecast :: f64
  ir_actual :: "f64 option"

definition carbon_intensity :: "slot option \<Rightarrow> slot option \<Rightarrow> 'v app_state \<Rightarrow> intensity_row list" where
  "carbon_intensity slot_param until_slot app =
     (let upper = (case slot_param of Some s \<Rightarrow> s | None \<Rightarrow>
            (case until_slot of Some s \<Rightarrow> s | None \<Rightarrow> get_current_slot (ss_inner (ap_shared app))));
          upper' = max upper 0
      in map (\<lambda>s. \<lparr>ir_slot = s,
             ir_forecast = (case forecast_at (ap_carbon_forecast app) s of Some c \<Rightarrow> c | None \<Rightarrow> 0),
             ir_actual = map_of (ap_actual_carbon_intensity app) s\<rparr>) [0..upper'])"

definition carbon_forecast :: "'v app_state \<Rightarrow> f64 list" where
  "carbon_forecast app = ap_carbon_forecast app"

section \<open>Assignments\<close>

record assignment_item =
  ai_request_id :: request_id
  ai_qos_profile_id :: string
  ai_scheduled_slot :: slot
  ai_flavour_name :: string
  ai_carbon_cost :: f64
  ai_error :: f64
  ai_flavour_duration :: f64
  ai_arrival_slot :: "slot option"
  ai_deadline_slot :: "slot option"
  ai_assignment_time :: f64

definition query_matches :: "assignments_query \<Rightarrow> qos_profile option \<Rightarrow> assignment \<Rightarrow> bool" where
  "query_matches q profile a \<longleftrightarrow>
     (case aq_from_slot q of None \<Rightarrow> True | Some f \<Rightarrow> f \<le> as_scheduled_slot a)
     \<and> (case aq_to_slot q of None \<Rightarrow> True | Some t \<Rightarrow> as_scheduled_slot a \<le> t)
     \<and> (case aq_flavour q of None \<Rightarrow> True | Some f \<Rightarrow> as_flavour_name a = f)
     \<and> (case profile of None \<Rightarrow> True | Some p \<Rightarrow> as_qos_profile_id a = qp_profile_id p)"

definition assignment_item_of :: "assignment \<Rightarrow> assignment_item" where
  "assignment_item_of a =
     \<lparr>ai_request_id = as_request_id a, ai_qos_profile_id = pid_str (as_qos_profile_id a),
      ai_scheduled_slot = as_scheduled_slot a, ai_flavour_name = as_flavour_name a,
      ai_carbon_cost = as_carbon_cost a, ai_error = as_error a, ai_flavour_duration = as_flavour_duration a,
      ai_arrival_slot = as_arrival_slot a, ai_deadline_slot = as_deadline_slot a,
      ai_assignment_time = as_assignment_time a\<rparr>"

definition get_assignments :: "assignments_query \<Rightarrow> 'v app_state \<Rightarrow> api_error + assignment_item list" where
  "get_assignments q app =
     try_then (resolve_profile_query (aq_qos_profile_id q) app) (\<lambda>profile.
       Inr (sort_key (\<lambda>item. (ai_scheduled_slot item, ai_request_id item))
         (map assignment_item_of
           (filter (query_matches q profile) (hm_values (get_current_assignments (ss_inner (ap_shared app))))))))"

section \<open>Slot detail\<close>

record slot_detail_response =
  sd_slot :: slot
  sd_total_requests :: nat
  sd_flavour_counts :: "(string, nat) hmap"
  sd_total_carbon_cost :: f64
  sd_capacity_multiplier :: f64
  sd_forecast_carbon_intensity :: "f64 option"
  sd_actual_carbon_intensity :: "f64 option"

fun flavour_counts :: "assignment list \<Rightarrow> (string, nat) hmap \<Rightarrow> (string, nat) hmap" where
  "flavour_counts [] acc = acc"
| "flavour_counts (a # as) acc = flavour_counts as (hm_entry (as_flavour_name a) 0 (\<lambda>n. n + 1) acc)"

definition detail_multiplier :: "capacity_tier list \<Rightarrow> nat \<Rightarrow> f64" where
  "detail_multiplier tiers n =
     (case max_by_key id (map ct_multiplier
             (filter (\<lambda>t. int n \<le> (case ct_max_requests t of Some m \<Rightarrow> m | None \<Rightarrow> 9223372036854775807)) tiers)) of
        Some m \<Rightarrow> m | None \<Rightarrow> 1)"

definition get_slot_detail :: "slot \<Rightarrow> 'v app_state \<Rightarrow> api_error + slot_detail_response" where
  "get_slot_detail s app =
     (let st = ss_inner (ap_shared app);
          horizon = max (i32_add (get_current_slot st) (ssc_assignment_max_future_slots (ap_scheduler app)))
            (wrap32 (int (length (ap_carbon_forecast app))))
      in if s < 0 then Inl (BadRequest, NegativeSlots)
         else if horizon \<le> s then Inl (BadRequest, OutsideHorizon)
         else
           (let as = get_requests_in_slot s st
            in Inr \<lparr>sd_slot = s, sd_total_requests = length as, sd_flavour_counts = flavour_counts as [],
                 sd_total_carbon_cost = sum_list (map as_carbon_cost as),
                 sd_capacity_multiplier = detail_multiplier (capacity_tiers_snapshot (ap_shared app)) (length as),
                 sd_forecast_carbon_intensity = forecast_at (ap_carbon_forecast app) s,
                 sd_actual_carbon_intensity = map_of (ap_actual_carbon_intensity app) s\<rparr>))"

section \<open>Cost metrics\<close>

record cost_metrics_response =
  cm_qos_profile_id :: "string option"
  cm_current_actual_carbon_cost :: f64
  cm_current_actual_baseline_carbon_cost :: f64
  cm_actual_carbon_saving_pct :: "f64 option"
  cm_forecasted_pending_carbon_cost :: f64
  cm_total_forecasted_carbon_cost :: f64
  cm_total_baseline_carbon_cost :: f64
  cm_capacity_tiers :: "capacity_tier list"

record cost_totals =
  ct_actual :: f64
  ct_actual_baseline :: f64
  ct_pending :: f64
  ct_baseline :: f64

fun cost_loop ::
    "qos_profile option \<Rightarrow> (request_id, assignment) hmap \<Rightarrow> (request_id \<times> 'v tracked_request) list
     \<Rightarrow> cost_totals \<Rightarrow> cost_totals" where
  "cost_loop profile assignments [] c = c"
| "cost_loop profile assignments ((i, t) # ts) c =
     (if (case profile of Some p \<Rightarrow> tr_qos_profile_id t \<noteq> qp_profile_id p | None \<Rightarrow> False)
      then cost_loop profile assignments ts c
      else
        (let c1 = c\<lparr>ct_baseline := ct_baseline c + tr_baseline_carbon_cost t\<rparr>;
             cost = (case map_of assignments i of Some a \<Rightarrow> as_carbon_cost a | None \<Rightarrow> 0);
             c2 = (if tr_status t = Completed
                   then c1\<lparr>ct_actual_baseline := ct_actual_baseline c1 + tr_baseline_carbon_cost t,
                          ct_actual := ct_actual c1 + cost\<rparr>
                   else if tr_status t \<noteq> Failed then c1\<lparr>ct_pending := ct_pending c1 + cost\<rparr>
                   else c1)
         in cost_loop profile assignments ts c2))"

definition get_cost_metrics :: "string option \<Rightarrow> 'v app_state \<Rightarrow> api_error + cost_metrics_response" where
  "get_cost_metrics profile_id app =
     try_then (resolve_profile_query profile_id app) (\<lambda>profile.
       let assignments = get_current_assignments (ss_inner (ap_shared app));
           c = cost_loop profile assignments (ap_tracked app)
                 \<lparr>ct_actual = 0, ct_actual_baseline = 0, ct_pending = 0, ct_baseline = 0\<rparr>
       in Inr \<lparr>cm_qos_profile_id = map_option (\<lambda>p. pid_str (qp_profile_id p)) profile,
            cm_current_actual_carbon_cost = ct_actual c,
            cm_current_actual_baseline_carbon_cost = ct_actual_baseline c,
            cm_actual_carbon_saving_pct =
              (if 0 < ct_actual_baseline c
               then Some ((ct_actual_baseline c - ct_actual c) / ct_actual_baseline c * 100) else None),
            cm_forecasted_pending_carbon_cost = ct_pending c,
            cm_total_forecasted_carbon_cost =
              sum_list (map as_carbon_cost
                (filter (\<lambda>a. case profile of Some p \<Rightarrow> as_qos_profile_id a = qp_profile_id p | None \<Rightarrow> True)
                   (hm_values assignments))),
            cm_total_baseline_carbon_cost = ct_baseline c,
            cm_capacity_tiers = capacity_tiers_snapshot (ap_shared app)\<rparr>)"

section \<open>Error history\<close>

record slot_error_item =
  se_slot :: slot
  se_request_count :: nat
  se_average_error :: f64
  se_window_error :: "f64 option"
  se_cumulative_error :: "f64 option"

record error_history_response =
  eh_current_slot :: slot
  eh_qos_profile_id :: "string option"
  eh_profile_error_avg :: "f64 option"
  eh_error_semantics :: "string option"
  eh_global_error_avg :: "f64 option"
  eh_max_error_threshold :: f64
  eh_task_thresholds :: "(string \<times> f64) list"
  eh_window_past :: int
  eh_window_future :: int
  eh_slots :: "slot_error_item list"

definition slot_stats_for :: "qos_profile option \<Rightarrow> slot \<Rightarrow> inner \<Rightarrow> slot_error_stats" where
  "slot_stats_for profile s st =
     (case profile of
        Some p \<Rightarrow> get_profile_slot_error_stats (qp_profile_id p) s st
      | None \<Rightarrow> get_slot_error_stats s st)"

definition window_stats_for :: "qos_profile option \<Rightarrow> slot \<Rightarrow> int \<Rightarrow> int \<Rightarrow> inner \<Rightarrow> window_error_stats" where
  "window_stats_for profile s past future st =
     (case profile of
        Some p \<Rightarrow> get_profile_window_error_stats (qp_profile_id p) s past future {} st
      | None \<Rightarrow> get_window_error_stats s past future {} st)"

text \<open>The running sum of errors and count, over the slots of a list.\<close>

definition add_slot_stats :: "slot_error_stats \<Rightarrow> f64 \<times> nat \<Rightarrow> f64 \<times> nat" where
  "add_slot_stats sl = (\<lambda>(error_sum, n). (error_sum + sl_average sl * real (sl_count sl), n + sl_count sl))"

definition some_if_any :: "nat \<Rightarrow> f64 \<Rightarrow> f64 option" where
  "some_if_any n x = (if 0 < n then Some x else None)"

fun history_loop ::
    "qos_profile option \<Rightarrow> int \<Rightarrow> int \<Rightarrow> inner \<Rightarrow> slot list \<Rightarrow> f64 \<times> nat \<Rightarrow> slot_error_item list" where
  "history_loop profile past future st [] run = []"
| "history_loop profile past future st (s # ss) run =
     (let sl = slot_stats_for profile s st;
          run' = add_slot_stats sl run;
          win = window_stats_for profile s past future st
      in \<lparr>se_slot = s, se_request_count = sl_count sl, se_average_error = sl_average sl,
          se_window_error = some_if_any (ws_count win) (ws_average win),
          se_cumulative_error = some_if_any (snd run') (fst run' / real (snd run'))\<rparr>
         # history_loop profile past future st ss run')"

definition get_error_history :: "assignments_query \<Rightarrow> 'v app_state \<Rightarrow> api_error + error_history_response" where
  "get_error_history q app =
     (let st = ss_inner (ap_shared app);
          current_slot = get_current_slot st;
          from_slot = (case aq_from_slot q of Some s \<Rightarrow> s | None \<Rightarrow> 0);
          to_slot = (case aq_to_slot q of Some s \<Rightarrow> s | None \<Rightarrow> current_slot)
      in if to_slot < from_slot then Inl (BadRequest, BadRange)
         else if to_slot < 0 \<or> from_slot < 0 then Inl (BadRequest, NegativeSlots)
         else if ssc_total_slots (ap_scheduler app) \<le> to_slot then Inl (BadRequest, OutsideHorizon)
         else try_then (resolve_profile_query (aq_qos_profile_id q) app) (\<lambda>profile.
           let g = get_global_error_stats st;
               profile_stats = map_option (\<lambda>p. get_profile_error_stats (qp_profile_id p) st) profile;
               past = (case profile of Some p \<Rightarrow> ew_past_slots (qp_error_window p)
                       | None \<Rightarrow> ssc_error_window_past (ap_scheduler app));
               future = (case profile of Some p \<Rightarrow> ew_future_slots (qp_error_window p)
                         | None \<Rightarrow> ssc_error_window_future (ap_scheduler app));
               before = fold (\<lambda>s. add_slot_stats (slot_stats_for profile s st)) [0..from_slot - 1] (0, 0)
           in Inr \<lparr>eh_current_slot = current_slot,
                eh_qos_profile_id = map_option (\<lambda>p. pid_str (qp_profile_id p)) profile,
                eh_profile_error_avg =
                  Option.bind profile_stats (\<lambda>ps. some_if_any (gs_count ps) (gs_avg ps)),
                eh_error_semantics = map_option qp_error_semantics profile,
                eh_global_error_avg = some_if_any (gs_count g) (gs_avg g),
                eh_max_error_threshold = (case profile of Some p \<Rightarrow> qp_max_error_threshold p
                  | None \<Rightarrow> ssc_max_error_threshold (ap_scheduler app)),
                eh_task_thresholds = map (\<lambda>p. (pid_str (qp_profile_id p), qp_max_error_threshold p))
                  (registry_list (ap_profiles app)),
                eh_window_past = past, eh_window_future = future,
                eh_slots = history_loop profile past future st [from_slot..to_slot] before\<rparr>))"

section \<open>What the metrics mean\<close>

lemma ladder_last_is_greatest:
  assumes "ladder_from lo m tiers"
  shows "tiers \<noteq> [] \<and> ct_max_requests (last tiers) = None \<and> m \<le> ct_multiplier (last tiers)
    \<and> (\<forall>t\<in>set tiers. ct_multiplier t \<le> ct_multiplier (last tiers))"
  using assms
proof (induction lo m tiers rule: ladder_from.induct)
  case (3 prev m t t' ts)
  then obtain mx where "prev < mx \<and> m \<le> ct_multiplier t \<and> ladder_from mx (ct_multiplier t) (t' # ts)"
    and mx: "ct_max_requests t = Some mx" by (auto split: option.splits)
  with "3.IH" [OF mx] show ?case by auto
qed simp_all

lemma detail_multiplier_overflow:
  assumes "valid_ladder tiers" and "int n \<le> 9223372036854775807"
  shows "detail_multiplier tiers n = ct_multiplier (last tiers)"
proof -
  have top: "tiers \<noteq> []" "ct_max_requests (last tiers) = None" "\<forall>t\<in>set tiers. ct_multiplier t \<le> ct_multiplier (last tiers)"
    using ladder_last_is_greatest [of 0 1 tiers] assms(1) by (auto simp: valid_ladder_def)
  define sel where "sel = map ct_multiplier
    (filter (\<lambda>t. int n \<le> (case ct_max_requests t of Some m \<Rightarrow> m | None \<Rightarrow> 9223372036854775807)) tiers)"
  have mem: "ct_multiplier (last tiers) \<in> set sel"
    using top assms(2) by (auto simp: sel_def intro!: imageI)
  have "sel \<noteq> []" using mem by auto
  then obtain m where m: "max_by_key id sel = Some m" by (cases "max_by_key id sel") simp_all
  have "ct_multiplier (last tiers) \<le> m" using max_by_key_ge [OF m mem] by simp
  moreover have "m \<le> ct_multiplier (last tiers)" using max_by_key_in [OF m] top(3) by (auto simp: sel_def)
  ultimately show ?thesis using m by (simp add: detail_multiplier_def sel_def)
qed

text \<open>
  What \<open>GET /v1/slots/{slot}\<close> reports. For a slot inside the horizon the answer counts the
  committed assignments of that slot and sums their costs. The capacity multiplier it reports is,
  for every well-formed ladder, the multiplier of the overflow tier, whatever the occupancy; the
  tier the engine prices that occupancy at is never dearer, and can be cheaper.
\<close>

theorem slot_detail_reports_overflow_tier:
  assumes "valid_ladder (capacity_tiers_snapshot (ap_shared app))"
    and "get_slot_detail s app = Inr r" and "int (sd_total_requests r) \<le> 9223372036854775807"
  shows "0 \<le> s
    \<and> sd_total_requests r = length (get_requests_in_slot s (ss_inner (ap_shared app)))
    \<and> sd_total_carbon_cost r = sum_list (map as_carbon_cost (get_requests_in_slot s (ss_inner (ap_shared app))))
    \<and> sd_capacity_multiplier r = ct_multiplier (last (capacity_tiers_snapshot (ap_shared app)))
    \<and> get_capacity_multiplier (capacity_tiers_snapshot (ap_shared app)) (int (sd_total_requests r))
        \<le> sd_capacity_multiplier r"
proof -
  let ?tiers = "capacity_tiers_snapshot (ap_shared app)"
  let ?n = "length (get_requests_in_slot s (ss_inner (ap_shared app)))"
  from assms(2) have s: "0 \<le> s" and n: "sd_total_requests r = ?n"
    and cost: "sd_total_carbon_cost r = sum_list (map as_carbon_cost (get_requests_in_slot s (ss_inner (ap_shared app))))"
    and mult: "sd_capacity_multiplier r = detail_multiplier ?tiers ?n"
    by (auto simp: get_slot_detail_def Let_def split: if_splits)
  have top: "detail_multiplier ?tiers ?n = ct_multiplier (last ?tiers)"
    using detail_multiplier_overflow [OF assms(1)] assms(3) n by simp
  have last: "?tiers \<noteq> []" "\<forall>t\<in>set ?tiers. ct_multiplier t \<le> ct_multiplier (last ?tiers)"
    using ladder_last_is_greatest [of 0 1 ?tiers] assms(1) by (auto simp: valid_ladder_def)
  have scan: "tier_scan ts pos = Some m \<Longrightarrow> m \<in> ct_multiplier ` set ts" for ts pos m
    by (induction ts) (auto split: option.splits if_splits)
  have "get_capacity_multiplier ?tiers (int ?n) \<le> ct_multiplier (last ?tiers)"
  proof (cases "tier_scan ?tiers (int ?n)")
    case (Some m)
    from scan [OF Some] last(2) show ?thesis by (auto simp: get_capacity_multiplier_def Some)
  qed (simp add: get_capacity_multiplier_def last(1))
  with s n cost mult top show ?thesis by simp
qed

lemma slot_detail_reports_overflow_tier_witness:
  "let app = (sample_app :: 'v app_state)\<lparr>ap_shared := shared_state_new\<lparr>ss_capacity_tiers :=
       Some [\<lparr>ct_max_requests = Some 5, ct_multiplier = 1\<rparr>, \<lparr>ct_max_requests = None, ct_multiplier = 5\<rparr>]\<rparr>\<rparr>
   in case get_slot_detail 3 app of
        Inl e \<Rightarrow> False
      | Inr r \<Rightarrow> sd_capacity_multiplier r = 5 \<and> sd_total_requests r = 0
          \<and> get_capacity_multiplier (capacity_tiers_snapshot (ap_shared app)) 0 = 1"
proof -
  let ?tiers = "[\<lparr>ct_max_requests = Some 5, ct_multiplier = 1\<rparr>, \<lparr>ct_max_requests = None, ct_multiplier = 5\<rparr>] :: capacity_tier list"
  let ?app = "(sample_app :: 'v app_state)\<lparr>ap_shared := shared_state_new\<lparr>ss_capacity_tiers := Some ?tiers\<rparr>\<rparr>"
  have tiers: "capacity_tiers_snapshot (ap_shared ?app) = ?tiers" by (simp add: capacity_tiers_snapshot_def)
  have "get_requests_in_slot 3 (ss_inner (ap_shared ?app)) = []"
    by (simp add: get_requests_in_slot_def shared_state_new_def inner_new_def hm_values_def)
  moreover have "\<exists>r. get_slot_detail 3 ?app = Inr r"
    by (simp add: get_slot_detail_def sample_app_def shared_state_new_def inner_new_def get_current_slot_def
        wrap32_def Let_def)
  then obtain r where r: "get_slot_detail 3 ?app = Inr r" by blast
  moreover have n: "sd_total_requests r = 0"
    using r calculation by (auto simp: get_slot_detail_def Let_def split: if_splits)
  moreover have "valid_ladder ?tiers" by (simp add: valid_ladder_def)
  ultimately have "sd_capacity_multiplier r = 5"
    using slot_detail_reports_overflow_tier [of ?app 3 r] tiers by simp
  then show ?thesis
    using n tiers unfolding Let_def r by (simp add: get_capacity_multiplier_def)
qed

text \<open>
  The assignment listing is exact. An assignment of the committed map appears in
  \<open>GET /v1/assignments\<close> if and only if it satisfies every filter of the query that is present, the
  rows are ordered by slot and then by request id, and there is one row per matching assignment.
\<close>

theorem assignment_listing_exact:
  assumes "get_assignments q app = Inr rows"
    and "resolve_profile_query (aq_qos_profile_id q) app = Inr profile"
  shows "set rows = assignment_item_of `
           {a \<in> set (hm_values (in_assignments (ss_inner (ap_shared app)))).
              (\<forall>f. aq_from_slot q = Some f \<longrightarrow> f \<le> as_scheduled_slot a)
              \<and> (\<forall>t. aq_to_slot q = Some t \<longrightarrow> as_scheduled_slot a \<le> t)
              \<and> (\<forall>n. aq_flavour q = Some n \<longrightarrow> as_flavour_name a = n)
              \<and> (\<forall>p. profile = Some p \<longrightarrow> as_qos_profile_id a = qp_profile_id p)}
    \<and> sorted (map (\<lambda>r. (ai_scheduled_slot r, ai_request_id r)) rows)
    \<and> length rows = length (filter (query_matches q profile) (hm_values (in_assignments (ss_inner (ap_shared app)))))"
proof -
  let ?as = "hm_values (in_assignments (ss_inner (ap_shared app)))"
  have rows: "rows = sort_key (\<lambda>item. (ai_scheduled_slot item, ai_request_id item))
      (map assignment_item_of (filter (query_matches q profile) ?as))"
    using assms by (simp add: get_assignments_def get_current_assignments_def)
  have matches: "query_matches q profile a \<longleftrightarrow>
      (\<forall>f. aq_from_slot q = Some f \<longrightarrow> f \<le> as_scheduled_slot a)
      \<and> (\<forall>t. aq_to_slot q = Some t \<longrightarrow> as_scheduled_slot a \<le> t)
      \<and> (\<forall>n. aq_flavour q = Some n \<longrightarrow> as_flavour_name a = n)
      \<and> (\<forall>p. profile = Some p \<longrightarrow> as_qos_profile_id a = qp_profile_id p)" for a
    by (simp add: query_matches_def split: option.split)
  have "set rows = assignment_item_of ` {a \<in> set ?as. query_matches q profile a}"
    by (simp add: rows)
  moreover have "sorted (map (\<lambda>r. (ai_scheduled_slot r, ai_request_id r)) rows)"
    unfolding rows by (rule sorted_sort_key)
  moreover have "length rows = length (filter (query_matches q profile) ?as)" by (simp add: rows)
  ultimately show ?thesis unfolding matches by blast
qed

lemma assignment_listing_exact_witness:
  "case get_assignments \<lparr>aq_from_slot = None, aq_to_slot = None, aq_flavour = None, aq_qos_profile_id = None\<rparr>
      (sample_app :: 'v app_state) of
     Inl e \<Rightarrow> False | Inr rows \<Rightarrow> rows = []"
proof -
  let ?q = "\<lparr>aq_from_slot = None, aq_to_slot = None, aq_flavour = None, aq_qos_profile_id = None\<rparr>"
  have profile: "resolve_profile_query (aq_qos_profile_id ?q) (sample_app :: 'v app_state) = Inr None"
    by (simp add: resolve_profile_query_def select_profile_def parse_optional_def)
  obtain rows where rows: "get_assignments ?q (sample_app :: 'v app_state) = Inr rows"
    using profile by (simp add: get_assignments_def)
  have "hm_values (in_assignments (ss_inner (ap_shared (sample_app :: 'v app_state)))) = []"
    by (simp add: sample_app_def shared_state_new_def inner_new_def hm_values_def)
  with assignment_listing_exact [OF rows profile] show ?thesis by (simp add: rows)
qed

subsection \<open>Cost metrics\<close>

definition in_profile :: "qos_profile option \<Rightarrow> qos_profile_id \<Rightarrow> bool" where
  "in_profile profile pid \<longleftrightarrow> (case profile of Some p \<Rightarrow> pid = qp_profile_id p | None \<Rightarrow> True)"

definition assigned_cost :: "(request_id, assignment) hmap \<Rightarrow> request_id \<Rightarrow> f64" where
  "assigned_cost assignments i = (case map_of assignments i of Some a \<Rightarrow> as_carbon_cost a | None \<Rightarrow> 0)"

definition cost_where ::
    "(request_id, assignment) hmap \<Rightarrow> (request_id, 'v tracked_request) hmap \<Rightarrow> ('v tracked_request \<Rightarrow> bool) \<Rightarrow> f64" where
  "cost_where assignments tracked P =
     sum_list (map (\<lambda>(i, t). if P t then assigned_cost assignments i else 0) tracked)"

lemma cost_loop_actual:
  "ct_actual (cost_loop profile assignments ts c) = ct_actual c
     + cost_where assignments ts (\<lambda>t. in_profile profile (tr_qos_profile_id t) \<and> tr_status t = Completed)"
proof (induction ts arbitrary: c)
  case (Cons it ts)
  obtain i t where "it = (i, t)" by fastforce
  with Cons.IH show ?case
    by (cases profile) (auto simp: cost_where_def in_profile_def assigned_cost_def Let_def)
qed (simp add: cost_where_def)

lemma cost_loop_pending:
  "ct_pending (cost_loop profile assignments ts c) = ct_pending c
     + cost_where assignments ts
         (\<lambda>t. in_profile profile (tr_qos_profile_id t) \<and> tr_status t \<noteq> Completed \<and> tr_status t \<noteq> Failed)"
proof (induction ts arbitrary: c)
  case (Cons it ts)
  obtain i t where "it = (i, t)" by fastforce
  with Cons.IH show ?case
    by (cases profile) (auto simp: cost_where_def in_profile_def assigned_cost_def Let_def)
qed (simp add: cost_where_def)

lemma alist_sum:
  "distinct (map fst m) \<Longrightarrow> sum_list (map (\<lambda>(k, v). g k v) m) = (\<Sum>k\<in>set (map fst m). g k (the (map_of m k)))"
  for g :: "'k \<Rightarrow> 'x \<Rightarrow> real"
proof (induction m)
  case (Cons x m)
  obtain k v where x: "x = (k, v)" by fastforce
  have "(\<Sum>k'\<in>set (map fst m). g k' (the (map_of ((k, v) # m) k'))) = (\<Sum>k'\<in>set (map fst m). g k' (the (map_of m k')))"
    using Cons.prems by (intro sum.cong) (auto simp: x)
  with Cons show ?case by (simp add: x)
qed simp

lemma cost_of_tracked_covers_assignments:
  assumes "hm_wf tracked" and "hm_wf assignments"
    and owned: "\<And>i a. map_of assignments i = Some a \<Longrightarrow>
      \<exists>t. map_of tracked i = Some t \<and> tr_qos_profile_id t = as_qos_profile_id a"
  shows "cost_where assignments tracked (\<lambda>t. in_profile profile (tr_qos_profile_id t))
    = sum_list (map as_carbon_cost (filter (\<lambda>a. in_profile profile (as_qos_profile_id a)) (hm_values assignments)))"
    (is "_ = ?rhs")
proof -
  let ?g = "\<lambda>i t. if in_profile profile (tr_qos_profile_id t) then assigned_cost assignments i else 0"
  let ?h = "\<lambda>i a. if in_profile profile (as_qos_profile_id a) then as_carbon_cost a else (0 :: real)"
  have sub: "set (map fst assignments) \<subseteq> set (map fst tracked)"
  proof
    fix i assume "i \<in> set (map fst assignments)"
    then obtain a where "map_of assignments i = Some a" by (metis list.set_map map_of_eq_None_iff not_Some_eq)
    from owned [OF this] show "i \<in> set (map fst tracked)" by (metis list.set_map map_of_eq_None_iff option.distinct(1))
  qed
  have outside: "?g i (the (map_of tracked i)) = 0" if "i \<notin> set (map fst assignments)" for i
    using that by (simp add: assigned_cost_def map_of_eq_None_iff [THEN iffD2])
  have inside: "?g i (the (map_of tracked i)) = ?h i (the (map_of assignments i))"
    if member: "i \<in> set (map fst assignments)" for i
  proof -
    obtain a where a: "map_of assignments i = Some a" using member by (metis list.set_map map_of_eq_None_iff not_Some_eq)
    then obtain t where "map_of tracked i = Some t" "tr_qos_profile_id t = as_qos_profile_id a" using owned by blast
    with a show ?thesis by (simp add: assigned_cost_def)
  qed
  have "cost_where assignments tracked (\<lambda>t. in_profile profile (tr_qos_profile_id t))
      = (\<Sum>i\<in>set (map fst tracked). ?g i (the (map_of tracked i)))"
    unfolding cost_where_def by (rule alist_sum) (use assms(1) in \<open>simp add: hm_wf_def\<close>)
  also have "\<dots> = (\<Sum>i\<in>set (map fst assignments). ?g i (the (map_of tracked i)))"
    by (rule sum.mono_neutral_right) (use sub outside in auto)
  also have "\<dots> = (\<Sum>i\<in>set (map fst assignments). ?h i (the (map_of assignments i)))"
    by (rule sum.cong) (use inside in auto)
  also have "\<dots> = sum_list (map (\<lambda>(i, a). ?h i a) assignments)"
    by (rule alist_sum [symmetric]) (use assms(2) in \<open>simp add: hm_wf_def\<close>)
  also have "\<dots> = ?rhs"
    by (simp add: hm_values_def sum_list_map_filter' comp_def case_prod_unfold)
  finally show ?thesis .
qed

text \<open>
  Cost accounting balances. When every committed assignment belongs to a tracked request of
  the same profile, the forecast total that \<open>GET /v1/metrics/costs\<close> reports is the sum of
  the cost of completed requests, the cost of requests still in flight, and the cost of failed
  requests, which the two partial figures leave out; for one profile as for the fleet.
\<close>

theorem cost_metrics_balance:
  assumes "get_cost_metrics pid app = Inr r" and "resolve_profile_query pid app = Inr profile"
    and "hm_wf (ap_tracked app)" and "hm_wf (in_assignments (ss_inner (ap_shared app)))"
    and "\<And>i a. map_of (in_assignments (ss_inner (ap_shared app))) i = Some a \<Longrightarrow>
      \<exists>t. map_of (ap_tracked app) i = Some t \<and> tr_qos_profile_id t = as_qos_profile_id a"
  shows "cm_total_forecasted_carbon_cost r = cm_current_actual_carbon_cost r + cm_forecasted_pending_carbon_cost r
    + cost_where (in_assignments (ss_inner (ap_shared app))) (ap_tracked app)
        (\<lambda>t. in_profile profile (tr_qos_profile_id t) \<and> tr_status t = Failed)"
proof -
  let ?as = "in_assignments (ss_inner (ap_shared app))"
  have split: "cost_where ?as ts (\<lambda>t. in_profile profile (tr_qos_profile_id t))
      = cost_where ?as ts (\<lambda>t. in_profile profile (tr_qos_profile_id t) \<and> tr_status t = Completed)
      + cost_where ?as ts (\<lambda>t. in_profile profile (tr_qos_profile_id t) \<and> tr_status t \<noteq> Completed \<and> tr_status t \<noteq> Failed)
      + cost_where ?as ts (\<lambda>t. in_profile profile (tr_qos_profile_id t) \<and> tr_status t = Failed)" for ts
    by (induction ts) (auto simp: cost_where_def)
  show ?thesis
    using assms(1,2) cost_of_tracked_covers_assignments [OF assms(3-5), of profile] split [of "ap_tracked app"]
    by (auto simp: get_cost_metrics_def get_current_assignments_def cost_loop_actual cost_loop_pending Let_def
        in_profile_def [abs_def])
qed

lemma cost_metrics_balance_witness:
  "case get_cost_metrics None dispatch_app of
     Inl e \<Rightarrow> False
   | Inr r \<Rightarrow> cm_total_forecasted_carbon_cost r = cm_current_actual_carbon_cost r + cm_forecasted_pending_carbon_cost r
       + cost_where (in_assignments (ss_inner (ap_shared dispatch_app))) (ap_tracked dispatch_app)
           (\<lambda>t. in_profile None (tr_qos_profile_id t) \<and> tr_status t = Failed)"
proof -
  let ?app = dispatch_app
  have profile: "resolve_profile_query None ?app = Inr None"
    by (simp add: resolve_profile_query_def select_profile_def parse_optional_def)
  then obtain r where r: "get_cost_metrics None ?app = Inr r" by (simp add: get_cost_metrics_def Let_def)
  have owned: "\<exists>t. map_of (ap_tracked dispatch_app) i = Some t \<and> tr_qos_profile_id t = as_qos_profile_id a"
    if "map_of (in_assignments (ss_inner (ap_shared dispatch_app))) i = Some a" for i a
    using that by (auto simp: dispatch_app_def sample_tracked_def tracked_request_new_def assignment_new_def
        assignment_new_for_profile_def split: if_splits)
  have "hm_wf (ap_tracked dispatch_app)" "hm_wf (in_assignments (ss_inner (ap_shared dispatch_app)))"
    by (simp_all add: dispatch_app_def hm_wf_def)
  from cost_metrics_balance [OF r profile this owned] show ?thesis unfolding r by simp
qed

subsection \<open>Error history\<close>

definition error_sum_where :: "(assignment \<Rightarrow> bool) \<Rightarrow> inner \<Rightarrow> f64" where
  "error_sum_where P st = sum_list (map as_error (filter P (hm_values (in_assignments st))))"

definition count_where :: "(assignment \<Rightarrow> bool) \<Rightarrow> inner \<Rightarrow> nat" where
  "count_where P st = length (filter P (hm_values (in_assignments st)))"

lemma slot_stats_for_eq:
  "slot_stats_for profile s st = slot_stats_of (\<lambda>a. in_profile profile (as_qos_profile_id a) \<and> as_scheduled_slot a = s) st"
  by (cases profile) (simp_all add: slot_stats_for_def in_profile_def get_profile_slot_error_stats_def get_slot_error_stats_def)

lemma sum_length_disjoint:
  assumes "\<And>x. \<not> (P x \<and> Q x)"
  shows "sum_list (map f (filter (\<lambda>x. P x \<or> Q x) xs)) = sum_list (map f (filter P xs)) + (sum_list (map f (filter Q xs)) :: real)
    \<and> length (filter (\<lambda>x. P x \<or> Q x) xs) = length (filter P xs) + length (filter Q xs)"
  by (induction xs) (use assms in auto)

lemma add_slot_stats_extends:
  assumes "0 \<le> s"
  shows "add_slot_stats (slot_stats_for profile s st)
      (error_sum_where (\<lambda>a. in_profile profile (as_qos_profile_id a) \<and> as_scheduled_slot a \<in> {0..s - 1}) st,
       count_where (\<lambda>a. in_profile profile (as_qos_profile_id a) \<and> as_scheduled_slot a \<in> {0..s - 1}) st)
    = (error_sum_where (\<lambda>a. in_profile profile (as_qos_profile_id a) \<and> as_scheduled_slot a \<in> {0..s}) st,
       count_where (\<lambda>a. in_profile profile (as_qos_profile_id a) \<and> as_scheduled_slot a \<in> {0..s}) st)"
proof -
  let ?P = "\<lambda>a. in_profile profile (as_qos_profile_id a) \<and> as_scheduled_slot a \<in> {0..s - 1}"
  let ?Q = "\<lambda>a. in_profile profile (as_qos_profile_id a) \<and> as_scheduled_slot a = s"
  have union: "(in_profile profile (as_qos_profile_id a) \<and> as_scheduled_slot a \<in> {0..s}) = (?P a \<or> ?Q a)" for a
    using assms by auto
  have disjoint: "\<not> (?P a \<and> ?Q a)" for a by auto
  have avg: "avg_or_zero x n * real n = x" if "n = 0 \<longrightarrow> x = 0" for x n
    using that by (auto simp: avg_or_zero_def)
  have "sl_average (slot_stats_for profile s st) * real (sl_count (slot_stats_for profile s st)) = error_sum_where ?Q st"
    unfolding slot_stats_for_eq slot_stats_of_def Let_def error_sum_where_def slot_error_stats.select_convs
    by (rule avg) auto
  moreover have "sl_count (slot_stats_for profile s st) = count_where ?Q st"
    by (simp add: slot_stats_for_eq slot_stats_of_def count_where_def Let_def)
  ultimately show ?thesis
    unfolding union using sum_length_disjoint [of ?P ?Q as_error "hm_values (in_assignments st)"] disjoint
    by (simp add: add_slot_stats_def error_sum_where_def count_where_def)
qed

definition history_upto :: "qos_profile option \<Rightarrow> inner \<Rightarrow> slot \<Rightarrow> f64 \<times> nat" where
  "history_upto profile st s =
     (error_sum_where (\<lambda>a. in_profile profile (as_qos_profile_id a) \<and> as_scheduled_slot a \<in> {0..s}) st,
      count_where (\<lambda>a. in_profile profile (as_qos_profile_id a) \<and> as_scheduled_slot a \<in> {0..s}) st)"

lemma history_upto_step: "0 \<le> s \<Longrightarrow> add_slot_stats (slot_stats_for profile s st) (history_upto profile st (s - 1)) = history_upto profile st s"
  unfolding history_upto_def by (rule add_slot_stats_extends)

lemma fold_history: "fold (\<lambda>s. add_slot_stats (slot_stats_for profile s st)) [0..int n - 1] (0, 0) = history_upto profile st (int n - 1)"
proof (induction n)
  case (Suc n)
  have "[0..int (Suc n) - 1] = [0..int n - 1] @ [int n]" by (simp add: upto_rec2)
  then show ?case using Suc history_upto_step [of "int n" profile st] by simp
qed (simp add: history_upto_def error_sum_where_def count_where_def)

lemma history_loop_rows:
  "0 \<le> f \<Longrightarrow> history_loop profile past future st [f..t] (history_upto profile st (f - 1))
   = map (\<lambda>s. \<lparr>se_slot = s, se_request_count = sl_count (slot_stats_for profile s st),
        se_average_error = sl_average (slot_stats_for profile s st),
        se_window_error = some_if_any (ws_count (window_stats_for profile s past future st))
          (ws_average (window_stats_for profile s past future st)),
        se_cumulative_error = some_if_any (snd (history_upto profile st s))
          (fst (history_upto profile st s) / real (snd (history_upto profile st s)))\<rparr>) [f..t]"
proof (induction "nat (t + 1 - f)" arbitrary: f)
  case (Suc n)
  then have "[f..t] = f # [f + 1..t]" by (simp add: upto_rec1)
  moreover have "history_loop profile past future st [f + 1..t] (history_upto profile st (f + 1 - 1))
      = map (\<lambda>s. \<lparr>se_slot = s, se_request_count = sl_count (slot_stats_for profile s st),
        se_average_error = sl_average (slot_stats_for profile s st),
        se_window_error = some_if_any (ws_count (window_stats_for profile s past future st))
          (ws_average (window_stats_for profile s past future st)),
        se_cumulative_error = some_if_any (snd (history_upto profile st s))
          (fst (history_upto profile st s) / real (snd (history_upto profile st s)))\<rparr>) [f + 1..t]"
    by (rule Suc.hyps) (use Suc.hyps(2) Suc.prems in auto)
  ultimately show ?case using history_upto_step [OF Suc.prems(1), of profile st] by (simp add: Let_def)
qed simp

text \<open>
  The error history is a faithful time series. When \<open>GET /v1/metrics/error-history\<close> answers,
  it has one row per slot of the requested range, in order; the count of a row is the number of
  committed assignments of the profile in that slot, and the cumulative error of a row is the mean
  error of all of the profile's assignments from slot 0 up to that slot, including the slots
  before the range, and is absent exactly when there is none.
\<close>

theorem error_history_is_cumulative_mean:
  assumes "get_error_history q app = Inr r"
    and "resolve_profile_query (aq_qos_profile_id q) app = Inr profile"
  shows "map se_slot (eh_slots r) =
      [case aq_from_slot q of Some s \<Rightarrow> s | None \<Rightarrow> 0 ..
       case aq_to_slot q of Some s \<Rightarrow> s | None \<Rightarrow> in_current_slot (ss_inner (ap_shared app))]
    \<and> (\<forall>row\<in>set (eh_slots r).
        let upto_row = filter (\<lambda>a. in_profile profile (as_qos_profile_id a) \<and> 0 \<le> as_scheduled_slot a
              \<and> as_scheduled_slot a \<le> se_slot row) (hm_values (in_assignments (ss_inner (ap_shared app))))
        in se_request_count row = length (filter (\<lambda>a. as_scheduled_slot a = se_slot row) upto_row)
         \<and> se_cumulative_error row =
             (if upto_row = [] then None else Some (sum_list (map as_error upto_row) / real (length upto_row))))"
proof -
  let ?st = "ss_inner (ap_shared app)"
  define f where "f = (case aq_from_slot q of Some s \<Rightarrow> s | None \<Rightarrow> 0)"
  define t where "t = (case aq_to_slot q of Some s \<Rightarrow> s | None \<Rightarrow> in_current_slot ?st)"
  have f: "0 \<le> f" using assms(1) by (auto simp: get_error_history_def f_def Let_def split: if_splits)
  obtain past future where slots: "eh_slots r = history_loop profile past future ?st [f..t]
      (fold (\<lambda>s. add_slot_stats (slot_stats_for profile s ?st)) [0..f - 1] (0, 0))"
    using assms by (auto simp: get_error_history_def f_def t_def get_current_slot_def Let_def split: if_splits)
  have seed: "fold (\<lambda>s. add_slot_stats (slot_stats_for profile s ?st)) [0..f - 1] (0, 0) = history_upto profile ?st (f - 1)"
    using fold_history [of profile ?st "nat f"] f by simp
  note rows = slots [unfolded seed history_loop_rows [OF f]]
  have "map se_slot (eh_slots r) = [f..t]" by (simp add: rows comp_def)
  moreover have "let upto_row = filter (\<lambda>a. in_profile profile (as_qos_profile_id a) \<and> 0 \<le> as_scheduled_slot a
              \<and> as_scheduled_slot a \<le> se_slot row) (hm_values (in_assignments ?st))
        in se_request_count row = length (filter (\<lambda>a. as_scheduled_slot a = se_slot row) upto_row)
         \<and> se_cumulative_error row =
             (if upto_row = [] then None else Some (sum_list (map as_error upto_row) / real (length upto_row)))"
    if "row \<in> set (eh_slots r)" for row
  proof -
    from that obtain s where s: "f \<le> s" and slot: "se_slot row = s"
      and n: "se_request_count row = sl_count (slot_stats_for profile s ?st)"
      and cum: "se_cumulative_error row = some_if_any (snd (history_upto profile ?st s))
          (fst (history_upto profile ?st s) / real (snd (history_upto profile ?st s)))"
      unfolding rows by auto
    have sel: "(in_profile profile (as_qos_profile_id a) \<and> 0 \<le> as_scheduled_slot a
        \<and> as_scheduled_slot a \<le> s \<and> as_scheduled_slot a = s) = (in_profile profile (as_qos_profile_id a) \<and> as_scheduled_slot a = s)" for a
      using f s by auto
    have sel': "((in_profile profile (as_qos_profile_id a) \<and> 0 \<le> as_scheduled_slot a
        \<and> as_scheduled_slot a \<le> s) \<and> as_scheduled_slot a = s) =
        (in_profile profile (as_qos_profile_id a) \<and> as_scheduled_slot a = s)" for a
      using sel by blast
    show ?thesis
      unfolding slot n cum Let_def filter_filter sel' slot_stats_for_eq slot_stats_of_def slot_error_stats.select_convs
        history_upto_def some_if_any_def fst_conv snd_conv count_where_def error_sum_where_def atLeastAtMost_iff
      by simp
  qed
  ultimately show ?thesis unfolding f_def [symmetric] t_def [symmetric] by blast
qed

lemma error_history_is_cumulative_mean_witness:
  "case get_error_history \<lparr>aq_from_slot = Some 3, aq_to_slot = Some 5, aq_flavour = None, aq_qos_profile_id = None\<rparr> dispatch_app of
     Inl e \<Rightarrow> False
   | Inr r \<Rightarrow> map se_slot (eh_slots r) = [3, 4, 5]
       \<and> (\<forall>row\<in>set (eh_slots r). se_slot row = 3 \<longrightarrow> se_cumulative_error row = Some 5 \<and> se_request_count row = 0)"
proof -
  let ?q = "\<lparr>aq_from_slot = Some 3, aq_to_slot = Some 5, aq_flavour = None, aq_qos_profile_id = None\<rparr>"
  have profile: "resolve_profile_query (aq_qos_profile_id ?q) dispatch_app = Inr None"
    by (simp add: resolve_profile_query_def select_profile_def parse_optional_def)
  have as: "hm_values (in_assignments (ss_inner (ap_shared dispatch_app)))
      = [assignment_new 0 1 0 ''Fast'' 1 5 10 None None, assignment_new 0 2 4 ''Fast'' 1 5 10 None None]"
    by (simp add: dispatch_app_def hm_values_def)
  have "\<exists>r. get_error_history ?q dispatch_app = Inr r"
    using profile by (simp add: get_error_history_def Let_def) (simp add: dispatch_app_def sample_app_def)
  then obtain r where r: "get_error_history ?q dispatch_app = Inr r" by blast
  show ?thesis
    using error_history_is_cumulative_mean [OF r profile]
    unfolding r as by (simp add: in_profile_def assignment_new_def assignment_new_for_profile_def upto_rec1 Let_def)
qed

end
