(* ===== verification/Service.thy ===== *)
theory Service
  imports Scheduler_Props Dispatcher Submission Callbacks Provider_Clock Admin
begin

text \<open>
  The running service: the scheduler of \<open>Scheduler\<close> together with everything the service does to the
  same state, as one step relation. Its steps are the critical sections of the request handlers, of
  the dispatcher task and of the engine; any number of handlers may be between two of theirs.

  \<open>sv_arriving\<close> holds the submissions that have an identifier and are not yet admitted,
  \<open>sv_callbacks\<close> the executor callbacks that have claimed their request and are not yet done. Two
  components are history, read by no step: \<open>sv_finished\<close>, the requests whose callback is done, and
  \<open>sv_sent\<close>, what was posted to the executor.

  The theorems hold of every run: the service refines the scheduler, each request is tracked once, its
  outcome is final, a closed slot stays closed, a poisoned admission lock stops the intake for good,
  and what the dispatcher gave up is reopened only by the loop of the waiting submission.
\<close>

datatype callback_stage = Received | Error_corrected | Priced "f64 option" | Repriced "f64 option"

record 'v callback_run =
  cr_id :: request_id
  cr_body :: "'v executor_callback_payload"
  cr_stage :: callback_stage

datatype dispatcher_phase =
    Resting
  | Looking slot
  | Looked slot "(request_id, assignment) hmap"
  | Sending "(request_id \<times> assignment) list"
  | Posting request_id "(request_id \<times> assignment) list"

record ('r, 'v) service =
  sv_app :: "'v app_state"
  sv_sched :: "'r scheduler_state"
  sv_workers :: "qos_profile_id \<Rightarrow> 'r running option"
  sv_arriving :: "'v prepared list"
  sv_dispatcher :: dispatcher_phase
  sv_callbacks :: "'v callback_run list"
  sv_finished :: "request_id list"
  sv_sent :: "'v executor_dispatch_payload list"

text \<open>The engine's part of the state.\<close>

definition engine_of :: "('r, 'v) service \<Rightarrow> 'r system" where
  "engine_of sv = \<lparr>sy_shared = ap_shared (sv_app sv), sy_sched = sv_sched sv, sy_workers = sv_workers sv\<rparr>"

definition with_engine :: "'r system \<Rightarrow> ('r, 'v) service \<Rightarrow> ('r, 'v) service" where
  "with_engine sy sv = sv\<lparr>sv_app := (sv_app sv)\<lparr>ap_shared := sy_shared sy\<rparr>,
     sv_sched := sy_sched sy, sv_workers := sy_workers sy\<rparr>"

abbreviation on_app :: "'v app_state \<Rightarrow> ('r, 'v) service \<Rightarrow> ('r, 'v) service" where
  "on_app app sv \<equiv> sv\<lparr>sv_app := app\<rparr>"

section \<open>The repricing of a callback, in two critical sections\<close>

definition callback_price ::
    "'v json_api \<Rightarrow> request_id \<Rightarrow> 'v executor_callback_payload \<Rightarrow> 'v app_state \<Rightarrow> f64 option" where
  "callback_price J i body app =
     (case map_of (get_current_assignments (ss_inner (ap_shared app))) i of
        None \<Rightarrow> None
      | Some a \<Rightarrow> corrected_cost (as_carbon_cost a) (carbon_intensity_ratio (as_scheduled_slot a) app)
                    (time_ratio (measured_time J body) (as_flavour_duration a)))"

definition callback_store_price :: "request_id \<Rightarrow> f64 option \<Rightarrow> 'v app_state \<Rightarrow> f64 option \<times> 'v app_state" where
  "callback_store_price i cost app =
     (case cost of
        None \<Rightarrow> (None, app)
      | Some c \<Rightarrow>
         (let (r, st) = correct_assignment_carbon_cost i c (ss_inner (ap_shared app))
          in (r, app\<lparr>ap_shared := with_inner (\<lambda>_. st) (ap_shared app)\<rparr>)))"

text \<open>Without interference the two are the repricing of \<open>Callbacks\<close>.\<close>

lemma callback_reprice_split:
  "callback_reprice J i body app = callback_store_price i (callback_price J i body app) app"
  by (simp add: callback_reprice_def callback_store_price_def callback_price_def split: option.split)

section \<open>The steps\<close>

text \<open>
  \<open>Engine\<close> is a step of the engine itself: one that receives no request. An identifier is reserved
  only while the 64-bit counter does not wrap around.
\<close>

inductive service_step ::
    "'r rng \<Rightarrow> config \<Rightarrow> (string, f64) hmap \<Rightarrow> 'v json_api \<Rightarrow> ('r, 'v) service \<Rightarrow> ('r, 'v) service \<Rightarrow> bool"
  for g :: "'r rng" and cfg :: config and fdb :: "(string, f64) hmap" and J :: "'v json_api" where
  Engine: "system_step g cfg fdb (engine_of sv) sy \<Longrightarrow>
     in_total_received (ss_inner (sy_shared sy)) = in_total_received (ss_inner (ap_shared (sv_app sv))) \<Longrightarrow>
     service_step g cfg fdb J sv (with_engine sy sv)"
| Prepare: "submit_prepare J parse_url body (sv_app sv) = (Inr p, app) \<Longrightarrow> ap_next_id (sv_app sv) + 1 < 2 ^ 64 \<Longrightarrow>
     service_step g cfg fdb J sv (sv\<lparr>sv_app := app, sv_arriving := p # sv_arriving sv\<rparr>)"
| Refuse: "submit_prepare J parse_url body (sv_app sv) = (Inl e, app) \<Longrightarrow> ap_next_id (sv_app sv) + 1 < 2 ^ 64 \<Longrightarrow>
     service_step g cfg fdb J sv (on_app app sv)"
| Admit: "p \<in> set (sv_arriving sv) \<Longrightarrow> admit_request J now p (sv_app sv) = (answer, app) \<Longrightarrow>
     service_step g cfg fdb J sv (sv\<lparr>sv_app := app, sv_arriving := remove1 p (sv_arriving sv)\<rparr>)"
| Poll: "submit_poll expired i pid baseline (sv_app sv) = (answer, app) \<Longrightarrow> service_step g cfg fdb J sv (on_app app sv)"
| Look: "sv_dispatcher sv = Resting \<Longrightarrow>
     service_step g cfg fdb J sv (sv\<lparr>sv_dispatcher := Looking (get_current_slot (ss_inner (ap_shared (sv_app sv))))\<rparr>)"
| Snapshot: "sv_dispatcher sv = Looking s \<Longrightarrow>
     service_step g cfg fdb J sv (sv\<lparr>sv_dispatcher := Looked s (get_current_assignments (ss_inner (ap_shared (sv_app sv))))\<rparr>)"
| Due: "sv_dispatcher sv = Looked s as \<Longrightarrow>
     service_step g cfg fdb J sv (sv\<lparr>sv_dispatcher := Sending (due_assignments t s as (ap_tracked (sv_app sv)))\<rparr>)"
| Rest: "sv_dispatcher sv = Sending [] \<Longrightarrow> service_step g cfg fdb J sv (sv\<lparr>sv_dispatcher := Resting\<rparr>)"
| No_boundary: "sv_dispatcher sv = Sending ((i, a) # ds) \<Longrightarrow>
     dispatch_payload to_rfc3339 decimal null i a (sv_app sv) = Inl e \<Longrightarrow>
     service_step g cfg fdb J sv (sv\<lparr>sv_app := set_status i Failed (Some (NoBoundary e)) (sv_app sv), sv_dispatcher := Sending ds\<rparr>)"
| Dry_run: "sv_dispatcher sv = Sending ((i, a) # ds) \<Longrightarrow>
     dispatch_payload to_rfc3339 decimal null i a (sv_app sv) = Inr payload \<Longrightarrow>
     svc_executor_url (ap_service_cfg (sv_app sv)) = None \<Longrightarrow>
     service_step g cfg fdb J sv (sv\<lparr>sv_app := set_status i Dispatched None (sv_app sv), sv_dispatcher := Sending ds\<rparr>)"
| Post: "sv_dispatcher sv = Sending ((i, a) # ds) \<Longrightarrow>
     dispatch_payload to_rfc3339 decimal null i a (sv_app sv) = Inr payload \<Longrightarrow>
     svc_executor_url (ap_service_cfg (sv_app sv)) = Some url \<Longrightarrow>
     service_step g cfg fdb J sv (sv\<lparr>sv_dispatcher := Posting i ds, sv_sent := payload # sv_sent sv\<rparr>)"
| Posted: "sv_dispatcher sv = Posting i ds \<Longrightarrow>
     service_step g cfg fdb J sv (sv\<lparr>sv_app := dispatch_result t i outcome (sv_app sv), sv_dispatcher := Sending ds\<rparr>)"
| Callback: "callback_claim i (sv_app sv) = (Inr True, app) \<Longrightarrow>
     service_step g cfg fdb J sv (sv\<lparr>sv_app := app,
       sv_callbacks := \<lparr>cr_id = i, cr_body = body, cr_stage = Received\<rparr> # sv_callbacks sv\<rparr>)"
| Correct_error: "sv_callbacks sv = cs @ c # cs' \<Longrightarrow> cr_stage c = Received \<Longrightarrow>
     service_step g cfg fdb J sv (sv\<lparr>sv_app := callback_correct_error J (cr_id c) (cr_body c) (sv_app sv),
       sv_callbacks := cs @ c\<lparr>cr_stage := Error_corrected\<rparr> # cs'\<rparr>)"
| Price: "sv_callbacks sv = cs @ c # cs' \<Longrightarrow> cr_stage c = Error_corrected \<Longrightarrow>
     service_step g cfg fdb J sv (sv\<lparr>sv_callbacks :=
       cs @ c\<lparr>cr_stage := Priced (callback_price J (cr_id c) (cr_body c) (sv_app sv))\<rparr> # cs'\<rparr>)"
| Reprice: "sv_callbacks sv = cs @ c # cs' \<Longrightarrow> cr_stage c = Priced cost \<Longrightarrow>
     callback_store_price (cr_id c) cost (sv_app sv) = (stored, app) \<Longrightarrow>
     service_step g cfg fdb J sv (sv\<lparr>sv_app := app, sv_callbacks := cs @ c\<lparr>cr_stage := Repriced stored\<rparr> # cs'\<rparr>)"
| Finish: "sv_callbacks sv = cs @ c # cs' \<Longrightarrow> cr_stage c = Repriced stored \<Longrightarrow>
     callback_finish J (cr_id c) (cr_body c) stored (sv_app sv) = (answer, app) \<Longrightarrow>
     service_step g cfg fdb J sv (sv\<lparr>sv_app := app, sv_callbacks := cs @ cs', sv_finished := cr_id c # sv_finished sv\<rparr>)"
| Advance: "advance_slot_enter parse_time msg (sv_app sv) = (answer, app) \<Longrightarrow> service_step g cfg fdb J sv (on_app app sv)"
| Close: "close_slot_begin req (sv_app sv) = (answer, app) \<Longrightarrow> service_step g cfg fdb J sv (on_app app sv)"
| Tiers: "(\<And>p w. sv_workers sv p = Some w \<Longrightarrow> \<not> holds_guard (rw_phase w)) \<Longrightarrow>
     force_set_capacity_tiers tiers (sv_app sv) = (answer, app) \<Longrightarrow> service_step g cfg fdb J sv (on_app app sv)"
| Register: "register_qos_profile prof (sv_app sv) = (answer, app) \<Longrightarrow> service_step g cfg fdb J sv (on_app app sv)"

text \<open>
  The service as it starts: the engine is fresh except for its clock, which a realtime service sets
  within the current slot, and nothing is tracked or under way.
\<close>

definition service_init :: "config \<Rightarrow> ('r, 'v) service \<Rightarrow> bool" where
  "service_init cfg sv \<longleftrightarrow>
     (\<exists>now service_cfg forecast ms app.
        app_state_new now (set_virtual_elapsed_ms ms shared_state_new) cfg service_cfg forecast = Some app
        \<and> (sv_app sv = app \<or> (\<exists>al. sv_app sv = set_wall_clock_alignment al app)))
     \<and> sv_sched sv = scheduler_state_new (capacity_tier_revision (ap_shared (sv_app sv)))
     \<and> sv_workers sv = (\<lambda>_. None) \<and> sv_arriving sv = [] \<and> sv_dispatcher sv = Resting
     \<and> sv_callbacks sv = [] \<and> sv_finished sv = [] \<and> sv_sent sv = []"

inductive service_reachable ::
    "'r rng \<Rightarrow> config \<Rightarrow> (string, f64) hmap \<Rightarrow> 'v json_api \<Rightarrow> ('r, 'v) service \<Rightarrow> bool"
  for g :: "'r rng" and cfg :: config and fdb :: "(string, f64) hmap" and J :: "'v json_api" where
  Init: "service_init cfg sv \<Longrightarrow> service_reachable g cfg fdb J sv"
| Step: "service_reachable g cfg fdb J sv \<Longrightarrow> service_step g cfg fdb J sv sv' \<Longrightarrow> service_reachable g cfg fdb J sv'"

section \<open>The engine underneath\<close>

definition internal_step :: "'r rng \<Rightarrow> config \<Rightarrow> (string, f64) hmap \<Rightarrow> 'r system \<Rightarrow> 'r system \<Rightarrow> bool" where
  "internal_step g cfg fdb sy sy' \<longleftrightarrow> system_step g cfg fdb sy sy'
     \<and> in_total_received (ss_inner (sy_shared sy')) = in_total_received (ss_inner (sy_shared sy))"

abbreviation engine_moves :: "'r rng \<Rightarrow> config \<Rightarrow> (string, f64) hmap \<Rightarrow> 'r system \<Rightarrow> 'r system \<Rightarrow> bool" where
  "engine_moves g cfg fdb \<equiv> (internal_step g cfg fdb)\<^sup>*\<^sup>*"

lemma moves_steps: "engine_moves g cfg fdb sy sy' \<Longrightarrow> (system_step g cfg fdb)\<^sup>*\<^sup>* sy sy'"
  by (erule rtranclp_mono [THEN predicate2D, rotated]) (auto simp: internal_step_def)

lemma live_grows:
  assumes "lifecycle_step lc lc'"
  shows "lc_scheduled lc \<subseteq> lc_scheduled lc'"
  using assms by cases auto

lemma moves_inv:
  assumes "engine_moves g cfg fdb sy sy'" and "config_ok g cfg" and "system_inv cfg sy"
  shows "system_inv cfg sy' \<and> known_ids sy' = known_ids sy \<and> live_ids sy \<subseteq> live_ids sy'"
  using assms(1)
proof (induction rule: rtranclp_induct)
  case (step y z)
  then have st: "system_step g cfg fdb y z" "in_total_received (ss_inner (sy_shared z)) = in_total_received (ss_inner (sy_shared y))"
    and inv: "system_inv cfg y" by (simp_all add: internal_step_def)
  have "live_ids y \<subseteq> live_ids z" using live_grows [OF step_lifecycle [OF inv st(1)]] by (simp add: lifecycle_of_def)
  with step.IH inv_step [OF st(1) assms(2) inv] known_ids_step [OF assms(2) inv st] show ?case by auto
qed (use assms(3) in simp)

lemma engine_sel [simp]:
  "sy_shared (engine_of sv) = ap_shared (sv_app sv)" "sy_sched (engine_of sv) = sv_sched sv"
  "sy_workers (engine_of sv) = sv_workers sv"
  by (simp_all add: engine_of_def)

lemma engine_of_with [simp]: "engine_of (with_engine sy sv) = sy"
  by (simp add: engine_of_def with_engine_def)

lemma engine_eqI:
  "ap_shared (sv_app sv') = ap_shared (sv_app sv) \<Longrightarrow> sv_sched sv' = sv_sched sv \<Longrightarrow> sv_workers sv' = sv_workers sv
   \<Longrightarrow> engine_of sv' = engine_of sv"
  by (simp add: engine_of_def)

lemma one_move:
  assumes "system_step g cfg fdb (engine_of sv) (engine_of sv')"
    and "in_total_received (ss_inner (ap_shared (sv_app sv'))) = in_total_received (ss_inner (ap_shared (sv_app sv)))"
  shows "engine_moves g cfg fdb (engine_of sv) (engine_of sv')"
  using assms by (intro r_into_rtranclp) (simp add: internal_step_def)

text \<open>The parts of the service that do not concern the engine's workers.\<close>

definition same_workers :: "('r, 'v) service \<Rightarrow> ('r, 'v) service \<Rightarrow> bool" where
  "same_workers sv sv' \<longleftrightarrow> sv_sched sv' = sv_sched sv \<and> sv_workers sv' = sv_workers sv"

lemma engine_shared: "same_workers sv sv' \<Longrightarrow> engine_of sv' = (engine_of sv)\<lparr>sy_shared := ap_shared (sv_app sv')\<rparr>"
  by (simp add: engine_of_def same_workers_def)

lemma moves_refl: "same_workers sv sv' \<Longrightarrow> ap_shared (sv_app sv') = ap_shared (sv_app sv)
    \<Longrightarrow> engine_moves g cfg fdb (engine_of sv) (engine_of sv')"
  by (simp add: engine_of_def same_workers_def)

lemma moves_feedback:
  assumes "same_workers sv sv'"
    and "ap_shared (sv_app sv') = with_inner (correct_assignment_error i err) (ap_shared (sv_app sv))"
  shows "engine_moves g cfg fdb (engine_of sv) (engine_of sv')"
proof (rule one_move)
  show "system_step g cfg fdb (engine_of sv) (engine_of sv')"
    using system_step.Feedback [of g cfg fdb "engine_of sv" i err] by (simp add: engine_shared [OF assms(1)] assms(2))
qed (simp add: assms(2) correct_assignment_error_frame)

lemma moves_feedback_cost:
  assumes "same_workers sv sv'"
    and "ap_shared (sv_app sv') = with_inner (snd \<circ> correct_assignment_carbon_cost i cost) (ap_shared (sv_app sv))"
  shows "engine_moves g cfg fdb (engine_of sv) (engine_of sv')"
proof (rule one_move)
  show "system_step g cfg fdb (engine_of sv) (engine_of sv')"
    using system_step.Feedback_cost [of g cfg fdb "engine_of sv" i cost] by (simp add: engine_shared [OF assms(1)] assms(2))
qed (simp add: assms(2) correct_assignment_carbon_cost_frame)

lemma moves_advance:
  assumes "same_workers sv sv'"
    and "ap_shared (sv_app sv') = snd (advance_to_next_slot n eff (ap_shared (sv_app sv)))"
  shows "engine_moves g cfg fdb (engine_of sv) (engine_of sv')"
proof -
  obtain ms s where shared: "ap_shared (sv_app sv') = with_inner (set_current_slot s) (set_virtual_elapsed_ms ms (ap_shared (sv_app sv)))"
    by (simp add: assms(2) advance_to_next_slot_def Let_def)
  let ?mid = "(engine_of sv)\<lparr>sy_shared := set_virtual_elapsed_ms ms (ap_shared (sv_app sv))\<rparr>"
  have "internal_step g cfg fdb (engine_of sv) ?mid"
    using system_step.Clock [of g cfg fdb "engine_of sv" ms] by (simp add: internal_step_def set_virtual_elapsed_ms_def)
  moreover have "internal_step g cfg fdb ?mid (engine_of sv')"
    using system_step.Slot [of g cfg fdb ?mid s]
    by (simp add: internal_step_def engine_shared [OF assms(1)] shared set_current_slot_frame)
  ultimately show ?thesis by (meson converse_rtranclp_into_rtranclp r_into_rtranclp)
qed

lemma moves_flush:
  assumes "same_workers sv sv'" and "ap_shared (sv_app sv') = request_pending_flush s (ap_shared (sv_app sv))"
  shows "engine_moves g cfg fdb (engine_of sv) (engine_of sv')"
proof (rule one_move)
  show "system_step g cfg fdb (engine_of sv) (engine_of sv')"
    using system_step.Flush [of g cfg fdb "engine_of sv" s] by (simp add: engine_shared [OF assms(1)] assms(2))
qed (simp add: assms(2) request_pending_flush_def)

lemma moves_tiers:
  assumes "same_workers sv sv'" and "ap_shared (sv_app sv') = replace_capacity_tiers tiers (ap_shared (sv_app sv))"
    and "\<And>p w. sv_workers sv p = Some w \<Longrightarrow> \<not> holds_guard (rw_phase w)"
  shows "engine_moves g cfg fdb (engine_of sv) (engine_of sv')"
proof (rule one_move)
  show "system_step g cfg fdb (engine_of sv) (engine_of sv')"
    using system_step.Replace_tiers [of "engine_of sv" g cfg fdb tiers] assms(3)
    by (simp add: engine_shared [OF assms(1)] assms(2))
qed (simp add: assms(2) replace_capacity_tiers_def)

section \<open>What a step does to the tracked requests\<close>

text \<open>
  A change that leaves the set of tracked requests, what they are, which of them have been called
  back, and everything of those that have.
\<close>

definition keeps_request :: "'v tracked_request \<Rightarrow> 'v tracked_request \<Rightarrow> bool" where
  "keeps_request t t' \<longleftrightarrow> tr_executor_callback_received t' = tr_executor_callback_received t
     \<and> tr_arrival_slot t' = tr_arrival_slot t \<and> (tr_executor_callback_received t \<longrightarrow> t' = t)"

definition keeps_tracked :: "'v app_state \<Rightarrow> 'v app_state \<Rightarrow> bool" where
  "keeps_tracked app app' \<longleftrightarrow> ap_next_id app \<le> ap_next_id app'
     \<and> (hm_wf (ap_tracked app) \<longrightarrow> hm_wf (ap_tracked app'))
     \<and> (\<forall>i. rel_option keeps_request (map_of (ap_tracked app) i) (map_of (ap_tracked app') i))"

lemma keeps_request_refl [simp]: "keeps_request t t"
  by (simp add: keeps_request_def)

lemma keeps_same [intro]: "ap_tracked app' = ap_tracked app \<Longrightarrow> ap_next_id app \<le> ap_next_id app' \<Longrightarrow> keeps_tracked app app'"
  by (simp add: keeps_tracked_def option.rel_refl)

lemma update_tracked_next [simp]: "ap_next_id (update_tracked i f app) = ap_next_id app"
  by (simp add: update_tracked_def split: option.split)

lemma keeps_update:
  assumes "\<And>t. keeps_request t (f t)"
  shows "keeps_tracked app (update_tracked i f app)"
  using assms by (auto simp: keeps_tracked_def update_tracked_def map_simps option.rel_refl split: option.split)

lemma keeps_set_status: "keeps_tracked app (set_status i s e app)"
  unfolding set_status_def by (rule keeps_update) (simp add: keeps_request_def)

lemma keeps_record_failure: "keeps_tracked app (record_failure t i e app)"
  unfolding record_failure_def Let_def by (rule keeps_update) (simp add: keeps_request_def)

lemma keeps_dispatch_result: "keeps_tracked app (dispatch_result t i outcome app)"
  by (cases outcome) (simp_all add: keeps_set_status keeps_record_failure)

lemma keeps_poll:
  assumes "submit_poll expired i pid baseline app = (answer, app')"
  shows "keeps_tracked app app' \<and> ap_shared app' = ap_shared app \<and> ap_closed_through app' = ap_closed_through app
    \<and> ap_scheduler app' = ap_scheduler app \<and> ap_admission_poisoned app' = ap_admission_poisoned app"
proof (cases "map_of (get_current_assignments (ss_inner (ap_shared app))) i")
  case (Some a)
  then have "app' = update_tracked i (\<lambda>t. if \<not> tr_executor_callback_received t then t\<lparr>tr_status := Scheduled\<rparr> else t) app"
    using assms by (simp add: submit_poll_def)
  moreover have "keeps_tracked app \<dots>" by (rule keeps_update) (simp add: keeps_request_def)
  ultimately show ?thesis by (simp add: update_tracked_def split: option.split)
qed (use assms in \<open>auto simp: submit_poll_def\<close>)

lemma dispatch_result_sel [simp]:
  "ap_shared (dispatch_result t i outcome app) = ap_shared app"
  "ap_shared (set_status i s e app) = ap_shared app"
  by (cases outcome; simp add: set_status_def record_failure_def Let_def)+

lemma advance_effect:
  assumes "advance_slot_enter parse msg app = (answer, app')"
  shows "ap_tracked app' = ap_tracked app \<and> ap_next_id app' = ap_next_id app \<and> ap_closed_through app' = ap_closed_through app
    \<and> ap_scheduler app' = ap_scheduler app \<and> ap_admission_poisoned app' = ap_admission_poisoned app
    \<and> (ap_shared app' = ap_shared app \<or> (\<exists>n eff. ap_shared app' = snd (advance_to_next_slot n eff (ap_shared app))))"
proof -
  have upd: "ap_tracked app1 = ap_tracked app \<and> ap_next_id app1 = ap_next_id app \<and> ap_closed_through app1 = ap_closed_through app
      \<and> ap_scheduler app1 = ap_scheduler app \<and> ap_admission_poisoned app1 = ap_admission_poisoned app \<and> ap_shared app1 = ap_shared app"
    if "update_slot_epoch_offset x app = (off, app1)" for x off app1
    using that by (auto simp: update_slot_epoch_offset_def Let_def split: option.splits)
  have enter: "ap_tracked app3 = ap_tracked app2 \<and> ap_next_id app3 = ap_next_id app2 \<and> ap_closed_through app3 = ap_closed_through app2
      \<and> ap_scheduler app3 = ap_scheduler app2 \<and> ap_admission_poisoned app3 = ap_admission_poisoned app2
      \<and> (ap_shared app3 = ap_shared app2 \<or> (\<exists>n eff. ap_shared app3 = snd (advance_to_next_slot n eff (ap_shared app2))))"
    if "enter_slot kind target app2 = Inr app3" for kind target and app2 app3 :: "'a app_state"
  proof (cases "kind = ''announce''")
    case True
    then show ?thesis using that by (simp add: enter_slot_def split: if_splits)
  next
    case False
    then have "app3 = app2\<lparr>ap_shared := snd (advance_to_next_slot (ssc_total_slots (ap_scheduler app2))
        (ssc_effective_slot_duration_secs (ap_scheduler app2)) (ap_shared app2))\<rparr>"
      using that by (simp add: enter_slot_def)
    then show ?thesis by auto
  qed
  consider "app' = app"
    | app1 off x where "update_slot_epoch_offset x app = (off, app1)" "app' = app1"
    | app1 off x target utc app2 where "update_slot_epoch_offset x app = (off, app1)" "anchor_slot parse target utc app1 = Inr app2" "app' = app2"
    | app1 off x target utc app2 kind app3 o1 ps ob t2 where "update_slot_epoch_offset x app = (off, app1)"
        "anchor_slot parse target utc app1 = Inr app2" "enter_slot kind target app2 = Inr app3"
        "app' = record_forecast o1 ps (record_observation t2 ob app3)"
    using assms unfolding advance_slot_enter_def Let_def
    by (auto split: if_splits option.splits prod.splits sum.splits)
  then show ?thesis
  proof cases
    case 2 then show ?thesis using upd by blast
  next
    case 3 then show ?thesis using upd anchor_slot_sel [OF 3(2)] by simp
  next
    case 4 then show ?thesis using upd [OF 4(1)] anchor_slot_sel [OF 4(2)] enter [OF 4(3)] by auto
  qed simp
qed

section \<open>The invariant\<close>

abbreviation callback_ids :: "('r, 'v) service \<Rightarrow> request_id list" where
  "callback_ids sv \<equiv> map cr_id (sv_callbacks sv)"

definition called_back :: "'v app_state \<Rightarrow> request_id \<Rightarrow> bool" where
  "called_back app i \<longleftrightarrow> (\<exists>t. map_of (ap_tracked app) i = Some t \<and> tr_executor_callback_received t)"

text \<open>What is tracked, and what is about to be.\<close>

definition admissions_ok :: "('r, 'v) service \<Rightarrow> bool" where
  "admissions_ok sv \<longleftrightarrow>
     hm_wf (ap_tracked (sv_app sv)) \<and> dom (map_of (ap_tracked (sv_app sv))) = known_ids (engine_of sv)
     \<and> (\<forall>i\<in>known_ids (engine_of sv). i < ap_next_id (sv_app sv))
     \<and> distinct (map pr_request_id (sv_arriving sv))
     \<and> (\<forall>p\<in>set (sv_arriving sv). pr_request_id p < ap_next_id (sv_app sv)
          \<and> pr_request_id p \<notin> known_ids (engine_of sv))"

text \<open>Which requests have been called back.\<close>

definition callbacks_ok :: "('r, 'v) service \<Rightarrow> bool" where
  "callbacks_ok sv \<longleftrightarrow>
     distinct (sv_finished sv @ callback_ids sv)
     \<and> (\<forall>i. i \<in> set (sv_finished sv @ callback_ids sv) \<longleftrightarrow> called_back (sv_app sv) i)
     \<and> (\<forall>i\<in>set (sv_finished sv). \<exists>t. map_of (ap_tracked (sv_app sv)) i = Some t \<and> terminal t)"

definition service_inv :: "config \<Rightarrow> ('r, 'v) service \<Rightarrow> bool" where
  "service_inv cfg sv \<longleftrightarrow> system_inv cfg (engine_of sv) \<and> admissions_ok sv \<and> callbacks_ok sv"

lemma keeps_dom: "keeps_tracked app app' \<Longrightarrow> dom (map_of (ap_tracked app')) = dom (map_of (ap_tracked app))"
  unfolding keeps_tracked_def by (auto simp: dom_def) (metis option.rel_distinct not_Some_eq)+

lemma keeps_lookup:
  assumes "keeps_tracked app app'"
  shows "map_of (ap_tracked app) i = Some t \<Longrightarrow> \<exists>t'. map_of (ap_tracked app') i = Some t' \<and> keeps_request t t'"
    and "map_of (ap_tracked app') i = Some t' \<Longrightarrow> \<exists>t. map_of (ap_tracked app) i = Some t \<and> keeps_request t t'"
proof -
  have "rel_option keeps_request (map_of (ap_tracked app) i) (map_of (ap_tracked app') i)"
    using assms by (simp add: keeps_tracked_def)
  then show "map_of (ap_tracked app) i = Some t \<Longrightarrow> \<exists>t'. map_of (ap_tracked app') i = Some t' \<and> keeps_request t t'"
    and "map_of (ap_tracked app') i = Some t' \<Longrightarrow> \<exists>t. map_of (ap_tracked app) i = Some t \<and> keeps_request t t'"
    by (cases rule: option.rel_cases; simp)+
qed

lemma keeps_called_back: "keeps_tracked app app' \<Longrightarrow> called_back app' i = called_back app i"
  unfolding called_back_def using keeps_lookup [of app app' i] by (fastforce simp: keeps_request_def)

lemma keeps_called_lookup:
  assumes "keeps_tracked app app'" and "called_back app i"
  shows "map_of (ap_tracked app') i = map_of (ap_tracked app) i"
  using assms(2) keeps_lookup(1) [OF assms(1)] by (fastforce simp: called_back_def keeps_request_def)

lemma callbacks_quiet:
  assumes ok: "callbacks_ok sv" and keeps: "keeps_tracked (sv_app sv) (sv_app sv')"
    and "sv_finished sv' = sv_finished sv" and "callback_ids sv' = callback_ids sv"
  shows "callbacks_ok sv'"
proof -
  have "map_of (ap_tracked (sv_app sv')) i = map_of (ap_tracked (sv_app sv)) i" if "i \<in> set (sv_finished sv)" for i
    by (rule keeps_called_lookup [OF keeps]) (use ok that in \<open>auto simp: callbacks_ok_def\<close>)
  then show ?thesis using ok assms(3,4) unfolding callbacks_ok_def keeps_called_back [OF keeps] by simp
qed

text \<open>A step that admits nothing and starts or ends no callback.\<close>

lemma inv_quiet:
  assumes inv: "service_inv cfg sv" and cfg: "config_ok g cfg"
    and moves: "engine_moves g cfg fdb (engine_of sv) (engine_of sv')"
    and keeps: "keeps_tracked (sv_app sv) (sv_app sv')"
    and "sv_finished sv' = sv_finished sv" and "callback_ids sv' = callback_ids sv"
    and arriving: "distinct (map pr_request_id (sv_arriving sv'))"
      "\<And>p. p \<in> set (sv_arriving sv') \<Longrightarrow> p \<in> set (sv_arriving sv)
         \<or> pr_request_id p = ap_next_id (sv_app sv) \<and> ap_next_id (sv_app sv) < ap_next_id (sv_app sv')"
  shows "service_inv cfg sv'"
proof -
  have engine: "system_inv cfg (engine_of sv')" "known_ids (engine_of sv') = known_ids (engine_of sv)"
    using moves_inv [OF moves cfg] inv by (simp_all add: service_inv_def)
  have adm: "admissions_ok sv" and cb: "callbacks_ok sv" using inv by (simp_all add: service_inv_def)
  have up: "ap_next_id (sv_app sv) \<le> ap_next_id (sv_app sv')" "hm_wf (ap_tracked (sv_app sv'))"
    using keeps adm by (simp_all add: keeps_tracked_def admissions_ok_def)
  have low: "i \<in> known_ids (engine_of sv) \<Longrightarrow> i < ap_next_id (sv_app sv')" for i
    using adm up(1) by (fastforce simp: admissions_ok_def)
  have new: "pr_request_id p < ap_next_id (sv_app sv') \<and> pr_request_id p \<notin> known_ids (engine_of sv)"
    if "p \<in> set (sv_arriving sv')" for p
    using arriving(2) [OF that] adm up(1) by (fastforce simp: admissions_ok_def)
  have "dom (map_of (ap_tracked (sv_app sv'))) = known_ids (engine_of sv)"
    using adm keeps_dom [OF keeps] by (simp add: admissions_ok_def)
  then have "admissions_ok sv'"
    unfolding admissions_ok_def engine(2) using up(2) low arriving(1) new by auto
  with engine(1) callbacks_quiet [OF cb keeps assms(5,6)] show ?thesis by (simp add: service_inv_def)
qed

lemma inv_still:
  assumes "service_inv cfg sv" and "config_ok g cfg" and "engine_moves g cfg fdb (engine_of sv) (engine_of sv')"
    and "keeps_tracked (sv_app sv) (sv_app sv')"
    and "sv_finished sv' = sv_finished sv" and "callback_ids sv' = callback_ids sv" and "sv_arriving sv' = sv_arriving sv"
  shows "service_inv cfg sv'"
  using assms(1) by (intro inv_quiet [OF assms(1-6)]) (simp_all add: assms(7) service_inv_def admissions_ok_def)

lemma arriving_removed:
  assumes "distinct (map pr_request_id ps)" and "p \<in> set ps"
  shows "distinct (map pr_request_id (remove1 p ps))" and "q \<in> set (remove1 p ps) \<Longrightarrow> pr_request_id q \<noteq> pr_request_id p"
proof -
  show "distinct (map pr_request_id (remove1 p ps))"
    using assms(1) set_remove1_subset [of p] by (induction ps) (auto dest!: subsetD [OF set_remove1_subset])
  have "distinct ps" using assms(1) by (simp add: distinct_map)
  then show "q \<in> set (remove1 p ps) \<Longrightarrow> pr_request_id q \<noteq> pr_request_id p"
    using assms by (auto simp: set_remove1_eq distinct_map dest: inj_onD)
qed

text \<open>An admission, refused or accepted.\<close>

lemma admit_cases:
  assumes "admit_request J now p app = (answer, app')"
  shows "(ap_tracked app' = ap_tracked app \<and> ap_shared app' = ap_shared app \<and> ap_next_id app' = ap_next_id app
          \<and> ap_closed_through app' = ap_closed_through app \<and> ap_scheduler app' = ap_scheduler app
          \<and> (\<forall>x. answer \<noteq> Some (Inr x)))
    \<or> (\<exists>pid cost. answer = Some (Inr (pid, cost)))"
proof (cases "\<exists>x. answer = Some (Inr x)")
  case False
  obtain b app1 where b: "compute_baseline_carbon_cost (pr_arrival_slot p) (qp_flavours (pr_profile p)) app = (b, app1)"
    by fastforce
  note f = baseline_frame [OF b]
  have "ap_tracked app1 = ap_tracked app" "ap_shared app1 = ap_shared app" "ap_next_id app1 = ap_next_id app"
    "ap_closed_through app1 = ap_closed_through app" "ap_scheduler app1 = ap_scheduler app"
    by (subst f, simp)+
  then show ?thesis
    using assms b False by (auto simp: admit_request_def Let_def split: if_splits option.splits)
qed (use assms in auto)

lemma inv_admitted:
  assumes inv: "service_inv cfg sv" and cfg: "config_ok g cfg" and p: "p \<in> set (sv_arriving sv)"
    and run: "admit_request J now p (sv_app sv) = (Some (Inr (pid, cost)), app)"
    and sv': "sv' = sv\<lparr>sv_app := app, sv_arriving := remove1 p (sv_arriving sv)\<rparr>"
  shows "service_inv cfg sv' \<and> system_step g cfg fdb (engine_of sv) (engine_of sv')
    \<and> (ssc_manual_clock (ap_scheduler (sv_app sv)) \<longrightarrow> ap_closed_through (sv_app sv) < pr_arrival_slot p)"
proof -
  obtain payload duration counts where fl: "qp_flavours (pr_profile p) \<noteq> []"
    and fence: "ssc_manual_clock (ap_scheduler (sv_app sv)) \<Longrightarrow> ap_closed_through (sv_app sv) < pr_arrival_slot p"
    and app: "app = (sv_app sv)\<lparr>ap_baseline_slot_counts := counts,
        ap_tracked := hm_insert (pr_request_id p)
          (tracked_request_new (pr_callback_url p) payload cost duration (pr_arrival_slot p)
             (qp_profile_id (pr_profile p))) (ap_tracked (sv_app sv)),
        ap_shared := with_inner (add_request (request_new_for_qos_profile now (pr_request_id p)
          (pr_arrival_slot p) (pr_deadline_slot p) (pr_profile p))) (ap_shared (sv_app sv))\<rparr>"
    by (rule admit_accepted [OF run], rule that)
  let ?r = "request_new_for_qos_profile now (pr_request_id p) (pr_arrival_slot p) (pr_deadline_slot p) (pr_profile p)"
  have r: "request_ok ?r" "rq_id ?r = pr_request_id p"
    using fl by (simp_all add: request_ok_def request_new_for_qos_profile_def)
  have adm: "admissions_ok sv" and back_ok: "callbacks_ok sv" and eng: "system_inv cfg (engine_of sv)"
    using inv by (simp_all add: service_inv_def)
  have fresh_id: "pr_request_id p < ap_next_id (sv_app sv)" "pr_request_id p \<notin> known_ids (engine_of sv)"
    using adm p by (auto simp: admissions_ok_def)
  have engine': "engine_of sv' = on_inner (add_request ?r) (engine_of sv)" by (simp add: engine_of_def sv' app)
  have step: "system_step g cfg fdb (engine_of sv) (engine_of sv')"
    unfolding engine' by (rule system_step.Submit) (use r fresh_id in simp_all)
  have known: "known_ids (engine_of sv') = insert (pr_request_id p) (known_ids (engine_of sv))"
    using r(2) by (auto simp: engine' known_ids_def queued_ids_def live_ids_def add_request_def)
  have lookup: "map_of (ap_tracked app) = (map_of (ap_tracked (sv_app sv)))(pr_request_id p \<mapsto>
      tracked_request_new (pr_callback_url p) payload cost duration (pr_arrival_slot p) (qp_profile_id (pr_profile p)))"
    by (simp add: app map_simps)
  have fresh: "\<not> called_back (sv_app sv) (pr_request_id p)"
    using adm fresh_id(2) by (auto simp: admissions_ok_def called_back_def)
  then have same_called: "called_back app i = called_back (sv_app sv) i" for i
    by (auto simp: called_back_def lookup tracked_request_new_def)
  have "pr_request_id p \<notin> set (sv_finished sv)" using back_ok fresh by (auto simp: callbacks_ok_def)
  then have "callbacks_ok sv'"
    using back_ok by (auto simp: callbacks_ok_def sv' same_called lookup)
  moreover have "admissions_ok sv'"
    using adm fresh_id arriving_removed [of "sv_arriving sv" p] p
    unfolding admissions_ok_def known by (auto simp: sv' lookup app map_simps dest: notin_set_remove1)
  ultimately show ?thesis
    using step inv_step [OF step cfg eng] fence by (simp add: service_inv_def)
qed

section \<open>Every step keeps the invariant\<close>

lemma prepare_effect:
  assumes "submit_prepare J parse body app = (answer, app')"
  shows "ap_tracked app' = ap_tracked app \<and> ap_shared app' = ap_shared app \<and> ap_closed_through app' = ap_closed_through app
    \<and> ap_scheduler app' = ap_scheduler app \<and> ap_admission_poisoned app' = ap_admission_poisoned app
    \<and> (ap_next_id app' = ap_next_id app \<or> ap_next_id app' = (ap_next_id app + 1) mod 2 ^ 64)"
  using assms by (auto simp: submit_prepare_def next_request_id_def Let_def split: sum.splits if_splits)

lemma claim_effect:
  assumes "callback_claim i app = (Inr True, app')"
  obtains t where "map_of (ap_tracked app) i = Some t" and "\<not> tr_executor_callback_received t"
    and "app' = app\<lparr>ap_tracked := hm_insert i (t\<lparr>tr_executor_callback_received := True\<rparr>) (ap_tracked app)\<rparr>"
  using assms by (auto simp: callback_claim_def split: option.splits if_splits)

lemma inv_callback:
  assumes inv: "service_inv cfg sv" and claim: "callback_claim i (sv_app sv) = (Inr True, app)"
    and sv': "sv' = sv\<lparr>sv_app := app, sv_callbacks := \<lparr>cr_id = i, cr_body = body, cr_stage = Received\<rparr> # sv_callbacks sv\<rparr>"
  shows "service_inv cfg sv'"
proof -
  obtain t where t: "map_of (ap_tracked (sv_app sv)) i = Some t" "\<not> tr_executor_callback_received t"
    and app: "app = (sv_app sv)\<lparr>ap_tracked := hm_insert i (t\<lparr>tr_executor_callback_received := True\<rparr>) (ap_tracked (sv_app sv))\<rparr>"
    by (rule claim_effect [OF claim])
  have engine: "engine_of sv' = engine_of sv" by (simp add: engine_of_def sv' app)
  have adm: "admissions_ok sv" and cb: "callbacks_ok sv" using inv by (simp_all add: service_inv_def)
  have called: "called_back app j \<longleftrightarrow> j = i \<or> called_back (sv_app sv) j" for j
    using t by (auto simp: called_back_def app map_simps)
  have free: "\<not> called_back (sv_app sv) i" using t by (simp add: called_back_def)
  have "dom (map_of (ap_tracked app)) = dom (map_of (ap_tracked (sv_app sv)))"
    using t(1) by (auto simp: app map_simps)
  with adm have "admissions_ok sv'" unfolding admissions_ok_def engine by (simp add: sv' app)
  moreover have "callbacks_ok sv'"
    using cb free called unfolding callbacks_ok_def by (auto simp: sv') (auto simp: app map_simps)
  ultimately show ?thesis using inv by (simp add: service_inv_def engine)
qed

lemma finish_effect:
  assumes "callback_finish J i body c app = (answer, app')"
  shows "app' = update_tracked i (finished_request J body c app) app"
  using assms by (auto simp: callback_finish_def update_tracked_def Let_def split: option.splits)

lemma finished_request_keeps [simp]:
  "tr_executor_callback_received (finished_request J body c app t) = tr_executor_callback_received t"
  "tr_arrival_slot (finished_request J body c app t) = tr_arrival_slot t"
  "tr_status (finished_request J body c app t) = Completed \<or> tr_status (finished_request J body c app t) = Failed"
  by (simp_all add: finished_request_def Let_def)

lemma inv_finish:
  assumes inv: "service_inv cfg sv" and split: "sv_callbacks sv = cs @ c # cs'"
    and finish: "callback_finish J (cr_id c) (cr_body c) stored (sv_app sv) = (answer, app)"
    and sv': "sv' = sv\<lparr>sv_app := app, sv_callbacks := cs @ cs', sv_finished := cr_id c # sv_finished sv\<rparr>"
  shows "service_inv cfg sv'"
proof -
  have adm: "admissions_ok sv" and cb: "callbacks_ok sv" using inv by (simp_all add: service_inv_def)
  have "called_back (sv_app sv) (cr_id c)" using cb split by (auto simp: callbacks_ok_def)
  then obtain t where t: "map_of (ap_tracked (sv_app sv)) (cr_id c) = Some t" "tr_executor_callback_received t"
    by (auto simp: called_back_def)
  let ?t = "finished_request J (cr_body c) stored (sv_app sv) t"
  have app: "app = (sv_app sv)\<lparr>ap_tracked := hm_insert (cr_id c) ?t (ap_tracked (sv_app sv))\<rparr>"
    using finish_effect [OF finish] t(1) by (simp add: update_tracked_def)
  have engine: "engine_of sv' = engine_of sv" by (simp add: engine_of_def sv' app)
  have called: "called_back app j = called_back (sv_app sv) j" for j
    using t by (auto simp: called_back_def app map_simps)
  have "dom (map_of (ap_tracked app)) = dom (map_of (ap_tracked (sv_app sv)))"
    using t(1) by (auto simp: app map_simps)
  with adm have "admissions_ok sv'" unfolding admissions_ok_def engine by (simp add: sv' app)
  moreover have "callbacks_ok sv'"
  proof -
    have ids: "set (sv_finished sv' @ callback_ids sv') = set (sv_finished sv @ callback_ids sv)"
      by (auto simp: sv' split)
    have "distinct (sv_finished sv' @ callback_ids sv')"
      using cb by (auto simp: callbacks_ok_def sv' split)
    moreover have "terminal ?t" using t(2) by (simp add: terminal_def)
    ultimately show ?thesis
      using cb unfolding callbacks_ok_def ids by (auto simp: called sv') (auto simp: app map_simps)
  qed
  ultimately show ?thesis using inv by (simp add: service_inv_def engine)
qed

lemma correct_error_effect:
  "ap_tracked (callback_correct_error J i body app) = ap_tracked app
   \<and> ap_next_id (callback_correct_error J i body app) = ap_next_id app
   \<and> ap_admission_poisoned (callback_correct_error J i body app) = ap_admission_poisoned app
   \<and> (ap_shared (callback_correct_error J i body app) = ap_shared app
      \<or> (\<exists>err. ap_shared (callback_correct_error J i body app) = with_inner (correct_assignment_error i err) (ap_shared app)))"
  by (cases "result_number J body ''actual_error_pct''") (auto simp: callback_correct_error_def)

lemma store_price_effect:
  assumes "callback_store_price i cost app = (stored, app')"
  shows "ap_tracked app' = ap_tracked app \<and> ap_next_id app' = ap_next_id app
   \<and> ap_admission_poisoned app' = ap_admission_poisoned app
   \<and> (ap_shared app' = ap_shared app
      \<or> (\<exists>c. ap_shared app' = with_inner (snd \<circ> correct_assignment_carbon_cost i c) (ap_shared app)))"
proof (cases cost)
  case (Some c)
  then have "app' = app\<lparr>ap_shared := with_inner (\<lambda>_. snd (correct_assignment_carbon_cost i c (ss_inner (ap_shared app)))) (ap_shared app)\<rparr>"
    using assms by (auto simp: callback_store_price_def split: prod.splits)
  moreover have "with_inner (\<lambda>_. snd (correct_assignment_carbon_cost i c (ss_inner (ap_shared app)))) (ap_shared app)
      = with_inner (snd \<circ> correct_assignment_carbon_cost i c) (ap_shared app)" by (simp add: with_inner_def)
  ultimately show ?thesis by (intro conjI disjI2 exI [of _ c]) simp_all
qed (use assms in \<open>simp add: callback_store_price_def\<close>)

lemma same_workersI [intro]: "sv_sched sv' = sv_sched sv \<Longrightarrow> sv_workers sv' = sv_workers sv \<Longrightarrow> same_workers sv sv'"
  by (simp add: same_workers_def)

lemma close_effect:
  assumes "close_slot_begin req app = (answer, app')"
  shows "ap_tracked app' = ap_tracked app \<and> ap_next_id app' = ap_next_id app \<and> ap_scheduler app' = ap_scheduler app
    \<and> ap_admission_poisoned app' = ap_admission_poisoned app
    \<and> ap_closed_through app \<le> ap_closed_through app'
    \<and> (ap_shared app' = ap_shared app \<or> (\<exists>s. ap_shared app' = request_pending_flush s (ap_shared app)))"
proof (cases "\<exists>s. answer = Some (Inr s)")
  case True
  then show ?thesis using close_slot_begin_accepted(1,3) assms by fastforce
next
  case False
  then show ?thesis using close_slot_begin_rejected [OF assms] by auto
qed

lemma tiers_effect:
  assumes "force_set_capacity_tiers tiers app = (answer, app')"
  shows "app' = app \<or> app' = app\<lparr>ap_shared := replace_capacity_tiers tiers (ap_shared app)\<rparr>"
  using assms by (auto simp: force_set_capacity_tiers_def split: if_splits option.splits)

lemma register_effect:
  assumes "register_qos_profile prof app = (answer, app')"
  shows "ap_tracked app' = ap_tracked app \<and> ap_next_id app' = ap_next_id app \<and> ap_scheduler app' = ap_scheduler app
    \<and> ap_admission_poisoned app' = ap_admission_poisoned app
    \<and> ap_closed_through app' = ap_closed_through app \<and> ap_shared app' = ap_shared app"
  using assms unfolding register_qos_profile_def Let_def
  by (auto split: sum.splits prod.splits registry_error.splits)

text \<open>
  Every step leaves the engine where it is, moves it by its own steps, or submits one request to it;
  and every step keeps the invariant.
\<close>

lemma service_step_inv:
  assumes step: "service_step g cfg fdb J sv sv'" and cfg: "config_ok g cfg" and inv: "service_inv cfg sv"
  shows "service_inv cfg sv' \<and> (system_step g cfg fdb)\<^sup>*\<^sup>* (engine_of sv) (engine_of sv')"
proof -
  note quiet = inv_still [OF inv cfg] and adm = inv [unfolded service_inv_def admissions_ok_def]
  have by_moves: "service_inv cfg sv' \<and> (system_step g cfg fdb)\<^sup>*\<^sup>* (engine_of sv) (engine_of sv')"
    if "engine_moves g cfg fdb (engine_of sv) (engine_of sv')"
      and "engine_moves g cfg fdb (engine_of sv) (engine_of sv') \<Longrightarrow> service_inv cfg sv'"
    using that moves_steps by blast
  have still: "engine_moves g cfg fdb (engine_of sv) (engine_of sv')"
    if "same_workers sv sv'" "ap_shared (sv_app sv') = ap_shared (sv_app sv)"
    using that by (rule moves_refl)
  from step show ?thesis
  proof cases
    case (Engine sy)
    have engine: "engine_of sv' = sy" by (simp add: Engine(1))
    have "engine_moves g cfg fdb (engine_of sv) (engine_of sv')"
      unfolding engine using Engine(2,3) by (intro r_into_rtranclp) (simp add: internal_step_def)
    then show ?thesis by (intro by_moves quiet) (auto simp: Engine(1) with_engine_def)
  next
    case (Prepare parse body p app)
    note e = prepare_effect [OF Prepare(2)] and p = submit_prepare_Inr(2,3) [OF Prepare(2)]
    have next_id: "ap_next_id app = ap_next_id (sv_app sv) + 1" using p(2) Prepare(3) by simp
    show ?thesis
    proof (rule by_moves)
      show "engine_moves g cfg fdb (engine_of sv) (engine_of sv')" by (rule still) (use e Prepare(1) in auto)
      then show "service_inv cfg sv'"
        by (rule inv_quiet [OF inv cfg]) (use e Prepare(1) p(1) next_id adm in auto)
    qed
  next
    case (Refuse parse body e app)
    note eff = prepare_effect [OF Refuse(2)]
    have "ap_next_id (sv_app sv) \<le> ap_next_id app" using eff Refuse(3) by auto
    then show ?thesis by (intro by_moves still quiet) (use eff Refuse(1) in auto)
  next
    case (Admit p now answer app)
    from admit_cases [OF Admit(3)] show ?thesis
    proof
      assume e: "ap_tracked app = ap_tracked (sv_app sv) \<and> ap_shared app = ap_shared (sv_app sv)
        \<and> ap_next_id app = ap_next_id (sv_app sv) \<and> ap_closed_through app = ap_closed_through (sv_app sv)
        \<and> ap_scheduler app = ap_scheduler (sv_app sv) \<and> (\<forall>x. answer \<noteq> Some (Inr x))"
      show ?thesis
      proof (rule by_moves)
        show "engine_moves g cfg fdb (engine_of sv) (engine_of sv')" by (rule still) (use e Admit(1) in auto)
        then show "service_inv cfg sv'"
          by (rule inv_quiet [OF inv cfg]) (use e Admit(1,2) adm arriving_removed(1) in \<open>auto dest: notin_set_remove1\<close>)
      qed
    next
      assume "\<exists>pid cost. answer = Some (Inr (pid, cost))"
      then show ?thesis using inv_admitted [OF inv cfg Admit(2) _ Admit(1)] Admit(3) by blast
    qed
  next
    case (Poll expired i pid baseline answer app)
    then show ?thesis using keeps_poll [OF Poll(2)] by (intro by_moves still quiet) auto
  next
    case Look
    then show ?thesis by (intro by_moves still quiet) auto
  next
    case (Snapshot s)
    then show ?thesis by (intro by_moves still quiet) auto
  next
    case (Due s as t)
    then show ?thesis by (intro by_moves still quiet) auto
  next
    case Rest
    then show ?thesis by (intro by_moves still quiet) auto
  next
    case (No_boundary i a ds to_rfc decimal null e)
    then show ?thesis by (intro by_moves still quiet) (auto simp: keeps_set_status)
  next
    case (Dry_run i a ds to_rfc decimal null payload)
    then show ?thesis by (intro by_moves still quiet) (auto simp: keeps_set_status)
  next
    case (Post i a ds to_rfc decimal null payload url)
    then show ?thesis by (intro by_moves still quiet) auto
  next
    case (Posted i ds t outcome)
    then show ?thesis by (intro by_moves still quiet) (auto simp: keeps_dispatch_result)
  next
    case (Callback i app body)
    obtain t where "app = (sv_app sv)\<lparr>ap_tracked := hm_insert i (t\<lparr>tr_executor_callback_received := True\<rparr>) (ap_tracked (sv_app sv))\<rparr>"
      by (rule claim_effect [OF Callback(2)])
    then have "engine_of sv' = engine_of sv" by (simp add: engine_of_def Callback(1))
    then show ?thesis using inv_callback [OF inv Callback(2,1)] by simp
  next
    case (Correct_error cs c cs')
    note e = correct_error_effect [of J "cr_id c" "cr_body c" "sv_app sv"]
    have workers: "same_workers sv sv'" by (rule same_workersI) (simp_all add: Correct_error(1))
    have "engine_moves g cfg fdb (engine_of sv) (engine_of sv')"
    proof (cases "ap_shared (sv_app sv') = ap_shared (sv_app sv)")
      case False
      with e obtain err where "ap_shared (sv_app sv') = with_inner (correct_assignment_error (cr_id c) err) (ap_shared (sv_app sv))" by (auto simp: Correct_error(1))
      then show ?thesis by (rule moves_feedback [OF workers])
    qed (rule moves_refl [OF workers])
    then show ?thesis by (intro by_moves quiet) (use e Correct_error in auto)
  next
    case (Price cs c cs')
    then show ?thesis by (intro by_moves still quiet) auto
  next
    case (Reprice cs c cs' cost stored app)
    note e = store_price_effect [OF Reprice(4)]
    have workers: "same_workers sv sv'" by (rule same_workersI) (simp_all add: Reprice(1))
    have "engine_moves g cfg fdb (engine_of sv) (engine_of sv')"
    proof (cases "ap_shared (sv_app sv') = ap_shared (sv_app sv)")
      case False
      with e obtain x where "ap_shared (sv_app sv') = with_inner (snd \<circ> correct_assignment_carbon_cost (cr_id c) x) (ap_shared (sv_app sv))" by (auto simp: Reprice(1))
      then show ?thesis by (rule moves_feedback_cost [OF workers])
    qed (rule moves_refl [OF workers])
    then show ?thesis by (intro by_moves quiet) (use e Reprice in auto)
  next
    case (Finish cs c cs' stored answer app)
    have "ap_shared app = ap_shared (sv_app sv)" using finish_effect [OF Finish(4)] by simp
    then have "engine_of sv' = engine_of sv" by (simp add: engine_of_def Finish(1))
    then show ?thesis using inv_finish [OF inv Finish(2,4,1)] by simp
  next
    case (Advance parse msg answer app)
    note e = advance_effect [OF Advance(2)]
    have workers: "same_workers sv sv'" by (rule same_workersI) (simp_all add: Advance(1))
    have "engine_moves g cfg fdb (engine_of sv) (engine_of sv')"
    proof (cases "ap_shared (sv_app sv') = ap_shared (sv_app sv)")
      case False
      with e obtain n eff where "ap_shared (sv_app sv') = snd (advance_to_next_slot n eff (ap_shared (sv_app sv)))" by (auto simp: Advance(1))
      then show ?thesis by (rule moves_advance [OF workers])
    qed (rule moves_refl [OF workers])
    then show ?thesis by (intro by_moves quiet) (use e Advance(1) in auto)
  next
    case (Close req answer app)
    note e = close_effect [OF Close(2)]
    have workers: "same_workers sv sv'" by (rule same_workersI) (simp_all add: Close(1))
    have "engine_moves g cfg fdb (engine_of sv) (engine_of sv')"
    proof (cases "ap_shared (sv_app sv') = ap_shared (sv_app sv)")
      case False
      with e obtain s where "ap_shared (sv_app sv') = request_pending_flush s (ap_shared (sv_app sv))" by (auto simp: Close(1))
      then show ?thesis by (rule moves_flush [OF workers])
    qed (rule moves_refl [OF workers])
    then show ?thesis by (intro by_moves quiet) (use e Close(1) in auto)
  next
    case (Tiers tiers answer app)
    note e = tiers_effect [OF Tiers(3)]
    have workers: "same_workers sv sv'" by (rule same_workersI) (simp_all add: Tiers(1))
    have "engine_moves g cfg fdb (engine_of sv) (engine_of sv')"
    proof (cases "ap_shared (sv_app sv') = ap_shared (sv_app sv)")
      case False
      with e have "ap_shared (sv_app sv') = replace_capacity_tiers tiers (ap_shared (sv_app sv))" by (auto simp: Tiers(1))
      then show ?thesis by (rule moves_tiers [OF workers]) (rule Tiers(2))
    qed (rule moves_refl [OF workers])
    then show ?thesis by (intro by_moves quiet) (use e Tiers(1) in auto)
  next
    case (Register prof answer app)
    note e = register_effect [OF Register(2)]
    then show ?thesis by (intro by_moves still quiet) (use Register(1) in auto)
  qed
qed

lemma app_state_new_sel:
  assumes "app_state_new now ss cfg service_cfg forecast = Some app"
  shows "ap_shared app = initialize_capacity_tiers (cfg_capacity_tiers cfg) ss" and "ap_tracked app = []"
    and "ap_next_id app = 1"
  using assms by (auto simp: app_state_new_def Let_def split: option.splits)

lemma service_init_inv:
  assumes "service_init cfg (sv :: ('r, 'v) service)" and "config_ok g cfg"
  shows "service_inv cfg sv \<and> system_reachable g cfg fdb (engine_of sv)"
proof -
  obtain now service_cfg forecast ms and app :: "'v app_state" where
      app: "app_state_new now (set_virtual_elapsed_ms ms shared_state_new) cfg service_cfg forecast = Some app"
    and sv: "sv_app sv = app \<or> (\<exists>al. sv_app sv = set_wall_clock_alignment al app)"
    using assms(1) unfolding service_init_def by blast
  let ?ss = "initialize_capacity_tiers (cfg_capacity_tiers cfg) (set_virtual_elapsed_ms ms shared_state_new)"
  have shared: "ap_shared (sv_app sv) = ?ss" and tracked: "ap_tracked (sv_app sv) = []"
    using app_state_new_sel [OF app] sv by (auto simp: set_wall_clock_alignment_def)
  let ?sy = "system_init cfg :: 'r system"
  have "?ss = set_virtual_elapsed_ms ms (sy_shared ?sy)"
    by (simp add: system_init_def Let_def initialize_capacity_tiers_def set_virtual_elapsed_ms_def)
  then have engine: "engine_of sv = ?sy\<lparr>sy_shared := set_virtual_elapsed_ms ms (sy_shared ?sy)\<rparr>"
    using assms(1) by (simp add: engine_of_def system_init_def service_init_def shared Let_def
        set_virtual_elapsed_ms_def capacity_tier_revision_def)
  have reach: "system_reachable g cfg fdb (engine_of sv)"
    unfolding engine by (rule system_reachable.Step [OF system_reachable.Init system_step.Clock])
  have "ss_inner (sy_shared (engine_of sv)) = inner_new"
    by (simp add: engine system_init_def Let_def initialize_capacity_tiers_def shared_state_new_def set_virtual_elapsed_ms_def)
  moreover have "sy_workers (engine_of sv) = (\<lambda>_. None)" by (simp add: engine system_init_def Let_def)
  ultimately have "known_ids (engine_of sv) = {}"
    by (simp add: known_ids_def queued_ids_def live_ids_def held_by_def inner_new_def)
  then have "admissions_ok sv" "callbacks_ok sv"
    using assms(1) by (simp_all add: admissions_ok_def callbacks_ok_def tracked service_init_def called_back_def)
  with reach inv_reachable [OF reach assms(2)] show ?thesis by (simp add: service_inv_def)
qed

lemma service_reachable_inv:
  assumes "service_reachable g cfg fdb J sv" and "config_ok g cfg"
  shows "service_inv cfg sv \<and> system_reachable g cfg fdb (engine_of sv)"
  using assms
proof (induction rule: service_reachable.induct)
  case (Init sv)
  then show ?case using service_init_inv by blast
next
  case (Step sv sv')
  then have inv: "service_inv cfg sv" and reach: "system_reachable g cfg fdb (engine_of sv)" by simp_all
  have "system_reachable g cfg fdb sy" if "(system_step g cfg fdb)\<^sup>*\<^sup>* (engine_of sv) sy" for sy
    using that by (induction rule: rtranclp_induct) (auto intro: reach system_reachable.Step)
  then show ?case using service_step_inv [OF Step.hyps(2) Step.prems inv] by blast
qed

section \<open>What holds of the running service\<close>

text \<open>
  C5: The service refines the scheduler. Whatever the clients, the provider, the executor and the
  dispatcher do, and in whatever order their handlers interleave, every step of the service is, on
  the engine's state, a sequence of steps of the scheduler, and every engine state the service
  reaches is one the scheduler reaches: what is proved of the scheduler holds inside the service.
\<close>

theorem service_refines_scheduler:
  assumes "config_ok g cfg" and "service_reachable g cfg fdb J sv" and "service_step g cfg fdb J sv sv'"
  shows "system_reachable g cfg fdb (engine_of sv)
    \<and> (system_step g cfg fdb)\<^sup>*\<^sup>* (engine_of sv) (engine_of sv')"
  using service_reachable_inv [OF assms(2,1)] service_step_inv [OF assms(3,1)] by blast

text \<open>
  C15: Every request the service answers for is with the engine. In every reachable state the
  tracked requests are exactly the requests that are queued, held by a worker or assigned, one
  entry for each, as many as the engine has received; their identifiers come from the counter, and
  no submission under way shares its identifier with a tracked request or with another submission.
\<close>

theorem tracked_requests_accounted:
  assumes "config_ok g cfg" and "service_reachable g cfg fdb J sv"
  shows "set (map fst (ap_tracked (sv_app sv))) = known_ids (engine_of sv)
    \<and> length (ap_tracked (sv_app sv)) = in_total_received (ss_inner (ap_shared (sv_app sv)))
    \<and> (\<forall>i\<in>known_ids (engine_of sv). i < ap_next_id (sv_app sv))
    \<and> distinct (map fst (ap_tracked (sv_app sv)) @ map pr_request_id (sv_arriving sv))"
proof -
  have inv: "service_inv cfg sv" using service_reachable_inv [OF assms(2,1)] by simp
  then have adm: "admissions_ok sv" and "system_inv cfg (engine_of sv)" by (simp_all add: service_inv_def)
  then have card: "in_total_received (ss_inner (ap_shared (sv_app sv))) = card (known_ids (engine_of sv))"
    by (simp add: system_inv_def ids_inv_def known_ids_def)
  have keys: "set (map fst (ap_tracked (sv_app sv))) = known_ids (engine_of sv)"
    using adm by (simp add: admissions_ok_def dom_map_of_conv_image_fst)
  have dist: "distinct (map fst (ap_tracked (sv_app sv)))" using adm by (simp add: admissions_ok_def hm_wf_def)
  have "length (ap_tracked (sv_app sv)) = card (known_ids (engine_of sv))"
    using distinct_card [OF dist] keys by simp
  then show ?thesis using adm keys dist card by (auto simp: admissions_ok_def)
qed

lemma update_tracked_clock [simp]:
  "ap_scheduler (update_tracked i f app) = ap_scheduler app"
  "ap_closed_through (update_tracked i f app) = ap_closed_through app"
  by (simp_all add: update_tracked_def split: option.split)

lemma dispatch_result_clock [simp]:
  "ap_scheduler (set_status i s e app) = ap_scheduler app"
  "ap_closed_through (set_status i s e app) = ap_closed_through app"
  "ap_scheduler (dispatch_result t i outcome app) = ap_scheduler app"
  "ap_closed_through (dispatch_result t i outcome app) = ap_closed_through app"
  by (cases outcome; simp add: set_status_def record_failure_def Let_def)+

text \<open>What a step does to one tracked request, whether or not it has been called back.\<close>

lemma step_lookup:
  assumes "service_step g cfg fdb J sv sv'" and inv: "service_inv cfg sv"
  shows "ap_scheduler (sv_app sv') = ap_scheduler (sv_app sv)
    \<and> ap_closed_through (sv_app sv) \<le> ap_closed_through (sv_app sv')
    \<and> (\<forall>i t'. map_of (ap_tracked (sv_app sv')) i = Some t' \<longrightarrow>
        (\<exists>t. map_of (ap_tracked (sv_app sv)) i = Some t \<and> tr_arrival_slot t' = tr_arrival_slot t)
        \<or> (ssc_manual_clock (ap_scheduler (sv_app sv)) \<longrightarrow> ap_closed_through (sv_app sv) < tr_arrival_slot t'))
    \<and> (\<forall>i\<in>set (sv_finished sv). i \<in> set (sv_finished sv') \<and> map_of (ap_tracked (sv_app sv')) i = map_of (ap_tracked (sv_app sv)) i)"
    (is "?goal sv'")
proof -
  have cb: "callbacks_ok sv" using inv by (simp add: service_inv_def)
  have quiet: "?goal sv'"
    if keeps: "keeps_tracked (sv_app sv) (sv_app sv')" and "ap_scheduler (sv_app sv') = ap_scheduler (sv_app sv)"
      and "ap_closed_through (sv_app sv) \<le> ap_closed_through (sv_app sv')" and "sv_finished sv' = sv_finished sv"
    for sv'
  proof -
    have "map_of (ap_tracked (sv_app sv')) i = map_of (ap_tracked (sv_app sv)) i" if "i \<in> set (sv_finished sv)" for i
      by (rule keeps_called_lookup [OF keeps]) (use cb that in \<open>auto simp: callbacks_ok_def\<close>)
    then show ?thesis using that keeps_lookup(2) [OF keeps] by (fastforce simp: keeps_request_def)
  qed
  from assms(1) show ?thesis
  proof cases
    case (Admit p now answer app)
    from admit_cases [OF Admit(3)] show ?thesis
    proof
      assume "\<exists>pid cost. answer = Some (Inr (pid, cost))"
      then obtain pid cost where run: "admit_request J now p (sv_app sv) = (Some (Inr (pid, cost)), app)"
        using Admit(3) by blast
      obtain payload duration counts where fence: "ssc_manual_clock (ap_scheduler (sv_app sv)) \<Longrightarrow> ap_closed_through (sv_app sv) < pr_arrival_slot p"
        and app: "app = (sv_app sv)\<lparr>ap_baseline_slot_counts := counts,
            ap_tracked := hm_insert (pr_request_id p)
              (tracked_request_new (pr_callback_url p) payload cost duration (pr_arrival_slot p)
                 (qp_profile_id (pr_profile p))) (ap_tracked (sv_app sv)),
            ap_shared := with_inner (add_request (request_new_for_qos_profile now (pr_request_id p)
              (pr_arrival_slot p) (pr_deadline_slot p) (pr_profile p))) (ap_shared (sv_app sv))\<rparr>"
        by (rule admit_accepted [OF run], rule that)
      have "pr_request_id p \<notin> dom (map_of (ap_tracked (sv_app sv)))"
        using inv Admit(2) by (simp add: service_inv_def admissions_ok_def)
      then have "pr_request_id p \<notin> set (sv_finished sv)"
        using cb by (auto simp: callbacks_ok_def called_back_def)
      then show ?thesis using fence by (auto simp: Admit(1) app map_simps tracked_request_new_def)
    next
      assume "ap_tracked app = ap_tracked (sv_app sv) \<and> ap_shared app = ap_shared (sv_app sv)
        \<and> ap_next_id app = ap_next_id (sv_app sv) \<and> ap_closed_through app = ap_closed_through (sv_app sv)
        \<and> ap_scheduler app = ap_scheduler (sv_app sv) \<and> (\<forall>x. answer \<noteq> Some (Inr x))"
      then show ?thesis by (intro quiet) (auto simp: Admit(1))
    qed
  next
    case (Callback i app body)
    obtain t where t: "map_of (ap_tracked (sv_app sv)) i = Some t" "\<not> tr_executor_callback_received t"
      and app: "app = (sv_app sv)\<lparr>ap_tracked := hm_insert i (t\<lparr>tr_executor_callback_received := True\<rparr>) (ap_tracked (sv_app sv))\<rparr>"
      by (rule claim_effect [OF Callback(2)])
    have "i \<notin> set (sv_finished sv)" using cb t by (auto simp: callbacks_ok_def terminal_def)
    then show ?thesis using t(1) by (auto simp: Callback(1) app map_simps)
  next
    case (Finish cs c cs' stored answer app)
    have "called_back (sv_app sv) (cr_id c)" "cr_id c \<notin> set (sv_finished sv)"
      using cb Finish(2) by (auto simp: callbacks_ok_def)
    then obtain t where "map_of (ap_tracked (sv_app sv)) (cr_id c) = Some t" by (auto simp: called_back_def)
    with finish_effect [OF Finish(4)] have app: "app = (sv_app sv)\<lparr>ap_tracked := hm_insert (cr_id c)
        (finished_request J (cr_body c) stored (sv_app sv) t) (ap_tracked (sv_app sv))\<rparr>"
      and t: "map_of (ap_tracked (sv_app sv)) (cr_id c) = Some t" by (simp_all add: update_tracked_def)
    show ?thesis using t \<open>cr_id c \<notin> set (sv_finished sv)\<close> by (auto simp: Finish(1) app map_simps)
  next
    case (Engine sy)
    then show ?thesis by (intro quiet) (auto simp: with_engine_def)
  next
    case (Prepare parse body p app)
    then show ?thesis
      using prepare_effect [OF Prepare(2)] submit_prepare_Inr(3) [OF Prepare(2)] by (intro quiet) auto
  next
    case (Refuse parse body e app)
    have "ap_next_id (sv_app sv) \<le> ap_next_id app" using prepare_effect [OF Refuse(2)] Refuse(3) by auto
    then show ?thesis using prepare_effect [OF Refuse(2)] Refuse(1) by (intro quiet) auto
  next
    case (Poll expired i pid baseline answer app)
    then show ?thesis using keeps_poll [OF Poll(2)] by (intro quiet) auto
  next
    case (No_boundary i a ds to_rfc decimal null e)
    then show ?thesis by (intro quiet) (auto simp: keeps_set_status)
  next
    case (Dry_run i a ds to_rfc decimal null payload)
    then show ?thesis by (intro quiet) (auto simp: keeps_set_status)
  next
    case (Posted i ds t outcome)
    then show ?thesis
      by (intro quiet) (auto simp: keeps_dispatch_result)
  next
    case (Correct_error cs c cs')
    then show ?thesis using correct_error_effect [of J "cr_id c" "cr_body c" "sv_app sv"]
      by (intro quiet) (auto simp: callback_correct_error_def split: option.split)
  next
    case (Reprice cs c cs' cost stored app)
    then show ?thesis using store_price_effect [OF Reprice(4)]
      by (intro quiet) (auto simp: callback_store_price_def split: option.splits prod.splits)
  next
    case (Advance parse msg answer app)
    then show ?thesis using advance_effect [OF Advance(2)] by (intro quiet) auto
  next
    case (Close req answer app)
    then show ?thesis using close_effect [OF Close(2)] by (intro quiet) auto
  next
    case (Tiers tiers answer app)
    then show ?thesis using tiers_effect [OF Tiers(3)] by (intro quiet) auto
  next
    case (Register prof answer app)
    then show ?thesis using register_effect [OF Register(2)] by (intro quiet) auto
  qed (auto intro!: quiet)
qed

text \<open>
  C8: An outcome is final. In every reachable state no request has two callbacks, done or under
  way; a request whose callback is done is completed or failed, and no step whatsoever changes
  anything recorded for it again: not a late dispatch result, not a retry, not a submission still
  polling, not another callback.
\<close>

theorem outcomes_final:
  assumes "config_ok g cfg" and "service_reachable g cfg fdb J sv" and "service_step g cfg fdb J sv sv'"
  shows "distinct (sv_finished sv @ callback_ids sv)
    \<and> (\<forall>i\<in>set (sv_finished sv). i \<in> set (sv_finished sv')
         \<and> map_of (ap_tracked (sv_app sv')) i = map_of (ap_tracked (sv_app sv)) i
         \<and> (\<exists>t. map_of (ap_tracked (sv_app sv)) i = Some t \<and> terminal t))"
proof -
  have inv: "service_inv cfg sv" using service_reachable_inv [OF assms(2,1)] by simp
  then have "callbacks_ok sv" by (simp add: service_inv_def)
  with step_lookup [OF assms(3) inv] show ?thesis by (simp add: callbacks_ok_def)
qed

definition all_scheduled_by :: "slot \<Rightarrow> 'v app_state \<Rightarrow> bool" where
  "all_scheduled_by s app \<longleftrightarrow> (\<forall>i t. map_of (ap_tracked app) i = Some t \<and> tr_arrival_slot t \<le> s
     \<longrightarrow> i \<in> dom (map_of (in_assignments (ss_inner (ap_shared app)))))"

lemma steps_live:
  assumes "(system_step g cfg fdb)\<^sup>*\<^sup>* sy sy'" and "config_ok g cfg" and "system_inv cfg sy"
  shows "live_ids sy \<subseteq> live_ids sy'"
proof -
  have "live_ids sy \<subseteq> live_ids sy' \<and> system_inv cfg sy'"
    using assms(1)
  proof (induction rule: rtranclp_induct)
    case (step y z)
    then have inv: "system_inv cfg y" by simp
    have "live_ids y \<subseteq> live_ids z" using live_grows [OF step_lifecycle [OF inv step.hyps(2)]] by (simp add: lifecycle_of_def)
    with step inv_step [OF step.hyps(2) assms(2) inv] show ?case by auto
  qed (use assms(3) in simp)
  then show ?thesis by simp
qed

text \<open>
  C9: A closed slot stays closed. Under a manual clock, once the barrier stands at a slot and
  every request that arrived by it is assigned, which is what \<open>close_slot\<close> acknowledges, this
  stays so in every later state, however the handlers interleave: the barrier never moves back, no
  request of the slot is accepted any more and none of its requests loses its assignment.
\<close>

theorem closed_slot_stays_closed:
  assumes "config_ok g cfg" and "service_reachable g cfg fdb J sv"
    and "(service_step g cfg fdb J)\<^sup>*\<^sup>* sv sv'"
    and "ssc_manual_clock (ap_scheduler (sv_app sv))" and "s \<le> ap_closed_through (sv_app sv)"
    and "all_scheduled_by s (sv_app sv)"
  shows "s \<le> ap_closed_through (sv_app sv') \<and> all_scheduled_by s (sv_app sv')
    \<and> {i. \<exists>t. map_of (ap_tracked (sv_app sv')) i = Some t \<and> tr_arrival_slot t \<le> s}
        \<subseteq> {i. \<exists>t. map_of (ap_tracked (sv_app sv)) i = Some t \<and> tr_arrival_slot t \<le> s}"
proof -
  let ?arrived = "\<lambda>sv :: ('a, 'b) service. {i. \<exists>t. map_of (ap_tracked (sv_app sv)) i = Some t \<and> tr_arrival_slot t \<le> s}"
  have "service_inv cfg sv' \<and> ssc_manual_clock (ap_scheduler (sv_app sv')) \<and> s \<le> ap_closed_through (sv_app sv')
      \<and> all_scheduled_by s (sv_app sv') \<and> ?arrived sv' \<subseteq> ?arrived sv"
    using assms(3)
  proof (induction rule: rtranclp_induct)
    case base
    then show ?case using service_reachable_inv [OF assms(2,1)] assms(4-6) by simp
  next
    case (step y z)
    then have inv: "service_inv cfg y" by simp
    note look = step_lookup [OF step.hyps(2) inv]
    have arrived: "\<exists>t. map_of (ap_tracked (sv_app y)) i = Some t \<and> tr_arrival_slot t \<le> s"
      if "map_of (ap_tracked (sv_app z)) i = Some t'" "tr_arrival_slot t' \<le> s" for i t'
      using that look step.IH by fastforce
    have "dom (map_of (in_assignments (ss_inner (ap_shared (sv_app y)))))
        \<subseteq> dom (map_of (in_assignments (ss_inner (ap_shared (sv_app z)))))"
      using steps_live [OF _ assms(1)] service_step_inv [OF step.hyps(2) assms(1) inv] inv
      by (fastforce simp: service_inv_def live_ids_def)
    then have "all_scheduled_by s (sv_app z)"
      using step.IH arrived unfolding all_scheduled_by_def by blast
    moreover have "?arrived z \<subseteq> ?arrived sv" using arrived step.IH by blast
    ultimately show ?case using look step.IH service_step_inv [OF step.hyps(2) assms(1) inv] by auto
  qed
  then show ?thesis by blast
qed

section \<open>A poisoned admission lock\<close>

text \<open>What no step does while the lock is poisoned: heal it, or take in a request.\<close>

definition admits_nothing :: "('r, 'v) service \<Rightarrow> ('r, 'v) service \<Rightarrow> bool" where
  "admits_nothing sv sv' \<longleftrightarrow> ap_admission_poisoned (sv_app sv')
     \<and> dom (map_of (ap_tracked (sv_app sv'))) = dom (map_of (ap_tracked (sv_app sv)))
     \<and> in_total_received (ss_inner (ap_shared (sv_app sv')))
       = in_total_received (ss_inner (ap_shared (sv_app sv)))"

lemma admits_nothingI:
  assumes "ap_admission_poisoned (sv_app sv')" and "keeps_tracked (sv_app sv) (sv_app sv')"
    and "in_total_received (ss_inner (ap_shared (sv_app sv')))
       = in_total_received (ss_inner (ap_shared (sv_app sv)))"
  shows "admits_nothing sv sv'"
  using assms keeps_dom [OF assms(2)] by (simp add: admits_nothing_def)

lemma poison_sel [simp]:
  "ap_admission_poisoned (update_tracked i f app) = ap_admission_poisoned app"
  "ap_admission_poisoned (set_status i s e app) = ap_admission_poisoned app"
  "ap_admission_poisoned (dispatch_result t i outcome app) = ap_admission_poisoned app"
  by (simp_all add: update_tracked_def set_status_def dispatch_result_update split: option.split)

lemma total_received_keeps [simp]:
  "in_total_received (correct_assignment_error i e st) = in_total_received st"
  "in_total_received (snd (correct_assignment_carbon_cost i c st)) = in_total_received st"
  by (simp_all add: correct_assignment_error_def correct_assignment_carbon_cost_def Let_def
      split: option.split)

lemma poisoned_step:
  assumes "service_step g cfg fdb J sv sv'" and poison: "ap_admission_poisoned (sv_app sv)"
  shows "admits_nothing sv sv'"
  using assms(1)
proof cases
  case (Admit p now answer app)
  then show ?thesis using poison by (simp add: poisoned_admission admits_nothing_def)
next
  case (Engine sy)
  then show ?thesis using poison by (simp add: admits_nothing_def with_engine_def)
next
  case (Callback i app body)
  then show ?thesis using poison
    by (auto simp: admits_nothing_def map_simps elim!: claim_effect split: if_splits)
next
  case (Finish cs c cs' stored answer app)
  then show ?thesis using poison finish_effect [OF Finish(4)]
    by (auto simp: admits_nothing_def update_tracked_def map_simps split: option.split)
next
  case (Prepare parse body p app)
  then show ?thesis using poison prepare_effect [OF Prepare(2)] by (simp add: admits_nothing_def)
next
  case (Refuse parse body e app)
  then show ?thesis using poison prepare_effect [OF Refuse(2)] by (simp add: admits_nothing_def)
next
  case (Poll expired i pid baseline answer app)
  then show ?thesis using poison keeps_poll [OF Poll(2)] by (intro admits_nothingI) simp_all
next
  case (No_boundary i a ds to_rfc decimal null e)
  then show ?thesis using poison by (intro admits_nothingI) (simp_all add: keeps_set_status)
next
  case (Dry_run i a ds to_rfc decimal null payload)
  then show ?thesis using poison by (intro admits_nothingI) (simp_all add: keeps_set_status)
next
  case (Posted i ds t outcome)
  then show ?thesis using poison by (intro admits_nothingI) (simp_all add: keeps_dispatch_result)
next
  case (Correct_error cs c cs')
  then show ?thesis using poison correct_error_effect [of J "cr_id c" "cr_body c" "sv_app sv"]
    by (auto simp: admits_nothing_def)
next
  case (Reprice cs c cs' cost stored app)
  then show ?thesis using poison store_price_effect [OF Reprice(4)] by (auto simp: admits_nothing_def)
next
  case (Advance parse msg answer app)
  then show ?thesis using poison advance_effect [OF Advance(2)]
    by (auto simp: admits_nothing_def advance_to_next_slot_inner set_current_slot_def)
next
  case (Close req answer app)
  then show ?thesis using poison close_effect [OF Close(2)]
    by (auto simp: admits_nothing_def request_pending_flush_def)
next
  case (Tiers tiers answer app)
  then show ?thesis using poison tiers_effect [OF Tiers(3)]
    by (auto simp: admits_nothing_def replace_capacity_tiers_def)
next
  case (Register prof answer app)
  then show ?thesis using poison register_effect [OF Register(2)] by (simp add: admits_nothing_def)
qed (use poison in \<open>simp_all add: admits_nothing_def\<close>)

lemma poisoned_steps:
  "(service_step g cfg fdb J)\<^sup>*\<^sup>* sv sv' \<Longrightarrow> ap_admission_poisoned (sv_app sv) \<Longrightarrow> admits_nothing sv sv'"
proof (induction rule: rtranclp_induct)
  case (step y z)
  then have "admits_nothing sv y" by simp
  moreover have "admits_nothing y z"
    using step.hyps(2) calculation by (intro poisoned_step) (simp_all add: admits_nothing_def)
  ultimately show ?case by (simp add: admits_nothing_def)
qed (simp add: admits_nothing_def)

lemma slot_length_ok_poison [simp]:
  "slot_length_ok m (app\<lparr>ap_admission_poisoned := b\<rparr>) = slot_length_ok m app"
  by (simp add: slot_length_ok_def)

lemma poisoned_close:
  assumes "ap_admission_poisoned app"
  shows "fst (close_slot_begin req app) \<noteq> Some (Inr s)" and "snd (close_slot_begin req app) = app"
    and "fst (close_slot_begin req (app\<lparr>ap_admission_poisoned := False\<rparr>)) = Some (Inr s) \<Longrightarrow>
      close_slot_begin req app = (None, app)"
  unfolding close_slot_begin_def Let_def using assms
  by (simp_all split: if_split_asm option.split_asm option.split)

text \<open>
  C27: One malformed submission stops the service's intake for good. A submission whose payload is
  JSON but neither an object nor null, for instance a number, passes every check of the handler and
  reaches the admission; unless its slot is closed the assignment of the task panics there, with the
  lock held, and nothing is enqueued or tracked. In every later state of the service, whatever steps
  its threads and handlers have taken since, every admission panics on the poisoned lock, whatever is
  submitted; no \<open>close_slot\<close> is accepted, and one that would be accepted if the lock were sound
  panics; and no request has been received or tracked in between.
\<close>

theorem malformed_payload_stops_admission:
  assumes "json_laws J" and "\<not> js_is_object J (sp_payload body)" and "\<not> js_is_null J (sp_payload body)"
    and "0 \<le> sp_deadline_seconds body" and "sp_callback_url body = None" and "sp_arrival_slot_global body = None"
    and "sp_task_kind body = None" and "sp_qos_profile_id body = Some (pid_str (qp_profile_id q))"
    and "is_valid_stable_identifier (pid_str (qp_profile_id q))"
    and "registry_get (ap_profiles app) (qp_profile_id q) = Some q"
    and "0 < ssc_effective_slot_duration_secs (ap_scheduler app)" and "in_i32 (ssc_total_slots (ap_scheduler app))"
    and "s = get_current_slot (ss_inner (ap_shared app))" and "0 \<le> s" and "s < ssc_total_slots (ap_scheduler app)"
    and "ap_closed_through app < s"
  shows "\<exists>p app1 app2. submit_prepare J parse body app = (Inr p, app1) \<and> admit_request J now p app1 = (None, app2)
    \<and> ap_shared app2 = ap_shared app \<and> ap_tracked app2 = ap_tracked app
    \<and> (\<forall>sv sv'. sv_app sv = app2 \<and> (service_step g cfg fdb J)\<^sup>*\<^sup>* sv sv' \<longrightarrow>
         admit_request J now' p' (sv_app sv') = (None, sv_app sv')
         \<and> snd (close_slot_begin req (sv_app sv')) = sv_app sv'
         \<and> (\<forall>n. fst (close_slot_begin req (sv_app sv')) \<noteq> Some (Inr n))
         \<and> (\<forall>n. fst (close_slot_begin req ((sv_app sv')\<lparr>ap_admission_poisoned := False\<rparr>)) = Some (Inr n)
              \<longrightarrow> close_slot_begin req (sv_app sv') = (None, sv_app sv'))
         \<and> dom (map_of (ap_tracked (sv_app sv'))) = dom (map_of (ap_tracked app))
         \<and> in_total_received (ss_inner (ap_shared (sv_app sv'))) = in_total_received (ss_inner (ap_shared app)))"
proof -
  obtain p app1 app2 where adm: "submit_prepare J parse body app = (Inr p, app1)"
      "admit_request J now p app1 = (None, app2)"
    and same: "ap_shared app2 = ap_shared app" "ap_tracked app2 = ap_tracked app"
    and poison: "ap_admission_poisoned app2"
    using malformed_payload_poisons [OF assms, of parse now] by (elim exE conjE) (rule that)
  have later: "admit_request J now' p' (sv_app sv') = (None, sv_app sv')
         \<and> snd (close_slot_begin req (sv_app sv')) = sv_app sv'
         \<and> (\<forall>n. fst (close_slot_begin req (sv_app sv')) \<noteq> Some (Inr n))
         \<and> (\<forall>n. fst (close_slot_begin req ((sv_app sv')\<lparr>ap_admission_poisoned := False\<rparr>)) = Some (Inr n)
              \<longrightarrow> close_slot_begin req (sv_app sv') = (None, sv_app sv'))
         \<and> dom (map_of (ap_tracked (sv_app sv'))) = dom (map_of (ap_tracked app))
         \<and> in_total_received (ss_inner (ap_shared (sv_app sv'))) = in_total_received (ss_inner (ap_shared app))"
    if "sv_app sv = app2" "(service_step g cfg fdb J)\<^sup>*\<^sup>* sv sv'" for sv sv'
  proof -
    have quiet: "admits_nothing sv sv'" using poisoned_steps [OF that(2)] poison that(1) by simp
    then have "ap_admission_poisoned (sv_app sv')" by (simp add: admits_nothing_def)
    note adm' = poisoned_admission [OF this, of J now' p'] and close = poisoned_close [OF this, of req]
    show ?thesis using adm' close quiet that(1) same by (simp add: admits_nothing_def)
  qed
  show ?thesis
    by (intro exI conjI allI impI, rule adm(1), rule adm(2), rule same(1), rule same(2))
      (use later in blast)+
qed

section \<open>A submission that reopens a dispatch\<close>

text \<open>
  The wait of a submission undoes a dispatch. If the executor has been sent a request, or the
  dispatcher has given it up, but has not called back when the submission's loop next sees the
  assignment, the loop marks the request scheduled again: the next cycle of the dispatcher finds it
  due and sends it a second time. It happens for any request whose slot has been reached and whose
  retry gate is open, as it is after a dispatch that succeeded at once.
\<close>

theorem poll_reopens_dispatch:
  assumes "submit_poll expired i pid baseline app = (answer, app')"
    and "map_of (ap_tracked app) i = Some t" and "tr_status t = Dispatched \<or> tr_status t = Failed"
    and "\<not> tr_executor_callback_received t"
    and "hm_wf (in_assignments (ss_inner (ap_shared app)))"
    and "map_of (in_assignments (ss_inner (ap_shared app))) i = Some a"
    and "as_scheduled_slot a \<le> s" and "case tr_next_attempt_at t of None \<Rightarrow> True | Some gate \<Rightarrow> gate \<le> now"
  shows "(i, a) \<notin> set (due_assignments now s (in_assignments (ss_inner (ap_shared app))) (ap_tracked app))
    \<and> (i, a) \<in> set (due_assignments now s (in_assignments (ss_inner (ap_shared app'))) (ap_tracked app'))"
proof -
  have app': "app' = app\<lparr>ap_tracked := hm_insert i (t\<lparr>tr_status := Scheduled\<rparr>) (ap_tracked app)\<rparr>"
    using assms(1,2,4,6) by (simp add: submit_poll_def get_current_assignments_def update_tracked_def)
  have "(i, a) \<in> set (in_assignments (ss_inner (ap_shared app)))"
    using assms(5,6) by (simp add: hm_binding_iff)
  then show ?thesis
    using assms(2,3,7,8) by (auto simp: due_assignments_def app' map_simps awaits_dispatch_def)
qed

section \<open>A dispatch that was given up\<close>

text \<open>
  A tracked request that is not waiting for its dispatch: sent, given up or called back. No step makes
  it wait again but the waiting loop of its own submission.
\<close>

definition not_waiting :: "request_id \<Rightarrow> ('r, 'v) service \<Rightarrow> bool" where
  "not_waiting i sv \<longleftrightarrow> i < ap_next_id (sv_app sv) \<and> i \<notin> pr_request_id ` set (sv_arriving sv)
     \<and> (\<exists>t. map_of (ap_tracked (sv_app sv)) i = Some t \<and> tr_status t \<notin> {Pending, Scheduled})"

definition reopens :: "request_id \<Rightarrow> ('r, 'v) service \<Rightarrow> ('r, 'v) service \<Rightarrow> bool" where
  "reopens i sv sv' \<longleftrightarrow> (\<exists>expired pid baseline answer app.
     submit_poll expired i pid baseline (sv_app sv) = (answer, app) \<and> sv' = on_app app sv
     \<and> map_of (ap_tracked app) i \<noteq> map_of (ap_tracked (sv_app sv)) i)"

definition step_without_reopening ::
    "'r rng \<Rightarrow> config \<Rightarrow> (string, f64) hmap \<Rightarrow> 'v json_api \<Rightarrow> request_id
     \<Rightarrow> ('r, 'v) service \<Rightarrow> ('r, 'v) service \<Rightarrow> bool" where
  "step_without_reopening g cfg fdb J i sv sv' \<longleftrightarrow> service_step g cfg fdb J sv sv' \<and> \<not> reopens i sv sv'"

lemma not_waiting_due: "awaits_dispatch now t \<Longrightarrow> tr_status t \<in> {Pending, Scheduled}"
  by (simp add: awaits_dispatch_def)

lemma not_waitingI:
  assumes "not_waiting i sv" and "ap_next_id (sv_app sv) \<le> ap_next_id (sv_app sv')"
    and "i \<notin> pr_request_id ` set (sv_arriving sv')"
    and "\<And>t. map_of (ap_tracked (sv_app sv)) i = Some t \<Longrightarrow> tr_status t \<notin> {Pending, Scheduled} \<Longrightarrow>
      \<exists>t'. map_of (ap_tracked (sv_app sv')) i = Some t' \<and> tr_status t' \<notin> {Pending, Scheduled}"
  shows "not_waiting i sv'"
  using assms unfolding not_waiting_def by (meson order_less_le_trans)

lemma not_waiting_same:
  assumes "not_waiting i sv" and "ap_next_id (sv_app sv) \<le> ap_next_id (sv_app sv')"
    and "i \<notin> pr_request_id ` set (sv_arriving sv')"
    and "ap_tracked (sv_app sv') = ap_tracked (sv_app sv)"
  shows "not_waiting i sv'"
  using assms by (intro not_waitingI [OF assms(1)]) simp_all

lemma not_waiting_update:
  assumes "not_waiting i sv" and "\<And>t. j = i \<Longrightarrow> tr_status t \<notin> {Pending, Scheduled} \<Longrightarrow> tr_status (f t) \<notin> {Pending, Scheduled}"
    and "sv_app sv' = update_tracked j f (sv_app sv)" and "sv_arriving sv' = sv_arriving sv"
  shows "not_waiting i sv'"
  using assms by (intro not_waitingI [OF assms(1)])
    (auto simp: not_waiting_def update_tracked_def map_simps split: option.splits)

lemma after_attempt_status:
  "tr_status t \<noteq> Pending \<Longrightarrow> tr_status t \<noteq> Scheduled \<Longrightarrow>
     tr_status (after_attempt cfg now outcome t) \<noteq> Pending \<and> tr_status (after_attempt cfg now outcome t) \<noteq> Scheduled"
  by (cases outcome) (auto simp: Let_def)

lemma finished_request_status: "tr_status (finished_request J body c app t) \<notin> {Pending, Scheduled}"
  by (simp add: finished_request_def Let_def)

lemma not_waiting_step:
  assumes "service_step g cfg fdb J sv sv'" and nw: "not_waiting i sv"
  shows "not_waiting i sv' \<or> reopens i sv sv'"
  using assms(1)
proof cases
  case (Admit p now answer app)
  have other: "pr_request_id p \<noteq> i" using nw Admit(2) by (auto simp: not_waiting_def)
  have arr: "i \<notin> pr_request_id ` set (sv_arriving sv')"
    using nw set_remove1_subset [of p "sv_arriving sv"] by (auto simp: not_waiting_def Admit(1))
  from admit_cases [OF Admit(3)] have "not_waiting i sv'"
  proof
    assume "\<exists>pid cost. answer = Some (Inr (pid, cost))"
    then obtain pid cost where run: "admit_request J now p (sv_app sv) = (Some (Inr (pid, cost)), app)"
      using Admit(3) by blast
    obtain payload duration counts where "app = (sv_app sv)\<lparr>ap_baseline_slot_counts := counts,
        ap_tracked := hm_insert (pr_request_id p)
          (tracked_request_new (pr_callback_url p) payload cost duration (pr_arrival_slot p)
             (qp_profile_id (pr_profile p))) (ap_tracked (sv_app sv)),
        ap_shared := with_inner (add_request (request_new_for_qos_profile now (pr_request_id p)
          (pr_arrival_slot p) (pr_deadline_slot p) (pr_profile p))) (ap_shared (sv_app sv))\<rparr>"
      by (rule admit_accepted [OF run], rule that)
    then show ?thesis using arr other by (intro not_waitingI [OF nw]) (simp_all add: Admit(1) map_simps)
  next
    assume "ap_tracked app = ap_tracked (sv_app sv) \<and> ap_shared app = ap_shared (sv_app sv)
        \<and> ap_next_id app = ap_next_id (sv_app sv) \<and> ap_closed_through app = ap_closed_through (sv_app sv)
        \<and> ap_scheduler app = ap_scheduler (sv_app sv) \<and> (\<forall>x. answer \<noteq> Some (Inr x))"
    then show ?thesis using arr by (intro not_waiting_same [OF nw]) (simp_all add: Admit(1))
  qed
  then show ?thesis ..
next
  case (Engine sy)
  then show ?thesis using nw by (simp add: not_waiting_def with_engine_def)
next
  case (Prepare parse body p app)
  have "pr_request_id p = ap_next_id (sv_app sv)" "ap_next_id app = ap_next_id (sv_app sv) + 1"
    using submit_prepare_Inr(2,3) [OF Prepare(2)] Prepare(3) by simp_all
  then show ?thesis using nw prepare_effect [OF Prepare(2)]
    by (intro disjI1 not_waiting_same [OF nw]) (auto simp: not_waiting_def Prepare(1))
next
  case (Refuse parse body e app)
  have "ap_next_id (sv_app sv) \<le> ap_next_id app" using prepare_effect [OF Refuse(2)] Refuse(3) by auto
  then show ?thesis using nw prepare_effect [OF Refuse(2)]
    by (intro disjI1 not_waiting_same [OF nw]) (simp_all add: not_waiting_def Refuse(1))
next
  case (Poll expired j pid baseline answer app)
  show ?thesis
  proof (cases "map_of (ap_tracked app) i = map_of (ap_tracked (sv_app sv)) i")
    case True
    then show ?thesis using nw keeps_poll [OF Poll(2)]
      by (simp add: not_waiting_def Poll(1) keeps_tracked_def)
  next
    case False
    then have "j = i" using Poll(2)
      by (auto simp: submit_poll_def update_tracked_def map_simps split: option.splits if_splits)
    with False Poll show ?thesis unfolding reopens_def by blast
  qed
next
  case (No_boundary j a ds to_rfc decimal null e)
  then show ?thesis by (intro disjI1 not_waiting_update [OF nw]) (auto simp: set_status_def)
next
  case (Dry_run j a ds to_rfc decimal null payload)
  then show ?thesis by (intro disjI1 not_waiting_update [OF nw]) (auto simp: set_status_def)
next
  case (Posted j ds t outcome)
  then show ?thesis
    by (intro disjI1 not_waiting_update [OF nw, where j = j]) (simp_all add: dispatch_result_update after_attempt_status)
next
  case (Callback j app body)
  then show ?thesis using nw by (auto simp: not_waiting_def map_simps elim!: claim_effect)
next
  case (Correct_error cs c cs')
  then show ?thesis using nw correct_error_effect [of J "cr_id c" "cr_body c" "sv_app sv"]
    by (intro disjI1 not_waiting_same [OF nw]) (simp_all add: not_waiting_def)
next
  case (Reprice cs c cs' cost stored app)
  then show ?thesis using nw store_price_effect [OF Reprice(4)]
    by (intro disjI1 not_waiting_same [OF nw]) (simp_all add: not_waiting_def)
next
  case (Finish cs c cs' stored answer app)
  then show ?thesis using finish_effect [OF Finish(4)]
    by (intro disjI1 not_waiting_update [OF nw, where j = "cr_id c"]) (simp_all add: finished_request_status)
next
  case (Advance parse msg answer app)
  then show ?thesis using nw advance_effect [OF Advance(2)]
    by (intro disjI1 not_waiting_same [OF nw]) (simp_all add: not_waiting_def)
next
  case (Close req answer app)
  then show ?thesis using nw close_effect [OF Close(2)]
    by (intro disjI1 not_waiting_same [OF nw]) (simp_all add: not_waiting_def)
next
  case (Tiers tiers answer app)
  then show ?thesis using nw tiers_effect [OF Tiers(3)]
    by (intro disjI1 not_waiting_same [OF nw]) (auto simp: not_waiting_def)
next
  case (Register prof answer app)
  then show ?thesis using nw register_effect [OF Register(2)]
    by (intro disjI1 not_waiting_same [OF nw]) (simp_all add: not_waiting_def)
qed (use nw in \<open>simp_all add: not_waiting_def\<close>)

lemma not_waiting_steps:
  "(step_without_reopening g cfg fdb J i)\<^sup>*\<^sup>* sv sv' \<Longrightarrow> not_waiting i sv \<Longrightarrow> not_waiting i sv'"
proof (induction rule: rtranclp_induct)
  case (step y z)
  then show ?case using not_waiting_step [of g cfg fdb J y z i] by (simp add: step_without_reopening_def)
qed simp

lemma failed_attempts_next [simp]: "ap_next_id (failed_attempts i es app) = ap_next_id app"
  by (induction es rule: rev_induct) (simp_all add: failed_attempts_def case_prod_unfold record_failure_def Let_def)

text \<open>
  C36: Retries end. However a request was tracked, \<open>n\<close> failed attempts in a row count as \<open>n\<close>; the
  request stays due for a retry, after the backoff, while their total is below
  \<open>executor_max_retries\<close>, and with the attempt that reaches it the request is failed. From then on,
  through every run of the service's steps in which the waiting loop of its own submission does not
  reopen it, it is never again due: no look of the dispatcher, at any time and whatever slot has been
  reached, finds it among the assignments to send. The request is tracked, so that it is not arriving
  any more, as in every reachable state.
\<close>

theorem retries_end:
  assumes "map_of (ap_tracked app) i = Some t" and "\<not> tr_executor_callback_received t"
    and "awaits_dispatch start t" and "es \<noteq> []"
    and "n = tr_dispatch_attempts t + length es" and "cfg = ap_service_cfg app"
    and "i < ap_next_id app" and "i \<notin> pr_request_id ` set (sv_arriving sv)"
    and "sv_app sv = failed_attempts i es app"
  shows "(\<exists>t'. map_of (ap_tracked (sv_app sv)) i = Some t' \<and> tr_dispatch_attempts t' = n
      \<and> (if svc_executor_max_retries cfg \<le> n then tr_status t' = Failed \<and> \<not> awaits_dispatch later t'
         else tr_status t' = tr_status t
           \<and> (awaits_dispatch later t' \<longleftrightarrow> fst (last es) + backoff_delay n
                (svc_executor_retry_base_ms cfg) (svc_executor_retry_max_ms cfg) \<le> later)))
    \<and> (svc_executor_max_retries cfg \<le> n \<longrightarrow>
        (\<forall>sv'. (step_without_reopening g config fdb J i)\<^sup>*\<^sup>* sv sv' \<longrightarrow>
          (\<exists>t'. map_of (ap_tracked (sv_app sv')) i = Some t' \<and> \<not> awaits_dispatch later t')
          \<and> i \<notin> fst ` set (due_assignments later reached
                (in_assignments (ss_inner (ap_shared (sv_app sv')))) (ap_tracked (sv_app sv')))))"
proof -
  obtain t' where t': "map_of (ap_tracked (failed_attempts i es app)) i = Some t'" "tr_dispatch_attempts t' = n"
    "if svc_executor_max_retries cfg \<le> n then tr_status t' = Failed \<and> \<not> awaits_dispatch later t'
     else tr_status t' = tr_status t
       \<and> (awaits_dispatch later t' \<longleftrightarrow> fst (last es) + backoff_delay n
            (svc_executor_retry_base_ms cfg) (svc_executor_retry_max_ms cfg) \<le> later)"
    using failed_attempts_record [OF assms(1-6), of later] by (elim exE conjE) (rule that)
  have never: "(\<exists>t'. map_of (ap_tracked (sv_app sv')) i = Some t' \<and> \<not> awaits_dispatch later t')
      \<and> i \<notin> fst ` set (due_assignments later reached
            (in_assignments (ss_inner (ap_shared (sv_app sv')))) (ap_tracked (sv_app sv')))"
    if lim: "svc_executor_max_retries cfg \<le> n" and run: "(step_without_reopening g config fdb J i)\<^sup>*\<^sup>* sv sv'" for sv'
  proof -
    have "not_waiting i sv" using t'(1,3) lim assms(7-9) by (simp add: not_waiting_def)
    from not_waiting_steps [OF run this]
    obtain t'' where "map_of (ap_tracked (sv_app sv')) i = Some t''" "tr_status t'' \<notin> {Pending, Scheduled}"
      by (auto simp: not_waiting_def)
    then show ?thesis by (auto simp: due_assignments_def dest: not_waiting_due)
  qed
  show ?thesis using t' never unfolding assms(9) by (intro conjI) auto
qed

section \<open>A concrete run\<close>

definition manual_config :: config where
  "manual_config = config_default\<lparr>cfg_simulation := (cfg_simulation config_default)\<lparr>sim_manual_clock := True\<rparr>\<rparr>"

lemma manual_config_ok: "config_ok still_rng manual_config"
  using still_config_ok by (simp add: config_ok_def manual_config_def)

abbreviation run_step :: "(unit, json) service \<Rightarrow> (unit, json) service \<Rightarrow> bool" where
  "run_step \<equiv> service_step still_rng manual_config [] sample_json"

abbreviation run_reachable :: "(unit, json) service \<Rightarrow> bool" where
  "run_reachable \<equiv> service_reachable still_rng manual_config [] sample_json"

lemma default_profile_registered:
  "\<exists>reg p. registry_from_config cfg = Some reg \<and> registry_get reg default_profile = Some p
     \<and> qp_task_kind p = TaskKindId ''text_generation'' \<and> qp_flavours p = cfg_flavours cfg"
  by (simp add: registry_from_config_def default_task_error_semantics_def default_profile_entry_def
      task_kind_parse_def profile_id_parse_def is_valid_stable_identifier_def is_ascii_lowercase_def
      is_ascii_digit_def underscores_to_dashes_def registry_get_def default_profile_def)

lemma app_at_start:
  "\<exists>app :: json app_state. \<exists>p. app_state_new 0 shared_state_new manual_config sample_service_config [] = Some app
     \<and> ap_scheduler app = service_scheduler_of manual_config \<and> ap_closed_through app = -1
     \<and> ap_slot_epoch_offset app = None \<and> \<not> ap_admission_poisoned app
     \<and> registry_get (ap_profiles app) default_profile = Some p \<and> qp_task_kind p = TaskKindId ''text_generation''
     \<and> qp_flavours p = cfg_flavours manual_config"
proof -
  obtain reg p where reg: "registry_from_config manual_config = Some reg" "registry_get reg default_profile = Some p"
    "qp_task_kind p = TaskKindId ''text_generation''" "qp_flavours p = cfg_flavours manual_config"
    using default_profile_registered [of manual_config] by blast
  have "virtual_elapsed_secs (initialize_capacity_tiers (cfg_capacity_tiers manual_config) shared_state_new) = 0"
    by (simp add: virtual_elapsed_secs_def initialize_capacity_tiers_def shared_state_new_def)
  then show ?thesis
    by (simp add: app_state_new_def reg Let_def duration_try_from_secs_def round_half_even_def
        time_checked_sub_def system_time_ok_def)
qed

lemma started_service:
  obtains sv :: "(unit, json) service" and p where "run_reachable sv" and "sv_finished sv = []" and "sv_callbacks sv = []"
    and "sv_dispatcher sv = Resting" and "ap_tracked (sv_app sv) = []" and "ap_next_id (sv_app sv) = 1"
    and "ap_shared (sv_app sv) = initialize_capacity_tiers (cfg_capacity_tiers manual_config) shared_state_new"
    and "ap_scheduler (sv_app sv) = service_scheduler_of manual_config" and "ap_closed_through (sv_app sv) = -1"
    and "ap_slot_epoch_offset (sv_app sv) = None" and "\<not> ap_admission_poisoned (sv_app sv)"
    and "registry_get (ap_profiles (sv_app sv)) default_profile = Some p" and "qp_task_kind p = TaskKindId ''text_generation''"
    and "qp_flavours p = cfg_flavours manual_config"
proof -
  obtain app :: "json app_state" and p where app: "app_state_new 0 shared_state_new manual_config sample_service_config [] = Some app"
    and sel: "ap_scheduler app = service_scheduler_of manual_config" "ap_closed_through app = -1"
      "ap_slot_epoch_offset app = None" "\<not> ap_admission_poisoned app"
      "registry_get (ap_profiles app) default_profile = Some p" "qp_task_kind p = TaskKindId ''text_generation''"
      "qp_flavours p = cfg_flavours manual_config"
    using app_at_start by blast
  let ?sv = "\<lparr>sv_app = app, sv_sched = scheduler_state_new (capacity_tier_revision (ap_shared app)),
    sv_workers = (\<lambda>_. None), sv_arriving = [], sv_dispatcher = Resting, sv_callbacks = [], sv_finished = [],
    sv_sent = []\<rparr> :: (unit, json) service"
  have "set_virtual_elapsed_ms 0 shared_state_new = shared_state_new"
    by (simp add: set_virtual_elapsed_ms_def shared_state_new_def)
  then have "service_init manual_config ?sv" using app unfolding service_init_def by (metis service.select_convs)
  then show thesis
    using app_state_new_sel [OF app] sel by (intro that [of ?sv p] service_reachable.Init) simp_all
qed

text \<open>The provider announces its slot 7 and then closes it.\<close>

lemma closed_service:
  obtains sv where "run_reachable sv" and "ssc_manual_clock (ap_scheduler (sv_app sv))" and "ap_closed_through (sv_app sv) = 0"
    and "ap_tracked (sv_app sv) = []" and "sv_dispatcher sv = Resting"
proof (rule started_service)
  fix sv :: "(unit, json) service" and p
  assume reach: "run_reachable sv" and rest: "sv_dispatcher sv = Resting" and tracked: "ap_tracked (sv_app sv) = []"
    and shared: "ap_shared (sv_app sv) = initialize_capacity_tiers (cfg_capacity_tiers manual_config) shared_state_new"
    and sched: "ap_scheduler (sv_app sv) = service_scheduler_of manual_config" and closed: "ap_closed_through (sv_app sv) = -1"
    and off: "ap_slot_epoch_offset (sv_app sv) = None" and poison: "\<not> ap_admission_poisoned (sv_app sv)"
  let ?msg = "\<lparr>av_source = ''provider'', av_kind = ''announce'', av_current_slot = Some 7, av_slot_start_utc = None,
    av_slot_minutes = None, av_observed = None, av_forecast = None\<rparr>"
  let ?app1 = "(sv_app sv)\<lparr>ap_slot_epoch_offset := Some 7\<rparr>"
  have manual: "ssc_manual_clock (ap_scheduler (sv_app sv))" "ssc_total_slots (ap_scheduler (sv_app sv)) = 24"
    by (simp_all add: sched service_scheduler_of_def manual_config_def config_default_def)
  have cur: "get_current_slot (ss_inner (ap_shared (sv_app sv))) = 0"
    by (simp add: shared initialize_capacity_tiers_def shared_state_new_def inner_new_def get_current_slot_def)
  have "advance_slot_enter (\<lambda>_. Inl []) ?msg (sv_app sv) = (Inr 0, ?app1)"
    by (simp add: advance_slot_enter_def manual update_slot_epoch_offset_def off cur engine_slot_of_def i64_sub_def
        wrap64_def wrap32_def anchor_slot_def enter_slot_def record_forecast_def record_observation_def Let_def)
  then have "run_step sv (on_app ?app1 sv)" by (rule service_step.Advance)
  with reach have reach1: "run_reachable (on_app ?app1 sv)" by (rule service_reachable.Step)
  let ?req = "\<lparr>cb_current_slot = 7, cb_slot_minutes = ssc_effective_slot_duration_secs (ap_scheduler (sv_app sv)) / 60\<rparr>"
  let ?app2 = "?app1\<lparr>ap_closed_through := 0, ap_shared := request_pending_flush 0 (ap_shared (sv_app sv))\<rparr>"
  have "close_slot_begin ?req ?app1 = (Some (Inr 0), ?app2)"
    by (simp add: close_slot_begin_def manual slot_length_ok_def f64_is_finite_def i64_sub_def wrap64_def in_i32_def
        cur poison closed)
  then have "run_step (on_app ?app1 sv) (on_app ?app2 (on_app ?app1 sv))"
    by (intro service_step.Close) simp
  with reach1 have "run_reachable (on_app ?app2 (on_app ?app1 sv))" by (rule service_reachable.Step)
  then show thesis using manual(1) tracked rest by (intro that [of "on_app ?app2 sv"]) simp_all
qed

text \<open>A request is submitted, accepted and called back.\<close>

definition demo_submission :: "json submit_request_payload" where
  "demo_submission = (sample_submission (JObj []))\<lparr>sp_deadline_seconds := 0\<rparr>"

lemma admitted_service:
  obtains sv t where "run_reachable sv" and "sv_finished sv = []" and "sv_callbacks sv = []"
    and "map_of (ap_tracked (sv_app sv)) 1 = Some t" and "\<not> tr_executor_callback_received t"
proof (rule started_service)
  fix sv :: "(unit, json) service" and p
  assume reach: "run_reachable sv" and fin: "sv_finished sv = []" and cbs: "sv_callbacks sv = []"
    and nxt: "ap_next_id (sv_app sv) = 1"
    and shared: "ap_shared (sv_app sv) = initialize_capacity_tiers (cfg_capacity_tiers manual_config) shared_state_new"
    and sched: "ap_scheduler (sv_app sv) = service_scheduler_of manual_config" and closed: "ap_closed_through (sv_app sv) = -1"
    and off: "ap_slot_epoch_offset (sv_app sv) = None" and poison: "\<not> ap_admission_poisoned (sv_app sv)"
    and p: "registry_get (ap_profiles (sv_app sv)) default_profile = Some p" "qp_task_kind p = TaskKindId ''text_generation''"
      "qp_flavours p = cfg_flavours manual_config"
  have total: "ssc_total_slots (ap_scheduler (sv_app sv)) = 24"
    by (simp add: sched service_scheduler_of_def manual_config_def config_default_def)
  have cur: "get_current_slot (ss_inner (ap_shared (sv_app sv))) = 0"
    by (simp add: shared initialize_capacity_tiers_def shared_state_new_def inner_new_def get_current_slot_def)
  have "profile_id_parse ''default-text-generation'' = Inr default_profile"
    by (simp add: profile_id_parse_def default_profile_def is_valid_stable_identifier_def is_ascii_lowercase_def
        is_ascii_digit_def)
  then have prof: "resolve_request_profile sample_json (ap_profiles (sv_app sv)) demo_submission = Inr p"
    using p(1,2) by (simp add: resolve_request_profile_def parse_optional_def select_profile_def payload_task_kind_def
        profile_for_kind_def demo_submission_def sample_submission_def sample_json_def)
  have deadline: "deadline_slot_from_slack 0 0 eff 24 = 1" for eff
    by (simp add: deadline_slot_from_slack_def i32_saturating_add_def i32_sub_def wrap32_def f64_as_i32_def f64_trunc_def)
  obtain q app1 where q: "submit_prepare sample_json (\<lambda>_. Inl []) demo_submission (sv_app sv) = (Inr q, app1)"
    "pr_request_id q = 1" "pr_arrival_slot q = 0" "pr_profile q = p" "pr_payload q = JObj []"
    "app1 = (sv_app sv)\<lparr>ap_next_id := 2\<rparr>"
    using prof total cur off nxt
    by (simp add: submit_prepare_def demo_submission_def sample_submission_def f64_is_finite_def next_request_id_def
        resolve_arrival_slot_def deadline Let_def)
  let ?sv1 = "sv\<lparr>sv_app := app1, sv_arriving := q # sv_arriving sv\<rparr>"
  have "run_step sv ?sv1" using service_step.Prepare [OF q(1)] nxt by simp
  with reach have reach1: "run_reachable ?sv1" by (rule service_reachable.Step)
  have fl: "qp_flavours p \<noteq> []" by (simp add: p(3) manual_config_def config_default_def)
  obtain b app' where b: "compute_baseline_carbon_cost 0 (qp_flavours p) app1 = (b, app')" by fastforce
  then have "b \<noteq> None"
    using min_by_key_None [of fl_error "qp_flavours p"] fl
    by (auto simp: compute_baseline_carbon_cost_def Let_def simp del: min_by_key_None)
  then obtain cost duration where "b = Some (cost, duration)" by auto
  then obtain pid app2 where adm: "admit_request sample_json 0 q app1 = (Some (Inr (pid, cost)), app2)"
    using b poison closed by (simp add: admit_request_def q payload_with_task_def sample_json_def)
  obtain t where t: "map_of (ap_tracked app2) 1 = Some t" "\<not> tr_executor_callback_received t"
    by (rule admit_accepted [OF adm]) (auto simp: q(2) map_simps tracked_request_new_def)
  let ?sv2 = "?sv1\<lparr>sv_app := app2, sv_arriving := remove1 q (sv_arriving ?sv1)\<rparr>"
  have "run_step ?sv1 ?sv2" by (rule service_step.Admit) (use adm in simp_all)
  with reach1 have "run_reachable ?sv2" by (rule service_reachable.Step)
  then show thesis using t fin cbs by (intro that [of ?sv2 t]) simp_all
qed

lemma finished_service:
  obtains sv where "run_reachable sv" and "sv_finished sv = [1]"
proof (rule admitted_service)
  fix sv t
  assume reach: "run_reachable sv" and fin: "sv_finished sv = []" and cbs: "sv_callbacks sv = []"
    and t: "map_of (ap_tracked (sv_app sv)) 1 = Some t" "\<not> tr_executor_callback_received t"
  let ?c = "\<lparr>cr_id = 1, cr_body = sample_result, cr_stage = Received\<rparr>"
  obtain app1 where "callback_claim 1 (sv_app sv) = (Inr True, app1)" using t by (simp add: callback_claim_def)
  from service_step.Callback [OF this, where body = sample_result] reach
  have r1: "run_reachable (sv\<lparr>sv_app := app1, sv_callbacks := [?c]\<rparr>)" (is "run_reachable ?sv1")
    using cbs by (metis service_reachable.Step)
  have r2: "run_reachable (?sv1\<lparr>sv_app := callback_correct_error sample_json 1 sample_result app1,
      sv_callbacks := [?c\<lparr>cr_stage := Error_corrected\<rparr>]\<rparr>)" (is "run_reachable ?sv2")
    using service_step.Correct_error [of ?sv1 "[]" ?c "[]" still_rng manual_config "[]" sample_json]
    by (intro service_reachable.Step [OF r1]) simp
  have r3: "run_reachable (?sv2\<lparr>sv_callbacks := [?c\<lparr>cr_stage :=
      Priced (callback_price sample_json 1 sample_result (sv_app ?sv2))\<rparr>]\<rparr>)" (is "run_reachable ?sv3")
    using service_step.Price [of ?sv2 "[]" "?c\<lparr>cr_stage := Error_corrected\<rparr>" "[]" still_rng manual_config "[]" sample_json]
    by (intro service_reachable.Step [OF r2]) simp
  obtain x app2 where "callback_store_price 1 (callback_price sample_json 1 sample_result (sv_app ?sv2)) (sv_app ?sv3) = (x, app2)"
    by fastforce
  then have r4: "run_reachable (?sv3\<lparr>sv_app := app2, sv_callbacks := [?c\<lparr>cr_stage := Repriced x\<rparr>]\<rparr>)" (is "run_reachable ?sv4")
    using service_step.Reprice [of ?sv3 "[]" "?c\<lparr>cr_stage := Priced (callback_price sample_json 1 sample_result (sv_app ?sv2))\<rparr>" "[]"
        "callback_price sample_json 1 sample_result (sv_app ?sv2)" x app2 still_rng manual_config "[]" sample_json]
    by (intro service_reachable.Step [OF r3]) simp
  obtain answer app3 where "callback_finish sample_json 1 sample_result x app2 = (answer, app3)" by fastforce
  then have "run_reachable (?sv4\<lparr>sv_app := app3, sv_callbacks := [], sv_finished := [1]\<rparr>)"
    using service_step.Finish [of ?sv4 "[]" "?c\<lparr>cr_stage := Repriced x\<rparr>" "[]" x sample_json answer app3 still_rng manual_config "[]"]
    by (intro service_reachable.Step [OF r4]) (simp add: fin)
  then show thesis by (rule that) simp
qed

text \<open>From any state a submission that is still polling can take a step.\<close>

lemma poll_step:
  obtains app where "run_step sv (on_app app sv)"
proof -
  obtain answer app where "submit_poll True 1 [] 0 (sv_app sv) = (answer, app)" by fastforce
  from that [OF service_step.Poll [OF this]] show thesis .
qed

lemma service_refines_scheduler_witness:
  "\<exists>sv :: (unit, json) service. sv_finished sv = [1] \<and> system_reachable still_rng manual_config [] (engine_of sv)"
proof (rule finished_service)
  fix sv assume sv: "run_reachable sv" "sv_finished sv = [1]"
  obtain app where "run_step sv (on_app app sv)" by (rule poll_step)
  from service_refines_scheduler [OF manual_config_ok sv(1) this] sv(2) show ?thesis by blast
qed

lemma tracked_requests_accounted_witness:
  "\<exists>sv :: (unit, json) service. sv_finished sv = [1]
     \<and> length (ap_tracked (sv_app sv)) = in_total_received (ss_inner (ap_shared (sv_app sv)))"
proof (rule finished_service)
  fix sv assume sv: "run_reachable sv" "sv_finished sv = [1]"
  from tracked_requests_accounted [OF manual_config_ok sv(1)] sv(2) show ?thesis by blast
qed

lemma outcomes_final_witness:
  "\<exists>sv :: (unit, json) service. \<exists>t. map_of (ap_tracked (sv_app sv)) 1 = Some t \<and> terminal t"
proof (rule finished_service)
  fix sv assume sv: "run_reachable sv" "sv_finished sv = [1]"
  obtain app where "run_step sv (on_app app sv)" by (rule poll_step)
  from outcomes_final [OF manual_config_ok sv(1) this] sv(2) show ?thesis by auto
qed

lemma closed_slot_stays_closed_witness:
  "\<exists>sv app. all_scheduled_by 0 (sv_app (on_app app (sv :: (unit, json) service))) \<and> 0 \<le> ap_closed_through app"
proof (rule closed_service)
  fix sv assume sv: "run_reachable sv" "ssc_manual_clock (ap_scheduler (sv_app sv))" "ap_closed_through (sv_app sv) = 0"
    "ap_tracked (sv_app sv) = []"
  obtain app where "run_step sv (on_app app sv)" by (rule poll_step)
  then have steps: "run_step\<^sup>*\<^sup>* sv (on_app app sv)" by blast
  have "all_scheduled_by 0 (sv_app sv)" by (simp add: all_scheduled_by_def sv(4))
  from closed_slot_stays_closed [OF manual_config_ok sv(1) steps sv(2) _ this] sv(3)
  have "all_scheduled_by 0 (sv_app (on_app app sv)) \<and> 0 \<le> ap_closed_through app" by simp
  then show ?thesis by blast
qed

lemma poll_reopens_dispatch_witness:
  "let app = dispatch_app\<lparr>ap_tracked := [(1, sample_tracked\<lparr>tr_status := Dispatched\<rparr>)]\<rparr>;
       a = assignment_new 0 1 0 ''Fast'' 1 5 10 None None
   in (1, a) \<in> set (due_assignments 0 0 (in_assignments (ss_inner (ap_shared (snd (submit_poll False 1 [] 0 app)))))
        (ap_tracked (snd (submit_poll False 1 [] 0 app))))"
proof -
  let ?app = "dispatch_app\<lparr>ap_tracked := [(1, sample_tracked\<lparr>tr_status := Dispatched\<rparr>)]\<rparr>"
  let ?a = "assignment_new 0 1 0 ''Fast'' 1 5 10 None None"
  obtain answer app' where run: "submit_poll False 1 [] 0 ?app = (answer, app')" by fastforce
  have facts: "map_of (ap_tracked ?app) 1 = Some (sample_tracked\<lparr>tr_status := Dispatched\<rparr>)"
    "hm_wf (in_assignments (ss_inner (ap_shared ?app)))" "map_of (in_assignments (ss_inner (ap_shared ?app))) 1 = Some ?a"
    by (simp_all add: dispatch_app_def hm_wf_def)
  have a: "as_scheduled_slot ?a \<le> 0" by (simp add: assignment_new_def assignment_new_for_profile_def)
  have t: "tr_status (sample_tracked\<lparr>tr_status := Dispatched\<rparr>) = Dispatched" "\<not> tr_executor_callback_received (sample_tracked\<lparr>tr_status := Dispatched\<rparr>)"
    "tr_next_attempt_at (sample_tracked\<lparr>tr_status := Dispatched\<rparr>) = None"
    by (simp_all add: sample_tracked_def tracked_request_new_def)
  show ?thesis
    using poll_reopens_dispatch [OF run facts(1) _ t(2) facts(2,3) a, of 0] t(1,3) unfolding Let_def run by simp
qed

lemma malformed_payload_stops_admission_witness:
  "\<exists>p app1 app2. submit_prepare sample_json (\<lambda>_. Inl []) (sample_submission (JNum 7)) sample_app = (Inr p, app1)
     \<and> admit_request sample_json 7 p app1 = (None, app2)
     \<and> (\<exists>sv :: (unit, json) service. sv_app sv = app2
          \<and> admit_request sample_json 8 (sample_prepared JNull) (sv_app sv) = (None, sv_app sv))"
proof -
  let ?app = "sample_app :: json app_state"
  have "registry_get (ap_profiles ?app) (qp_profile_id sample_profile) = Some sample_profile"
    "ssc_effective_slot_duration_secs (ap_scheduler ?app) = 60" "ssc_total_slots (ap_scheduler ?app) = 10"
    "get_current_slot (ss_inner (ap_shared ?app)) = 0" "ap_closed_through ?app = -1"
    by (simp_all add: sample_app_def sample_profile_def registry_get_def get_current_slot_def shared_state_new_def
        inner_new_def)
  moreover have "is_valid_stable_identifier (pid_str (qp_profile_id sample_profile))"
    "pid_str (qp_profile_id sample_profile) = ''default-text-generation''"
    by (simp_all add: sample_profile_def default_profile_def is_valid_stable_identifier_def is_ascii_lowercase_def
        is_ascii_digit_def)
  moreover have "\<not> js_is_object sample_json (JNum 7)" "\<not> js_is_null sample_json (JNum 7)"
    by (simp_all add: sample_json_def)
  moreover note malformed_payload_stops_admission [of sample_json "sample_submission (JNum 7)" sample_profile ?app 0
      "\<lambda>_. Inl []" 7 still_rng manual_config "[]" 8 "sample_prepared JNull" undefined]
  ultimately obtain p app1 app2 where run:
    "submit_prepare sample_json (\<lambda>_. Inl []) (sample_submission (JNum 7)) ?app = (Inr p, app1)"
    "admit_request sample_json 7 p app1 = (None, app2)"
    and later: "\<forall>sv sv'. sv_app sv = app2 \<and> run_step\<^sup>*\<^sup>* sv sv' \<longrightarrow>
      admit_request sample_json 8 (sample_prepared JNull) (sv_app sv') = (None, sv_app sv')"
    using sample_json_laws by (simp add: sample_submission_def in_i32_def) blast
  have "admit_request sample_json 8 (sample_prepared JNull) app2 = (None, app2)"
    using later [rule_format, of "undefined\<lparr>sv_app := app2\<rparr>" "undefined\<lparr>sv_app := app2\<rparr>"] by simp
  then show ?thesis using run
    by (intro exI [of _ p] exI [of _ app1] exI [of _ app2] exI [of _ "undefined\<lparr>sv_app := app2\<rparr>"] conjI) simp_all
qed

lemma retries_end_witness:
  "let app = failed_attempts 1 [(10, ''refused''), (200, ''refused''), (900, ''refused'')] (dispatch_app\<lparr>ap_next_id := 3\<rparr>)
   in \<exists>t'. map_of (ap_tracked app) 1 = Some t' \<and> tr_dispatch_attempts t' = 3 \<and> tr_status t' = Failed
        \<and> 1 \<notin> fst ` set (due_assignments 5000 4 (in_assignments (ss_inner (ap_shared app))) (ap_tracked app))"
proof -
  let ?app = "dispatch_app\<lparr>ap_next_id := 3\<rparr>"
  let ?es = "[(10, ''refused''), (200, ''refused''), (900, ''refused'')]"
  let ?sv = "(undefined :: (unit, unit) service)\<lparr>sv_app := failed_attempts 1 ?es ?app, sv_arriving := []\<rparr>"
  have "map_of (ap_tracked ?app) 1 = Some sample_tracked" by (simp add: dispatch_app_def)
  moreover have "\<not> tr_executor_callback_received sample_tracked" "awaits_dispatch 0 sample_tracked"
    "tr_dispatch_attempts sample_tracked = 0"
    by (simp_all add: sample_tracked_def tracked_request_new_def awaits_dispatch_def)
  moreover have "svc_executor_max_retries (ap_service_cfg ?app) = 3"
    by (simp add: dispatch_app_def sample_app_def sample_service_config_def)
  ultimately show ?thesis
    using retries_end [of ?app 1 sample_tracked 0 ?es 3 "ap_service_cfg ?app" ?sv 5000 still_rng manual_config "[]"
        undefined 4] by (auto simp: Let_def)
qed

end
