(* ===== verification/Generator.thy ===== *)
theory Generator
  imports Shared_State
begin

text \<open>
  The simulated workload (\<open>sim/scenario.rs\<close>, \<open>sim/generator.rs\<close>): a recorded scenario grouped by slot,
  the requests made up for a slot, and the generator thread. The thread is described by the
  sequence of its actions on the shared state, given the readings it makes of the virtual clock and
  of its \<open>running\<close> flag; sleeping and printing are left out. The normal distribution, sampled with
  a generator seeded per slot, and the system clock are parameters.
\<close>

section \<open>Scenarios\<close>

record scenario_request =
  sq_request_id :: request_id
  sq_arrival_slot :: slot
  sq_deadline_slot :: slot
  sq_arrival_time :: f64

record scenario =
  sn_metadata :: scenario_metadata
  sn_carbon_forecast :: "f64 list"
  sn_requests :: "scenario_request list"

definition to_request :: "f64 \<Rightarrow> scenario_request \<Rightarrow> request" where
  "to_request now sr = request_new now (sq_request_id sr) (sq_arrival_slot sr) (sq_deadline_slot sr)"

text \<open>\<open>(slot as usize).min(n - 1)\<close>: a negative slot is larger than every index.\<close>

definition group_index :: "nat \<Rightarrow> slot \<Rightarrow> nat" where
  "group_index n s = (if s < 0 then n - 1 else min (nat s) (n - 1))"

text \<open>\<open>now k\<close> is the time when the \<open>k\<close>-th request is converted.\<close>

fun group_requests ::
    "(nat \<Rightarrow> f64) \<Rightarrow> nat \<Rightarrow> nat \<Rightarrow> scenario_request list \<Rightarrow> request list list \<Rightarrow> request list list" where
  "group_requests now n k [] by_slot = by_slot"
| "group_requests now n k (sr # srs) by_slot =
     (let idx = group_index n (sq_arrival_slot sr)
      in group_requests now n (k + 1) srs (by_slot[idx := by_slot ! idx @ [to_request (now k) sr]]))"

text \<open>\<open>None\<close> is the panic of \<open>n - 1\<close> and the index without slots, or of the allocation for a negative number.\<close>

definition requests_by_slot :: "(nat \<Rightarrow> f64) \<Rightarrow> scenario \<Rightarrow> request list list option" where
  "requests_by_slot now sc =
     (let n = sm_total_slots (sn_metadata sc)
      in if n < 0 \<or> (n = 0 \<and> sn_requests sc \<noteq> []) then None
         else Some (group_requests now (nat n) 0 (sn_requests sc) (replicate (nat n) [])))"

fun arrival_counts :: "scenario_request list \<Rightarrow> (slot, nat) hmap \<Rightarrow> (slot, nat) hmap" where
  "arrival_counts [] counts = counts"
| "arrival_counts (sr # srs) counts = arrival_counts srs (hm_entry (sq_arrival_slot sr) 0 (\<lambda>c. c + 1) counts)"

definition arrival_distribution :: "scenario \<Rightarrow> (slot, nat) hmap" where
  "arrival_distribution sc = arrival_counts (sn_requests sc) []"

section \<open>The requests of a slot\<close>

record request_generator_config =
  gc_slot_duration_secs :: f64
  gc_total_slots :: int
  gc_requests_per_slot :: f64
  gc_request_rate_std_factor :: f64
  gc_deadline_min_slack :: int
  gc_deadline_max_slack :: int
  gc_skip_empty_slots :: bool
  gc_realtime_chunk_size :: nat
  gc_prehistory_random_seed :: nat
  gc_verbose :: bool

definition generator_config_of :: "config \<Rightarrow> request_generator_config" where
  "generator_config_of cfg =
     \<lparr>gc_slot_duration_secs = effective_slot_duration_secs cfg, gc_total_slots = cfg_total_slots cfg,
      gc_requests_per_slot = sim_predicted_requests_per_slot (cfg_simulation cfg),
      gc_request_rate_std_factor = sim_request_rate_std_factor (cfg_simulation cfg),
      gc_deadline_min_slack = sim_deadline_min_slack (cfg_simulation cfg),
      gc_deadline_max_slack = sim_deadline_max_slack (cfg_simulation cfg),
      gc_skip_empty_slots = sim_skip_empty_slots (cfg_simulation cfg),
      gc_realtime_chunk_size = sim_generator_realtime_chunk_size (cfg_simulation cfg),
      gc_prehistory_random_seed = inf_prehistory_random_seed (cfg_infeasibility cfg),
      gc_verbose = lg_verbose (cfg_logging cfg)\<rparr>"

text \<open>The remainder of \<open>i32\<close> takes the sign of the dividend.\<close>

definition i32_rem :: "int \<Rightarrow> int \<Rightarrow> int" where
  "i32_rem a b = sgn a * (\<bar>a\<bar> mod \<bar>b\<bar>)"

definition generate_request :: "f64 \<Rightarrow> slot \<Rightarrow> request_generator_config \<Rightarrow> nat \<Rightarrow> request \<times> nat" where
  "generate_request now arrival_slot cfg counter =
     (let i = counter;
          slack_range = max (i32_sub (gc_deadline_max_slack cfg) (gc_deadline_min_slack cfg)) 0;
          slack = i32_add (gc_deadline_min_slack cfg) (i32_rem (wrap32 (int i)) (i32_add slack_range 1));
          deadline_slot = min (i32_add arrival_slot slack) (i32_sub (gc_total_slots cfg) 1)
      in (request_new now i arrival_slot deadline_slot, (counter + 1) mod 2 ^ 64))"

fun generate_requests ::
    "(nat \<Rightarrow> f64) \<Rightarrow> slot \<Rightarrow> request_generator_config \<Rightarrow> nat \<Rightarrow> nat \<Rightarrow> request list \<times> nat" where
  "generate_requests now s cfg 0 counter = ([], counter)"
| "generate_requests now s cfg (Suc num) counter =
     (let (r, counter1) = generate_request (now counter) s cfg counter;
          (rs, counter2) = generate_requests now s cfg num counter1
      in (r # rs, counter2))"

datatype workload = Recorded "request list list" | Stochastic

text \<open>\<open>sample seed\<close> is the first sample of the distribution from a generator with that seed.\<close>

definition requests_for_slot ::
    "(nat \<Rightarrow> f64) \<Rightarrow> (nat \<Rightarrow> f64) \<Rightarrow> request_generator_config \<Rightarrow> workload \<Rightarrow> slot \<Rightarrow> nat \<Rightarrow> request list \<times> nat" where
  "requests_for_slot sample now cfg work s counter =
     (case work of
        Recorded by_slot \<Rightarrow> (if nat s < length by_slot then by_slot ! nat s else [], counter)
      | Stochastic \<Rightarrow>
         (let num = nat (max (f64_as_i32 (sample ((gc_prehistory_random_seed cfg + nat s) mod 2 ^ 64))) 1)
          in generate_requests now s cfg num counter))"

section \<open>The thread\<close>

datatype action = Add_chunk "request list" | Slot_done slot

definition perform :: "action \<Rightarrow> shared_state \<Rightarrow> shared_state" where
  "perform act ss =
     (case act of
        Add_chunk rs \<Rightarrow> with_inner (add_requests rs) ss
      | Slot_done s \<Rightarrow> set_generator_processed_slot s ss)"

function chunks :: "nat \<Rightarrow> 'a list \<Rightarrow> 'a list list" where
  "chunks n xs = (if xs = [] \<or> n = 0 then [] else take n xs # chunks n (drop n xs))"
  by auto
termination by (relation "measure (\<lambda>(n, xs). length xs)") auto

declare chunks.simps [simp del]

text \<open>\<open>running s k\<close> is the flag as read before chunk \<open>k\<close> of slot \<open>s\<close>.\<close>

fun send_paced :: "(nat \<Rightarrow> bool) \<Rightarrow> nat \<Rightarrow> request list list \<Rightarrow> action list" where
  "send_paced running k [] = []"
| "send_paced running k (c # cs) = (if \<not> running k then [] else Add_chunk c # send_paced running (k + 1) cs)"

definition lock_batch_size :: nat where
  "lock_batch_size = 50"

definition slot_actions ::
    "(slot \<Rightarrow> nat \<Rightarrow> bool) \<Rightarrow> request_generator_config \<Rightarrow> slot \<Rightarrow> slot \<Rightarrow> request list \<Rightarrow> action list" where
  "slot_actions running cfg current_slot s requests =
     (let realtime_pacing = (\<not> gc_skip_empty_slots cfg);
          ordered = sort_key rq_arrival_time requests
      in (if realtime_pacing \<and> 0 < length ordered \<and> s = current_slot
          then send_paced (running s) 0 (chunks (max (gc_realtime_chunk_size cfg) 1) ordered)
          else map Add_chunk (chunks lock_batch_size ordered)) @ [Slot_done s])"

fun catch_up ::
    "(nat \<Rightarrow> f64) \<Rightarrow> (nat \<Rightarrow> f64) \<Rightarrow> (slot \<Rightarrow> nat \<Rightarrow> bool) \<Rightarrow> request_generator_config \<Rightarrow> workload \<Rightarrow> slot
     \<Rightarrow> slot list \<Rightarrow> nat \<Rightarrow> action list \<times> nat" where
  "catch_up sample now running cfg work current_slot [] counter = ([], counter)"
| "catch_up sample now running cfg work current_slot (s # ss) counter =
     (let (requests, counter1) = requests_for_slot sample now cfg work s counter;
          (acts, counter2) = catch_up sample now running cfg work current_slot ss counter1
      in (slot_actions running cfg current_slot s requests @ acts, counter2))"

text \<open>One reading per iteration of the loop; it also ends when there is none left, which is \<open>running\<close> turned off.\<close>

fun generator_loop ::
    "(nat \<Rightarrow> f64) \<Rightarrow> (nat \<Rightarrow> f64) \<Rightarrow> (slot \<Rightarrow> nat \<Rightarrow> bool) \<Rightarrow> request_generator_config \<Rightarrow> workload
     \<Rightarrow> f64 list \<Rightarrow> slot \<Rightarrow> nat \<Rightarrow> action list \<times> slot \<times> nat" where
  "generator_loop sample now running cfg work [] last_slot counter = ([], last_slot, counter)"
| "generator_loop sample now running cfg work (elapsed # readings) last_slot counter =
     (let raw_slot = f64_as_i32 (elapsed / gc_slot_duration_secs cfg);
          current_slot = min raw_slot (i32_sub (gc_total_slots cfg) 1);
          (acts, counter1) = (if last_slot < current_slot
             then catch_up sample now running cfg work current_slot [last_slot + 1..current_slot] counter
             else ([], counter));
          last1 = (if last_slot < current_slot then current_slot else last_slot)
      in if gc_total_slots cfg \<le> raw_slot then (acts, last1, counter1)
         else
           (let (more, last2, counter2) = generator_loop sample now running cfg work readings last1 counter1
            in (acts @ more, last2, counter2)))"

section \<open>Grouping keeps every request\<close>

lemma group_requests_length [simp]: "length (group_requests now n k srs by_slot) = length by_slot"
  by (induction srs arbitrary: k by_slot) (simp_all add: Let_def)

lemma group_index_less: "0 < n \<Longrightarrow> group_index n s < n"
  by (auto simp: group_index_def min_def)

lemma group_requests_at:
  assumes "0 < n" and "length by_slot = n" and "i < n"
  shows "map rq_id (group_requests now n k srs by_slot ! i)
    = map rq_id (by_slot ! i) @ map sq_request_id (filter (\<lambda>sr. group_index n (sq_arrival_slot sr) = i) srs)"
  using assms(2)
proof (induction srs arbitrary: k by_slot)
  case (Cons sr srs)
  then show ?case
    using assms(1,3) group_index_less [OF assms(1), of "sq_arrival_slot sr"]
    by (cases "group_index n (sq_arrival_slot sr) = i")
      (simp_all add: Let_def to_request_def request_new_def)
qed simp

text \<open>
  Grouping a scenario loses nothing. For a scenario with slots the groups are as many as the
  slots; the group of a slot before the last holds exactly the requests that arrive in it, in the
  order of the file, and the last group those that arrive in it, beyond the horizon, or at a
  negative slot. Without slots the grouping panics unless there is no request.
\<close>

theorem scenario_grouping_exact:
  assumes "requests_by_slot now sc = Some by_slot" and "0 \<le> s" and "s < sm_total_slots (sn_metadata sc)"
  shows "int (length by_slot) = sm_total_slots (sn_metadata sc)
    \<and> map rq_id (by_slot ! nat s) = map sq_request_id
        (filter (\<lambda>sr. if s + 1 < sm_total_slots (sn_metadata sc) then sq_arrival_slot sr = s
           else sq_arrival_slot sr < 0 \<or> s \<le> sq_arrival_slot sr) (sn_requests sc))"
proof -
  let ?n = "nat (sm_total_slots (sn_metadata sc))"
  have by_slot: "by_slot = group_requests now ?n 0 (sn_requests sc) (replicate ?n [])"
    using assms by (simp add: requests_by_slot_def Let_def split: if_splits)
  have n: "0 < ?n" "nat s < ?n" using assms by simp_all
  have idx: "group_index ?n (sq_arrival_slot sr) = nat s \<longleftrightarrow>
      (if s + 1 < sm_total_slots (sn_metadata sc) then sq_arrival_slot sr = s
       else sq_arrival_slot sr < 0 \<or> s \<le> sq_arrival_slot sr)" for sr
    using assms(2,3) by (auto simp: group_index_def)
  have "map rq_id (by_slot ! nat s) = map sq_request_id (filter (\<lambda>sr. group_index ?n (sq_arrival_slot sr) = nat s) (sn_requests sc))"
    unfolding by_slot using group_requests_at [OF n(1) _ n(2), of "replicate ?n []" now 0 "sn_requests sc"] n by simp
  then show ?thesis using assms(3) assms(2) unfolding idx by (simp add: by_slot)
qed

section \<open>What the thread emits\<close>

definition emitted :: "action list \<Rightarrow> request list" where
  "emitted acts = concat (map (\<lambda>a. case a of Add_chunk rs \<Rightarrow> rs | Slot_done s \<Rightarrow> []) acts)"

definition slots_done :: "action list \<Rightarrow> slot list" where
  "slots_done acts = concat (map (\<lambda>a. case a of Add_chunk rs \<Rightarrow> [] | Slot_done s \<Rightarrow> [s]) acts)"

lemma emitted_simps [simp]:
  "emitted [] = []" "emitted (Add_chunk rs # acts) = rs @ emitted acts" "emitted (Slot_done s # acts) = emitted acts"
  "emitted (acts @ acts') = emitted acts @ emitted acts'" "emitted (map Add_chunk cs) = concat cs"
  by (simp_all add: emitted_def comp_def)

lemma slots_done_simps [simp]:
  "slots_done [] = []" "slots_done (Add_chunk rs # acts) = slots_done acts" "slots_done (Slot_done s # acts) = s # slots_done acts"
  "slots_done (acts @ acts') = slots_done acts @ slots_done acts'" "slots_done (map Add_chunk cs) = []"
  by (simp_all add: slots_done_def comp_def)

lemma concat_chunks: "0 < n \<Longrightarrow> concat (chunks n xs) = xs"
proof (induction "length xs" arbitrary: xs rule: less_induct)
  case less
  show ?case
  proof (cases "xs = []")
    case False
    then have "concat (chunks n (drop n xs)) = drop n xs" using less by simp
    then show ?thesis using False less.prems by (subst chunks.simps) simp
  qed (subst chunks.simps, simp)
qed

lemma chunk_sizes: "c \<in> set (chunks n xs) \<Longrightarrow> 0 < length c \<and> length c \<le> n"
proof (induction "length xs" arbitrary: xs rule: less_induct)
  case less
  then have "xs \<noteq> []" "0 < n" by (subst (asm) (2) chunks.simps, auto split: if_splits)+
  then show ?case
    using less.hyps [of "drop n xs"] less.prems by (subst (asm) (2) chunks.simps) auto
qed

lemma send_paced_running: "\<forall>k. running k \<Longrightarrow> send_paced running k cs = map Add_chunk cs"
  by (induction cs arbitrary: k) simp_all

lemma send_paced_slots [simp]: "slots_done (send_paced running k cs) = []"
  by (induction cs arbitrary: k) simp_all

lemma slot_actions_done [simp]: "slots_done (slot_actions running cfg cur s rs) = [s]"
  by (simp add: slot_actions_def Let_def)

lemma slot_actions_emitted:
  assumes "\<forall>k. running s k"
  shows "emitted (slot_actions running cfg cur s rs) = sort_key rq_arrival_time rs"
  using send_paced_running [OF assms] by (auto simp: slot_actions_def Let_def concat_chunks lock_batch_size_def)

lemma catch_up_done: "slots_done (fst (catch_up sample now running cfg work cur ss counter)) = ss"
  by (induction ss arbitrary: counter) (simp_all add: case_prod_unfold Let_def)

lemma catch_up_emitted:
  assumes "\<forall>s k. running s k"
  shows "emitted (fst (catch_up sample now running cfg (Recorded by_slot) cur ss counter))
    = concat (map (\<lambda>s. sort_key rq_arrival_time (if nat s < length by_slot then by_slot ! nat s else [])) ss)"
  using assms
  by (induction ss arbitrary: counter) (simp_all add: case_prod_unfold Let_def requests_for_slot_def slot_actions_emitted)

text \<open>One iteration, as a function of the reading.\<close>

definition turn ::
    "(nat \<Rightarrow> f64) \<Rightarrow> (nat \<Rightarrow> f64) \<Rightarrow> (slot \<Rightarrow> nat \<Rightarrow> bool) \<Rightarrow> request_generator_config \<Rightarrow> workload
     \<Rightarrow> slot \<Rightarrow> slot \<Rightarrow> nat \<Rightarrow> action list \<times> slot \<times> nat" where
  "turn sample now running cfg work cur prev counter =
     (if prev < cur
      then (let (acts, counter1) = catch_up sample now running cfg work cur [prev + 1..cur] counter in (acts, cur, counter1))
      else ([], prev, counter))"

lemma loop_turn:
  "generator_loop sample now running cfg work (elapsed # readings) prev counter =
     (let raw = f64_as_i32 (elapsed / gc_slot_duration_secs cfg);
          (acts, prev1, counter1) = turn sample now running cfg work (min raw (i32_sub (gc_total_slots cfg) 1)) prev counter
      in if gc_total_slots cfg \<le> raw then (acts, prev1, counter1)
         else (let (more, prev2, counter2) = generator_loop sample now running cfg work readings prev1 counter1
               in (acts @ more, prev2, counter2)))"
  by (simp add: turn_def Let_def case_prod_unfold)

lemma turn_done:
  assumes "turn sample now running cfg work cur prev counter = (acts, prev1, counter1)"
  shows "prev \<le> prev1 \<and> slots_done acts = [prev + 1..prev1]"
  using assms catch_up_done [of sample now running cfg work cur "[prev + 1..cur]" counter]
  by (auto simp: turn_def case_prod_unfold Let_def split: if_splits)

lemma turn_reaches:
  assumes "turn sample now running cfg work cur prev counter = (acts, prev1, counter1)"
  shows "prev1 = max prev cur"
  using assms by (auto simp: turn_def case_prod_unfold Let_def split: if_splits)

lemma upto_join: "p \<le> q \<Longrightarrow> q \<le> r \<Longrightarrow> [p + 1..q] @ [q + 1..r] = [p + 1..r]"
  using upto_split2 [of "p + 1" q r] by (cases "p = q") simp_all

lemma turn_emitted:
  assumes "\<forall>s k. running s k" and "turn sample now running cfg (Recorded by_slot) cur prev counter = (acts, prev1, counter1)"
  shows "emitted acts = concat (map (\<lambda>s. sort_key rq_arrival_time (if nat s < length by_slot then by_slot ! nat s else [])) [prev + 1..prev1])"
  using assms(2) catch_up_emitted [of running sample now cfg by_slot cur "[prev + 1..cur]" counter, OF assms(1)]
  by (auto simp: turn_def case_prod_unfold Let_def split: if_splits)

text \<open>The loop, unfolded once: it ends after the turn or goes on from it.\<close>

lemma loop_cases:
  assumes "generator_loop sample now running cfg work (elapsed # readings) prev counter = (acts, prev', counter')"
  obtains (ends) "turn sample now running cfg work (min (f64_as_i32 (elapsed / gc_slot_duration_secs cfg)) (i32_sub (gc_total_slots cfg) 1))
        prev counter = (acts, prev', counter')"
      "gc_total_slots cfg \<le> f64_as_i32 (elapsed / gc_slot_duration_secs cfg)"
    | (goes_on) first prev1 counter1 more where
      "turn sample now running cfg work (min (f64_as_i32 (elapsed / gc_slot_duration_secs cfg)) (i32_sub (gc_total_slots cfg) 1))
        prev counter = (first, prev1, counter1)"
      "\<not> gc_total_slots cfg \<le> f64_as_i32 (elapsed / gc_slot_duration_secs cfg)"
      "generator_loop sample now running cfg work readings prev1 counter1 = (more, prev', counter')" "acts = first @ more"
  using assms unfolding loop_turn Let_def by (auto split: prod.splits if_splits)

lemma loop_done:
  assumes "generator_loop sample now running cfg work readings prev counter = (acts, prev', counter')"
  shows "prev \<le> prev' \<and> slots_done acts = [prev + 1..prev']"
  using assms
proof (induction readings arbitrary: prev counter acts)
  case (Cons elapsed readings)
  from Cons.prems show ?case
  proof (cases rule: loop_cases)
    case ends
    then show ?thesis using turn_done by blast
  next
    case (goes_on first prev1 counter1 more)
    then show ?thesis
      using turn_done [OF goes_on(1)] Cons.IH [OF goes_on(3)] upto_join [of prev prev1 prev'] by simp
  qed
qed simp

lemma upto_map_int: "[0..int n - 1] = map int [0..<n]"
  by (induction n) (simp_all add: upto_rec2)

lemma loop_emitted:
  assumes "\<forall>s k. running s k"
    and "generator_loop sample now running cfg (Recorded by_slot) readings prev counter = (acts, prev', counter')"
  shows "emitted acts = concat (map (\<lambda>s. sort_key rq_arrival_time (if nat s < length by_slot then by_slot ! nat s else [])) [prev + 1..prev'])"
  using assms(2)
proof (induction readings arbitrary: prev counter acts)
  case (Cons elapsed readings)
  from Cons.prems show ?case
  proof (cases rule: loop_cases)
    case ends
    then show ?thesis using turn_emitted [OF assms(1)] by blast
  next
    case (goes_on first prev1 counter1 more)
    then show ?thesis
      using turn_done [OF goes_on(1)] turn_emitted [OF assms(1) goes_on(1)] Cons.IH [OF goes_on(3)] loop_done [OF goes_on(3)]
        by (simp add: upto_join flip: map_append concat_append)
  qed
qed simp

lemma loop_reaches_end:
  assumes "in_i32 (gc_total_slots cfg)" and "0 < gc_total_slots cfg" and "prev < gc_total_slots cfg"
    and "\<exists>e\<in>set readings. gc_total_slots cfg \<le> f64_as_i32 (e / gc_slot_duration_secs cfg)"
    and "generator_loop sample now running cfg work readings prev counter = (acts, prev', counter')"
  shows "prev' = gc_total_slots cfg - 1"
  using assms(3-5)
proof (induction readings arbitrary: prev counter acts)
  case (Cons elapsed readings)
  have total: "i32_sub (gc_total_slots cfg) 1 = gc_total_slots cfg - 1"
    using assms(1,2) by (simp add: i32_sub_def wrap32_def in_i32_def)
  from Cons.prems(3) show ?case
  proof (cases rule: loop_cases)
    case ends
    then show ?thesis using turn_reaches [OF ends(1)] Cons.prems(1) total by simp
  next
    case (goes_on first prev1 counter1 more)
    have "prev1 < gc_total_slots cfg" using turn_reaches [OF goes_on(1)] Cons.prems(1) total by simp
    then show ?thesis using Cons.IH [OF _ _ goes_on(3)] Cons.prems(2) goes_on(2) by auto
  qed
qed simp

text \<open>
  C25: The generator replays a whole scenario. If it is not stopped and at some reading the virtual
  clock has passed the horizon, then, however far the clock jumps between two readings, it emits
  every slot exactly once and in order, and what it adds to the queue is, slot by slot, every request
  of the slot, each once, by arrival time.
\<close>

theorem generator_replays_scenario:
  assumes "in_i32 (gc_total_slots cfg)" and "0 < gc_total_slots cfg"
    and "\<exists>e\<in>set readings. gc_total_slots cfg \<le> f64_as_i32 (e / gc_slot_duration_secs cfg)"
    and "\<forall>s k. running s k" and "int (length by_slot) = gc_total_slots cfg"
    and "generator_loop sample now running cfg (Recorded by_slot) readings (-1) counter = (acts, s, counter')"
  shows "slots_done acts = [0..gc_total_slots cfg - 1]
    \<and> emitted acts = concat (map (sort_key rq_arrival_time) by_slot)
    \<and> mset (emitted acts) = mset (concat by_slot)"
proof -
  have s: "s = gc_total_slots cfg - 1"
    by (rule loop_reaches_end [OF assms(1,2) _ assms(3,6)]) (use assms(2) in simp_all)
  have finished: "slots_done acts = [0..gc_total_slots cfg - 1]" using loop_done [OF assms(6)] s by simp
  have slots: "[0..gc_total_slots cfg - 1] = map int [0..<length by_slot]"
    unfolding assms(5) [symmetric] by (rule upto_map_int)
  have "map (\<lambda>s. sort_key rq_arrival_time (if nat s < length by_slot then by_slot ! nat s else [])) (map int [0..<length by_slot])
      = map (sort_key rq_arrival_time) (map (nth by_slot) [0..<length by_slot])"
    by simp
  then have em: "emitted acts = concat (map (sort_key rq_arrival_time) by_slot)"
    using loop_emitted [OF assms(4,6)] unfolding s map_nth by (simp add: slots)
  moreover have "mset (concat (map (sort_key rq_arrival_time) xss)) = mset (concat xss)" for xss :: "request list list"
    by (induction xss) simp_all
  ultimately show ?thesis using finished by simp
qed

lemma generator_replays_scenario_witness:
  "let r = request_new 5 0 0 1; r' = request_new 4 1 0 2; r'' = request_new 9 2 2 2;
       (acts, s, counter) = generator_loop (\<lambda>_. 1) (\<lambda>_. 0) (\<lambda>_ _. True)
         ((generator_config_of config_default)\<lparr>gc_total_slots := 3, gc_slot_duration_secs := 10\<rparr>)
         (Recorded [[r, r'], [], [r'']]) [1, 25, 40] (-1) 0
   in slots_done acts = [0, 1, 2] \<and> emitted acts = [r', r, r'']"
proof -
  let ?cfg = "(generator_config_of config_default)\<lparr>gc_total_slots := 3, gc_slot_duration_secs := 10\<rparr>"
  let ?by = "[[request_new 5 0 0 1, request_new 4 1 0 2], [], [request_new 9 2 2 2]]"
  obtain acts s counter where run: "generator_loop (\<lambda>_. 1) (\<lambda>_. 0) (\<lambda>_ _. True) ?cfg (Recorded ?by) [1, 25, 40] (-1) 0
      = (acts, s, counter)" using prod_cases3 by blast
  have "slots_done acts = [0..gc_total_slots ?cfg - 1] \<and> emitted acts = concat (map (sort_key rq_arrival_time) ?by)
      \<and> mset (emitted acts) = mset (concat ?by)"
    by (rule generator_replays_scenario [OF _ _ _ _ _ run])
      (simp_all add: in_i32_def f64_as_i32_def f64_trunc_def)
  then show ?thesis unfolding run Let_def by (simp add: upto_rec1 request_new_def)
qed

section \<open>Deadlines of made-up requests\<close>

text \<open>
  The deadline of a made-up request. While identifiers stay below \<open>2 ^ 31\<close> the slack of request
  \<open>i\<close> runs cyclically through the configured range, so the deadline lies between the smallest and
  the largest slack after the arrival unless the horizon cuts it off, and never before the arrival.
  An identifier in the upper half of 32 bits is taken for a negative number, and its slack can fall
  below the configured minimum by as much as the width of the range.
\<close>

theorem generated_deadline:
  assumes "generate_request now s cfg i = (r, counter)"
    and "0 \<le> gc_deadline_min_slack cfg" and "gc_deadline_min_slack cfg \<le> gc_deadline_max_slack cfg"
    and "0 \<le> s" and "s < gc_total_slots cfg" and "gc_total_slots cfg + gc_deadline_max_slack cfg < 2 ^ 31 - 1"
  shows "rq_id r = i \<and> rq_arrival_slot r = s
    \<and> (i < 2 ^ 31 \<longrightarrow> rq_deadline_slot r = min (s + gc_deadline_min_slack cfg
          + int i mod (gc_deadline_max_slack cfg - gc_deadline_min_slack cfg + 1)) (gc_total_slots cfg - 1)
        \<and> s \<le> rq_deadline_slot r \<and> rq_deadline_slot r \<le> s + gc_deadline_max_slack cfg)
    \<and> (2 ^ 31 \<le> i \<and> i < 2 ^ 32 \<longrightarrow> rq_deadline_slot r = min (s + gc_deadline_min_slack cfg
          - (2 ^ 32 - int i) mod (gc_deadline_max_slack cfg - gc_deadline_min_slack cfg + 1)) (gc_total_slots cfg - 1))"
proof -
  define lo where "lo = gc_deadline_min_slack cfg"
  define w where "w = gc_deadline_max_slack cfg - lo + 1"
  define total where "total = gc_total_slots cfg"
  have h: "0 \<le> lo" "0 < w" "0 \<le> s" "s < total" "total + lo + w < 2 ^ 31"
    using assms(2-6) by (simp_all add: lo_def w_def total_def)
  have exact: "wrap32 x = x" if "- (2 ^ 31) \<le> x" "x < 2 ^ 31" for x
    using that by (simp add: wrap32_def)
  have range: "i32_add (max (i32_sub (gc_deadline_max_slack cfg) (gc_deadline_min_slack cfg)) 0) 1 = w"
    using h by (simp add: i32_add_def i32_sub_def exact w_def lo_def)
  have last: "i32_sub (gc_total_slots cfg) 1 = total - 1" using h by (simp add: i32_sub_def exact total_def)
  have r: "rq_id r = i" "rq_arrival_slot r = s"
    "rq_deadline_slot r = min (i32_add s (i32_add lo (i32_rem (wrap32 (int i)) w))) (total - 1)"
    using assms(1) by (auto simp: generate_request_def request_new_def Let_def range last lo_def)
  have placed: "i32_add s (i32_add lo m) = s + lo + m" if "- w < m" "m < w" for m
    using that h by (simp add: i32_add_def exact)
  have low: "rq_deadline_slot r = min (s + lo + int i mod w) (total - 1)" if "i < 2 ^ 31"
  proof -
    have "int i < 2 ^ 31" using that by (metis of_nat_less_iff of_nat_numeral of_nat_power)
    then have "wrap32 (int i) = int i" by (simp add: exact)
    moreover have "i32_rem (int i) w = int i mod w" using h(2) by (cases "i = 0") (simp_all add: i32_rem_def)
    ultimately show ?thesis
      using r(3) placed [of "int i mod w"] pos_mod_bound [OF h(2), of "int i"] pos_mod_sign [OF h(2), of "int i"] h(2) by simp
  qed
  have high: "rq_deadline_slot r = min (s + lo - (2 ^ 32 - int i) mod w) (total - 1)" if "2 ^ 31 \<le> i" "i < 2 ^ 32"
  proof -
    have i: "2 ^ 31 \<le> int i" "int i < 2 ^ 32"
      using that by (metis of_nat_le_iff of_nat_numeral of_nat_power, metis of_nat_less_iff of_nat_numeral of_nat_power)
    have "(int i + 2147483648) mod 4294967296 = int i + 2147483648 - (4294967296::int)"
      using i minus_mod_self2 [of "int i + 2147483648" "4294967296::int", symmetric]
      mod_pos_pos_trivial [of "int i + 2147483648 - 4294967296" "4294967296::int"] by simp
    then have "wrap32 (int i) = - (2 ^ 32 - int i)" by (simp add: wrap32_def)
    moreover have "i32_rem (- (2 ^ 32 - int i)) w = - ((2 ^ 32 - int i) mod w)"
      using i h(2) by (simp add: i32_rem_def sgn_if)
    moreover have "i32_add s (i32_add lo (- ((2 ^ 32 - int i) mod w))) = s + lo + - ((2 ^ 32 - int i) mod w)"
      using pos_mod_bound [OF h(2), of "2 ^ 32 - int i"] pos_mod_sign [OF h(2), of "2 ^ 32 - int i"] h(2)
      by (intro placed) linarith+
    ultimately show ?thesis using r(3) by simp
  qed
  have "0 \<le> int i mod w" "int i mod w < w" using h(2) by simp_all
  then show ?thesis
    using r(1,2) low high h unfolding w_def total_def lo_def by auto
qed

lemma generated_deadline_witness:
  "let cfg = (generator_config_of config_default)\<lparr>gc_total_slots := 100, gc_deadline_min_slack := 2, gc_deadline_max_slack := 4\<rparr>
   in rq_deadline_slot (fst (generate_request 0 5 cfg 7)) = 8
    \<and> rq_deadline_slot (fst (generate_request 0 5 cfg (2 ^ 32 - 2))) = 5"
proof -
  let ?cfg = "(generator_config_of config_default)\<lparr>gc_total_slots := 100, gc_deadline_min_slack := 2, gc_deadline_max_slack := 4\<rparr>"
  obtain r c where r: "generate_request 0 5 ?cfg 7 = (r, c)" by fastforce
  obtain r' c' where r': "generate_request 0 5 ?cfg (2 ^ 32 - 2) = (r', c')" by fastforce
  show ?thesis
    using generated_deadline [OF r] generated_deadline [OF r'] unfolding Let_def r r' by simp
qed

lemma scenario_grouping_exact_witness:
  "let mk = \<lambda>i s. \<lparr>sq_request_id = i, sq_arrival_slot = s, sq_deadline_slot = 2, sq_arrival_time = 0\<rparr>;
       meta = \<lparr>sm_total_slots = 2, sm_slot_duration_seconds = 10, sm_requests_per_slot = 2,
         sm_request_rate_std_factor = 0, sm_deadline_min_slack = 0, sm_deadline_max_slack = 1,
         sm_max_error_threshold = 5, sm_error_window_past = 5, sm_error_window_future = 5,
         sm_error_window_past_decay_slots = 1, sm_prehistory_enabled = False, sm_prehistory_error_ratio = 0,
         sm_prehistory_mock_influence = 0, sm_carbon_intensity_cycle_slots = 4,
         sm_carbon_random_noise_amplitude = 0, sm_seed = 1, sm_capacity_tiers = None\<rparr>;
       sc = \<lparr>sn_metadata = meta, sn_carbon_forecast = [], sn_requests = [mk 7 0, mk 8 (- 1), mk 9 1, mk 10 5, mk 11 0]\<rparr>
   in map (map rq_id) (the (requests_by_slot (\<lambda>_. 0) sc)) = [[7, 11], [8, 9, 10]]"
proof -
  define mk :: "nat \<Rightarrow> int \<Rightarrow> scenario_request"
    where "mk = (\<lambda>i s. \<lparr>sq_request_id = i, sq_arrival_slot = s, sq_deadline_slot = 2, sq_arrival_time = 0\<rparr>)"
  define meta where "meta = \<lparr>sm_total_slots = 2, sm_slot_duration_seconds = 10, sm_requests_per_slot = 2,
         sm_request_rate_std_factor = 0, sm_deadline_min_slack = 0, sm_deadline_max_slack = 1,
         sm_max_error_threshold = 5, sm_error_window_past = 5, sm_error_window_future = 5,
         sm_error_window_past_decay_slots = 1, sm_prehistory_enabled = False, sm_prehistory_error_ratio = 0,
         sm_prehistory_mock_influence = 0, sm_carbon_intensity_cycle_slots = 4,
         sm_carbon_random_noise_amplitude = 0, sm_seed = 1, sm_capacity_tiers = None\<rparr>"
  define sc where "sc = \<lparr>sn_metadata = meta, sn_carbon_forecast = [], sn_requests = [mk 7 0, mk 8 (- 1), mk 9 1, mk 10 5, mk 11 0]\<rparr>"
  have m: "sm_total_slots meta = 2" by (simp add: meta_def)
  obtain by_slot where g: "requests_by_slot (\<lambda>_. 0) sc = Some by_slot"
    using m by (simp add: requests_by_slot_def sc_def)
  have "length by_slot = 2" "map rq_id (by_slot ! 0) = [7, 11]" "map rq_id (by_slot ! 1) = [8, 9, 10]"
    using scenario_grouping_exact [OF g, of 0] scenario_grouping_exact [OF g, of 1] m
    by (simp_all add: sc_def mk_def)
  then have "map (map rq_id) by_slot = [[7, 11], [8, 9, 10]]" by (auto simp: numeral_2_eq_2 length_Suc_conv)
  then show ?thesis using g unfolding Let_def sc_def mk_def meta_def by simp
qed

end
