(* ===== verification/Evaluation.thy ===== *)
theory Evaluation
  imports Swarm Generator "HOL-Library.Product_Lexorder"
begin

text \<open>
  The evaluation core of the benchmark (\<open>bin/nshift/main.rs\<close>): the report of a run, its recomputed
  carbon costs, its summary, and the greedy strategies it is compared with. The rows of the metrics
  log are values here: the CSV files they travel through are not modelled. Iteration over a hash map
  is the order of its association list.
\<close>

section \<open>Rows\<close>

record solver_run_row =
  sr_run_id :: string
  sr_run_sequence :: nat
  sr_current_slot :: slot
  sr_pending_batch_size :: nat
  sr_new_assignments :: nat
  sr_solver_elapsed_ms :: f64
  sr_solver_status :: string
  sr_solver_mode :: string

record assignment_row =
  ar_run_id :: string
  ar_request_id :: request_id
  ar_current_slot :: slot
  ar_is_new_assignment_in_run :: bool
  ar_scheduled_slot :: slot
  ar_flavour_name :: string
  ar_error :: f64
  ar_carbon_cost :: f64
  ar_arrival_slot :: slot
  ar_deadline_slot :: slot

record per_request =
  pr_request_id :: request_id
  pr_arrival_time :: f64
  pr_arrival_slot :: slot
  pr_deadline_slot :: slot
  pr_included_in_batch_slot :: slot
  pr_batch_sequence :: nat
  pr_scheduled_slot :: slot
  pr_queue_wait_slots :: int
  pr_queue_wait_seconds :: f64
  pr_final_wait_slots :: int
  pr_final_wait_seconds :: f64
  pr_flavour_name :: string
  pr_error :: f64
  pr_carbon_cost :: f64
  pr_assignment_solver_mode :: string
  pr_assignment_solver_status :: string
  pr_assigned_with_greedy_fallback :: bool
  pr_assigned_with_relaxed_retry :: bool
  pr_assigned_with_rollback :: bool
  pr_lateness_slots :: int

record batch_timing =
  bt_batch_sequence :: nat
  bt_batch_size_n :: nat
  bt_effective_batch_size :: nat
  bt_slot :: slot
  bt_pending_before :: nat
  bt_solver_elapsed_ms :: f64
  bt_scheduled :: bool
  bt_flush_partial_batch :: bool

record per_timeslot =
  pt_timeslot :: slot
  pt_window_start :: slot
  pt_window_end :: slot
  pt_real_request_count :: f64
  pt_modeled_request_count :: f64
  pt_window_avg_error_real :: f64
  pt_window_avg_error_modeled :: f64

record run_summary =
  rs_execution_mode :: string
  rs_batch_size :: nat
  rs_realtime_slots :: bool
  rs_realtime_speed_scale :: f64
  rs_baseline_flavour_name :: string
  rs_baseline_flavour_duration :: f64
  rs_baseline_flavour_error :: f64
  rs_requests_total :: nat
  rs_requests_scheduled :: nat
  rs_requests_unscheduled :: nat
  rs_batches_executed :: nat
  rs_total_carbon_cost :: f64
  rs_global_average_error :: f64
  rs_global_average_error_real :: f64
  rs_global_average_error_modeled :: f64
  rs_global_average_error_real_skip_first_k :: f64
  rs_global_average_error_modeled_skip_first_k :: f64
  rs_requests_assigned_with_greedy_fallback :: nat
  rs_requests_assigned_with_relaxed_retry :: nat
  rs_total_rollbacks :: nat
  rs_max_consecutive_rollbacks :: nat
  rs_requests_assigned_with_rollback :: nat
  rs_peak_concurrent_workers :: nat
  rs_avg_concurrent_workers :: f64
  rs_requests_late :: nat
  rs_max_lateness_slots :: int
  rs_solver_time_ms :: "f64 \<times> f64 \<times> f64"
  rs_queue_wait_seconds :: "f64 \<times> f64 \<times> f64"
  rs_final_wait_seconds :: "f64 \<times> f64 \<times> f64"
  rs_baseline_total_carbon_cost :: f64
  rs_carbon_cost_saving_vs_baseline :: f64
  rs_carbon_cost_saving_vs_baseline_pct :: f64
  rs_run_elapsed_seconds :: f64

section \<open>The report of a run\<close>

text \<open>\<open>str::contains\<close>.\<close>

fun str_starts :: "string \<Rightarrow> string \<Rightarrow> bool" where
  "str_starts [] s = True"
| "str_starts (c # cs) [] = False"
| "str_starts (c # cs) (d # ds) = (c = d \<and> str_starts cs ds)"

fun str_contains :: "string \<Rightarrow> string \<Rightarrow> bool" where
  "str_contains pat [] = (pat = [])"
| "str_contains pat (c # cs) = (str_starts pat (c # cs) \<or> str_contains pat cs)"

definition runs_by_id_of :: "solver_run_row list \<Rightarrow> (string, solver_run_row) hmap" where
  "runs_by_id_of runs = fold (\<lambda>r. hm_insert (sr_run_id r) r) runs []"

definition row_report ::
    "(string, solver_run_row) hmap \<Rightarrow> f64 \<Rightarrow> request_id set \<Rightarrow> assignment_row \<Rightarrow> per_request" where
  "row_report runs_by_id slot_dur rolled_back a =
     (let run = map_of runs_by_id (ar_run_id a);
          batch_seq = (case run of Some r \<Rightarrow> sr_run_sequence r | None \<Rightarrow> 0);
          solver_status = (case run of Some r \<Rightarrow> sr_solver_status r | None \<Rightarrow> []);
          solver_mode = (case run of Some r \<Rightarrow> sr_solver_mode r | None \<Rightarrow> []);
          queue_wait = max (i32_sub (ar_current_slot a) (ar_arrival_slot a)) 0;
          final_wait = max (i32_sub (ar_scheduled_slot a) (ar_arrival_slot a)) 0
      in \<lparr>pr_request_id = ar_request_id a,
          pr_arrival_time = of_int (ar_arrival_slot a) * slot_dur,
          pr_arrival_slot = ar_arrival_slot a,
          pr_deadline_slot = ar_deadline_slot a,
          pr_included_in_batch_slot = ar_current_slot a,
          pr_batch_sequence = batch_seq,
          pr_scheduled_slot = ar_scheduled_slot a,
          pr_queue_wait_slots = queue_wait,
          pr_queue_wait_seconds = of_int queue_wait * slot_dur,
          pr_final_wait_slots = final_wait,
          pr_final_wait_seconds = of_int final_wait * slot_dur,
          pr_flavour_name = ar_flavour_name a,
          pr_error = ar_error a,
          pr_carbon_cost = ar_carbon_cost a,
          pr_assignment_solver_mode = solver_mode,
          pr_assignment_solver_status = solver_status,
          pr_assigned_with_greedy_fallback = str_contains ''greedy_after_infeasible'' solver_mode,
          pr_assigned_with_relaxed_retry = str_contains ''relaxed'' solver_mode,
          pr_assigned_with_rollback = ar_request_id a \<in> rolled_back,
          pr_lateness_slots = max (i32_sub (ar_scheduled_slot a) (ar_deadline_slot a)) 0\<rparr>)"

text \<open>\<open>seen.entry(id).or_insert_with(...)\<close>: the first row of a request is kept.\<close>

definition note_row ::
    "(string, solver_run_row) hmap \<Rightarrow> f64 \<Rightarrow> request_id set \<Rightarrow> assignment_row
     \<Rightarrow> (request_id, per_request) hmap \<Rightarrow> (request_id, per_request) hmap" where
  "note_row runs_by_id slot_dur rolled_back a seen =
     (case map_of seen (ar_request_id a) of
        Some _ \<Rightarrow> seen
      | None \<Rightarrow> hm_insert (ar_request_id a) (row_report runs_by_id slot_dur rolled_back a) seen)"

definition compute_per_request ::
    "assignment_row list \<Rightarrow> (string, solver_run_row) hmap \<Rightarrow> f64 \<Rightarrow> request_id set \<Rightarrow> per_request list" where
  "compute_per_request rows runs_by_id slot_dur rolled_back =
     sort_key pr_request_id
       (hm_values (fold (note_row runs_by_id slot_dur rolled_back) (filter ar_is_new_assignment_in_run rows) []))"

definition batch_timing_of :: "nat \<Rightarrow> solver_run_row \<Rightarrow> batch_timing" where
  "batch_timing_of batch_size_n r =
     \<lparr>bt_batch_sequence = sr_run_sequence r,
      bt_batch_size_n = batch_size_n,
      bt_effective_batch_size = sr_new_assignments r,
      bt_slot = sr_current_slot r,
      bt_pending_before = sr_pending_batch_size r,
      bt_solver_elapsed_ms = sr_solver_elapsed_ms r,
      bt_scheduled = (0 < sr_new_assignments r),
      bt_flush_partial_batch = (sr_pending_batch_size r < batch_size_n)\<rparr>"

definition compute_batch_timings :: "solver_run_row list \<Rightarrow> nat \<Rightarrow> batch_timing list" where
  "compute_batch_timings runs batch_size_n =
     sort_key bt_batch_sequence (map (batch_timing_of batch_size_n) runs)"

definition slot_errors_of :: "per_request list \<Rightarrow> (slot, f64 list) hmap" where
  "slot_errors_of per_req =
     fold (\<lambda>pr. hm_entry (pr_scheduled_slot pr) [] (\<lambda>es. es @ [pr_error pr])) per_req []"

definition timeslot_row :: "(slot, f64 list) hmap \<Rightarrow> int \<Rightarrow> int \<Rightarrow> slot \<Rightarrow> per_timeslot" where
  "timeslot_row slot_errors past future s =
     (let window_start = i32_sub s past;
          window_end = i32_add s future;
          errors = window_errors slot_errors window_start window_end;
          avg = (if errors = [] then 0 else sum_list errors / real (length errors))
      in \<lparr>pt_timeslot = s, pt_window_start = window_start, pt_window_end = window_end,
          pt_real_request_count = real (length errors),
          pt_modeled_request_count = real (length errors),
          pt_window_avg_error_real = avg, pt_window_avg_error_modeled = avg\<rparr>)"

definition compute_per_timeslot :: "per_request list \<Rightarrow> int \<Rightarrow> int \<Rightarrow> int \<Rightarrow> per_timeslot list" where
  "compute_per_timeslot per_req total_slots past future =
     map (timeslot_row (slot_errors_of per_req) past future) [0..total_slots - 1]"

text \<open>The folds start at infinity, so on a non-empty list they start at its first element.\<close>

fun min_max_avg :: "f64 list \<Rightarrow> f64 \<times> f64 \<times> f64" where
  "min_max_avg [] = (0, 0, 0)"
| "min_max_avg (x # xs) =
     (fold min xs x, fold max xs x, sum_list (x # xs) / real (length (x # xs)))"

record run_counts =
  rc_total_rollbacks :: nat
  rc_max_consecutive_rollbacks :: nat
  rc_requests_assigned_with_rollback :: nat
  rc_peak_concurrent_workers :: nat
  rc_avg_concurrent_workers :: f64

definition no_counts :: run_counts where
  "no_counts = \<lparr>rc_total_rollbacks = 0, rc_max_consecutive_rollbacks = 0,
     rc_requests_assigned_with_rollback = 0, rc_peak_concurrent_workers = 0, rc_avg_concurrent_workers = 0\<rparr>"

definition no_baseline :: flavour where
  "no_baseline = \<lparr>fl_name = [], fl_error = 0, fl_duration = 0\<rparr>"

definition compute_summary ::
    "string \<Rightarrow> nat \<Rightarrow> bool \<Rightarrow> f64 \<Rightarrow> per_request list \<Rightarrow> batch_timing list \<Rightarrow> nat \<Rightarrow> flavour \<Rightarrow> run_counts
     \<Rightarrow> run_summary" where
  "compute_summary mode batch_size realtime_slots speed_scale per_req batch_timings total_received baseline counts =
     (let scheduled = length per_req;
          avg_error = (if 0 < scheduled then sum_list (map pr_error per_req) / real scheduled else 0)
      in \<lparr>rs_execution_mode = mode,
          rs_batch_size = batch_size,
          rs_realtime_slots = realtime_slots,
          rs_realtime_speed_scale = speed_scale,
          rs_baseline_flavour_name = fl_name baseline,
          rs_baseline_flavour_duration = fl_duration baseline,
          rs_baseline_flavour_error = fl_error baseline,
          rs_requests_total = total_received,
          rs_requests_scheduled = scheduled,
          rs_requests_unscheduled = total_received - scheduled,
          rs_batches_executed = length batch_timings,
          rs_total_carbon_cost = sum_list (map pr_carbon_cost per_req),
          rs_global_average_error = avg_error,
          rs_global_average_error_real = avg_error,
          rs_global_average_error_modeled = avg_error,
          rs_global_average_error_real_skip_first_k = 0,
          rs_global_average_error_modeled_skip_first_k = 0,
          rs_requests_assigned_with_greedy_fallback = length (filter pr_assigned_with_greedy_fallback per_req),
          rs_requests_assigned_with_relaxed_retry = length (filter pr_assigned_with_relaxed_retry per_req),
          rs_total_rollbacks = rc_total_rollbacks counts,
          rs_max_consecutive_rollbacks = rc_max_consecutive_rollbacks counts,
          rs_requests_assigned_with_rollback = rc_requests_assigned_with_rollback counts,
          rs_peak_concurrent_workers = rc_peak_concurrent_workers counts,
          rs_avg_concurrent_workers = rc_avg_concurrent_workers counts,
          rs_requests_late = length (filter (\<lambda>r. 0 < pr_lateness_slots r) per_req),
          rs_max_lateness_slots = (case max_by_key id (map pr_lateness_slots per_req) of Some m \<Rightarrow> m | None \<Rightarrow> 0),
          rs_solver_time_ms = min_max_avg (map bt_solver_elapsed_ms batch_timings),
          rs_queue_wait_seconds = min_max_avg (map pr_queue_wait_seconds per_req),
          rs_final_wait_seconds = min_max_avg (map pr_final_wait_seconds per_req),
          rs_baseline_total_carbon_cost = 0,
          rs_carbon_cost_saving_vs_baseline = 0,
          rs_carbon_cost_saving_vs_baseline_pct = 0,
          rs_run_elapsed_seconds = 0\<rparr>)"

definition relate_to_baseline :: "f64 option \<Rightarrow> run_summary \<Rightarrow> run_summary" where
  "relate_to_baseline baseline_cost sm =
     (case baseline_cost of
        None \<Rightarrow> sm
      | Some bc \<Rightarrow>
         (let saving = bc - rs_total_carbon_cost sm
          in sm\<lparr>rs_baseline_total_carbon_cost := bc,
                rs_carbon_cost_saving_vs_baseline := saving,
                rs_carbon_cost_saving_vs_baseline_pct := (if 0 < bc then saving / bc * 100 else 0)\<rparr>))"

section \<open>Recomputed carbon costs\<close>

definition group_by_slot :: "assignment list \<Rightarrow> (slot, (request_id \<times> f64) list) hmap" where
  "group_by_slot as =
     fold (\<lambda>a. hm_entry (as_scheduled_slot a) [] (\<lambda>l. l @ [(as_request_id a, as_flavour_duration a)])) as []"

definition slot_requests_of :: "(request_id, assignment) hmap \<Rightarrow> (slot, (request_id \<times> f64) list) hmap" where
  "slot_requests_of final_assignments =
     map (\<lambda>(s, reqs). (s, sort_key fst reqs)) (group_by_slot (hm_values final_assignments))"

fun price_positions ::
    "f64 \<Rightarrow> capacity_tier list \<Rightarrow> f64 \<Rightarrow> nat \<Rightarrow> (request_id \<times> f64) list
     \<Rightarrow> (request_id, f64) hmap \<Rightarrow> (request_id, f64) hmap" where
  "price_positions carbon tiers scale idx [] costs = costs"
| "price_positions carbon tiers scale idx ((i, dur) # reqs) costs =
     (let position = int (idx + 1);
          mult = get_capacity_multiplier tiers position
      in price_positions carbon tiers scale (idx + 1) reqs (hm_insert i (carbon * mult * dur * scale) costs))"

fun price_slots ::
    "f64 list \<Rightarrow> capacity_tier list \<Rightarrow> f64 \<Rightarrow> (slot \<times> (request_id \<times> f64) list) list
     \<Rightarrow> (request_id, f64) hmap \<Rightarrow> (request_id, f64) hmap" where
  "price_slots forecast tiers scale [] costs = costs"
| "price_slots forecast tiers scale ((s, reqs) # rest) costs =
     (let carbon = (case get_at forecast s of Some c \<Rightarrow> c | None \<Rightarrow> 0)
      in price_slots forecast tiers scale rest (price_positions carbon tiers scale 0 reqs costs))"

definition recompute_carbon_costs ::
    "per_request list \<Rightarrow> (request_id, assignment) hmap \<Rightarrow> f64 list \<Rightarrow> capacity_tier list \<Rightarrow> f64 \<Rightarrow> per_request list" where
  "recompute_carbon_costs per_req final_assignments forecast tiers scale =
     (let req_cost = price_slots forecast tiers scale (slot_requests_of final_assignments) []
      in map (\<lambda>r. case map_of req_cost (pr_request_id r) of
                    Some cost \<Rightarrow> r\<lparr>pr_carbon_cost := cost\<rparr>
                  | None \<Rightarrow> r) per_req)"

section \<open>Late requests\<close>

text \<open>The part of a report that the strategies outside the scheduler share.\<close>

definition intensity_or_one :: "f64 list \<Rightarrow> slot \<Rightarrow> f64" where
  "intensity_or_one forecast s = (case get_at forecast s of Some c \<Rightarrow> c | None \<Rightarrow> 1)"

definition price_at :: "assignment_policy \<Rightarrow> f64 list \<Rightarrow> (slot, int) hmap \<Rightarrow> slot \<Rightarrow> flavour \<Rightarrow> f64" where
  "price_at pol forecast slot_count s f =
     (let ci = intensity_or_one forecast s;
          position = (case map_of slot_count s of Some n \<Rightarrow> n | None \<Rightarrow> 0) + 1;
          mult = get_capacity_multiplier (pol_capacity_tiers pol) position
      in ci * mult * fl_duration f * pol_carbon_cost_duration_scale pol)"

definition late_report :: "assignment_policy \<Rightarrow> f64 \<Rightarrow> flavour \<Rightarrow> slot \<Rightarrow> f64 \<Rightarrow> request \<Rightarrow> per_request" where
  "late_report pol slot_dur fb sched_slot cost req =
     (let lateness = max (i32_sub (i32_sub (pol_total_slots pol) 1) (rq_deadline_slot req)) 0;
          queue_wait = max (i32_sub sched_slot (rq_arrival_slot req)) 0
      in \<lparr>pr_request_id = rq_id req,
          pr_arrival_time = of_int (rq_arrival_slot req) * slot_dur,
          pr_arrival_slot = rq_arrival_slot req,
          pr_deadline_slot = rq_deadline_slot req,
          pr_included_in_batch_slot = sched_slot,
          pr_batch_sequence = 0,
          pr_scheduled_slot = sched_slot,
          pr_queue_wait_slots = queue_wait,
          pr_queue_wait_seconds = of_int queue_wait * slot_dur,
          pr_final_wait_slots = queue_wait,
          pr_final_wait_seconds = of_int queue_wait * slot_dur,
          pr_flavour_name = fl_name fb,
          pr_error = fl_error fb,
          pr_carbon_cost = cost,
          pr_assignment_solver_mode = ''late_fallback'',
          pr_assignment_solver_status = ''late'',
          pr_assigned_with_greedy_fallback = False,
          pr_assigned_with_relaxed_retry = False,
          pr_assigned_with_rollback = False,
          pr_lateness_slots = lateness\<rparr>)"

fun late_loop ::
    "assignment_policy \<Rightarrow> f64 list \<Rightarrow> f64 \<Rightarrow> flavour \<Rightarrow> (slot, int) hmap \<Rightarrow> request list \<Rightarrow> per_request list" where
  "late_loop pol forecast slot_dur fb slot_count [] = []"
| "late_loop pol forecast slot_dur fb slot_count (req # reqs) =
     (let sched_slot = min (max (rq_deadline_slot req) (rq_arrival_slot req)) (i32_sub (pol_total_slots pol) 1);
          cost = price_at pol forecast slot_count sched_slot fb
      in late_report pol slot_dur fb sched_slot cost req
         # late_loop pol forecast slot_dur fb (hm_entry sched_slot 0 (\<lambda>n. n + 1) slot_count) reqs)"

text \<open>\<open>None\<close> is the panic without a flavour.\<close>

definition schedule_late_requests ::
    "request list \<Rightarrow> f64 list \<Rightarrow> assignment_policy \<Rightarrow> f64 \<Rightarrow> per_request list option" where
  "schedule_late_requests remaining forecast pol slot_dur =
     (if remaining = [] then Some []
      else map_option (\<lambda>fb. late_loop pol forecast slot_dur fb []
               (sort_key (\<lambda>r. (rq_deadline_slot r, rq_arrival_slot r, rq_id r)) remaining))
             (min_by_key fl_error (pol_flavours pol)))"

section \<open>What a run is evaluated to\<close>

definition execution_mode :: "string \<Rightarrow> string" where
  "execution_mode strategy =
     (if strategy = ''dp'' \<or> strategy = [] then ''nshift_dp'' else ''nshift_'' @ strategy)"

text \<open>The post-processing of a run, given what was logged and what the scheduler left behind.\<close>

definition evaluate_run ::
    "config \<Rightarrow> nat \<Rightarrow> bool \<Rightarrow> f64 \<Rightarrow> f64 list \<Rightarrow> solver_run_row list \<Rightarrow> assignment_row list \<Rightarrow> request_id set
     \<Rightarrow> request list \<Rightarrow> (request_id, assignment) hmap \<Rightarrow> nat \<Rightarrow> run_counts
     \<Rightarrow> (per_request list \<times> batch_timing list \<times> run_summary) option" where
  "evaluate_run base_cfg batch_size realtime_slots speed_scale forecast runs rows rolled_back
       remaining final_assignments total_received counts =
     (let pol = assignment_policy_of base_cfg;
          slot_dur = cfg_slot_duration_seconds base_cfg;
          committed = compute_per_request rows (runs_by_id_of runs) slot_dur rolled_back
      in map_option (\<lambda>late.
           let per_req = recompute_carbon_costs (committed @ late) final_assignments forecast
                 (cfg_capacity_tiers base_cfg) (pol_carbon_cost_duration_scale pol);
               timings = compute_batch_timings runs batch_size
           in (per_req, timings,
               compute_summary (execution_mode (sc_solver_strategy (cfg_solver base_cfg))) batch_size
                 realtime_slots speed_scale per_req timings total_received no_baseline counts))
         (schedule_late_requests remaining forecast pol slot_dur))"

section \<open>The greedy baseline\<close>

text \<open>One row of a strategy that decides requests one at a time: its position in the run is \<open>seq\<close>.\<close>

definition immediate_timing :: "nat \<Rightarrow> slot \<Rightarrow> batch_timing" where
  "immediate_timing seq s =
     \<lparr>bt_batch_sequence = seq, bt_batch_size_n = 0, bt_effective_batch_size = 1, bt_slot = s,
      bt_pending_before = 1, bt_solver_elapsed_ms = 0, bt_scheduled = True, bt_flush_partial_batch = False\<rparr>"

definition decided_report ::
    "string \<Rightarrow> f64 \<Rightarrow> nat \<Rightarrow> request_id \<Rightarrow> slot \<Rightarrow> slot \<Rightarrow> slot \<Rightarrow> slot \<Rightarrow> string \<Rightarrow> f64 \<Rightarrow> f64 \<Rightarrow> int \<Rightarrow> int \<Rightarrow> per_request" where
  "decided_report mode slot_dur seq i arrival deadline batch_slot sched_slot flavour err cost wait lateness =
     \<lparr>pr_request_id = i,
      pr_arrival_time = of_int arrival * slot_dur,
      pr_arrival_slot = arrival,
      pr_deadline_slot = deadline,
      pr_included_in_batch_slot = batch_slot,
      pr_batch_sequence = seq,
      pr_scheduled_slot = sched_slot,
      pr_queue_wait_slots = wait,
      pr_queue_wait_seconds = of_int wait * slot_dur,
      pr_final_wait_slots = wait,
      pr_final_wait_seconds = of_int wait * slot_dur,
      pr_flavour_name = flavour,
      pr_error = err,
      pr_carbon_cost = cost,
      pr_assignment_solver_mode = mode,
      pr_assignment_solver_status = ''ok'',
      pr_assigned_with_greedy_fallback = False,
      pr_assigned_with_relaxed_retry = False,
      pr_assigned_with_rollback = False,
      pr_lateness_slots = lateness\<rparr>"

fun baseline_slot ::
    "assignment_policy \<Rightarrow> f64 list \<Rightarrow> f64 \<Rightarrow> flavour \<Rightarrow> slot \<Rightarrow> int \<Rightarrow> nat \<Rightarrow> request list
     \<Rightarrow> (per_request \<times> batch_timing) list" where
  "baseline_slot pol forecast slot_dur f s before_count seq [] = []"
| "baseline_slot pol forecast slot_dur f s before_count seq (req # reqs) =
     (let seq1 = seq + 1;
          position = before_count + 1;
          mult = get_capacity_multiplier (pol_capacity_tiers pol) position;
          cost = intensity_or_one forecast s * mult * fl_duration f * pol_carbon_cost_duration_scale pol
      in (decided_report ''greedy'' slot_dur seq1 (rq_id req) (rq_arrival_slot req) (rq_deadline_slot req)
            s s (fl_name f) (fl_error f) cost 0 0, immediate_timing seq1 s)
         # baseline_slot pol forecast slot_dur f s position seq1 reqs)"

fun baseline_slots ::
    "assignment_policy \<Rightarrow> f64 list \<Rightarrow> f64 \<Rightarrow> flavour \<Rightarrow> nat \<Rightarrow> nat \<Rightarrow> request list list
     \<Rightarrow> (per_request \<times> batch_timing) list" where
  "baseline_slots pol forecast slot_dur f k seq [] = []"
| "baseline_slots pol forecast slot_dur f k seq (reqs # rest) =
     baseline_slot pol forecast slot_dur f (int k) 0 seq reqs
     @ baseline_slots pol forecast slot_dur f (k + 1) (seq + length reqs) rest"

definition run_greedy_baseline ::
    "(nat \<Rightarrow> f64) \<Rightarrow> scenario \<Rightarrow> assignment_policy \<Rightarrow> f64 \<Rightarrow> bool \<Rightarrow> f64
     \<Rightarrow> (per_request list \<times> batch_timing list \<times> run_summary) option" where
  "run_greedy_baseline now sc pol slot_dur realtime_slots speed_scale =
     (case min_by_key fl_error (pol_flavours pol) of
        None \<Rightarrow> None
      | Some f \<Rightarrow> map_option (\<lambda>by_slot.
           let rows = baseline_slots pol (sn_carbon_forecast sc) slot_dur f 0 0 by_slot;
               per_req = map fst rows;
               timings = map snd rows
           in (per_req, timings, compute_summary ''greedy_baseline_immediate'' 0 realtime_slots speed_scale
                 per_req timings (sum_list (map length by_slot)) f no_counts))
         (requests_by_slot now sc))"

section \<open>The cheapest feasible placement\<close>

text \<open>The decisions so far: requests per slot, their errors per slot, and the global error.\<close>

definition no_decisions :: swarm_context where
  "no_decisions = \<lparr>swc_slot_count = [], swc_slot_errors = [], swc_global_error_sum = 0, swc_global_count = 0\<rparr>"

definition allowed_flavours :: "assignment_policy \<Rightarrow> flavour list \<Rightarrow> swarm_context \<Rightarrow> flavour list" where
  "allowed_flavours pol sorted_flavours w =
     (let max_err = pol_max_error_threshold pol;
          global_avg = avg_or_zero (swc_global_error_sum w) (swc_global_count w);
          active = (pol_global_error_constraint_enabled pol \<and> 0 < swc_global_count w \<and> max_err < global_avg);
          filtered = filter (\<lambda>f. fl_error f \<le> max_err) sorted_flavours
      in if active \<and> pol_global_error_constraint_hard pol \<and> filtered \<noteq> [] then filtered else sorted_flavours)"

text \<open>The error window is anchored to the arrival, not to the candidate slot.\<close>

definition window_admits :: "assignment_policy \<Rightarrow> swarm_context \<Rightarrow> slot \<Rightarrow> flavour \<Rightarrow> bool" where
  "window_admits pol w arrival f =
     (let errs = window_errors (swc_slot_errors w) (i32_sub arrival (pol_error_window_past pol))
                   (i32_add arrival (pol_error_window_future pol))
      in (fl_error f + sum_list errs) / real (1 + length errs) \<le> pol_max_error_threshold pol)"

type_synonym choice = "f64 \<times> slot \<times> flavour"

definition consider_pair ::
    "assignment_policy \<Rightarrow> f64 list \<Rightarrow> swarm_context \<Rightarrow> slot \<Rightarrow> slot \<times> flavour \<Rightarrow> choice option \<Rightarrow> choice option" where
  "consider_pair pol forecast w arrival sf best =
     (let (s, f) = sf;
          cost = price_at pol forecast (swc_slot_count w) s f
      in if \<not> window_admits pol w arrival f then best
         else (case best of
             None \<Rightarrow> Some (cost, s, f)
           | Some (c, _) \<Rightarrow> if cost < c then Some (cost, s, f) else best))"

definition last_candidate_slot :: "assignment_policy \<Rightarrow> scenario_request \<Rightarrow> slot" where
  "last_candidate_slot pol req =
     min (min (sq_deadline_slot req) (i32_add (sq_arrival_slot req) (pol_assignment_max_future_slots pol)))
       (i32_sub (pol_total_slots pol) 1)"

definition candidate_pairs ::
    "assignment_policy \<Rightarrow> flavour list \<Rightarrow> swarm_context \<Rightarrow> scenario_request \<Rightarrow> (slot \<times> flavour) list" where
  "candidate_pairs pol sorted_flavours w req =
     concat (map (\<lambda>s. map (Pair s) (allowed_flavours pol sorted_flavours w))
       [sq_arrival_slot req..last_candidate_slot pol req])"

definition cheapest_choice ::
    "assignment_policy \<Rightarrow> f64 list \<Rightarrow> flavour list \<Rightarrow> flavour \<Rightarrow> swarm_context \<Rightarrow> scenario_request \<Rightarrow> choice" where
  "cheapest_choice pol forecast sorted_flavours fb w req =
     (case fold (consider_pair pol forecast w (sq_arrival_slot req)) (candidate_pairs pol sorted_flavours w req) None of
        Some best \<Rightarrow> best
      | None \<Rightarrow> (price_at pol forecast (swc_slot_count w) (sq_arrival_slot req) fb, sq_arrival_slot req, fb))"

fun cheapest_loop ::
    "assignment_policy \<Rightarrow> f64 list \<Rightarrow> f64 \<Rightarrow> flavour list \<Rightarrow> flavour \<Rightarrow> swarm_context \<Rightarrow> nat \<Rightarrow> scenario_request list
     \<Rightarrow> (per_request \<times> batch_timing) list" where
  "cheapest_loop pol forecast slot_dur fs fb w seq [] = []"
| "cheapest_loop pol forecast slot_dur fs fb w seq (req # reqs) =
     (let (cost, s, f) = cheapest_choice pol forecast fs fb w req;
          seq1 = seq + 1;
          wait = max (i32_sub s (sq_arrival_slot req)) 0
      in (decided_report ''greedy_cheapest'' slot_dur seq1 (sq_request_id req) (sq_arrival_slot req)
            (sq_deadline_slot req) (sq_arrival_slot req) s (fl_name f) (fl_error f) cost wait
            (max (i32_sub s (sq_deadline_slot req)) 0), immediate_timing seq1 (sq_arrival_slot req))
         # cheapest_loop pol forecast slot_dur fs fb (account_placed s f w) seq1 reqs)"

definition by_arrival :: "scenario_request list \<Rightarrow> scenario_request list" where
  "by_arrival reqs = sort_key (\<lambda>r. (sq_arrival_slot r, sq_request_id r)) reqs"

definition run_greedy_cheapest ::
    "scenario \<Rightarrow> assignment_policy \<Rightarrow> f64 \<Rightarrow> bool \<Rightarrow> f64
     \<Rightarrow> (per_request list \<times> batch_timing list \<times> run_summary) option" where
  "run_greedy_cheapest sc pol slot_dur realtime_slots speed_scale =
     (case sorted_flavours_and_fallback (pol_flavours pol) of
        None \<Rightarrow> None
      | Some (fs, fb) \<Rightarrow>
         (let rows = cheapest_loop pol (sn_carbon_forecast sc) slot_dur fs fb no_decisions 0 (by_arrival (sn_requests sc));
              per_req = map fst rows;
              timings = map snd rows
          in Some (per_req, timings, compute_summary ''greedy_cheapest'' 0 realtime_slots speed_scale
                     per_req timings (length (sn_requests sc)) fb no_counts)))"

section \<open>The report keeps the first row of every request\<close>

lemma row_report_id [simp]: "pr_request_id (row_report runs d rb a) = ar_request_id a"
  by (simp add: row_report_def Let_def)

lemma fold_note_row_wf: "hm_wf seen \<Longrightarrow> hm_wf (fold (note_row runs d rb) rows seen)"
  by (induction rows arbitrary: seen) (auto simp: note_row_def split: option.split)

lemma fold_note_row_lookup:
  "map_of (fold (note_row runs d rb) rows seen) i =
     (case map_of seen i of Some v \<Rightarrow> Some v
      | None \<Rightarrow> map_option (row_report runs d rb) (find (\<lambda>a. ar_request_id a = i) rows))"
  by (induction rows arbitrary: seen) (auto simp: note_row_def map_simps split: option.split)

lemma sorted_by_id_strict:
  "distinct (map f xs) \<Longrightarrow> sorted_wrt (<) (map f (sort_key f xs))"
  by (simp add: strict_sorted_iff distinct_map inj_on_def)

text \<open>
  The report of the committed requests. It has exactly one row per request that some batch
  newly assigned, in the order of the identifiers, whatever the order of the hash map, and the row
  is made from the first logged assignment of the request.
\<close>

theorem report_keeps_first_row:
  "sorted_wrt (<) (map pr_request_id (compute_per_request rows runs d rb))
   \<and> (\<forall>i. find (\<lambda>pr. pr_request_id pr = i) (compute_per_request rows runs d rb)
        = map_option (row_report runs d rb) (find (\<lambda>a. ar_is_new_assignment_in_run a \<and> ar_request_id a = i) rows))"
proof -
  define m where "m = fold (note_row runs d rb) (filter ar_is_new_assignment_in_run rows) []"
  have wf: "hm_wf m" unfolding m_def by (rule fold_note_row_wf) simp
  have find_filter: "find P (filter Q xs) = find (\<lambda>x. Q x \<and> P x) xs" for P Q and xs :: "assignment_row list"
    by (induction xs) auto
  have look: "map_of m i = map_option (row_report runs d rb)
      (find (\<lambda>a. ar_is_new_assignment_in_run a \<and> ar_request_id a = i) rows)" for i
    unfolding m_def by (simp add: fold_note_row_lookup find_filter)
  have ids: "pr_request_id v = i" if "(i, v) \<in> set m" for i v
  proof -
    have "map_of m i = Some v" using wf that by (simp add: hm_binding_iff)
    then show ?thesis unfolding look by (auto simp: find_Some_iff)
  qed
  have keys: "map pr_request_id (hm_values m) = map fst m"
    unfolding hm_values_def using ids by (induction m) auto
  have strict: "sorted_wrt (<) (map pr_request_id (sort_key pr_request_id (hm_values m)))"
    by (rule sorted_by_id_strict) (use keys wf in \<open>simp add: hm_wf_def\<close>)
  have unique: "find (\<lambda>pr. pr_request_id pr = i) xs = Some v \<longleftrightarrow> v \<in> set xs \<and> pr_request_id v = i"
    if "sorted_wrt (<) (map pr_request_id xs)" for i v and xs :: "per_request list"
    using that by (induction xs) auto
  have "find (\<lambda>pr. pr_request_id pr = i) (sort_key pr_request_id (hm_values m)) = map_of m i" for i
  proof (rule option.expand)
    have "find (\<lambda>pr. pr_request_id pr = i) (sort_key pr_request_id (hm_values m)) = Some v \<longleftrightarrow> map_of m i = Some v" for v
      unfolding unique [OF strict] hm_binding_iff [OF wf, symmetric] using ids by (force simp: hm_values_def)
    then show "(find (\<lambda>pr. pr_request_id pr = i) (sort_key pr_request_id (hm_values m)) = None) = (map_of m i = None)"
      "\<lbrakk>find (\<lambda>pr. pr_request_id pr = i) (sort_key pr_request_id (hm_values m)) \<noteq> None; map_of m i \<noteq> None\<rbrakk>
       \<Longrightarrow> the (find (\<lambda>pr. pr_request_id pr = i) (sort_key pr_request_id (hm_values m))) = the (map_of m i)"
      by (metis not_None_eq, metis option.sel not_None_eq)
  qed
  then show ?thesis using strict unfolding compute_per_request_def m_def [symmetric] look by blast
qed

section \<open>Recomputed costs\<close>

lemma group_by_slot_wf: "hm_wf (group_by_slot as)"
proof -
  have "hm_wf (fold (\<lambda>a. hm_entry (as_scheduled_slot a) [] (\<lambda>l. l @ [(as_request_id a, as_flavour_duration a)])) as m)"
    if "hm_wf m" for m using that by (induction as arbitrary: m) auto
  then show ?thesis by (simp add: group_by_slot_def)
qed

lemma group_by_slot_lookup:
  "map_of (group_by_slot as) s = (let l = filter (\<lambda>a. as_scheduled_slot a = s) as
     in if l = [] then None else Some (map (\<lambda>a. (as_request_id a, as_flavour_duration a)) l))"
proof -
  have "map_of (fold (\<lambda>a. hm_entry (as_scheduled_slot a) [] (\<lambda>l. l @ [(as_request_id a, as_flavour_duration a)])) as m) s
      = (let l = filter (\<lambda>a. as_scheduled_slot a = s) as
         in if l = [] then map_of m s
            else Some ((case map_of m s of None \<Rightarrow> [] | Some old \<Rightarrow> old) @ map (\<lambda>a. (as_request_id a, as_flavour_duration a)) l))" for m
    by (induction as arbitrary: m) (auto simp: Let_def map_simps)
  from this [of "[]"] show ?thesis by (simp add: group_by_slot_def Let_def)
qed

definition position_price :: "f64 \<Rightarrow> capacity_tier list \<Rightarrow> f64 \<Rightarrow> nat \<Rightarrow> f64 \<Rightarrow> f64" where
  "position_price carbon tiers scale position dur = carbon * get_capacity_multiplier tiers (int position) * dur * scale"

lemma price_positions_lookup:
  assumes "sorted_wrt (<) (map fst reqs)"
  shows "map_of (price_positions carbon tiers scale idx reqs costs) i =
     (case map_of reqs i of
        Some dur \<Rightarrow> Some (position_price carbon tiers scale (idx + 1 + length (filter (\<lambda>j. j < i) (map fst reqs))) dur)
      | None \<Rightarrow> map_of costs i)"
  using assms
proof (induction reqs arbitrary: idx costs)
  case (Cons req reqs)
  obtain j dur where req: "req = (j, dur)" by fastforce
  have "\<forall>k\<in>set (map fst reqs). j < k" and "sorted_wrt (<) (map fst reqs)" using Cons.prems by (simp_all add: req)
  then have after: "map_of reqs j = None" "filter (\<lambda>k. k < j) (map fst reqs) = []"
    "map_of reqs i = Some d \<Longrightarrow> j < i" for d
    by (auto simp: map_of_eq_None_iff filter_empty_conv dest: map_of_SomeD intro: order.asym) (force dest: map_of_SomeD)
  show ?case
    using Cons.IH [OF \<open>sorted_wrt (<) (map fst reqs)\<close>] after
    by (auto simp: req Let_def map_simps position_price_def add.assoc split: option.split)
qed simp

lemma price_slots_untouched:
  assumes "\<forall>(s, reqs)\<in>set srs. sorted_wrt (<) (map fst reqs) \<and> i \<notin> fst ` set reqs"
  shows "map_of (price_slots forecast tiers scale srs costs) i = map_of costs i"
  using assms
proof (induction srs arbitrary: costs)
  case (Cons sr srs)
  obtain s reqs where sr: "sr = (s, reqs)" by fastforce
  have "sorted_wrt (<) (map fst reqs)" "map_of reqs i = None" using Cons.prems by (simp_all add: sr map_of_eq_None_iff)
  then show ?case using Cons by (simp add: sr Let_def price_positions_lookup)
qed simp

lemma price_slots_lookup:
  assumes "\<And>s reqs. (s, reqs) \<in> set srs \<Longrightarrow> sorted_wrt (<) (map fst reqs)"
    and "distinct (map fst srs)"
    and "\<And>s reqs s' reqs' i. (s, reqs) \<in> set srs \<Longrightarrow> (s', reqs') \<in> set srs \<Longrightarrow>
       i \<in> fst ` set reqs \<Longrightarrow> i \<in> fst ` set reqs' \<Longrightarrow> s = s'"
    and "(s, reqs) \<in> set srs" and "map_of reqs i = Some dur"
  shows "map_of (price_slots forecast tiers scale srs costs) i = Some (position_price
     (case get_at forecast s of Some c \<Rightarrow> c | None \<Rightarrow> 0) tiers scale
     (1 + length (filter (\<lambda>j. j < i) (map fst reqs))) dur)"
proof -
  show ?thesis using assms
  proof (induction srs arbitrary: costs)
    case (Cons sr srs)
    obtain s1 reqs1 where sr: "sr = (s1, reqs1)" by fastforce
    have i: "i \<in> fst ` set reqs" using Cons.prems(5) by (force dest: map_of_SomeD)
    show ?case
    proof (cases "(s, reqs) \<in> set srs")
      case True
      have "map_of (price_slots forecast tiers scale srs costs) i = Some (position_price
         (case get_at forecast s of Some c \<Rightarrow> c | None \<Rightarrow> 0) tiers scale
         (1 + length (filter (\<lambda>j. j < i) (map fst reqs))) dur)" for costs
      proof (rule Cons.IH [OF _ _ _ True Cons.prems(5)])
        show "sorted_wrt (<) (map fst reqs)" if "(s, reqs) \<in> set srs" for s reqs
          by (rule Cons.prems(1) [of s reqs]) (use that in simp)
        show "distinct (map fst srs)" using Cons.prems(2) by simp
        show "s = s'" if "(s, reqs) \<in> set srs" "(s', reqs') \<in> set srs" "i \<in> fst ` set reqs" "i \<in> fst ` set reqs'"
          for s reqs s' reqs' i
          by (rule Cons.prems(3) [of s reqs s' reqs' i]) (use that in simp_all)
      qed
      then show ?thesis by (simp add: sr Let_def)
    next
      case False
      then have here: "s1 = s" "reqs1 = reqs" using Cons.prems(4) by (simp_all add: sr)
      have "\<forall>(s', reqs')\<in>set srs. sorted_wrt (<) (map fst reqs') \<and> i \<notin> fst ` set reqs'"
      proof (clarify, intro conjI notI)
        fix s' reqs' assume in_srs: "(s', reqs') \<in> set srs"
        then show "sorted_wrt (<) (map fst reqs')" using Cons.prems(1) [of s' reqs'] by simp
        assume "i \<in> fst ` set reqs'"
        then have "s = s'" using Cons.prems(3) [OF Cons.prems(4), of s' reqs' i] in_srs i by simp
        then show False using Cons.prems(2) in_srs here by (force simp: sr)
      qed
      then show ?thesis
        using Cons.prems(1) [of s reqs] Cons.prems(5) here by (simp add: sr Let_def price_slots_untouched price_positions_lookup)
    qed
  qed simp
qed

lemma filter_sort_key_ids:
  "length (filter (\<lambda>j. j < i) (map fst (sort_key fst xs))) = length (filter (\<lambda>(j, _). j < i) xs)"
proof -
  have "mset (filter (\<lambda>(j, _). j < i) (sort_key fst xs)) = mset (filter (\<lambda>(j, _). j < i) xs)" by simp
  then have "length (filter (\<lambda>(j, _). j < i) (sort_key fst xs)) = length (filter (\<lambda>(j, _). j < i) xs)" by (rule mset_eq_length)
  then show ?thesis by (simp add: filter_map comp_def case_prod_unfold)
qed

text \<open>The rank of an assignment in its slot: one more than the assignments there with a smaller identifier.\<close>

definition slot_rank :: "(request_id, assignment) hmap \<Rightarrow> assignment \<Rightarrow> nat" where
  "slot_rank m a = 1 + length (filter (\<lambda>b. as_scheduled_slot b = as_scheduled_slot a
     \<and> as_request_id b < as_request_id a) (hm_values m))"

definition keyed_by_id :: "(request_id, assignment) hmap \<Rightarrow> bool" where
  "keyed_by_id m \<longleftrightarrow> hm_wf m \<and> (\<forall>(i, a)\<in>set m. as_request_id a = i)"

definition in_slot_of :: "(request_id, assignment) hmap \<Rightarrow> slot \<Rightarrow> assignment list" where
  "in_slot_of m s = filter (\<lambda>a. as_scheduled_slot a = s) (hm_values m)"

abbreviation priced_pair :: "assignment \<Rightarrow> request_id \<times> f64" where
  "priced_pair a \<equiv> (as_request_id a, as_flavour_duration a)"

lemma keyed_ids_distinct:
  assumes "keyed_by_id m"
  shows "distinct (map as_request_id (hm_values m))"
proof -
  have "map as_request_id (hm_values m) = map fst m"
    using assms unfolding hm_values_def keyed_by_id_def by (induction m) auto
  then show ?thesis using assms by (simp add: keyed_by_id_def hm_wf_def)
qed

lemma slot_requests_iff:
  "(s, reqs) \<in> set (slot_requests_of m) \<longleftrightarrow> in_slot_of m s \<noteq> [] \<and> reqs = sort_key fst (map priced_pair (in_slot_of m s))"
proof -
  have "(s, reqs) \<in> set (slot_requests_of m) \<longleftrightarrow> (\<exists>l. map_of (group_by_slot (hm_values m)) s = Some l \<and> reqs = sort_key fst l)"
    unfolding hm_binding_iff [OF group_by_slot_wf, symmetric] by (force simp: slot_requests_of_def)
  then show ?thesis by (auto simp: group_by_slot_lookup Let_def in_slot_of_def)
qed

lemma slot_requests_keys: "distinct (map fst (slot_requests_of m))"
  using group_by_slot_wf [of "hm_values m"]
  by (simp add: slot_requests_of_def hm_wf_def comp_def case_prod_unfold)

lemma slot_requests_member:
  "(s, reqs) \<in> set (slot_requests_of m) \<Longrightarrow>
   i \<in> fst ` set reqs \<longleftrightarrow> (\<exists>a\<in>set (hm_values m). as_scheduled_slot a = s \<and> as_request_id a = i)"
  by (auto simp: slot_requests_iff in_slot_of_def image_iff)

lemma slot_requests_strict:
  assumes "keyed_by_id m" and "(s, reqs) \<in> set (slot_requests_of m)"
  shows "sorted_wrt (<) (map fst reqs)"
proof -
  have "distinct (map fst (map priced_pair (in_slot_of m s)))"
    using keyed_ids_distinct [OF assms(1)] by (simp add: in_slot_of_def comp_def distinct_map_filter)
  from sorted_by_id_strict [OF this] show ?thesis using assms(2) unfolding slot_requests_iff by blast
qed

lemma slot_requests_one_slot:
  assumes "keyed_by_id m" and "(s, reqs) \<in> set (slot_requests_of m)" and "(s', reqs') \<in> set (slot_requests_of m)"
    and "i \<in> fst ` set reqs" and "i \<in> fst ` set reqs'"
  shows "s = s'"
  using assms(2-5) keyed_ids_distinct [OF assms(1)] by (auto simp: slot_requests_member distinct_map dest: inj_onD)

text \<open>
  C39: Recomputing the costs. For assignments stored under their identifiers every row of an
  assigned request is charged the carbon intensity of the slot it finally has, times the multiplier
  of its rank among the requests of that slot, times the duration of its flavour, whatever the order
  of the hash map; beyond the forecast it costs nothing, and a row without an assignment is kept.
\<close>

theorem recompute_charges_rank:
  assumes "keyed_by_id m"
  shows "recompute_carbon_costs per_req m forecast tiers scale = map (\<lambda>r.
     case map_of m (pr_request_id r) of
       None \<Rightarrow> r
     | Some a \<Rightarrow> r\<lparr>pr_carbon_cost := (case get_at forecast (as_scheduled_slot a) of Some c \<Rightarrow> c | None \<Rightarrow> 0)
         * get_capacity_multiplier tiers (int (slot_rank m a)) * as_flavour_duration a * scale\<rparr>) per_req"
proof -
  let ?srs = "slot_requests_of m"
  have wf: "hm_wf m" and ids: "\<And>i a. (i, a) \<in> set m \<Longrightarrow> as_request_id a = i"
    using assms by (auto simp: keyed_by_id_def)
  note strict = slot_requests_strict [OF assms] and one_slot = slot_requests_one_slot [OF assms]
  have priced: "map_of (price_slots forecast tiers scale ?srs []) i = Some
      ((case get_at forecast (as_scheduled_slot a) of Some c \<Rightarrow> c | None \<Rightarrow> 0)
         * get_capacity_multiplier tiers (int (slot_rank m a)) * as_flavour_duration a * scale)"
    if "map_of m i = Some a" for i a
  proof -
    let ?s = "as_scheduled_slot a" and ?reqs = "sort_key fst (map priced_pair (in_slot_of m (as_scheduled_slot a)))"
    have mem: "(i, a) \<in> set m" and i: "as_request_id a = i" using that wf ids by (simp_all add: hm_binding_iff map_of_SomeD)
    then have a: "a \<in> set (in_slot_of m ?s)" by (force simp: in_slot_of_def hm_values_def)
    then have here: "(?s, ?reqs) \<in> set ?srs" by (auto simp: slot_requests_iff)
    have "distinct (map fst ?reqs)" using strict [OF here] by (simp add: strict_sorted_iff)
    then have dur: "map_of ?reqs i = Some (as_flavour_duration a)"
      using a i by (force simp: map_of_eq_Some_iff image_iff)
    have rank: "slot_rank m a = 1 + length (filter (\<lambda>j. j < i) (map fst ?reqs))"
      unfolding filter_sort_key_ids slot_rank_def i [symmetric] in_slot_of_def by (simp add: filter_map comp_def conj_commute)
    show ?thesis
      using price_slots_lookup [OF strict slot_requests_keys one_slot here dur, where forecast = forecast and tiers = tiers and scale = scale and costs = "[]"]
      by (simp add: position_price_def rank)
  qed
  have unpriced: "map_of (price_slots forecast tiers scale ?srs []) i = None" if "map_of m i = None" for i
  proof -
    have "i \<notin> fst ` set reqs" if "(s, reqs) \<in> set ?srs" for s reqs
      using \<open>map_of m i = None\<close> ids unfolding slot_requests_member [OF that] by (auto simp: hm_values_def map_of_eq_None_iff image_iff)
    then show ?thesis using price_slots_untouched [of ?srs i] strict by fastforce
  qed
  show ?thesis unfolding recompute_carbon_costs_def Let_def
    by (auto simp: priced unpriced split: option.split)
qed

lemma recompute_charges_rank_witness:
  "let a = \<lambda>i s d. assignment_new 0 i s [] 0 0 d None None;
       row = \<lambda>i. decided_report [] 1 0 i 0 0 0 0 [] 0 7 0 0;
       tiers = [\<lparr>ct_max_requests = Some 1, ct_multiplier = 1\<rparr>, \<lparr>ct_max_requests = None, ct_multiplier = 3\<rparr>]
   in map pr_carbon_cost (recompute_carbon_costs [row 1, row 2, row 3, row 4]
        [(2, a 2 0 5), (1, a 1 0 4), (3, a 3 9 4)] [10] tiers 1) = [40, 150, 0, 7]"
proof -
  define a where "a = (\<lambda>(i :: nat) s d. assignment_new 0 i s [] 0 0 d None None)"
  define m where "m = [(2 :: nat, a 2 0 5), (1, a 1 0 4), (3, a 3 9 4)]"
  have m: "keyed_by_id m"
    by (simp add: m_def a_def keyed_by_id_def hm_wf_def assignment_new_def assignment_new_for_profile_def)
  show ?thesis unfolding Let_def a_def [symmetric] m_def [symmetric] recompute_charges_rank [OF m]
    by (simp add: m_def a_def assignment_new_def assignment_new_for_profile_def decided_report_def get_at_def
        slot_rank_def hm_values_def get_capacity_multiplier_def)
qed

section \<open>The summary\<close>

lemma fold_min_max:
  fixes x :: "'a::linorder"
  shows "fold min xs x = Min (set (x # xs))" and "fold max xs x = Max (set (x # xs))"
proof -
  show "fold min xs x = Min (set (x # xs))" by (simp only: Min.set_eq_fold)
  show "fold max xs x = Max (set (x # xs))" by (simp only: Max.set_eq_fold)
qed

lemma sum_list_between:
  fixes xs :: "real list"
  assumes "\<And>x. x \<in> set xs \<Longrightarrow> lo \<le> x \<and> x \<le> hi"
  shows "real (length xs) * lo \<le> sum_list xs \<and> sum_list xs \<le> real (length xs) * hi"
  using assms by (induction xs) (fastforce simp: algebra_simps)+

lemma min_max_avg_bounds:
  assumes "min_max_avg xs = (lo, hi, avg)" and "xs \<noteq> []"
  shows "lo \<in> set xs" and "hi \<in> set xs" and "x \<in> set xs \<Longrightarrow> lo \<le> x \<and> x \<le> hi" and "lo \<le> avg" and "avg \<le> hi"
proof -
  have lo: "lo = Min (set xs)" and hi: "hi = Max (set xs)" and avg: "avg = sum_list xs / real (length xs)"
    using assms by (cases xs; simp only: min_max_avg.simps fold_min_max prod.inject list.simps; simp)+
  show "lo \<in> set xs" "hi \<in> set xs" using assms(2) by (simp_all add: lo hi)
  show between: "lo \<le> x \<and> x \<le> hi" if "x \<in> set xs" for x using that by (simp add: lo hi)
  have "0 < real (length xs)" using assms(2) by simp
  then show "lo \<le> avg" "avg \<le> hi"
    using sum_list_between [of xs lo hi] between by (simp_all add: avg field_simps)
qed

section \<open>Requests that were never assigned\<close>

lemma late_loop_rows:
  "map pr_request_id (late_loop pol forecast d fb cnt reqs) = map rq_id reqs
   \<and> (\<forall>pr\<in>set (late_loop pol forecast d fb cnt reqs). pr_flavour_name pr = fl_name fb \<and> pr_error pr = fl_error fb
        \<and> pr_scheduled_slot pr = min (max (pr_deadline_slot pr) (pr_arrival_slot pr)) (i32_sub (pol_total_slots pol) 1)
        \<and> pr_lateness_slots pr = max (i32_sub (i32_sub (pol_total_slots pol) 1) (pr_deadline_slot pr)) 0)"
  by (induction reqs arbitrary: cnt) (simp_all add: Let_def late_report_def)

lemma schedule_late_total:
  assumes "pol_flavours pol \<noteq> []"
  obtains late where "schedule_late_requests remaining forecast pol d = Some late"
    and "map pr_request_id late = map rq_id (sort_key (\<lambda>r. (rq_deadline_slot r, rq_arrival_slot r, rq_id r)) remaining)"
proof (cases "remaining = []")
  case False
  obtain fb where fb: "min_by_key fl_error (pol_flavours pol) = Some fb"
    using assms min_by_key_None [of fl_error "pol_flavours pol"] by blast
  show thesis
  proof (rule that)
    show "schedule_late_requests remaining forecast pol d = Some (late_loop pol forecast d fb []
        (sort_key (\<lambda>r. (rq_deadline_slot r, rq_arrival_slot r, rq_id r)) remaining))"
      by (simp add: schedule_late_requests_def False fb)
  qed (rule conjunct1 [OF late_loop_rows])
qed (use that in \<open>simp add: schedule_late_requests_def\<close>)

lemma recompute_keeps_ids:
  "map pr_request_id (recompute_carbon_costs per_req m forecast tiers scale) = map pr_request_id per_req"
  by (auto simp: recompute_carbon_costs_def Let_def split: option.split)

text \<open>
  What a run is evaluated to. The report lists the newly assigned requests once each, in the
  order of their identifiers, followed by the requests that were still pending, most urgent first;
  with a flavour configured the evaluation returns, and the summary's counters partition the received
  requests into those with a row and the rest, and are bounded by the rows.
\<close>

theorem evaluation_covers_run:
  assumes "pol_flavours (assignment_policy_of cfg) \<noteq> []"
  shows "\<exists>per_req timings sm. evaluate_run cfg n rt sc forecast runs rows rb remaining fa received counts = Some (per_req, timings, sm)
    \<and> map pr_request_id per_req
        = map pr_request_id (compute_per_request rows (runs_by_id_of runs) (cfg_slot_duration_seconds cfg) rb)
          @ map rq_id (sort_key (\<lambda>r. (rq_deadline_slot r, rq_arrival_slot r, rq_id r)) remaining)
    \<and> mset timings = image_mset (batch_timing_of n) (mset runs)
    \<and> rs_requests_scheduled sm = length per_req
    \<and> (length per_req \<le> received \<longrightarrow> rs_requests_scheduled sm + rs_requests_unscheduled sm = received)
    \<and> rs_requests_late sm \<le> length per_req
    \<and> rs_total_carbon_cost sm = sum_list (map pr_carbon_cost per_req)"
proof -
  let ?pol = "assignment_policy_of cfg" and ?d = "cfg_slot_duration_seconds cfg"
  obtain late where late: "schedule_late_requests remaining forecast ?pol ?d = Some late"
    and ids: "map pr_request_id late = map rq_id (sort_key (\<lambda>r. (rq_deadline_slot r, rq_arrival_slot r, rq_id r)) remaining)"
    by (rule schedule_late_total [OF assms])
  define per_req where "per_req = recompute_carbon_costs (compute_per_request rows (runs_by_id_of runs) ?d rb @ late)
    fa forecast (cfg_capacity_tiers cfg) (pol_carbon_cost_duration_scale ?pol)"
  define timings where "timings = compute_batch_timings runs n"
  define sm where "sm = compute_summary (execution_mode (sc_solver_strategy (cfg_solver cfg))) n rt sc per_req timings received no_baseline counts"
  have "evaluate_run cfg n rt sc forecast runs rows rb remaining fa received counts = Some (per_req, timings, sm)"
    unfolding evaluate_run_def Let_def late per_req_def timings_def sm_def by (simp only: option.map)
  moreover have "map pr_request_id per_req = map pr_request_id (compute_per_request rows (runs_by_id_of runs) ?d rb)
      @ map rq_id (sort_key (\<lambda>r. (rq_deadline_slot r, rq_arrival_slot r, rq_id r)) remaining)"
    unfolding per_req_def recompute_keeps_ids map_append ids ..
  moreover have "mset timings = image_mset (batch_timing_of n) (mset runs)" by (simp add: timings_def compute_batch_timings_def)
  moreover have "rs_requests_scheduled sm = length per_req" "rs_requests_unscheduled sm = received - length per_req"
    "rs_requests_late sm = length (filter (\<lambda>r. 0 < pr_lateness_slots r) per_req)"
    "rs_total_carbon_cost sm = sum_list (map pr_carbon_cost per_req)"
    by (simp_all add: sm_def compute_summary_def Let_def)
  moreover have "length (filter (\<lambda>r. 0 < pr_lateness_slots r) per_req) \<le> length per_req" by (rule length_filter_le)
  ultimately show ?thesis by (intro exI [of _ per_req] exI [of _ timings] exI [of _ sm]) simp
qed

lemma evaluation_covers_run_witness:
  "\<exists>per_req timings sm. evaluate_run config_default 1 False 1 [5] [] [] {} [request_new 0 4 0 0, request_new 0 2 0 0] [] 3 no_counts
       = Some (per_req, timings, sm)
     \<and> map pr_request_id per_req = [2, 4] \<and> rs_requests_unscheduled sm = 1"
proof -
  have "pol_flavours (assignment_policy_of config_default) \<noteq> []"
    by (simp add: assignment_policy_of_def config_default_def)
  from evaluation_covers_run [OF this, of 1 False 1 "[5]" "[]" "[]" "{}" "[request_new 0 4 0 0, request_new 0 2 0 0]" "[]" 3 no_counts]
  obtain per_req timings sm where r: "evaluate_run config_default 1 False 1 [5] [] [] {} [request_new 0 4 0 0, request_new 0 2 0 0] [] 3 no_counts
       = Some (per_req, timings, sm)"
    and ids: "map pr_request_id per_req = [2, 4]"
    and n: "rs_requests_scheduled sm = length per_req"
      "length per_req \<le> 3 \<longrightarrow> rs_requests_scheduled sm + rs_requests_unscheduled sm = 3"
    by (auto simp: request_new_def compute_per_request_def hm_values_def)
  have "length per_req = 2" using ids by (metis length_map length_Cons list.size(3) numeral_2_eq_2)
  then show ?thesis using r ids n by auto
qed

section \<open>The greedy baseline\<close>

lemma baseline_slot_rows:
  "map (\<lambda>x. pr_request_id (fst x)) (baseline_slot pol forecast d f s c seq reqs) = map rq_id reqs
   \<and> map (\<lambda>x. pr_carbon_cost (fst x)) (baseline_slot pol forecast d f s c seq reqs)
     = map (\<lambda>j. intensity_or_one forecast s * get_capacity_multiplier (pol_capacity_tiers pol) (c + 1 + int j)
          * fl_duration f * pol_carbon_cost_duration_scale pol) [0..<length reqs]
   \<and> (\<forall>x\<in>set (baseline_slot pol forecast d f s c seq reqs). pr_error (fst x) = fl_error f)"
proof (induction reqs arbitrary: c seq)
  case (Cons req reqs)
  have shift: "map g [0..<Suc n] = g 0 # map (\<lambda>j. g (Suc j)) [0..<n]" for g :: "nat \<Rightarrow> real" and n
    by (simp add: upt_conv_Cons map_Suc_upt [symmetric] comp_def del: upt_Suc)
  show ?case using Cons.IH [of "c + 1" "seq + 1"]
    by (simp add: Let_def decided_report_def shift add.assoc del: upt_Suc)
qed simp

lemma baseline_slots_rows:
  "map (\<lambda>x. pr_request_id (fst x)) (baseline_slots pol forecast d f k seq by_slot) = map rq_id (concat by_slot)
   \<and> map (\<lambda>x. pr_carbon_cost (fst x)) (baseline_slots pol forecast d f k seq by_slot)
     = concat (map (\<lambda>(s, reqs). map (\<lambda>j. intensity_or_one forecast (int s)
          * get_capacity_multiplier (pol_capacity_tiers pol) (1 + int j)
          * fl_duration f * pol_carbon_cost_duration_scale pol) [0..<length reqs]) (enumerate k by_slot))
   \<and> (\<forall>x\<in>set (baseline_slots pol forecast d f k seq by_slot). pr_error (fst x) = fl_error f)"
proof (induction by_slot arbitrary: k seq)
  case (Cons reqs rest)
  show ?case
    using Cons.IH [of "Suc k" "seq + length reqs"] baseline_slot_rows [of pol forecast d f "int k" 0 seq reqs]
    by (simp add: ball_Un comp_def)
qed simp

text \<open>
  The baseline of the comparison. Every request is run in the slot it arrives in with the
  flavour of least error, and the \<open>j\<close>-th request of a slot pays the tier of position \<open>j\<close>; so the
  average error of the baseline is exactly the least error the flavours allow.
\<close>

theorem greedy_baseline_exact:
  assumes "run_greedy_baseline now sc pol d rt speed = Some (per_req, timings, sm)"
  shows "\<exists>f by_slot. f \<in> set (pol_flavours pol) \<and> (\<forall>g\<in>set (pol_flavours pol). fl_error f \<le> fl_error g)
    \<and> requests_by_slot now sc = Some by_slot
    \<and> map pr_request_id per_req = map rq_id (concat by_slot)
    \<and> map pr_carbon_cost per_req = concat (map (\<lambda>(s, reqs). map (\<lambda>j. intensity_or_one (sn_carbon_forecast sc) (int s)
          * get_capacity_multiplier (pol_capacity_tiers pol) (1 + int j)
          * fl_duration f * pol_carbon_cost_duration_scale pol) [0..<length reqs]) (enumerate 0 by_slot))
    \<and> (per_req \<noteq> [] \<longrightarrow> rs_global_average_error sm = fl_error f)
    \<and> rs_requests_unscheduled sm = 0"
proof -
  obtain f by_slot where f: "min_by_key fl_error (pol_flavours pol) = Some f"
    and by_slot: "requests_by_slot now sc = Some by_slot"
    and per_req: "per_req = map fst (baseline_slots pol (sn_carbon_forecast sc) d f 0 0 by_slot)"
    and sm: "sm = compute_summary ''greedy_baseline_immediate'' 0 rt speed per_req timings (sum_list (map length by_slot)) f no_counts"
    using assms by (auto simp: run_greedy_baseline_def Let_def split: option.splits)
  note rows = baseline_slots_rows [of pol "sn_carbon_forecast sc" d f 0 0 by_slot]
  have ids: "map pr_request_id per_req = map rq_id (concat by_slot)" using rows by (simp add: per_req comp_def)
  then have "length per_req = length (concat by_slot)" by (metis length_map)
  then have none: "rs_requests_unscheduled sm = 0" by (simp add: sm compute_summary_def Let_def length_concat)
  have "map pr_error per_req = map (\<lambda>_. fl_error f) per_req" using rows by (fastforce simp: per_req)
  then have "sum_list (map pr_error per_req) = real (length per_req) * fl_error f" by (simp only: sum_list_triv)
  then have avg: "per_req \<noteq> [] \<longrightarrow> rs_global_average_error sm = fl_error f" by (simp add: sm compute_summary_def Let_def)
  show ?thesis
    using f by_slot ids none avg rows min_by_key_in [OF f] min_by_key_le [OF f]
    by (intro exI [of _ f] exI [of _ by_slot]) (simp add: per_req comp_def)
qed

section \<open>The cheapest feasible placement\<close>

lemma consider_pairs_cases:
  assumes "fold (consider_pair pol forecast w arrival) sfs best = r"
    and "\<And>c s f. best = Some (c, s, f) \<Longrightarrow> c = price_at pol forecast (swc_slot_count w) s f \<and> window_admits pol w arrival f"
  shows "(case r of
      None \<Rightarrow> best = None \<and> (\<forall>x\<in>set sfs. \<not> window_admits pol w arrival (snd x))
    | Some (c, s, f) \<Rightarrow> ((s, f) \<in> set sfs \<or> best = Some (c, s, f))
        \<and> c = price_at pol forecast (swc_slot_count w) s f \<and> window_admits pol w arrival f
        \<and> (\<forall>x\<in>set sfs. window_admits pol w arrival (snd x) \<longrightarrow> c \<le> price_at pol forecast (swc_slot_count w) (fst x) (snd x))
        \<and> (\<forall>c' s' f'. best = Some (c', s', f') \<longrightarrow> c \<le> c'))"
  using assms
proof (induction sfs arbitrary: best)
  case (Cons sf sfs)
  obtain s f where sf: "sf = (s, f)" by fastforce
  let ?best = "consider_pair pol forecast w arrival sf best"
  have step: "(case r of
      None \<Rightarrow> ?best = None \<and> (\<forall>x\<in>set sfs. \<not> window_admits pol w arrival (snd x))
    | Some (c, s, f) \<Rightarrow> ((s, f) \<in> set sfs \<or> ?best = Some (c, s, f))
        \<and> c = price_at pol forecast (swc_slot_count w) s f \<and> window_admits pol w arrival f
        \<and> (\<forall>x\<in>set sfs. window_admits pol w arrival (snd x) \<longrightarrow> c \<le> price_at pol forecast (swc_slot_count w) (fst x) (snd x))
        \<and> (\<forall>c' s' f'. ?best = Some (c', s', f') \<longrightarrow> c \<le> c'))"
    by (rule Cons.IH) (use Cons.prems in \<open>auto simp: sf consider_pair_def Let_def split: option.splits if_splits\<close>)
  show ?case
  proof (cases r)
    case None
    then show ?thesis using step by (auto simp: sf consider_pair_def Let_def split: option.splits if_splits)
  next
    case (Some csf)
    obtain c s' f' where csf: "csf = (c, s', f')" using prod_cases3 by blast
    show ?thesis
    proof (cases "window_admits pol w arrival f")
      case False
      then show ?thesis using step Some by (auto simp: sf consider_pair_def Let_def csf)
    next
      case True
      then show ?thesis using step Some Cons.prems(2)
        by (cases best) (auto simp: sf consider_pair_def Let_def csf split: if_splits)
    qed
  qed
qed (auto split: option.split)

text \<open>A placement is right when no admissible pair is cheaper, and the fallback only when there is none.\<close>

definition best_placement ::
    "assignment_policy \<Rightarrow> f64 list \<Rightarrow> flavour list \<Rightarrow> flavour \<Rightarrow> swarm_context \<Rightarrow> scenario_request \<Rightarrow> per_request \<Rightarrow> bool" where
  "best_placement pol forecast fs fb w req pr \<longleftrightarrow>
     (\<exists>f. pr_flavour_name pr = fl_name f \<and> pr_error pr = fl_error f
       \<and> pr_carbon_cost pr = price_at pol forecast (swc_slot_count w) (pr_scheduled_slot pr) f
       \<and> (if \<exists>x\<in>set (candidate_pairs pol fs w req). window_admits pol w (sq_arrival_slot req) (snd x)
          then (pr_scheduled_slot pr, f) \<in> set (candidate_pairs pol fs w req)
             \<and> window_admits pol w (sq_arrival_slot req) f
             \<and> (\<forall>x\<in>set (candidate_pairs pol fs w req). window_admits pol w (sq_arrival_slot req) (snd x)
                  \<longrightarrow> pr_carbon_cost pr \<le> price_at pol forecast (swc_slot_count w) (fst x) (snd x))
          else pr_scheduled_slot pr = sq_arrival_slot req \<and> f = fb))"

lemma cheapest_choice_best:
  assumes "cheapest_choice pol forecast fs fb w req = (c, s, f)"
  shows "c = price_at pol forecast (swc_slot_count w) s f"
    and "if \<exists>x\<in>set (candidate_pairs pol fs w req). window_admits pol w (sq_arrival_slot req) (snd x)
         then (s, f) \<in> set (candidate_pairs pol fs w req) \<and> window_admits pol w (sq_arrival_slot req) f
           \<and> (\<forall>x\<in>set (candidate_pairs pol fs w req). window_admits pol w (sq_arrival_slot req) (snd x)
                \<longrightarrow> c \<le> price_at pol forecast (swc_slot_count w) (fst x) (snd x))
         else s = sq_arrival_slot req \<and> f = fb"
proof -
  define r where "r = fold (consider_pair pol forecast w (sq_arrival_slot req)) (candidate_pairs pol fs w req) None"
  have spec: "(case r of
      None \<Rightarrow> \<forall>x\<in>set (candidate_pairs pol fs w req). \<not> window_admits pol w (sq_arrival_slot req) (snd x)
    | Some (c, s, f) \<Rightarrow> (s, f) \<in> set (candidate_pairs pol fs w req)
        \<and> c = price_at pol forecast (swc_slot_count w) s f \<and> window_admits pol w (sq_arrival_slot req) f
        \<and> (\<forall>x\<in>set (candidate_pairs pol fs w req). window_admits pol w (sq_arrival_slot req) (snd x)
             \<longrightarrow> c \<le> price_at pol forecast (swc_slot_count w) (fst x) (snd x)))"
    using consider_pairs_cases [OF r_def [symmetric]] by (cases r) auto
  have choice: "(case r of Some best \<Rightarrow> best
      | None \<Rightarrow> (price_at pol forecast (swc_slot_count w) (sq_arrival_slot req) fb, sq_arrival_slot req, fb)) = (c, s, f)"
    using assms by (simp add: cheapest_choice_def r_def)
  show "c = price_at pol forecast (swc_slot_count w) s f"
    using spec choice by (auto split: option.splits)
  show "if \<exists>x\<in>set (candidate_pairs pol fs w req). window_admits pol w (sq_arrival_slot req) (snd x)
         then (s, f) \<in> set (candidate_pairs pol fs w req) \<and> window_admits pol w (sq_arrival_slot req) f
           \<and> (\<forall>x\<in>set (candidate_pairs pol fs w req). window_admits pol w (sq_arrival_slot req) (snd x)
                \<longrightarrow> c \<le> price_at pol forecast (swc_slot_count w) (fst x) (snd x))
         else s = sq_arrival_slot req \<and> f = fb"
  proof (cases r)
    case None
    then show ?thesis using spec choice by auto
  next
    case (Some best)
    then show ?thesis using spec choice by auto
  qed
qed

text \<open>What the loop knows when it decides a request, read off the report so far.\<close>

definition decisions_of :: "per_request list \<Rightarrow> swarm_context \<Rightarrow> swarm_context" where
  "decisions_of prs w = fold (\<lambda>pr. account_placed (pr_scheduled_slot pr)
     \<lparr>fl_name = pr_flavour_name pr, fl_error = pr_error pr, fl_duration = 0\<rparr>) prs w"

lemma cheapest_loop_best:
  assumes "k < length reqs"
  shows "length (cheapest_loop pol forecast d fs fb w seq reqs) = length reqs
    \<and> pr_request_id (fst (cheapest_loop pol forecast d fs fb w seq reqs ! k)) = sq_request_id (reqs ! k)
    \<and> best_placement pol forecast fs fb
        (decisions_of (take k (map fst (cheapest_loop pol forecast d fs fb w seq reqs))) w) (reqs ! k)
        (fst (cheapest_loop pol forecast d fs fb w seq reqs ! k))"
  using assms
proof (induction reqs arbitrary: w seq k)
  case (Cons req reqs)
  obtain c s f where choice: "cheapest_choice pol forecast fs fb w req = (c, s, f)" using prod_cases3 by blast
  have acc: "account_placed s \<lparr>fl_name = fl_name f, fl_error = fl_error f, fl_duration = 0\<rparr> w = account_placed s f w"
    by (simp add: account_placed_def)
  note best = cheapest_choice_best [OF choice]
  have len: "length (cheapest_loop pol forecast d fs fb w seq reqs) = length reqs" for w seq
    by (induction reqs arbitrary: w seq) (simp_all add: Let_def case_prod_unfold)
  show ?case
  proof (cases k)
    case 0
    have "best_placement pol forecast fs fb w req
        (fst (cheapest_loop pol forecast d fs fb w seq (req # reqs) ! 0))"
      using best unfolding best_placement_def
      by (intro exI [of _ f]) (auto simp: choice Let_def decided_report_def split: if_splits)
    then show ?thesis using 0 by (simp add: len decisions_of_def) (simp add: choice Let_def decided_report_def len)
  next
    case (Suc j)
    then show ?thesis
      using Cons.IH [of j "account_placed s f w" "seq + 1"] Cons.prems
      by (simp add: choice Let_def decisions_of_def decided_report_def acc)
  qed
qed simp

lemma best_placement_slot:
  assumes "best_placement pol forecast fs fb w req pr"
  shows "sq_arrival_slot req \<le> pr_scheduled_slot pr"
    and "sq_arrival_slot req \<le> sq_deadline_slot req \<Longrightarrow> pr_scheduled_slot pr \<le> sq_deadline_slot req"
proof -
  have "pr_scheduled_slot pr = sq_arrival_slot req
      \<or> sq_arrival_slot req \<le> pr_scheduled_slot pr \<and> pr_scheduled_slot pr \<le> sq_deadline_slot req"
    using assms by (auto simp: best_placement_def candidate_pairs_def last_candidate_slot_def split: if_splits)
  then show "sq_arrival_slot req \<le> pr_scheduled_slot pr"
    "sq_arrival_slot req \<le> sq_deadline_slot req \<Longrightarrow> pr_scheduled_slot pr \<le> sq_deadline_slot req" by auto
qed


definition sample_scenario :: "scenario_request list \<Rightarrow> f64 list \<Rightarrow> scenario" where
  "sample_scenario reqs forecast =
     \<lparr>sn_metadata = \<lparr>sm_total_slots = 24, sm_slot_duration_seconds = 10, sm_requests_per_slot = 2,
         sm_request_rate_std_factor = 0, sm_deadline_min_slack = 0, sm_deadline_max_slack = 1,
         sm_max_error_threshold = 4, sm_error_window_past = 12, sm_error_window_future = 14,
         sm_error_window_past_decay_slots = 12, sm_prehistory_enabled = False, sm_prehistory_error_ratio = 0,
         sm_prehistory_mock_influence = 0, sm_carbon_intensity_cycle_slots = 24,
         sm_carbon_random_noise_amplitude = 0, sm_seed = 1, sm_capacity_tiers = None\<rparr>,
      sn_carbon_forecast = forecast, sn_requests = reqs\<rparr>"

definition sample_scenario_request :: "request_id \<Rightarrow> slot \<Rightarrow> slot \<Rightarrow> scenario_request" where
  "sample_scenario_request i arrival deadline =
     \<lparr>sq_request_id = i, sq_arrival_slot = arrival, sq_deadline_slot = deadline, sq_arrival_time = 0\<rparr>"


lemma greedy_baseline_exact_witness:
  "\<exists>per_req timings sm. run_greedy_baseline (\<lambda>_. 0) (sample_scenario [sample_scenario_request 7 1 2, sample_scenario_request 8 1 2] [1, 9, 5])
       (assignment_policy_of config_default) 10 False 1 = Some (per_req, timings, sm)
     \<and> map pr_request_id per_req = [7, 8] \<and> rs_global_average_error sm = 0"
proof -
  let ?sc = "sample_scenario [sample_scenario_request 7 1 2, sample_scenario_request 8 1 2] [1, 9, 5]"
  let ?pol = "assignment_policy_of config_default"
  have best: "min_by_key fl_error (pol_flavours ?pol) = Some \<lparr>fl_name = ''Accurate'', fl_error = 0, fl_duration = 60\<rparr>"
    by (simp add: assignment_policy_of_def config_default_def)
  obtain by_slot where by_slot: "requests_by_slot (\<lambda>_. 0) ?sc = Some by_slot" "map rq_id (concat by_slot) = [7, 8]"
    by (simp add: requests_by_slot_def sample_scenario_def sample_scenario_request_def Let_def group_index_def
        to_request_def request_new_def numeral_eq_Suc)
  obtain per_req timings sm where run: "run_greedy_baseline (\<lambda>_. 0) ?sc ?pol 10 False 1 = Some (per_req, timings, sm)"
    by (simp add: run_greedy_baseline_def best by_slot Let_def)
  obtain f where "f \<in> set (pol_flavours ?pol)" "\<forall>g\<in>set (pol_flavours ?pol). fl_error f \<le> fl_error g"
    and ids: "map pr_request_id per_req = [7, 8]" and avg: "per_req \<noteq> [] \<longrightarrow> rs_global_average_error sm = fl_error f"
    using greedy_baseline_exact [OF run] by (auto simp: by_slot)
  then have "fl_error f = 0" by (auto simp: assignment_policy_of_def config_default_def)
  then show ?thesis using run ids avg by auto
qed

end
