(* ===== verification/Offline_Swarm.thy ===== *)
theory Offline_Swarm
  imports Evaluation
begin

text \<open>
  The offline swarm strategies of the benchmark (\<open>bin/nshift/swarm.rs\<close>): a bandit and an ant colony
  that decide a whole scenario, and the strategies by name (\<open>bin/nshift/main.rs\<close>). Their helpers
  repeat those of \<open>engine/online_swarm.rs\<close>, whose model they share; what differs is that every table
  here is indexed directly, so a slot outside the horizon panics (\<open>None\<close>) where the online strategies
  ignore it. The random generator is the parameter of theory Swarm.
\<close>

section \<open>Placements\<close>

record swarm_assignment =
  swa_request_id :: request_id
  swa_arrival_slot :: slot
  swa_deadline_slot :: slot
  swa_scheduled_slot :: slot
  swa_flavour_name :: string
  swa_flavour_duration :: f64
  swa_error :: f64
  swa_carbon_cost :: f64

definition placed_request :: "scenario_request \<Rightarrow> slot \<Rightarrow> flavour \<Rightarrow> f64 \<Rightarrow> swarm_assignment" where
  "placed_request req s f cost =
     \<lparr>swa_request_id = sq_request_id req, swa_arrival_slot = sq_arrival_slot req,
      swa_deadline_slot = sq_deadline_slot req, swa_scheduled_slot = s, swa_flavour_name = fl_name f,
      swa_flavour_duration = fl_duration f, swa_error = fl_error f, swa_carbon_cost = cost\<rparr>"

definition candidate_slots :: "assignment_policy \<Rightarrow> scenario_request \<Rightarrow> slot list" where
  "candidate_slots pol req =
     valid_slots (sq_arrival_slot req) (sq_deadline_slot req) (pol_assignment_max_future_slots pol) (pol_total_slots pol)"

section \<open>The bandit\<close>

record bandit_params =
  bp_epsilon :: f64
  bp_initial_q :: f64
  bp_seed :: nat

definition bandit_params_default :: bandit_params where
  "bandit_params_default = \<lparr>bp_epsilon = 15 / 100, bp_initial_q = 10, bp_seed = 42\<rparr>"

text \<open>
  The slot of least \<open>q\<close>. The comparison indexes the table, so with two candidates or more every
  one of them has to be in it.
\<close>

definition least_q_slot :: "f64 list \<Rightarrow> slot list \<Rightarrow> slot option" where
  "least_q_slot q candidates =
     (if 2 \<le> length candidates \<and> (\<exists>s\<in>set candidates. get_at q s = None) then None
      else min_by_key (\<lambda>s. case get_at q s of Some v \<Rightarrow> v | None \<Rightarrow> 0) candidates)"

definition offline_bandit_slot :: "'r rng \<Rightarrow> f64 \<Rightarrow> f64 list \<Rightarrow> slot list \<Rightarrow> 'r \<Rightarrow> slot option \<times> 'r" where
  "offline_bandit_slot g epsilon q candidates r0 =
     (let (u, r1) = rng_unit g r0
      in if u < epsilon
         then (let (k, r2) = rng_below g (length candidates) r1
               in (if k < length candidates then Some (candidates ! k) else None, r2))
         else (least_q_slot q candidates, r1))"

text \<open>\<open>n[idx] += 1; q[idx] += (cost - q[idx]) / n[idx]\<close>; both tables have the length of the horizon.\<close>

definition learn_cost :: "slot \<Rightarrow> f64 \<Rightarrow> f64 list \<times> nat list \<Rightarrow> (f64 list \<times> nat list) option" where
  "learn_cost s cost qn =
     (let (q, n) = qn
      in case get_at n s of
        None \<Rightarrow> None
      | Some k \<Rightarrow>
         (case get_at q s of
            None \<Rightarrow> None
          | Some v \<Rightarrow> Some (q[nat s := v + (cost - v) / real (k + 1)], n[nat s := k + 1])))"

fun offline_bandit_loop ::
    "'r rng \<Rightarrow> f64 \<Rightarrow> assignment_policy \<Rightarrow> f64 list \<Rightarrow> flavour list \<Rightarrow> flavour \<Rightarrow> scenario_request list
     \<Rightarrow> swarm_context \<Rightarrow> f64 list \<times> nat list \<Rightarrow> 'r \<Rightarrow> swarm_assignment list option" where
  "offline_bandit_loop g epsilon pol forecast fs fb [] w qn r = Some []"
| "offline_bandit_loop g epsilon pol forecast fs fb (req # reqs) w qn r =
     (let candidates = candidate_slots pol req
      in if candidates = [] then offline_bandit_loop g epsilon pol forecast fs fb reqs w qn r
         else (case offline_bandit_slot g epsilon (fst qn) candidates r of
            (None, _) \<Rightarrow> None
          | (Some s, r1) \<Rightarrow>
             (let (f, cost) = place_in_slot pol forecast fs fb w s
              in case learn_cost s cost qn of
                None \<Rightarrow> None
              | Some qn1 \<Rightarrow>
                 map_option (Cons (placed_request req s f cost))
                   (offline_bandit_loop g epsilon pol forecast fs fb reqs (account_placed s f w) qn1 r1))))"

text \<open>\<open>total_slots as usize\<close> of a negative number is too large to allocate.\<close>

definition run_bandit ::
    "'r rng \<Rightarrow> scenario_request list \<Rightarrow> f64 list \<Rightarrow> assignment_policy \<Rightarrow> bandit_params \<Rightarrow> swarm_assignment list option" where
  "run_bandit g reqs forecast pol params =
     (case sorted_flavours_and_fallback (pol_flavours pol) of
        None \<Rightarrow> None
      | Some (fs, fb) \<Rightarrow>
         (if pol_total_slots pol < 0 then None
          else offline_bandit_loop g (bp_epsilon params) pol forecast fs fb reqs no_decisions
            (replicate (nat (pol_total_slots pol)) (bp_initial_q params), replicate (nat (pol_total_slots pol)) 0)
            (rng_seed g (bp_seed params))))"

section \<open>The ant colony\<close>

record aco_params =
  acp_n_ants :: nat
  acp_n_iterations :: nat
  acp_alpha :: f64
  acp_beta :: f64
  acp_rho :: f64
  acp_q :: f64
  acp_tau0 :: f64
  acp_seed :: nat

definition aco_params_default :: aco_params where
  "aco_params_default =
     \<lparr>acp_n_ants = 10, acp_n_iterations = 20, acp_alpha = 1, acp_beta = 2, acp_rho = 5 / 10, acp_q = 1,
      acp_tau0 = 1, acp_seed = 42\<rparr>"

definition heuristic_of :: "f64 list \<Rightarrow> flavour \<Rightarrow> f64 \<Rightarrow> nat \<Rightarrow> f64 list" where
  "heuristic_of forecast cheapest scale slots =
     map (\<lambda>s. let ci = (if s < length forecast then forecast ! s else 1);
                  base = ci * fl_duration cheapest * scale
              in if 0 < base then 1 / base else 10 ^ 9) [0..<slots]"

text \<open>The weights of the candidates; \<open>None\<close> when one of them is outside the tables.\<close>

definition candidate_weights :: "aco_params \<Rightarrow> f64 list \<Rightarrow> f64 list \<Rightarrow> slot list \<Rightarrow> f64 list option" where
  "candidate_weights params tau eta candidates =
     collect_all (\<lambda>s. case (get_at tau s, get_at eta s) of
         (Some t, Some e) \<Rightarrow> Some (max t tau_floor powr acp_alpha params * e powr acp_beta params)
       | _ \<Rightarrow> None) candidates"

definition offline_ant_slot ::
    "'r rng \<Rightarrow> aco_params \<Rightarrow> f64 list \<Rightarrow> f64 list \<Rightarrow> slot list \<Rightarrow> 'r \<Rightarrow> slot option \<times> 'r" where
  "offline_ant_slot g params tau eta candidates r0 =
     (case candidate_weights params tau eta candidates of
        None \<Rightarrow> (None, r0)
      | Some weights \<Rightarrow>
         (let total_weight = sum_list weights
          in if total_weight \<le> 0
             then (let (k, r1) = rng_below g (length candidates) r0
                   in (if k < length candidates then Some (candidates ! k) else None, r1))
             else (let (u, r1) = rng_unit g r0
                   in (Some (roulette (zip candidates weights) (u * total_weight) (last candidates)), r1))))"

fun offline_ant ::
    "'r rng \<Rightarrow> aco_params \<Rightarrow> f64 list \<Rightarrow> f64 list \<Rightarrow> assignment_policy \<Rightarrow> f64 list \<Rightarrow> flavour list \<Rightarrow> flavour
     \<Rightarrow> scenario_request list \<Rightarrow> swarm_context \<Rightarrow> 'r \<Rightarrow> (swarm_assignment list \<times> 'r) option" where
  "offline_ant g params tau eta pol forecast fs fb [] w r = Some ([], r)"
| "offline_ant g params tau eta pol forecast fs fb (req # reqs) w r =
     (let candidates = candidate_slots pol req
      in if candidates = [] then offline_ant g params tau eta pol forecast fs fb reqs w r
         else (case offline_ant_slot g params tau eta candidates r of
            (None, _) \<Rightarrow> None
          | (Some s, r1) \<Rightarrow>
             (let (f, cost) = place_in_slot pol forecast fs fb w s
              in map_option (\<lambda>(sol, r2). (placed_request req s f cost # sol, r2))
                   (offline_ant g params tau eta pol forecast fs fb reqs (account_placed s f w) r1))))"

definition solution_cost :: "swarm_assignment list \<Rightarrow> f64" where
  "solution_cost sol = sum_list (map swa_carbon_cost sol)"

text \<open>The best so far, \<open>None\<close> while its cost is infinite; a tie keeps the older one.\<close>

definition keep_better :: "swarm_assignment list \<Rightarrow> swarm_assignment list option \<Rightarrow> swarm_assignment list option" where
  "keep_better sol best =
     (case best of None \<Rightarrow> Some sol | Some old \<Rightarrow> if solution_cost sol < solution_cost old then Some sol else Some old)"

fun offline_ants ::
    "('r \<Rightarrow> (swarm_assignment list \<times> 'r) option) \<Rightarrow> nat \<Rightarrow> swarm_assignment list option \<Rightarrow> 'r
     \<Rightarrow> (swarm_assignment list option \<times> 'r) option" where
  "offline_ants ant 0 best r = Some (best, r)"
| "offline_ants ant (Suc k) best r =
     (case ant r of
        None \<Rightarrow> None
      | Some (sol, r1) \<Rightarrow> offline_ants ant k (keep_better sol best) r1)"

text \<open>\<open>tau[slot] += deposit\<close>, for every placement of the solution; the index may panic.\<close>

definition reinforce :: "f64 \<Rightarrow> f64 list \<Rightarrow> swarm_assignment \<Rightarrow> f64 list option" where
  "reinforce deposit tau a =
     (case get_at tau (swa_scheduled_slot a) of
        None \<Rightarrow> None
      | Some t \<Rightarrow> Some (tau[nat (swa_scheduled_slot a) := t + deposit]))"

definition reinforce_best :: "f64 \<Rightarrow> swarm_assignment list option \<Rightarrow> f64 list \<Rightarrow> f64 list option" where
  "reinforce_best q best tau =
     (case best of
        None \<Rightarrow> Some tau
      | Some sol \<Rightarrow> if 0 < solution_cost sol then fold_opt (reinforce (q / solution_cost sol)) tau sol else Some tau)"

fun offline_iterations ::
    "'r rng \<Rightarrow> aco_params \<Rightarrow> f64 list \<Rightarrow> assignment_policy \<Rightarrow> f64 list \<Rightarrow> flavour list \<Rightarrow> flavour
     \<Rightarrow> scenario_request list \<Rightarrow> nat \<Rightarrow> swarm_assignment list option \<Rightarrow> f64 list \<Rightarrow> 'r
     \<Rightarrow> swarm_assignment list option option" where
  "offline_iterations g params eta pol forecast fs fb reqs 0 best tau r = Some best"
| "offline_iterations g params eta pol forecast fs fb reqs (Suc k) best tau r =
     (case offline_ants (offline_ant g params tau eta pol forecast fs fb reqs no_decisions) (acp_n_ants params) None r of
        None \<Rightarrow> None
      | Some (iter_best, r1) \<Rightarrow>
         (case reinforce_best (acp_q params) iter_best (evaporate (acp_rho params) tau) of
            None \<Rightarrow> None
          | Some tau1 \<Rightarrow>
             offline_iterations g params eta pol forecast fs fb reqs k
               (case iter_best of None \<Rightarrow> best | Some sol \<Rightarrow> keep_better sol best) tau1 r1))"

definition run_ant_colony ::
    "'r rng \<Rightarrow> scenario_request list \<Rightarrow> f64 list \<Rightarrow> assignment_policy \<Rightarrow> aco_params \<Rightarrow> swarm_assignment list option" where
  "run_ant_colony g reqs forecast pol params =
     (case sorted_flavours_and_fallback (pol_flavours pol) of
        None \<Rightarrow> None
      | Some (fs, fb) \<Rightarrow>
         (if pol_total_slots pol < 0 then None
          else (let slots = nat (pol_total_slots pol);
                    eta = heuristic_of forecast (hd fs) (pol_carbon_cost_duration_scale pol) slots
                in map_option (\<lambda>best. case best of Some sol \<Rightarrow> sol | None \<Rightarrow> [])
                     (offline_iterations g params eta pol forecast fs fb reqs (acp_n_iterations params) None
                        (replicate slots (acp_tau0 params)) (rng_seed g (acp_seed params))))))"

section \<open>The strategies by name\<close>

definition swarm_report :: "string \<Rightarrow> f64 \<Rightarrow> nat \<Rightarrow> swarm_assignment \<Rightarrow> per_request" where
  "swarm_report mode slot_dur seq a =
     decided_report mode slot_dur seq (swa_request_id a) (swa_arrival_slot a) (swa_deadline_slot a)
       (swa_arrival_slot a) (swa_scheduled_slot a) (swa_flavour_name a) (swa_error a) (swa_carbon_cost a)
       (max (i32_sub (swa_scheduled_slot a) (swa_arrival_slot a)) 0) 0"

definition convert_swarm_to_outputs ::
    "swarm_assignment list \<Rightarrow> string \<Rightarrow> scenario \<Rightarrow> assignment_policy \<Rightarrow> f64 \<Rightarrow> bool \<Rightarrow> f64
     \<Rightarrow> (per_request list \<times> batch_timing list \<times> run_summary) option" where
  "convert_swarm_to_outputs raw mode sc pol slot_dur realtime_slots speed_scale =
     map_option (\<lambda>f.
         let per_req = map (\<lambda>(i, a). swarm_report mode slot_dur (i + 1) a) (enumerate 0 raw);
             timings = map (\<lambda>(i, a). immediate_timing (i + 1) (swa_arrival_slot a)) (enumerate 0 raw)
         in (per_req, timings, compute_summary mode 0 realtime_slots speed_scale per_req timings
               (length (sn_requests sc)) f no_counts))
       (min_by_key fl_error (pol_flavours pol))"

definition run_bandit_strategy ::
    "'r rng \<Rightarrow> scenario \<Rightarrow> assignment_policy \<Rightarrow> f64 \<Rightarrow> bool \<Rightarrow> f64
     \<Rightarrow> (per_request list \<times> batch_timing list \<times> run_summary) option" where
  "run_bandit_strategy g sc pol slot_dur realtime_slots speed_scale =
     (case run_bandit g (by_arrival (sn_requests sc)) (sn_carbon_forecast sc) pol bandit_params_default of
        None \<Rightarrow> None
      | Some raw \<Rightarrow> convert_swarm_to_outputs raw ''bandit'' sc pol slot_dur realtime_slots speed_scale)"

definition run_ant_colony_strategy ::
    "'r rng \<Rightarrow> scenario \<Rightarrow> assignment_policy \<Rightarrow> f64 \<Rightarrow> bool \<Rightarrow> f64
     \<Rightarrow> (per_request list \<times> batch_timing list \<times> run_summary) option" where
  "run_ant_colony_strategy g sc pol slot_dur realtime_slots speed_scale =
     (case run_ant_colony g (by_arrival (sn_requests sc)) (sn_carbon_forecast sc) pol aco_params_default of
        None \<Rightarrow> None
      | Some raw \<Rightarrow> convert_swarm_to_outputs raw ''ant_colony'' sc pol slot_dur realtime_slots speed_scale)"

text \<open>An unknown name panics.\<close>

definition run_named_strategy ::
    "'r rng \<Rightarrow> string \<Rightarrow> scenario \<Rightarrow> assignment_policy \<Rightarrow> f64 \<Rightarrow> bool \<Rightarrow> f64
     \<Rightarrow> (per_request list \<times> batch_timing list \<times> run_summary) option" where
  "run_named_strategy g name sc pol slot_dur realtime_slots speed_scale =
     (if name = ''greedy_cheapest'' then run_greedy_cheapest sc pol slot_dur realtime_slots speed_scale
      else if name = ''bandit'' then run_bandit_strategy g sc pol slot_dur realtime_slots speed_scale
      else if name = ''ant_colony'' then run_ant_colony_strategy g sc pol slot_dur realtime_slots speed_scale
      else None)"

section \<open>Every choice is a candidate\<close>

definition in_horizon :: "assignment_policy \<Rightarrow> scenario_request \<Rightarrow> bool" where
  "in_horizon pol req \<longleftrightarrow> 0 \<le> sq_arrival_slot req \<and> sq_arrival_slot req < pol_total_slots pol
     \<and> pol_total_slots pol \<le> 2147483647"

definition placed_ok :: "assignment_policy \<Rightarrow> scenario_request \<Rightarrow> swarm_assignment \<Rightarrow> bool" where
  "placed_ok pol req a \<longleftrightarrow> swa_request_id a = sq_request_id req \<and> swa_arrival_slot a = sq_arrival_slot req
     \<and> swa_deadline_slot a = sq_deadline_slot req \<and> swa_scheduled_slot a \<in> set (candidate_slots pol req)"

lemma candidate_slots_nonempty [simp]: "candidate_slots pol req \<noteq> []"
  by (simp add: candidate_slots_def)

lemma candidate_in_horizon:
  assumes "in_horizon pol req" and "s \<in> set (candidate_slots pol req)"
  shows "0 \<le> s" and "nat s < nat (pol_total_slots pol)"
proof -
  have "i32_sub (pol_total_slots pol) 1 = pol_total_slots pol - 1"
    using assms(1) by (intro i32_sub_exact) (simp add: in_i32_def in_horizon_def)
  then have "0 \<le> s \<and> s < pol_total_slots pol"
    using assms by (auto simp: candidate_slots_def last_valid_slot_def in_horizon_def)
  then show "0 \<le> s" "nat s < nat (pol_total_slots pol)" by simp_all
qed

lemma candidate_in_table:
  assumes "in_horizon pol req" and "s \<in> set (candidate_slots pol req)" and "length xs = nat (pol_total_slots pol)"
  shows "get_at xs s = Some (xs ! nat s)"
  using candidate_in_horizon [OF assms(1,2)] assms(3) by (simp add: get_at_def)

lemma placed_request_ok: "s \<in> set (candidate_slots pol req) \<Longrightarrow> placed_ok pol req (placed_request req s f c)"
  by (simp add: placed_ok_def placed_request_def)

lemma random_candidate:
  assumes "rng_ok g" and "candidates \<noteq> []" and "rng_below g (length candidates) r = (k, r')"
  shows "k < length candidates"
proof -
  have "fst (rng_below g (length candidates) r) < length candidates" using assms(1,2) by (simp add: rng_ok_def)
  then show ?thesis using assms(3) by simp
qed

lemma offline_bandit_slot_candidate:
  assumes "rng_ok g" and "in_horizon pol req" and "length q = nat (pol_total_slots pol)"
  obtains s r' where "offline_bandit_slot g epsilon q (candidate_slots pol req) r = (Some s, r')"
    and "s \<in> set (candidate_slots pol req)"
proof -
  let ?cs = "candidate_slots pol req"
  obtain u r1 where u: "rng_unit g r = (u, r1)" by fastforce
  obtain k r2 where k: "rng_below g (length ?cs) r1 = (k, r2)" by fastforce
  have k_less: "k < length ?cs" by (rule random_candidate [OF assms(1) _ k]) simp
  have "\<forall>s\<in>set ?cs. get_at q s \<noteq> None" using candidate_in_table [OF assms(2) _ assms(3)] by simp
  then have least: "least_q_slot q ?cs = min_by_key (\<lambda>s. case get_at q s of Some v \<Rightarrow> v | None \<Rightarrow> 0) ?cs"
    by (auto simp: least_q_slot_def)
  obtain s where s: "least_q_slot q ?cs = Some s" unfolding least
    using min_by_key_None [of "\<lambda>s. case get_at q s of Some v \<Rightarrow> v | None \<Rightarrow> 0" ?cs] by fastforce
  then have s_in: "s \<in> set ?cs" unfolding least by (rule min_by_key_in)
  show thesis
  proof (cases "u < epsilon")
    case True
    then show ?thesis using that [of "?cs ! k" r2] k_less by (simp add: offline_bandit_slot_def u k)
  next
    case False
    then show ?thesis using that [of s r1] s s_in by (simp add: offline_bandit_slot_def u)
  qed
qed

lemma learn_cost_total:
  assumes "in_horizon pol req" and "s \<in> set (candidate_slots pol req)"
    and "length (fst qn) = nat (pol_total_slots pol)" and "length (snd qn) = nat (pol_total_slots pol)"
  obtains qn' where "learn_cost s c qn = Some qn'"
    and "length (fst qn') = nat (pol_total_slots pol)" and "length (snd qn') = nat (pol_total_slots pol)"
proof -
  obtain q n where qn: "qn = (q, n)" by fastforce
  show thesis
    using that assms(3,4) candidate_in_table [OF assms(1,2), of q] candidate_in_table [OF assms(1,2), of n]
    by (simp add: learn_cost_def qn)
qed

lemma offline_bandit_loop_total:
  assumes "rng_ok g" and "\<forall>req\<in>set reqs. in_horizon pol req"
    and "length (fst qn) = nat (pol_total_slots pol)" and "length (snd qn) = nat (pol_total_slots pol)"
  shows "\<exists>sol. offline_bandit_loop g epsilon pol forecast fs fb reqs w qn r = Some sol \<and> list_all2 (placed_ok pol) reqs sol"
  using assms(2-4)
proof (induction reqs arbitrary: w qn r)
  case (Cons req reqs)
  have req: "in_horizon pol req" using Cons.prems(1) by simp
  obtain s r1 where s: "offline_bandit_slot g epsilon (fst qn) (candidate_slots pol req) r = (Some s, r1)"
    and s_in: "s \<in> set (candidate_slots pol req)"
    by (rule offline_bandit_slot_candidate [OF assms(1) req Cons.prems(2)])
  obtain f c where fc: "place_in_slot pol forecast fs fb w s = (f, c)" by fastforce
  obtain qn1 where qn1: "learn_cost s c qn = Some qn1"
    and len: "length (fst qn1) = nat (pol_total_slots pol)" "length (snd qn1) = nat (pol_total_slots pol)"
    by (rule learn_cost_total [OF req s_in Cons.prems(2,3)])
  have reqs: "\<forall>req\<in>set reqs. in_horizon pol req" using Cons.prems(1) by simp
  obtain sol where "offline_bandit_loop g epsilon pol forecast fs fb reqs (account_placed s f w) qn1 r1 = Some sol"
    and "list_all2 (placed_ok pol) reqs sol"
    using Cons.IH [OF reqs len] by blast
  then show ?case using placed_request_ok [OF s_in] by (simp add: s fc qn1)
qed simp

lemma offline_ant_slot_candidate:
  assumes "rng_ok g" and "in_horizon pol req"
    and "length tau = nat (pol_total_slots pol)" and "length eta = nat (pol_total_slots pol)"
  obtains s r' where "offline_ant_slot g params tau eta (candidate_slots pol req) r = (Some s, r')"
    and "s \<in> set (candidate_slots pol req)"
proof -
  let ?cs = "candidate_slots pol req"
  let ?w = "\<lambda>s. max (tau ! nat s) tau_floor powr acp_alpha params * (eta ! nat s) powr acp_beta params"
  have weights: "candidate_weights params tau eta ?cs = Some (map ?w ?cs)"
    unfolding candidate_weights_def
    by (rule collect_all_total) (simp add: candidate_in_table [OF assms(2) _ assms(3)] candidate_in_table [OF assms(2) _ assms(4)])
  obtain u r1 where u: "rng_unit g r = (u, r1)" by fastforce
  obtain k r2 where k: "rng_below g (length ?cs) r = (k, r2)" by fastforce
  have k_less: "k < length ?cs" by (rule random_candidate [OF assms(1) _ k]) simp
  have wheel: "roulette (zip ?cs (map ?w ?cs)) x (last ?cs) \<in> set ?cs" for x
    using roulette_in [of "zip ?cs (map ?w ?cs)" x "last ?cs"] by (auto dest: set_zip_leftD)
  show thesis
  proof (cases "sum_list (map ?w ?cs) \<le> 0")
    case True
    then show ?thesis using that [of "?cs ! k" r2] k_less by (simp add: offline_ant_slot_def weights k)
  next
    case False
    then show ?thesis using that [OF _ wheel] by (simp add: offline_ant_slot_def weights u)
  qed
qed

lemma offline_ant_total:
  assumes "rng_ok g" and "\<forall>req\<in>set reqs. in_horizon pol req"
    and "length tau = nat (pol_total_slots pol)" and "length eta = nat (pol_total_slots pol)"
  shows "\<exists>sol r'. offline_ant g params tau eta pol forecast fs fb reqs w r = Some (sol, r') \<and> list_all2 (placed_ok pol) reqs sol"
  using assms(2)
proof (induction reqs arbitrary: w r)
  case (Cons req reqs)
  have req: "in_horizon pol req" using Cons.prems(1) by simp
  obtain s r1 where s: "offline_ant_slot g params tau eta (candidate_slots pol req) r = (Some s, r1)"
    and s_in: "s \<in> set (candidate_slots pol req)"
    by (rule offline_ant_slot_candidate [OF assms(1) req assms(3,4)])
  obtain f c where fc: "place_in_slot pol forecast fs fb w s = (f, c)" by fastforce
  have reqs: "\<forall>req\<in>set reqs. in_horizon pol req" using Cons.prems(1) by simp
  obtain sol r2 where "offline_ant g params tau eta pol forecast fs fb reqs (account_placed s f w) r1 = Some (sol, r2)"
    and "list_all2 (placed_ok pol) reqs sol"
    using Cons.IH [OF reqs] by blast
  then show ?case using placed_request_ok [OF s_in] by (simp add: s fc)
qed simp

section \<open>The colony returns a complete solution\<close>

lemma offline_ants_total:
  assumes "\<forall>r. \<exists>sol r'. ant r = Some (sol, r') \<and> P sol" and "pred_option P best"
  shows "\<exists>best' r'. offline_ants ant k best r = Some (best', r') \<and> pred_option P best' \<and> (best \<noteq> None \<or> 0 < k \<longrightarrow> best' \<noteq> None)"
  using assms(2)
proof (induction k arbitrary: best r)
  case (Suc k)
  obtain sol r1 where ant: "ant r = Some (sol, r1)" "P sol" using assms(1) by blast
  have "pred_option P (keep_better sol best)" and "keep_better sol best \<noteq> None"
    using Suc.prems ant(2) by (auto simp: keep_better_def split: option.splits)
  then show ?case using Suc.IH [of "keep_better sol best" r1] by (simp add: ant(1))
qed simp

lemma reinforce_best_total:
  assumes "pred_option (list_all2 (placed_ok pol) reqs) best" and "\<forall>req\<in>set reqs. in_horizon pol req"
    and "length tau = nat (pol_total_slots pol)"
  shows "\<exists>tau'. reinforce_best q best tau = Some tau' \<and> length tau' = nat (pol_total_slots pol)"
proof -
  have "\<exists>tau'. fold_opt (reinforce d) tau sol = Some tau' \<and> length tau' = nat (pol_total_slots pol)"
    if "list_all2 (placed_ok pol) reqs sol" for sol d
  proof (rule fold_opt_total [where P = "\<lambda>tau. length tau = nat (pol_total_slots pol)", OF assms(3)])
    fix t :: "f64 list" and a assume t: "length t = nat (pol_total_slots pol)" and a: "a \<in> set sol"
    obtain i where "i < length sol" "a = sol ! i" using a by (auto simp: in_set_conv_nth)
    then have "reqs ! i \<in> set reqs" "placed_ok pol (reqs ! i) a" using that by (auto simp: list_all2_conv_all_nth)
    then have "get_at t (swa_scheduled_slot a) = Some (t ! nat (swa_scheduled_slot a))"
      using assms(2) t by (intro candidate_in_table) (auto simp: placed_ok_def)
    then show "\<exists>t'. reinforce d t a = Some t' \<and> length t' = nat (pol_total_slots pol)" using t by (simp add: reinforce_def)
  qed
  then show ?thesis using assms(1,3) by (auto simp: reinforce_best_def split: option.split)
qed

lemma offline_iterations_total:
  assumes "rng_ok g" and "\<forall>req\<in>set reqs. in_horizon pol req" and "length eta = nat (pol_total_slots pol)"
    and "length tau = nat (pol_total_slots pol)" and "pred_option (list_all2 (placed_ok pol) reqs) best"
    and "0 < acp_n_ants params"
  shows "\<exists>best'. offline_iterations g params eta pol forecast fs fb reqs k best tau r = Some best'
    \<and> pred_option (list_all2 (placed_ok pol) reqs) best' \<and> (best \<noteq> None \<or> 0 < k \<longrightarrow> best' \<noteq> None)"
  using assms(4,5)
proof (induction k arbitrary: best tau r)
  case (Suc k)
  have "\<forall>r. \<exists>sol r'. offline_ant g params tau eta pol forecast fs fb reqs no_decisions r = Some (sol, r')
      \<and> list_all2 (placed_ok pol) reqs sol"
    using offline_ant_total [OF assms(1,2) Suc.prems(1) assms(3)] by blast
  from offline_ants_total [OF this, of None "acp_n_ants params" r] assms(6)
  obtain sol r1 where ants: "offline_ants (offline_ant g params tau eta pol forecast fs fb reqs no_decisions) (acp_n_ants params) None r
      = Some (Some sol, r1)" and sol: "list_all2 (placed_ok pol) reqs sol" by auto
  have "length (evaporate (acp_rho params) tau) = nat (pol_total_slots pol)" using Suc.prems(1) by (simp add: evaporate_def)
  then obtain tau1 where tau1: "reinforce_best (acp_q params) (Some sol) (evaporate (acp_rho params) tau) = Some tau1"
    "length tau1 = nat (pol_total_slots pol)"
    using reinforce_best_total [of pol reqs "Some sol"] sol assms(2) by fastforce
  have "pred_option (list_all2 (placed_ok pol) reqs) (keep_better sol best)" "keep_better sol best \<noteq> None"
    using Suc.prems(2) sol by (auto simp: keep_better_def split: option.splits)
  then show ?case using Suc.IH [OF tau1(2), of "keep_better sol best" r1] by (simp add: ants tau1(1))
qed simp

lemma best_placement_candidate:
  assumes "best_placement pol forecast fs fb w req pr"
  shows "pr_scheduled_slot pr \<in> set (candidate_slots pol req)"
proof -
  have "pr_scheduled_slot pr = sq_arrival_slot req
      \<or> sq_arrival_slot req \<le> pr_scheduled_slot pr \<and> pr_scheduled_slot pr \<le> last_candidate_slot pol req"
    using assms by (auto simp: best_placement_def candidate_pairs_def split: if_splits)
  then show ?thesis by (auto simp: candidate_slots_def last_valid_slot_def last_candidate_slot_def)
qed

lemma fallback_exists:
  assumes "fs \<noteq> []"
  obtains fb where "sorted_flavours_and_fallback fs = Some (sort_key fl_duration fs, fb)" and "min_by_key fl_error fs = Some fb"
  using assms min_by_key_None [of fl_error fs] by (cases "min_by_key fl_error fs") (auto simp: sorted_flavours_and_fallback_def)

lemma run_bandit_total:
  assumes "rng_ok g" and "pol_flavours pol \<noteq> []" and "\<forall>req\<in>set reqs. in_horizon pol req" and "0 \<le> pol_total_slots pol"
  shows "\<exists>sol. run_bandit g reqs forecast pol params = Some sol \<and> list_all2 (placed_ok pol) reqs sol"
proof -
  obtain fb where "sorted_flavours_and_fallback (pol_flavours pol) = Some (sort_key fl_duration (pol_flavours pol), fb)"
    by (rule fallback_exists [OF assms(2)])
  then show ?thesis using assms(4) offline_bandit_loop_total [OF assms(1,3)] by (simp add: run_bandit_def)
qed

lemma run_ant_colony_total:
  assumes "rng_ok g" and "pol_flavours pol \<noteq> []" and "\<forall>req\<in>set reqs. in_horizon pol req" and "0 \<le> pol_total_slots pol"
    and "0 < acp_n_ants params" and "0 < acp_n_iterations params"
  shows "\<exists>sol. run_ant_colony g reqs forecast pol params = Some sol \<and> list_all2 (placed_ok pol) reqs sol"
proof -
  obtain fb where fb: "sorted_flavours_and_fallback (pol_flavours pol) = Some (sort_key fl_duration (pol_flavours pol), fb)"
    by (rule fallback_exists [OF assms(2)])
  let ?fs = "sort_key fl_duration (pol_flavours pol)" and ?slots = "nat (pol_total_slots pol)"
  let ?eta = "heuristic_of forecast (hd ?fs) (pol_carbon_cost_duration_scale pol) ?slots"
  have "length ?eta = ?slots" by (simp add: heuristic_of_def)
  from offline_iterations_total [OF assms(1,3) this _ _ assms(5), of "replicate ?slots (acp_tau0 params)" None forecast ?fs fb
      "acp_n_iterations params" "rng_seed g (acp_seed params)"] assms(6)
  obtain sol where "offline_iterations g params ?eta pol forecast ?fs fb reqs (acp_n_iterations params) None
      (replicate ?slots (acp_tau0 params)) (rng_seed g (acp_seed params)) = Some (Some sol)"
    and "list_all2 (placed_ok pol) reqs sol" by auto
  then show ?thesis using assms(4) by (simp add: run_ant_colony_def fb Let_def)
qed

lemma convert_rows:
  assumes "convert_swarm_to_outputs raw mode sc pol d rt speed = Some (per_req, timings, sm)"
  shows "map pr_request_id per_req = map swa_request_id raw" and "map pr_scheduled_slot per_req = map swa_scheduled_slot raw"
    and "\<forall>pr\<in>set per_req. pr_lateness_slots pr = 0" and "rs_requests_late sm = 0"
proof -
  have per_req: "per_req = map (\<lambda>(i, a). swarm_report mode d (i + 1) a) (enumerate 0 raw)"
    and sm: "\<exists>f. sm = compute_summary mode 0 rt speed per_req timings (length (sn_requests sc)) f no_counts"
    using assms by (auto simp: convert_swarm_to_outputs_def Let_def)
  have rows: "map (\<lambda>x. h (snd x)) (enumerate 0 raw) = map h raw" for h :: "swarm_assignment \<Rightarrow> 'b"
  proof -
    have "map h (map snd (enumerate 0 raw)) = map h raw" by (simp only: map_snd_enumerate)
    then show ?thesis unfolding map_map comp_def .
  qed
  show "map pr_request_id per_req = map swa_request_id raw" "map pr_scheduled_slot per_req = map swa_scheduled_slot raw"
    by (simp_all add: per_req swarm_report_def decided_report_def case_prod_unfold comp_def rows)
  show late: "\<forall>pr\<in>set per_req. pr_lateness_slots pr = 0" by (auto simp: per_req swarm_report_def decided_report_def)
  obtain f where "sm = compute_summary mode 0 rt speed per_req timings (length (sn_requests sc)) f no_counts" using sm by blast
  then show "rs_requests_late sm = 0" using late by (simp add: compute_summary_def Let_def filter_empty_conv)
qed

lemma swarm_strategy_rows:
  assumes "rng_ok g" and "pol_flavours pol \<noteq> []" and "\<forall>req\<in>set (sn_requests sc). in_horizon pol req"
    and "0 \<le> pol_total_slots pol" and "name \<in> {''bandit'', ''ant_colony''}"
  shows "\<exists>per_req timings sm. run_named_strategy g name sc pol d rt speed = Some (per_req, timings, sm)
     \<and> map pr_request_id per_req = map sq_request_id (by_arrival (sn_requests sc))
     \<and> list_all2 (\<lambda>req s. s \<in> set (candidate_slots pol req)) (by_arrival (sn_requests sc)) (map pr_scheduled_slot per_req)
     \<and> (\<forall>pr\<in>set per_req. pr_lateness_slots pr = 0) \<and> rs_requests_late sm = 0"
proof -
  let ?reqs = "by_arrival (sn_requests sc)" and ?fc = "sn_carbon_forecast sc"
  have reqs: "\<forall>req\<in>set ?reqs. in_horizon pol req" using assms(3) by (simp add: by_arrival_def)
  obtain sol where raw: "run_named_strategy g name sc pol d rt speed = convert_swarm_to_outputs sol name sc pol d rt speed"
    and sol: "list_all2 (placed_ok pol) ?reqs sol"
    using assms(5) run_bandit_total [OF assms(1,2) reqs assms(4), of ?fc bandit_params_default]
      run_ant_colony_total [OF assms(1,2) reqs assms(4), of aco_params_default ?fc]
    by (auto simp: run_named_strategy_def run_bandit_strategy_def run_ant_colony_strategy_def aco_params_default_def)
  obtain fb where "min_by_key fl_error (pol_flavours pol) = Some fb" by (rule fallback_exists [OF assms(2)])
  then obtain per_req timings sm where out: "convert_swarm_to_outputs sol name sc pol d rt speed = Some (per_req, timings, sm)"
    by (simp add: convert_swarm_to_outputs_def Let_def)
  have "map swa_request_id sol = map sq_request_id ?reqs"
    using sol by (auto simp: list_all2_conv_all_nth placed_ok_def intro!: nth_equalityI)
  moreover have "list_all2 (\<lambda>req s. s \<in> set (candidate_slots pol req)) ?reqs (map swa_scheduled_slot sol)"
    using sol by (simp add: list_all2_conv_all_nth placed_ok_def)
  ultimately show ?thesis using out convert_rows [OF out] by (simp add: raw)
qed

lemma named_strategy_returns:
  assumes "rng_ok g" and "pol_flavours pol \<noteq> []" and "\<forall>req\<in>set (sn_requests sc). in_horizon pol req"
    and "0 \<le> pol_total_slots pol"
  shows "if name \<in> {''greedy_cheapest'', ''bandit'', ''ant_colony''}
    then \<exists>per_req timings sm. run_named_strategy g name sc pol d rt speed = Some (per_req, timings, sm)
       \<and> map pr_request_id per_req = map sq_request_id (by_arrival (sn_requests sc))
       \<and> list_all2 (\<lambda>req s. s \<in> set (candidate_slots pol req)) (by_arrival (sn_requests sc)) (map pr_scheduled_slot per_req)
    else run_named_strategy g name sc pol d rt speed = None"
proof -
  let ?reqs = "by_arrival (sn_requests sc)" and ?fc = "sn_carbon_forecast sc"
  obtain fb where fb: "sorted_flavours_and_fallback (pol_flavours pol) = Some (sort_key fl_duration (pol_flavours pol), fb)"
    "min_by_key fl_error (pol_flavours pol) = Some fb" by (rule fallback_exists [OF assms(2)])
  have greedy: "\<exists>per_req timings sm. run_greedy_cheapest sc pol d rt speed = Some (per_req, timings, sm)
       \<and> map pr_request_id per_req = map sq_request_id ?reqs
       \<and> list_all2 (\<lambda>req s. s \<in> set (candidate_slots pol req)) ?reqs (map pr_scheduled_slot per_req)"
  proof -
    let ?rows = "cheapest_loop pol ?fc d (sort_key fl_duration (pol_flavours pol)) fb no_decisions 0 ?reqs"
    have "length ?rows = length ?reqs" using cheapest_loop_best [of 0 ?reqs pol ?fc d "sort_key fl_duration (pol_flavours pol)" fb no_decisions 0]
      by (cases "?reqs = []") auto
    moreover have "pr_request_id (fst (?rows ! k)) = sq_request_id (?reqs ! k)"
      "pr_scheduled_slot (fst (?rows ! k)) \<in> set (candidate_slots pol (?reqs ! k))" if "k < length ?reqs" for k
      using cheapest_loop_best [OF that, of pol ?fc d "sort_key fl_duration (pol_flavours pol)" fb no_decisions 0]
      by (blast, blast intro: best_placement_candidate)
    ultimately show ?thesis
      by (auto simp: run_greedy_cheapest_def fb Let_def list_all2_conv_all_nth intro!: nth_equalityI)
  qed
  show ?thesis
  proof (cases "name = ''greedy_cheapest''")
    case True
    then show ?thesis using greedy by (simp add: run_named_strategy_def)
  next
    case False
    show ?thesis
    proof (cases "name \<in> {''bandit'', ''ant_colony''}")
      case True
      then show ?thesis using swarm_strategy_rows [OF assms True, of d rt speed] by auto
    next
      case other: False
      then show ?thesis using False by (simp add: run_named_strategy_def)
    qed
  qed
qed

text \<open>
  C22: The offline strategies return. With a flavour, a generator that keeps its promises and all
  arrivals within the horizon, each of the three strategies produces a report without panicking; it
  has one row per request, in the order of arrival, and each request is placed at its arrival or
  within its deadline, its window and the horizon. Another name panics.
\<close>

theorem offline_strategies_return:
  assumes "rng_ok g" and "pol_flavours pol \<noteq> []" and "\<forall>req\<in>set (sn_requests sc). in_horizon pol req"
    and "0 \<le> pol_total_slots pol"
  shows "if name \<in> {''greedy_cheapest'', ''bandit'', ''ant_colony''}
    then \<exists>per_req timings sm. run_named_strategy g name sc pol d rt speed = Some (per_req, timings, sm)
       \<and> map pr_request_id per_req = map sq_request_id (by_arrival (sn_requests sc))
       \<and> list_all2 (\<lambda>req s. s \<in> set (candidate_slots pol req)) (by_arrival (sn_requests sc)) (map pr_scheduled_slot per_req)
    else run_named_strategy g name sc pol d rt speed = None"
  using assms by (rule named_strategy_returns)

text \<open>
  What the offline swarm strategies report of a late request. A request whose deadline lies
  before its arrival is placed after its deadline, but its row shows no lateness and the summary
  counts no late request, while the greedy strategy, compared in the same tables, reports it late.
\<close>

theorem offline_swarm_hides_lateness:
  assumes "rng_ok g" and "pol_flavours pol \<noteq> []" and "\<forall>req\<in>set (sn_requests sc). in_horizon pol req"
    and "0 \<le> pol_total_slots pol" and "name \<in> {''bandit'', ''ant_colony''}"
    and "req \<in> set (sn_requests sc)" and "sq_deadline_slot req < sq_arrival_slot req"
  shows "\<exists>per_req timings sm pr. run_named_strategy g name sc pol d rt speed = Some (per_req, timings, sm)
    \<and> pr \<in> set per_req \<and> pr_request_id pr = sq_request_id req \<and> sq_deadline_slot req < pr_scheduled_slot pr
    \<and> pr_lateness_slots pr = 0 \<and> rs_requests_late sm = 0"
proof -
  obtain per_req timings sm where run: "run_named_strategy g name sc pol d rt speed = Some (per_req, timings, sm)"
    and ids: "map pr_request_id per_req = map sq_request_id (by_arrival (sn_requests sc))"
    and slots: "list_all2 (\<lambda>req s. s \<in> set (candidate_slots pol req)) (by_arrival (sn_requests sc)) (map pr_scheduled_slot per_req)"
    and late: "\<forall>pr\<in>set per_req. pr_lateness_slots pr = 0" "rs_requests_late sm = 0"
    using swarm_strategy_rows [OF assms(1-5)] by blast
  have "req \<in> set (by_arrival (sn_requests sc))" using assms(6) by (simp add: by_arrival_def)
  then obtain k where k: "k < length (by_arrival (sn_requests sc))" "by_arrival (sn_requests sc) ! k = req"
    by (auto simp: in_set_conv_nth)
  have len: "length per_req = length (by_arrival (sn_requests sc))" using ids by (metis length_map)
  have "pr_request_id (per_req ! k) = sq_request_id req" using ids k len by (metis nth_map)
  moreover have "pr_scheduled_slot (per_req ! k) \<in> set (candidate_slots pol req)"
    using slots k len by (auto simp: list_all2_conv_all_nth)
  then have "sq_deadline_slot req < pr_scheduled_slot (per_req ! k)" using assms(7) by (simp add: candidate_slots_def)
  moreover have "per_req ! k \<in> set per_req" using k len by simp
  ultimately show ?thesis using run late by blast
qed

lemma greedy_reports_late:
  assumes "cheapest_choice pol forecast fs fb w req = (c, s, f)" and "sq_deadline_slot req < s"
    and "in_i32 (s - sq_deadline_slot req)"
  shows "0 < pr_lateness_slots (fst (hd (cheapest_loop pol forecast d fs fb w seq (req # reqs))))"
  using assms by (simp add: Let_def decided_report_def i32_sub_exact)

text \<open>An arrival beyond the horizon: the bandit and the colony panic, where the greedy strategy places it on arrival.\<close>

lemma offline_bandit_panics_beyond_horizon:
  assumes "rng_ok g" and "length (fst qn) = nat (pol_total_slots pol)" and "length (snd qn) = nat (pol_total_slots pol)"
    and "0 \<le> pol_total_slots pol" and "pol_total_slots pol \<le> sq_arrival_slot req" and "pol_total_slots pol \<le> 2147483647"
  shows "offline_bandit_loop g epsilon pol forecast fs fb (req # reqs) w qn r = None"
proof -
  have "i32_sub (pol_total_slots pol) 1 = pol_total_slots pol - 1"
    using assms(4,6) by (intro i32_sub_exact) (simp add: in_i32_def)
  then have "candidate_slots pol req = [sq_arrival_slot req]"
    using assms(5) by (simp add: candidate_slots_def valid_slots_def last_valid_slot_def)
  moreover have "get_at (snd qn) (sq_arrival_slot req) = None" using assms(3-5) by (auto simp: get_at_def)
  then have "learn_cost (sq_arrival_slot req) c qn = None" for c by (simp add: learn_cost_def case_prod_unfold)
  moreover have "offline_bandit_slot g epsilon (fst qn) [sq_arrival_slot req] r = (x, r') \<Longrightarrow> x = None \<or> x = Some (sq_arrival_slot req)" for x r'
    by (auto simp: offline_bandit_slot_def least_q_slot_def Let_def split: prod.splits if_splits)
  ultimately show ?thesis
    by (cases "offline_bandit_slot g epsilon (fst qn) [sq_arrival_slot req] r") (auto simp: Let_def split: option.split prod.split)
qed

definition sample_rng :: "nat rng" where
  "sample_rng = \<lparr>rng_unit = \<lambda>r. (0, r), rng_below = \<lambda>n r. (r mod n, r + 1), rng_seed = \<lambda>s. s\<rparr>"

lemma sample_rng_ok: "rng_ok sample_rng"
  by (simp add: rng_ok_def sample_rng_def)

lemma sample_strategy_setting:
  "pol_flavours (assignment_policy_of config_default) \<noteq> []" "pol_total_slots (assignment_policy_of config_default) = 24"
  by (simp_all add: assignment_policy_of_def config_default_def)

lemma offline_strategies_return_witness:
  "\<exists>per_req timings sm. run_named_strategy sample_rng ''ant_colony'' (sample_scenario [sample_scenario_request 7 1 2] [1, 9, 5])
       (assignment_policy_of config_default) 10 False 1 = Some (per_req, timings, sm)
     \<and> map pr_request_id per_req = [7]"
proof -
  have "in_horizon (assignment_policy_of config_default) (sample_scenario_request 7 1 2)"
    using sample_strategy_setting(2) by (simp add: in_horizon_def sample_scenario_request_def)
  moreover have "by_arrival [sample_scenario_request 7 1 2] = [sample_scenario_request 7 1 2]" by (simp add: by_arrival_def)
  ultimately show ?thesis
    using offline_strategies_return [OF sample_rng_ok sample_strategy_setting(1),
        of "sample_scenario [sample_scenario_request 7 1 2] [1, 9, 5]" "''ant_colony''" 10 False 1] sample_strategy_setting(2)
    by (auto simp: sample_scenario_def sample_scenario_request_def)
qed

lemma offline_swarm_hides_lateness_witness:
  "\<exists>per_req timings sm pr. run_named_strategy sample_rng ''bandit'' (sample_scenario [sample_scenario_request 7 5 2] [1, 9, 5])
       (assignment_policy_of config_default) 10 False 1 = Some (per_req, timings, sm)
     \<and> pr \<in> set per_req \<and> pr_request_id pr = 7 \<and> 2 < pr_scheduled_slot pr \<and> pr_lateness_slots pr = 0 \<and> rs_requests_late sm = 0"
proof -
  have "in_horizon (assignment_policy_of config_default) (sample_scenario_request 7 5 2)"
    using sample_strategy_setting(2) by (simp add: in_horizon_def sample_scenario_request_def)
  then show ?thesis
    using offline_swarm_hides_lateness [OF sample_rng_ok sample_strategy_setting(1),
        of "sample_scenario [sample_scenario_request 7 5 2] [1, 9, 5]" "''bandit''" "sample_scenario_request 7 5 2" 10 False 1]
      sample_strategy_setting(2)
    by (simp add: sample_scenario_def sample_scenario_request_def)
qed

end
