(* ===== verification/Metrics_Log.thy ===== *)
theory Metrics_Log
  imports Evaluation
begin

text \<open>
  The metrics log (\<open>engine/metrics_logger.rs\<close>, the rows of \<open>engine/scheduler.rs\<close>) and its readers in
  the benchmark (\<open>bin/nshift/main.rs\<close>). A CSV file is its header and its records: quoting and
  buffering are the csv crate's. Integers are printed and parsed as the standard library does; the
  text of a float is a parameter, whose law, that a printed value is parsed back, is assumed for the
  values that are logged.
\<close>

section \<open>Numbers as text\<close>

definition digit_char :: "nat \<Rightarrow> char" where
  "digit_char d = char_of (48 + d)"

fun show_nat :: "nat \<Rightarrow> string" where
  "show_nat n = (if n < 10 then [digit_char n] else show_nat (n div 10) @ [digit_char (n mod 10)])"

declare show_nat.simps [simp del]

definition show_int :: "int \<Rightarrow> string" where
  "show_int i = (if i < 0 then CHR ''-'' # show_nat (nat (- i)) else show_nat (nat i))"

fun parse_digits :: "nat \<Rightarrow> string \<Rightarrow> nat option" where
  "parse_digits acc [] = Some acc"
| "parse_digits acc (c # cs) =
     (let d = (of_char c :: nat)
      in if 48 \<le> d \<and> d \<le> 57 then parse_digits (10 * acc + (d - 48)) cs else None)"

definition parse_nat :: "string \<Rightarrow> nat option" where
  "parse_nat s = (if s = [] then None else parse_digits 0 s)"

definition in_i64 :: "int \<Rightarrow> bool" where
  "in_i64 x \<longleftrightarrow> -9223372036854775808 \<le> x \<and> x \<le> 9223372036854775807"

text \<open>\<open>str::parse::<i64>()\<close>: an optional sign, at least one digit, and a value that fits.\<close>

definition parse_signed :: "string \<Rightarrow> int option" where
  "parse_signed s =
     (case s of
        [] \<Rightarrow> None
      | c # cs \<Rightarrow>
         (if c = CHR ''-'' then map_option (\<lambda>n. - int n) (parse_nat cs)
          else if c = CHR ''+'' then map_option int (parse_nat cs)
          else map_option int (parse_nat s)))"

definition parse_i64 :: "string \<Rightarrow> int option" where
  "parse_i64 s = (case parse_signed s of Some x \<Rightarrow> if in_i64 x then Some x else None | None \<Rightarrow> None)"

definition show_bool :: "bool \<Rightarrow> string" where
  "show_bool b = (if b then ''true'' else ''false'')"

record f64_text =
  ft_show :: "f64 \<Rightarrow> string"
  ft_parse :: "string \<Rightarrow> f64 option"

definition text_ok :: "f64_text \<Rightarrow> f64 set \<Rightarrow> bool" where
  "text_ok t xs \<longleftrightarrow> (\<forall>x\<in>xs. ft_parse t (ft_show t x) = Some x)"

section \<open>Files\<close>

type_synonym row = "(string, string) hmap"

text \<open>The lines of a file, the header first. A file that does not exist is \<open>None\<close>.\<close>

type_synonym csv_file = "string list list"

definition run_fields :: "string list" where
  "run_fields =
     [''run_id'', ''run_sequence'', ''current_slot'', ''pending_batch_size'', ''total_assignments'',
      ''new_assignments'', ''replanned_assignments'', ''solver_status'', ''solver_mode'',
      ''lock_future_assignments'', ''solver_start_ts'', ''solver_end_ts'', ''solver_elapsed_ms'',
      ''avg_ms_per_new_request'', ''avg_ms_per_assignment'', ''total_carbon_cost'',
      ''carbon_cost_per_new_request'', ''carbon_cost_per_assignment'', ''error_window_avg_after'',
      ''error_window_avg_after_real'', ''error_window_start_slot'', ''error_window_end_slot'',
      ''error_window_threshold'', ''error_window_violated_after'', ''error_window_violated_after_real'',
      ''batches_processed_after'', ''total_scheduled_after'', ''global_error_before'',
      ''global_error_count_before'', ''global_error_constraint_active'', ''qos_profile_id'',
      ''profile_error_before'', ''profile_error_count_before'', ''profile_error_constraint_active'']"

definition assignment_fields :: "string list" where
  "assignment_fields =
     [''run_id'', ''current_slot'', ''solver_start_ts'', ''solver_end_ts'', ''request_id'',
      ''qos_profile_id'', ''is_pending_request'', ''is_new_assignment_in_run'', ''scheduled_slot'',
      ''flavour_name'', ''flavour_duration_sec'', ''error'', ''carbon_cost'', ''arrival_slot'',
      ''deadline_slot'']"

definition slot_metric_fields :: "string list" where
  "slot_metric_fields =
     [''run_id'', ''current_slot'', ''scheduled_slot'', ''run_slot_count'', ''total_slot_count_after'',
      ''avg_error_in_slot'', ''run_avg_error_in_slot'', ''slot_has_assignments_after'',
      ''carbon_intensity'', ''capacity_multiplier_after'', ''capacity_level_max_requests'',
      ''request_ids'', ''flavour_breakdown'']"

definition infeasible_debug_fields :: "string list" where
  "infeasible_debug_fields =
     [''event_id'', ''timestamp'', ''current_slot'', ''pending_batch_size'', ''pending_request_details'',
      ''strict_threshold'', ''baseline_error_sum'', ''baseline_request_count'', ''baseline_average_error'',
      ''min_flavour_error'', ''max_flavour_error'', ''min_possible_avg_error_pending_only'',
      ''max_possible_avg_error_pending_only'', ''strict_infeasible_by_error_bound'',
      ''strict_scheduled_pending_count'', ''relaxed_scheduled_pending_count'', ''relaxed_success'',
      ''lock_future_assignments'', ''future_assignment_count'', ''future_slot_counts'',
      ''future_assignment_details'', ''all_active_slot_counts'']"

definition field_text :: "row \<Rightarrow> string \<Rightarrow> string" where
  "field_text r f = (case map_of r f of Some v \<Rightarrow> v | None \<Rightarrow> [])"

text \<open>A file that is missing or has another header is replaced; the old one is kept under another name.\<close>

definition ensure_header :: "string list \<Rightarrow> csv_file option \<Rightarrow> csv_file option" where
  "ensure_header cols f =
     (case f of
        Some (h # recs) \<Rightarrow> if h = cols then f else Some [cols]
      | _ \<Rightarrow> Some [cols])"

text \<open>The file is opened for appending, and created without a header if it is missing.\<close>

definition append_rows :: "string list \<Rightarrow> row list \<Rightarrow> csv_file option \<Rightarrow> csv_file option" where
  "append_rows cols rows f =
     (if rows = [] then f
      else Some ((case f of Some l \<Rightarrow> l | None \<Rightarrow> []) @ map (\<lambda>r. map (field_text r) cols) rows))"

record metrics_log =
  mlg_enabled :: bool
  mlg_runs :: "csv_file option"
  mlg_assignments :: "csv_file option"
  mlg_slot_metrics :: "csv_file option"
  mlg_debug_path :: bool
  mlg_infeasible_debug :: "csv_file option"

definition metrics_logger_new :: "metrics_log \<Rightarrow> metrics_log" where
  "metrics_logger_new files =
     (if mlg_enabled files
      then files\<lparr>mlg_runs := ensure_header run_fields (mlg_runs files),
             mlg_assignments := ensure_header assignment_fields (mlg_assignments files),
             mlg_slot_metrics := ensure_header slot_metric_fields (mlg_slot_metrics files),
             mlg_infeasible_debug :=
               (if mlg_debug_path files then ensure_header infeasible_debug_fields (mlg_infeasible_debug files)
                else mlg_infeasible_debug files)\<rparr>
      else files)"

definition run_id_from_data :: "nat \<Rightarrow> row \<Rightarrow> string" where
  "run_id_from_data ts data =
     (let s = (case map_of data ''current_slot'' of Some v \<Rightarrow> v | None \<Rightarrow> ''0'');
          n = (case map_of data ''run_sequence'' of Some v \<Rightarrow> v | None \<Rightarrow> ''0'')
      in ''run_s'' @ s @ ''_n'' @ n @ ''_'' @ show_nat ts)"

definition log_solver_run :: "nat \<Rightarrow> row \<Rightarrow> row list \<Rightarrow> row list \<Rightarrow> metrics_log \<Rightarrow> string \<times> metrics_log" where
  "log_solver_run ts run_data assignment_rows slot_rows ml =
     (if \<not> mlg_enabled ml then ([], ml)
      else let run_id = run_id_from_data ts run_data
           in (run_id, ml\<lparr>mlg_runs := append_rows run_fields [hm_insert ''run_id'' run_id run_data] (mlg_runs ml),
                 mlg_assignments := append_rows assignment_fields
                   (map (hm_insert ''run_id'' run_id) assignment_rows) (mlg_assignments ml),
                 mlg_slot_metrics := append_rows slot_metric_fields
                   (map (hm_insert ''run_id'' run_id) slot_rows) (mlg_slot_metrics ml)\<rparr>))"

definition log_infeasible_debug :: "nat \<Rightarrow> nat \<Rightarrow> row \<Rightarrow> metrics_log \<Rightarrow> string \<times> metrics_log" where
  "log_infeasible_debug ts ts' event_data ml =
     (if \<not> mlg_enabled ml \<or> \<not> mlg_debug_path ml then ([], ml)
      else let event_id = ''inf_'' @ show_nat ts
           in (event_id, ml\<lparr>mlg_infeasible_debug := append_rows infeasible_debug_fields
                 [hm_insert ''timestamp'' (show_nat ts') (hm_insert ''event_id'' event_id event_data)]
                 (mlg_infeasible_debug ml)\<rparr>))"

section \<open>The rows the workers log\<close>

definition build_assignment_row :: "f64_text \<Rightarrow> request_id set \<Rightarrow> request_id set \<Rightarrow> slot \<Rightarrow> f64 \<Rightarrow> f64 \<Rightarrow> assignment \<Rightarrow> row" where
  "build_assignment_row t new_ids pending_ids current_slot start_ts end_ts a =
     [(''current_slot'', show_int current_slot),
      (''solver_start_ts'', ft_show t start_ts),
      (''solver_end_ts'', ft_show t end_ts),
      (''request_id'', show_nat (as_request_id a)),
      (''qos_profile_id'', pid_str (as_qos_profile_id a)),
      (''is_pending_request'', show_bool (as_request_id a \<in> pending_ids)),
      (''is_new_assignment_in_run'', show_bool (as_request_id a \<in> new_ids)),
      (''scheduled_slot'', show_int (as_scheduled_slot a)),
      (''flavour_name'', as_flavour_name a),
      (''flavour_duration_sec'', ft_show t (as_flavour_duration a)),
      (''error'', ft_show t (as_error a)),
      (''carbon_cost'', ft_show t (as_carbon_cost a)),
      (''arrival_slot'', case as_arrival_slot a of Some s \<Rightarrow> show_int s | None \<Rightarrow> []),
      (''deadline_slot'', case as_deadline_slot a of Some s \<Rightarrow> show_int s | None \<Rightarrow> [])]"

definition build_assignment_rows ::
    "f64_text \<Rightarrow> assignment list \<Rightarrow> request_id set \<Rightarrow> request_id set \<Rightarrow> slot \<Rightarrow> f64 \<Rightarrow> f64 \<Rightarrow> row list" where
  "build_assignment_rows t as new_ids pending_ids current_slot start_ts end_ts =
     map (build_assignment_row t new_ids pending_ids current_slot start_ts end_ts)
       (sort_key (\<lambda>a. (as_scheduled_slot a, as_request_id a)) as)"

record run_figures =
  rf_run_sequence :: nat
  rf_slot :: slot
  rf_new_count :: nat
  rf_total_count :: nat
  rf_replanned :: nat
  rf_status :: string
  rf_mode :: string
  rf_profile_id :: qos_profile_id
  rf_consecutive_rollbacks :: nat
  rf_lock_future :: bool
  rf_wall_start :: f64
  rf_wall_end :: f64
  rf_elapsed_ms :: f64
  rf_total_cost :: f64
  rf_modeled_avg :: f64
  rf_real_avg :: f64
  rf_window_start :: slot
  rf_window_end :: slot
  rf_threshold :: f64
  rf_batches_processed :: nat
  rf_total_scheduled :: nat
  rf_global_error_before :: f64
  rf_global_error_count_before :: nat
  rf_profile_error_before :: f64
  rf_profile_error_count_before :: nat
  rf_profile_constraint_active :: bool

definition batch_run_row :: "f64_text \<Rightarrow> run_figures \<Rightarrow> row" where
  "batch_run_row t m =
     [(''run_sequence'', show_nat (rf_run_sequence m)),
      (''current_slot'', show_int (rf_slot m)),
      (''pending_batch_size'', show_nat (rf_new_count m)),
      (''total_assignments'', show_nat (rf_total_count m)),
      (''new_assignments'', show_nat (rf_new_count m)),
      (''replanned_assignments'', show_nat (rf_replanned m)),
      (''solver_status'', rf_status m),
      (''solver_mode'', rf_mode m),
      (''qos_profile_id'', pid_str (rf_profile_id m)),
      (''consecutive_rollbacks'', show_nat (rf_consecutive_rollbacks m)),
      (''lock_future_assignments'', show_bool (rf_lock_future m)),
      (''solver_start_ts'', ft_show t (rf_wall_start m)),
      (''solver_end_ts'', ft_show t (rf_wall_end m)),
      (''solver_elapsed_ms'', ft_show t (rf_elapsed_ms m)),
      (''avg_ms_per_new_request'', ft_show t (avg_or_zero (rf_elapsed_ms m) (rf_new_count m))),
      (''avg_ms_per_assignment'', ft_show t (avg_or_zero (rf_elapsed_ms m) (rf_total_count m))),
      (''total_carbon_cost'', ft_show t (rf_total_cost m)),
      (''carbon_cost_per_new_request'', ft_show t (avg_or_zero (rf_total_cost m) (rf_new_count m))),
      (''carbon_cost_per_assignment'', ft_show t (avg_or_zero (rf_total_cost m) (rf_total_count m))),
      (''error_window_avg_after'', ft_show t (rf_modeled_avg m)),
      (''error_window_avg_after_real'', ft_show t (rf_real_avg m)),
      (''error_window_start_slot'', show_int (rf_window_start m)),
      (''error_window_end_slot'', show_int (rf_window_end m)),
      (''error_window_threshold'', ft_show t (rf_threshold m)),
      (''error_window_violated_after'', show_bool (rf_threshold m < rf_modeled_avg m)),
      (''error_window_violated_after_real'', show_bool (rf_threshold m < rf_real_avg m)),
      (''batches_processed_after'', show_nat (rf_batches_processed m)),
      (''total_scheduled_after'', show_nat (rf_total_scheduled m)),
      (''global_error_before'', ft_show t (rf_global_error_before m)),
      (''global_error_count_before'', show_nat (rf_global_error_count_before m)),
      (''profile_error_before'', ft_show t (rf_profile_error_before m)),
      (''profile_error_count_before'', show_nat (rf_profile_error_count_before m)),
      (''global_error_constraint_active'', ''false''),
      (''profile_error_constraint_active'', show_bool (rf_profile_constraint_active m))]"

definition swarm_run_row :: "f64_text \<Rightarrow> nat \<Rightarrow> slot \<Rightarrow> assignment list \<Rightarrow> f64 \<Rightarrow> string \<Rightarrow> row" where
  "swarm_run_row t run_sequence s as elapsed_ms strategy =
     [(''run_sequence'', show_nat run_sequence),
      (''current_slot'', show_int s),
      (''pending_batch_size'', show_nat (length as)),
      (''new_assignments'', show_nat (length as)),
      (''total_assignments'', show_nat (length as))]
     @ (case as of [] \<Rightarrow> [] | a # _ \<Rightarrow> [(''qos_profile_id'', pid_str (as_qos_profile_id a))])
     @ [(''solver_elapsed_ms'', ft_show t elapsed_ms),
        (''total_carbon_cost'', ft_show t (sum_list (map as_carbon_cost as))),
        (''solver_mode'', strategy),
        (''solver_status'', ''ok'')]"

section \<open>The readers\<close>

fun column_of :: "string \<Rightarrow> string list \<Rightarrow> nat option" where
  "column_of name [] = None"
| "column_of name (h # hs) = (if h = name then Some 0 else map_option Suc (column_of name hs))"

definition cell :: "string list \<Rightarrow> string list \<Rightarrow> string \<Rightarrow> string" where
  "cell header rec name =
     (case column_of name header of
        None \<Rightarrow> []
      | Some j \<Rightarrow> if j < length rec then rec ! j else [])"

definition cell_f64 :: "f64_text \<Rightarrow> string list \<Rightarrow> string list \<Rightarrow> string \<Rightarrow> f64" where
  "cell_f64 t header rec name = (case ft_parse t (cell header rec name) of Some x \<Rightarrow> x | None \<Rightarrow> 0)"

definition cell_i64 :: "string list \<Rightarrow> string list \<Rightarrow> string \<Rightarrow> int" where
  "cell_i64 header rec name = (case parse_i64 (cell header rec name) of Some x \<Rightarrow> x | None \<Rightarrow> 0)"

definition as_u64 :: "int \<Rightarrow> nat" where
  "as_u64 x = nat (x mod 2 ^ 64)"

definition read_run :: "f64_text \<Rightarrow> string list \<Rightarrow> string list \<Rightarrow> solver_run_row" where
  "read_run t header rec =
     \<lparr>sr_run_id = cell header rec ''run_id'',
      sr_run_sequence = as_u64 (cell_i64 header rec ''run_sequence''),
      sr_current_slot = wrap32 (cell_i64 header rec ''current_slot''),
      sr_pending_batch_size = as_u64 (cell_i64 header rec ''pending_batch_size''),
      sr_new_assignments = as_u64 (cell_i64 header rec ''new_assignments''),
      sr_solver_elapsed_ms = cell_f64 t header rec ''solver_elapsed_ms'',
      sr_solver_status = cell header rec ''solver_status'',
      sr_solver_mode = cell header rec ''solver_mode''\<rparr>"

definition read_assignment :: "f64_text \<Rightarrow> string list \<Rightarrow> string list \<Rightarrow> assignment_row" where
  "read_assignment t header rec =
     (let is_new = to_ascii_lowercase (cell header rec ''is_new_assignment_in_run'')
      in \<lparr>ar_run_id = cell header rec ''run_id'',
          ar_request_id = as_u64 (cell_i64 header rec ''request_id''),
          ar_current_slot = wrap32 (cell_i64 header rec ''current_slot''),
          ar_is_new_assignment_in_run = (is_new = ''true'' \<or> is_new = ''1''),
          ar_scheduled_slot = wrap32 (cell_i64 header rec ''scheduled_slot''),
          ar_flavour_name = cell header rec ''flavour_name'',
          ar_error = cell_f64 t header rec ''error'',
          ar_carbon_cost = cell_f64 t header rec ''carbon_cost'',
          ar_arrival_slot = wrap32 (cell_i64 header rec ''arrival_slot''),
          ar_deadline_slot = wrap32 (cell_i64 header rec ''deadline_slot'')\<rparr>)"

text \<open>A record whose length differs from the header's is an error of the reader and skipped.\<close>

definition readable_records :: "csv_file option \<Rightarrow> string list list" where
  "readable_records f =
     (case f of Some (h # recs) \<Rightarrow> filter (\<lambda>rec. length rec = length h) recs | _ \<Rightarrow> [])"

definition csv_headers :: "csv_file option \<Rightarrow> string list" where
  "csv_headers f = (case f of Some (h # recs) \<Rightarrow> h | _ \<Rightarrow> [])"

definition read_solver_runs :: "f64_text \<Rightarrow> csv_file option \<Rightarrow> solver_run_row list" where
  "read_solver_runs t f = map (read_run t (csv_headers f)) (readable_records f)"

definition read_solver_assignments :: "f64_text \<Rightarrow> csv_file option \<Rightarrow> assignment_row list" where
  "read_solver_assignments t f = map (read_assignment t (csv_headers f)) (readable_records f)"

section \<open>Printing and parsing\<close>

lemma digit_char_value: "d < 10 \<Longrightarrow> (of_char (digit_char d) :: nat) = 48 + d"
  by (simp add: digit_char_def)

lemma parse_digits_append:
  "parse_digits acc (xs @ ys) = (case parse_digits acc xs of None \<Rightarrow> None | Some a \<Rightarrow> parse_digits a ys)"
  by (induction xs arbitrary: acc) (simp_all add: Let_def)

lemma parse_digits_show: "parse_digits 0 (show_nat n) = Some n"
proof (induction n rule: show_nat.induct)
  case (1 n)
  show ?case
  proof (cases "n < 10")
    case True
    then show ?thesis by (simp add: show_nat.simps digit_char_value Let_def)
  next
    case False
    then have "parse_digits 0 (show_nat (n div 10)) = Some (n div 10)" using 1 by simp
    then show ?thesis using False by (simp add: show_nat.simps [of n] parse_digits_append digit_char_value Let_def)
  qed
qed

lemma show_nat_digits: "c \<in> set (show_nat n) \<Longrightarrow> 48 \<le> (of_char c :: nat) \<and> (of_char c :: nat) \<le> 57"
proof (induction n rule: show_nat.induct)
  case (1 n)
  then show ?case by (cases "n < 10") (auto simp: show_nat.simps [of n] digit_char_value)
qed

lemma show_nat_nonempty [simp]: "show_nat n \<noteq> []"
  by (simp add: show_nat.simps [of n])

lemma parse_nat_show [simp]: "parse_nat (show_nat n) = Some n"
  by (simp add: parse_nat_def parse_digits_show)

lemma show_nat_unsigned: "show_nat n = c # cs \<Longrightarrow> c \<noteq> CHR ''-'' \<and> c \<noteq> CHR ''+''"
  using show_nat_digits [of c n] by auto

lemma parse_signed_show [simp]: "parse_signed (show_nat n) = Some (int n)" "parse_signed (show_int i) = Some i"
proof -
  show n: "parse_signed (show_nat n) = Some (int n)" for n
    using show_nat_unsigned [of n] parse_nat_show [of n] by (cases "show_nat n") (auto simp: parse_signed_def)
  show "parse_signed (show_int i) = Some i" by (auto simp: show_int_def n) (simp add: parse_signed_def)
qed

lemma parse_i64_show:
  "in_i64 i \<Longrightarrow> parse_i64 (show_int i) = Some i" "n < 2 ^ 63 \<Longrightarrow> parse_i64 (show_nat n) = Some (int n)"
  by (simp_all add: parse_i64_def in_i64_def)

lemma as_u64_int: "n < 2 ^ 63 \<Longrightarrow> as_u64 (int n) = n"
  by (simp add: as_u64_def)

lemma in_i32_i64: "in_i32 x \<Longrightarrow> in_i64 x"
  by (simp add: in_i32_def in_i64_def)

lemma bool_reads_back: "to_ascii_lowercase (show_bool b) = ''true'' \<or> to_ascii_lowercase (show_bool b) = ''1'' \<longleftrightarrow> b"
  by (simp add: show_bool_def to_ascii_lowercase_def ascii_lower_char_def Let_def)

section \<open>Cells\<close>

lemma cell_of_row: "name \<in> set cols \<Longrightarrow> cell cols (map (field_text r) cols) name = field_text r name"
proof -
  assume "name \<in> set cols"
  then have "\<exists>j. column_of name cols = Some j \<and> j < length cols \<and> cols ! j = name"
    by (induction cols) auto
  then show ?thesis by (auto simp: cell_def)
qed

lemma field_text_insert: "field_text (hm_insert k v r) f = (if f = k then v else field_text r f)"
  by (simp add: field_text_def map_simps)

datatype logged_run = Batch_run run_figures | Swarm_run nat slot f64 string

text \<open>What one commit hands to the log.\<close>

record logged_commit =
  lc_ts :: nat
  lc_run :: logged_run
  lc_assignments :: "assignment list"
  lc_pending_ids :: "request_id set"
  lc_slot :: slot
  lc_start_ts :: f64
  lc_end_ts :: f64

definition commit_row :: "f64_text \<Rightarrow> logged_commit \<Rightarrow> row" where
  "commit_row t c =
     (case lc_run c of
        Batch_run m \<Rightarrow> batch_run_row t m
      | Swarm_run n s elapsed strategy \<Rightarrow> swarm_run_row t n s (lc_assignments c) elapsed strategy)"

definition log_commit :: "f64_text \<Rightarrow> logged_commit \<Rightarrow> metrics_log \<Rightarrow> metrics_log" where
  "log_commit t c ml =
     (if \<not> mlg_enabled ml then ml
      else snd (log_solver_run (lc_ts c) (commit_row t c)
             (build_assignment_rows t (lc_assignments c) (lc_pending_ids c) (lc_pending_ids c)
                (lc_slot c) (lc_start_ts c) (lc_end_ts c)) [] ml))"

fun run_sequence_of :: "logged_run \<Rightarrow> nat" where
  "run_sequence_of (Batch_run m) = rf_run_sequence m"
| "run_sequence_of (Swarm_run n s elapsed strategy) = n"

fun run_slot_of :: "logged_run \<Rightarrow> slot" where
  "run_slot_of (Batch_run m) = rf_slot m"
| "run_slot_of (Swarm_run n s elapsed strategy) = s"

fun run_elapsed_of :: "logged_run \<Rightarrow> f64" where
  "run_elapsed_of (Batch_run m) = rf_elapsed_ms m"
| "run_elapsed_of (Swarm_run n s elapsed strategy) = elapsed"

fun run_mode_of :: "logged_run \<Rightarrow> string" where
  "run_mode_of (Batch_run m) = rf_mode m"
| "run_mode_of (Swarm_run n s elapsed strategy) = strategy"

definition commit_size :: "logged_commit \<Rightarrow> nat" where
  "commit_size c = (case lc_run c of Batch_run m \<Rightarrow> rf_new_count m | Swarm_run n s elapsed strategy \<Rightarrow> length (lc_assignments c))"

definition commit_status :: "logged_commit \<Rightarrow> string" where
  "commit_status c = (case lc_run c of Batch_run m \<Rightarrow> rf_status m | Swarm_run n s elapsed strategy \<Rightarrow> ''ok'')"

definition commit_id :: "logged_commit \<Rightarrow> string" where
  "commit_id c = ''run_s'' @ show_int (run_slot_of (lc_run c)) @ ''_n'' @ show_nat (run_sequence_of (lc_run c)) @ ''_'' @ show_nat (lc_ts c)"

lemma commit_row_fields:
  "map_of (commit_row t c) ''run_sequence'' = Some (show_nat (run_sequence_of (lc_run c)))"
  "map_of (commit_row t c) ''current_slot'' = Some (show_int (run_slot_of (lc_run c)))"
  "map_of (commit_row t c) ''pending_batch_size'' = Some (show_nat (commit_size c))"
  "map_of (commit_row t c) ''new_assignments'' = Some (show_nat (commit_size c))"
  "map_of (commit_row t c) ''solver_elapsed_ms'' = Some (ft_show t (run_elapsed_of (lc_run c)))"
  "map_of (commit_row t c) ''solver_status'' = Some (commit_status c)"
  "map_of (commit_row t c) ''solver_mode'' = Some (run_mode_of (lc_run c))"
  by (simp_all add: commit_row_def commit_size_def commit_status_def batch_run_row_def swarm_run_row_def
      split: logged_run.split list.split)

lemma run_id_of_commit: "run_id_from_data (lc_ts c) (commit_row t c) = commit_id c"
  by (simp add: run_id_from_data_def commit_row_fields commit_id_def)

text \<open>The identifier of a run determines its sequence number: neither number contains an underscore.\<close>

lemma show_int_no_underscore: "c \<in> set (show_int i) \<Longrightarrow> c \<noteq> CHR ''_''"
  using show_nat_digits [of c] by (auto simp: show_int_def split: if_splits)

lemma show_nat_no_underscore: "c \<in> set (show_nat n) \<Longrightarrow> c \<noteq> CHR ''_''"
  using show_nat_digits [of c n] by auto

lemma commit_id_inj: "commit_id c = commit_id c' \<Longrightarrow> run_sequence_of (lc_run c) = run_sequence_of (lc_run c')"
proof -
  define rest where "rest = (\<lambda>c. dropWhile (\<lambda>x. x \<noteq> CHR ''_'') (drop 5 (commit_id c)))"
  define num where "num = (\<lambda>c. takeWhile (\<lambda>x. x \<noteq> CHR ''_'') (drop 2 (rest c)))"
  have "rest c = ''_n'' @ show_nat (run_sequence_of (lc_run c)) @ ''_'' @ show_nat (lc_ts c)" for c
    using show_int_no_underscore by (simp add: rest_def commit_id_def)
  then have "num c = show_nat (run_sequence_of (lc_run c))" for c
    using show_nat_no_underscore by (simp add: num_def)
  then have num: "parse_nat (num c) = Some (run_sequence_of (lc_run c))" for c by simp
  assume "commit_id c = commit_id c'"
  then have "num c = num c'" by (simp add: num_def rest_def)
  then show ?thesis using num [of c] num [of c'] by simp
qed

section \<open>What is logged is read back\<close>

definition commit_values :: "logged_commit \<Rightarrow> f64 set" where
  "commit_values c = insert (run_elapsed_of (lc_run c)) (as_error ` set (lc_assignments c) \<union> as_carbon_cost ` set (lc_assignments c))"

definition assignment_in_range :: "assignment \<Rightarrow> bool" where
  "assignment_in_range a \<longleftrightarrow> as_request_id a < 2 ^ 63 \<and> in_i32 (as_scheduled_slot a)
     \<and> pred_option in_i32 (as_arrival_slot a) \<and> pred_option in_i32 (as_deadline_slot a)"

definition commit_in_range :: "f64_text \<Rightarrow> logged_commit \<Rightarrow> bool" where
  "commit_in_range t c \<longleftrightarrow> text_ok t (commit_values c) \<and> run_sequence_of (lc_run c) < 2 ^ 63 \<and> commit_size c < 2 ^ 63
     \<and> in_i32 (run_slot_of (lc_run c)) \<and> in_i32 (lc_slot c) \<and> (\<forall>a\<in>set (lc_assignments c). assignment_in_range a)"

definition run_logged :: "logged_commit \<Rightarrow> solver_run_row" where
  "run_logged c =
     \<lparr>sr_run_id = commit_id c, sr_run_sequence = run_sequence_of (lc_run c),
      sr_current_slot = run_slot_of (lc_run c), sr_pending_batch_size = commit_size c,
      sr_new_assignments = commit_size c, sr_solver_elapsed_ms = run_elapsed_of (lc_run c),
      sr_solver_status = commit_status c, sr_solver_mode = run_mode_of (lc_run c)\<rparr>"

text \<open>An absent arrival or deadline is read as slot 0.\<close>

definition assignment_logged :: "logged_commit \<Rightarrow> assignment \<Rightarrow> assignment_row" where
  "assignment_logged c a =
     \<lparr>ar_run_id = commit_id c, ar_request_id = as_request_id a, ar_current_slot = lc_slot c,
      ar_is_new_assignment_in_run = (as_request_id a \<in> lc_pending_ids c),
      ar_scheduled_slot = as_scheduled_slot a, ar_flavour_name = as_flavour_name a,
      ar_error = as_error a, ar_carbon_cost = as_carbon_cost a,
      ar_arrival_slot = (case as_arrival_slot a of Some s \<Rightarrow> s | None \<Rightarrow> 0),
      ar_deadline_slot = (case as_deadline_slot a of Some s \<Rightarrow> s | None \<Rightarrow> 0)\<rparr>"

lemma run_field_members:
  "''run_id'' \<in> set run_fields" "''run_sequence'' \<in> set run_fields" "''current_slot'' \<in> set run_fields"
  "''pending_batch_size'' \<in> set run_fields" "''new_assignments'' \<in> set run_fields"
  "''solver_elapsed_ms'' \<in> set run_fields" "''solver_status'' \<in> set run_fields" "''solver_mode'' \<in> set run_fields"
  by (simp_all add: run_fields_def)

lemma assignment_field_members:
  "''run_id'' \<in> set assignment_fields" "''request_id'' \<in> set assignment_fields" "''current_slot'' \<in> set assignment_fields"
  "''is_new_assignment_in_run'' \<in> set assignment_fields" "''scheduled_slot'' \<in> set assignment_fields"
  "''flavour_name'' \<in> set assignment_fields" "''error'' \<in> set assignment_fields" "''carbon_cost'' \<in> set assignment_fields"
  "''arrival_slot'' \<in> set assignment_fields" "''deadline_slot'' \<in> set assignment_fields"
  by (simp_all add: assignment_fields_def)

lemma run_reads_back:
  assumes "commit_in_range t c"
  shows "read_run t run_fields (map (field_text (hm_insert ''run_id'' (commit_id c) (commit_row t c))) run_fields) = run_logged c"
proof -
  let ?row = "hm_insert ''run_id'' (commit_id c) (commit_row t c)"
  have fields: "field_text ?row ''run_id'' = commit_id c"
    "field_text ?row ''run_sequence'' = show_nat (run_sequence_of (lc_run c))"
    "field_text ?row ''current_slot'' = show_int (run_slot_of (lc_run c))"
    "field_text ?row ''pending_batch_size'' = show_nat (commit_size c)"
    "field_text ?row ''new_assignments'' = show_nat (commit_size c)"
    "field_text ?row ''solver_elapsed_ms'' = ft_show t (run_elapsed_of (lc_run c))"
    "field_text ?row ''solver_status'' = commit_status c"
    "field_text ?row ''solver_mode'' = run_mode_of (lc_run c)"
    by (simp_all add: field_text_insert) (simp_all add: field_text_def commit_row_fields)
  have "ft_parse t (ft_show t (run_elapsed_of (lc_run c))) = Some (run_elapsed_of (lc_run c))"
    using assms by (simp add: commit_in_range_def text_ok_def commit_values_def)
  moreover have "run_sequence_of (lc_run c) < 2 ^ 63" "commit_size c < 2 ^ 63" "in_i32 (run_slot_of (lc_run c))"
    using assms by (simp_all add: commit_in_range_def)
  ultimately show ?thesis
    unfolding read_run_def run_logged_def cell_i64_def cell_f64_def
    by (simp only: cell_of_row run_field_members fields parse_i64_show in_i32_i64 option.case as_u64_int wrap32_id)
qed

lemma assignment_row_fields:
  "map_of (build_assignment_row t new pend s b e a) ''request_id'' = Some (show_nat (as_request_id a))"
  "map_of (build_assignment_row t new pend s b e a) ''current_slot'' = Some (show_int s)"
  "map_of (build_assignment_row t new pend s b e a) ''is_new_assignment_in_run'' = Some (show_bool (as_request_id a \<in> new))"
  "map_of (build_assignment_row t new pend s b e a) ''scheduled_slot'' = Some (show_int (as_scheduled_slot a))"
  "map_of (build_assignment_row t new pend s b e a) ''flavour_name'' = Some (as_flavour_name a)"
  "map_of (build_assignment_row t new pend s b e a) ''error'' = Some (ft_show t (as_error a))"
  "map_of (build_assignment_row t new pend s b e a) ''carbon_cost'' = Some (ft_show t (as_carbon_cost a))"
  "map_of (build_assignment_row t new pend s b e a) ''arrival_slot''
     = Some (case as_arrival_slot a of Some s \<Rightarrow> show_int s | None \<Rightarrow> [])"
  "map_of (build_assignment_row t new pend s b e a) ''deadline_slot''
     = Some (case as_deadline_slot a of Some s \<Rightarrow> show_int s | None \<Rightarrow> [])"
  by (simp_all add: build_assignment_row_def)

lemma optional_slot_reads_back:
  assumes "pred_option in_i32 s"
  shows "wrap32 (case parse_i64 (case s of Some x \<Rightarrow> show_int x | None \<Rightarrow> []) of Some x \<Rightarrow> x | None \<Rightarrow> 0)
    = (case s of Some x \<Rightarrow> x | None \<Rightarrow> 0)"
  using assms by (cases s) (simp_all add: parse_i64_show in_i32_i64 wrap32_id, simp add: parse_i64_def parse_signed_def wrap32_def)

lemma assignment_reads_back:
  assumes "commit_in_range t c" and "a \<in> set (lc_assignments c)"
  shows "read_assignment t assignment_fields (map (field_text (hm_insert ''run_id'' (commit_id c)
      (build_assignment_row t (lc_pending_ids c) (lc_pending_ids c) (lc_slot c) b e a))) assignment_fields) = assignment_logged c a"
proof -
  let ?r = "build_assignment_row t (lc_pending_ids c) (lc_pending_ids c) (lc_slot c) b e a"
  let ?row = "hm_insert ''run_id'' (commit_id c) ?r"
  have fields: "field_text ?row ''run_id'' = commit_id c"
    "field_text ?row ''request_id'' = show_nat (as_request_id a)"
    "field_text ?row ''current_slot'' = show_int (lc_slot c)"
    "field_text ?row ''is_new_assignment_in_run'' = show_bool (as_request_id a \<in> lc_pending_ids c)"
    "field_text ?row ''scheduled_slot'' = show_int (as_scheduled_slot a)"
    "field_text ?row ''flavour_name'' = as_flavour_name a"
    "field_text ?row ''error'' = ft_show t (as_error a)"
    "field_text ?row ''carbon_cost'' = ft_show t (as_carbon_cost a)"
    "field_text ?row ''arrival_slot'' = (case as_arrival_slot a of Some s \<Rightarrow> show_int s | None \<Rightarrow> [])"
    "field_text ?row ''deadline_slot'' = (case as_deadline_slot a of Some s \<Rightarrow> show_int s | None \<Rightarrow> [])"
    by (simp_all add: field_text_insert) (simp_all add: field_text_def assignment_row_fields)
  have "ft_parse t (ft_show t (as_error a)) = Some (as_error a)" "ft_parse t (ft_show t (as_carbon_cost a)) = Some (as_carbon_cost a)"
    using assms by (simp_all add: commit_in_range_def text_ok_def commit_values_def)
  moreover have "as_request_id a < 2 ^ 63" "in_i32 (as_scheduled_slot a)" "in_i32 (lc_slot c)"
    and "pred_option in_i32 (as_arrival_slot a)" "pred_option in_i32 (as_deadline_slot a)"
    using assms by (simp_all add: commit_in_range_def assignment_in_range_def)
  ultimately show ?thesis
    unfolding read_assignment_def assignment_logged_def cell_i64_def cell_f64_def Let_def
    by (simp only: cell_of_row assignment_field_members fields parse_i64_show in_i32_i64 option.case as_u64_int wrap32_id
        optional_slot_reads_back bool_reads_back)
qed

definition fresh_log :: metrics_log where
  "fresh_log = metrics_logger_new \<lparr>mlg_enabled = True, mlg_runs = None, mlg_assignments = None,
     mlg_slot_metrics = None, mlg_debug_path = False, mlg_infeasible_debug = None\<rparr>"

definition in_log_order :: "assignment list \<Rightarrow> assignment list" where
  "in_log_order as = sort_key (\<lambda>a. (as_scheduled_slot a, as_request_id a)) as"

definition logged_run_lines :: "f64_text \<Rightarrow> logged_commit \<Rightarrow> string list" where
  "logged_run_lines t c = map (field_text (hm_insert ''run_id'' (commit_id c) (commit_row t c))) run_fields"

definition logged_assignment_lines :: "f64_text \<Rightarrow> logged_commit \<Rightarrow> csv_file" where
  "logged_assignment_lines t c = map (\<lambda>a. map (field_text (hm_insert ''run_id'' (commit_id c)
     (build_assignment_row t (lc_pending_ids c) (lc_pending_ids c) (lc_slot c) (lc_start_ts c) (lc_end_ts c) a)))
     assignment_fields) (in_log_order (lc_assignments c))"

lemma log_commits:
  "mlg_enabled ml \<Longrightarrow> mlg_runs ml = Some runs \<Longrightarrow> mlg_assignments ml = Some asgs \<Longrightarrow>
     mlg_runs (fold (log_commit t) cs ml) = Some (runs @ map (logged_run_lines t) cs)
     \<and> mlg_assignments (fold (log_commit t) cs ml) = Some (asgs @ concat (map (logged_assignment_lines t) cs))"
proof (induction cs arbitrary: ml runs asgs)
  case (Cons c cs)
  have "mlg_enabled (log_commit t c ml)" "mlg_runs (log_commit t c ml) = Some (runs @ [logged_run_lines t c])"
    "mlg_assignments (log_commit t c ml) = Some (asgs @ logged_assignment_lines t c)"
    using Cons.prems
    by (simp_all add: log_commit_def log_solver_run_def append_rows_def build_assignment_rows_def run_id_of_commit
        in_log_order_def comp_def Let_def logged_run_lines_def logged_assignment_lines_def)
  from Cons.IH [OF this] show ?case by simp
qed simp

lemma log_read_back:
  assumes "\<forall>c\<in>set cs. commit_in_range t c"
  shows "read_solver_runs t (mlg_runs (fold (log_commit t) cs fresh_log)) = map run_logged cs
    \<and> read_solver_assignments t (mlg_assignments (fold (log_commit t) cs fresh_log))
      = concat (map (\<lambda>c. map (assignment_logged c) (in_log_order (lc_assignments c))) cs)"
proof -
  have "mlg_enabled fresh_log" "mlg_runs fresh_log = Some [run_fields]" "mlg_assignments fresh_log = Some [assignment_fields]"
    by (simp_all add: fresh_log_def metrics_logger_new_def ensure_header_def)
  from log_commits [OF this, of t cs]
  have runs: "mlg_runs (fold (log_commit t) cs fresh_log) = Some (run_fields # map (logged_run_lines t) cs)"
    and asgs: "mlg_assignments (fold (log_commit t) cs fresh_log) = Some (assignment_fields # concat (map (logged_assignment_lines t) cs))"
    by simp_all
  have whole: "filter (\<lambda>l. length l = length run_fields) (map (logged_run_lines t) cs) = map (logged_run_lines t) cs"
    "filter (\<lambda>l. length l = length assignment_fields) (concat (map (logged_assignment_lines t) cs))
       = concat (map (logged_assignment_lines t) cs)"
    by (auto simp: logged_run_lines_def logged_assignment_lines_def intro!: filter_True)
  have "read_run t run_fields (logged_run_lines t c) = run_logged c"
    "map (read_assignment t assignment_fields) (logged_assignment_lines t c) = map (assignment_logged c) (in_log_order (lc_assignments c))"
    if "c \<in> set cs" for c
    using assms that run_reads_back assignment_reads_back
    by (simp_all add: logged_run_lines_def logged_assignment_lines_def in_log_order_def)
  then show ?thesis
    by (simp add: runs asgs read_solver_runs_def read_solver_assignments_def csv_headers_def readable_records_def whole
        map_concat comp_def cong: map_cong)
qed

text \<open>
  C19: What is logged is read back. From an enabled and fresh log the benchmark's readers return, in
  order, exactly one run per commit and one row per assignment of it, with the values that were
  logged in the columns they read, as long as the floats survive being printed and the identifiers fit 63 bits.
\<close>

theorem logged_rows_read_back:
  assumes "\<forall>c\<in>set cs. commit_in_range t c"
  shows "read_solver_runs t (mlg_runs (fold (log_commit t) cs fresh_log)) = map run_logged cs
    \<and> read_solver_assignments t (mlg_assignments (fold (log_commit t) cs fresh_log))
      = concat (map (\<lambda>c. map (assignment_logged c) (in_log_order (lc_assignments c))) cs)"
  using assms by (rule log_read_back)

lemma runs_by_id_lookup:
  assumes "distinct (map sr_run_id runs)" and "r \<in> set runs"
  shows "map_of (runs_by_id_of runs) (sr_run_id r) = Some r"
proof -
  have "map_of (fold (\<lambda>r. hm_insert (sr_run_id r) r) runs m) (sr_run_id r) = Some r" for m
    using assms
  proof (induction runs arbitrary: m)
    case (Cons r' runs)
    have later: "map_of (fold (\<lambda>r. hm_insert (sr_run_id r) r) runs m) i = map_of m i" if "i \<notin> sr_run_id ` set runs" for i m
      using that by (induction runs arbitrary: m) (auto simp: map_simps)
    show ?case
    proof (cases "r \<in> set runs")
      case True
      have "distinct (map sr_run_id runs)" using Cons.prems(1) by simp
      then show ?thesis using Cons.IH True by simp
    next
      case False
      then have here: "r = r'" using Cons.prems(2) by simp
      have "sr_run_id r' \<notin> sr_run_id ` set runs" using Cons.prems(1) by simp
      from later [OF this] show ?thesis by (simp add: here map_simps)
    qed
  qed simp
  then show ?thesis by (simp add: runs_by_id_of_def)
qed

lemma find_unique:
  assumes "P x" and "x \<in> set xs" and "\<forall>y\<in>set xs. P y \<longrightarrow> y = x"
  shows "find P xs = Some x"
proof (cases "find P xs")
  case None
  then show ?thesis using assms(1,2) by (simp add: find_None_iff)
next
  case (Some y)
  then have "y \<in> set xs \<and> P y" by (auto simp: find_Some_iff)
  then show ?thesis using Some assms(3) by blast
qed

definition commits_assign_once :: "logged_commit list \<Rightarrow> bool" where
  "commits_assign_once cs \<longleftrightarrow> (\<forall>c\<in>set cs. \<forall>c'\<in>set cs. \<forall>a\<in>set (lc_assignments c). \<forall>a'\<in>set (lc_assignments c').
     as_request_id a = as_request_id a' \<and> as_request_id a \<in> lc_pending_ids c \<and> as_request_id a' \<in> lc_pending_ids c'
       \<longrightarrow> c = c' \<and> a = a')"

text \<open>
  C40: From the commit to the report. Let every commit have been logged with its own sequence number
  and no request be newly assigned by two of them. Then the report that the benchmark computes from
  the log has, for a request that a commit newly assigned, a row with the slot, the flavour, the
  error and the cost of its assignment, joined with the sequence number, the mode and the status of
  the very run that committed it.
\<close>

theorem report_joins_run:
  assumes "\<forall>c\<in>set cs. commit_in_range t c" and "distinct (map (run_sequence_of \<circ> lc_run) cs)" and "commits_assign_once cs"
    and "c \<in> set cs" and "a \<in> set (lc_assignments c)" and "as_request_id a \<in> lc_pending_ids c"
    and "ml = fold (log_commit t) cs fresh_log"
    and "report = compute_per_request (read_solver_assignments t (mlg_assignments ml))
       (runs_by_id_of (read_solver_runs t (mlg_runs ml))) d rb"
  shows "\<exists>pr. find (\<lambda>pr. pr_request_id pr = as_request_id a) report = Some pr
    \<and> pr_scheduled_slot pr = as_scheduled_slot a \<and> pr_flavour_name pr = as_flavour_name a
    \<and> pr_error pr = as_error a \<and> pr_carbon_cost pr = as_carbon_cost a \<and> pr_included_in_batch_slot pr = lc_slot c
    \<and> pr_batch_sequence pr = run_sequence_of (lc_run c) \<and> pr_assignment_solver_mode pr = run_mode_of (lc_run c)
    \<and> pr_assignment_solver_status pr = commit_status c"
proof -
  let ?rows = "concat (map (\<lambda>c. map (assignment_logged c) (in_log_order (lc_assignments c))) cs)"
  let ?P = "\<lambda>row. ar_is_new_assignment_in_run row \<and> ar_request_id row = as_request_id a"
  have report: "report = compute_per_request ?rows (runs_by_id_of (map run_logged cs)) d rb"
    using log_read_back [OF assms(1)] by (simp add: assms(7,8))
  have order: "set (in_log_order as) = set as" for as by (simp add: in_log_order_def)
  have "find ?P ?rows = Some (assignment_logged c a)"
  proof (rule find_unique)
    show "?P (assignment_logged c a)" using assms(6) by (simp add: assignment_logged_def)
    show "assignment_logged c a \<in> set ?rows" using assms(4,5) by (auto simp: order)
    show "\<forall>row\<in>set ?rows. ?P row \<longrightarrow> row = assignment_logged c a"
      using assms(3-6) unfolding commits_assign_once_def by (fastforce simp: order assignment_logged_def)
  qed
  define by_id where "by_id = runs_by_id_of (map run_logged cs)"
  have found: "find (\<lambda>pr. pr_request_id pr = as_request_id a) report = Some (row_report by_id d rb (assignment_logged c a))"
    using report_keeps_first_row [of ?rows by_id d rb] \<open>find ?P ?rows = _\<close> by (simp add: report by_id_def)
  have "inj_on commit_id (set cs)"
  proof (rule inj_onI)
    fix x y assume "x \<in> set cs" "y \<in> set cs" "commit_id x = commit_id y"
    moreover have "inj_on (run_sequence_of \<circ> lc_run) (set cs)" using assms(2) by (simp add: distinct_map)
    ultimately show "x = y" using commit_id_inj [of x y] by (simp add: inj_on_eq_iff [of "run_sequence_of \<circ> lc_run"] inj_on_def)
  qed
  moreover have "distinct cs" using assms(2) by (simp add: distinct_map)
  ultimately have "distinct (map sr_run_id (map run_logged cs))" by (simp add: comp_def run_logged_def distinct_map)
  then have "map_of by_id (sr_run_id (run_logged c)) = Some (run_logged c)"
    unfolding by_id_def by (rule runs_by_id_lookup) (use assms(4) in simp)
  then have run: "map_of by_id (commit_id c) = Some (run_logged c)" by (simp add: run_logged_def)
  show ?thesis unfolding found
    by (simp add: row_report_def Let_def assignment_logged_def run run_logged_def)
qed

section \<open>A column that is never written\<close>

text \<open>The batch worker logs its consecutive rollbacks under a name that is not a column: the value is dropped.\<close>

lemma consecutive_rollbacks_dropped:
  "map_of (batch_run_row t m) ''consecutive_rollbacks'' = Some (show_nat (rf_consecutive_rollbacks m))"
  "map (field_text (hm_insert ''run_id'' i (batch_run_row t (m\<lparr>rf_consecutive_rollbacks := k\<rparr>)))) run_fields
    = map (field_text (hm_insert ''run_id'' i (batch_run_row t m))) run_fields"
proof -
  show "map_of (batch_run_row t m) ''consecutive_rollbacks'' = Some (show_nat (rf_consecutive_rollbacks m))"
    by (simp add: batch_run_row_def)
  show "map (field_text (hm_insert ''run_id'' i (batch_run_row t (m\<lparr>rf_consecutive_rollbacks := k\<rparr>)))) run_fields
    = map (field_text (hm_insert ''run_id'' i (batch_run_row t m))) run_fields"
  proof (rule map_cong [OF refl])
    fix f assume "f \<in> set run_fields"
    then have "f \<noteq> ''consecutive_rollbacks''" by (auto simp: run_fields_def)
    then have "map_of (batch_run_row t (m\<lparr>rf_consecutive_rollbacks := k\<rparr>)) f = map_of (batch_run_row t m) f"
      by (simp add: batch_run_row_def)
    then show "field_text (hm_insert ''run_id'' i (batch_run_row t (m\<lparr>rf_consecutive_rollbacks := k\<rparr>))) f
      = field_text (hm_insert ''run_id'' i (batch_run_row t m)) f" by (simp only: field_text_insert) (simp add: field_text_def)
  qed
qed

section \<open>A concrete log\<close>

text \<open>Whole numbers printed as integers are one text of floats that keeps its law.\<close>

definition whole_text :: f64_text where
  "whole_text = \<lparr>ft_show = \<lambda>x. show_int \<lfloor>x\<rfloor>, ft_parse = \<lambda>s. map_option real_of_int (parse_signed s)\<rparr>"

lemma whole_text_ok: "xs \<subseteq> range real_of_int \<Longrightarrow> text_ok whole_text xs"
  by (auto simp: text_ok_def whole_text_def)

definition sample_commit :: "nat \<Rightarrow> request_id \<Rightarrow> slot \<Rightarrow> logged_commit" where
  "sample_commit n i s =
     \<lparr>lc_ts = 1700, lc_run = Swarm_run n 3 12 ''bandit'',
      lc_assignments = [assignment_new 0 i s ''Fast'' 7 5 10 (Some 3) (Some 9)],
      lc_pending_ids = {i}, lc_slot = 3, lc_start_ts = 1, lc_end_ts = 1\<rparr>"

lemma sample_commit_in_range:
  "n < 2 ^ 63 \<Longrightarrow> i < 2 ^ 63 \<Longrightarrow> in_i32 s \<Longrightarrow> commit_in_range whole_text (sample_commit n i s)"
proof -
  assume h: "n < 2 ^ 63" "i < 2 ^ 63" "in_i32 s"
  have "(12::real) = real_of_int 12" "(5::real) = real_of_int 5" "(7::real) = real_of_int 7" by simp_all
  then have "text_ok whole_text {12, 7, 5}" by (intro whole_text_ok) blast
  then show ?thesis using h
    by (simp add: commit_in_range_def commit_values_def sample_commit_def commit_size_def assignment_in_range_def
        assignment_new_def assignment_new_for_profile_def in_i32_def)
qed

lemma logged_rows_read_back_witness:
  "map sr_run_sequence (read_solver_runs whole_text (mlg_runs
     (fold (log_commit whole_text) [sample_commit 1 4 5, sample_commit 2 6 7] fresh_log))) = [1, 2]"
proof -
  have "\<forall>c\<in>set [sample_commit 1 4 5, sample_commit 2 6 7]. commit_in_range whole_text c"
    by (simp add: sample_commit_in_range in_i32_def)
  from logged_rows_read_back [OF this] show ?thesis by (simp add: run_logged_def sample_commit_def)
qed

lemma report_joins_run_witness:
  "let ml = fold (log_commit whole_text) [sample_commit 1 4 5, sample_commit 2 6 7] fresh_log
   in \<exists>pr. find (\<lambda>pr. pr_request_id pr = 6) (compute_per_request
        (read_solver_assignments whole_text (mlg_assignments ml))
        (runs_by_id_of (read_solver_runs whole_text (mlg_runs ml))) 10 {}) = Some pr
      \<and> pr_scheduled_slot pr = 7 \<and> pr_batch_sequence pr = 2 \<and> pr_assignment_solver_mode pr = ''bandit''"
proof -
  let ?cs = "[sample_commit 1 4 5, sample_commit 2 6 7]"
  let ?a = "assignment_new 0 6 7 ''Fast'' 7 5 10 (Some 3) (Some 9)"
  have "\<forall>c\<in>set ?cs. commit_in_range whole_text c" by (simp add: sample_commit_in_range in_i32_def)
  moreover have "distinct (map (run_sequence_of \<circ> lc_run) ?cs)" by (simp add: sample_commit_def)
  moreover have "commits_assign_once ?cs"
    by (simp add: commits_assign_once_def sample_commit_def assignment_new_def assignment_new_for_profile_def)
  moreover have "sample_commit 2 6 7 \<in> set ?cs" "?a \<in> set (lc_assignments (sample_commit 2 6 7))"
    "as_request_id ?a \<in> lc_pending_ids (sample_commit 2 6 7)"
    by (simp_all add: sample_commit_def assignment_new_def assignment_new_for_profile_def)
  ultimately show ?thesis
    using report_joins_run [OF _ _ _ _ _ _ refl refl, of ?cs whole_text "sample_commit 2 6 7" ?a 10 "{}"]
    by (auto simp: Let_def) (simp add: sample_commit_def assignment_new_def assignment_new_for_profile_def)
qed

end
