(* ===== verification/Simulate.thy ===== *)
theory Simulate
  imports Metrics_Log Scheduler
begin

text \<open>
  The simulation front end (\<open>bin/simulate/main.rs\<close>): its arguments, the system it builds from a
  scenario or from the defaults, and the loop that watches it until the horizon has passed. The files,
  the floats' parser and the normal distribution are parameters; \<open>None\<close> is a panic or an exit with an
  error. Printing is left out.
\<close>

section \<open>Arguments\<close>

record sim_arguments =
  sa_scenario_path :: "string option"
  sa_no_skip :: bool
  sa_speed_scale :: f64

definition no_sim_arguments :: sim_arguments where
  "no_sim_arguments = \<lparr>sa_scenario_path = None, sa_no_skip = False, sa_speed_scale = 1\<rparr>"

fun parse_sim_args :: "f64_text \<Rightarrow> string list \<Rightarrow> sim_arguments \<Rightarrow> sim_arguments option" where
  "parse_sim_args t [] a = Some a"
| "parse_sim_args t (x # xs) a =
     (if x = ''--no-skip'' then parse_sim_args t xs (a\<lparr>sa_no_skip := True\<rparr>)
      else if x = ''--speed-scale'' then
        (case xs of
           [] \<Rightarrow> None
         | s # rest \<Rightarrow>
             (case ft_parse t s of None \<Rightarrow> None | Some v \<Rightarrow> parse_sim_args t rest (a\<lparr>sa_speed_scale := v\<rparr>)))
      else if \<not> str_starts ''--'' x then parse_sim_args t xs (a\<lparr>sa_scenario_path := Some x\<rparr>)
      else None)"

section \<open>The system\<close>

text \<open>The requests of a scenario are grouped before the system is built; without one the generator makes them up.\<close>

record simulation_setup =
  su_config :: config
  su_forecast :: "f64 list option"
  su_requests :: "request list list option"

definition sim_config :: "sim_arguments \<Rightarrow> config \<Rightarrow> config" where
  "sim_config a cfg =
     cfg\<lparr>cfg_simulation := (cfg_simulation cfg)
       \<lparr>sim_skip_empty_slots := (if sa_no_skip a then False else sim_skip_empty_slots (cfg_simulation cfg)),
        sim_slot_speed_scale := sa_speed_scale a\<rparr>\<rparr>"

definition simulation_setup_of ::
    "(string \<Rightarrow> scenario option) \<Rightarrow> (nat \<Rightarrow> f64) \<Rightarrow> sim_arguments \<Rightarrow> simulation_setup option" where
  "simulation_setup_of scenario_file now a =
     (case sa_scenario_path a of
        None \<Rightarrow> Some \<lparr>su_config = sim_config a config_default, su_forecast = None, su_requests = None\<rparr>
      | Some p \<Rightarrow>
          (case scenario_file p of
             None \<Rightarrow> None
           | Some sc \<Rightarrow>
               map_option (\<lambda>by_slot.
                 \<lparr>su_config = sim_config a (apply_scenario_metadata (sn_metadata sc) config_default),
                  su_forecast = Some (sn_carbon_forecast sc), su_requests = Some by_slot\<rparr>)
                 (requests_by_slot now sc)))"

text \<open>What \<open>Online2System::new\<close> builds: the log, the generator's configuration and requests, the forecast and the scheduler.\<close>

record 'r online2_system =
  os_config :: config
  os_log :: metrics_log
  os_generator :: request_generator_config
  os_requests :: "request list list option"
  os_forecast :: "f64 list"
  os_engine :: "'r system"

text \<open>A negative number of slots is cast to a length no vector can have.\<close>

definition default_forecast ::
    "(f64 \<Rightarrow> ('n \<Rightarrow> f64 \<times> 'n) option) \<Rightarrow> (nat \<Rightarrow> 'n) \<Rightarrow> config \<Rightarrow> f64 list option" where
  "default_forecast normal_new seed_from cfg =
     (if cfg_total_slots cfg < 0 then None
      else generate_carbon_intensity_forecast normal_new seed_from (nat (cfg_total_slots cfg)) 12 26 2
        \<lparr>fs_night_max = 160, fs_day_min = 70, fs_sunrise_fraction = 25 / 100, fs_sunset_fraction = 75 / 100,
         fs_transition_slope = 18, fs_noise_persistence = 95 / 100, fs_inverted = False, fs_phase_shifted = False\<rparr>)"

definition online2_system_new ::
    "(f64 \<Rightarrow> ('n \<Rightarrow> f64 \<times> 'n) option) \<Rightarrow> (nat \<Rightarrow> 'n) \<Rightarrow> metrics_log \<Rightarrow> simulation_setup \<Rightarrow> 'r online2_system option" where
  "online2_system_new normal_new seed_from files su =
     (let cfg = su_config su
      in map_option (\<lambda>forecast.
           \<lparr>os_config = cfg,
            os_log = metrics_logger_new (files\<lparr>mlg_enabled := lg_enable_solver_logging (cfg_logging cfg),
              mlg_debug_path := lg_enable_infeasibility_debug_logging (cfg_logging cfg)\<rparr>),
            os_generator = generator_config_of cfg, os_requests = su_requests su,
            os_forecast = forecast, os_engine = system_init cfg\<rparr>)
           (case su_forecast su of Some f \<Rightarrow> Some f | None \<Rightarrow> default_forecast normal_new seed_from cfg))"

lemma default_forecast_length:
  "default_forecast normal_new seed_from cfg = Some forecast \<Longrightarrow>
   0 \<le> cfg_total_slots cfg \<and> length forecast = nat (cfg_total_slots cfg)"
  by (auto simp: default_forecast_def generate_carbon_intensity_forecast_def conjunct1 [OF forecast_loop_spec]
      split: if_splits)

section \<open>The watch\<close>

text \<open>
  Twice a second the loop reads its stop flag and then the virtual clock. Given the readings, the result
  is how many times it went round; it is \<open>None\<close> if they do not end it.
\<close>

fun monitor_loop :: "config \<Rightarrow> (bool \<times> f64) list \<Rightarrow> nat option" where
  "monitor_loop cfg [] = None"
| "monitor_loop cfg ((stop, elapsed) # readings) =
     (if stop \<or> of_int (cfg_total_slots cfg) * effective_slot_duration_secs cfg \<le> elapsed then Some 1
      else map_option Suc (monitor_loop cfg readings))"

lemma monitor_loop_iff:
  "monitor_loop cfg rs = Some k \<longleftrightarrow>
     (\<exists>i < length rs. k = i + 1 \<and> (fst (rs ! i) \<or> of_int (cfg_total_slots cfg) * effective_slot_duration_secs cfg \<le> snd (rs ! i))
        \<and> (\<forall>j<i. \<not> fst (rs ! j) \<and> snd (rs ! j) < of_int (cfg_total_slots cfg) * effective_slot_duration_secs cfg))"
  (is "_ \<longleftrightarrow> (\<exists>i < length rs. k = i + 1 \<and> ?ends (rs ! i) \<and> (\<forall>j<i. ?goes (rs ! j)))")
proof (induction rs arbitrary: k)
  case (Cons r rs)
  obtain stop elapsed where r: "r = (stop, elapsed)" by fastforce
  show ?case
  proof (cases "stop \<or> of_int (cfg_total_slots cfg) * effective_slot_duration_secs cfg \<le> elapsed")
    case True
    then show ?thesis by (auto simp: r)
  next
    case False
    then have "monitor_loop cfg (r # rs) = Some k \<longleftrightarrow> (\<exists>k'. monitor_loop cfg rs = Some k' \<and> k = Suc k')"
      by (auto simp: r)
    also have "\<dots> \<longleftrightarrow> (\<exists>i < length rs. k = i + 2 \<and> ?ends (rs ! i) \<and> (\<forall>j<i. ?goes (rs ! j)))"
      unfolding Cons.IH by auto
    also have "\<dots> \<longleftrightarrow> (\<exists>i < length (r # rs). k = i + 1 \<and> ?ends ((r # rs) ! i) \<and> (\<forall>j<i. ?goes ((r # rs) ! j)))"
      using False by (simp add: Ex_less_Suc2 All_less_Suc2 r not_le)
    finally show ?thesis .
  qed
qed simp

text \<open>
  A simulation is set up as it should be. The command line is read to its end, a scenario's
  parameters replace the defaults, and the system is built with a configuration fit for the scheduler,
  a generator that runs on the scheduler's slots and a forecast: the scenario's, or one generated for
  every slot of the horizon. Without a scenario nothing but a wrong argument can stop it.
\<close>

theorem simulation_setup_sound:
  assumes "simulation_setup_of scenario_file now a = Some su"
    and "online2_system_new normal_new seed_from files su = Some (os :: 'r online2_system)"
    and "rng_ok (g :: 'r rng)"
    and "\<forall>p sc. sa_scenario_path a = Some p \<longrightarrow> scenario_file p = Some sc \<longrightarrow> in_i32 (sm_total_slots (sn_metadata sc))"
  shows "config_ok g (os_config os) \<and> system_reachable g (os_config os) fdb (os_engine os)
    \<and> gc_total_slots (os_generator os) = cfg_total_slots (os_config os)
    \<and> gc_slot_duration_secs (os_generator os) = effective_slot_duration_secs (os_config os)
    \<and> (case sa_scenario_path a of
         None \<Rightarrow> os_requests os = None \<and> length (os_forecast os) = nat (cfg_total_slots (os_config os))
       | Some p \<Rightarrow> \<exists>sc by_slot. scenario_file p = Some sc \<and> requests_by_slot now sc = Some by_slot
           \<and> os_requests os = Some by_slot \<and> os_forecast os = sn_carbon_forecast sc
           \<and> cfg_total_slots (os_config os) = sm_total_slots (sn_metadata sc))"
proof -
  have os: "os_config os = su_config su" "os_generator os = generator_config_of (su_config su)"
    "os_requests os = su_requests su" "os_engine os = system_init (su_config su)"
    "Some (os_forecast os) = (case su_forecast su of Some f \<Rightarrow> Some f | None \<Rightarrow> default_forecast normal_new seed_from (su_config su))"
    using assms(2) by (auto simp: online2_system_new_def Let_def)
  have gen: "gc_total_slots (generator_config_of cfg) = cfg_total_slots cfg"
    "gc_slot_duration_secs (generator_config_of cfg) = effective_slot_duration_secs cfg" for cfg
    by (simp_all add: generator_config_of_def)
  have reach: "system_reachable g (os_config os) fdb (os_engine os)"
    unfolding os(1,4) by (rule system_reachable.Init)
  note keeps = sim_config_def apply_scenario_metadata_def config_default_def swarm_config_default_def
  show ?thesis
  proof (cases "sa_scenario_path a")
    case None
    then have su: "su = \<lparr>su_config = sim_config a config_default, su_forecast = None, su_requests = None\<rparr>"
      using assms(1) by (simp add: simulation_setup_of_def)
    have "length (os_forecast os) = nat (cfg_total_slots (su_config su))"
      using os(5) default_forecast_length [of normal_new seed_from "su_config su" "os_forecast os"] by (simp add: su)
    moreover have "config_ok g (su_config su)" using assms(3) by (simp add: config_ok_def su keeps in_i32_def)
    ultimately show ?thesis using None os reach gen by (simp add: su)
  next
    case (Some p)
    then obtain sc by_slot where sc: "scenario_file p = Some sc" "requests_by_slot now sc = Some by_slot"
      and su: "su = \<lparr>su_config = sim_config a (apply_scenario_metadata (sn_metadata sc) config_default),
        su_forecast = Some (sn_carbon_forecast sc), su_requests = Some by_slot\<rparr>"
      using assms(1) by (auto simp: simulation_setup_of_def split: option.splits)
    have "0 \<le> sm_total_slots (sn_metadata sc)" using sc(2) by (auto simp: requests_by_slot_def Let_def split: if_splits)
    then have "config_ok g (su_config su)"
      using assms(3,4) Some sc(1) by (simp add: config_ok_def su keeps)
    moreover have "cfg_total_slots (su_config su) = sm_total_slots (sn_metadata sc)" by (simp add: su keeps)
    ultimately show ?thesis using Some os reach gen sc by (simp add: su)
  qed
qed

lemma simulation_setup_sound_witness:
  "\<exists>su os. simulation_setup_of (\<lambda>_. None) (\<lambda>_. 0) no_sim_arguments = Some su
     \<and> online2_system_new (\<lambda>_. Some (\<lambda>n. (0, n))) (\<lambda>n. n) fresh_log su = Some (os :: unit online2_system)
     \<and> length (os_forecast os) = 24"
proof -
  let ?su = "\<lparr>su_config = sim_config no_sim_arguments config_default, su_forecast = None, su_requests = None\<rparr>"
  have su: "simulation_setup_of (\<lambda>_. None) (\<lambda>_. 0) no_sim_arguments = Some ?su"
    by (simp add: simulation_setup_of_def no_sim_arguments_def)
  have slots: "cfg_total_slots (su_config ?su) = 24" by (simp add: sim_config_def config_default_def)
  obtain os :: "unit online2_system" where os: "online2_system_new (\<lambda>_. Some (\<lambda>n. (0, n))) (\<lambda>n::nat. n) fresh_log ?su = Some os"
    using slots by (simp add: online2_system_new_def default_forecast_def generate_carbon_intensity_forecast_def Let_def)
  have cfg: "os_config os = su_config ?su" using os by (auto simp: online2_system_new_def Let_def)
  have "length (os_forecast os) = 24"
    using simulation_setup_sound [OF su os still_rng_ok, of "[]"] slots unfolding cfg by (simp add: no_sim_arguments_def)
  then show ?thesis using su os by blast
qed


end
