(* ===== verification/Startup.thy ===== *)
theory Startup
  imports Service Simulate
begin

text \<open>
  The start of the service (\<open>bin/service/main.rs\<close>): the settings read from the environment, the check
  that the provider's slot is as long as the scheduler's, the configuration derived from them, and the
  state from which the service runs. What the process finds outside itself is the record \<open>environment\<close>:
  the variables, the texts of floats, the RFC 3339 parser, two readings of the clock, the normal
  distribution of the forecast and the log files. \<open>None\<close> is a panic. A variable whose value is not
  Unicode counts as unset. Logging, the HTTP server and the shutdown are left out.
\<close>

section \<open>The environment\<close>

record 'n environment =
  wo_env :: "(string, string) hmap"
  wo_text :: f64_text
  wo_parse_rfc3339 :: "string \<Rightarrow> system_time option"
  wo_now_at_alignment :: system_time
  wo_now_at_state :: system_time
  wo_ms_run :: nat
  wo_normal_new :: "f64 \<Rightarrow> ('n \<Rightarrow> f64 \<times> 'n) option"
  wo_seed_from :: "nat \<Rightarrow> 'n"
  wo_files :: metrics_log

text \<open>
  \<open>wo_ms_run\<close> is by how much the main loop, which runs from \<open>scheduler.start()\<close> on, has moved a
  realtime clock when the application state is made.
\<close>

definition env_or :: "(string, string) hmap \<Rightarrow> string \<Rightarrow> string \<Rightarrow> string" where
  "env_or env name otherwise = (case map_of env name of Some v \<Rightarrow> v | None \<Rightarrow> otherwise)"

definition env_secret :: "(string, string) hmap \<Rightarrow> string \<Rightarrow> string option" where
  "env_secret env name =
     (case map_of env name of Some v \<Rightarrow> if str_trim v = [] then None else Some v | None \<Rightarrow> None)"

definition provider_epoch :: "'n environment \<Rightarrow> system_time option" where
  "provider_epoch w =
     wo_parse_rfc3339 w (env_or (wo_env w) ''PROVIDER_EPOCH'' ''2020-01-01T00:00:00+00:00'')"

definition env_f64 :: "'n environment \<Rightarrow> string \<Rightarrow> string \<Rightarrow> f64 option" where
  "env_f64 w name otherwise = ft_parse (wo_text w) (env_or (wo_env w) name otherwise)"

definition parse_i32 :: "string \<Rightarrow> int option" where
  "parse_i32 s = (case parse_signed s of Some x \<Rightarrow> if in_i32 x then Some x else None | None \<Rightarrow> None)"

text \<open>An unsigned number may have a plus sign, and no minus sign even if it is zero.\<close>

definition parse_unsigned :: "nat \<Rightarrow> string \<Rightarrow> nat option" where
  "parse_unsigned bits s =
     (case parse_nat (case s of c # cs \<Rightarrow> if c = CHR ''+'' then cs else s | [] \<Rightarrow> []) of
        Some n \<Rightarrow> if n < 2 ^ bits then Some n else None
      | None \<Rightarrow> None)"

definition env_unsigned :: "nat \<Rightarrow> 'n environment \<Rightarrow> string \<Rightarrow> string \<Rightarrow> nat option" where
  "env_unsigned bits w name otherwise = parse_unsigned bits (env_or (wo_env w) name otherwise)"

definition env_flag :: "'n environment \<Rightarrow> string \<Rightarrow> bool" where
  "env_flag w name \<longleftrightarrow> env_or (wo_env w) name ''0'' = ''1''"

section \<open>Settings\<close>

text \<open>
  The slot length is read as the floats are, because a start reacts to the texts that are no number:
  \<open>from_str\<close> reads \<open>inf\<close>, \<open>infinity\<close> and \<open>nan\<close> in any case and with any sign. The flag of an
  infinity says that it is negative.
\<close>

datatype float_value = Finite f64 | Infinite bool | Not_a_number

definition parse_float :: "f64_text \<Rightarrow> string \<Rightarrow> float_value option" where
  "parse_float t s =
     (let (negative, body) =
        (case s of
           c # cs \<Rightarrow> if c = CHR ''-'' then (True, cs) else if c = CHR ''+'' then (False, cs) else (False, s)
         | [] \<Rightarrow> (False, s));
          word = to_ascii_lowercase body
      in if word = ''inf'' \<or> word = ''infinity'' then Some (Infinite negative)
         else if word = ''nan'' then Some Not_a_number
         else map_option Finite (ft_parse t s))"

fun show_float :: "f64_text \<Rightarrow> float_value \<Rightarrow> string" where
  "show_float t (Finite x) = ft_show t x"
| "show_float t (Infinite negative) = (if negative then ''-inf'' else ''inf'')"
| "show_float t Not_a_number = ''NaN''"

fun in_minutes :: "float_value \<Rightarrow> float_value" where
  "in_minutes (Finite seconds) = Finite (seconds / 60)"
| "in_minutes (Infinite negative) = Infinite negative"
| "in_minutes Not_a_number = Not_a_number"

text \<open>The comparison \<open>(minutes * 60.0 - duration).abs() > 1e-6\<close>; with NaN it is false.\<close>

fun lengths_differ :: "f64 \<Rightarrow> float_value \<Rightarrow> bool" where
  "lengths_differ minutes (Finite duration) \<longleftrightarrow> 1 / 1000000 < \<bar>minutes * 60 - duration\<bar>"
| "lengths_differ minutes (Infinite negative) \<longleftrightarrow> True"
| "lengths_differ minutes Not_a_number \<longleftrightarrow> False"

definition env_float :: "'n environment \<Rightarrow> string \<Rightarrow> string \<Rightarrow> float_value option" where
  "env_float w name otherwise = parse_float (wo_text w) (env_or (wo_env w) name otherwise)"

record slot_settings =
  sl_total_slots :: int
  sl_duration :: float_value
  sl_minutes :: f64

text \<open>
  The provider's minutes default to the text of the scheduler's duration. They have to be finite; the
  duration itself is only compared with them.
\<close>

definition slot_settings_of :: "'n environment \<Rightarrow> slot_settings option" where
  "slot_settings_of w =
     (case parse_i32 (env_or (wo_env w) ''TOTAL_SLOTS'' ''8640'') of
        None \<Rightarrow> None
      | Some total_slots \<Rightarrow>
     (case env_float w ''SLOT_DURATION_SECONDS'' ''10'' of
        None \<Rightarrow> None
      | Some duration \<Rightarrow>
     (case env_float w ''PROVIDER_SLOT_MINUTES'' (show_float (wo_text w) (in_minutes duration)) of
        Some (Finite minutes) \<Rightarrow>
          if lengths_differ minutes duration then None
          else Some \<lparr>sl_total_slots = total_slots, sl_duration = duration, sl_minutes = minutes\<rparr>
      | _ \<Rightarrow> None)))"

text \<open>
  The configuration's duration is a real. The service reads it through
  \<open>effective_slot_duration_secs\<close> only, whose maximum of NaN and a millisecond is a millisecond, as
  it is of zero: zero stands for NaN there. An infinite duration does not get this far.
\<close>

definition stored_duration :: "float_value \<Rightarrow> f64" where
  "stored_duration duration = (case duration of Finite x \<Rightarrow> x | _ \<Rightarrow> 0)"

definition startup_config :: "'n environment \<Rightarrow> slot_settings \<Rightarrow> config" where
  "startup_config w sl =
     config_default
       \<lparr>cfg_total_slots := sl_total_slots sl,
        cfg_slot_duration_seconds := stored_duration (sl_duration sl),
        cfg_simulation := simulation_config_default
          \<lparr>sim_skip_empty_slots := False, sim_slot_speed_scale := 1,
           sim_manual_clock := env_flag w ''MANUAL_CLOCK''\<rparr>,
        cfg_logging := logging_config_default
          \<lparr>lg_verbose := False, lg_enable_progress_display := False,
           lg_enable_solver_logging := env_flag w ''CARBONSHIFT_ENABLE_SOLVER_LOGGING'',
           lg_enable_infeasibility_debug_logging := False\<rparr>\<rparr>"

definition startup_service_config :: "'n environment \<Rightarrow> service_config option" where
  "startup_service_config w =
     (let env = wo_env w; listen_addr = env_or env ''LISTEN_ADDR'' ''0.0.0.0:8080''
      in case (env_f64 w ''SUBMIT_WAIT_TIMEOUT_SECS'' ''5'',
               env_unsigned 32 w ''EXECUTOR_MAX_RETRIES'' ''5'',
               env_unsigned 64 w ''EXECUTOR_RETRY_BASE_MS'' ''500'',
               env_unsigned 64 w ''EXECUTOR_RETRY_MAX_MS'' ''30000'',
               env_f64 w ''HORIZON_READY_THRESHOLD'' ''0.9'',
               env_unsigned 64 w ''DISPATCHER_POLL_INTERVAL_MS'' ''200'') of
        (Some wait, Some retries, Some base, Some cap, Some threshold, Some interval) \<Rightarrow>
          Some \<lparr>svc_executor_url = env_secret env ''EXECUTOR_URL'',
                svc_self_base_url = env_or env ''SELF_BASE_URL'' (''http://'' @ listen_addr),
                svc_submit_wait_timeout_secs = wait,
                svc_allow_private_callbacks = env_flag w ''CARBONSHIFT_ALLOW_PRIVATE_CALLBACKS'',
                svc_api_key = env_secret env ''CARBONSHIFT_API_KEY'',
                svc_executor_token = env_secret env ''CARBONSHIFT_EXECUTOR_TOKEN'',
                svc_executor_max_retries = retries, svc_executor_retry_base_ms = base,
                svc_executor_retry_max_ms = cap, svc_horizon_ready_threshold = threshold,
                svc_dispatcher_poll_interval_ms = interval\<rparr>
      | _ \<Rightarrow> None)"

section \<open>The start\<close>

definition startup_forecast :: "'n environment \<Rightarrow> config \<Rightarrow> f64 list option" where
  "startup_forecast w cfg = default_forecast (wo_normal_new w) (wo_seed_from w) cfg"

definition startup_log :: "'n environment \<Rightarrow> config \<Rightarrow> metrics_log" where
  "startup_log w cfg = metrics_logger_new ((wo_files w)
     \<lparr>mlg_enabled := lg_enable_solver_logging (cfg_logging cfg), mlg_debug_path := False\<rparr>)"

definition startup_alignment :: "'n environment \<Rightarrow> config \<Rightarrow> system_time \<Rightarrow> wall_clock_align option option" where
  "startup_alignment w cfg epoch =
     (if sim_manual_clock (cfg_simulation cfg) then Some None
      else case wall_clock_alignment (wo_now_at_alignment w) epoch (effective_slot_duration_secs cfg) of
        Inl _ \<Rightarrow> None
      | Inr al \<Rightarrow> Some (Some al))"

definition startup_shared :: "'n environment \<Rightarrow> wall_clock_align option \<Rightarrow> shared_state" where
  "startup_shared w al =
     (case al of
        None \<Rightarrow> shared_state_new
      | Some a \<Rightarrow> set_virtual_elapsed_ms (wc_elapsed_in_slot_ms a + wo_ms_run w) shared_state_new)"

definition startup_service :: "config \<Rightarrow> 'v app_state \<Rightarrow> ('r, 'v) service" where
  "startup_service cfg app =
     \<lparr>sv_app = app, sv_sched = scheduler_state_new (capacity_tier_revision (ap_shared app)),
      sv_workers = (\<lambda>_. None), sv_arriving = [], sv_dispatcher = Resting, sv_callbacks = [],
      sv_finished = [], sv_sent = []\<rparr>"

record ('r, 'v) started =
  st_config :: config
  st_log :: metrics_log
  st_service :: "('r, 'v) service"

definition start_service :: "'n environment \<Rightarrow> ('r, 'v) started option" where
  "start_service w =
     (case (slot_settings_of w, provider_epoch w) of
        (Some sl, Some epoch) \<Rightarrow>
          (let cfg = startup_config w sl
           in case (startup_forecast w cfg, startup_alignment w cfg epoch, startup_service_config w) of
                (Some forecast, Some al, Some service_cfg) \<Rightarrow>
                  map_option (\<lambda>app.
                    \<lparr>st_config = cfg, st_log = startup_log w cfg,
                     st_service = startup_service cfg
                       (case al of None \<Rightarrow> app | Some a \<Rightarrow> set_wall_clock_alignment a app)\<rparr>)
                    (app_state_new (wo_now_at_state w) (startup_shared w al) cfg service_cfg forecast)
              | _ \<Rightarrow> None)
      | _ \<Rightarrow> None)"

section \<open>What a start gives\<close>

lemma slot_settings_sound:
  assumes "slot_settings_of w = Some sl"
  shows "in_i32 (sl_total_slots sl)" and "\<not> lengths_differ (sl_minutes sl) (sl_duration sl)"
  using assms
  by (auto simp: slot_settings_of_def parse_i32_def split: option.splits if_splits float_value.splits)

lemma startup_config_sel [simp]:
  "cfg_total_slots (startup_config w sl) = sl_total_slots sl"
  "cfg_flavours (startup_config w sl) = cfg_flavours config_default"
  "cfg_swarm (startup_config w sl) = swarm_config_default"
  "cfg_capacity_tiers (startup_config w sl) = cfg_capacity_tiers config_default"
  "sim_manual_clock (cfg_simulation (startup_config w sl)) = env_flag w ''MANUAL_CLOCK''"
  "sim_skip_empty_slots (cfg_simulation (startup_config w sl)) = False"
  "effective_slot_duration_secs (startup_config w sl) = max (stored_duration (sl_duration sl)) (1 / 1000)"
  "lg_enable_solver_logging (cfg_logging (startup_config w sl)) = env_flag w ''CARBONSHIFT_ENABLE_SOLVER_LOGGING''"
  by (simp_all add: startup_config_def config_default_def effective_slot_duration_secs_def)

lemma started_obtain:
  assumes "start_service w = Some (s :: ('r, 'v) started)"
  obtains sl epoch forecast al service_cfg and app :: "'v app_state" where
    "slot_settings_of w = Some sl" and "provider_epoch w = Some epoch"
    and "st_config s = startup_config w sl" and "startup_forecast w (startup_config w sl) = Some forecast"
    and "startup_alignment w (startup_config w sl) epoch = Some al" and "startup_service_config w = Some service_cfg"
    and "app_state_new (wo_now_at_state w) (startup_shared w al) (startup_config w sl) service_cfg forecast = Some app"
    and "st_service s = startup_service (startup_config w sl)
           (case al of None \<Rightarrow> app | Some a \<Rightarrow> set_wall_clock_alignment a app)"
  using assms by (auto simp: start_service_def Let_def split: option.splits)

lemma started_scheduler:
  assumes "start_service w = Some (s :: ('r, 'v) started)"
  obtains sl where "slot_settings_of w = Some sl"
    and "ap_scheduler (sv_app (st_service s)) = service_scheduler_of (startup_config w sl)"
proof -
  obtain sl epoch forecast al service_cfg and app :: "'v app_state" where sl: "slot_settings_of w = Some sl"
    and app: "app_state_new (wo_now_at_state w) (startup_shared w al) (startup_config w sl) service_cfg forecast = Some app"
    and sv: "st_service s = startup_service (startup_config w sl)
           (case al of None \<Rightarrow> app | Some a \<Rightarrow> set_wall_clock_alignment a app)"
    by (rule started_obtain [OF assms])
  have "ap_scheduler app = service_scheduler_of (startup_config w sl)"
    using app by (auto simp: app_state_new_def Let_def split: option.splits)
  then show ?thesis
    using that [OF sl] by (cases al) (simp_all add: sv startup_service_def set_wall_clock_alignment_def)
qed

lemma startup_config_ok:
  assumes "rng_ok g" and "in_i32 (sl_total_slots sl)" and "startup_forecast w (startup_config w sl) = Some forecast"
  shows "config_ok g (startup_config w sl)"
  using assms by (simp add: config_ok_def startup_forecast_def default_forecast_def config_default_def swarm_config_default_def split: if_splits)

lemma startup_shared_clock: "\<exists>ms. startup_shared w al = set_virtual_elapsed_ms ms shared_state_new"
  by (cases al) (auto simp: startup_shared_def set_virtual_elapsed_ms_def shared_state_new_def)

text \<open>
  A start that succeeds gives a service that is fit to run: its configuration meets what the
  theorems about the scheduler ask for, its state is an initial one of the step relation, so that
  everything proved of the reachable states holds from here on, the horizon is not negative and the
  forecast covers it, the log is set up exactly if it was asked for, and empty slots are never skipped.
\<close>

theorem start_service_sound:
  assumes "start_service w = Some (s :: ('r, 'v) started)" and "rng_ok (g :: 'r rng)"
  shows "config_ok g (st_config s)
    \<and> service_reachable g (st_config s) fdb J (st_service s)
    \<and> service_inv (st_config s) (st_service s)
    \<and> length (ap_carbon_forecast (sv_app (st_service s))) = nat (cfg_total_slots (st_config s))
    \<and> \<not> sim_skip_empty_slots (cfg_simulation (st_config s))
    \<and> registry_from_config (st_config s) = Some (ap_profiles (sv_app (st_service s)))"
proof -
  obtain sl epoch forecast al service_cfg and app :: "'v app_state" where
      sl: "slot_settings_of w = Some sl" and cfg: "st_config s = startup_config w sl"
    and fc: "startup_forecast w (startup_config w sl) = Some forecast"
    and app: "app_state_new (wo_now_at_state w) (startup_shared w al) (startup_config w sl) service_cfg forecast = Some app"
    and sv: "st_service s = startup_service (startup_config w sl)
           (case al of None \<Rightarrow> app | Some a \<Rightarrow> set_wall_clock_alignment a app)"
    by (rule started_obtain [OF assms(1)])
  have ok: "config_ok g (st_config s)"
    unfolding cfg by (rule startup_config_ok [OF assms(2) slot_settings_sound(1) [OF sl] fc])
  obtain ms where ms: "startup_shared w al = set_virtual_elapsed_ms ms shared_state_new"
    using startup_shared_clock by blast
  have init: "service_init (st_config s) (st_service s)"
    unfolding service_init_def
  proof (intro conjI exI)
    show "app_state_new (wo_now_at_state w) (set_virtual_elapsed_ms ms shared_state_new) (st_config s) service_cfg forecast
        = Some app" using app ms cfg by simp
    show "sv_app (st_service s) = app \<or> (\<exists>a. sv_app (st_service s) = set_wall_clock_alignment a app)"
      by (cases al) (auto simp: sv startup_service_def)
  qed (simp_all add: sv startup_service_def)
  have "ap_carbon_forecast app = forecast" "registry_from_config (st_config s) = Some (ap_profiles app)"
    using app cfg by (auto simp: app_state_new_def Let_def split: option.splits)
  then have fields: "ap_carbon_forecast (sv_app (st_service s)) = forecast"
      "registry_from_config (st_config s) = Some (ap_profiles (sv_app (st_service s)))"
    by (cases al; simp add: sv startup_service_def set_wall_clock_alignment_def)+
  have "length forecast = nat (cfg_total_slots (st_config s))"
    using fc default_forecast_length unfolding startup_forecast_def cfg by blast
  then show ?thesis
    using ok service_reachable.Init [OF init] service_init_inv [OF init ok] fields cfg by simp
qed

lemma startup_slot_milliseconds:
  assumes "duration_try_from_secs (effective_slot_duration_secs cfg) = Some d"
  shows "0 < duration_as_millis d"
proof -
  have "round_half_even ((1 / 1000) * 1000000000) \<le> round_half_even (effective_slot_duration_secs cfg * 1000000000)"
    by (rule round_half_even_mono) (simp add: effective_slot_duration_secs_def)
  moreover have "round_half_even ((1 / 1000) * 1000000000) = 1000000" by (simp add: round_half_even_def Let_def)
  ultimately have "1000000 \<le> d"
    using assms by (auto simp: duration_try_from_secs_def Let_def nat_le_eq_zle split: if_splits)
  then show ?thesis by (simp add: duration_as_millis_def)
qed

text \<open>
  C29: The clock of a service that has started agrees with the provider's whenever the slot length it
  was given is a number. Then the provider's slot is as long as the scheduler's, to a microsecond, and
  a message that announces it will be accepted, as long as the slot has at least a millisecond. An
  infinite length never starts. With NaN the check passes whatever the provider's slot is, the service
  runs with slots of a millisecond, and a message that announces the provider's slot is refused
  unless that too is a millisecond long. In every case the slots have the effective length. A manual
  service starts at time zero and knows no offset. A realtime one numbers its slots from the global
  slot that contains the present: slot zero begins at the epoch plus that many whole slots, at or
  before the present and less than a slot before it, and the virtual clock is set to the time since
  then.
\<close>

theorem start_clock_aligned:
  assumes "start_service w = Some (s :: ('r, 'v) started)" and "slot_settings_of w = Some sl"
    and "provider_epoch w = Some epoch" and "app = sv_app (st_service s)"
    and "len = ssc_effective_slot_duration_secs (ap_scheduler app)"
  shows "(case sl_duration sl of
         Finite duration \<Rightarrow> len = max duration (1 / 1000) \<and> \<bar>sl_minutes sl * 60 - duration\<bar> \<le> 1 / 1000000
           \<and> (1 / 1000 \<le> duration \<longrightarrow> slot_length_ok (sl_minutes sl) app)
       | Infinite negative \<Rightarrow> False
       | Not_a_number \<Rightarrow> len = 1 / 1000
           \<and> (slot_length_ok (sl_minutes sl) app \<longleftrightarrow> \<bar>sl_minutes sl * 60 - 1 / 1000\<bar> \<le> 1 / 1000000))
    \<and> (if env_flag w ''MANUAL_CLOCK''
       then ap_slot_epoch_offset app = None \<and> ss_virtual_elapsed_ms (ap_shared app) = 0
       else \<exists>d k. duration_try_from_secs len = Some d
         \<and> 0 < duration_as_millis d \<and> ap_slot_epoch_offset app = Some k
         \<and> ap_slot_epoch_start_utc app = epoch + k * int (duration_as_millis d) * 1000000
         \<and> ap_slot_epoch_start_utc app \<le> wo_now_at_alignment w
         \<and> wo_now_at_alignment w < ap_slot_epoch_start_utc app + int (duration_as_millis d) * 1000000
         \<and> int (ss_virtual_elapsed_ms (ap_shared app))
             = (wo_now_at_alignment w - ap_slot_epoch_start_utc app) div 1000000 + int (wo_ms_run w))"
    (is "?length \<and> ?clock")
proof -
  let ?cfg = "startup_config w sl"
  obtain forecast al service_cfg and app0 :: "'v app_state" where
      al: "startup_alignment w ?cfg epoch = Some al"
    and app0: "app_state_new (wo_now_at_state w) (startup_shared w al) ?cfg service_cfg forecast = Some app0"
    and sv: "st_service s = startup_service ?cfg (case al of None \<Rightarrow> app0 | Some a \<Rightarrow> set_wall_clock_alignment a app0)"
    by (rule started_obtain [OF assms(1)]) (use assms(2,3) in simp)
  have app: "app = (case al of None \<Rightarrow> app0 | Some a \<Rightarrow> set_wall_clock_alignment a app0)"
    using sv assms(4) by (simp add: startup_service_def)
  have new: "ap_slot_epoch_offset app0 = None"
    "ss_virtual_elapsed_ms (ap_shared app0) = ss_virtual_elapsed_ms (startup_shared w al)"
    using app0 by (auto simp: app_state_new_def Let_def initialize_capacity_tiers_def split: option.splits)
  have "ap_scheduler app = service_scheduler_of ?cfg"
    by (rule started_scheduler [OF assms(1)]) (use assms(2,4) in simp)
  then have len: "len = max (stored_duration (sl_duration sl)) (1 / 1000)"
    by (simp add: assms(5) service_scheduler_of_def)
  have length: ?length
    using slot_settings_sound(2) [OF assms(2)]
    by (cases "sl_duration sl")
      (auto simp: len stored_duration_def slot_length_ok_def f64_is_finite_def not_less simp flip: assms(5))
  have clock: ?clock
  proof (cases "env_flag w ''MANUAL_CLOCK''")
    case True
    then have "al = None" using al by (simp add: startup_alignment_def)
    then show ?thesis using True new app by (simp add: startup_shared_def shared_state_new_def)
  next
    case False
    then obtain a where a: "al = Some a"
        "wall_clock_alignment (wo_now_at_alignment w) epoch (effective_slot_duration_secs ?cfg) = Inr a"
      using al by (auto simp: startup_alignment_def split: sum.splits)
    then obtain d where d: "duration_try_from_secs (effective_slot_duration_secs ?cfg) = Some d"
      by (auto simp: wall_clock_alignment_def split: option.splits)
    have sel: "ap_slot_epoch_offset app = Some (wc_global_slot a)" "ap_slot_epoch_start_utc app = wc_slot_start_utc a"
      "ss_virtual_elapsed_ms (ap_shared app) = wc_elapsed_in_slot_ms a + wo_ms_run w"
      using new by (simp_all add: app a(1) set_wall_clock_alignment_def startup_shared_def set_virtual_elapsed_ms_def)
    show ?thesis
      using False alignment_contains_now [OF a(2) d refl] startup_slot_milliseconds [OF d] d
      by (auto simp: sel len)
  qed
  show ?thesis using length clock by blast
qed

section \<open>Two concrete starts\<close>

definition sample_world :: "(string, string) hmap \<Rightarrow> unit environment" where
  "sample_world env =
     \<lparr>wo_env = env,
      wo_text = \<lparr>ft_show = (\<lambda>_. ''0.16''),
        ft_parse = map_of [(''10'', 10), (''5'', 5), (''0.9'', 9 / 10), (''0.16'', 1 / 6)]\<rparr>,
      wo_parse_rfc3339 = (\<lambda>_. Some 1577836800000000000),
      wo_now_at_alignment = 1577836825000000000, wo_now_at_state = 1577836826000000000, wo_ms_run = 3,
      wo_normal_new = (\<lambda>_. Some (\<lambda>n. (0, n))), wo_seed_from = (\<lambda>_. ()),
      wo_files = \<lparr>mlg_enabled = False, mlg_runs = None, mlg_assignments = None, mlg_slot_metrics = None,
        mlg_debug_path = False, mlg_infeasible_debug = None\<rparr>\<rparr>"

definition sample_slots :: slot_settings where
  "sample_slots = \<lparr>sl_total_slots = 24, sl_duration = Finite 10, sl_minutes = 1 / 6\<rparr>"

abbreviation manual_env :: "(string, string) hmap" where
  "manual_env \<equiv> [(''MANUAL_CLOCK'', ''1''), (''TOTAL_SLOTS'', ''24'')]"

abbreviation realtime_env :: "(string, string) hmap" where
  "realtime_env \<equiv> [(''TOTAL_SLOTS'', ''24'')]"

text \<open>A slot length that is not a number, with a provider's slot of five minutes.\<close>

abbreviation nan_env :: "(string, string) hmap" where
  "nan_env \<equiv> [(''MANUAL_CLOCK'', ''1''), (''TOTAL_SLOTS'', ''24''), (''SLOT_DURATION_SECONDS'', ''NaN''),
     (''PROVIDER_SLOT_MINUTES'', ''5'')]"

definition sample_slots_of :: "(string, string) hmap \<Rightarrow> slot_settings" where
  "sample_slots_of env =
     (if env = nan_env then \<lparr>sl_total_slots = 24, sl_duration = Not_a_number, sl_minutes = 5\<rparr> else sample_slots)"

lemma sample_texts:
  "parse_float (wo_text (sample_world env)) ''10'' = Some (Finite 10)"
  "parse_float (wo_text (sample_world env)) ''0.16'' = Some (Finite (1 / 6))"
  "parse_float (wo_text (sample_world env)) ''5'' = Some (Finite 5)"
  "parse_float (wo_text (sample_world env)) ''NaN'' = Some Not_a_number"
  by (simp_all add: parse_float_def sample_world_def to_ascii_lowercase_def ascii_lower_char_def char_of_def bit_simps Let_def)

lemma sample_settings:
  "env \<in> {manual_env, realtime_env, nan_env} \<Longrightarrow> slot_settings_of (sample_world env) = Some (sample_slots_of env)"
  using sample_texts [of env]
  by (auto simp: slot_settings_of_def sample_slots_of_def sample_world_def env_or_def env_float_def parse_i32_def
      parse_signed_def parse_nat_def in_i32_def sample_slots_def)

lemma sample_epoch: "provider_epoch (sample_world env) = Some 1577836800000000000"
  by (simp add: provider_epoch_def sample_world_def)

lemma sample_env_unset:
  assumes "env \<in> {manual_env, realtime_env, nan_env}"
    and "name \<notin> {''MANUAL_CLOCK'', ''TOTAL_SLOTS'', ''SLOT_DURATION_SECONDS'', ''PROVIDER_SLOT_MINUTES''}"
  shows "env_or env name otherwise = otherwise"
  using assms by (auto simp: env_or_def)

lemma sample_numbers:
  "parse_unsigned 32 ''5'' = Some 5" "parse_unsigned 64 ''500'' = Some 500"
  "parse_unsigned 64 ''30000'' = Some 30000" "parse_unsigned 64 ''200'' = Some 200"
  by (simp_all add: parse_unsigned_def parse_nat_def)

lemma sample_service_settings:
  assumes "env \<in> {manual_env, realtime_env, nan_env}"
  shows "\<exists>service_cfg. startup_service_config (sample_world env) = Some service_cfg"
proof -
  have numeral_text: "wo_env (sample_world env) = env" "ft_parse (wo_text (sample_world env)) ''5'' = Some 5"
    "ft_parse (wo_text (sample_world env)) ''0.9'' = Some (9 / 10)" by (simp_all add: sample_world_def)
  note not_set = sample_env_unset [OF assms]
  have "env_f64 (sample_world env) ''SUBMIT_WAIT_TIMEOUT_SECS'' ''5'' = Some 5"
    "env_f64 (sample_world env) ''HORIZON_READY_THRESHOLD'' ''0.9'' = Some (9 / 10)"
    "env_unsigned 32 (sample_world env) ''EXECUTOR_MAX_RETRIES'' ''5'' = Some 5"
    "env_unsigned 64 (sample_world env) ''EXECUTOR_RETRY_BASE_MS'' ''500'' = Some 500"
    "env_unsigned 64 (sample_world env) ''EXECUTOR_RETRY_MAX_MS'' ''30000'' = Some 30000"
    "env_unsigned 64 (sample_world env) ''DISPATCHER_POLL_INTERVAL_MS'' ''200'' = Some 200"
    by (simp_all add: env_f64_def env_unsigned_def numeral_text not_set sample_numbers)
  then show ?thesis by (simp add: startup_service_config_def Let_def)
qed

lemma sample_forecast:
  "\<exists>forecast. startup_forecast (sample_world env) (startup_config (sample_world env) (sample_slots_of env)) = Some forecast"
  by (simp add: startup_forecast_def default_forecast_def sample_slots_of_def sample_slots_def sample_world_def generate_carbon_intensity_forecast_def)

lemma sample_alignment:
  "wall_clock_alignment 1577836825000000000 1577836800000000000 10
    = Inr \<lparr>wc_global_slot = 2, wc_slot_start_utc = 1577836820000000000, wc_elapsed_in_slot_ms = 5000\<rparr>"
  by (simp add: wall_clock_alignment_def duration_try_from_secs_def round_half_even_def Let_def
      duration_as_millis_def fits_u64_def time_checked_add_def system_time_ok_def)

lemma sample_app:
  assumes "0 \<le> ms" and "ms < 1000000"
  shows "\<exists>app :: 'v app_state. app_state_new 1577836826000000000 (set_virtual_elapsed_ms ms shared_state_new) cfg service_cfg forecast
     = Some app"
proof -
  obtain reg where reg: "registry_from_config cfg = Some reg" using default_profile_registered [of cfg] by blast
  let ?x = "real ms / 1000 * 1000000000"
  have "?x = real_of_int (int ms * 1000000)" by simp
  then have r: "round_half_even ?x = int ms * 1000000"
    unfolding round_half_even_def Let_def by (metis diff_self floor_of_int half_gt_zero zero_less_one)
  have "\<exists>d. duration_try_from_secs (max (real ms / 1000) 0) = Some d \<and> d < 1000000000000"
    using assms r by (simp add: duration_try_from_secs_def Let_def)
  then show ?thesis
    using reg by (auto simp: app_state_new_def Let_def virtual_elapsed_secs_def initialize_capacity_tiers_def
        set_virtual_elapsed_ms_def time_checked_sub_def system_time_ok_def)
qed

lemma sample_starts:
  assumes "env \<in> {manual_env, realtime_env, nan_env}"
  shows "\<exists>s :: ('r, json) started. start_service (sample_world env) = Some s"
proof -
  let ?w = "sample_world env" let ?cfg = "startup_config (sample_world env) (sample_slots_of env)"
  obtain service_cfg where sc: "startup_service_config ?w = Some service_cfg"
    using sample_service_settings [OF assms] by blast
  obtain forecast where fc: "startup_forecast ?w ?cfg = Some forecast" using sample_forecast by blast
  have now: "wo_now_at_alignment ?w = 1577836825000000000" "wo_now_at_state ?w = 1577836826000000000"
    "wo_ms_run ?w = 3" by (simp_all add: sample_world_def)
  have dur: "effective_slot_duration_secs ?cfg = 10" if "\<not> env_flag ?w ''MANUAL_CLOCK''"
    using that assms by (auto simp: env_flag_def env_or_def sample_world_def sample_slots_of_def sample_slots_def stored_duration_def)
  have "\<exists>al. startup_alignment ?w ?cfg 1577836800000000000 = Some al
      \<and> (case al of None \<Rightarrow> True | Some a \<Rightarrow> wc_elapsed_in_slot_ms a = 5000)"
    using dur by (simp add: startup_alignment_def now sample_alignment)
  then obtain al where al: "startup_alignment ?w ?cfg 1577836800000000000 = Some al"
    "case al of None \<Rightarrow> True | Some a \<Rightarrow> wc_elapsed_in_slot_ms a = 5000" by blast
  have "\<exists>ms. startup_shared ?w al = set_virtual_elapsed_ms ms shared_state_new \<and> ms < 1000000"
    using al(2) now by (cases al) (auto simp: startup_shared_def set_virtual_elapsed_ms_def shared_state_new_def)
  then have "\<exists>app :: json app_state. app_state_new (wo_now_at_state ?w) (startup_shared ?w al) ?cfg service_cfg forecast = Some app"
    unfolding now using sample_app by auto
  then show ?thesis
    using sc fc al(1) sample_settings [OF assms] sample_epoch [of env] by (auto simp: start_service_def Let_def)
qed

lemma start_service_sound_witness:
  "\<exists>s :: (unit, json) started. start_service (sample_world manual_env) = Some s
    \<and> config_ok still_rng (st_config s)
    \<and> service_reachable still_rng (st_config s) [] sample_json (st_service s)
    \<and> service_inv (st_config s) (st_service s)
    \<and> length (ap_carbon_forecast (sv_app (st_service s))) = nat (cfg_total_slots (st_config s))
    \<and> \<not> sim_skip_empty_slots (cfg_simulation (st_config s))
    \<and> registry_from_config (st_config s) = Some (ap_profiles (sv_app (st_service s)))"
proof -
  obtain s :: "(unit, json) started" where s: "start_service (sample_world manual_env) = Some s"
    using sample_starts [of manual_env] by auto
  show ?thesis using s start_service_sound [OF s still_rng_ok] by blast
qed

lemma start_clock_aligned_witness:
  "\<exists>s :: (unit, json) started. start_service (sample_world realtime_env) = Some s
    \<and> slot_length_ok (1 / 6) (sv_app (st_service s))
    \<and> ap_slot_epoch_offset (sv_app (st_service s)) = Some 2
    \<and> ss_virtual_elapsed_ms (ap_shared (sv_app (st_service s))) = 5003"
proof -
  obtain s :: "(unit, json) started" where s: "start_service (sample_world realtime_env) = Some s"
    using sample_starts [of realtime_env] by auto
  have realtime: "\<not> env_flag (sample_world realtime_env) ''MANUAL_CLOCK''"
    by (simp add: env_flag_def env_or_def sample_world_def)
  have now: "wo_now_at_alignment (sample_world realtime_env) = 1577836825000000000" "wo_ms_run (sample_world realtime_env) = 3"
    by (simp_all add: sample_world_def)
  have d: "duration_try_from_secs 10 = Some 10000000000"
    by (simp add: duration_try_from_secs_def round_half_even_def Let_def)
  have sl: "sl_duration (sample_slots_of realtime_env) = Finite 10" "sl_minutes (sample_slots_of realtime_env) = 1 / 6"
    by (simp_all add: sample_slots_of_def sample_slots_def)
  note c = start_clock_aligned [OF s sample_settings sample_epoch refl refl]
  obtain k where k: "ap_slot_epoch_offset (sv_app (st_service s)) = Some k"
    "1577836800000000000 + k * 10000 * 1000000 \<le> (1577836825000000000 :: int)"
    "(1577836825000000000 :: int) < 1577836800000000000 + k * 10000 * 1000000 + 10000 * 1000000"
    "int (ss_virtual_elapsed_ms (ap_shared (sv_app (st_service s))))
      = (1577836825000000000 - (1577836800000000000 + k * 10000 * 1000000)) div 1000000 + 3"
    using c realtime by (auto simp: d sl now duration_as_millis_def)
  from k(2,3) have "k = 2" by linarith
  then have "int (ss_virtual_elapsed_ms (ap_shared (sv_app (st_service s)))) = 5003" using k(4) by simp
  then have "ss_virtual_elapsed_ms (ap_shared (sv_app (st_service s))) = 5003" by linarith
  moreover have "slot_length_ok (1 / 6) (sv_app (st_service s))" using c by (simp add: sl)
  ultimately show ?thesis using s k(1) \<open>k = 2\<close> by blast
qed

text \<open>
  A slot length that is not a number starts. The provider's slot has five minutes, the service's a
  millisecond, and a message that announces the provider's slot will be refused.
\<close>

lemma nan_duration_starts:
  "\<exists>s :: (unit, json) started. start_service (sample_world nan_env) = Some s
    \<and> ssc_effective_slot_duration_secs (ap_scheduler (sv_app (st_service s))) = 1 / 1000
    \<and> \<not> slot_length_ok 5 (sv_app (st_service s))"
proof -
  obtain s :: "(unit, json) started" where s: "start_service (sample_world nan_env) = Some s"
    using sample_starts [of nan_env] by auto
  obtain sl where sl: "slot_settings_of (sample_world nan_env) = Some sl"
    and sched: "ap_scheduler (sv_app (st_service s)) = service_scheduler_of (startup_config (sample_world nan_env) sl)"
    by (rule started_scheduler [OF s])
  have "sl_duration sl = Not_a_number"
    using sl sample_settings [of nan_env] by (auto simp: sample_slots_of_def)
  then have "ssc_effective_slot_duration_secs (ap_scheduler (sv_app (st_service s))) = 1 / 1000"
    by (simp add: sched stored_duration_def service_scheduler_of_def)
  then show ?thesis using s by (auto simp: slot_length_ok_def)
qed

end
