(* ===== verification/Benchmark.thy ===== *)
theory Benchmark
  imports Offline_Swarm Metrics_Log Dispatch
begin

text \<open>
  The benchmark front end (\<open>bin/nshift/main.rs\<close>): arguments, the JSON configuration, the configuration
  of a run, one run of the scheduler on a scenario and the sweep over batch sizes and strategies with
  all the files it writes. Parameters: the JSON library as a record of its accessors, the text of
  floats, the clock, and the threads of generator and scheduler, whose possible behaviour is the subject
  of \<open>Generator\<close> and \<open>Scheduler\<close> and of which a run reads only what they leave behind. Paths are strings
  and a file is the value of its path. \<open>None\<close> is a panic or a wait that never ends; printing is left out.
\<close>

section \<open>Arguments\<close>

record arguments =
  arg_config_path :: "string option"
  arg_realtime :: "bool option"
  arg_speed_scale :: "f64 option"
  arg_verbose :: bool

definition no_arguments :: arguments where
  "no_arguments = \<lparr>arg_config_path = None, arg_realtime = None, arg_speed_scale = None, arg_verbose = False\<rparr>"

fun parse_args :: "f64_text \<Rightarrow> string list \<Rightarrow> arguments \<Rightarrow> arguments option" where
  "parse_args t [] a = Some a"
| "parse_args t (x # xs) a =
     (if x = ''--config'' then
        (case xs of [] \<Rightarrow> None | p # rest \<Rightarrow> parse_args t rest (a\<lparr>arg_config_path := Some p\<rparr>))
      else if x = ''--realtime-slots'' then parse_args t xs (a\<lparr>arg_realtime := Some True\<rparr>)
      else if x = ''--no-realtime-slots'' then parse_args t xs (a\<lparr>arg_realtime := Some False\<rparr>)
      else if x = ''--speed-scale'' then
        (case xs of
           [] \<Rightarrow> None
         | s # rest \<Rightarrow>
             (case ft_parse t s of
                None \<Rightarrow> None
              | Some v \<Rightarrow> if 0 \<le> v \<and> v \<le> 1 then parse_args t rest (a\<lparr>arg_speed_scale := Some v\<rparr>) else None))
      else if x = ''--verbose'' then parse_args t xs (a\<lparr>arg_verbose := True\<rparr>)
      else parse_args t xs a)"

section \<open>Paths\<close>

definition path_join :: "string \<Rightarrow> string \<Rightarrow> string" where
  "path_join base p =
     (if p \<noteq> [] \<and> hd p = CHR ''/'' then p
      else if base = [] \<or> List.last base = CHR ''/'' then base @ p
      else base @ ''/'' @ p)"

text \<open>The directory of a path that ends with a name.\<close>

definition path_parent :: "string \<Rightarrow> string" where
  "path_parent p =
     (let dir = rev (dropWhile (\<lambda>c. c \<noteq> CHR ''/'') (rev p));
          trimmed = rev (dropWhile (\<lambda>c. c = CHR ''/'') (rev dir))
      in if dir \<noteq> [] \<and> trimmed = [] then ''/'' else trimmed)"

section \<open>The benchmark configuration\<close>

record 'j value_api =
  vl_get :: "'j \<Rightarrow> string \<Rightarrow> 'j option"
  vl_null :: 'j
  vl_array :: "'j \<Rightarrow> 'j list option"
  vl_u64 :: "'j \<Rightarrow> nat option"
  vl_f64 :: "'j \<Rightarrow> f64 option"
  vl_str :: "'j \<Rightarrow> string option"
  vl_bool :: "'j \<Rightarrow> bool option"
  vl_flavours :: "'j \<Rightarrow> flavour list option"

text \<open>Indexing a value that has no such key gives null.\<close>

definition vl_index :: "'j value_api \<Rightarrow> 'j \<Rightarrow> string \<Rightarrow> 'j" where
  "vl_index j v k = (case vl_get j v k of Some x \<Rightarrow> x | None \<Rightarrow> vl_null j)"

definition vl_field :: "('j value_api \<Rightarrow> 'j \<Rightarrow> 'a option) \<Rightarrow> 'j value_api \<Rightarrow> 'j \<Rightarrow> string \<Rightarrow> 'a option" where
  "vl_field get j v k = (case vl_get j v k of Some x \<Rightarrow> get j x | None \<Rightarrow> None)"

record benchmark_config =
  bc_batch_sizes :: "nat list"
  bc_scenario_path :: string
  bc_output_dir :: string
  bc_realtime_slots :: bool
  bc_realtime_speed_scale :: f64
  bc_include_greedy_baseline :: bool
  bc_infeasibility_recovery_mode :: "string option"
  bc_rollback_max_consecutive :: nat
  bc_additional_strategies :: "string list"
  bc_online_strategies :: "string list"
  bc_online_batch_sizes :: "nat list option"
  bc_batch_timeout_secs :: f64
  bc_max_batch_solver_parallelism :: "nat option"
  bc_online_swarm_mode :: "string option"
  bc_baseline_total_carbon_cost :: "f64 option"
  bc_flavours :: "flavour list option"

definition value_or :: "'a \<Rightarrow> 'a option \<Rightarrow> 'a" where
  "value_or d x = (case x of Some y \<Rightarrow> y | None \<Rightarrow> d)"

text \<open>The elements of an array that are strings; the others are skipped.\<close>

definition strings_of :: "'j value_api \<Rightarrow> 'j list option \<Rightarrow> string list" where
  "strings_of j arr = (case arr of Some xs \<Rightarrow> List.map_filter (vl_str j) xs | None \<Rightarrow> [])"

definition load_benchmark_config :: "'j value_api \<Rightarrow> string \<Rightarrow> 'j \<Rightarrow> benchmark_config option" where
  "load_benchmark_config j config_path v =
     (let config_dir = path_parent config_path;
          out_key = (if vl_field vl_str j v ''rust_output_dir'' \<noteq> None then ''rust_output_dir'' else ''output_dir'');
          runner = vl_index j v ''runner''
      in case (vl_array j (vl_index j v ''batch_sizes''), vl_str j (vl_index j v ''scenario_path''),
               vl_str j (vl_index j v out_key)) of
        (Some sizes, Some scenario, Some out) \<Rightarrow>
          (case (collect_all (vl_u64 j) sizes,
                 case vl_field vl_array j runner ''online_batch_sizes'' of
                   None \<Rightarrow> Some None
                 | Some xs \<Rightarrow> map_option Some (collect_all (vl_u64 j) xs),
                 case vl_get j runner ''flavours'' of
                   None \<Rightarrow> Some None
                 | Some x \<Rightarrow> map_option Some (vl_flavours j x)) of
             (Some batch_sizes, Some online_batch_sizes, Some flavours) \<Rightarrow>
               Some \<lparr>bc_batch_sizes = batch_sizes,
                 bc_scenario_path = path_join config_dir scenario,
                 bc_output_dir = path_join config_dir out,
                 bc_realtime_slots = value_or False (vl_field vl_bool j runner ''realtime_slots''),
                 bc_realtime_speed_scale = value_or 1 (vl_field vl_f64 j runner ''realtime_speed_scale''),
                 bc_include_greedy_baseline = value_or True (vl_field vl_bool j runner ''include_greedy_baseline''),
                 bc_infeasibility_recovery_mode = vl_field vl_str j runner ''infeasibility_recovery_mode'',
                 bc_rollback_max_consecutive = value_or 3 (vl_field vl_u64 j runner ''rollback_max_consecutive''),
                 bc_additional_strategies = strings_of j (vl_field vl_array j runner ''additional_strategies''),
                 bc_online_strategies = strings_of j (vl_field vl_array j runner ''online_strategies''),
                 bc_online_batch_sizes = online_batch_sizes,
                 bc_batch_timeout_secs = value_or 0 (vl_field vl_f64 j runner ''batch_timeout_secs''),
                 bc_max_batch_solver_parallelism = vl_field vl_u64 j runner ''max_batch_solver_parallelism'',
                 bc_online_swarm_mode = vl_field vl_str j runner ''online_swarm_mode'',
                 bc_baseline_total_carbon_cost = vl_field vl_f64 j runner ''baseline_total_carbon_cost'',
                 bc_flavours = flavours\<rparr>
           | _ \<Rightarrow> None)
      | _ \<Rightarrow> None)"

text \<open>The scenario's parameters over the defaults, and the benchmark's over both.\<close>

definition benchmark_base_config :: "benchmark_config \<Rightarrow> scenario_metadata \<Rightarrow> config" where
  "benchmark_base_config b meta =
     (let cfg = apply_scenario_metadata meta config_default
      in cfg\<lparr>cfg_infeasibility := (cfg_infeasibility cfg)
               \<lparr>inf_recovery_mode := value_or (inf_recovery_mode (cfg_infeasibility cfg)) (bc_infeasibility_recovery_mode b)\<rparr>,
             cfg_solver := (cfg_solver cfg)
               \<lparr>sc_rollback_max_consecutive := bc_rollback_max_consecutive b,
                sc_batch_timeout_secs := bc_batch_timeout_secs b,
                sc_max_batch_solver_parallelism :=
                  value_or (sc_max_batch_solver_parallelism (cfg_solver cfg)) (bc_max_batch_solver_parallelism b)\<rparr>,
             cfg_swarm := (cfg_swarm cfg)\<lparr>sw_mode := value_or (sw_mode (cfg_swarm cfg)) (bc_online_swarm_mode b)\<rparr>,
             cfg_flavours := value_or (cfg_flavours cfg) (bc_flavours b)\<rparr>)"

section \<open>Files\<close>

datatype file_cell = Nat_cell nat | Int_cell int | Float_cell f64 | Text_cell string | Bool_cell bool

fun cell_text :: "f64_text \<Rightarrow> file_cell \<Rightarrow> string" where
  "cell_text t (Nat_cell n) = show_nat n"
| "cell_text t (Int_cell i) = show_int i"
| "cell_text t (Float_cell x) = ft_show t x"
| "cell_text t (Text_cell s) = s"
| "cell_text t (Bool_cell b) = show_bool b"

type_synonym json_object = "(string \<times> file_cell) list"

text \<open>A JSON file holds one object, or an object whose \<open>rows\<close> are a list of objects.\<close>

datatype file_content = Csv_file csv_file | Json_file json_object | Json_rows "json_object list"

type_synonym files = "(string, file_content) hmap"

definition summary_csv_header :: "string list" where
  "summary_csv_header =
     [''execution_mode'', ''batch_size'', ''realtime_slots'', ''realtime_speed_scale'',
      ''baseline_flavour_name'', ''baseline_flavour_duration_sec'', ''baseline_flavour_error'',
      ''requests_total'', ''requests_scheduled'', ''requests_unscheduled'', ''requests_late'',
      ''max_lateness_slots'', ''batches_executed'', ''carbon_cost'', ''global_average_error'',
      ''global_average_error_real'', ''global_average_error_modeled'',
      ''global_average_error_real_skip_first_k'', ''global_average_error_modeled_skip_first_k'',
      ''requests_assigned_with_greedy_fallback'', ''requests_assigned_with_relaxed_retry'',
      ''total_rollbacks'', ''peak_consecutive_rollbacks'', ''requests_assigned_with_rollback'',
      ''peak_concurrent_workers'', ''avg_concurrent_workers'', ''solver_time_ms_min'',
      ''solver_time_ms_max'', ''solver_time_ms_avg'', ''queue_wait_seconds_min'',
      ''queue_wait_seconds_max'', ''queue_wait_seconds_avg'', ''final_wait_seconds_min'',
      ''final_wait_seconds_max'', ''final_wait_seconds_avg'', ''baseline_carbon_cost'',
      ''carbon_cost_saving_vs_baseline'', ''carbon_saving'', ''run_elapsed_seconds'']"

definition summary_to_json :: "run_summary \<Rightarrow> json_object" where
  "summary_to_json s =
     [(''execution_mode'', Text_cell (rs_execution_mode s)),
      (''batch_size'', Nat_cell (rs_batch_size s)),
      (''realtime_slots'', Bool_cell (rs_realtime_slots s)),
      (''realtime_speed_scale'', Float_cell (rs_realtime_speed_scale s)),
      (''baseline_flavour_name'', Text_cell (rs_baseline_flavour_name s)),
      (''baseline_flavour_duration_sec'', Float_cell (rs_baseline_flavour_duration s)),
      (''baseline_flavour_error'', Float_cell (rs_baseline_flavour_error s)),
      (''requests_total'', Nat_cell (rs_requests_total s)),
      (''requests_scheduled'', Nat_cell (rs_requests_scheduled s)),
      (''requests_unscheduled'', Nat_cell (rs_requests_unscheduled s)),
      (''requests_late'', Nat_cell (rs_requests_late s)),
      (''max_lateness_slots'', Int_cell (rs_max_lateness_slots s)),
      (''batches_executed'', Nat_cell (rs_batches_executed s)),
      (''carbon_cost'', Float_cell (rs_total_carbon_cost s)),
      (''global_average_error'', Float_cell (rs_global_average_error s)),
      (''global_average_error_real'', Float_cell (rs_global_average_error_real s)),
      (''global_average_error_modeled'', Float_cell (rs_global_average_error_modeled s)),
      (''global_average_error_real_skip_first_k'', Float_cell (rs_global_average_error_real_skip_first_k s)),
      (''global_average_error_modeled_skip_first_k'', Float_cell (rs_global_average_error_modeled_skip_first_k s)),
      (''requests_assigned_with_greedy_fallback'', Nat_cell (rs_requests_assigned_with_greedy_fallback s)),
      (''requests_assigned_with_relaxed_retry'', Nat_cell (rs_requests_assigned_with_relaxed_retry s)),
      (''total_rollbacks'', Nat_cell (rs_total_rollbacks s)),
      (''peak_consecutive_rollbacks'', Nat_cell (rs_max_consecutive_rollbacks s)),
      (''requests_assigned_with_rollback'', Nat_cell (rs_requests_assigned_with_rollback s)),
      (''peak_concurrent_workers'', Nat_cell (rs_peak_concurrent_workers s)),
      (''avg_concurrent_workers'', Float_cell (rs_avg_concurrent_workers s)),
      (''solver_time_ms_min'', Float_cell (fst (rs_solver_time_ms s))),
      (''solver_time_ms_max'', Float_cell (fst (snd (rs_solver_time_ms s)))),
      (''solver_time_ms_avg'', Float_cell (snd (snd (rs_solver_time_ms s)))),
      (''queue_wait_seconds_min'', Float_cell (fst (rs_queue_wait_seconds s))),
      (''queue_wait_seconds_max'', Float_cell (fst (snd (rs_queue_wait_seconds s)))),
      (''queue_wait_seconds_avg'', Float_cell (snd (snd (rs_queue_wait_seconds s)))),
      (''final_wait_seconds_min'', Float_cell (fst (rs_final_wait_seconds s))),
      (''final_wait_seconds_max'', Float_cell (fst (snd (rs_final_wait_seconds s)))),
      (''final_wait_seconds_avg'', Float_cell (snd (snd (rs_final_wait_seconds s)))),
      (''baseline_carbon_cost'', Float_cell (rs_baseline_total_carbon_cost s)),
      (''carbon_cost_saving_vs_baseline'', Float_cell (rs_carbon_cost_saving_vs_baseline s)),
      (''carbon_saving'', Float_cell (rs_carbon_cost_saving_vs_baseline_pct s)),
      (''run_elapsed_seconds'', Float_cell (rs_run_elapsed_seconds s))]"

definition summary_csv_row :: "f64_text \<Rightarrow> run_summary \<Rightarrow> string list" where
  "summary_csv_row t s =
     [rs_execution_mode s,
      show_nat (rs_batch_size s),
      show_bool (rs_realtime_slots s),
      ft_show t (rs_realtime_speed_scale s),
      rs_baseline_flavour_name s,
      ft_show t (rs_baseline_flavour_duration s),
      ft_show t (rs_baseline_flavour_error s),
      show_nat (rs_requests_total s),
      show_nat (rs_requests_scheduled s),
      show_nat (rs_requests_unscheduled s),
      show_nat (rs_requests_late s),
      show_int (rs_max_lateness_slots s),
      show_nat (rs_batches_executed s),
      ft_show t (rs_total_carbon_cost s),
      ft_show t (rs_global_average_error s),
      ft_show t (rs_global_average_error_real s),
      ft_show t (rs_global_average_error_modeled s),
      ft_show t (rs_global_average_error_real_skip_first_k s),
      ft_show t (rs_global_average_error_modeled_skip_first_k s),
      show_nat (rs_requests_assigned_with_greedy_fallback s),
      show_nat (rs_requests_assigned_with_relaxed_retry s),
      show_nat (rs_total_rollbacks s),
      show_nat (rs_max_consecutive_rollbacks s),
      show_nat (rs_requests_assigned_with_rollback s),
      show_nat (rs_peak_concurrent_workers s),
      ft_show t (rs_avg_concurrent_workers s),
      ft_show t (fst (rs_solver_time_ms s)),
      ft_show t (fst (snd (rs_solver_time_ms s))),
      ft_show t (snd (snd (rs_solver_time_ms s))),
      ft_show t (fst (rs_queue_wait_seconds s)),
      ft_show t (fst (snd (rs_queue_wait_seconds s))),
      ft_show t (snd (snd (rs_queue_wait_seconds s))),
      ft_show t (fst (rs_final_wait_seconds s)),
      ft_show t (fst (snd (rs_final_wait_seconds s))),
      ft_show t (snd (snd (rs_final_wait_seconds s))),
      ft_show t (rs_baseline_total_carbon_cost s),
      ft_show t (rs_carbon_cost_saving_vs_baseline s),
      ft_show t (rs_carbon_cost_saving_vs_baseline_pct s),
      ft_show t (rs_run_elapsed_seconds s)]"

definition per_request_header :: "string list" where
  "per_request_header =
     [''request_id'', ''arrival_time'', ''arrival_slot'', ''deadline_slot'', ''included_in_batch_slot'',
      ''batch_sequence'', ''scheduled_slot'', ''queue_wait_slots'', ''queue_wait_seconds'',
      ''final_wait_slots'', ''final_wait_seconds'', ''flavour_name'', ''error'', ''carbon_cost'',
      ''assignment_solver_mode'', ''assignment_solver_status'', ''assigned_with_greedy_fallback'',
      ''assigned_with_relaxed_retry'', ''assigned_with_rollback'', ''lateness_slots'']"

definition per_request_csv :: "f64_text \<Rightarrow> per_request \<Rightarrow> string list" where
  "per_request_csv t r =
     [show_nat (pr_request_id r), ft_show t (pr_arrival_time r), show_int (pr_arrival_slot r),
      show_int (pr_deadline_slot r), show_int (pr_included_in_batch_slot r), show_nat (pr_batch_sequence r),
      show_int (pr_scheduled_slot r), show_int (pr_queue_wait_slots r), ft_show t (pr_queue_wait_seconds r),
      show_int (pr_final_wait_slots r), ft_show t (pr_final_wait_seconds r), pr_flavour_name r,
      ft_show t (pr_error r), ft_show t (pr_carbon_cost r), pr_assignment_solver_mode r,
      pr_assignment_solver_status r, show_bool (pr_assigned_with_greedy_fallback r),
      show_bool (pr_assigned_with_relaxed_retry r), show_bool (pr_assigned_with_rollback r),
      show_int (pr_lateness_slots r)]"

definition per_request_json :: "per_request \<Rightarrow> json_object" where
  "per_request_json r =
     [(''request_id'', Nat_cell (pr_request_id r)),
      (''arrival_time'', Float_cell (pr_arrival_time r)),
      (''arrival_slot'', Int_cell (pr_arrival_slot r)),
      (''deadline_slot'', Int_cell (pr_deadline_slot r)),
      (''included_in_batch_slot'', Int_cell (pr_included_in_batch_slot r)),
      (''batch_sequence'', Nat_cell (pr_batch_sequence r)),
      (''scheduled_slot'', Int_cell (pr_scheduled_slot r)),
      (''queue_wait_slots'', Int_cell (pr_queue_wait_slots r)),
      (''queue_wait_seconds'', Float_cell (pr_queue_wait_seconds r)),
      (''final_wait_slots'', Int_cell (pr_final_wait_slots r)),
      (''final_wait_seconds'', Float_cell (pr_final_wait_seconds r)),
      (''flavour_name'', Text_cell (pr_flavour_name r)),
      (''error'', Float_cell (pr_error r)),
      (''carbon_cost'', Float_cell (pr_carbon_cost r)),
      (''assignment_solver_mode'', Text_cell (pr_assignment_solver_mode r)),
      (''assignment_solver_status'', Text_cell (pr_assignment_solver_status r)),
      (''assigned_with_greedy_fallback'', Bool_cell (pr_assigned_with_greedy_fallback r)),
      (''assigned_with_relaxed_retry'', Bool_cell (pr_assigned_with_relaxed_retry r)),
      (''assigned_with_rollback'', Bool_cell (pr_assigned_with_rollback r)),
      (''lateness_slots'', Int_cell (pr_lateness_slots r))]"

definition per_timeslot_header :: "string list" where
  "per_timeslot_header =
     [''timeslot'', ''window_start'', ''window_end'', ''real_request_count'', ''modeled_request_count'',
      ''window_avg_error_real'', ''window_avg_error_modeled'']"

definition per_timeslot_csv :: "f64_text \<Rightarrow> per_timeslot \<Rightarrow> string list" where
  "per_timeslot_csv t p =
     [show_int (pt_timeslot p), show_int (pt_window_start p), show_int (pt_window_end p),
      ft_show t (pt_real_request_count p), ft_show t (pt_modeled_request_count p),
      ft_show t (pt_window_avg_error_real p), ft_show t (pt_window_avg_error_modeled p)]"

definition per_timeslot_json :: "per_timeslot \<Rightarrow> json_object" where
  "per_timeslot_json p =
     [(''timeslot'', Int_cell (pt_timeslot p)),
      (''window_start'', Int_cell (pt_window_start p)),
      (''window_end'', Int_cell (pt_window_end p)),
      (''real_request_count'', Float_cell (pt_real_request_count p)),
      (''modeled_request_count'', Float_cell (pt_modeled_request_count p)),
      (''window_avg_error_real'', Float_cell (pt_window_avg_error_real p)),
      (''window_avg_error_modeled'', Float_cell (pt_window_avg_error_modeled p))]"

definition batch_timing_header :: "string list" where
  "batch_timing_header =
     [''batch_sequence'', ''batch_size_n'', ''effective_batch_size'', ''slot'', ''pending_before'',
      ''solver_elapsed_ms'', ''scheduled'', ''flush_partial_batch'']"

definition batch_timing_csv :: "f64_text \<Rightarrow> batch_timing \<Rightarrow> string list" where
  "batch_timing_csv t b =
     [show_nat (bt_batch_sequence b), show_nat (bt_batch_size_n b), show_nat (bt_effective_batch_size b),
      show_int (bt_slot b), show_nat (bt_pending_before b), ft_show t (bt_solver_elapsed_ms b),
      show_bool (bt_scheduled b), show_bool (bt_flush_partial_batch b)]"

definition batch_timing_json :: "batch_timing \<Rightarrow> json_object" where
  "batch_timing_json b =
     [(''batch_sequence'', Nat_cell (bt_batch_sequence b)),
      (''batch_size_n'', Nat_cell (bt_batch_size_n b)),
      (''effective_batch_size'', Nat_cell (bt_effective_batch_size b)),
      (''slot'', Int_cell (bt_slot b)),
      (''pending_before'', Nat_cell (bt_pending_before b)),
      (''solver_elapsed_ms'', Float_cell (bt_solver_elapsed_ms b)),
      (''scheduled'', Bool_cell (bt_scheduled b)),
      (''flush_partial_batch'', Bool_cell (bt_flush_partial_batch b))]"

definition runtime_csv :: "f64_text \<Rightarrow> f64 \<Rightarrow> per_request \<Rightarrow> string list" where
  "runtime_csv t ts r =
     [show_nat (pr_request_id r), show_int (pr_scheduled_slot r), pr_flavour_name r,
      ft_show t (pr_carbon_cost r), ft_show t (pr_error r), ft_show t ts]"

text \<open>A file that exists is overwritten.\<close>

definition write_table ::
    "string \<Rightarrow> string \<Rightarrow> string list \<Rightarrow> string list list \<Rightarrow> json_object list \<Rightarrow> files \<Rightarrow> files" where
  "write_table dir name header lines objects fs =
     hm_insert (path_join dir (name @ ''.json'')) (Json_rows objects)
       (hm_insert (path_join dir (name @ ''.csv'')) (Csv_file (header # lines)) fs)"

definition write_summary :: "f64_text \<Rightarrow> string \<Rightarrow> string \<Rightarrow> run_summary \<Rightarrow> files \<Rightarrow> files" where
  "write_summary t dir name sm fs =
     hm_insert (path_join dir (name @ ''.csv'')) (Csv_file [summary_csv_header, summary_csv_row t sm])
       (hm_insert (path_join dir (name @ ''.json'')) (Json_file (summary_to_json sm)) fs)"

definition write_run_outputs ::
    "f64_text \<Rightarrow> f64 \<Rightarrow> string \<Rightarrow> run_summary \<Rightarrow> per_request list \<Rightarrow> batch_timing list \<Rightarrow> per_timeslot list
     \<Rightarrow> files \<Rightarrow> files" where
  "write_run_outputs t ts dir sm per_req timings per_ts fs =
     hm_insert (path_join dir ''assignments_runtime.csv'')
       (Csv_file ([''request_id'', ''scheduled_slot'', ''flavour'', ''carbon_cost'', ''error'', ''assignment_time'']
                  # map (runtime_csv t ts) per_req))
       (write_table dir ''batch_timings'' batch_timing_header (map (batch_timing_csv t) timings) (map batch_timing_json timings)
         (write_table dir ''per_timeslot'' per_timeslot_header (map (per_timeslot_csv t) per_ts) (map per_timeslot_json per_ts)
           (write_table dir ''per_request'' per_request_header (map (per_request_csv t) per_req) (map per_request_json per_req)
             (write_summary t dir ''summary'' sm fs))))"

section \<open>One run of the scheduler\<close>

text \<open>What a run leaves behind: the shared state, the statistics and the log.\<close>

record 'r run_end =
  re_inner :: inner
  re_sched :: "'r scheduler_state"
  re_log :: metrics_log

text \<open>
  \<open>bw_engine\<close> runs generator and scheduler on the requests of a scenario until both have drained; it
  is \<open>None\<close> if they never do. What is read anew in every run is indexed by the number of the run.
\<close>

record ('j, 'r) benchmark_world =
  bw_json :: "'j value_api"
  bw_config_file :: "string \<Rightarrow> 'j option"
  bw_scenario_file :: "string \<Rightarrow> scenario option"
  bw_text :: f64_text
  bw_rng :: "'r rng"
  bw_now :: "nat \<Rightarrow> nat \<Rightarrow> f64"
  bw_stamp :: "nat \<Rightarrow> f64"
  bw_elapsed :: "nat \<Rightarrow> f64"
  bw_engine :: "nat \<Rightarrow> config \<Rightarrow> request_generator_config \<Rightarrow> request list list \<Rightarrow> f64 list \<Rightarrow> metrics_log \<Rightarrow> 'r run_end option"

type_synonym run_output = "per_request list \<times> batch_timing list \<times> run_summary"

definition runs_path :: "string \<Rightarrow> string" where
  "runs_path dir = path_join dir ''_solver_runs.csv''"

definition assignments_path :: "string \<Rightarrow> string" where
  "assignments_path dir = path_join dir ''_solver_assignments.csv''"

definition slot_metrics_path :: "string \<Rightarrow> string" where
  "slot_metrics_path dir = path_join dir ''_solver_slot_metrics.csv''"

definition run_config :: "scenario \<Rightarrow> config \<Rightarrow> nat \<Rightarrow> bool \<Rightarrow> f64 \<Rightarrow> string \<Rightarrow> bool \<Rightarrow> config" where
  "run_config sc base_cfg batch_size realtime_slots speed_scale dir verbose =
     base_cfg
       \<lparr>cfg_solver := (cfg_solver base_cfg)\<lparr>sc_batch_size := batch_size\<rparr>,
        cfg_simulation := (cfg_simulation base_cfg)
          \<lparr>sim_skip_empty_slots := \<not> realtime_slots,
           sim_slot_speed_scale := (if realtime_slots then speed_scale else 1),
           sim_total_requests := length (sn_requests sc)\<rparr>,
        cfg_logging := (cfg_logging base_cfg)
          \<lparr>lg_verbose := verbose, lg_enable_solver_logging := True,
           lg_solver_runs_file := runs_path dir, lg_solver_assignments_file := assignments_path dir,
           lg_solver_slot_metrics_file := slot_metrics_path dir,
           lg_enable_infeasibility_debug_logging := False\<rparr>\<rparr>"

definition remove_temp :: "string \<Rightarrow> files \<Rightarrow> files" where
  "remove_temp dir fs =
     hm_remove (slot_metrics_path dir) (hm_remove (assignments_path dir) (hm_remove (runs_path dir) fs))"

definition csv_at :: "string \<Rightarrow> files \<Rightarrow> csv_file option" where
  "csv_at p fs = (case map_of fs p of Some (Csv_file f) \<Rightarrow> Some f | _ \<Rightarrow> None)"

definition run_log :: "string \<Rightarrow> files \<Rightarrow> metrics_log" where
  "run_log dir fs = metrics_logger_new
     \<lparr>mlg_enabled = True, mlg_runs = csv_at (runs_path dir) fs, mlg_assignments = csv_at (assignments_path dir) fs,
      mlg_slot_metrics = csv_at (slot_metrics_path dir) fs, mlg_debug_path = False, mlg_infeasible_debug = None\<rparr>"

definition evaluate_end ::
    "f64_text \<Rightarrow> scenario \<Rightarrow> config \<Rightarrow> config \<Rightarrow> nat \<Rightarrow> bool \<Rightarrow> f64 \<Rightarrow> 'r run_end \<Rightarrow> run_output option" where
  "evaluate_end t sc base_cfg cfg batch_size realtime_slots speed_scale e =
     (let stats = scheduler_get_statistics cfg (re_sched e);
          rollbacks = get_rollback_stats (re_inner e);
          rolled_back_ids = get_rolled_back_request_ids (re_inner e);
          (remaining, st) = drain_pending_requests (re_inner e)
      in evaluate_run base_cfg batch_size realtime_slots speed_scale (sn_carbon_forecast sc)
           (read_solver_runs t (mlg_runs (re_log e))) (read_solver_assignments t (mlg_assignments (re_log e)))
           rolled_back_ids remaining (get_current_assignments st)
           (st_total_received (get_statistics (re_inner e)))
           \<lparr>rc_total_rollbacks = rb_total_rollbacks rollbacks,
            rc_max_consecutive_rollbacks = rb_max_consecutive_rollbacks rollbacks,
            rc_requests_assigned_with_rollback = card rolled_back_ids,
            rc_peak_concurrent_workers = ssn_peak_concurrent_workers stats,
            rc_avg_concurrent_workers = ssn_avg_concurrent_workers stats\<rparr>)"

definition run_single_n ::
    "('j, 'r) benchmark_world \<Rightarrow> nat \<Rightarrow> scenario \<Rightarrow> config \<Rightarrow> nat \<Rightarrow> bool \<Rightarrow> f64 \<Rightarrow> string \<Rightarrow> bool \<Rightarrow> files
     \<Rightarrow> (run_output \<times> files) option" where
  "run_single_n w k sc base_cfg batch_size realtime_slots speed_scale dir verbose fs =
     (let cfg = run_config sc base_cfg batch_size realtime_slots speed_scale dir verbose;
          fs1 = remove_temp dir fs
      in case requests_by_slot (bw_now w k) sc of
           None \<Rightarrow> None
         | Some by_slot \<Rightarrow>
             (case bw_engine w k cfg (generator_config_of cfg) by_slot (sn_carbon_forecast sc) (run_log dir fs1) of
                None \<Rightarrow> None
              | Some e \<Rightarrow>
                  map_option (\<lambda>out. (out, remove_temp dir fs1))
                    (evaluate_end (bw_text w) sc base_cfg cfg batch_size realtime_slots speed_scale e)))"

section \<open>The sweep\<close>

record benchmark_plan =
  pl_benchmark :: benchmark_config
  pl_scenario :: scenario
  pl_base :: config
  pl_realtime :: bool
  pl_speed :: f64
  pl_verbose :: bool

definition prepare_benchmark :: "('j, 'r) benchmark_world \<Rightarrow> string list \<Rightarrow> benchmark_plan option" where
  "prepare_benchmark w args =
     (case parse_args (bw_text w) args no_arguments of
        None \<Rightarrow> None
      | Some a \<Rightarrow>
          (let config_path = value_or ''config.json'' (arg_config_path a)
           in case (case bw_config_file w config_path of
                      None \<Rightarrow> None | Some v \<Rightarrow> load_benchmark_config (bw_json w) config_path v) of
                None \<Rightarrow> None
              | Some b \<Rightarrow>
                  map_option (\<lambda>sc.
                    \<lparr>pl_benchmark = b, pl_scenario = sc, pl_base = benchmark_base_config b (sn_metadata sc),
                     pl_realtime = value_or (bc_realtime_slots b) (arg_realtime a),
                     pl_speed = value_or (bc_realtime_speed_scale b) (arg_speed_scale a),
                     pl_verbose = arg_verbose a\<rparr>)
                    (bw_scenario_file w (bc_scenario_path b))))"

record sweep =
  sp_files :: files
  sp_summaries :: "run_summary list"
  sp_runs :: nat

definition out_path :: "benchmark_plan \<Rightarrow> string \<Rightarrow> string" where
  "out_path pl name = path_join (bc_output_dir (pl_benchmark pl)) name"

text \<open>The outputs of one run, and the count of the runs so far.\<close>

definition write_outputs ::
    "('j, 'r) benchmark_world \<Rightarrow> benchmark_plan \<Rightarrow> string \<Rightarrow> run_output \<Rightarrow> sweep \<Rightarrow> sweep" where
  "write_outputs w pl dir out sw =
     (let (per_req, timings, sm) = out; meta = sn_metadata (pl_scenario pl);
          per_ts = compute_per_timeslot per_req (sm_total_slots meta) (sm_error_window_past meta) (sm_error_window_future meta)
      in sw\<lparr>sp_files := write_run_outputs (bw_text w) (bw_stamp w (sp_runs sw)) dir sm per_req timings per_ts (sp_files sw),
            sp_runs := sp_runs sw + 1\<rparr>)"

definition timed :: "('j, 'r) benchmark_world \<Rightarrow> f64 option \<Rightarrow> sweep \<Rightarrow> run_output \<Rightarrow> run_output" where
  "timed w baseline sw out =
     (let (per_req, timings, sm) = out
      in (per_req, timings, relate_to_baseline baseline (sm\<lparr>rs_run_elapsed_seconds := bw_elapsed w (sp_runs sw)\<rparr>)))"

definition run_baseline :: "('j, 'r) benchmark_world \<Rightarrow> benchmark_plan \<Rightarrow> nat \<Rightarrow> run_output option" where
  "run_baseline w pl k =
     run_greedy_baseline (bw_now w k) (pl_scenario pl) (assignment_policy_of (pl_base pl))
       (cfg_slot_duration_seconds (pl_base pl)) (pl_realtime pl) (pl_speed pl)"

text \<open>The cost that the other runs are compared with, and the files of the baseline.\<close>

definition baseline_phase ::
    "('j, 'r) benchmark_world \<Rightarrow> benchmark_plan \<Rightarrow> sweep \<Rightarrow> (f64 option \<times> sweep) option" where
  "baseline_phase w pl sw =
     (if bc_include_greedy_baseline (pl_benchmark pl)
      then map_option (\<lambda>out.
             (Some (rs_total_carbon_cost (snd (snd out))),
              (write_outputs w pl (out_path pl ''baseline_greedy'') out sw)
                \<lparr>sp_files := write_summary (bw_text w) (bc_output_dir (pl_benchmark pl)) ''baseline_summary'' (snd (snd out))
                  (sp_files (write_outputs w pl (out_path pl ''baseline_greedy'') out sw))\<rparr>))
             (run_baseline w pl (sp_runs sw))
      else Some (bc_baseline_total_carbon_cost (pl_benchmark pl), sw))"

definition sweep_batch ::
    "('j, 'r) benchmark_world \<Rightarrow> benchmark_plan \<Rightarrow> f64 option \<Rightarrow> config \<Rightarrow> string \<Rightarrow> sweep \<Rightarrow> nat \<Rightarrow> sweep option" where
  "sweep_batch w pl baseline base_cfg parent sw batch_size =
     (let dir = path_join parent (''N'' @ show_nat batch_size)
      in map_option (\<lambda>(out, fs).
           let out' = timed w baseline sw out; sw' = write_outputs w pl dir out' (sw\<lparr>sp_files := fs\<rparr>)
           in sw'\<lparr>sp_summaries := sp_summaries sw' @ [snd (snd out')]\<rparr>)
           (run_single_n w (sp_runs sw) (pl_scenario pl) base_cfg batch_size (pl_realtime pl) (pl_speed pl)
              dir (pl_verbose pl) (sp_files sw)))"

definition online_sizes :: "benchmark_config \<Rightarrow> string \<Rightarrow> nat list" where
  "online_sizes b strategy =
     (if to_ascii_lowercase strategy = ''greedy_singleton'' then [1]
      else value_or (bc_batch_sizes b) (bc_online_batch_sizes b))"

definition sweep_strategy ::
    "('j, 'r) benchmark_world \<Rightarrow> benchmark_plan \<Rightarrow> f64 option \<Rightarrow> sweep \<Rightarrow> string \<Rightarrow> sweep option" where
  "sweep_strategy w pl baseline sw strategy =
     (let sizes = online_sizes (pl_benchmark pl) strategy;
          dir = out_path pl (''online_'' @ strategy);
          cfg = (pl_base pl)\<lparr>cfg_solver := (cfg_solver (pl_base pl))\<lparr>sc_solver_strategy := strategy\<rparr>\<rparr>
      in map_option (\<lambda>sw'.
           let sms = rev (take (length sizes) (rev (sp_summaries sw')))
           in if sms = [] then sw'
              else sw'\<lparr>sp_files := hm_insert (path_join dir ''summary_by_n.csv'')
                     (Csv_file (summary_csv_header # map (summary_csv_row (bw_text w)) sms)) (sp_files sw')\<rparr>)
           (fold_opt (sweep_batch w pl baseline cfg dir) sw sizes))"

definition sweep_additional ::
    "('j, 'r) benchmark_world \<Rightarrow> benchmark_plan \<Rightarrow> f64 option \<Rightarrow> sweep \<Rightarrow> string \<Rightarrow> sweep option" where
  "sweep_additional w pl baseline sw strategy =
     map_option (\<lambda>out. write_outputs w pl (out_path pl (''strategy_'' @ strategy)) (timed w baseline sw out) sw)
       (run_named_strategy (bw_rng w) strategy (pl_scenario pl) (assignment_policy_of (pl_base pl))
          (cfg_slot_duration_seconds (pl_base pl)) (pl_realtime pl) (pl_speed pl))"

definition write_aggregate :: "f64_text \<Rightarrow> benchmark_plan \<Rightarrow> sweep \<Rightarrow> sweep" where
  "write_aggregate t pl sw =
     (let dp = filter (\<lambda>s. rs_execution_mode s = ''nshift_dp'') (sp_summaries sw);
          fs = hm_insert (out_path pl ''summary_by_n.json'') (Json_rows (map summary_to_json dp)) (sp_files sw)
      in sw\<lparr>sp_files := (if dp = [] then fs
           else hm_insert (out_path pl ''summary_by_n.csv'') (Csv_file (summary_csv_header # map (summary_csv_row t) dp)) fs)\<rparr>)"

definition run_sweep :: "('j, 'r) benchmark_world \<Rightarrow> benchmark_plan \<Rightarrow> files \<Rightarrow> sweep option" where
  "run_sweep w pl fs =
     (case baseline_phase w pl \<lparr>sp_files = fs, sp_summaries = [], sp_runs = 0\<rparr> of
        None \<Rightarrow> None
      | Some (baseline, sw0) \<Rightarrow>
     (case fold_opt (sweep_batch w pl baseline (pl_base pl) (bc_output_dir (pl_benchmark pl))) sw0 (bc_batch_sizes (pl_benchmark pl)) of
        None \<Rightarrow> None
      | Some sw1 \<Rightarrow>
     (case fold_opt (sweep_strategy w pl baseline) sw1 (bc_online_strategies (pl_benchmark pl)) of
        None \<Rightarrow> None
      | Some sw2 \<Rightarrow>
          map_option (write_aggregate (bw_text w) pl)
            (fold_opt (sweep_additional w pl baseline) sw2 (bc_additional_strategies (pl_benchmark pl))))))"

definition run_benchmark :: "('j, 'r) benchmark_world \<Rightarrow> string list \<Rightarrow> files \<Rightarrow> sweep option" where
  "run_benchmark w args fs =
     (case prepare_benchmark w args of None \<Rightarrow> None | Some pl \<Rightarrow> run_sweep w pl fs)"

section \<open>The files of a run\<close>

lemma path_join_inj:
  assumes "\<not> (p \<noteq> [] \<and> hd p = CHR ''/'')" and "\<not> (q \<noteq> [] \<and> hd q = CHR ''/'')"
  shows "path_join base p = path_join base q \<longleftrightarrow> p = q"
  using assms by (auto simp: path_join_def)

lemma json_matches_csv:
  "map fst (summary_to_json s) = summary_csv_header"
  "map (cell_text t \<circ> snd) (summary_to_json s) = summary_csv_row t s"
  "map fst (per_request_json r) = per_request_header"
  "map (cell_text t \<circ> snd) (per_request_json r) = per_request_csv t r"
  "map fst (per_timeslot_json p) = per_timeslot_header"
  "map (cell_text t \<circ> snd) (per_timeslot_json p) = per_timeslot_csv t p"
  "map fst (batch_timing_json b) = batch_timing_header"
  "map (cell_text t \<circ> snd) (batch_timing_json b) = batch_timing_csv t b"
  by (simp_all add: summary_to_json_def summary_csv_header_def summary_csv_row_def per_request_json_def
      per_request_header_def per_request_csv_def per_timeslot_json_def per_timeslot_header_def per_timeslot_csv_def
      batch_timing_json_def batch_timing_header_def batch_timing_csv_def)

definition table_in ::
    "f64_text \<Rightarrow> files \<Rightarrow> string \<Rightarrow> string \<Rightarrow> string list \<Rightarrow> json_object list \<Rightarrow> bool" where
  "table_in t fs dir name header objects \<longleftrightarrow>
     map_of fs (path_join dir (name @ ''.json'')) = Some (Json_rows objects)
     \<and> map_of fs (path_join dir (name @ ''.csv'')) = Some (Csv_file (header # map (map (cell_text t \<circ> snd)) objects))
     \<and> (\<forall>obj\<in>set objects. map fst obj = header)"

lemma run_paths:
  "path_join dir (p :: string) = path_join dir q \<longleftrightarrow> p = q"
  if "p \<in> {''summary.json'', ''summary.csv'', ''per_request.json'', ''per_request.csv'', ''per_timeslot.json'',
     ''per_timeslot.csv'', ''batch_timings.json'', ''batch_timings.csv'', ''assignments_runtime.csv''}"
    and "q \<in> {''summary.json'', ''summary.csv'', ''per_request.json'', ''per_request.csv'', ''per_timeslot.json'',
     ''per_timeslot.csv'', ''batch_timings.json'', ''batch_timings.csv'', ''assignments_runtime.csv''}"
  by (rule path_join_inj) (use that in auto)

text \<open>
  The CSV and the JSON files of a run say the same. After the outputs of a run are written, the
  three tables and the summary are in its directory in both formats, with one object per request, time
  slot and batch in the order of the report; every object has exactly the columns of the header, in that
  order, and the line of the CSV file is the text of its values. No file overwrites another.
\<close>

theorem run_files_agree:
  "let fs' = write_run_outputs t ts dir sm per_req timings per_ts fs
   in table_in t fs' dir ''per_request'' per_request_header (map per_request_json per_req)
    \<and> table_in t fs' dir ''per_timeslot'' per_timeslot_header (map per_timeslot_json per_ts)
    \<and> table_in t fs' dir ''batch_timings'' batch_timing_header (map batch_timing_json timings)
    \<and> map_of fs' (path_join dir ''summary.json'') = Some (Json_file (summary_to_json sm))
    \<and> map_of fs' (path_join dir ''summary.csv'')
        = Some (Csv_file [map fst (summary_to_json sm), map (cell_text t \<circ> snd) (summary_to_json sm)])"
proof -
  have lines: "map (map (cell_text t \<circ> snd)) (map per_request_json per_req) = map (per_request_csv t) per_req"
    "map (map (cell_text t \<circ> snd)) (map per_timeslot_json per_ts) = map (per_timeslot_csv t) per_ts"
    "map (map (cell_text t \<circ> snd)) (map batch_timing_json timings) = map (batch_timing_csv t) timings"
    by (simp_all only: map_map comp_def) (simp_all add: json_matches_csv [unfolded comp_def])
  have columns: "\<forall>obj\<in>set (map per_request_json per_req). map fst obj = per_request_header"
    "\<forall>obj\<in>set (map per_timeslot_json per_ts). map fst obj = per_timeslot_header"
    "\<forall>obj\<in>set (map batch_timing_json timings). map fst obj = batch_timing_header"
    by (simp_all add: json_matches_csv)
  show ?thesis
    unfolding table_in_def lines json_matches_csv(1,2) Let_def write_run_outputs_def write_table_def write_summary_def
    using columns by (simp add: map_simps run_paths)
qed

section \<open>The runs of a sweep\<close>

lemma evaluate_end_summary:
  assumes "evaluate_end t sc base_cfg cfg n rt speed e = Some (per_req, timings, sm)"
  shows "rs_batch_size sm = n" and "rs_execution_mode sm = execution_mode (sc_solver_strategy (cfg_solver base_cfg))"
  using assms by (auto simp: evaluate_end_def evaluate_run_def compute_summary_def Let_def drain_pending_requests_def)

lemma run_single_n_summary:
  assumes "run_single_n w k sc base_cfg n rt speed dir verbose fs = Some ((per_req, timings, sm), fs')"
  shows "rs_batch_size sm = n" and "rs_execution_mode sm = execution_mode (sc_solver_strategy (cfg_solver base_cfg))"
  using assms by (auto simp: run_single_n_def Let_def dest: evaluate_end_summary split: option.splits)

definition compared :: "f64 option \<Rightarrow> run_summary \<Rightarrow> bool" where
  "compared baseline sm \<longleftrightarrow>
     (\<forall>bc. baseline = Some bc \<longrightarrow>
        rs_baseline_total_carbon_cost sm = bc
        \<and> rs_carbon_cost_saving_vs_baseline sm = bc - rs_total_carbon_cost sm
        \<and> (0 < bc \<longrightarrow> rs_carbon_cost_saving_vs_baseline_pct sm / 100 * bc = bc - rs_total_carbon_cost sm))"

lemma compared_relate: "compared baseline (relate_to_baseline baseline sm)"
  by (simp add: compared_def relate_to_baseline_def Let_def)

lemma relate_keeps [simp]:
  "rs_batch_size (relate_to_baseline baseline sm) = rs_batch_size sm"
  "rs_execution_mode (relate_to_baseline baseline sm) = rs_execution_mode sm"
  by (simp_all add: relate_to_baseline_def Let_def split: option.split)

lemma write_outputs_sel [simp]:
  "sp_summaries (write_outputs w pl dir out sw) = sp_summaries sw"
  "sp_runs (write_outputs w pl dir out sw) = sp_runs sw + 1"
  by (simp_all add: write_outputs_def Let_def split: prod.split)

definition adds_summaries :: "f64 option \<Rightarrow> string \<Rightarrow> nat list \<Rightarrow> run_summary list \<Rightarrow> sweep \<Rightarrow> sweep \<Rightarrow> bool" where
  "adds_summaries baseline strategy sizes sms sw sw' \<longleftrightarrow>
     sp_summaries sw' = sp_summaries sw @ sms \<and> map rs_batch_size sms = sizes
     \<and> sp_runs sw' = sp_runs sw + length sizes
     \<and> (\<forall>sm\<in>set sms. rs_execution_mode sm = execution_mode strategy \<and> compared baseline sm)"

lemma sweep_batch_adds:
  assumes "sweep_batch w pl baseline cfg parent sw n = Some sw'"
  shows "\<exists>sm. adds_summaries baseline (sc_solver_strategy (cfg_solver cfg)) [n] [sm] sw sw'"
proof -
  obtain per_req timings sm fs where run: "run_single_n w (sp_runs sw) (pl_scenario pl) cfg n (pl_realtime pl) (pl_speed pl)
      (path_join parent (''N'' @ show_nat n)) (pl_verbose pl) (sp_files sw) = Some ((per_req, timings, sm), fs)"
    and sw': "sw' = (let out' = timed w baseline sw (per_req, timings, sm);
           s = write_outputs w pl (path_join parent (''N'' @ show_nat n)) out' (sw\<lparr>sp_files := fs\<rparr>)
         in s\<lparr>sp_summaries := sp_summaries s @ [snd (snd out')]\<rparr>)"
    using assms by (auto simp: sweep_batch_def Let_def)
  note sm = run_single_n_summary [OF run]
  let ?sm = "relate_to_baseline baseline (sm\<lparr>rs_run_elapsed_seconds := bw_elapsed w (sp_runs sw)\<rparr>)"
  have "adds_summaries baseline (sc_solver_strategy (cfg_solver cfg)) [n] [?sm] sw sw'"
    by (simp add: adds_summaries_def sw' Let_def timed_def sm compared_relate)
  then show ?thesis by blast
qed

lemma adds_summaries_append:
  "adds_summaries b s ns sms sw sw1 \<Longrightarrow> adds_summaries b s ns' sms' sw1 sw' \<Longrightarrow>
   adds_summaries b s (ns @ ns') (sms @ sms') sw sw'"
  by (auto simp: adds_summaries_def)

lemma sweep_batches_add:
  assumes "fold_opt (sweep_batch w pl baseline cfg parent) sw sizes = Some sw'"
  shows "\<exists>sms. adds_summaries baseline (sc_solver_strategy (cfg_solver cfg)) sizes sms sw sw'"
  using assms
proof (induction sizes arbitrary: sw)
  case Nil
  then show ?case by (intro exI [of _ "[]"]) (simp add: adds_summaries_def)
next
  case (Cons n sizes)
  obtain sw1 where "sweep_batch w pl baseline cfg parent sw n = Some sw1"
    and rest: "fold_opt (sweep_batch w pl baseline cfg parent) sw1 sizes = Some sw'"
    using Cons.prems by (rule fold_opt_Cons)
  then obtain sm where "adds_summaries baseline (sc_solver_strategy (cfg_solver cfg)) [n] [sm] sw sw1"
    using sweep_batch_adds by blast
  moreover obtain sms where "adds_summaries baseline (sc_solver_strategy (cfg_solver cfg)) sizes sms sw1 sw'"
    using Cons.IH [OF rest] by blast
  ultimately show ?case using adds_summaries_append by fastforce
qed

text \<open>
  The summary of a strategy. When an online strategy is swept, one run is made for each of its
  batch sizes, of which the single greedy strategy has only one; their summaries, in that order, are
  those of this strategy, are compared with the baseline and are the lines of the summary file of the
  strategy, which no other run's summary gets into.
\<close>

theorem strategy_summary_exact:
  assumes "sweep_strategy w pl baseline sw strategy = Some sw'" and "sizes = online_sizes (pl_benchmark pl) strategy"
  shows "\<exists>sms. adds_summaries baseline strategy sizes sms sw sw'
    \<and> (to_ascii_lowercase strategy = ''greedy_singleton'' \<longrightarrow> sizes = [1])
    \<and> (sizes \<noteq> [] \<longrightarrow> map_of (sp_files sw') (path_join (out_path pl (''online_'' @ strategy)) ''summary_by_n.csv'')
         = Some (Csv_file (summary_csv_header # map (summary_csv_row (bw_text w)) sms)))"
proof -
  let ?cfg = "(pl_base pl)\<lparr>cfg_solver := (cfg_solver (pl_base pl))\<lparr>sc_solver_strategy := strategy\<rparr>\<rparr>"
  let ?dir = "out_path pl (''online_'' @ strategy)"
  obtain sw1 where sw1: "fold_opt (sweep_batch w pl baseline ?cfg ?dir) sw sizes = Some sw1"
    and sw': "sw' = (let sms = rev (take (length sizes) (rev (sp_summaries sw1)))
           in if sms = [] then sw1
              else sw1\<lparr>sp_files := hm_insert (path_join ?dir ''summary_by_n.csv'')
                     (Csv_file (summary_csv_header # map (summary_csv_row (bw_text w)) sms)) (sp_files sw1)\<rparr>)"
    using assms by (auto simp: sweep_strategy_def Let_def)
  obtain sms where sms: "adds_summaries baseline strategy sizes sms sw sw1"
    using sweep_batches_add [OF sw1] by auto
  then have len: "length sms = length sizes" by (metis adds_summaries_def length_map)
  then have own: "rev (take (length sizes) (rev (sp_summaries sw1))) = sms"
    using sms by (simp add: adds_summaries_def)
  have "adds_summaries baseline strategy sizes sms sw sw'"
    using sms by (simp add: sw' own Let_def adds_summaries_def)
  moreover have "map_of (sp_files sw') (path_join ?dir ''summary_by_n.csv'')
      = Some (Csv_file (summary_csv_header # map (summary_csv_row (bw_text w)) sms))" if "sizes \<noteq> []"
    using that len by (auto simp: sw' own Let_def map_simps)
  ultimately show ?thesis using assms(2) by (auto simp: online_sizes_def)
qed

lemma sweep_strategies_add:
  assumes "fold_opt (sweep_strategy w pl baseline) sw strategies = Some sw'"
  shows "\<exists>sms. sp_summaries sw' = sp_summaries sw @ sms \<and> (\<forall>sm\<in>set sms. rs_execution_mode sm \<in> execution_mode ` set strategies)"
  using assms
proof (induction strategies arbitrary: sw)
  case (Cons s ss)
  obtain sw1 where one: "sweep_strategy w pl baseline sw s = Some sw1"
    and rest: "fold_opt (sweep_strategy w pl baseline) sw1 ss = Some sw'"
    using Cons.prems by (rule fold_opt_Cons)
  let ?cfg = "(pl_base pl)\<lparr>cfg_solver := (cfg_solver (pl_base pl))\<lparr>sc_solver_strategy := s\<rparr>\<rparr>"
  obtain sw2 where "fold_opt (sweep_batch w pl baseline ?cfg (out_path pl (''online_'' @ s))) sw
      (online_sizes (pl_benchmark pl) s) = Some sw2" and "sp_summaries sw1 = sp_summaries sw2"
    using one by (auto simp: sweep_strategy_def Let_def split: if_splits)
  then obtain sms where "sp_summaries sw1 = sp_summaries sw @ sms" "\<forall>sm\<in>set sms. rs_execution_mode sm = execution_mode s"
    using sweep_batches_add [of w pl baseline ?cfg] by (fastforce simp: adds_summaries_def)
  moreover obtain sms' where "sp_summaries sw' = sp_summaries sw1 @ sms'"
    "\<forall>sm\<in>set sms'. rs_execution_mode sm \<in> execution_mode ` set ss" using Cons.IH [OF rest] by blast
  ultimately show ?case by (intro exI [of _ "sms @ sms'"]) auto
qed simp

lemma sweep_additional_summaries:
  "fold_opt (sweep_additional w pl baseline) sw strategies = Some sw' \<Longrightarrow> sp_summaries sw' = sp_summaries sw"
  by (rule fold_opt_inv [where P = "\<lambda>s. sp_summaries s = sp_summaries sw"]) (auto simp: sweep_additional_def)

lemma baseline_phase_spec:
  assumes "baseline_phase w pl sw = Some (baseline, sw')"
  shows "sp_summaries sw' = sp_summaries sw"
    and "if bc_include_greedy_baseline (pl_benchmark pl)
         then \<exists>per_req timings sm. run_baseline w pl (sp_runs sw) = Some (per_req, timings, sm) \<and> baseline = Some (rs_total_carbon_cost sm)
         else baseline = bc_baseline_total_carbon_cost (pl_benchmark pl)"
  using assms by (auto simp: baseline_phase_def split: if_splits)

lemma base_config_strategy: "sc_solver_strategy (cfg_solver (benchmark_base_config b meta)) = ''dp''"
  by (simp add: benchmark_base_config_def apply_scenario_metadata_def config_default_def solver_config_default_def Let_def)

lemma execution_mode_dp: "execution_mode s = ''nshift_dp'' \<longleftrightarrow> s = ''dp'' \<or> s = []"
  by (auto simp: execution_mode_def)

lemma aggregate_file:
  "map_of (sp_files (write_aggregate t pl sw)) (out_path pl ''summary_by_n.json'')
     = Some (Json_rows (map summary_to_json (filter (\<lambda>s. rs_execution_mode s = ''nshift_dp'') (sp_summaries sw))))"
  "filter (\<lambda>s. rs_execution_mode s = ''nshift_dp'') (sp_summaries sw) \<noteq> [] \<Longrightarrow>
   map_of (sp_files (write_aggregate t pl sw)) (out_path pl ''summary_by_n.csv'')
     = Some (Csv_file (summary_csv_header #
         map (summary_csv_row t) (filter (\<lambda>s. rs_execution_mode s = ''nshift_dp'') (sp_summaries sw))))"
  by (simp_all add: write_aggregate_def Let_def out_path_def map_simps path_join_inj)

text \<open>
  C34: The summary of the benchmark. When a benchmark completes and no online strategy goes by the name
  of the exact one, the top-level summary has exactly one row per configured batch size, in the order of
  the configuration, each from a run of the exact solver, in the JSON and in the CSV file; every row is
  compared with the same baseline: the cost of the greedy baseline if it was run, even if the
  configuration names a cost, and otherwise the one that is configured.
\<close>

theorem benchmark_summary_exact:
  assumes "run_benchmark w args fs = Some sw" and "prepare_benchmark w args = Some pl"
    and "''dp'' \<notin> set (bc_online_strategies (pl_benchmark pl))" and "[] \<notin> set (bc_online_strategies (pl_benchmark pl))"
  shows "\<exists>sms baseline. map rs_batch_size sms = bc_batch_sizes (pl_benchmark pl)
    \<and> (\<forall>sm\<in>set sms. rs_execution_mode sm = ''nshift_dp'' \<and> compared baseline sm)
    \<and> map_of (sp_files sw) (out_path pl ''summary_by_n.json'') = Some (Json_rows (map summary_to_json sms))
    \<and> (sms \<noteq> [] \<longrightarrow> map_of (sp_files sw) (out_path pl ''summary_by_n.csv'')
         = Some (Csv_file (summary_csv_header # map (summary_csv_row (bw_text w)) sms)))
    \<and> (if bc_include_greedy_baseline (pl_benchmark pl)
       then \<exists>per_req timings sm. run_baseline w pl 0 = Some (per_req, timings, sm) \<and> baseline = Some (rs_total_carbon_cost sm)
       else baseline = bc_baseline_total_carbon_cost (pl_benchmark pl))"
proof -
  let ?b = "pl_benchmark pl" and ?sw = "\<lparr>sp_files = fs, sp_summaries = [], sp_runs = 0\<rparr>"
  have plan: "run_sweep w pl fs = Some sw" using assms(1,2) by (simp add: run_benchmark_def)
  obtain baseline sw0 sw1 sw2 sw3 where base: "baseline_phase w pl ?sw = Some (baseline, sw0)"
    and batches: "fold_opt (sweep_batch w pl baseline (pl_base pl) (bc_output_dir ?b)) sw0 (bc_batch_sizes ?b) = Some sw1"
    and online: "fold_opt (sweep_strategy w pl baseline) sw1 (bc_online_strategies ?b) = Some sw2"
    and offline: "fold_opt (sweep_additional w pl baseline) sw2 (bc_additional_strategies ?b) = Some sw3"
    and sw: "sw = write_aggregate (bw_text w) pl sw3"
    using plan by (auto simp: run_sweep_def split: option.splits prod.splits)
  have dp: "sc_solver_strategy (cfg_solver (pl_base pl)) = ''dp''"
    using assms(2) by (auto simp: prepare_benchmark_def Let_def base_config_strategy split: option.splits)
  obtain sms where sms: "adds_summaries baseline ''dp'' (bc_batch_sizes ?b) sms sw0 sw1"
    using sweep_batches_add [OF batches] by (auto simp: dp)
  obtain others where others: "sp_summaries sw2 = sp_summaries sw1 @ others"
    "\<forall>sm\<in>set others. rs_execution_mode sm \<in> execution_mode ` set (bc_online_strategies ?b)"
    using sweep_strategies_add [OF online] by blast
  have "sp_summaries sw0 = []" using baseline_phase_spec(1) [OF base] by simp
  then have all: "sp_summaries sw3 = sms @ others"
    using sms others(1) sweep_additional_summaries [OF offline] by (simp add: adds_summaries_def)
  have "rs_execution_mode sm \<noteq> ''nshift_dp''" if "sm \<in> set others" for sm
  proof
    assume dp: "rs_execution_mode sm = ''nshift_dp''"
    have "rs_execution_mode sm \<in> execution_mode ` set (bc_online_strategies ?b)" using others(2) that by blast
    then obtain s where s: "rs_execution_mode sm = execution_mode s" "s \<in> set (bc_online_strategies ?b)"
      by (rule imageE)
    then have "s = ''dp'' \<or> s = []" using dp execution_mode_dp [of s] by simp
    then show False using assms(3,4) s(2) by blast
  qed
  moreover have modes: "rs_execution_mode sm = ''nshift_dp''" "compared baseline sm" if "sm \<in> set sms" for sm
    using sms that by (auto simp: adds_summaries_def execution_mode_def)
  ultimately have "filter (\<lambda>s. rs_execution_mode s = ''nshift_dp'') (sp_summaries sw3) = sms"
    by (simp add: all filter_id_conv filter_empty_conv)
  then have files: "map_of (sp_files sw) (out_path pl ''summary_by_n.json'') = Some (Json_rows (map summary_to_json sms))"
    "sms \<noteq> [] \<Longrightarrow> map_of (sp_files sw) (out_path pl ''summary_by_n.csv'')
       = Some (Csv_file (summary_csv_header # map (summary_csv_row (bw_text w)) sms))"
    using aggregate_file [where t = "bw_text w" and pl = pl and sw = sw3] unfolding sw by simp_all
  have sizes: "map rs_batch_size sms = bc_batch_sizes ?b" using sms by (simp add: adds_summaries_def)
  have cost: "if bc_include_greedy_baseline ?b
       then \<exists>per_req timings sm. run_baseline w pl 0 = Some (per_req, timings, sm) \<and> baseline = Some (rs_total_carbon_cost sm)
       else baseline = bc_baseline_total_carbon_cost ?b"
    using baseline_phase_spec(2) [OF base] by (simp only: sweep.select_convs)
  show ?thesis by (intro exI conjI ballI impI) (rule sizes files modes cost | assumption)+
qed

section \<open>What a run reports\<close>

lemma run_log_fresh: "run_log dir (remove_temp dir fs) = fresh_log"
  by (simp add: run_log_def fresh_log_def csv_at_def remove_temp_def map_simps)

lemma run_config_keeps:
  "cfg_flavours (run_config sc cfg n rt speed dir verbose) = cfg_flavours cfg"
  "sc_batch_size (cfg_solver (run_config sc cfg n rt speed dir verbose)) = n"
  "sc_solver_strategy (cfg_solver (run_config sc cfg n rt speed dir verbose)) = sc_solver_strategy (cfg_solver cfg)"
  "cfg_total_slots (run_config sc cfg n rt speed dir verbose) = cfg_total_slots cfg"
  by (simp_all add: run_config_def)

definition newly_assigned :: "logged_commit list \<Rightarrow> request_id set" where
  "newly_assigned cs = (\<Union>c\<in>set cs. as_request_id ` set (lc_assignments c) \<inter> lc_pending_ids c)"

lemma logged_new_ids:
  "ar_request_id ` set (filter ar_is_new_assignment_in_run
     (concat (map (\<lambda>c. map (assignment_logged c) (in_log_order (lc_assignments c))) cs))) = newly_assigned cs"
  (is "ar_request_id ` set (filter _ ?rows) = _")
proof -
  have rows: "set ?rows = (\<Union>c\<in>set cs. assignment_logged c ` set (lc_assignments c))" by (simp add: in_log_order_def)
  have row: "ar_is_new_assignment_in_run (assignment_logged c a) = (as_request_id a \<in> lc_pending_ids c)"
    "ar_request_id (assignment_logged c a) = as_request_id a" for c a by (simp_all add: assignment_logged_def)
  have "ar_request_id ` {x \<in> set ?rows. ar_is_new_assignment_in_run x}
      = (\<Union>c\<in>set cs. ar_request_id ` assignment_logged c ` {a \<in> set (lc_assignments c). as_request_id a \<in> lc_pending_ids c})"
    unfolding rows using row(1) by blast
  also have "\<dots> = newly_assigned cs" unfolding image_image row(2) newly_assigned_def by blast
  finally show ?thesis by simp
qed

lemma report_ids:
  "set (map pr_request_id (compute_per_request rows runs d rb)) = ar_request_id ` set (filter ar_is_new_assignment_in_run rows)"
  "distinct (map pr_request_id (compute_per_request rows runs d rb))"
proof -
  let ?report = "compute_per_request rows runs d rb"
  have sorted: "sorted_wrt (<) (map pr_request_id ?report)"
    and row: "find (\<lambda>pr. pr_request_id pr = i) ?report
        = map_option (row_report runs d rb) (find (\<lambda>a. ar_is_new_assignment_in_run a \<and> ar_request_id a = i) rows)" for i
    using report_keeps_first_row [of rows runs d rb] by blast+
  show "distinct (map pr_request_id ?report)" using sorted by (simp add: strict_sorted_iff)
  have "i \<in> pr_request_id ` set ?report \<longleftrightarrow> i \<in> ar_request_id ` set (filter ar_is_new_assignment_in_run rows)" for i
  proof -
    have "i \<in> pr_request_id ` set ?report \<longleftrightarrow> find (\<lambda>pr. pr_request_id pr = i) ?report \<noteq> None"
      by (auto simp: find_None_iff)
    also have "\<dots> \<longleftrightarrow> find (\<lambda>a. ar_is_new_assignment_in_run a \<and> ar_request_id a = i) rows \<noteq> None"
      by (simp add: row)
    also have "\<dots> \<longleftrightarrow> i \<in> ar_request_id ` set (filter ar_is_new_assignment_in_run rows)"
      by (auto simp: find_None_iff)
    finally show ?thesis .
  qed
  then show "set (map pr_request_id ?report) = ar_request_id ` set (filter ar_is_new_assignment_in_run rows)" by auto
qed

lemma evaluate_end_covers:
  assumes "pol_flavours (assignment_policy_of base_cfg) \<noteq> []"
    and "read_solver_runs t (mlg_runs (re_log e)) = runs" and "read_solver_assignments t (mlg_assignments (re_log e)) = rows"
  obtains per_req timings sm where "evaluate_end t sc base_cfg cfg n rt speed e = Some (per_req, timings, sm)"
    and "map pr_request_id per_req
        = map pr_request_id (compute_per_request rows (runs_by_id_of runs) (cfg_slot_duration_seconds base_cfg)
            (get_rolled_back_request_ids (re_inner e)))
          @ map rq_id (sort_key (\<lambda>r. (rq_deadline_slot r, rq_arrival_slot r, rq_id r)) (in_pending (re_inner e)))"
    and "mset timings = image_mset (batch_timing_of n) (mset runs)" and "rs_requests_scheduled sm = length per_req"
proof -
  obtain fc rb fa received counts where run: "evaluate_end t sc base_cfg cfg n rt speed e
      = evaluate_run base_cfg n rt speed fc runs rows rb (in_pending (re_inner e)) fa received counts"
    and rb: "rb = get_rolled_back_request_ids (re_inner e)"
    unfolding evaluate_end_def Let_def drain_pending_requests_def prod.case assms(2,3) by blast
  obtain per_req timings sm where
      "evaluate_run base_cfg n rt speed fc runs rows rb (in_pending (re_inner e)) fa received counts = Some (per_req, timings, sm)"
    and "map pr_request_id per_req
        = map pr_request_id (compute_per_request rows (runs_by_id_of runs) (cfg_slot_duration_seconds base_cfg) rb)
          @ map rq_id (sort_key (\<lambda>r. (rq_deadline_slot r, rq_arrival_slot r, rq_id r)) (in_pending (re_inner e)))"
    and "mset timings = image_mset (batch_timing_of n) (mset runs)" and "rs_requests_scheduled sm = length per_req"
    using evaluation_covers_run [OF assms(1), of n rt speed fc runs rows rb "in_pending (re_inner e)" fa received counts] by blast
  then show ?thesis using that unfolding run rb by blast
qed

text \<open>
  C23: What a run reports. Suppose the engine, given the configuration of the run and an empty log,
  comes to an end, that its log is what its commits wrote, and that no request is both assigned and
  pending. Then the run returns, and whatever files were left by an earlier run: its report has exactly
  one row per request that some commit newly assigned and one per request that was still pending, its
  batch timings are the commits, one each, and the summary carries the batch size of the run and counts
  its rows. The engine runs the base configuration with this batch size, and none of its temporary files
  is left.
\<close>

theorem single_run_reports:
  assumes "requests_by_slot (bw_now w k) sc = Some by_slot" and "cfg_flavours base_cfg \<noteq> []"
    and "cfg = run_config sc base_cfg n rt speed dir verbose"
    and "bw_engine w k cfg (generator_config_of cfg) by_slot (sn_carbon_forecast sc) fresh_log = Some e"
    and "re_log e = fold (log_commit (bw_text w)) cs fresh_log" and "\<forall>c\<in>set cs. commit_in_range (bw_text w) c"
    and "distinct (map rq_id (in_pending (re_inner e)))"
    and "newly_assigned cs \<inter> rq_id ` set (in_pending (re_inner e)) = {}"
  shows "\<exists>per_req timings sm fs'. run_single_n w k sc base_cfg n rt speed dir verbose fs = Some ((per_req, timings, sm), fs')
    \<and> distinct (map pr_request_id per_req)
    \<and> pr_request_id ` set per_req = newly_assigned cs \<union> rq_id ` set (in_pending (re_inner e))
    \<and> mset timings = image_mset (batch_timing_of n \<circ> run_logged) (mset cs)
    \<and> rs_batch_size sm = n \<and> rs_requests_scheduled sm = length per_req
    \<and> sc_batch_size (cfg_solver cfg) = n
    \<and> (\<forall>p\<in>{runs_path dir, assignments_path dir, slot_metrics_path dir}. map_of fs' p = None)"
proof -
  let ?rows = "concat (map (\<lambda>c. map (assignment_logged c) (in_log_order (lc_assignments c))) cs)"
  let ?pending = "in_pending (re_inner e)"
  have flavours: "pol_flavours (assignment_policy_of base_cfg) \<noteq> []" using assms(2) by (simp add: assignment_policy_of_def)
  have log: "read_solver_runs (bw_text w) (mlg_runs (re_log e)) = map run_logged cs"
    "read_solver_assignments (bw_text w) (mlg_assignments (re_log e)) = ?rows"
    using log_read_back [OF assms(6)] by (simp_all add: assms(5))
  obtain per_req timings sm where eval: "evaluate_end (bw_text w) sc base_cfg cfg n rt speed e = Some (per_req, timings, sm)"
    and ids: "map pr_request_id per_req
        = map pr_request_id (compute_per_request ?rows (runs_by_id_of (map run_logged cs)) (cfg_slot_duration_seconds base_cfg)
            (get_rolled_back_request_ids (re_inner e)))
          @ map rq_id (sort_key (\<lambda>r. (rq_deadline_slot r, rq_arrival_slot r, rq_id r)) ?pending)"
    and timings: "mset timings = image_mset (batch_timing_of n) (mset (map run_logged cs))"
    and count: "rs_requests_scheduled sm = length per_req"
    by (rule evaluate_end_covers [OF flavours log])
  note new = logged_new_ids [of cs]
  have pending: "set (map rq_id (sort_key (\<lambda>r. (rq_deadline_slot r, rq_arrival_slot r, rq_id r)) ?pending)) = rq_id ` set ?pending"
    "distinct (map rq_id (sort_key (\<lambda>r. (rq_deadline_slot r, rq_arrival_slot r, rq_id r)) ?pending))"
    using assms(7) by (simp_all add: distinct_map)
  have "set (map pr_request_id per_req) = newly_assigned cs \<union> rq_id ` set ?pending"
    unfolding ids set_append report_ids(1) new pending(1) ..
  moreover have "distinct (map pr_request_id per_req)"
    unfolding ids distinct_append report_ids(1) new pending(1) using report_ids(2) pending(2) assms(8) by simp
  ultimately have all: "distinct (map pr_request_id per_req)"
    "pr_request_id ` set per_req = newly_assigned cs \<union> rq_id ` set ?pending" by (simp_all only: set_map)
  have run: "run_single_n w k sc base_cfg n rt speed dir verbose fs
      = Some ((per_req, timings, sm), remove_temp dir (remove_temp dir fs))"
    using eval assms(1,3,4) by (simp add: run_single_n_def Let_def run_log_fresh)
  have gone: "\<forall>p\<in>{runs_path dir, assignments_path dir, slot_metrics_path dir}. map_of (remove_temp dir (remove_temp dir fs)) p = None"
    by (simp add: remove_temp_def map_simps)
  have batches: "mset timings = image_mset (batch_timing_of n \<circ> run_logged) (mset cs)"
    by (simp add: timings image_mset.compositionality)
  have size: "sc_batch_size (cfg_solver cfg) = n" by (simp add: assms(3) run_config_keeps)
  show ?thesis using run all batches evaluate_end_summary(1) [OF eval] count size gone by blast
qed

section \<open>The sweep returns\<close>

definition engine_returns :: "('j, 'r) benchmark_world \<Rightarrow> bool" where
  "engine_returns w \<longleftrightarrow> (\<forall>k cfg gc by_slot forecast log. bw_engine w k cfg gc by_slot forecast log \<noteq> None)"

definition plan_ok :: "('j, 'r) benchmark_world \<Rightarrow> benchmark_plan \<Rightarrow> bool" where
  "plan_ok w pl \<longleftrightarrow> engine_returns w \<and> rng_ok (bw_rng w) \<and> cfg_flavours (pl_base pl) \<noteq> []
     \<and> 0 < sm_total_slots (sn_metadata (pl_scenario pl)) \<and> 0 \<le> cfg_total_slots (pl_base pl)
     \<and> (\<forall>req\<in>set (sn_requests (pl_scenario pl)). in_horizon (assignment_policy_of (pl_base pl)) req)
     \<and> set (bc_additional_strategies (pl_benchmark pl)) \<subseteq> {''greedy_cheapest'', ''bandit'', ''ant_colony''}"

lemma scenario_groups: "0 < sm_total_slots (sn_metadata sc) \<Longrightarrow> \<exists>by_slot. requests_by_slot now sc = Some by_slot"
  by (simp add: requests_by_slot_def Let_def)

lemma fold_opt_returns:
  assumes "\<And>s x. x \<in> set xs \<Longrightarrow> \<exists>s'. f s x = Some s'"
  shows "\<exists>s'. fold_opt f s xs = Some s'"
  using fold_opt_total [where P = "\<lambda>_. True" and f = f and xs = xs and s = s] assms by simp

lemma run_single_n_returns:
  assumes "engine_returns w" and "0 < sm_total_slots (sn_metadata sc)" and "cfg_flavours base_cfg \<noteq> []"
  shows "run_single_n w k sc base_cfg n rt speed dir verbose fs \<noteq> None"
proof -
  let ?cfg = "run_config sc base_cfg n rt speed dir verbose"
  obtain by_slot where by_slot: "requests_by_slot (bw_now w k) sc = Some by_slot" using scenario_groups [OF assms(2)] by blast
  have "bw_engine w k ?cfg (generator_config_of ?cfg) by_slot (sn_carbon_forecast sc) (run_log dir (remove_temp dir fs)) \<noteq> None"
    using assms(1) unfolding engine_returns_def by blast
  then obtain e where e: "bw_engine w k ?cfg (generator_config_of ?cfg) by_slot (sn_carbon_forecast sc)
      (run_log dir (remove_temp dir fs)) = Some e" by blast
  have "pol_flavours (assignment_policy_of base_cfg) \<noteq> []" using assms(3) by (simp add: assignment_policy_of_def)
  then obtain out where "evaluate_end (bw_text w) sc base_cfg ?cfg n rt speed e = Some out"
    by (rule evaluate_end_covers [OF _ refl refl]) blast
  then show ?thesis using by_slot e by (simp add: run_single_n_def Let_def)
qed

lemma sweep_batches_return:
  assumes "plan_ok w pl" and "cfg_flavours cfg = cfg_flavours (pl_base pl)"
  shows "\<exists>sw'. fold_opt (sweep_batch w pl baseline cfg parent) sw sizes = Some sw'"
proof -
  have "\<exists>sw'. sweep_batch w pl baseline cfg parent sw n = Some sw'" for sw n
  proof -
    have "run_single_n w (sp_runs sw) (pl_scenario pl) cfg n (pl_realtime pl) (pl_speed pl)
        (path_join parent (''N'' @ show_nat n)) (pl_verbose pl) (sp_files sw) \<noteq> None"
      by (rule run_single_n_returns) (use assms in \<open>simp_all add: plan_ok_def\<close>)
    then show ?thesis by (auto simp: sweep_batch_def Let_def)
  qed
  then show ?thesis by (rule fold_opt_returns)
qed

lemma run_sweep_returns:
  assumes "plan_ok w pl"
  shows "\<exists>sw. run_sweep w pl fs = Some sw"
proof -
  let ?pol = "assignment_policy_of (pl_base pl)"
  have pol: "pol_flavours ?pol \<noteq> []" "0 \<le> pol_total_slots ?pol"
    using assms by (simp_all add: plan_ok_def assignment_policy_of_def)
  obtain f where f: "min_by_key fl_error (pol_flavours ?pol) = Some f" using fallback_exists [OF pol(1)] by blast
  obtain by_slot where by_slot: "requests_by_slot (bw_now w 0) (pl_scenario pl) = Some by_slot"
    using scenario_groups [of "pl_scenario pl"] assms unfolding plan_ok_def by blast
  have "run_baseline w pl 0 \<noteq> None" using f by_slot by (simp add: run_baseline_def run_greedy_baseline_def)
  then have "baseline_phase w pl \<lparr>sp_files = fs, sp_summaries = [], sp_runs = 0\<rparr> \<noteq> None"
    by (simp add: baseline_phase_def)
  then obtain baseline sw0 where base: "baseline_phase w pl \<lparr>sp_files = fs, sp_summaries = [], sp_runs = 0\<rparr> = Some (baseline, sw0)"
    by auto
  obtain sw1 where sw1: "fold_opt (sweep_batch w pl baseline (pl_base pl) (bc_output_dir (pl_benchmark pl))) sw0
      (bc_batch_sizes (pl_benchmark pl)) = Some sw1"
    using sweep_batches_return [OF assms] by blast
  have "\<exists>sw'. sweep_strategy w pl baseline sw s = Some sw'" for sw s
  proof -
    let ?cfg = "(pl_base pl)\<lparr>cfg_solver := (cfg_solver (pl_base pl))\<lparr>sc_solver_strategy := s\<rparr>\<rparr>"
    obtain sw' where "fold_opt (sweep_batch w pl baseline ?cfg (out_path pl (''online_'' @ s))) sw
        (online_sizes (pl_benchmark pl) s) = Some sw'"
      using sweep_batches_return [OF assms, of ?cfg] by fastforce
    then show ?thesis by (simp add: sweep_strategy_def Let_def)
  qed
  then obtain sw2 where sw2: "fold_opt (sweep_strategy w pl baseline) sw1 (bc_online_strategies (pl_benchmark pl)) = Some sw2"
    using fold_opt_returns [of "bc_online_strategies (pl_benchmark pl)" "sweep_strategy w pl baseline" sw1] by blast
  have "\<exists>sw'. sweep_additional w pl baseline sw s = Some sw'" if "s \<in> set (bc_additional_strategies (pl_benchmark pl))" for sw s
  proof -
    have "s \<in> {''greedy_cheapest'', ''bandit'', ''ant_colony''}" using that assms by (auto simp: plan_ok_def)
    moreover have "rng_ok (bw_rng w)" "\<forall>req\<in>set (sn_requests (pl_scenario pl)). in_horizon ?pol req"
      using assms by (simp_all add: plan_ok_def)
    ultimately obtain out where "run_named_strategy (bw_rng w) s (pl_scenario pl) ?pol
        (cfg_slot_duration_seconds (pl_base pl)) (pl_realtime pl) (pl_speed pl) = Some out"
      using named_strategy_returns [OF _ pol(1) _ pol(2)] by (metis (no_types, lifting))
    then show ?thesis by (simp add: sweep_additional_def)
  qed
  then obtain sw3 where "fold_opt (sweep_additional w pl baseline) sw2 (bc_additional_strategies (pl_benchmark pl)) = Some sw3"
    using fold_opt_returns [of "bc_additional_strategies (pl_benchmark pl)" "sweep_additional w pl baseline" sw2] by blast
  then show ?thesis using base sw1 sw2 by (simp add: run_sweep_def)
qed

section \<open>A concrete benchmark\<close>

datatype sample_value =
    Missing | Number nat | Name string | Items "sample_value list" | Fields "(string \<times> sample_value) list"

definition sample_values :: "sample_value value_api" where
  "sample_values =
     \<lparr>vl_get = (\<lambda>v k. case v of Fields kvs \<Rightarrow> map_of kvs k | _ \<Rightarrow> None), vl_null = Missing,
      vl_array = (\<lambda>v. case v of Items xs \<Rightarrow> Some xs | _ \<Rightarrow> None),
      vl_u64 = (\<lambda>v. case v of Number n \<Rightarrow> Some n | _ \<Rightarrow> None),
      vl_f64 = (\<lambda>v. case v of Number n \<Rightarrow> Some (real n) | _ \<Rightarrow> None),
      vl_str = (\<lambda>v. case v of Name s \<Rightarrow> Some s | _ \<Rightarrow> None),
      vl_bool = (\<lambda>v. None), vl_flavours = (\<lambda>v. None)\<rparr>"

definition sample_document :: sample_value where
  "sample_document = Fields
     [(''batch_sizes'', Items [Number 1, Number 4]), (''scenario_path'', Name ''s.json''), (''output_dir'', Name ''out''),
      (''runner'', Fields [(''online_strategies'', Items [Name ''bandit'']),
         (''additional_strategies'', Items [Name ''greedy_cheapest''])])]"

definition sample_bench_scenario :: scenario where
  "sample_bench_scenario = sample_scenario [sample_scenario_request 7 1 2] [1, 9, 5]"

definition sample_bench :: "(sample_value, nat) benchmark_world" where
  "sample_bench =
     \<lparr>bw_json = sample_values, bw_config_file = (\<lambda>p. if p = ''bench/c.json'' then Some sample_document else None),
      bw_scenario_file = (\<lambda>p. if p = ''bench/s.json'' then Some sample_bench_scenario else None),
      bw_text = whole_text, bw_rng = sample_rng, bw_now = (\<lambda>_ _. 0), bw_stamp = (\<lambda>_. 0), bw_elapsed = (\<lambda>_. 1),
      bw_engine = (\<lambda>k cfg gc by_slot forecast log. Some
        \<lparr>re_inner = inner_new\<lparr>in_pending := [request_new 0 8 3 9]\<rparr>, re_sched = scheduler_state_new 0,
         re_log = fold (log_commit whole_text) [sample_commit 1 7 5] log\<rparr>)\<rparr>"

definition sample_plan :: benchmark_plan where
  "sample_plan =
     \<lparr>pl_benchmark = \<lparr>bc_batch_sizes = [1, 4], bc_scenario_path = ''bench/s.json'', bc_output_dir = ''bench/out'',
        bc_realtime_slots = False, bc_realtime_speed_scale = 1, bc_include_greedy_baseline = True,
        bc_infeasibility_recovery_mode = None, bc_rollback_max_consecutive = 3,
        bc_additional_strategies = [''greedy_cheapest''], bc_online_strategies = [''bandit''],
        bc_online_batch_sizes = None, bc_batch_timeout_secs = 0, bc_max_batch_solver_parallelism = None,
        bc_online_swarm_mode = None, bc_baseline_total_carbon_cost = None, bc_flavours = None\<rparr>,
      pl_scenario = sample_bench_scenario,
      pl_base = benchmark_base_config
        \<lparr>bc_batch_sizes = [1, 4], bc_scenario_path = ''bench/s.json'', bc_output_dir = ''bench/out'',
         bc_realtime_slots = False, bc_realtime_speed_scale = 1, bc_include_greedy_baseline = True,
         bc_infeasibility_recovery_mode = None, bc_rollback_max_consecutive = 3,
         bc_additional_strategies = [''greedy_cheapest''], bc_online_strategies = [''bandit''],
         bc_online_batch_sizes = None, bc_batch_timeout_secs = 0, bc_max_batch_solver_parallelism = None,
         bc_online_swarm_mode = None, bc_baseline_total_carbon_cost = None, bc_flavours = None\<rparr>
        (sn_metadata sample_bench_scenario),
      pl_realtime = False, pl_speed = 1, pl_verbose = True\<rparr>"

lemma sample_load: "load_benchmark_config sample_values ''bench/c.json'' sample_document = Some (pl_benchmark sample_plan)"
  by (simp add: load_benchmark_config_def sample_document_def sample_values_def vl_index_def vl_field_def
      strings_of_def value_or_def path_parent_def path_join_def sample_plan_def List.map_filter_def Let_def)

lemma sample_args: "parse_args t [''--config'', ''bench/c.json'', ''--verbose''] no_arguments
   = Some \<lparr>arg_config_path = Some ''bench/c.json'', arg_realtime = None, arg_speed_scale = None, arg_verbose = True\<rparr>"
  by (simp add: no_arguments_def)

lemma sample_plan_prepared: "prepare_benchmark sample_bench [''--config'', ''bench/c.json'', ''--verbose''] = Some sample_plan"
proof -
  have "bw_json sample_bench = sample_values" "bw_config_file sample_bench ''bench/c.json'' = Some sample_document"
    "bw_scenario_file sample_bench ''bench/s.json'' = Some sample_bench_scenario" by (simp_all add: sample_bench_def)
  then show ?thesis
    by (simp add: prepare_benchmark_def sample_args value_or_def sample_load Let_def)
      (simp add: sample_plan_def no_arguments_def)
qed

lemma sample_plan_ok: "plan_ok sample_bench sample_plan"
proof -
  have base: "cfg_flavours (pl_base sample_plan) \<noteq> []" "cfg_total_slots (pl_base sample_plan) = 24"
    by (simp_all add: sample_plan_def benchmark_base_config_def apply_scenario_metadata_def config_default_def
        value_or_def Let_def sample_bench_scenario_def sample_scenario_def)
  then have "in_horizon (assignment_policy_of (pl_base sample_plan)) (sample_scenario_request 7 1 2)"
    by (simp add: in_horizon_def assignment_policy_of_def sample_scenario_request_def)
  then show ?thesis
    using base sample_rng_ok
    by (simp add: plan_ok_def engine_returns_def)
      (simp add: sample_bench_def sample_plan_def sample_bench_scenario_def sample_scenario_def)
qed

lemma benchmark_summary_exact_witness:
  "\<exists>sw sms. run_benchmark sample_bench [''--config'', ''bench/c.json'', ''--verbose''] [] = Some sw
     \<and> map rs_batch_size sms = [1, 4]
     \<and> map_of (sp_files sw) (out_path sample_plan ''summary_by_n.json'') = Some (Json_rows (map summary_to_json sms))"
proof -
  obtain sw where "run_sweep sample_bench sample_plan [] = Some sw" using run_sweep_returns [OF sample_plan_ok] by blast
  then have sw: "run_benchmark sample_bench [''--config'', ''bench/c.json'', ''--verbose''] [] = Some sw"
    by (simp add: run_benchmark_def sample_plan_prepared)
  have names: "''dp'' \<notin> set (bc_online_strategies (pl_benchmark sample_plan))" "[] \<notin> set (bc_online_strategies (pl_benchmark sample_plan))"
    "bc_batch_sizes (pl_benchmark sample_plan) = [1, 4]" by (simp_all add: sample_plan_def)
  show ?thesis using benchmark_summary_exact [OF sw sample_plan_prepared names(1,2), unfolded names(3)]
    by (elim exE conjE) (intro exI conjI, rule sw, assumption, assumption)
qed

lemma strategy_summary_exact_witness:
  "\<exists>sw sms. sweep_strategy sample_bench sample_plan None \<lparr>sp_files = [], sp_summaries = [], sp_runs = 0\<rparr> ''bandit'' = Some sw
     \<and> adds_summaries None ''bandit'' [1, 4] sms \<lparr>sp_files = [], sp_summaries = [], sp_runs = 0\<rparr> sw"
proof -
  let ?cfg = "(pl_base sample_plan)\<lparr>cfg_solver := (cfg_solver (pl_base sample_plan))\<lparr>sc_solver_strategy := ''bandit''\<rparr>\<rparr>"
  have sizes: "online_sizes (pl_benchmark sample_plan) ''bandit'' = [1, 4]"
    by (simp add: online_sizes_def sample_plan_def value_or_def to_ascii_lowercase_def ascii_lower_char_def)
  obtain sw' where "fold_opt (sweep_batch sample_bench sample_plan None ?cfg (out_path sample_plan ''online_bandit''))
      \<lparr>sp_files = [], sp_summaries = [], sp_runs = 0\<rparr> [1, 4] = Some sw'"
    using sweep_batches_return [OF sample_plan_ok, of ?cfg] by fastforce
  then obtain sw where sw: "sweep_strategy sample_bench sample_plan None \<lparr>sp_files = [], sp_summaries = [], sp_runs = 0\<rparr> ''bandit'' = Some sw"
    by (simp add: sweep_strategy_def Let_def sizes)
  from strategy_summary_exact [OF sw sizes [symmetric]] sw show ?thesis by blast
qed

lemma single_run_reports_witness:
  "\<exists>per_req timings sm fs'. run_single_n sample_bench 0 sample_bench_scenario (pl_base sample_plan) 4 False 1 ''out'' False []
       = Some ((per_req, timings, sm), fs') \<and> pr_request_id ` set per_req = {7, 8} \<and> rs_batch_size sm = 4"
proof -
  let ?cfg = "run_config sample_bench_scenario (pl_base sample_plan) 4 False 1 ''out'' False"
  let ?e = "\<lparr>re_inner = inner_new\<lparr>in_pending := [request_new 0 8 3 9]\<rparr>, re_sched = scheduler_state_new 0,
         re_log = fold (log_commit whole_text) [sample_commit 1 7 5] fresh_log\<rparr>"
  have reads: "bw_text sample_bench = whole_text" by (simp add: sample_bench_def)
  obtain by_slot where by_slot: "requests_by_slot (bw_now sample_bench 0) sample_bench_scenario = Some by_slot"
    using scenario_groups [of sample_bench_scenario] by (auto simp: sample_bench_scenario_def sample_scenario_def)
  have flavours: "cfg_flavours (pl_base sample_plan) \<noteq> []" using sample_plan_ok by (simp add: plan_ok_def)
  have engine: "bw_engine sample_bench 0 ?cfg (generator_config_of ?cfg) by_slot (sn_carbon_forecast sample_bench_scenario) fresh_log = Some ?e"
    by (simp add: sample_bench_def)
  have range: "\<forall>c\<in>set [sample_commit 1 7 5]. commit_in_range whole_text c" by (simp add: sample_commit_in_range in_i32_def)
  have new: "newly_assigned [sample_commit 1 7 5] = {7}"
    by (auto simp: newly_assigned_def sample_commit_def assignment_new_def assignment_new_for_profile_def)
  have pending: "rq_id ` set (in_pending (re_inner ?e)) = {8}" "distinct (map rq_id (in_pending (re_inner ?e)))"
    by (simp_all add: request_new_def)
  from single_run_reports [OF by_slot flavours refl engine, unfolded reads, of "[sample_commit 1 7 5]" "[]"] range pending new
  show ?thesis by (auto simp: insert_commute)
qed


end
