(* ===== verification/Spec2Isabelle.thy ===== *)
theory Spec2Isabelle
  imports Scheduler_Props Auth Dispatcher Submission Callbacks Provider_Clock Admin Monitoring Service Generator Evaluation Offline_Swarm Metrics_Log Simulate Startup Benchmark
begin

text \<open>
  CarbonShift: a carbon-aware scheduler of computing requests, in Rust under \<open>src/rust\<close>.

  \<^bold>\<open>The program.\<close> Requests arrive in time slots and may wait until a deadline. For each slot there is a
  forecast of the carbon intensity of electricity; each request runs in one of several flavours, that
  trade duration for error. The engine (\<open>src/rust/src/engine\<close>) collects requests in a queue, takes
  batches of one quality-of-service profile from it, and lets a worker choose slot and flavour of
  every request of the batch, at the least carbon cost within an error budget; the price of a slot grows
  with its occupancy by a ladder of capacity tiers. Workers run concurrently on a shared state and commit
  their choice under its lock, after a check that can roll it back. A REST service
  (\<open>src/rust/src/service\<close>, \<open>bin/service\<close>) feeds the engine from HTTP submissions, sends what is due to
  an executor, corrects errors and costs when the executor calls back, and lets a provider move the
  clock. A simulator (\<open>sim\<close>, \<open>bin/simulate\<close>) and a benchmark (\<open>bin/nshift\<close>) drive the same engine from
  recorded scenarios.

  \<^bold>\<open>Theories and what they model.\<close> Names of functions and fields are those of the code, with a prefix per
  record.
  \<^item> \<open>Prelude\<close>: numbers, casts, wrap-around, hash maps, text, and the lemmas they share. The collection
    \<open>map_simps\<close> holds the laws of hash maps.
  \<^item> \<open>Domain\<close> (\<open>engine/types.rs\<close>, \<open>qos.rs\<close>), \<open>Config\<close> (\<open>engine/config.rs\<close>, \<open>sim/scenario.rs\<close>).
  \<^item> \<open>Shared_State\<close> (\<open>engine/shared_state.rs\<close>): the record \<open>inner\<close> behind the lock, and the snapshot of
    the solvers. A method that holds the lock is a function on \<open>inner\<close>; \<open>inner_inv\<close> says that its counters
    are those of its assignments, and every operation preserves it; \<open>ledger_ok\<close> accounts for its error sums.
  \<^item> \<open>Dp_Solver\<close> (\<open>dp_solver.rs\<close>): the search over partial placements with its pruning and fallback.
    \<open>Recovery\<close>, \<open>Solve\<close> (\<open>scheduler/recovery.rs\<close>, \<open>scheduler/solve.rs\<close>): the baseline of errors and the
    preparation of a batch around the search.
  \<^item> \<open>Swarm\<close>, \<open>Swarm_Merge\<close> (\<open>online_swarm.rs\<close>, \<open>online_swarmerge.rs\<close>): bandit and ant colony, serialized
    or merged from deltas.
  \<^item> \<open>Dispatch\<close>, \<open>Worker\<close>, \<open>Swarm_Worker\<close>, \<open>Main_Loop\<close> (\<open>scheduler.rs\<close>, \<open>scheduler/forecast.rs\<close>): the
    claims of batches, one worker with everything others may do between its critical sections, one
    iteration of the main loop and the virtual clock.
  \<^item> \<open>Scheduler\<close>: the engine as a step relation \<open>system_step\<close>, one step per critical section, with any
    number of workers; \<open>Scheduler_Props\<close>: what holds of all its reachable states, and the abstract life
    cycle of a request, received, queued, held, scheduled, that it refines.
  \<^item> \<open>Service_State\<close>, \<open>Auth\<close>, \<open>Submission\<close>, \<open>Callbacks\<close>, \<open>Provider_Clock\<close>, \<open>Admin\<close>, \<open>Monitoring\<close>
    (\<open>service/state.rs\<close>, \<open>auth.rs\<close>, \<open>server.rs\<close>, \<open>handlers.rs\<close>, \<open>models.rs\<close>) and \<open>Dispatcher\<close>
    (\<open>dispatcher.rs\<close>): the state of the service and its handlers, split where they release a lock or wait.
  \<^item> \<open>Service\<close>: engine, handlers and dispatcher task as one step relation \<open>service_step\<close>; \<open>Startup\<close>
    (\<open>bin/service/main.rs\<close>): how the process comes to an initial state of it.
  \<^item> \<open>Generator\<close> (\<open>sim/generator.rs\<close>, \<open>scenario.rs\<close>), \<open>Simulate\<close> (\<open>bin/simulate/main.rs\<close>).
  \<^item> \<open>Metrics_Log\<close> (\<open>metrics_logger.rs\<close>, the rows of \<open>scheduler.rs\<close>, the readers of \<open>bin/nshift/main.rs\<close>),
    \<open>Evaluation\<close>, \<open>Offline_Swarm\<close> (\<open>bin/nshift/main.rs\<close>, \<open>swarm.rs\<close>): from the log of a run to its report,
    and the strategies that need no engine; \<open>Benchmark\<close> (\<open>bin/nshift/main.rs\<close>): one run, the sweep over
    batch sizes and strategies, and all its files.

  \<^bold>\<open>What the theorems show.\<close> Without pruning and timeout the search returns a placement of least cost
  among all that keep the error budget, or nothing if there is none; pruned, it returns none that breaks
  it, and none dearer than its incumbent. The counts of the budget are exact after any
  sequence of operations, and its error sums are those of the live assignments up to the changes that
  re-planning made to predicted errors, which the ledger of the run lists. A commit that is not forced never raises the price of a slot above what the solver paid
  for. No interleaving loses or duplicates a request; each worker ends within a bounded number of steps
  of its own and leaves no profile busy; an iteration of the main loop that finds a free worker and a
  full batch or a flush due leaves no eligible profile behind. Merged bandits lose no delta, and
  a merge with no other in between is the serialized update. The service refines the engine; each
  accepted request is tracked once, its outcome is final, a closed slot stays closed, and a dispatch
  that was given up is reopened only by the waiting submission. One malformed payload poisons the
  admission for good. A start that succeeds meets the hypotheses of all this. What a run logs is read back unchanged, the report
  joins it correctly, and the summary of a sweep is that of its runs. Some lemmas show where code and
  comment, or code and purpose, disagree. The last section of this theory follows the service from its
  environment to any state it reaches.

  \<^bold>\<open>Conventions.\<close> A float is a real: rounding, infinities and NaN are not modelled, so an average or a cost
  is exact (only the slot length given at the start is read with them, because the check there lets NaN
  pass); casts to integers saturate and truncate as in Rust. An \<open>i32\<close> slot is an \<open>int\<close> with
  \<open>i32_add\<close> and \<open>i32_sub\<close> wrapping as a release build does; unsigned integers are \<open>nat\<close>, reduced where
  the code can overflow. Strings are lists of characters. A hash map is an association list with
  distinct keys; where the code iterates over one, the order is that of the list, any list, or a
  parameter. A panic is \<open>None\<close>, an \<open>Err\<close> is \<open>Inl\<close>. Time is a parameter of the function that reads it.

  \<^bold>\<open>Parameters.\<close> What is not in this repository: random generators (\<open>rng\<close>, whose draws lie in their
  range by \<open>rng_ok\<close>), the normal distribution, JSON values (\<open>json_api\<close>, \<open>value_api\<close>), URL and RFC 3339
  parsers and printers, the HTTP client, the text of floats (\<open>f64_text\<close>, with \<open>text_ok\<close> for the values
  that are logged), and the readings of clocks. In \<open>Benchmark\<close> the threads of an engine run are a
  parameter too, of which a run reads only the final state and the log.

  \<^bold>\<open>Bounds.\<close> Recursion is structural or has a measure: chunks of a list, slots up to a deadline, digits of
  a number. The rollback loop of a worker ends by the limit at which a commit is forced, and with limit 0
  at once. Identifiers of the service come from a 64-bit counter; its wrap-around is excluded by the
  guard of the steps that reserve one.

  \<^bold>\<open>Not modelled\<close>: printing and logging messages, the progress line; sleeping and polling intervals,
  except as the conditions that are polled; the HTTP server, its header map and the JSON wire formats
  of serde; quoting and buffering of CSV files; signals and the shutdown; floating-point rounding. They
  are input and output of libraries, or have no state that the program's logic depends on. In the
  service, an unbounded number of handlers is modelled by its critical sections, not by its tasks.
\<close>

section \<open>The whole service\<close>

lemma startup_limits:
  assumes "start_service w = Some (s :: ('r, 'v) started)"
  shows "max_workers (st_config s) = 12" and "sc_rollback_max_consecutive (cfg_solver (st_config s)) = 0"
proof -
  have dp: "\<not> is_online_swarm_strategy ''dp''" by code_simp
  obtain sl where "st_config s = startup_config w sl" by (rule started_obtain [OF assms])
  then show "max_workers (st_config s) = 12" "sc_rollback_max_consecutive (cfg_solver (st_config s)) = 0"
    by (simp_all add: max_workers_def dp startup_config_def config_default_def solver_config_default_def)
qed

text \<open>
  C21: The service from its start on. Let the service have been started successfully from whatever
  environment, and let clients, provider, executor, dispatcher and scheduler have done anything since.
  Then its engine is in a state that the scheduler reaches by itself; the requests it answers for are
  exactly those that are queued, held by a worker or assigned, as many as were received; at most twelve
  workers run, one per profile; every scheduled request is counted once, by the statistics or by the
  worker that has yet to report it; and, with the configuration that is shipped, no commit was ever
  rolled back.
\<close>

theorem started_service_accounts:
  assumes "start_service w = Some (s :: ('r, 'v) started)" and "rng_ok (g :: 'r rng)"
    and "(service_step g (st_config s) fdb J)\<^sup>*\<^sup>* (st_service s) sv"
  shows "system_reachable g (st_config s) fdb (engine_of sv)
    \<and> fst ` set (ap_tracked (sv_app sv)) = known_ids (engine_of sv)
    \<and> card (known_ids (engine_of sv)) = in_total_received (ss_inner (ap_shared (sv_app sv)))
    \<and> card (dom (sv_workers sv)) \<le> 12 \<and> sd_active_profiles (sv_sched sv) = dom (sv_workers sv)
    \<and> sst_total_scheduled (sd_stats (sv_sched sv)) + landed_total (sv_workers sv)
        = card (dom (map_of (in_assignments (ss_inner (ap_shared (sv_app sv))))))
    \<and> in_max_consecutive_rollbacks_seen (ss_inner (ap_shared (sv_app sv))) = 0"
proof -
  let ?cfg = "st_config s"
  have start: "config_ok g ?cfg" "service_reachable g ?cfg fdb J (st_service s)"
    using start_service_sound [OF assms(1,2)] by blast+
  have "service_reachable g ?cfg fdb J sv"
    using assms(3) by (induction rule: rtranclp_induct) (auto intro: start(2) service_reachable.Step)
  then have inv: "service_inv ?cfg sv" and engine: "system_reachable g ?cfg fdb (engine_of sv)"
    using service_reachable_inv start(1) by blast+
  then have adm: "admissions_ok sv" and sys: "system_inv ?cfg (engine_of sv)" by (simp_all add: service_inv_def)
  have "fst ` set (ap_tracked (sv_app sv)) = known_ids (engine_of sv)"
    using adm by (simp add: admissions_ok_def dom_map_of_conv_image_fst)
  moreover have "card (known_ids (engine_of sv)) = in_total_received (ss_inner (ap_shared (sv_app sv)))"
    using sys by (simp add: system_inv_def ids_inv_def known_ids_def)
  moreover have "card (dom (sv_workers sv)) \<le> 12" "sd_active_profiles (sv_sched sv) = dom (sv_workers sv)"
    using sys startup_limits(1) [OF assms(1)] by (simp_all add: system_inv_def workers_match_def)
  moreover have "sst_total_scheduled (sd_stats (sv_sched sv)) + landed_total (sv_workers sv)
      = card (dom (map_of (in_assignments (ss_inner (ap_shared (sv_app sv))))))"
    using sys by (simp add: system_inv_def live_ids_def)
  moreover have "in_max_consecutive_rollbacks_seen (ss_inner (ap_shared (sv_app sv))) = 0"
    using sys startup_limits(2) [OF assms(1)] by (simp add: system_inv_def)
  ultimately show ?thesis using engine by blast
qed

lemma started_service_accounts_witness:
  "\<exists>s :: (unit, json) started. start_service (sample_world manual_env) = Some s
    \<and> system_reachable still_rng (st_config s) [] (engine_of (st_service s))
    \<and> card (dom (sv_workers (st_service s))) \<le> 12"
proof -
  obtain s :: "(unit, json) started" where s: "start_service (sample_world manual_env) = Some s"
    using sample_starts [of manual_env] by auto
  then show ?thesis using started_service_accounts [OF s still_rng_ok rtranclp.rtrancl_refl, of "[]"] by blast
qed

end
